(* ===== verification/Prelude.thy ===== *)
theory Prelude
  imports Main "HOL-Library.Word" "HOL-Library.Sublist"
begin

text \<open>
  What every component theory shares: the Rust result type and its sequencing, fallible
  stateful computations, the checked and saturating integer operations the sources call,
  big-endian byte encodings, duplicate detection with an ordered set, and the generic list
  lemmas the component proofs rest on.

  Collections: \<open>result_simps\<close> decides when a sequenced computation succeeds or fails,
  \<open>width_simps\<close> moves machine integers to \<open>nat\<close>, \<open>codec_simps\<close> holds the lengths and
  inverses of the byte encodings.
\<close>

named_theorems result_simps \<open>when a sequenced fallible computation succeeds or fails\<close>
named_theorems width_simps \<open>machine integers read as natural numbers\<close>
named_theorems codec_simps \<open>lengths and inverses of byte encodings\<close>

section \<open>Results\<close>

text \<open>\<open>Result<T, E>\<close> is a sum with the error on the left, as \<open>Err\<close>, and \<open>Ok\<close> on the right.\<close>

type_synonym ('e, 'a) result = "'e + 'a"

abbreviation Ok :: "'a \<Rightarrow> ('e, 'a) result" where
  "Ok \<equiv> Inr"

abbreviation Err :: "'e \<Rightarrow> ('e, 'a) result" where
  "Err \<equiv> Inl"

text \<open>The question-mark operator: stop at an error, continue with the value.\<close>

definition and_then :: "('e, 'a) result \<Rightarrow> ('a \<Rightarrow> ('e, 'b) result) \<Rightarrow> ('e, 'b) result" where
  "and_then r f = (case r of Err e \<Rightarrow> Err e | Ok x \<Rightarrow> f x)"

definition map_err :: "('e \<Rightarrow> 'f) \<Rightarrow> ('e, 'a) result \<Rightarrow> ('f, 'a) result" where
  "map_err h r = (case r of Err e \<Rightarrow> Err (h e) | Ok x \<Rightarrow> Ok x)"

definition ok_or :: "'a option \<Rightarrow> 'e \<Rightarrow> ('e, 'a) result" where
  "ok_or x e = (case x of None \<Rightarrow> Err e | Some v \<Rightarrow> Ok v)"

text \<open>An early return: continue only if the condition does not hold.\<close>

definition fail_if :: "bool \<Rightarrow> 'e \<Rightarrow> ('e, unit) result" where
  "fail_if c e = (if c then Err e else Ok ())"

text \<open>\<open>iter().map(f).collect::<Result<Vec<_>, _>>()\<close>: all values, or the first error.\<close>

fun collect :: "('a \<Rightarrow> ('e, 'b) result) \<Rightarrow> 'a list \<Rightarrow> ('e, 'b list) result" where
  "collect f [] = Ok []"
| "collect f (x # xs) = and_then (f x) (\<lambda>y. and_then (collect f xs) (\<lambda>ys. Ok (y # ys)))"

text \<open>\<open>Option<Result<T, E>>::transpose\<close> after a map.\<close>

definition transpose_map :: "('a \<Rightarrow> ('e, 'b) result) \<Rightarrow> 'a option \<Rightarrow> ('e, 'b option) result" where
  "transpose_map f x =
     (case x of None \<Rightarrow> Ok None | Some v \<Rightarrow> and_then (f v) (\<lambda>y. Ok (Some y)))"

lemma and_then_simps [simp]:
  "and_then (Ok x) f = f x"
  "and_then (Err e) f = Err e"
  by (simp_all add: and_then_def)

lemma and_then_Ok_iff [result_simps]:
  "and_then r f = Ok y \<longleftrightarrow> (\<exists>x. r = Ok x \<and> f x = Ok y)"
  by (cases r) auto

lemma and_then_Err_iff [result_simps]:
  "and_then r f = Err e \<longleftrightarrow> r = Err e \<or> (\<exists>x. r = Ok x \<and> f x = Err e)"
  by (cases r) auto

lemma and_then_assoc:
  "and_then (and_then r f) g = and_then r (\<lambda>x. and_then (f x) g)"
  by (cases r) auto

lemma map_err_simps [simp]:
  "map_err h (Ok x) = Ok x"
  "map_err h (Err e) = Err (h e)"
  by (simp_all add: map_err_def)

lemma map_err_iff [result_simps]:
  "map_err h r = Ok x \<longleftrightarrow> r = Ok x"
  "map_err h r = Err f \<longleftrightarrow> (\<exists>e. r = Err e \<and> f = h e)"
  by (cases r; auto)+

lemma ok_or_simps [simp]:
  "ok_or None e = Err e"
  "ok_or (Some x) e = Ok x"
  by (simp_all add: ok_or_def)

lemma ok_or_iff [result_simps]:
  "ok_or x e = Ok v \<longleftrightarrow> x = Some v"
  "ok_or x e = Err f \<longleftrightarrow> x = None \<and> f = e"
  by (cases x; auto)+

lemma fail_if_simps [simp]:
  "fail_if False e = Ok ()"
  "fail_if True e = Err e"
  by (simp_all add: fail_if_def)

lemma fail_if_iff [result_simps]:
  "fail_if c e = Ok u \<longleftrightarrow> \<not> c"
  "fail_if c e = Err f \<longleftrightarrow> c \<and> f = e"
  by (auto simp: fail_if_def)

lemma transpose_map_simps [simp]:
  "transpose_map f None = Ok None"
  "transpose_map f (Some x) = and_then (f x) (\<lambda>y. Ok (Some y))"
  by (simp_all add: transpose_map_def)

lemma collect_Ok_iff: "collect f xs = Ok ys \<longleftrightarrow> list_all2 (\<lambda>x y. f x = Ok y) xs ys"
  by (induction xs arbitrary: ys) (auto simp: result_simps list_all2_Cons1)

lemma collect_Ok_map: "(\<And>x. x \<in> set xs \<Longrightarrow> f x = Ok (g x)) \<Longrightarrow> collect f xs = Ok (map g xs)"
  by (induction xs) auto

section \<open>Fallible stateful computations\<close>

text \<open>
  An asynchronous method that reads or changes state is a function from the state to its
  result and the new state. Awaiting the next call keeps the state of the one before, also
  when it failed: an error is returned, nothing is rolled back.
\<close>

type_synonym ('s, 'e, 'a) eff = "'s \<Rightarrow> ('e, 'a) result \<times> 's"

definition ret :: "'a \<Rightarrow> ('s, 'e, 'a) eff" where
  "ret x = (\<lambda>s. (Ok x, s))"

definition throw :: "'e \<Rightarrow> ('s, 'e, 'a) eff" where
  "throw e = (\<lambda>s. (Err e, s))"

definition lift_result :: "('e, 'a) result \<Rightarrow> ('s, 'e, 'a) eff" where
  "lift_result r = (\<lambda>s. (r, s))"

definition bind_eff :: "('s, 'e, 'a) eff \<Rightarrow> ('a \<Rightarrow> ('s, 'e, 'b) eff) \<Rightarrow> ('s, 'e, 'b) eff" where
  "bind_eff m f = (\<lambda>s. case m s of (Err e, s') \<Rightarrow> (Err e, s') | (Ok x, s') \<Rightarrow> f x s')"

lemma eff_simps [simp]:
  "ret x s = (Ok x, s)"
  "throw e s = (Err e, s)"
  "lift_result r s = (r, s)"
  by (simp_all add: ret_def throw_def lift_result_def)

lemma bind_eff_apply:
  "bind_eff m f s = (case m s of (Err e, s') \<Rightarrow> (Err e, s') | (Ok x, s') \<Rightarrow> f x s')"
  by (simp add: bind_eff_def)

lemma bind_eff_Ok_iff [result_simps]:
  "bind_eff m f s = (Ok y, t) \<longleftrightarrow> (\<exists>x s'. m s = (Ok x, s') \<and> f x s' = (Ok y, t))"
  by (auto simp: bind_eff_def split: prod.splits sum.splits)

lemma bind_eff_Err_iff [result_simps]:
  "bind_eff m f s = (Err e, t) \<longleftrightarrow>
     m s = (Err e, t) \<or> (\<exists>x s'. m s = (Ok x, s') \<and> f x s' = (Err e, t))"
  by (auto simp: bind_eff_def split: prod.splits sum.splits)

lemma bind_eff_Ok [simp]: "m s = (Ok x, s') \<Longrightarrow> bind_eff m f s = f x s'"
  by (simp add: bind_eff_def)

lemma bind_eff_Err [simp]: "m s = (Err e, s') \<Longrightarrow> bind_eff m f s = (Err e, s')"
  by (simp add: bind_eff_def)

lemma bind_eff_ret [simp]: "bind_eff (ret x) f = f x"
  by (simp add: bind_eff_def fun_eq_iff)

lemma bind_eff_assoc:
  "bind_eff (bind_eff m f) g = bind_eff m (\<lambda>x. bind_eff (f x) g)"
  by (auto simp: bind_eff_def fun_eq_iff split: prod.splits sum.splits)

lemma bind_eff_throw [simp]: "bind_eff (throw e) f = throw e"
  by (simp add: bind_eff_def fun_eq_iff)

text \<open>\<open>map_err\<close> on the result of a call.\<close>

definition eff_err :: "('e \<Rightarrow> 'f) \<Rightarrow> ('s, 'e, 'a) eff \<Rightarrow> ('s, 'f, 'a) eff" where
  "eff_err h m = (\<lambda>s. case m s of (r, s') \<Rightarrow> (map_err h r, s'))"

lemma eff_err_Ok_iff [result_simps]: "eff_err h m s = (Ok x, s') \<longleftrightarrow> m s = (Ok x, s')"
  by (auto simp: eff_err_def result_simps split: prod.splits)

section \<open>Machine integers\<close>

type_synonym u8 = "8 word"
type_synonym u32 = "32 word"
type_synonym u64 = "64 word"

definition checked_add :: "'a::len word \<Rightarrow> 'a word \<Rightarrow> 'a word option" where
  "checked_add a b = (if uint a + uint b < 2 ^ LENGTH('a) then Some (a + b) else None)"

definition checked_sub :: "'a::len word \<Rightarrow> 'a word \<Rightarrow> 'a word option" where
  "checked_sub a b = (if b \<le> a then Some (a - b) else None)"

definition checked_mul :: "'a::len word \<Rightarrow> 'a word \<Rightarrow> 'a word option" where
  "checked_mul a b = (if unat a * unat b < 2 ^ LENGTH('a) then Some (a * b) else None)"

definition saturating_sub :: "'a::len word \<Rightarrow> 'a word \<Rightarrow> 'a word" where
  "saturating_sub a b = (if b \<le> a then a - b else 0)"

lemma unat_less: "unat w < 2 ^ LENGTH('a)"
  for w :: "'a::len word"
  by (rule unsigned_less)

lemma checked_add_nat:
  "checked_add a b = (if unat a + unat b < 2 ^ LENGTH('a) then Some (a + b) else None)"
  for a b :: "'a::len word"
proof -
  have "uint a + uint b < 2 ^ LENGTH('a) \<longleftrightarrow> int (unat a + unat b) < int (2 ^ LENGTH('a))"
    by simp
  also have "\<dots> \<longleftrightarrow> unat a + unat b < 2 ^ LENGTH('a)"
    by (rule of_nat_less_iff)
  finally show ?thesis by (simp add: checked_add_def)
qed

lemma checked_add_SomeD [width_simps]:
  "checked_add a b = Some c \<longleftrightarrow> unat c = unat a + unat b"
  for a b c :: "'a::len word"
proof
  assume "checked_add a b = Some c"
  then show "unat c = unat a + unat b"
    by (auto simp: checked_add_nat unat_word_ariths split: if_splits)
next
  assume c: "unat c = unat a + unat b"
  then have "unat a + unat b < 2 ^ LENGTH('a)"
    using unat_less [of c] by simp
  moreover from this have "unat (a + b) = unat c"
    using c by (simp add: unat_word_ariths)
  ultimately show "checked_add a b = Some c"
    by (simp add: checked_add_nat word_unat_eq_iff)
qed

lemma checked_mul_SomeD [width_simps]:
  "checked_mul a b = Some c \<longleftrightarrow> unat c = unat a * unat b"
  for a b c :: "'a::len word"
proof
  assume "checked_mul a b = Some c"
  then show "unat c = unat a * unat b"
    by (auto simp: checked_mul_def unat_word_ariths split: if_splits)
next
  assume c: "unat c = unat a * unat b"
  then have "unat a * unat b < 2 ^ LENGTH('a)"
    using unat_less [of c] by simp
  moreover from this have "unat (a * b) = unat c"
    using c by (simp add: unat_word_ariths)
  ultimately show "checked_mul a b = Some c"
    by (simp add: checked_mul_def word_unat_eq_iff)
qed

lemma unat_ucast_up: "LENGTH('a) \<le> LENGTH('b) \<Longrightarrow> unat (ucast w :: 'b::len word) = unat w"
  for w :: "'a::len word"
proof -
  assume le: "LENGTH('a) \<le> LENGTH('b)"
  have "unat w < 2 ^ LENGTH('a)" by (rule unsigned_less)
  also have "\<dots> \<le> 2 ^ LENGTH('b)" using le by (rule power_increasing) simp
  finally show ?thesis by (simp add: unsigned_ucast_eq take_bit_nat_eq_self)
qed

lemma checked_add_None_iff [width_simps]:
  "checked_add a b = None \<longleftrightarrow> 2 ^ LENGTH('a) \<le> unat a + unat b"
  for a b :: "'a::len word"
  by (auto simp: checked_add_nat)

lemma checked_sub_SomeD [width_simps]:
  "checked_sub a b = Some c \<longleftrightarrow> unat a = unat b + unat c"
  for a b c :: "'a::len word"
proof
  assume "checked_sub a b = Some c"
  then show "unat a = unat b + unat c"
    by (auto simp: checked_sub_def unat_sub word_le_nat_alt split: if_splits)
next
  assume a: "unat a = unat b + unat c"
  then have "b \<le> a" by (simp add: word_le_nat_alt)
  moreover from this a have "unat (a - b) = unat c" by (simp add: unat_sub)
  ultimately show "checked_sub a b = Some c"
    by (simp add: checked_sub_def word_unat_eq_iff)
qed

lemma checked_sub_None_iff [width_simps]: "checked_sub a b = None \<longleftrightarrow> a < b"
  by (auto simp: checked_sub_def)

lemma unat_saturating_sub [width_simps]: "unat (saturating_sub a b) = unat a - unat b"
  by (auto simp: saturating_sub_def unat_sub word_le_nat_alt not_le)

section \<open>Big-endian bytes\<close>

text \<open>The low \<open>n\<close> bytes of a number, most significant first, and the number a byte string spells.\<close>

fun be_bytes :: "nat \<Rightarrow> nat \<Rightarrow> u8 list" where
  "be_bytes 0 x = []"
| "be_bytes (Suc n) x = be_bytes n (x div 256) @ [of_nat (x mod 256)]"

definition be_value :: "u8 list \<Rightarrow> nat" where
  "be_value bs = foldl (\<lambda>a b. a * 256 + unat b) 0 bs"

definition u64_be :: "u64 \<Rightarrow> u8 list" where
  "u64_be w = be_bytes 8 (unat w)"

definition u32_be :: "u32 \<Rightarrow> u8 list" where
  "u32_be w = be_bytes 4 (unat w)"

lemma length_be_bytes [simp, codec_simps]: "length (be_bytes n x) = n"
  by (induction n arbitrary: x) auto

lemma length_u64_be [simp, codec_simps]: "length (u64_be w) = 8"
  by (simp add: u64_be_def)

lemma length_u32_be [simp, codec_simps]: "length (u32_be w) = 4"
  by (simp add: u32_be_def)

lemma be_value_simps [simp]:
  "be_value [] = 0"
  "be_value (bs @ [b]) = be_value bs * 256 + unat b"
  by (simp_all add: be_value_def)

lemma unat_of_nat_byte: "unat (of_nat (x mod 256) :: u8) = x mod 256"
  by (simp add: unat_of_nat)

lemma be_value_be_bytes [codec_simps]: "be_value (be_bytes n x) = x mod 256 ^ n"
proof (induction n arbitrary: x)
  case 0
  then show ?case by simp
next
  case (Suc n)
  have "x mod (256 * 256 ^ n) = 256 * (x div 256 mod 256 ^ n) + x mod 256"
    by (rule mod_mult2_eq)
  with Suc show ?case by (simp add: unat_of_nat)
qed

lemma be_value_bound: "be_value bs < 256 ^ length bs"
proof (induction bs rule: rev_induct)
  case Nil
  then show ?case by simp
next
  case (snoc b bs)
  have "unat b < 256" using unat_less [of b] by simp
  with snoc show ?case by simp
qed

lemma be_bytes_be_value [codec_simps]: "be_bytes (length bs) (be_value bs) = bs"
proof (induction bs rule: rev_induct)
  case Nil
  then show ?case by simp
next
  case (snoc b bs)
  have "unat b < 256" using unat_less [of b] by simp
  with snoc show ?case by simp
qed

lemma be_value_u64_be [simp, codec_simps]: "be_value (u64_be w) = unat w"
proof -
  have "unat w < 256 ^ 8" using unat_less [of w] by simp
  then show ?thesis by (simp add: u64_be_def be_value_be_bytes)
qed

lemma be_value_u32_be [simp, codec_simps]: "be_value (u32_be w) = unat w"
proof -
  have "unat w < 256 ^ 4" using unat_less [of w] by simp
  then show ?thesis by (simp add: u32_be_def be_value_be_bytes)
qed

lemma u64_be_inject [simp]: "u64_be a = u64_be b \<longleftrightarrow> a = b"
  by (metis be_value_u64_be word_unat_eq_iff)

lemma u32_be_inject [simp]: "u32_be a = u32_be b \<longleftrightarrow> a = b"
  by (metis be_value_u32_be word_unat_eq_iff)

end
