(* ===== verification/Decimal.thy ===== *)
theory Decimal
  imports Prelude Complex_Main "HOL-Library.Char_ord" "HOL-Library.List_Lexorder"
begin

text \<open>
  The exact base-10 amounts of \<open>sdk/chains/base/src/decimal.rs\<close> and the asset conversions of
  \<open>sdk/chains/base/src/asset.rs\<close>: construction with normalisation, persistence components,
  checked addition and subtraction, atomic-unit conversion at fixed widths, the ordering that
  avoids aligning large scales, parsing and printing.

  Arbitrary-precision integers are \<open>int\<close> and \<open>nat\<close>. A scale is a \<open>u32\<close>, kept as a \<open>nat\<close> below
  \<open>2 ^ 32\<close>; the one place where a length is narrowed to it is checked as in the source. A string
  is its UTF-8 bytes, which is what \<open>len\<close>, \<open>bytes\<close> and \<open>split\<close> at an ASCII character count.
\<close>

section \<open>Data\<close>

datatype decimal_error_kind = Invalid | NegativeAmount | ExcessPrecision | Overflow

record decimal_error =
  de_kind :: decimal_error_kind
  de_message :: string

record decimal =
  coefficient :: int
  scale :: nat

datatype decimal_sign = Positive | Negative

record decimal_parts =
  dp_sign :: decimal_sign
  dp_magnitude :: "u8 list"
  dp_scale :: nat

text \<open>The result of \<open>Ord::cmp\<close>.\<close>

datatype ordering = Less | Equal | Greater

definition decimal_error_new :: "decimal_error_kind \<Rightarrow> string \<Rightarrow> decimal_error" where
  "decimal_error_new kind message = \<lparr>de_kind = kind, de_message = message\<rparr>"

definition decimal_invalid :: decimal_error where
  "decimal_invalid = decimal_error_new Invalid ''decimal must use canonical base-10 notation''"

text \<open>\<open>to_str_radix(10)\<close>.\<close>

definition digit_char :: "nat \<Rightarrow> char" where
  "digit_char d = char_of (48 + d)"

fun to_digits :: "nat \<Rightarrow> string" where
  "to_digits n = (if n < 10 then [digit_char n] else to_digits (n div 10) @ [digit_char (n mod 10)])"

text \<open>The errors the operations construct inline.\<close>

definition minimal_width_error :: decimal_error where
  "minimal_width_error =
     decimal_error_new Invalid ''decimal magnitude must use minimal-width big-endian encoding''"

definition negative_zero_error :: decimal_error where
  "negative_zero_error = decimal_error_new Invalid ''zero decimal must not use a negative sign''"

definition smaller_scale_error :: decimal_error where
  "smaller_scale_error =
     decimal_error_new Invalid ''target scale must not be smaller than the decimal scale''"

definition negative_amount_error :: decimal_error where
  "negative_amount_error =
     decimal_error_new NegativeAmount ''currency amount must not be negative''"

definition excess_precision_error :: "nat \<Rightarrow> decimal_error" where
  "excess_precision_error decimals =
     decimal_error_new ExcessPrecision
       (''amount has more than '' @ to_digits decimals @ '' fractional digits'')"

definition u64_overflow_error :: decimal_error where
  "u64_overflow_error = decimal_error_new Overflow ''atomic amount exceeds the u64 range''"

definition bytes_overflow_error :: "nat \<Rightarrow> decimal_error" where
  "bytes_overflow_error n =
     decimal_error_new Overflow (''atomic amount exceeds '' @ to_digits n @ '' bytes'')"

section \<open>Digits and bytes of a natural number\<close>

definition is_digit :: "char \<Rightarrow> bool" where
  "is_digit c \<longleftrightarrow> 48 \<le> (of_char c :: nat) \<and> (of_char c :: nat) \<le> 57"

text \<open>The number a string of digits denotes.\<close>

definition parse_digits :: "string \<Rightarrow> nat" where
  "parse_digits cs = foldl (\<lambda>a c. a * 10 + (of_char c - 48)) 0 cs"

text \<open>\<open>BigUint::to_bytes_be\<close>: minimal width, one zero byte for zero.\<close>

fun to_bytes_be :: "nat \<Rightarrow> u8 list" where
  "to_bytes_be n = (if n < 256 then [of_nat n] else to_bytes_be (n div 256) @ [of_nat (n mod 256)])"

declare to_digits.simps [simp del] to_bytes_be.simps [simp del]

section \<open>Construction\<close>

text \<open>The loop of \<open>normalize\<close>: drop trailing zeros while a fractional digit is left.\<close>

fun strip_zeros :: "int \<Rightarrow> nat \<Rightarrow> int \<times> nat" where
  "strip_zeros c 0 = (c, 0)"
| "strip_zeros c (Suc s) = (if c mod 10 = 0 then strip_zeros (c div 10) s else (c, Suc s))"

definition normalize :: "int \<Rightarrow> nat \<Rightarrow> decimal" where
  "normalize c s =
     (if c = 0 then \<lparr>coefficient = c, scale = 0\<rparr>
      else (case strip_zeros c s of (c', s') \<Rightarrow> \<lparr>coefficient = c', scale = s'\<rparr>))"

definition decimal_new :: "int \<Rightarrow> nat \<Rightarrow> decimal" where
  "decimal_new c s = normalize c s"

definition decimal_zero :: decimal where
  "decimal_zero = decimal_new 0 0"

definition from_atomic :: "nat \<Rightarrow> nat \<Rightarrow> decimal" where
  "from_atomic units decimals = decimal_new (int units) decimals"

definition from_u64 :: "u64 \<Rightarrow> decimal" where
  "from_u64 v = decimal_new (int (unat v)) 0"

definition is_zero :: "decimal \<Rightarrow> bool" where
  "is_zero d \<longleftrightarrow> coefficient d = 0"

definition magnitude :: "decimal \<Rightarrow> nat" where
  "magnitude d = nat \<bar>coefficient d\<bar>"

section \<open>Persistence components\<close>

definition parts :: "decimal \<Rightarrow> decimal_parts" where
  "parts d =
     \<lparr>dp_sign = (if coefficient d < 0 then Negative else Positive),
      dp_magnitude = (if coefficient d = 0 then [] else to_bytes_be (magnitude d)),
      dp_scale = scale d\<rparr>"

definition from_parts :: "decimal_parts \<Rightarrow> (decimal_error, decimal) result" where
  "from_parts p =
     (if (case dp_magnitude p of [] \<Rightarrow> False | b # _ \<Rightarrow> b = 0) then
        Err minimal_width_error
      else if dp_magnitude p = [] \<and> dp_sign p = Negative then
        Err negative_zero_error
      else
        let m = int (be_value (dp_magnitude p)) in
        Ok (decimal_new (case dp_sign p of Positive \<Rightarrow> m | Negative \<Rightarrow> - m) (dp_scale p)))"

section \<open>Arithmetic\<close>

definition scaled_coefficient :: "decimal \<Rightarrow> nat \<Rightarrow> (decimal_error, int) result" where
  "scaled_coefficient d s =
     (if s < scale d then
        Err smaller_scale_error
      else Ok (coefficient d * 10 ^ (s - scale d)))"

definition decimal_checked_add :: "decimal \<Rightarrow> decimal \<Rightarrow> (decimal_error, decimal) result" where
  "decimal_checked_add a b =
     (let s = max (scale a) (scale b) in
      and_then (scaled_coefficient a s) (\<lambda>left.
      and_then (scaled_coefficient b s) (\<lambda>right.
      Ok (decimal_new (left + right) s))))"

definition decimal_checked_sub :: "decimal \<Rightarrow> decimal \<Rightarrow> (decimal_error, decimal) result" where
  "decimal_checked_sub a b =
     (let s = max (scale a) (scale b) in
      and_then (scaled_coefficient a s) (\<lambda>left.
      and_then (scaled_coefficient b s) (\<lambda>right.
      Ok (decimal_new (left - right) s))))"

definition validate_amount :: "decimal \<Rightarrow> (decimal_error, unit) result" where
  "validate_amount d =
     fail_if (coefficient d < 0) negative_amount_error"

section \<open>Atomic units\<close>

definition to_atomic :: "decimal \<Rightarrow> nat \<Rightarrow> (decimal_error, nat) result" where
  "to_atomic d decimals =
     and_then (validate_amount d) (\<lambda>_.
     if scale d \<le> decimals then Ok (magnitude d * 10 ^ (decimals - scale d))
     else
       let divisor = 10 ^ (scale d - decimals) in
       if magnitude d mod divisor \<noteq> 0 then
         Err (excess_precision_error decimals)
       else Ok (magnitude d div divisor))"

definition to_atomic_u64 :: "decimal \<Rightarrow> nat \<Rightarrow> (decimal_error, u64) result" where
  "to_atomic_u64 d decimals =
     and_then (to_atomic d decimals) (\<lambda>units.
     let bytes = to_bytes_be units in
     if length bytes > 8 then
       Err u64_overflow_error
     else Ok (of_nat (be_value (replicate (8 - length bytes) 0 @ bytes))))"

definition to_atomic_be_bytes :: "nat \<Rightarrow> decimal \<Rightarrow> nat \<Rightarrow> (decimal_error, u8 list) result" where
  "to_atomic_be_bytes n d decimals =
     and_then (to_atomic d decimals) (\<lambda>units.
     let bytes = to_bytes_be units in
     if length bytes > n then
       Err (bytes_overflow_error n)
     else Ok (replicate (n - length bytes) 0 @ bytes))"

section \<open>Ordering\<close>

definition cmp_of :: "'a::linorder \<Rightarrow> 'a \<Rightarrow> ordering" where
  "cmp_of x y = (if x < y then Less else if x = y then Equal else Greater)"

definition compare_magnitude :: "decimal \<Rightarrow> decimal \<Rightarrow> ordering" where
  "compare_magnitude a b =
     (if coefficient a = 0 \<or> coefficient b = 0 then cmp_of (magnitude a) (magnitude b)
      else
        let left_exponent = int (length (to_digits (magnitude a))) - int (scale a);
            right_exponent = int (length (to_digits (magnitude b))) - int (scale b) in
        case cmp_of left_exponent right_exponent of
          Equal \<Rightarrow>
            (case cmp_of (scale a) (scale b) of
               Equal \<Rightarrow> cmp_of (magnitude a) (magnitude b)
             | Less \<Rightarrow> cmp_of (magnitude a * 10 ^ (scale b - scale a)) (magnitude b)
             | Greater \<Rightarrow> cmp_of (magnitude a) (magnitude b * 10 ^ (scale a - scale b)))
        | decided \<Rightarrow> decided)"

definition decimal_cmp :: "decimal \<Rightarrow> decimal \<Rightarrow> ordering" where
  "decimal_cmp a b =
     (if coefficient a < 0 then
        (if coefficient b < 0 then compare_magnitude b a else Less)
      else if coefficient b < 0 then Greater
      else compare_magnitude a b)"

section \<open>Text\<close>

text \<open>
  \<open>str::trim\<close> strips the characters with the Unicode property White\_Space. Over UTF-8 bytes they
  are these byte strings; a string is its own trim when none stands at either end.
\<close>

definition utf8_whitespace :: "nat list list" where
  "utf8_whitespace =
     [[9], [10], [11], [12], [13], [32], [194, 133], [194, 160], [225, 154, 128],
      [226, 128, 128], [226, 128, 129], [226, 128, 130], [226, 128, 131], [226, 128, 132],
      [226, 128, 133], [226, 128, 134], [226, 128, 135], [226, 128, 136], [226, 128, 137],
      [226, 128, 138], [226, 128, 168], [226, 128, 169], [226, 128, 175], [226, 129, 159],
      [227, 128, 128]]"

definition is_trimmed :: "string \<Rightarrow> bool" where
  "is_trimmed s \<longleftrightarrow>
     (let bytes = map of_char s in
      list_all (\<lambda>w. \<not> prefix w bytes \<and> \<not> suffix w bytes) utf8_whitespace)"

fun split_char :: "char \<Rightarrow> string \<Rightarrow> string list" where
  "split_char d [] = [[]]"
| "split_char d (c # cs) =
     (if c = d then [] # split_char d cs
      else (case split_char d cs of [] \<Rightarrow> [[c]] | p # ps \<Rightarrow> (c # p) # ps))"

definition from_str :: "string \<Rightarrow> (decimal_error, decimal) result" where
  "from_str value =
     (if value = [] \<or> \<not> is_trimmed value then Err decimal_invalid
      else
        let (negative, unsigned) =
              (case value of
                 [] \<Rightarrow> (False, value)
               | c # cs \<Rightarrow> if c = CHR ''-'' then (True, cs)
                          else if c = CHR ''+'' then (False, cs) else (False, value));
            pieces = split_char (CHR ''.'') unsigned;
            whole = (case pieces of [] \<Rightarrow> [] | w # _ \<Rightarrow> w);
            fraction = (case pieces of _ # f # _ \<Rightarrow> Some f | _ \<Rightarrow> None);
            extra = (case pieces of _ # _ # _ # _ \<Rightarrow> True | _ \<Rightarrow> False);
            invalid_notation =
              extra \<or> whole = [] \<or> \<not> list_all is_digit whole \<or>
              (case fraction of None \<Rightarrow> False
               | Some digits \<Rightarrow> digits = [] \<or> \<not> list_all is_digit digits)
        in
        if invalid_notation then Err decimal_invalid
        else
          let fraction = (case fraction of None \<Rightarrow> [] | Some f \<Rightarrow> f) in
          if int (length fraction) \<ge> 2 ^ 32 then Err decimal_invalid
          else
            let m = parse_digits (whole @ fraction) in
            Ok (decimal_new (if negative \<and> m \<noteq> 0 then - int m else int m) (length fraction)))"

definition to_string :: "decimal \<Rightarrow> string" where
  "to_string d =
     (let digits = to_digits (magnitude d);
          digits = (if scale d > 0 then
                      let padded = (if length digits \<le> scale d
                                    then replicate (scale d + 1 - length digits) (CHR ''0'') @ digits
                                    else digits)
                      in take (length padded - scale d) padded @ CHR ''.'' #
                         drop (length padded - scale d) padded
                    else digits)
      in if coefficient d < 0 then CHR ''-'' # digits else digits)"

section \<open>The value of a decimal\<close>

text \<open>
  The number a decimal stands for, and the representation invariant every constructor
  establishes: no trailing fractional zero.
\<close>

definition dval :: "decimal \<Rightarrow> rat" where
  "dval d = of_int (coefficient d) / 10 ^ scale d"

definition canonical :: "decimal \<Rightarrow> bool" where
  "canonical d \<longleftrightarrow> (scale d = 0 \<or> coefficient d mod 10 \<noteq> 0)"

lemma strip_zeros_value:
  "strip_zeros c s = (c', s') \<Longrightarrow> (of_int c' :: rat) / 10 ^ s' = of_int c / 10 ^ s"
proof (induction c s rule: strip_zeros.induct)
  case (1 c)
  then show ?case by simp
next
  case (2 c s)
  show ?case
  proof (cases "c mod 10 = 0")
    case True
    then obtain k where c: "c = 10 * k" by auto
    with 2 True have "(of_int c' :: rat) / 10 ^ s' = of_int k / 10 ^ s" by simp
    with c show ?thesis by simp
  next
    case False
    with 2 show ?thesis by simp
  qed
qed

lemma strip_zeros_canonical:
  "strip_zeros c s = (c', s') \<Longrightarrow> s' = 0 \<or> c' mod 10 \<noteq> 0"
  by (induction c s rule: strip_zeros.induct) (auto split: if_splits)

lemma strip_zeros_scale: "strip_zeros c s = (c', s') \<Longrightarrow> s' \<le> s"
  by (induction c s rule: strip_zeros.induct) (auto split: if_splits)

lemma strip_zeros_id: "s = 0 \<or> c mod 10 \<noteq> 0 \<Longrightarrow> strip_zeros c s = (c, s)"
  by (cases s) auto

lemma dval_new [simp]: "dval (decimal_new c s) = of_int c / 10 ^ s"
  by (auto simp: decimal_new_def normalize_def dval_def strip_zeros_value split: prod.splits)

lemma canonical_new [simp, intro]: "canonical (decimal_new c s)"
  by (auto simp: decimal_new_def normalize_def canonical_def strip_zeros_canonical split: prod.splits)

lemma scale_new: "scale (decimal_new c s) \<le> s"
  by (auto simp: decimal_new_def normalize_def strip_zeros_scale split: prod.splits)

lemma decimal_new_id: "canonical d \<Longrightarrow> decimal_new (coefficient d) (scale d) = d"
  by (cases d) (auto simp: decimal_new_def normalize_def canonical_def strip_zeros_id)

lemma dval_eq_iff: "dval a = dval b \<longleftrightarrow> coefficient a * 10 ^ scale b = coefficient b * 10 ^ scale a"
proof -
  have "dval a = dval b \<longleftrightarrow> (of_int (coefficient a * 10 ^ scale b) :: rat) = of_int (coefficient b * 10 ^ scale a)"
    by (simp add: dval_def field_simps)
  then show ?thesis by (simp only: of_int_eq_iff)
qed

lemma canonical_scale_le:
  assumes "canonical b" "coefficient a * 10 ^ scale b = coefficient b * 10 ^ scale a"
  shows "scale b \<le> scale a"
proof (rule ccontr)
  assume "\<not> scale b \<le> scale a"
  then obtain k where k: "scale b = Suc (scale a + k)"
    by (auto simp: not_le less_iff_Suc_add)
  have "coefficient b * 10 ^ scale a = coefficient a * 10 ^ scale b"
    using assms(2) by simp
  also have "\<dots> = (10 * (coefficient a * 10 ^ k)) * 10 ^ scale a"
    unfolding k by (simp add: power_add)
  finally have "coefficient b = 10 * (coefficient a * 10 ^ k)"
    by simp
  then have "coefficient b mod 10 = 0" by simp
  with assms(1) k show False by (simp add: canonical_def)
qed

lemma canonical_dval_inject:
  assumes "canonical a" "canonical b" "dval a = dval b"
  shows "a = b"
proof -
  from assms(3) have e: "coefficient a * 10 ^ scale b = coefficient b * 10 ^ scale a"
    by (simp add: dval_eq_iff)
  have "scale a = scale b"
    using canonical_scale_le [OF assms(2) e] canonical_scale_le [OF assms(1) e [symmetric]] by simp
  with e show ?thesis by (cases a, cases b) simp
qed

lemma canonical_zero_iff: "canonical d \<Longrightarrow> coefficient d = 0 \<Longrightarrow> scale d = 0"
  by (simp add: canonical_def)

section \<open>Addition and subtraction are exact\<close>

lemma scaled_max [simp]:
  "scaled_coefficient a (max (scale a) s) = Ok (coefficient a * 10 ^ (max (scale a) s - scale a))"
  "scaled_coefficient a (max s (scale a)) = Ok (coefficient a * 10 ^ (max s (scale a) - scale a))"
  by (simp_all add: scaled_coefficient_def)

lemma rescale: "scale a \<le> s \<Longrightarrow> (of_int (coefficient a * 10 ^ (s - scale a)) :: rat) / 10 ^ s = dval a"
proof -
  assume "scale a \<le> s"
  then obtain k where "s = scale a + k" using le_Suc_ex by blast
  then show ?thesis by (simp add: dval_def power_add)
qed

lemma checked_add_exact:
  "\<exists>c. decimal_checked_add a b = Ok c \<and> canonical c \<and> dval c = dval a + dval b"
proof -
  let ?s = "max (scale a) (scale b)"
  have "(of_int (coefficient a * 10 ^ (?s - scale a) + coefficient b * 10 ^ (?s - scale b)) :: rat) / 10 ^ ?s
        = dval a + dval b"
    using rescale [of a ?s] rescale [of b ?s] by (simp add: add_divide_distrib)
  then show ?thesis by (simp add: decimal_checked_add_def Let_def)
qed

lemma checked_sub_exact:
  "\<exists>c. decimal_checked_sub a b = Ok c \<and> canonical c \<and> dval c = dval a - dval b"
proof -
  let ?s = "max (scale a) (scale b)"
  have "(of_int (coefficient a * 10 ^ (?s - scale a) - coefficient b * 10 ^ (?s - scale b)) :: rat) / 10 ^ ?s
        = dval a - dval b"
    using rescale [of a ?s] rescale [of b ?s] by (simp add: diff_divide_distrib)
  then show ?thesis by (simp add: decimal_checked_sub_def Let_def)
qed

section \<open>Decimal digits\<close>

lemma to_digits_small: "n < 10 \<Longrightarrow> to_digits n = [digit_char n]"
  by (simp add: to_digits.simps)

lemma to_digits_step: "10 \<le> n \<Longrightarrow> to_digits n = to_digits (n div 10) @ [digit_char (n mod 10)]"
  by (subst to_digits.simps) simp

lemma of_char_digit: "d < 10 \<Longrightarrow> of_char (digit_char d) = 48 + d"
  by (simp add: digit_char_def)

lemma is_digit_char: "d < 10 \<Longrightarrow> is_digit (digit_char d)"
  by (simp add: is_digit_def of_char_digit)

lemma to_digits_bounds: "n < 10 ^ length (to_digits n) \<and> (0 < n \<longrightarrow> 10 ^ (length (to_digits n) - 1) \<le> n)"
proof (induction n rule: to_digits.induct)
  case (1 n)
  show ?case
  proof (cases "n < 10")
    case True
    then show ?thesis by (simp add: to_digits_small)
  next
    case False
    let ?k = "length (to_digits (n div 10))"
    from False 1 have lo: "10 ^ (?k - 1) \<le> n div 10" and hi: "n div 10 < 10 ^ ?k" by auto
    have "?k \<noteq> 0" using False by (subst to_digits.simps) simp
    then obtain k where k: "?k = Suc k" by (cases ?k) auto
    define p where "p = (10 :: nat) ^ k"
    from lo hi k have "p \<le> n div 10" and "n div 10 < 10 * p" by (simp_all add: p_def)
    then have "n < 100 * p" and "10 * p \<le> n" by linarith+
    with False k show ?thesis by (simp add: to_digits_step [of n] p_def)
  qed
qed

lemma to_digits_nonempty [simp]: "to_digits n \<noteq> []"
  by (subst to_digits.simps) simp

lemma to_digits_all_digits: "list_all is_digit (to_digits n)"
proof (induction n rule: to_digits.induct)
  case (1 n)
  then show ?case
    by (cases "n < 10") (simp_all add: to_digits_small to_digits_step is_digit_char)
qed

lemma parse_digits_snoc [simp]:
  "parse_digits [] = 0"
  "parse_digits (cs @ [c]) = parse_digits cs * 10 + (of_char c - 48)"
  by (simp_all add: parse_digits_def)

lemma parse_to_digits [simp]: "parse_digits (to_digits n) = n"
proof (induction n rule: to_digits.induct)
  case (1 n)
  show ?case
  proof (cases "n < 10")
    case True
    then show ?thesis
      using parse_digits_snoc(2) [of "[]" "digit_char n"]
      by (simp add: to_digits_small of_char_digit del: parse_digits_snoc(2))
  next
    case False
    with 1 show ?thesis by (simp add: to_digits_step of_char_digit)
  qed
qed

lemma parse_digits_zeros [simp]: "parse_digits (replicate k (CHR ''0'') @ cs) = parse_digits cs"
  by (induction k) (simp_all add: parse_digits_def)


section \<open>The ordering is that of the values\<close>

text \<open>
  Two magnitudes are compared by the position of their leading digit first, and only aligned
  when it is the same; cross multiplication is the reference.
\<close>

definition aval :: "decimal \<Rightarrow> rat" where
  "aval d = of_nat (magnitude d) / 10 ^ scale d"

lemma dval_aval: "dval d = (if coefficient d < 0 then - aval d else aval d)"
  by (simp add: dval_def aval_def magnitude_def)

lemma aval_nonneg [simp]: "0 \<le> aval d"
  by (simp add: aval_def)

lemma aval_cross:
  "aval a < aval b \<longleftrightarrow> magnitude a * 10 ^ scale b < magnitude b * 10 ^ scale a"
  "aval a = aval b \<longleftrightarrow> magnitude a * 10 ^ scale b = magnitude b * 10 ^ scale a"
proof -
  have "aval a < aval b \<longleftrightarrow>
      (of_nat (magnitude a * 10 ^ scale b) :: rat) < of_nat (magnitude b * 10 ^ scale a)"
    by (simp add: aval_def field_simps)
  then show "aval a < aval b \<longleftrightarrow> magnitude a * 10 ^ scale b < magnitude b * 10 ^ scale a"
    by (simp only: of_nat_less_iff)
  have "aval a = aval b \<longleftrightarrow>
      (of_nat (magnitude a * 10 ^ scale b) :: rat) = of_nat (magnitude b * 10 ^ scale a)"
    by (simp add: aval_def field_simps)
  then show "aval a = aval b \<longleftrightarrow> magnitude a * 10 ^ scale b = magnitude b * 10 ^ scale a"
    by (simp only: of_nat_eq_iff)
qed

lemma cmp_of_aval:
  "cmp_of (aval a) (aval b) = cmp_of (magnitude a * 10 ^ scale b) (magnitude b * 10 ^ scale a)"
  by (simp add: cmp_of_def aval_cross)

lemma cmp_of_mult: "0 < c \<Longrightarrow> cmp_of (x * c) (y * c) = cmp_of x y"
  for x y c :: nat
  by (simp add: cmp_of_def)

lemma cmp_of_minus: "cmp_of (- x) (- y) = cmp_of y x"
  for x y :: rat
  by (auto simp: cmp_of_def)

lemma fewer_digits_less:
  assumes "0 < magnitude b"
    and "int (length (to_digits (magnitude a))) - int (scale a)
       < int (length (to_digits (magnitude b))) - int (scale b)"
  shows "magnitude a * 10 ^ scale b < magnitude b * 10 ^ scale a"
proof -
  let ?la = "length (to_digits (magnitude a))" and ?lb = "length (to_digits (magnitude b))"
  have "0 < ?lb" by simp
  with assms(2) have e: "?la + scale b \<le> ?lb - 1 + scale a" by linarith
  have "magnitude a * 10 ^ scale b < 10 ^ ?la * 10 ^ scale b"
    using to_digits_bounds [of "magnitude a"] by simp
  also have "\<dots> = 10 ^ (?la + scale b)" by (simp add: power_add)
  also have "\<dots> \<le> 10 ^ (?lb - 1 + scale a)" using e by (simp add: power_increasing)
  also have "\<dots> = 10 ^ (?lb - 1) * 10 ^ scale a" by (simp add: power_add)
  also have "\<dots> \<le> magnitude b * 10 ^ scale a"
    using to_digits_bounds [of "magnitude b"] assms(1) by simp
  finally show ?thesis .
qed

lemma cmp_of_scaled:
  "cmp_of (x * 10 ^ (s + k)) (y * 10 ^ s) = cmp_of (x * 10 ^ k) y"
  "cmp_of (x * 10 ^ s) (y * 10 ^ (s + k)) = cmp_of x (y * 10 ^ k)"
  for x y s k :: nat
proof -
  have "z * 10 ^ (s + k) = z * 10 ^ k * 10 ^ s" for z :: nat by (simp add: power_add)
  then show "cmp_of (x * 10 ^ (s + k)) (y * 10 ^ s) = cmp_of (x * 10 ^ k) y"
    and "cmp_of (x * 10 ^ s) (y * 10 ^ (s + k)) = cmp_of x (y * 10 ^ k)"
    by (simp_all only: cmp_of_mult zero_less_power zero_less_numeral)
qed

lemma same_exponent_compare:
  "(case cmp_of s t of
      Equal \<Rightarrow> cmp_of x y
    | Less \<Rightarrow> cmp_of (x * 10 ^ (t - s)) y
    | Greater \<Rightarrow> cmp_of x (y * 10 ^ (s - t)))
   = cmp_of (x * 10 ^ t) (y * 10 ^ s)"
  for x y s t :: nat
proof (cases s t rule: linorder_cases)
  case less
  then obtain k where "t = s + k" "0 < k" using less_imp_add_positive by blast
  then show ?thesis by (simp add: cmp_of_scaled cmp_of_def [of s])
next
  case equal
  then show ?thesis by (simp add: cmp_of_mult cmp_of_def [of t])
next
  case greater
  then obtain k where "s = t + k" "0 < k" using less_imp_add_positive by blast
  then show ?thesis by (simp add: cmp_of_scaled cmp_of_def [of "t + k"])
qed

lemma compare_magnitude_correct: "compare_magnitude a b = cmp_of (aval a) (aval b)"
proof (cases "coefficient a = 0 \<or> coefficient b = 0")
  case True
  then show ?thesis
    unfolding cmp_of_aval by (auto simp: compare_magnitude_def cmp_of_def magnitude_def)
next
  case False
  then have pos: "0 < magnitude a" "0 < magnitude b" by (simp_all add: magnitude_def)
  let ?ea = "int (length (to_digits (magnitude a))) - int (scale a)"
  let ?eb = "int (length (to_digits (magnitude b))) - int (scale b)"
  show ?thesis
  proof (cases ?ea ?eb rule: linorder_cases)
    case less
    with pos have "magnitude a * 10 ^ scale b < magnitude b * 10 ^ scale a"
      by (intro fewer_digits_less)
    with False less show ?thesis
      unfolding cmp_of_aval by (simp add: compare_magnitude_def Let_def cmp_of_def)
  next
    case equal
    with False show ?thesis
      unfolding cmp_of_aval same_exponent_compare [symmetric]
      by (simp add: compare_magnitude_def Let_def cmp_of_def [of ?eb])
  next
    case greater
    with pos have "magnitude b * 10 ^ scale a < magnitude a * 10 ^ scale b"
      by (intro fewer_digits_less)
    with False greater show ?thesis
      unfolding cmp_of_aval by (simp add: compare_magnitude_def Let_def cmp_of_def)
  qed
qed

lemma decimal_cmp_correct: "decimal_cmp a b = cmp_of (dval a) (dval b)"
proof -
  have neg: "coefficient d < 0 \<Longrightarrow> dval d < 0" for d
    by (simp add: dval_def divide_less_0_iff)
  have nonneg: "\<not> coefficient d < 0 \<Longrightarrow> 0 \<le> dval d" for d
    by (simp add: dval_def)
  show ?thesis
  proof (cases "coefficient a < 0 \<longleftrightarrow> coefficient b < 0")
    case True
    then show ?thesis
      by (auto simp: decimal_cmp_def compare_magnitude_correct dval_aval cmp_of_minus)
  next
    case False
    with neg [of a] neg [of b] nonneg [of a] nonneg [of b] show ?thesis
      by (auto simp: decimal_cmp_def cmp_of_def)
  qed
qed

section \<open>Atomic units are exact\<close>

lemma to_bytes_be_small: "n < 256 \<Longrightarrow> to_bytes_be n = [of_nat n]"
  by (simp add: to_bytes_be.simps)

lemma to_bytes_be_step: "256 \<le> n \<Longrightarrow> to_bytes_be n = to_bytes_be (n div 256) @ [of_nat (n mod 256)]"
  by (subst to_bytes_be.simps) simp

lemma be_value_to_bytes_be [simp, codec_simps]: "be_value (to_bytes_be n) = n"
proof (induction n rule: to_bytes_be.induct)
  case (1 n)
  show ?case
  proof (cases "n < 256")
    case True
    then show ?thesis
      using be_value_simps(2) [of "[]" "of_nat n"]
      by (simp add: to_bytes_be_small unat_of_nat del: be_value_simps(2))
  next
    case False
    with 1 show ?thesis by (simp add: to_bytes_be_step unat_of_nat)
  qed
qed

lemma length_to_bytes_be: "length (to_bytes_be n) \<le> Suc k \<longleftrightarrow> n < 256 ^ Suc k"
proof (induction n arbitrary: k rule: to_bytes_be.induct)
  case (1 n)
  show ?case
  proof (cases "n < 256")
    case True
    have "256 \<le> (256 :: nat) ^ Suc k" by simp
    with True have "n < 256 ^ Suc k" by linarith
    with True show ?thesis by (simp add: to_bytes_be_small)
  next
    case False
    show ?thesis
    proof (cases k)
      case 0
      have "0 < length (to_bytes_be (n div 256))" by (subst to_bytes_be.simps) simp
      with False 0 show ?thesis by (simp add: to_bytes_be_step)
    next
      case (Suc k')
      with 1 False have "length (to_bytes_be (n div 256)) \<le> k \<longleftrightarrow> n div 256 < 256 ^ k" by simp
      also have "\<dots> \<longleftrightarrow> n < 256 ^ Suc k" by (simp add: div_less_iff_less_mult mult.commute)
      finally show ?thesis using False by (simp add: to_bytes_be_step)
    qed
  qed
qed

lemma be_value_zeros [simp]: "be_value (replicate k 0 @ bs) = be_value bs"
  by (induction k) (simp_all add: be_value_def)

lemma to_atomic_Ok_iff: "to_atomic d n = Ok u \<longleftrightarrow> dval d * 10 ^ n = of_nat u"
proof (cases "coefficient d < 0")
  case True
  then have "dval d * 10 ^ n < 0" by (simp add: dval_def divide_less_0_iff mult_less_0_iff)
  then have "dval d * 10 ^ n \<noteq> of_nat u" using of_nat_0_le_iff [of u] by (metis not_le)
  with True show ?thesis by (simp add: to_atomic_def validate_amount_def)
next
  case False
  then have v: "dval d = of_nat (magnitude d) / 10 ^ scale d" by (simp add: dval_aval aval_def)
  show ?thesis
  proof (cases "scale d \<le> n")
    case True
    then obtain k where k: "n = scale d + k" using le_Suc_ex by blast
    then have "dval d * 10 ^ n = of_nat (magnitude d * 10 ^ k)" by (simp add: v power_add)
    with False k show ?thesis
      by (simp add: to_atomic_def validate_amount_def del: of_nat_mult)
  next
    case nle: False
    then obtain k where k: "scale d = n + k" using nat_le_linear le_Suc_ex by blast
    have "dval d * 10 ^ n = of_nat u \<longleftrightarrow> (of_nat (magnitude d) :: rat) = of_nat (u * 10 ^ k)"
      by (simp add: v k power_add field_simps)
    then have iff: "dval d * 10 ^ n = of_nat u \<longleftrightarrow> magnitude d = u * 10 ^ k"
      by (simp only: of_nat_eq_iff)
    show ?thesis
      using False nle k unfolding iff
      by (auto simp: to_atomic_def validate_amount_def Let_def)
  qed
qed


lemma to_atomic_Err_iff:
  "to_atomic d n = Err e \<longleftrightarrow>
     (coefficient d < 0 \<and> e = negative_amount_error) \<or>
     (\<not> coefficient d < 0 \<and> (\<forall>u. dval d * 10 ^ n \<noteq> of_nat u) \<and> e = excess_precision_error n)"
proof -
  have neg: "to_atomic d n = Err negative_amount_error" if "coefficient d < 0"
    using that by (simp add: to_atomic_def validate_amount_def)
  have "(\<exists>u. to_atomic d n = Ok u) \<or> to_atomic d n = Err (excess_precision_error n)"
    if "\<not> coefficient d < 0"
    using that by (simp add: to_atomic_def validate_amount_def Let_def)
  with neg show ?thesis
    by (cases "coefficient d < 0") (auto simp flip: to_atomic_Ok_iff)
qed

lemma to_atomic_u64_Ok_iff: "to_atomic_u64 d n = Ok v \<longleftrightarrow> dval d * 10 ^ n = of_nat (unat v)"
proof -
  have w: "length (to_bytes_be u) > 8 \<longleftrightarrow> 2 ^ 64 \<le> u" for u
    using length_to_bytes_be [of u 7] by auto
  have "(of_nat u :: u64) = v \<longleftrightarrow> u = unat v" if "u < 2 ^ 64" for u
    using that by (auto simp: unat_of_nat)
  moreover have "unat v < 2 ^ 64" using unat_less [of v] by simp
  ultimately show ?thesis
    unfolding to_atomic_Ok_iff [symmetric]
    by (auto simp: to_atomic_u64_def result_simps Let_def w not_le intro!: exI [of _ "unat v"])
qed

lemma to_atomic_be_bytes_Ok:
  assumes "to_atomic_be_bytes n d decimals = Ok bs"
  shows "length bs = n \<and> to_atomic d decimals = Ok (be_value bs)"
  using assms by (auto simp: to_atomic_be_bytes_def result_simps Let_def split: if_splits)

lemma from_atomic_value [simp]: "dval (from_atomic u n) = of_nat u / 10 ^ n"
  by (simp add: from_atomic_def)

lemma canonical_from_atomic [simp]: "canonical (from_atomic u n)"
  by (simp add: from_atomic_def)

lemma atomic_inverse: "to_atomic (from_atomic u n) n = Ok u"
  by (simp add: to_atomic_Ok_iff)

lemma from_atomic_inverse: "canonical d \<Longrightarrow> to_atomic d n = Ok u \<Longrightarrow> from_atomic u n = d"
  by (rule canonical_dval_inject) (simp_all add: to_atomic_Ok_iff field_simps)

section \<open>Persistence components are lossless\<close>

lemma to_bytes_be_hd: "0 < n \<Longrightarrow> hd (to_bytes_be n) \<noteq> 0"
proof (induction n rule: to_bytes_be.induct)
  case (1 n)
  show ?case
  proof (cases "n < 256")
    case True
    have "unat (of_nat n :: u8) = n" using True by (simp add: unat_of_nat)
    with True 1 have "(of_nat n :: u8) \<noteq> 0" by (metis less_numeral_extra(3) unat_0)
    with True show ?thesis by (simp add: to_bytes_be_small)
  next
    case False
    moreover have "to_bytes_be (n div 256) \<noteq> []" by (subst to_bytes_be.simps) simp
    ultimately show ?thesis using 1 by (simp add: to_bytes_be_step hd_append)
  qed
qed

lemma to_bytes_be_nonempty [simp]: "to_bytes_be n \<noteq> []"
  by (subst to_bytes_be.simps) simp

lemma from_parts_parts: "canonical d \<Longrightarrow> from_parts (parts d) = Ok d"
proof -
  assume c: "canonical d"
  have "\<not> (case to_bytes_be (magnitude d) of [] \<Rightarrow> False | b # _ \<Rightarrow> b = 0)" if "coefficient d \<noteq> 0"
    using to_bytes_be_hd [of "magnitude d"] that
    by (auto simp: magnitude_def split: list.splits)
  then have "from_parts (parts d) = Ok (decimal_new (coefficient d) (scale d))"
    by (auto simp: from_parts_def parts_def Let_def magnitude_def)
  with c show ?thesis by (simp add: decimal_new_id)
qed


section \<open>Text is lossless\<close>

lemma split_char_none: "d \<notin> set cs \<Longrightarrow> split_char d cs = [cs]"
  by (induction cs) auto

lemma split_char_append: "d \<notin> set ws \<Longrightarrow> split_char d (ws @ d # cs) = ws # split_char d cs"
  by (induction ws) auto

lemma dot_not_digit: "list_all is_digit cs \<Longrightarrow> CHR ''.'' \<notin> set cs"
  by (auto simp: list_all_iff is_digit_def)

lemma is_trimmed_ascii:
  assumes "s \<noteq> []" and "32 < (of_char (hd s) :: nat)" "(of_char (hd s) :: nat) < 128"
    and "32 < (of_char (last s) :: nat)" "(of_char (last s) :: nat) < 128"
  shows "is_trimmed s"
proof -
  have "\<not> prefix w (map of_char s) \<and> \<not> suffix w (map of_char s)" if "w \<in> set utf8_whitespace" for w
  proof
    have w: "w \<noteq> []" "hd w \<le> 32 \<or> 128 \<le> hd w" "last w \<le> 32 \<or> 128 \<le> last w"
      using that by (auto simp: utf8_whitespace_def)
    show "\<not> prefix w (map of_char s)"
    proof
      assume "prefix w (map of_char s)"
      with w(1) have "hd w = of_char (hd s)"
        using assms(1) by (auto simp: prefix_def hd_append hd_map) (metis hd_append2 hd_map)
      with w(2) assms(2,3) show False by simp
    qed
    show "\<not> suffix w (map of_char s)"
    proof
      assume "suffix w (map of_char s)"
      with w(1) have "last w = of_char (last s)"
        using assms(1) by (auto simp: suffix_def) (metis last_appendR last_map)
      with w(3) assms(4,5) show False by simp
    qed
  qed
  then show ?thesis by (simp add: is_trimmed_def Let_def list_all_iff)
qed


lemma to_string_shape:
  obtains ws fs where
    "to_string d = (if coefficient d < 0 then [CHR ''-''] else []) @ ws @
       (if scale d = 0 then [] else CHR ''.'' # fs)"
    "ws \<noteq> []" "list_all is_digit ws" "list_all is_digit fs" "length fs = scale d"
    "parse_digits (ws @ fs) = magnitude d"
proof (cases "scale d = 0")
  case True
  then show ?thesis
    by (intro that [of "to_digits (magnitude d)" "[]"])
       (simp_all add: to_string_def to_digits_all_digits)
next
  case False
  let ?ds = "to_digits (magnitude d)"
  define p where "p = replicate (scale d + 1 - length ?ds) (CHR ''0'') @ ?ds"
  have p: "(if length ?ds \<le> scale d then replicate (scale d + 1 - length ?ds) (CHR ''0'') @ ?ds
            else ?ds) = p"
    by (simp add: p_def)
  have len: "scale d < length p" by (simp add: p_def)
  have digits: "list_all is_digit p"
    using to_digits_all_digits [of "magnitude d"] by (auto simp: p_def list_all_iff is_digit_def)
  let ?n = "length p - scale d"
  show ?thesis
  proof (rule that [of "take ?n p" "drop ?n p"])
    show "to_string d = (if coefficient d < 0 then [CHR ''-''] else []) @ take ?n p @
        (if scale d = 0 then [] else CHR ''.'' # drop ?n p)"
      using False by (simp add: to_string_def Let_def p)
    have "parse_digits p = magnitude d" by (simp add: p_def)
    then show "parse_digits (take ?n p @ drop ?n p) = magnitude d" by simp
    show "list_all is_digit (take ?n p)" "list_all is_digit (drop ?n p)"
      using digits by (auto simp: list_all_iff dest: in_set_takeD in_set_dropD)
  qed (use len in auto)
qed

lemma is_digit_range: "is_digit c \<Longrightarrow> 32 < (of_char c :: nat) \<and> (of_char c :: nat) < 128"
  by (simp add: is_digit_def)

lemma from_str_of_shape:
  assumes "ws \<noteq> []" "list_all is_digit ws" "list_all is_digit fs" "int (length fs) < 2 ^ 32"
    and "f \<longleftrightarrow> fs \<noteq> []"
  shows "from_str ((if neg then [CHR ''-''] else []) @ ws @ (if f then CHR ''.'' # fs else [])) =
     Ok (decimal_new (if neg \<and> parse_digits (ws @ fs) \<noteq> 0 then - int (parse_digits (ws @ fs))
                      else int (parse_digits (ws @ fs))) (length fs))"
proof -
  let ?body = "ws @ (if f then CHR ''.'' # fs else [])"
  let ?s = "(if neg then [CHR ''-''] else []) @ ?body"
  have split: "split_char (CHR ''.'') ?body = (if f then [ws, fs] else [ws])"
    using assms(2,3) by (simp add: split_char_append split_char_none dot_not_digit)
  from assms(1,2) obtain c cs where c: "ws = c # cs" "is_digit c" by (cases ws) auto
  then have nosign: "c \<noteq> CHR ''-''" "c \<noteq> CHR ''+''" by (auto simp: is_digit_def)
  have "last ?s \<in> set ws \<union> set fs" using assms(1,5) by auto
  then have "is_digit (last ?s)" using assms(2,3) by (auto simp: list_all_iff)
  then have "is_trimmed ?s"
    by (intro is_trimmed_ascii) (use c is_digit_range in auto)
  then show ?thesis
    using assms nosign split c(1)
    by (cases neg) (auto simp: from_str_def Let_def)
qed

lemma from_str_to_string:
  assumes "canonical d" and "int (scale d) < 2 ^ 32"
  shows "from_str (to_string d) = Ok d"
proof -
  obtain ws fs where shape: "to_string d = (if coefficient d < 0 then [CHR ''-''] else []) @ ws @
       (if scale d = 0 then [] else CHR ''.'' # fs)"
    "ws \<noteq> []" "list_all is_digit ws" "list_all is_digit fs" "length fs = scale d"
    "parse_digits (ws @ fs) = magnitude d"
    by (rule to_string_shape)
  have fs: "fs = [] \<longleftrightarrow> scale d = 0" using shape(5) by auto
  have "from_str (to_string d) = Ok (decimal_new (coefficient d) (scale d))"
    using from_str_of_shape [of ws fs "scale d \<noteq> 0" "coefficient d < 0"] shape assms(2) fs
    by (auto simp: magnitude_def split: if_splits)
  with assms(1) show ?thesis by (simp add: decimal_new_id)
qed

lemma from_str_new: "from_str s = Ok d \<Longrightarrow> \<exists>c n. d = decimal_new c n \<and> n < 2 ^ 32"
  by (auto simp: from_str_def Let_def not_le split: if_splits prod.splits)

lemma from_str_canonical: "from_str s = Ok d \<Longrightarrow> canonical d \<and> scale d < 2 ^ 32"
  using scale_new from_str_new by (metis canonical_new le_less_trans)


lemma coefficient_new_nonneg:
  assumes "0 \<le> n"
  shows "0 \<le> coefficient (decimal_new n 0)"
proof (rule ccontr)
  assume "\<not> 0 \<le> coefficient (decimal_new n 0)"
  then have "dval (decimal_new n 0) < 0" by (simp only: dval_def) (simp add: divide_less_0_iff)
  then show False using assms by simp
qed

lemma coefficient_from_u64 [simp]: "0 \<le> coefficient (from_u64 v)"
  by (simp add: from_u64_def coefficient_new_nonneg)

section \<open>Properties\<close>

text \<open>
  Construction normalises: two decimals are the same value of the type exactly when they
  stand for the same number, so structural equality is numeric equality.
\<close>

theorem decimal_new_equality:
  "decimal_new c s = decimal_new c' s' \<longleftrightarrow>
     (of_int c :: rat) / 10 ^ s = of_int c' / 10 ^ s'"
  by (metis canonical_dval_inject canonical_new dval_new)

text \<open>
  C38. The ordering, which compares leading-digit positions and aligns scales only when they agree,
  is the ordering of the exact values, negative values included.
\<close>

theorem decimal_cmp_exact: "decimal_cmp a b = cmp_of (dval a) (dval b)"
  by (rule decimal_cmp_correct)

text \<open>
  Checked addition and subtraction never fail and lose nothing: the result is normalised and
  stands for the exact sum and difference.
\<close>

theorem decimal_sum_difference_exact:
  "(\<exists>c. decimal_checked_add a b = Ok c \<and> canonical c \<and> dval c = dval a + dval b) \<and>
   (\<exists>c. decimal_checked_sub a b = Ok c \<and> canonical c \<and> dval c = dval a - dval b)"
  using checked_add_exact checked_sub_exact by blast

text \<open>
  Conversion to atomic units is exact or refused: it returns the number of units exactly when
  that number is a natural number, refuses a negative amount as such and any other as excess
  precision; the \<open>u64\<close> conversion succeeds exactly when the number of units fits.
\<close>

theorem to_atomic_exact:
  "(to_atomic d n = Ok u \<longleftrightarrow> dval d * 10 ^ n = of_nat u) \<and>
   (to_atomic d n = Err e \<longleftrightarrow>
      coefficient d < 0 \<and> e = negative_amount_error \<or>
      0 \<le> coefficient d \<and> (\<nexists>k. dval d * 10 ^ n = of_nat k) \<and> e = excess_precision_error n) \<and>
   (to_atomic_u64 d n = Ok v \<longleftrightarrow> dval d * 10 ^ n = of_nat (unat v)) \<and>
   to_atomic (from_atomic u n) n = Ok u"
  by (auto simp: to_atomic_Ok_iff to_atomic_Err_iff to_atomic_u64_Ok_iff atomic_inverse not_less)

text \<open>
  C39. Printing and parsing are inverse on every value the type can hold: a decimal whose scale
  fits the \<open>u32\<close> field is read back as itself. And everything the parser accepts is such a value: it is
  canonical, its scale fits, and printing it gives a text that is read as the same decimal.
\<close>

theorem decimal_text_roundtrip:
  "(int s < 2 ^ 32 \<longrightarrow> from_str (to_string (decimal_new c s)) = Ok (decimal_new c s)) \<and>
   (from_str t = Ok d \<longrightarrow> canonical d \<and> scale d < 2 ^ 32 \<and> from_str (to_string d) = Ok d)"
proof -
  have "from_str (to_string (decimal_new c s)) = Ok (decimal_new c s)" if "int s < 2 ^ 32"
    using that scale_new [of c s] by (intro from_str_to_string) auto
  moreover have "canonical d \<and> scale d < 2 ^ 32 \<and> from_str (to_string d) = Ok d" if "from_str t = Ok d"
    using from_str_canonical [OF that] from_str_to_string [of d] by simp
  ultimately show ?thesis by blast
qed

theorem decimal_text_roundtrip_witness:
  "to_string (decimal_new (-1250) 3) = ''-1.25'' \<and> from_str (to_string (decimal_new (-1250) 3)) = Ok (decimal_new (-1250) 3) \<and>
   from_str ''7.50'' = Ok (decimal_new 75 1) \<and> canonical (decimal_new 75 1) \<and>
   from_str (to_string (decimal_new 75 1)) = Ok (decimal_new 75 1)"
proof -
  have print: "to_string (decimal_new (-1250) 3) = ''-1.25''" by code_simp
  have parse: "from_str ''7.50'' = Ok (decimal_new 75 1)" by code_simp
  show ?thesis
    using print parse decimal_text_roundtrip [of 3 "-1250" "''7.50''" "decimal_new 75 1"] by simp
qed

text \<open>
  The persistence components are lossless and pass their own validation: every decimal is
  restored from its parts.
\<close>

theorem decimal_parts_roundtrip:
  "from_parts (parts (decimal_new c s)) = Ok (decimal_new c s)"
  by (rule from_parts_parts) simp

end
