(* ===== verification/Storage_Codec.thy ===== *)
theory Storage_Codec
  imports Decimal
begin

text \<open>
  The neutral storage values (\<open>packages/storage/src/{key,batch,error,storage}.rs\<close>) and the
  physical encoding of the redb adapter (\<open>packages/storage/redb/src/codec.rs\<close>): namespaced
  physical keys and the framed records that carry a value with its commit version.

  The \<open>bincode\<close> crate is a parameter: a record of its encoder and decoder for the two record
  types. \<open>bincode_fixed_be\<close> states the layout its fixed-width big-endian configuration documents.
\<close>

section \<open>Storage values\<close>

type_synonym bytes = "u8 list"
type_synonym namespace = string
type_synonym key = bytes
type_synonym val = bytes
type_synonym version = u64

record stored_value =
  sv_value :: val
  sv_version :: version

datatype store_error_kind = StoreConflict | Unavailable | CorruptData | StoreInvalidRequest | StoreOther

record store_error =
  st_kind :: store_error_kind
  st_message :: string

definition conflict :: "string \<Rightarrow> store_error" where
  "conflict message = \<lparr>st_kind = StoreConflict, st_message = message\<rparr>"

definition corrupt_data :: "string \<Rightarrow> store_error" where
  "corrupt_data message = \<lparr>st_kind = CorruptData, st_message = message\<rparr>"

definition invalid_request :: "string \<Rightarrow> store_error" where
  "invalid_request message = \<lparr>st_kind = StoreInvalidRequest, st_message = message\<rparr>"

definition unavailable :: "string \<Rightarrow> store_error" where
  "unavailable message = \<lparr>st_kind = Unavailable, st_message = message\<rparr>"

definition other_error :: "string \<Rightarrow> store_error" where
  "other_error message = \<lparr>st_kind = StoreOther, st_message = message\<rparr>"

lemma store_error_kinds [simp]:
  "st_kind (conflict m) = StoreConflict"
  "st_kind (corrupt_data m) = CorruptData"
  "st_kind (invalid_request m) = StoreInvalidRequest"
  "st_kind (unavailable m) = Unavailable"
  "st_kind (other_error m) = StoreOther"
  by (simp_all add: conflict_def corrupt_data_def invalid_request_def unavailable_def other_error_def)

datatype condition =
  Missing namespace key
| VersionIs namespace key version

datatype operation =
  Put namespace key val
| Delete namespace key

record write_batch =
  wb_conditions :: "condition list"
  wb_operations :: "operation list"

record scan_request =
  sr_namespace :: namespace
  sr_prefix :: bytes
  sr_after :: "key option"
  sr_limit :: nat

record scan_page =
  sp_entries :: "(key \<times> stored_value) list"
  sp_next :: "key option"

section \<open>Physical keys\<close>

definition str_bytes :: "string \<Rightarrow> bytes" where
  "str_bytes s = map (\<lambda>c. of_nat (of_char c)) s"

definition namespace_length_error :: store_error where
  "namespace_length_error =
     invalid_request ''namespace length exceeds the storage key format limit''"

definition namespace_overflow_error :: store_error where
  "namespace_overflow_error =
     invalid_request ''namespace length overflows the storage key format''"

definition key_overflow_error :: store_error where
  "key_overflow_error =
     invalid_request ''logical key length overflows the storage key format''"

definition namespace_prefix :: "namespace \<Rightarrow> (store_error, bytes) result" where
  "namespace_prefix namespace =
     (let namespace_bytes = str_bytes namespace in
      and_then (fail_if (2 ^ 32 \<le> int (length namespace_bytes)) namespace_length_error) (\<lambda>_.
      and_then (fail_if (2 ^ 64 \<le> 4 + int (length namespace_bytes)) namespace_overflow_error) (\<lambda>_.
      Ok (u32_be (of_nat (length namespace_bytes)) @ namespace_bytes))))"

definition encode_physical_key :: "namespace \<Rightarrow> key \<Rightarrow> (store_error, bytes) result" where
  "encode_physical_key namespace key =
     and_then (namespace_prefix namespace) (\<lambda>encoded.
     and_then (fail_if (2 ^ 64 \<le> int (length encoded) + int (length key)) key_overflow_error) (\<lambda>_.
     Ok (encoded @ key)))"

definition short_key_error :: store_error where
  "short_key_error = corrupt_data ''physical key is shorter than its header''"

definition namespace_exceeds_error :: store_error where
  "namespace_exceeds_error =
     corrupt_data ''physical key namespace length exceeds the encoded key''"

definition foreign_namespace_error :: store_error where
  "foreign_namespace_error =
     corrupt_data ''physical key does not belong to the requested namespace''"

text \<open>On a 64-bit platform four more than a \<open>u32\<close> length never overflows a \<open>usize\<close>.\<close>

definition decode_physical_key :: "bytes \<Rightarrow> namespace \<Rightarrow> (store_error, key) result" where
  "decode_physical_key physical expected_namespace =
     and_then (fail_if (length physical < 4) short_key_error) (\<lambda>_.
     let namespace_len = be_value (take 4 physical);
         key_offset = 4 + namespace_len in
     and_then (fail_if (length physical < key_offset) namespace_exceeds_error) (\<lambda>_.
     and_then (fail_if (take namespace_len (drop 4 physical) \<noteq> str_bytes expected_namespace)
                 foreign_namespace_error) (\<lambda>_.
     Ok (drop key_offset physical))))"

section \<open>Record frames\<close>

record stored_record =
  rec_storage_version :: u64
  rec_payload :: bytes

datatype global_version = GlobalVersion (gv_version: u64)

record bincode =
  bc_encode_record :: "stored_record \<Rightarrow> (string, bytes) result"
  bc_decode_record :: "bytes \<Rightarrow> (string, stored_record \<times> nat) result"
  bc_encode_version :: "global_version \<Rightarrow> (string, bytes) result"
  bc_decode_version :: "bytes \<Rightarrow> (string, global_version \<times> nat) result"

definition VALUE_MAGIC :: bytes where
  "VALUE_MAGIC = str_bytes ''W3KV''"

definition GLOBAL_VERSION_MAGIC :: bytes where
  "GLOBAL_VERSION_MAGIC = str_bytes ''W3GV''"

definition MAX_STORED_PAYLOAD_BYTES :: int where
  "MAX_STORED_PAYLOAD_BYTES = 256 * 1024 * 1024"

definition reserved_version_error :: store_error where
  "reserved_version_error =
     invalid_request ''storage version zero is reserved for an uninitialized database''"

definition value_limit_error :: store_error where
  "value_limit_error = invalid_request ''storage value exceeds the physical record size limit''"

definition stored_record_new :: "val \<Rightarrow> version \<Rightarrow> (store_error, stored_record) result" where
  "stored_record_new v version =
     and_then (fail_if (version = 0) reserved_version_error) (\<lambda>_.
     and_then (fail_if (MAX_STORED_PAYLOAD_BYTES < int (length v)) value_limit_error) (\<lambda>_.
     Ok \<lparr>rec_storage_version = version, rec_payload = v\<rparr>))"

definition stored_record_encode :: "bincode \<Rightarrow> stored_record \<Rightarrow> (store_error, bytes) result" where
  "stored_record_encode bc r =
     and_then (map_err (\<lambda>e. other_error (''failed to encode the storage value frame: '' @ e))
                 (bc_encode_record bc r)) (\<lambda>body.
     Ok (VALUE_MAGIC @ body))"

definition short_frame_error :: "string \<Rightarrow> store_error" where
  "short_frame_error description = corrupt_data (description @ '' frame is shorter than its header'')"

definition bad_magic_error :: "string \<Rightarrow> store_error" where
  "bad_magic_error description = corrupt_data (description @ '' frame has invalid magic bytes'')"

definition validate_frame_prefix :: "bytes \<Rightarrow> bytes \<Rightarrow> string \<Rightarrow> (store_error, bytes) result" where
  "validate_frame_prefix frame expected_magic description =
     and_then (fail_if (length frame < 4) (short_frame_error description)) (\<lambda>_.
     and_then (fail_if (take 4 frame \<noteq> expected_magic) (bad_magic_error description)) (\<lambda>_.
     Ok (drop 4 frame)))"

definition short_record_error :: store_error where
  "short_record_error = corrupt_data ''storage value record is shorter than its fixed fields''"

definition record_limit_error :: store_error where
  "record_limit_error = corrupt_data ''storage value record exceeds the physical record size limit''"

definition payload_length_error :: "nat \<Rightarrow> nat \<Rightarrow> store_error" where
  "payload_length_error declared actual =
     corrupt_data (''storage value record payload length is '' @ to_digits declared @
       '', actual length is '' @ to_digits actual)"

definition record_decode_error :: "string \<Rightarrow> store_error" where
  "record_decode_error e = corrupt_data (''failed to decode storage value record: '' @ e)"

definition trailing_record_error :: store_error where
  "trailing_record_error = corrupt_data ''storage value record contains trailing bytes''"

definition record_version_error :: store_error where
  "record_version_error = corrupt_data ''storage value record has an invalid commit version''"

definition stored_record_decode :: "bincode \<Rightarrow> bytes \<Rightarrow> (store_error, stored_record) result" where
  "stored_record_decode bc frame =
     and_then (validate_frame_prefix frame VALUE_MAGIC ''storage value'') (\<lambda>body.
     and_then (fail_if (length body < 16) short_record_error) (\<lambda>_.
     let declared = be_value (take 8 (drop 8 body));
         actual = length body - 16 in
     and_then (fail_if (MAX_STORED_PAYLOAD_BYTES < int declared) record_limit_error) (\<lambda>_.
     and_then (fail_if (declared \<noteq> actual) (payload_length_error declared actual)) (\<lambda>_.
     and_then (map_err record_decode_error (bc_decode_record bc body)) (\<lambda>(record, bytes_read).
     and_then (fail_if (bytes_read \<noteq> length body) trailing_record_error) (\<lambda>_.
     and_then (fail_if (rec_storage_version record = 0) record_version_error) (\<lambda>_.
     Ok record)))))))"

definition stored_value_of :: "stored_record \<Rightarrow> stored_value" where
  "stored_value_of r = \<lparr>sv_value = rec_payload r, sv_version = rec_storage_version r\<rparr>"

definition zero_global_version_error :: store_error where
  "zero_global_version_error =
     invalid_request ''persisted global version zero is not a valid commit version''"

definition global_version_new :: "version \<Rightarrow> (store_error, global_version) result" where
  "global_version_new version =
     and_then (fail_if (version = 0) zero_global_version_error) (\<lambda>_. Ok (GlobalVersion version))"

definition global_version_encode :: "bincode \<Rightarrow> global_version \<Rightarrow> (store_error, bytes) result" where
  "global_version_encode bc g =
     and_then (map_err (\<lambda>e. other_error (''failed to encode the global version frame: '' @ e))
                 (bc_encode_version bc g)) (\<lambda>body.
     Ok (GLOBAL_VERSION_MAGIC @ body))"

definition version_length_error :: "nat \<Rightarrow> store_error" where
  "version_length_error n =
     corrupt_data (''global version record has length '' @ to_digits n @ '', expected 8'')"

definition version_decode_error :: "string \<Rightarrow> store_error" where
  "version_decode_error e = corrupt_data (''failed to decode global version record: '' @ e)"

definition trailing_version_error :: store_error where
  "trailing_version_error = corrupt_data ''global version record contains trailing bytes''"

definition invalid_global_version_error :: store_error where
  "invalid_global_version_error =
     corrupt_data ''global version record has an invalid commit version''"

definition global_version_decode :: "bincode \<Rightarrow> bytes \<Rightarrow> (store_error, global_version) result" where
  "global_version_decode bc frame =
     and_then (validate_frame_prefix frame GLOBAL_VERSION_MAGIC ''global version'') (\<lambda>body.
     and_then (fail_if (length body \<noteq> 8) (version_length_error (length body))) (\<lambda>_.
     and_then (map_err version_decode_error (bc_decode_version bc body)) (\<lambda>(record, bytes_read).
     and_then (fail_if (bytes_read \<noteq> length body) trailing_version_error) (\<lambda>_.
     and_then (fail_if (gv_version record = 0) invalid_global_version_error) (\<lambda>_.
     Ok record)))))"

section \<open>The documented record layout\<close>

text \<open>
  Fixed-width big-endian \<open>bincode\<close>: the fields in order, eight bytes for a \<open>u64\<close>, a byte vector
  as its \<open>u64\<close> length and its bytes.
\<close>

definition record_layout :: "stored_record \<Rightarrow> bytes" where
  "record_layout r =
     u64_be (rec_storage_version r) @ u64_be (of_nat (length (rec_payload r))) @ rec_payload r"

definition fits_u64 :: "nat \<Rightarrow> bool" where
  "fits_u64 n \<longleftrightarrow> int n < 2 ^ 64"

definition bincode_fixed_be :: "bincode \<Rightarrow> bool" where
  "bincode_fixed_be bc \<longleftrightarrow>
     (\<forall>r. fits_u64 (length (rec_payload r)) \<longrightarrow>
        bc_encode_record bc r = Ok (record_layout r) \<and>
        bc_decode_record bc (record_layout r) = Ok (r, length (record_layout r))) \<and>
     (\<forall>v. bc_encode_version bc v = Ok (u64_be (gv_version v)) \<and>
          bc_decode_version bc (u64_be (gv_version v)) = Ok (v, 8))"

text \<open>A concrete codec with this layout.\<close>

definition fixed_bincode :: bincode where
  "fixed_bincode =
     \<lparr>bc_encode_record = (\<lambda>r. Ok (record_layout r)),
      bc_decode_record = (\<lambda>bs.
        Ok (\<lparr>rec_storage_version = of_nat (be_value (take 8 bs)), rec_payload = drop 16 bs\<rparr>, length bs)),
      bc_encode_version = (\<lambda>v. Ok (u64_be (gv_version v))),
      bc_decode_version = (\<lambda>bs. Ok (GlobalVersion (of_nat (be_value bs)), length bs))\<rparr>"

lemma fixed_bincode_ok: "bincode_fixed_be fixed_bincode"
  by (simp add: bincode_fixed_be_def fixed_bincode_def record_layout_def)

lemma fixed_bincode_components [simp]:
  "bc_encode_record fixed_bincode r = Ok (record_layout r)"
  "bc_encode_version fixed_bincode v = Ok (u64_be (gv_version v))"
  by (simp_all add: fixed_bincode_def)

section \<open>Keys are separated by namespace\<close>

definition ns_header :: "namespace \<Rightarrow> bytes" where
  "ns_header ns = u32_be (of_nat (length ns)) @ str_bytes ns"

lemma length_str_bytes [simp]: "length (str_bytes s) = length s"
  by (simp add: str_bytes_def)

lemma unat_char_byte [simp]: "unat (of_nat (of_char c) :: u8) = of_char c"
proof -
  have "(of_char c :: nat) < 256" by simp
  then show ?thesis by (simp add: unat_of_nat)
qed

lemma str_bytes_inject [simp]: "str_bytes a = str_bytes b \<longleftrightarrow> a = b"
proof -
  have "inj (\<lambda>c. of_nat (of_char c) :: u8)"
    by (rule injI) (metis of_char_eq_iff unat_char_byte)
  then show ?thesis by (simp add: str_bytes_def inj_map_eq_map)
qed

lemma namespace_prefix_Ok_iff:
  "namespace_prefix ns = Ok p \<longleftrightarrow> int (length ns) < 2 ^ 32 \<and> p = ns_header ns"
  by (auto simp: namespace_prefix_def Let_def result_simps ns_header_def not_le)

lemma encode_physical_key_Ok_iff:
  "encode_physical_key ns k = Ok p \<longleftrightarrow>
     int (length ns) < 2 ^ 32 \<and> int (length (ns_header ns)) + int (length k) < 2 ^ 64 \<and>
     p = ns_header ns @ k"
  by (auto simp: encode_physical_key_def result_simps namespace_prefix_Ok_iff not_le)

lemma length_ns_header [simp]: "length (ns_header ns) = 4 + length ns"
  by (simp add: ns_header_def)

lemma header_length_value:
  assumes "int (length ns) < 2 ^ 32"
  shows "be_value (u32_be (of_nat (length ns))) = length ns"
proof -
  have "length ns < 2 ^ 32" using assms by (simp flip: of_nat_less_iff)
  then show ?thesis by (simp add: unat_of_nat)
qed

lemma decode_of_header:
  "int (length ns) < 2 ^ 32 \<Longrightarrow>
   decode_physical_key (ns_header ns @ k) ns' = (if ns = ns' then Ok k else Err foreign_namespace_error)"
  using header_length_value [of ns]
  by (auto simp: decode_physical_key_def Let_def ns_header_def)

lemma ns_header_append_inject:
  assumes "int (length a) < 2 ^ 32" "int (length b) < 2 ^ 32"
  shows "ns_header a @ k = ns_header b @ l \<longleftrightarrow> a = b \<and> k = l"
proof
  assume "ns_header a @ k = ns_header b @ l"
  then have "decode_physical_key (ns_header a @ k) a = decode_physical_key (ns_header b @ l) a"
    by simp
  with assms show "a = b \<and> k = l" by (auto simp: decode_of_header split: if_splits)
qed simp

section \<open>Frames determine records\<close>

lemma length_magic [simp]: "length VALUE_MAGIC = 4" "length GLOBAL_VERSION_MAGIC = 4"
  by (simp_all add: VALUE_MAGIC_def GLOBAL_VERSION_MAGIC_def)

lemma validate_frame_prefix_Ok_iff:
  "length magic = 4 \<Longrightarrow> validate_frame_prefix frame magic d = Ok body \<longleftrightarrow> frame = magic @ body"
  by (auto simp: validate_frame_prefix_def result_simps not_less)

definition record_valid :: "stored_record \<Rightarrow> bool" where
  "record_valid r \<longleftrightarrow>
     rec_storage_version r \<noteq> 0 \<and> int (length (rec_payload r)) \<le> MAX_STORED_PAYLOAD_BYTES"

lemma record_valid_small: "record_valid r \<Longrightarrow> fits_u64 (length (rec_payload r))"
  by (auto simp: fits_u64_def record_valid_def MAX_STORED_PAYLOAD_BYTES_def)

lemma stored_record_new_Ok_iff:
  "stored_record_new v n = Ok r \<longleftrightarrow>
     r = \<lparr>rec_storage_version = n, rec_payload = v\<rparr> \<and> record_valid r"
  by (auto simp: stored_record_new_def record_valid_def result_simps)

lemma u64_be_of_value: "length bs = 8 \<Longrightarrow> u64_be (of_nat (be_value bs)) = bs"
proof -
  assume len: "length bs = 8"
  then have "be_value bs < 2 ^ 64" using be_value_bound [of bs] by simp
  then have "unat (of_nat (be_value bs) :: u64) = be_value bs" by (simp add: unat_of_nat)
  then show ?thesis using be_bytes_be_value [of bs] len by (simp add: u64_be_def)
qed

text \<open>A body whose declared payload length is the actual one is the layout of a record.\<close>

lemma body_is_layout:
  assumes "16 \<le> length body" and "be_value (take 8 (drop 8 body)) = length body - 16"
  shows "body = record_layout
    \<lparr>rec_storage_version = of_nat (be_value (take 8 body)), rec_payload = drop 16 body\<rparr>"
proof -
  have "body = take 8 body @ take 8 (drop 8 body) @ drop 16 body"
    by (metis append_take_drop_id drop_drop numeral_Bit0 numeral_plus_numeral semiring_norm(2))
  moreover have "u64_be (of_nat (length body - 16)) = take 8 (drop 8 body)"
    using u64_be_of_value [of "take 8 (drop 8 body)"] assms by simp
  moreover have "u64_be (of_nat (be_value (take 8 body))) = take 8 body"
    using assms(1) by (intro u64_be_of_value) simp
  ultimately show ?thesis by (simp add: record_layout_def)
qed

lemma length_record_layout [simp]: "length (record_layout r) = 16 + length (rec_payload r)"
  by (simp add: record_layout_def)

lemma layout_declared:
  assumes "fits_u64 (length (rec_payload r))"
  shows "be_value (take 8 (drop 8 (record_layout r))) = length (rec_payload r)"
proof -
  have "length (rec_payload r) < 2 ^ 64"
    using assms unfolding fits_u64_def by (metis of_nat_less_iff of_nat_numeral of_nat_power)
  then show ?thesis by (simp add: record_layout_def unat_of_nat)
qed

lemma bincode_record:
  "bincode_fixed_be bc \<Longrightarrow> fits_u64 (length (rec_payload r)) \<Longrightarrow>
     bc_encode_record bc r = Ok (record_layout r)"
  "bincode_fixed_be bc \<Longrightarrow> fits_u64 (length (rec_payload r)) \<Longrightarrow>
     bc_decode_record bc (record_layout r) = Ok (r, length (record_layout r))"
  by (simp_all add: bincode_fixed_be_def)

lemma stored_record_encode_Ok:
  "bincode_fixed_be bc \<Longrightarrow> record_valid r \<Longrightarrow>
     stored_record_encode bc r = Ok (VALUE_MAGIC @ record_layout r)"
  by (simp add: stored_record_encode_def bincode_record record_valid_small)

lemma stored_record_decode_layout:
  "bincode_fixed_be bc \<Longrightarrow> record_valid r \<Longrightarrow>
     stored_record_decode bc (VALUE_MAGIC @ record_layout r) = Ok r"
  using layout_declared [OF record_valid_small, of r]
  by (auto simp: stored_record_decode_def validate_frame_prefix_def bincode_record record_valid_small
      Let_def) (simp add: record_valid_def)

lemma stored_record_decode_steps:
  "stored_record_decode bc frame = Ok r \<longleftrightarrow>
     (\<exists>body. frame = VALUE_MAGIC @ body \<and> 16 \<le> length body \<and>
        int (be_value (take 8 (drop 8 body))) \<le> MAX_STORED_PAYLOAD_BYTES \<and>
        be_value (take 8 (drop 8 body)) = length body - 16 \<and>
        bc_decode_record bc body = Ok (r, length body) \<and> rec_storage_version r \<noteq> 0)"
  unfolding stored_record_decode_def Let_def and_then_Ok_iff fail_if_iff map_err_iff
    validate_frame_prefix_Ok_iff [OF length_magic(1)]
  by (simp only: split_paired_Ex prod.case fail_if_iff and_then_Ok_iff sum.inject simp_thms ex_simps
      not_less not_not) blast

lemma stored_record_decode_Ok_iff:
  assumes bc: "bincode_fixed_be bc"
  shows "stored_record_decode bc frame = Ok r \<longleftrightarrow>
    record_valid r \<and> frame = VALUE_MAGIC @ record_layout r"
proof
  assume ok: "stored_record_decode bc frame = Ok r"
  then obtain body where body: "frame = VALUE_MAGIC @ body" "16 \<le> length body"
      "be_value (take 8 (drop 8 body)) = length body - 16"
      "int (length body - 16) \<le> MAX_STORED_PAYLOAD_BYTES"
      "bc_decode_record bc body = Ok (r, length body)" "rec_storage_version r \<noteq> 0"
    unfolding stored_record_decode_steps by (elim exE conjE) simp
  define r' where
    "r' = \<lparr>rec_storage_version = of_nat (be_value (take 8 body)) :: u64, rec_payload = drop 16 body\<rparr>"
  have layout: "body = record_layout r'"
    unfolding r'_def using body by (intro body_is_layout) simp_all
  have "fits_u64 (length (rec_payload r'))"
    using body(4) by (simp add: r'_def MAX_STORED_PAYLOAD_BYTES_def fits_u64_def)
  from bincode_record(2) [OF bc this] have "bc_decode_record bc body = Ok (r', length body)"
    by (simp only: layout)
  with body(5) have "r = r'" by simp
  moreover have "int (length (rec_payload r')) \<le> MAX_STORED_PAYLOAD_BYTES"
    using body(4) by (simp add: r'_def)
  ultimately show "record_valid r \<and> frame = VALUE_MAGIC @ record_layout r"
    using body(1,6) layout unfolding record_valid_def by blast
qed (simp add: stored_record_decode_layout bc)

lemma global_version_decode_Ok_iff:
  assumes bc: "bincode_fixed_be bc"
  shows "global_version_decode bc frame = Ok g \<longleftrightarrow>
    gv_version g \<noteq> 0 \<and> frame = GLOBAL_VERSION_MAGIC @ u64_be (gv_version g)"
proof -
  have dec: "bc_decode_version bc body = Ok (GlobalVersion (of_nat (be_value body)), 8)"
    if "length body = 8" for body
    using bc that u64_be_of_value [OF that] by (auto simp: bincode_fixed_be_def dest!: spec
        [of _ "GlobalVersion (of_nat (be_value body))"])
  show ?thesis
    by (auto simp: global_version_decode_def result_simps validate_frame_prefix_Ok_iff dec
        u64_be_of_value)
qed

lemma global_version_encode_Ok:
  "bincode_fixed_be bc \<Longrightarrow>
     global_version_encode bc g = Ok (GLOBAL_VERSION_MAGIC @ u64_be (gv_version g))"
  by (simp add: global_version_encode_def bincode_fixed_be_def)

section \<open>Properties\<close>

text \<open>
  Physical keys keep namespaces apart: a key written under a namespace is read back exactly,
  is refused under every other namespace, and two logical keys share a physical key only if both
  the namespaces and the keys are equal.
\<close>

theorem physical_key_roundtrip:
  assumes "encode_physical_key ns k = Ok p"
  shows "decode_physical_key p ns' = (if ns' = ns then Ok k else Err foreign_namespace_error) \<and>
    (encode_physical_key ns' k' = Ok p \<longrightarrow> ns' = ns \<and> k' = k)"
  using assms by (auto simp: encode_physical_key_Ok_iff decode_of_header ns_header_append_inject)

theorem physical_key_roundtrip_witness:
  "decode_physical_key [0, 0, 0, 1, 97, 98, 99] ''a'' = Ok [98, 99] \<and>
   decode_physical_key [0, 0, 0, 1, 97, 98, 99] ''ab'' = Err foreign_namespace_error"
proof -
  have "encode_physical_key ''a'' [98, 99] = Ok [0, 0, 0, 1, 97, 98, 99]"
    by code_simp
  from physical_key_roundtrip [OF this, of "''a''"] physical_key_roundtrip [OF this, of "''ab''"]
  show ?thesis by simp
qed

text \<open>
  A stored frame is accepted exactly when it is the encoding of a record with a non-zero commit
  version and a payload within the size limit; what was written is what is read, and no two
  records share a frame.
\<close>

theorem stored_record_frames:
  assumes "bincode_fixed_be bc"
  shows "stored_record_decode bc frame = Ok r \<longleftrightarrow>
    (\<exists>v n. stored_record_new v n = Ok r \<and> stored_record_encode bc r = Ok frame)"
  using assms
  by (auto simp: stored_record_decode_Ok_iff stored_record_new_Ok_iff stored_record_encode_Ok
      intro!: exI [of _ "rec_payload r"] exI [of _ "rec_storage_version r"])

theorem stored_record_frames_witness:
  "stored_record_decode fixed_bincode (VALUE_MAGIC @ record_layout \<lparr>rec_storage_version = 42, rec_payload = [0, 1, 255]\<rparr>) =
     Ok \<lparr>rec_storage_version = 42, rec_payload = [0, 1, 255]\<rparr>"
proof -
  let ?r = "\<lparr>rec_storage_version = 42 :: u64, rec_payload = [0, 1, 255] :: u8 list\<rparr>"
  have "stored_record_new [0, 1, 255] 42 = Ok ?r"
    by (simp add: stored_record_new_def MAX_STORED_PAYLOAD_BYTES_def)
  moreover have "stored_record_encode fixed_bincode ?r = Ok (VALUE_MAGIC @ record_layout ?r)"
    by (simp add: stored_record_encode_def)
  ultimately show ?thesis
    using stored_record_frames [OF fixed_bincode_ok, of "VALUE_MAGIC @ record_layout ?r" ?r] by blast
qed

end
