(* ===== verification/Tables.thy ===== *)
theory Tables
  imports Storage_Codec "HOL-Library.Sublist"
begin

text \<open>
  A redb table: byte keys to byte values, kept in key order, which is the order a range iterates
  in. The lemmas give the map a table stands for, keep it sorted under insertion and removal, and
  show that the keys with a common prefix are contiguous, which is what a prefix scan relies on.
\<close>

section \<open>Tables\<close>

type_synonym table = "(bytes \<times> bytes) list"

fun tbl_insert :: "bytes \<Rightarrow> bytes \<Rightarrow> table \<Rightarrow> table" where
  "tbl_insert k v [] = [(k, v)]"
| "tbl_insert k v ((k', v') # t) =
     (if k < k' then (k, v) # (k', v') # t
      else if k = k' then (k, v) # t
      else (k', v') # tbl_insert k v t)"

fun tbl_remove :: "bytes \<Rightarrow> table \<Rightarrow> table" where
  "tbl_remove k [] = []"
| "tbl_remove k ((k', v') # t) = (if k = k' then t else (k', v') # tbl_remove k t)"

text \<open>\<open>table.range(start..)\<close>.\<close>

definition tbl_range :: "bytes \<Rightarrow> table \<Rightarrow> table" where
  "tbl_range start t = dropWhile (\<lambda>(k, v). k < start) t"

section \<open>A table as a map\<close>

definition tbl_sorted :: "table \<Rightarrow> bool" where
  "tbl_sorted t \<longleftrightarrow> sorted_wrt (<) (map fst t)"

lemma tbl_sorted_simps [simp]:
  "tbl_sorted []"
  "tbl_sorted (e # t) \<longleftrightarrow> (\<forall>k \<in> fst ` set t. fst e < k) \<and> tbl_sorted t"
  by (auto simp: tbl_sorted_def)

lemma tbl_sorted_distinct: "tbl_sorted t \<Longrightarrow> distinct (map fst t)"
  by (induction t) auto

lemma fst_tbl_insert [simp]: "fst ` set (tbl_insert k v t) = insert k (fst ` set t)"
  by (induction k v t rule: tbl_insert.induct) (auto simp: insert_commute)

lemma set_tbl_insert: "set (tbl_insert k v t) \<subseteq> insert (k, v) (set t)"
  by (induction k v t rule: tbl_insert.induct) auto

lemma set_tbl_remove: "set (tbl_remove k t) \<subseteq> set t"
  by (induction k t rule: tbl_remove.induct) auto

lemma tbl_sorted_insert [intro]: "tbl_sorted t \<Longrightarrow> tbl_sorted (tbl_insert k v t)"
proof (induction k v t rule: tbl_insert.induct)
  case (2 k v k' v' t)
  then show ?case
    by (cases "k < k'"; cases "k = k'") (auto simp: not_less le_less intro: order.strict_trans)
qed simp

lemma tbl_sorted_remove [intro]: "tbl_sorted t \<Longrightarrow> tbl_sorted (tbl_remove k t)"
proof (induction t)
  case (Cons e t)
  then show ?case using set_tbl_remove [of k t] by (cases e) auto
qed simp

lemma map_of_tbl_insert: "tbl_sorted t \<Longrightarrow> map_of (tbl_insert k v t) = (map_of t)(k \<mapsto> v)"
  by (induction t) (auto simp: fun_eq_iff)

lemma map_of_tbl_remove: "tbl_sorted t \<Longrightarrow> map_of (tbl_remove k t) = (map_of t)(k := None)"
proof (induction t)
  case (Cons e t)
  then have "fst e \<notin> fst ` set t" by auto
  then have "map_of t (fst e) = None" by (simp add: map_of_eq_None_iff)
  with Cons show ?case by (cases e) (auto simp: fun_eq_iff)
qed simp

section \<open>Prefixes are intervals\<close>

lemma prefix_le: "prefix p k \<Longrightarrow> p \<le> k"
  for p k :: "'a::linorder list"
  by (induction p arbitrary: k) (auto simp: prefix_def)

lemma prefix_convex: "prefix p k' \<Longrightarrow> p \<le> k \<Longrightarrow> k \<le> k' \<Longrightarrow> prefix p k"
  for p k k' :: "'a::linorder list"
proof (induction p arbitrary: k k')
  case (Cons a p)
  from Cons.prems(1) obtain ks' where k': "k' = a # ks'" "prefix p ks'" by (auto simp: prefix_def)
  with Cons.prems obtain b ks where "k = b # ks" by (cases k) auto
  with Cons k' show ?case by (auto simp: prefix_def)
qed simp

lemma append_less_append [simp]: "p @ a < p @ b \<longleftrightarrow> a < b"
  for a b p :: "'a::linorder list"
  by (induction p) auto

lemma append_le_append [simp]: "p @ a \<le> p @ b \<longleftrightarrow> a \<le> b"
  for a b p :: "'a::linorder list"
  by (induction p) auto

text \<open>The entries a prefix scan visits: from \<open>start\<close> on, up to the first key outside the prefix.\<close>

lemma takeWhile_prefix_sorted:
  assumes "tbl_sorted t" "\<forall>k \<in> fst ` set t. p \<le> k"
  shows "takeWhile (\<lambda>e. prefix p (fst e)) t = filter (\<lambda>e. prefix p (fst e)) t"
  using assms
proof (induction t)
  case (Cons e t)
  show ?case
  proof (cases "prefix p (fst e)")
    case False
    have "\<not> prefix p (fst x)" if "x \<in> set t" for x
      using Cons.prems that False prefix_convex [of p "fst x" "fst e"] by (auto simp: less_imp_le)
    with False show ?thesis by (auto simp: filter_empty_conv)
  qed (use Cons in auto)
qed simp

lemma tbl_range_filter:
  "tbl_sorted t \<Longrightarrow> tbl_range start t = filter (\<lambda>e. start \<le> fst e) t"
proof (induction t)
  case (Cons e t)
  then show ?case
    by (auto simp: tbl_range_def not_less less_imp_le intro!: filter_True [symmetric] dest: order.strict_trans1)
qed (simp add: tbl_range_def)

lemma tbl_sorted_filter: "tbl_sorted t \<Longrightarrow> tbl_sorted (filter P t)"
  by (induction t) auto

lemma scan_window:
  assumes "tbl_sorted t" "prefix p start"
  shows "takeWhile (\<lambda>e. prefix p (fst e)) (tbl_range start t) =
    filter (\<lambda>e. start \<le> fst e \<and> prefix p (fst e)) t"
proof -
  have "\<forall>k \<in> fst ` set (filter (\<lambda>e. start \<le> fst e) t). p \<le> k"
    using prefix_le [OF assms(2)] by auto
  then have "takeWhile (\<lambda>e. prefix p (fst e)) (filter (\<lambda>e. start \<le> fst e) t) =
      filter (\<lambda>e. prefix p (fst e)) (filter (\<lambda>e. start \<le> fst e) t)"
    by (intro takeWhile_prefix_sorted tbl_sorted_filter assms(1))
  then show ?thesis by (simp add: tbl_range_filter [OF assms(1)] conj_commute)
qed

end
