(* ===== verification/Storage_Backend.thy ===== *)
theory Storage_Backend
  imports Tables
begin

text \<open>
  The redb adapter (\<open>packages/storage/redb/src/backend.rs\<close> and \<open>backend/{read,write,format,
  support}.rs\<close>): the owner thread's state and commands, with the point read, the prefix scan, the
  conditional atomic commit, the format checks, and the recovery that reopens a failed handle.

  redb itself is a parameter. Its documented semantics is in the shape of the model: a table maps
  byte keys to byte values and iterates in key order, a transaction works on a copy that commit
  installs as a whole. Whether a call fails, and how, is decided by the fields of \<open>redb\<close> from the
  number of native calls made so far, so every sequence of failures is an instance; a failed
  commit says whether it had already become durable.
\<close>

section \<open>Native errors\<close>

text \<open>The error enums of redb, with the text each displays as.\<close>

datatype native_storage_error =
  Corrupted string
| ValueTooLarge nat
| IoInvalidData string
| IoError string
| PreviousIo string
| DatabaseClosed string
| LockPoisoned string
| UnknownStorage string

datatype native_transaction_error =
  TransactionStorage native_storage_error
| ReadTransactionStillInUse
| UnknownTransaction string

datatype native_table_error =
  TableStorage native_storage_error
| TableTypeMismatch string
| TableIsMultimap string
| TableIsNotMultimap string
| TypeDefinitionChanged string
| TableDoesNotExist string
| TableExists string
| TableAlreadyOpen string
| UnknownTable string

datatype native_database_error =
  DatabaseAlreadyOpen
| UpgradeRequired nat
| DatabaseStorage native_storage_error
| RepairAborted
| TransactionInProgress
| UnknownDatabase string

definition too_large_message :: "nat \<Rightarrow> string" where
  "too_large_message n =
     '': redb rejected a key or value with '' @ to_digits n @ '' bytes''"

fun storage_error :: "native_storage_error \<Rightarrow> string \<Rightarrow> store_error" where
  "storage_error (Corrupted detail) context = corrupt_data (context @ '': '' @ detail)"
| "storage_error (ValueTooLarge n) context = invalid_request (context @ too_large_message n)"
| "storage_error (IoInvalidData error) context = corrupt_data (context @ '': '' @ error)"
| "storage_error (IoError error) context = unavailable (context @ '': '' @ error)"
| "storage_error (PreviousIo error) context = unavailable (context @ '': '' @ error)"
| "storage_error (DatabaseClosed error) context = unavailable (context @ '': '' @ error)"
| "storage_error (LockPoisoned error) context = unavailable (context @ '': '' @ error)"
| "storage_error (UnknownStorage error) context = unavailable (context @ '': '' @ error)"

definition still_in_use_message :: string where
  "still_in_use_message = '': read transaction is still in use''"

fun transaction_error :: "native_transaction_error \<Rightarrow> string \<Rightarrow> store_error" where
  "transaction_error (TransactionStorage error) context = storage_error error context"
| "transaction_error ReadTransactionStillInUse context = other_error (context @ still_in_use_message)"
| "transaction_error (UnknownTransaction error) context = unavailable (context @ '': '' @ error)"

fun table_error :: "native_table_error \<Rightarrow> string \<Rightarrow> store_error" where
  "table_error (TableStorage error) context = storage_error error context"
| "table_error (TableTypeMismatch error) context = corrupt_data (context @ '': '' @ error)"
| "table_error (TableIsMultimap error) context = corrupt_data (context @ '': '' @ error)"
| "table_error (TableIsNotMultimap error) context = corrupt_data (context @ '': '' @ error)"
| "table_error (TypeDefinitionChanged error) context = corrupt_data (context @ '': '' @ error)"
| "table_error (TableDoesNotExist error) context = corrupt_data (context @ '': '' @ error)"
| "table_error (TableExists error) context = corrupt_data (context @ '': '' @ error)"
| "table_error (TableAlreadyOpen error) context = other_error (context @ '': '' @ error)"
| "table_error (UnknownTable error) context = corrupt_data (context @ '': '' @ error)"

definition already_open_error :: store_error where
  "already_open_error = unavailable ''redb database file is already open for writing''"

definition upgrade_required_error :: "nat \<Rightarrow> store_error" where
  "upgrade_required_error version =
     corrupt_data (''redb database file requires an unsupported format upgrade from version '' @
       to_digits version)"

definition repair_aborted_error :: store_error where
  "repair_aborted_error = corrupt_data ''redb database repair was aborted while opening the file''"

definition transaction_in_progress_error :: store_error where
  "transaction_in_progress_error =
     unavailable ''redb database cannot open while a transaction is in progress''"

definition open_failed_context :: string where
  "open_failed_context = ''redb database open failed''"

fun database_error :: "native_database_error \<Rightarrow> store_error" where
  "database_error DatabaseAlreadyOpen = already_open_error"
| "database_error (UpgradeRequired version) = upgrade_required_error version"
| "database_error (DatabaseStorage error) = storage_error error open_failed_context"
| "database_error RepairAborted = repair_aborted_error"
| "database_error TransactionInProgress = transaction_in_progress_error"
| "database_error (UnknownDatabase error) = unavailable (open_failed_context @ '': '' @ error)"

definition commit_error :: "string \<Rightarrow> store_error" where
  "commit_error error = unavailable (''redb atomic commit outcome is unknown: '' @ error)"

section \<open>Backend state and native calls\<close>

record backend =
  be_open :: bool
  be_data :: table
  be_meta :: table
  be_tick :: nat

record redb =
  rd_bincode :: bincode
  rd_open :: "nat \<Rightarrow> native_database_error option"
  rd_begin :: "nat \<Rightarrow> native_transaction_error option"
  rd_durability :: "nat \<Rightarrow> string option"
  rd_table :: "nat \<Rightarrow> native_table_error option"
  rd_access :: "nat \<Rightarrow> native_storage_error option"
  rd_commit :: "nat \<Rightarrow> (string \<times> bool) option"

type_synonym 'a backend_op = "(backend, store_error, 'a) eff"

definition native :: "(nat \<Rightarrow> 'e option) \<Rightarrow> ('e \<Rightarrow> store_error) \<Rightarrow> unit backend_op" where
  "native fault convert = (\<lambda>s.
     let s' = s\<lparr>be_tick := Suc (be_tick s)\<rparr> in
     case fault (be_tick s) of None \<Rightarrow> (Ok (), s') | Some e \<Rightarrow> (Err (convert e), s'))"

definition closed_error :: store_error where
  "closed_error = unavailable ''redb database is closed after a storage failure''"

definition database :: "unit backend_op" where
  "database = (\<lambda>s. (fail_if (\<not> be_open s) closed_error, s))"

text \<open>Begin a transaction, open a table, touch it: each with the context the caller reports.\<close>

definition begin_transaction :: "redb \<Rightarrow> string \<Rightarrow> unit backend_op" where
  "begin_transaction rd context =
     bind_eff database (\<lambda>_. native (rd_begin rd) (\<lambda>e. transaction_error e context))"

definition open_table :: "redb \<Rightarrow> string \<Rightarrow> unit backend_op" where
  "open_table rd context = native (rd_table rd) (\<lambda>e. table_error e context)"

definition access :: "redb \<Rightarrow> string \<Rightarrow> unit backend_op" where
  "access rd context = native (rd_access rd) (\<lambda>e. storage_error e context)"

definition read_data :: "table backend_op" where
  "read_data = (\<lambda>s. (Ok (be_data s), s))"

definition read_meta :: "table backend_op" where
  "read_meta = (\<lambda>s. (Ok (be_meta s), s))"

definition commit_transaction :: "redb \<Rightarrow> table \<Rightarrow> table \<Rightarrow> unit backend_op" where
  "commit_transaction rd data meta = (\<lambda>s.
     let s' = s\<lparr>be_tick := Suc (be_tick s)\<rparr>; installed = s'\<lparr>be_data := data, be_meta := meta\<rparr> in
     case rd_commit rd (be_tick s) of
       None \<Rightarrow> (Ok (), installed)
     | Some (e, persisted) \<Rightarrow> (Err (commit_error e), if persisted then installed else s'))"

section \<open>Format and version\<close>

definition GLOBAL_VERSION_KEY :: bytes where
  "GLOBAL_VERSION_KEY = str_bytes ''global-version''"

definition DATABASE_FORMAT_KEY :: bytes where
  "DATABASE_FORMAT_KEY = str_bytes ''database-format''"

definition DATABASE_FORMAT :: bytes where
  "DATABASE_FORMAT = str_bytes ''w3-storage-redb''"

definition initialize_context :: string where
  "initialize_context = ''failed to initialize redb format''"
definition configure_initialization_context :: string where
  "configure_initialization_context = ''failed to configure redb initialization: ''"
definition create_data_context :: string where
  "create_data_context = ''failed to create redb data table''"
definition create_meta_context :: string where
  "create_meta_context = ''failed to create redb metadata table''"
definition write_marker_context :: string where
  "write_marker_context = ''failed to write redb format marker''"
definition read_format_context :: string where
  "read_format_context = ''failed to read redb format''"
definition data_incompatible_context :: string where
  "data_incompatible_context = ''redb data table is incompatible''"
definition meta_incompatible_context :: string where
  "meta_incompatible_context = ''redb metadata table is incompatible''"
definition read_marker_context :: string where
  "read_marker_context = ''failed to read redb format marker''"
definition no_marker_error :: store_error where
  "no_marker_error = corrupt_data ''redb database has no physical format marker''"
definition format_unsupported_error :: store_error where
  "format_unsupported_error = corrupt_data ''database format is not supported by this adapter''"
definition read_metadata_context :: string where
  "read_metadata_context = ''failed to read redb metadata''"
definition read_version_context :: string where
  "read_version_context = ''failed to read redb global version''"
definition inspect_data_context :: string where
  "inspect_data_context = ''failed to inspect redb data table''"
definition unversioned_data_error :: store_error where
  "unversioned_data_error =
     corrupt_data ''redb database contains data records but has no global version''"

definition initialize_format :: "redb \<Rightarrow> unit backend_op" where
  "initialize_format rd =
     bind_eff (begin_transaction rd initialize_context) (\<lambda>_.
     bind_eff (native (rd_durability rd) (\<lambda>e. other_error (configure_initialization_context @ e))) (\<lambda>_.
     bind_eff (open_table rd create_data_context) (\<lambda>_.
     bind_eff (open_table rd create_meta_context) (\<lambda>_.
     bind_eff (access rd write_marker_context) (\<lambda>_.
     bind_eff read_data (\<lambda>data.
     bind_eff read_meta (\<lambda>meta.
     commit_transaction rd data (tbl_insert DATABASE_FORMAT_KEY DATABASE_FORMAT meta))))))))"

definition require_format :: "redb \<Rightarrow> unit backend_op" where
  "require_format rd =
     bind_eff (begin_transaction rd read_format_context) (\<lambda>_.
     bind_eff (open_table rd data_incompatible_context) (\<lambda>_.
     bind_eff (open_table rd meta_incompatible_context) (\<lambda>_.
     bind_eff (access rd read_marker_context) (\<lambda>_.
     bind_eff read_meta (\<lambda>meta.
     lift_result
       (and_then (ok_or (map_of meta DATABASE_FORMAT_KEY) no_marker_error) (\<lambda>marker.
        fail_if (marker \<noteq> DATABASE_FORMAT) format_unsupported_error)))))))"

definition global_version :: "redb \<Rightarrow> version backend_op" where
  "global_version rd =
     bind_eff (begin_transaction rd read_metadata_context) (\<lambda>_.
     bind_eff (open_table rd meta_incompatible_context) (\<lambda>_.
     bind_eff (access rd read_version_context) (\<lambda>_.
     bind_eff read_meta (\<lambda>meta.
     case map_of meta GLOBAL_VERSION_KEY of
       Some raw \<Rightarrow>
         lift_result (and_then (global_version_decode (rd_bincode rd) raw) (\<lambda>g. Ok (gv_version g)))
     | None \<Rightarrow>
         bind_eff (open_table rd data_incompatible_context) (\<lambda>_.
         bind_eff (access rd inspect_data_context) (\<lambda>_.
         bind_eff read_data (\<lambda>data.
         lift_result
           (and_then (fail_if (data \<noteq> []) unversioned_data_error) (\<lambda>_. Ok 0)))))))))"

section \<open>Opening and reopening\<close>

definition set_open :: "bool \<Rightarrow> unit backend_op" where
  "set_open b = (\<lambda>s. (Ok (), s\<lparr>be_open := b\<rparr>))"

definition open_database :: "redb \<Rightarrow> unit backend_op" where
  "open_database rd = native (rd_open rd) database_error"

definition reopen :: "redb \<Rightarrow> unit backend_op" where
  "reopen rd =
     bind_eff (set_open False) (\<lambda>_.
     bind_eff (open_database rd) (\<lambda>_.
     bind_eff (set_open True) (\<lambda>_.
     (\<lambda>s. case bind_eff (require_format rd) (\<lambda>_. global_version rd) s of
            (Err e, s') \<Rightarrow> (Err e, s'\<lparr>be_open := False\<rparr>)
          | (Ok _, s') \<Rightarrow> (Ok (), s')))))"

definition ensure_open :: "redb \<Rightarrow> unit backend_op" where
  "ensure_open rd = (\<lambda>s. if be_open s then (Ok (), s) else reopen rd s)"

text \<open>
  \<open>Backend::open\<close> after the path was validated: \<open>initialize\<close> says that the file is new. The
  handle exists only when every check passed.
\<close>

definition backend_open :: "redb \<Rightarrow> bool \<Rightarrow> unit backend_op" where
  "backend_open rd initialize =
     bind_eff (open_database rd) (\<lambda>_.
     bind_eff (set_open True) (\<lambda>_.
     if initialize then initialize_format rd
     else bind_eff (require_format rd) (\<lambda>_. bind_eff (global_version rd) (\<lambda>_. ret ()))))"

section \<open>Reads\<close>

definition read_with_reopen :: "redb \<Rightarrow> 'a backend_op \<Rightarrow> 'a backend_op" where
  "read_with_reopen rd read =
     bind_eff (ensure_open rd) (\<lambda>_ s.
     case read s of
       (Err e, s1) \<Rightarrow>
         if st_kind e = Unavailable then
           bind_eff (reopen rd) (\<lambda>_ s2.
             case read s2 of
               (Err e', s3) \<Rightarrow>
                 if st_kind e' = Unavailable then (Err e', s3\<lparr>be_open := False\<rparr>) else (Err e', s3)
             | (Ok x, s3) \<Rightarrow> (Ok x, s3)) s1
         else (Err e, s1)
     | (Ok x, s1) \<Rightarrow> (Ok x, s1))"

definition decode_value :: "bincode \<Rightarrow> bytes \<Rightarrow> (store_error, stored_value) result" where
  "decode_value bc raw = and_then (stored_record_decode bc raw) (\<lambda>r. Ok (stored_value_of r))"

definition point_read_begin_context :: string where
  "point_read_begin_context = ''failed to begin redb point read''"
definition data_table_context :: string where
  "data_table_context = ''failed to open redb data table''"
definition point_read_context :: string where
  "point_read_context = ''redb point read failed''"

definition get_once :: "redb \<Rightarrow> bytes \<Rightarrow> stored_value option backend_op" where
  "get_once rd physical_key =
     bind_eff (begin_transaction rd point_read_begin_context) (\<lambda>_.
     bind_eff (open_table rd data_table_context) (\<lambda>_.
     bind_eff (access rd point_read_context) (\<lambda>_.
     bind_eff read_data (\<lambda>data.
     lift_result (transpose_map (decode_value (rd_bincode rd)) (map_of data physical_key))))))"

definition backend_get :: "redb \<Rightarrow> namespace \<Rightarrow> key \<Rightarrow> stored_value option backend_op" where
  "backend_get rd namespace key =
     bind_eff (lift_result (encode_physical_key namespace key)) (\<lambda>physical_key.
     read_with_reopen rd (get_once rd physical_key))"

definition scan_begin_context :: string where
  "scan_begin_context = ''failed to begin redb prefix scan''"
definition scan_start_context :: string where
  "scan_start_context = ''failed to start redb prefix scan''"
definition scan_item_context :: string where
  "scan_item_context = ''redb prefix scan failed''"
definition zero_limit_error :: store_error where
  "zero_limit_error = invalid_request ''scan limit must be greater than zero''"
definition large_limit_error :: store_error where
  "large_limit_error = invalid_request ''scan limit is too large''"
definition cursor_prefix_error :: store_error where
  "cursor_prefix_error =
     invalid_request ''scan continuation key does not match the requested prefix''"

text \<open>
  The loop over the range: stop at the first key outside the prefix, skip keys up to the cursor,
  stop once one entry more than the page was read.
\<close>

fun scan_entries ::
  "redb \<Rightarrow> scan_request \<Rightarrow> bytes \<Rightarrow> nat \<Rightarrow> (key \<times> stored_value) list \<Rightarrow> table \<Rightarrow>
     (key \<times> stored_value) list backend_op" where
  "scan_entries rd req pfx read_limit entries [] = ret entries"
| "scan_entries rd req pfx read_limit entries ((physical_key, raw) # items) =
     bind_eff (access rd scan_item_context) (\<lambda>_.
     if \<not> prefix pfx physical_key then ret entries
     else
       bind_eff (lift_result (decode_physical_key physical_key (sr_namespace req))) (\<lambda>logical_key.
       if (case sr_after req of None \<Rightarrow> False | Some after \<Rightarrow> logical_key \<le> after)
       then scan_entries rd req pfx read_limit entries items
       else
         bind_eff (lift_result (decode_value (rd_bincode rd) raw)) (\<lambda>v.
         let entries' = entries @ [(logical_key, v)] in
         if length entries' = read_limit then ret entries'
         else scan_entries rd req pfx read_limit entries' items)))"

definition page_of :: "nat \<Rightarrow> (key \<times> stored_value) list \<Rightarrow> scan_page" where
  "page_of limit entries =
     (if limit < length entries then
        let kept = butlast entries in
        \<lparr>sp_entries = kept, sp_next = (if kept = [] then None else Some (fst (last kept)))\<rparr>
      else \<lparr>sp_entries = entries, sp_next = None\<rparr>)"

definition scan_once ::
  "redb \<Rightarrow> scan_request \<Rightarrow> bytes \<Rightarrow> bytes \<Rightarrow> nat \<Rightarrow> scan_page backend_op" where
  "scan_once rd req physical_prefix start read_limit =
     bind_eff (begin_transaction rd scan_begin_context) (\<lambda>_.
     bind_eff (open_table rd data_table_context) (\<lambda>_.
     bind_eff (access rd scan_start_context) (\<lambda>_.
     bind_eff read_data (\<lambda>data.
     bind_eff (scan_entries rd req physical_prefix read_limit [] (tbl_range start data)) (\<lambda>entries.
     ret (page_of (sr_limit req) entries))))))"

definition backend_scan :: "redb \<Rightarrow> scan_request \<Rightarrow> scan_page backend_op" where
  "backend_scan rd req =
     bind_eff (lift_result (fail_if (sr_limit req = 0) zero_limit_error)) (\<lambda>_.
     bind_eff (lift_result (fail_if (2 ^ 64 \<le> int (sr_limit req) + 1) large_limit_error)) (\<lambda>_.
     bind_eff (lift_result (fail_if
       (case sr_after req of
          None \<Rightarrow> False
        | Some after \<Rightarrow> \<not> prefix (sr_prefix req) after) cursor_prefix_error)) (\<lambda>_.
     bind_eff (lift_result (namespace_prefix (sr_namespace req))) (\<lambda>header.
     let physical_prefix = header @ sr_prefix req in
     bind_eff (lift_result
       (case sr_after req of
          Some after \<Rightarrow> encode_physical_key (sr_namespace req) after
        | None \<Rightarrow> Ok physical_prefix)) (\<lambda>start.
     read_with_reopen rd (scan_once rd req physical_prefix start (sr_limit req + 1)))))))"

section \<open>Commits\<close>

definition evaluate_context :: string where
  "evaluate_context = ''failed to evaluate redb condition''"

definition exists_error :: "namespace \<Rightarrow> store_error" where
  "exists_error ns =
     conflict (''missing condition failed in namespace `'' @ ns @ ''` because the key exists'')"

definition absent_error :: "namespace \<Rightarrow> store_error" where
  "absent_error ns =
     conflict (''version condition failed in namespace `'' @ ns @ ''` because the key is missing'')"

definition version_differs_error :: "namespace \<Rightarrow> version \<Rightarrow> version \<Rightarrow> store_error" where
  "version_differs_error ns expected actual =
     conflict (''version condition failed in namespace `'' @ ns @ ''`: expected '' @
       to_digits (unat expected) @ '', found '' @ to_digits (unat actual))"

fun evaluate_condition :: "redb \<Rightarrow> table \<Rightarrow> condition \<Rightarrow> unit backend_op" where
  "evaluate_condition rd data (Missing ns k) =
     bind_eff (lift_result (encode_physical_key ns k)) (\<lambda>physical_key.
     bind_eff (access rd evaluate_context) (\<lambda>_.
     lift_result (fail_if (map_of data physical_key \<noteq> None) (exists_error ns))))"
| "evaluate_condition rd data (VersionIs ns k expected) =
     bind_eff (lift_result (encode_physical_key ns k)) (\<lambda>physical_key.
     bind_eff (access rd evaluate_context) (\<lambda>_.
     lift_result
       (and_then (ok_or (map_of data physical_key) (absent_error ns)) (\<lambda>raw.
        and_then (decode_value (rd_bincode rd) raw) (\<lambda>actual.
        fail_if (sv_version actual \<noteq> expected)
          (version_differs_error ns expected (sv_version actual)))))))"

fun evaluate_conditions :: "redb \<Rightarrow> table \<Rightarrow> condition list \<Rightarrow> unit backend_op" where
  "evaluate_conditions rd data [] = ret ()"
| "evaluate_conditions rd data (c # cs) =
     bind_eff (evaluate_condition rd data c) (\<lambda>_. evaluate_conditions rd data cs)"

definition write_record_context :: string where
  "write_record_context = ''failed to write redb data record''"
definition delete_record_context :: string where
  "delete_record_context = ''failed to delete redb data record''"

fun apply_operations :: "redb \<Rightarrow> version \<Rightarrow> operation list \<Rightarrow> table \<Rightarrow> table backend_op" where
  "apply_operations rd n [] data = ret data"
| "apply_operations rd n (Put ns k v # ops) data =
     bind_eff (lift_result (encode_physical_key ns k)) (\<lambda>physical_key.
     bind_eff (lift_result (and_then (stored_record_new v n) (stored_record_encode (rd_bincode rd)))) (\<lambda>frame.
     bind_eff (access rd write_record_context) (\<lambda>_.
     apply_operations rd n ops (tbl_insert physical_key frame data))))"
| "apply_operations rd n (Delete ns k # ops) data =
     bind_eff (lift_result (encode_physical_key ns k)) (\<lambda>physical_key.
     bind_eff (access rd delete_record_context) (\<lambda>_.
     apply_operations rd n ops (tbl_remove physical_key data)))"

definition write_begin_context :: string where
  "write_begin_context = ''failed to begin redb write transaction''"
definition configure_commit_context :: string where
  "configure_commit_context = ''failed to configure redb commit: ''"
definition meta_table_context :: string where
  "meta_table_context = ''failed to open redb metadata table''"
definition write_version_context :: string where
  "write_version_context = ''failed to write redb global version''"
definition version_exhausted_error :: store_error where
  "version_exhausted_error = other_error ''global storage version is exhausted''"

definition current_version :: "redb \<Rightarrow> table \<Rightarrow> (store_error, version) result" where
  "current_version rd meta =
     (case map_of meta GLOBAL_VERSION_KEY of
        Some raw \<Rightarrow> and_then (global_version_decode (rd_bincode rd) raw) (\<lambda>g. Ok (gv_version g))
      | None \<Rightarrow> Ok 0)"

definition commit_once :: "redb \<Rightarrow> write_batch \<Rightarrow> version backend_op" where
  "commit_once rd batch =
     bind_eff (begin_transaction rd write_begin_context) (\<lambda>_.
     bind_eff (native (rd_durability rd) (\<lambda>e. other_error (configure_commit_context @ e))) (\<lambda>_.
     bind_eff (open_table rd data_table_context) (\<lambda>_.
     bind_eff (open_table rd meta_table_context) (\<lambda>_.
     bind_eff read_data (\<lambda>data.
     bind_eff read_meta (\<lambda>meta.
     bind_eff (evaluate_conditions rd data (wb_conditions batch)) (\<lambda>_.
     bind_eff (access rd read_version_context) (\<lambda>_.
     bind_eff (lift_result (current_version rd meta)) (\<lambda>current.
     bind_eff (lift_result (ok_or (checked_add current 1) version_exhausted_error)) (\<lambda>next.
     bind_eff (apply_operations rd next (wb_operations batch) data) (\<lambda>data'.
     bind_eff (lift_result
       (and_then (global_version_new next) (global_version_encode (rd_bincode rd)))) (\<lambda>encoded.
     bind_eff (access rd write_version_context) (\<lambda>_.
     bind_eff (commit_transaction rd data' (tbl_insert GLOBAL_VERSION_KEY encoded meta)) (\<lambda>_.
     ret next))))))))))))))"

definition reopen_failed_message :: "store_error \<Rightarrow> store_error \<Rightarrow> string" where
  "reopen_failed_message error reopen_error =
     st_message error @ ''; database reopen before the next write failed: '' @
     st_message reopen_error"

definition backend_commit :: "redb \<Rightarrow> write_batch \<Rightarrow> version backend_op" where
  "backend_commit rd batch =
     bind_eff (ensure_open rd) (\<lambda>_ s.
     case commit_once rd batch s of
       (Err error, s1) \<Rightarrow>
         if st_kind error = Unavailable then
           (case reopen rd s1 of
              (Err reopen_error, s2) \<Rightarrow>
                (Err (error\<lparr>st_message := reopen_failed_message error reopen_error\<rparr>), s2)
            | (Ok _, s2) \<Rightarrow> (Err error, s2))
         else (Err error, s1)
     | (Ok n, s1) \<Rightarrow> (Ok n, s1))"

section \<open>The owner thread\<close>

datatype command = GetCommand namespace key | ScanCommand scan_request | CommitCommand write_batch

datatype reply =
  GetReply "(store_error, stored_value option) result"
| ScanReply "(store_error, scan_page) result"
| CommitReply "(store_error, version) result"

fun handle :: "redb \<Rightarrow> command \<Rightarrow> backend \<Rightarrow> reply \<times> backend" where
  "handle rd (GetCommand ns k) s = map_prod GetReply id (backend_get rd ns k s)"
| "handle rd (ScanCommand req) s = map_prod ScanReply id (backend_scan rd req s)"
| "handle rd (CommitCommand batch) s = map_prod CommitReply id (backend_commit rd batch s)"

text \<open>Commands are handled one after another, in the order the channel delivers them.\<close>

fun run_commands :: "redb \<Rightarrow> command list \<Rightarrow> backend \<Rightarrow> reply list \<times> backend" where
  "run_commands rd [] s = ([], s)"
| "run_commands rd (c # cs) s =
     (let (r, s1) = handle rd c s; (rs, s2) = run_commands rd cs s1 in (r # rs, s2))"

end
