(* ===== verification/Storage_Laws.thy ===== *)
theory Storage_Laws
  imports Storage_Backend
begin

text \<open>
  What the redb adapter promises. The state stands for a map from namespaced keys to versioned
  values; the interface of the \<open>Store\<close> trait (\<open>packages/storage/src/storage.rs\<close>) is the locale
  \<open>store\<close>, its laws are proved for the adapter under every sequence of native failures, and the
  consequences a client relies on (atomic commits, compare-and-swap without lost updates, complete
  pagination) are derived once inside the locale.
\<close>

section \<open>Operations that only read\<close>

definition same_tables :: "backend \<Rightarrow> backend \<Rightarrow> bool" where
  "same_tables s s' \<longleftrightarrow> be_data s' = be_data s \<and> be_meta s' = be_meta s"

definition reads_only :: "'a backend_op \<Rightarrow> bool" where
  "reads_only m \<longleftrightarrow> (\<forall>s. same_tables s (snd (m s)))"

lemma same_tables_refl [simp]: "same_tables s s"
  by (simp add: same_tables_def)

lemma same_tables_trans: "same_tables s s' \<Longrightarrow> same_tables s' s'' \<Longrightarrow> same_tables s s''"
  by (simp add: same_tables_def)

lemma reads_onlyD: "reads_only m \<Longrightarrow> m s = (r, s') \<Longrightarrow> same_tables s s'"
  by (metis reads_only_def snd_conv)

lemma reads_only_basic [intro, simp]:
  "reads_only (ret x)"
  "reads_only (Pair res)"
  "reads_only (throw e)"
  "reads_only (lift_result res)"
  "reads_only (native fault convert)"
  "reads_only database"
  "reads_only read_data"
  "reads_only read_meta"
  "reads_only (set_open b)"
  by (auto simp: reads_only_def same_tables_def native_def Let_def database_def read_data_def
      read_meta_def set_open_def split: option.splits)

lemma reads_only_bind [intro]:
  assumes m: "reads_only m" and f: "\<And>x. reads_only (f x)"
  shows "reads_only (bind_eff m f)"
  unfolding reads_only_def
proof
  fix s
  obtain r s1 where ms: "m s = (r, s1)" by fastforce
  then have "same_tables s s1" using m by (rule reads_onlyD [rotated])
  moreover have "same_tables s1 (snd (f x s1))" for x using f by (simp add: reads_only_def)
  ultimately show "same_tables s (snd (bind_eff m f s))"
    using ms by (cases r) (auto intro: same_tables_trans)
qed

lemma reads_only_native_calls [intro, simp]:
  "reads_only (begin_transaction rd c)"
  "reads_only (open_table rd c)"
  "reads_only (access rd c)"
  "reads_only (open_database rd)"
  by (auto simp: begin_transaction_def open_table_def access_def open_database_def)

lemma reads_only_checks [intro, simp]:
  "reads_only (require_format rd)"
  "reads_only (global_version rd)"
  unfolding require_format_def global_version_def
  by (auto intro!: reads_only_bind split: option.splits)

lemma reads_only_reopen [intro, simp]: "reads_only (reopen rd)"
proof -
  have "reads_only (\<lambda>s. case bind_eff (require_format rd) (\<lambda>_. global_version rd) s of
      (Err e, s') \<Rightarrow> (Err e, s'\<lparr>be_open := False\<rparr>) | (Ok _, s') \<Rightarrow> (Ok (), s'))" (is "reads_only ?m")
    unfolding reads_only_def
  proof
    fix s
    have "reads_only (bind_eff (require_format rd) (\<lambda>_. global_version rd))" by auto
    then have "same_tables s (snd (bind_eff (require_format rd) (\<lambda>_. global_version rd) s))"
      by (simp add: reads_only_def)
    then show "same_tables s (snd (?m s))"
      by (auto simp: same_tables_def split: prod.splits sum.splits)
  qed
  then show ?thesis unfolding reopen_def by (auto intro!: reads_only_bind)
qed

lemma reads_only_ensure_open [intro, simp]: "reads_only (ensure_open rd)"
  using reads_only_reopen [of rd] by (auto simp: reads_only_def ensure_open_def)

text \<open>What a read returns is determined by the data table, whatever was reopened on the way.\<close>

definition reads_data :: "'a backend_op \<Rightarrow> (table \<Rightarrow> 'a \<Rightarrow> bool) \<Rightarrow> bool" where
  "reads_data m P \<longleftrightarrow> reads_only m \<and> (\<forall>s x s'. m s = (Ok x, s') \<longrightarrow> P (be_data s) x)"

lemma read_with_reopen_reads:
  assumes m: "reads_data m P"
  shows "reads_data (read_with_reopen rd m) P"
proof -
  have ro: "reads_only m" using m by (simp add: reads_data_def)
  have body: "same_tables s s' \<and> (\<forall>x. r = Ok x \<longrightarrow> P (be_data s) x)"
    if "read_with_reopen rd m s = (r, s')" for s r s'
  proof -
    obtain r0 s0 where e: "ensure_open rd s = (r0, s0)" by fastforce
    then have t0: "same_tables s s0" using reads_onlyD [OF reads_only_ensure_open] by blast
    obtain r1 s1 where m1: "m s0 = (r1, s1)" by fastforce
    then have t1: "same_tables s0 s1" using reads_onlyD [OF ro] by blast
    obtain r2 s2 where o2: "reopen rd s1 = (r2, s2)" by fastforce
    then have t2: "same_tables s1 s2" using reads_onlyD [OF reads_only_reopen] by blast
    obtain r3 s3 where m3: "m s2 = (r3, s3)" by fastforce
    then have t3: "same_tables s2 s3" using reads_onlyD [OF ro] by blast
    have val: "P (be_data s) x" if "m t = (Ok x, t')" "be_data t = be_data s" for x t t'
      using m that unfolding reads_data_def by metis
    have v1: "P (be_data s) x" if "r1 = Ok x" for x
      using val [of s0 x s1] m1 t0 that by (simp add: same_tables_def)
    have v3: "P (be_data s) x" if "r3 = Ok x" for x
      using val [of s2 x s3] m3 t0 t1 t2 that by (simp add: same_tables_def)
    show ?thesis
      using that e m1 o2 m3 t0 t1 t2 t3 v1 v3
      by (cases r0; cases r1; cases r2; cases r3)
         (auto simp: read_with_reopen_def bind_eff_apply same_tables_def split: if_splits)
  qed
  have ro': "reads_only (read_with_reopen rd m)"
    unfolding reads_only_def by (metis body prod.collapse)
  then show ?thesis unfolding reads_data_def using body by blast
qed

lemma reads_dataD:
  "reads_data m P \<Longrightarrow> m s = (r, s') \<Longrightarrow> same_tables s s' \<and> (\<forall>x. r = Ok x \<longrightarrow> P (be_data s) x)"
  by (auto simp: reads_data_def dest: reads_onlyD)

section \<open>The map a backend stands for\<close>

type_synonym store_view = "namespace \<times> key \<rightharpoonup> stored_value"

definition raw_view :: "redb \<Rightarrow> table \<Rightarrow> store_view" where
  "raw_view rd data = (\<lambda>(ns, k).
     case encode_physical_key ns k of
       Err _ \<Rightarrow> None
     | Ok p \<Rightarrow>
         (case map_of data p of
            None \<Rightarrow> None
          | Some raw \<Rightarrow> (case decode_value (rd_bincode rd) raw of Ok v \<Rightarrow> Some v | Err _ \<Rightarrow> None)))"

definition backend_view :: "redb \<Rightarrow> backend \<Rightarrow> store_view" where
  "backend_view rd s = raw_view rd (be_data s)"

definition backend_version :: "redb \<Rightarrow> backend \<Rightarrow> version" where
  "backend_version rd s = (case current_version rd (be_meta s) of Ok n \<Rightarrow> n | Err _ \<Rightarrow> 0)"

text \<open>
  Every record is a valid frame under an encodable key, stamped with a version no newer than the
  global one, which is readable.
\<close>

definition entry_ok :: "redb \<Rightarrow> version \<Rightarrow> bytes \<times> bytes \<Rightarrow> bool" where
  "entry_ok rd bound e \<longleftrightarrow>
     (\<exists>ns k r. encode_physical_key ns k = Ok (fst e) \<and> stored_record_decode (rd_bincode rd) (snd e) = Ok r \<and>
        rec_storage_version r \<le> bound)"

definition backend_inv :: "redb \<Rightarrow> backend \<Rightarrow> bool" where
  "backend_inv rd s \<longleftrightarrow>
     tbl_sorted (be_data s) \<and> tbl_sorted (be_meta s) \<and>
     (\<exists>n. current_version rd (be_meta s) = Ok n) \<and>
     list_all (entry_ok rd (backend_version rd s)) (be_data s)"

lemma same_tables_view:
  assumes "same_tables s s'"
  shows "backend_view rd s' = backend_view rd s" "backend_version rd s' = backend_version rd s"
    "backend_inv rd s' = backend_inv rd s"
  using assms by (simp_all add: same_tables_def backend_view_def backend_version_def backend_inv_def)

fun condition_holds :: "store_view \<Rightarrow> condition \<Rightarrow> bool" where
  "condition_holds m (Missing ns k) \<longleftrightarrow> m (ns, k) = None"
| "condition_holds m (VersionIs ns k n) \<longleftrightarrow> map_option sv_version (m (ns, k)) = Some n"

fun apply_view :: "version \<Rightarrow> operation list \<Rightarrow> store_view \<Rightarrow> store_view" where
  "apply_view n [] m = m"
| "apply_view n (Put ns k v # ops) m =
     apply_view n ops (m((ns, k) \<mapsto> \<lparr>sv_value = v, sv_version = n\<rparr>))"
| "apply_view n (Delete ns k # ops) m = apply_view n ops (m((ns, k) := None))"

section \<open>Values in the view\<close>

lemma decode_value_Ok_iff:
  "decode_value bc raw = Ok v \<longleftrightarrow> (\<exists>r. stored_record_decode bc raw = Ok r \<and> v = stored_value_of r)"
  by (auto simp: decode_value_def result_simps)

lemma raw_view_insert:
  assumes "tbl_sorted data" "encode_physical_key ns k = Ok p" "decode_value (rd_bincode rd) raw = Ok v"
  shows "raw_view rd (tbl_insert p raw data) = (raw_view rd data)((ns, k) \<mapsto> v)"
proof
  fix x :: "namespace \<times> key"
  obtain ns' k' where x: "x = (ns', k')" by fastforce
  have "ns' = ns \<and> k' = k" if "encode_physical_key ns' k' = Ok p"
    using that assms(2) by (auto simp: encode_physical_key_Ok_iff ns_header_append_inject)
  then show "raw_view rd (tbl_insert p raw data) x = ((raw_view rd data)((ns, k) \<mapsto> v)) x"
    using assms by (cases "encode_physical_key ns' k'")
      (auto simp: raw_view_def x map_of_tbl_insert)
qed

lemma raw_view_remove:
  assumes "tbl_sorted data" "encode_physical_key ns k = Ok p"
  shows "raw_view rd (tbl_remove p data) = (raw_view rd data)((ns, k) := None)"
proof
  fix x :: "namespace \<times> key"
  obtain ns' k' where x: "x = (ns', k')" by fastforce
  have "ns' = ns \<and> k' = k" if "encode_physical_key ns' k' = Ok p"
    using that assms(2) by (auto simp: encode_physical_key_Ok_iff ns_header_append_inject)
  then show "raw_view rd (tbl_remove p data) x = ((raw_view rd data)((ns, k) := None)) x"
    using assms by (cases "encode_physical_key ns' k'")
      (auto simp: raw_view_def x map_of_tbl_remove)
qed

text \<open>Under the invariant the view decodes every entry that is present.\<close>

lemma raw_view_present:
  assumes "list_all (entry_ok rd b) data" "encode_physical_key ns k = Ok p"
  shows "(case map_of data p of
            None \<Rightarrow> raw_view rd data (ns, k) = None
          | Some raw \<Rightarrow> (\<exists>r. stored_record_decode (rd_bincode rd) raw = Ok r \<and> rec_storage_version r \<le> b \<and>
              raw_view rd data (ns, k) = Some (stored_value_of r)))"
proof (cases "map_of data p")
  case (Some raw)
  then have "entry_ok rd b (p, raw)" using assms(1) by (auto simp: list_all_iff dest: map_of_SomeD)
  then obtain r where "stored_record_decode (rd_bincode rd) raw = Ok r" "rec_storage_version r \<le> b"
    by (auto simp: entry_ok_def)
  with Some assms(2) show ?thesis by (auto simp: raw_view_def decode_value_def)
qed (use assms(2) in \<open>simp add: raw_view_def\<close>)

lemma stamps_bounded:
  assumes "backend_inv rd s" "backend_view rd s x = Some v"
  shows "sv_version v \<le> backend_version rd s"
proof (cases x)
  case (Pair ns k)
  from assms(2) obtain p where p: "encode_physical_key ns k = Ok p"
    by (auto simp: backend_view_def raw_view_def Pair split: sum.splits)
  from raw_view_present [OF _ p, of rd "backend_version rd s" "be_data s"] assms show ?thesis
    by (auto simp: backend_inv_def backend_view_def Pair stored_value_of_def split: option.splits)
qed

section \<open>Point reads\<close>

lemma get_once_reads:
  "reads_data (get_once rd p) (\<lambda>data x. transpose_map (decode_value (rd_bincode rd)) (map_of data p) = Ok x)"
proof -
  have "reads_only (get_once rd p)"
    unfolding get_once_def by (auto intro!: reads_only_bind)
  moreover have "transpose_map (decode_value (rd_bincode rd)) (map_of (be_data s) p) = Ok x"
    if "get_once rd p s = (Ok x, s')" for s x s'
    using that unfolding get_once_def
    by (auto simp: result_simps read_data_def same_tables_def
        dest!: reads_onlyD [OF reads_only_native_calls(1)] reads_onlyD [OF reads_only_native_calls(2)]
          reads_onlyD [OF reads_only_native_calls(3)])
  ultimately show ?thesis by (auto simp: reads_data_def)
qed

lemma transpose_decode_view:
  "encode_physical_key ns k = Ok p \<Longrightarrow>
   transpose_map (decode_value (rd_bincode rd)) (map_of data p) = Ok x \<Longrightarrow> x = raw_view rd data (ns, k)"
  by (auto simp: raw_view_def result_simps split: option.splits sum.splits elim: option.exhaust)

lemma backend_get_law:
  assumes "backend_get rd ns k s = (r, s')"
  shows "same_tables s s' \<and> (\<forall>x. r = Ok x \<longrightarrow> x = backend_view rd s (ns, k))"
proof (cases "encode_physical_key ns k")
  case (Inr p)
  then have "read_with_reopen rd (get_once rd p) s = (r, s')"
    using assms by (simp add: backend_get_def)
  from reads_dataD [OF read_with_reopen_reads [OF get_once_reads] this] show ?thesis
    using transpose_decode_view [OF Inr] by (auto simp: backend_view_def)
qed (use assms in \<open>auto simp: backend_get_def\<close>)

section \<open>Commits\<close>

lemma reads_only_evaluate [intro, simp]: "reads_only (evaluate_condition rd data c)"
  by (cases c) (auto intro!: reads_only_bind)

lemma reads_only_evaluates [intro, simp]: "reads_only (evaluate_conditions rd data cs)"
  by (induction cs) (auto intro!: reads_only_bind)

lemma reads_only_apply [intro, simp]: "reads_only (apply_operations rd n ops data)"
  by (induction rd n ops data rule: apply_operations.induct) (auto intro!: reads_only_bind)

lemma evaluate_condition_holds:
  assumes "list_all (entry_ok rd b) data" "evaluate_condition rd data c s = (Ok u, s')"
  shows "condition_holds (raw_view rd data) c"
proof (cases c)
  case (Missing ns k)
  with assms(2) obtain p where "encode_physical_key ns k = Ok p" "map_of data p = None"
    by (auto simp: result_simps)
  then show ?thesis using Missing raw_view_present [OF assms(1)] by fastforce
next
  case (VersionIs ns k n)
  with assms(2) obtain p raw v where "encode_physical_key ns k = Ok p" "map_of data p = Some raw"
      "decode_value (rd_bincode rd) raw = Ok v" "sv_version v = n"
    by (auto simp: result_simps)
  then show ?thesis using VersionIs by (simp add: raw_view_def)
qed

lemma evaluate_conditions_hold:
  "list_all (entry_ok rd b) data \<Longrightarrow> evaluate_conditions rd data cs s = (Ok u, s') \<Longrightarrow>
   list_all (condition_holds (raw_view rd data)) cs"
  by (induction cs arbitrary: s) (auto simp: result_simps dest: evaluate_condition_holds)

lemma encoded_record_decodes:
  assumes "bincode_fixed_be bc" "and_then (stored_record_new v n) (stored_record_encode bc) = Ok frame"
  shows "stored_record_decode bc frame = Ok \<lparr>rec_storage_version = n, rec_payload = v\<rparr>"
  using assms
  by (auto simp: result_simps stored_record_new_Ok_iff stored_record_encode_Ok stored_record_decode_layout)

lemma entry_ok_mono: "entry_ok rd b e \<Longrightarrow> b \<le> b' \<Longrightarrow> entry_ok rd b' e"
  by (auto simp: entry_ok_def intro: order.trans)

lemma apply_operations_view:
  assumes "bincode_fixed_be (rd_bincode rd)"
  shows "apply_operations rd n ops data s = (Ok data', s') \<Longrightarrow> tbl_sorted data \<Longrightarrow>
    list_all (entry_ok rd n) data \<Longrightarrow>
    tbl_sorted data' \<and> list_all (entry_ok rd n) data' \<and> raw_view rd data' = apply_view n ops (raw_view rd data)"
proof (induction ops arbitrary: data s)
  case (Cons op ops)
  show ?case
  proof (cases op)
    case (Put ns k v)
    with Cons.prems(1) obtain p frame s1 where p: "encode_physical_key ns k = Ok p"
        and frame: "and_then (stored_record_new v n) (stored_record_encode (rd_bincode rd)) = Ok frame"
        and rest: "apply_operations rd n ops (tbl_insert p frame data) s1 = (Ok data', s')"
      by (auto simp: bind_eff_Ok_iff)
    note decoded = encoded_record_decodes [OF assms frame]
    then have "entry_ok rd n (p, frame)" using p by (force simp: entry_ok_def)
    then have "list_all (entry_ok rd n) (tbl_insert p frame data)"
      using Cons.prems(3) set_tbl_insert [of p frame data] by (auto simp: list_all_iff)
    moreover have "raw_view rd (tbl_insert p frame data) =
        (raw_view rd data)((ns, k) \<mapsto> \<lparr>sv_value = v, sv_version = n\<rparr>)"
      using raw_view_insert [OF Cons.prems(2) p] decoded by (simp add: decode_value_def stored_value_of_def)
    ultimately show ?thesis
      using Cons.IH [OF rest tbl_sorted_insert [OF Cons.prems(2)]]
      unfolding Put apply_view.simps by (simp only: simp_thms)
  next
    case (Delete ns k)
    with Cons.prems(1) obtain p s1 where p: "encode_physical_key ns k = Ok p"
        and rest: "apply_operations rd n ops (tbl_remove p data) s1 = (Ok data', s')"
      by (auto simp: bind_eff_Ok_iff)
    have "list_all (entry_ok rd n) (tbl_remove p data)"
      using Cons.prems(3) set_tbl_remove by (fastforce simp: list_all_iff)
    then show ?thesis
      using Cons.IH [OF rest tbl_sorted_remove [OF Cons.prems(2)]]
      unfolding Delete apply_view.simps raw_view_remove [OF Cons.prems(2) p] by (simp only: simp_thms)
  qed
qed simp

text \<open>A commit is a reading preparation followed by the installation of the prepared tables.\<close>

definition prepare_commit :: "redb \<Rightarrow> write_batch \<Rightarrow> (version \<times> table \<times> table) backend_op" where
  "prepare_commit rd batch =
     bind_eff (begin_transaction rd write_begin_context) (\<lambda>_.
     bind_eff (native (rd_durability rd) (\<lambda>e. other_error (configure_commit_context @ e))) (\<lambda>_.
     bind_eff (open_table rd data_table_context) (\<lambda>_.
     bind_eff (open_table rd meta_table_context) (\<lambda>_.
     bind_eff read_data (\<lambda>data.
     bind_eff read_meta (\<lambda>meta.
     bind_eff (evaluate_conditions rd data (wb_conditions batch)) (\<lambda>_.
     bind_eff (access rd read_version_context) (\<lambda>_.
     bind_eff (lift_result (current_version rd meta)) (\<lambda>current.
     bind_eff (lift_result (ok_or (checked_add current 1) version_exhausted_error)) (\<lambda>next.
     bind_eff (apply_operations rd next (wb_operations batch) data) (\<lambda>data'.
     bind_eff (lift_result
       (and_then (global_version_new next) (global_version_encode (rd_bincode rd)))) (\<lambda>encoded.
     bind_eff (access rd write_version_context) (\<lambda>_.
     ret (next, data', tbl_insert GLOBAL_VERSION_KEY encoded meta))))))))))))))"

lemma commit_once_prepare:
  "commit_once rd batch =
     bind_eff (prepare_commit rd batch) (\<lambda>(next, data, meta).
     bind_eff (commit_transaction rd data meta) (\<lambda>_. ret next))"
  by (simp add: commit_once_def prepare_commit_def bind_eff_assoc)

lemma reads_only_prepare [intro, simp]: "reads_only (prepare_commit rd batch)"
  unfolding prepare_commit_def by (auto intro!: reads_only_bind)

lemma prepare_commit_Ok:
  assumes "prepare_commit rd batch s = (Ok (n, data, meta), s')"
  shows "\<exists>current s1 s2 s3 s4 encoded u.
    evaluate_conditions rd (be_data s) (wb_conditions batch) s1 = (Ok u, s2) \<and>
    current_version rd (be_meta s) = Ok current \<and> checked_add current 1 = Some n \<and>
    apply_operations rd n (wb_operations batch) (be_data s) s3 = (Ok data, s4) \<and>
    and_then (global_version_new n) (global_version_encode (rd_bincode rd)) = Ok encoded \<and>
    meta = tbl_insert GLOBAL_VERSION_KEY encoded (be_meta s)"
proof -
  have native: "be_data t' = be_data t \<and> be_meta t' = be_meta t"
    if "m t = (r, t')" "reads_only m" for m :: "unit backend_op" and t r t'
    using reads_onlyD [OF that(2,1)] by (simp add: same_tables_def)
  from assms obtain t1 t2 t3 t4 t5 t6 t7 t8 current encoded u1 u2 u3 u4 u5 u6 u7 where
      "begin_transaction rd write_begin_context s = (Ok u1, t1)"
      "native (rd_durability rd) (\<lambda>e. other_error (configure_commit_context @ e)) t1 = (Ok u2, t2)"
      "open_table rd data_table_context t2 = (Ok u3, t3)"
      "open_table rd meta_table_context t3 = (Ok u4, t4)"
    and t: "evaluate_conditions rd (be_data t4) (wb_conditions batch) t4 = (Ok u5, t5)"
      "access rd read_version_context t5 = (Ok u6, t6)"
      "current_version rd (be_meta t4) = Ok current" "checked_add current 1 = Some n"
      "apply_operations rd n (wb_operations batch) (be_data t4) t6 = (Ok data, t7)"
      "and_then (global_version_new n) (global_version_encode (rd_bincode rd)) = Ok encoded"
      "meta = tbl_insert GLOBAL_VERSION_KEY encoded (be_meta t4)"
    unfolding prepare_commit_def bind_eff_Ok_iff eff_simps read_data_def read_meta_def
    by (auto simp: ok_or_iff)
  then have "be_data t4 = be_data s \<and> be_meta t4 = be_meta s" by (auto dest!: native)
  with t show ?thesis by metis
qed

text \<open>
  The effect of a committed batch: its conditions held, its operations are applied to the map as
  one step, and the version counter advanced by one.
\<close>

definition committed ::
  "('s \<Rightarrow> store_view) \<Rightarrow> ('s \<Rightarrow> version) \<Rightarrow> write_batch \<Rightarrow> 's \<Rightarrow> 's \<Rightarrow> bool" where
  "committed view ver batch s s' \<longleftrightarrow>
     list_all (condition_holds (view s)) (wb_conditions batch) \<and>
     unat (ver s') = unat (ver s) + 1 \<and>
     view s' = apply_view (ver s') (wb_operations batch) (view s)"

lemma prepared_installed:
  assumes bc: "bincode_fixed_be (rd_bincode rd)" and inv: "backend_inv rd s"
    and prep: "prepare_commit rd batch s = (Ok (n, data, meta), s1)"
    and tables: "be_data s' = data" "be_meta s' = meta"
  shows "backend_inv rd s' \<and> committed (backend_view rd) (backend_version rd) batch s s' \<and>
    backend_version rd s' = n"
proof -
  from prepare_commit_Ok [OF prep] obtain current t1 t2 t3 t4 encoded u where
      conds: "evaluate_conditions rd (be_data s) (wb_conditions batch) t1 = (Ok u, t2)"
    and current: "current_version rd (be_meta s) = Ok current" "checked_add current 1 = Some n"
    and ops: "apply_operations rd n (wb_operations batch) (be_data s) t3 = (Ok data, t4)"
    and enc: "and_then (global_version_new n) (global_version_encode (rd_bincode rd)) = Ok encoded"
    and meta: "meta = tbl_insert GLOBAL_VERSION_KEY encoded (be_meta s)"
    by blast
  have old: "backend_version rd s = current" using current by (simp add: backend_version_def)
  have bound: "current \<le> n" "unat n = unat current + 1"
    using current(2) by (auto simp: width_simps word_le_nat_alt)
  have sorted: "tbl_sorted (be_data s)" "tbl_sorted (be_meta s)"
    and entries: "list_all (entry_ok rd current) (be_data s)"
    using inv old by (auto simp: backend_inv_def)
  then have "list_all (entry_ok rd n) (be_data s)"
    using bound(1) by (auto simp: list_all_iff intro: entry_ok_mono)
  from apply_operations_view [OF bc ops sorted(1) this] have view:
      "tbl_sorted data" "list_all (entry_ok rd n) data"
      "raw_view rd data = apply_view n (wb_operations batch) (raw_view rd (be_data s))"
    by auto
  have "global_version_decode (rd_bincode rd) encoded = Ok (GlobalVersion n)"
    using enc by (auto simp: global_version_new_def result_simps global_version_encode_Ok [OF bc]
        global_version_decode_Ok_iff [OF bc])
  then have new: "current_version rd meta = Ok n"
    by (simp add: current_version_def meta map_of_tbl_insert [OF sorted(2)])
  then have ver: "backend_version rd s' = n" by (simp add: backend_version_def tables)
  have "backend_inv rd s'"
    using view new sorted by (auto simp: backend_inv_def ver tables meta tbl_sorted_insert)
  moreover have "committed (backend_view rd) (backend_version rd) batch s s'"
    using evaluate_conditions_hold [OF entries conds] view(3) bound(2)
    by (simp add: committed_def backend_view_def ver old tables)
  ultimately show ?thesis using ver by simp
qed

lemma commit_transaction_cases:
  assumes "commit_transaction rd data meta s = (r, s')"
  shows "be_data s' = data \<and> be_meta s' = meta \<or> same_tables s s' \<and> r \<noteq> Ok u"
    and "r = Err e \<Longrightarrow> st_kind e = Unavailable"
  using assms
  by (auto simp: commit_transaction_def commit_error_def same_tables_def Let_def
      split: option.splits if_splits)

lemma commit_once_law:
  assumes bc: "bincode_fixed_be (rd_bincode rd)" and inv: "backend_inv rd s"
    and run: "commit_once rd batch s = (r, s')"
  shows "backend_inv rd s' \<and>
    (case r of
       Ok n \<Rightarrow> committed (backend_view rd) (backend_version rd) batch s s' \<and> n = backend_version rd s'
     | Err e \<Rightarrow> same_tables s s' \<or>
         st_kind e = Unavailable \<and> committed (backend_view rd) (backend_version rd) batch s s')"
proof -
  obtain pr s1 where prep: "prepare_commit rd batch s = (pr, s1)" by fastforce
  have t1: "same_tables s s1" using reads_onlyD [OF reads_only_prepare prep] .
  show ?thesis
  proof (cases pr)
    case (Inl e)
    then have "r = Err e" "s' = s1" using run prep by (simp_all add: commit_once_prepare)
    then show ?thesis using t1 inv by (simp add: same_tables_view)
  next
    case (Inr y)
    obtain n data meta where y: "y = (n, data, meta)" by (cases y) auto
    obtain cr s2 where com: "commit_transaction rd data meta s1 = (cr, s2)" by fastforce
    have s2: "s' = s2" "r = (case cr of Err e \<Rightarrow> Err e | Ok _ \<Rightarrow> Ok n)"
      using run prep com Inr y by (cases cr; simp add: commit_once_prepare bind_eff_apply)+
    note installed = prepared_installed [OF bc inv prep [unfolded Inr y], of s']
    from commit_transaction_cases(1) [OF com] consider
        "be_data s' = data" "be_meta s' = meta" | "same_tables s s'" "cr \<noteq> Ok ()"
      using t1 s2 same_tables_trans by blast
    then show ?thesis
      by cases (use installed s2 inv commit_transaction_cases(2) [OF com] in
        \<open>auto simp: same_tables_view split: sum.splits\<close>)
  qed
qed

lemma committed_same_tables:
  "same_tables s0 s \<Longrightarrow> same_tables s' s1 \<Longrightarrow>
   committed (backend_view rd) (backend_version rd) batch s s' \<Longrightarrow>
   committed (backend_view rd) (backend_version rd) batch s0 s1"
  by (simp add: committed_def same_tables_view)

lemma backend_commit_law:
  assumes bc: "bincode_fixed_be (rd_bincode rd)" and inv: "backend_inv rd s"
    and run: "backend_commit rd batch s = (r, s')"
  shows "backend_inv rd s' \<and>
    (case r of
       Ok n \<Rightarrow> committed (backend_view rd) (backend_version rd) batch s s' \<and> n = backend_version rd s'
     | Err e \<Rightarrow> same_tables s s' \<or>
         st_kind e = Unavailable \<and> committed (backend_view rd) (backend_version rd) batch s s')"
proof -
  obtain r0 s0 where e: "ensure_open rd s = (r0, s0)" by fastforce
  then have t0: "same_tables s s0" using reads_onlyD [OF reads_only_ensure_open] by blast
  obtain r1 s1 where c: "commit_once rd batch s0 = (r1, s1)" by fastforce
  obtain r2 s2 where o: "reopen rd s1 = (r2, s2)" by fastforce
  then have t2: "same_tables s1 s2" using reads_onlyD [OF reads_only_reopen] by blast
  have inv0: "backend_inv rd s0" using inv same_tables_view(3) [OF t0] by simp
  note law = commit_once_law [OF bc inv0 c]
  show ?thesis
  proof (cases r0)
    case (Inl e0)
    then have "r = Err e0" "s' = s0" using run e by (simp_all add: backend_commit_def)
    then show ?thesis using t0 inv0 by simp
  next
    case (Inr u)
    show ?thesis
    proof (cases r1)
      case (Inr n)
      then have "r = Ok n" "s' = s1" using run e c \<open>r0 = Ok u\<close> by (simp_all add: backend_commit_def)
      then show ?thesis using law Inr committed_same_tables [OF t0 same_tables_refl] by auto
    next
      case (Inl e1)
      then obtain e' where r: "r = Err e'" "st_kind e' = st_kind e1" and s': "s' = s1 \<or> s' = s2"
        using run e c o \<open>r0 = Ok u\<close>
        by (auto simp: backend_commit_def split: if_splits sum.splits)
      have t: "same_tables s1 s'" using s' t2 by auto
      have "same_tables s0 s1 \<or>
          st_kind e1 = Unavailable \<and> committed (backend_view rd) (backend_version rd) batch s0 s1"
        and inv1: "backend_inv rd s1"
        using law Inl by simp_all
      then have "same_tables s s' \<or>
          st_kind e1 = Unavailable \<and> committed (backend_view rd) (backend_version rd) batch s s'"
        using same_tables_trans t0 t committed_same_tables [OF t0 t] by blast
      then show ?thesis using r inv1 same_tables_view(3) [OF t] by simp
    qed
  qed
qed

section \<open>Scans\<close>

definition matches :: "scan_request \<Rightarrow> key \<Rightarrow> bool" where
  "matches req k \<longleftrightarrow> prefix (sr_prefix req) k \<and> (\<forall>a \<in> set_option (sr_after req). a < k)"

text \<open>
  One page: in key order, at most \<open>limit\<close> entries, only current values under the prefix and after
  the cursor. Nothing is left out but what lies beyond the returned cursor, and a cursor is
  returned exactly when something does.
\<close>

definition page_spec :: "store_view \<Rightarrow> scan_request \<Rightarrow> scan_page \<Rightarrow> bool" where
  "page_spec m req page \<longleftrightarrow>
     sorted_wrt (<) (map fst (sp_entries page)) \<and> length (sp_entries page) \<le> sr_limit req \<and>
     (\<forall>(k, v) \<in> set (sp_entries page). m (sr_namespace req, k) = Some v \<and> matches req k) \<and>
     (\<forall>k v. m (sr_namespace req, k) = Some v \<and> matches req k \<longrightarrow>
        (k, v) \<in> set (sp_entries page) \<or> (\<exists>c \<in> set_option (sp_next page). c < k)) \<and>
     (\<forall>c \<in> set_option (sp_next page). sp_entries page \<noteq> [] \<and> c = fst (last (sp_entries page)) \<and>
        (\<exists>k v. m (sr_namespace req, k) = Some v \<and> matches req k \<and> c < k))"

lemma page_of_spec:
  assumes sorted: "sorted_wrt (<) (map fst L)"
    and mem: "\<And>k v. (k, v) \<in> set L \<longleftrightarrow> m (sr_namespace req, k) = Some v \<and> matches req k"
    and limit: "0 < sr_limit req"
  shows "page_spec m req (page_of (sr_limit req) (take (Suc (sr_limit req)) L))"
proof (cases "length L \<le> sr_limit req")
  case True
  then have page: "page_of (sr_limit req) (take (Suc (sr_limit req)) L) = \<lparr>sp_entries = L, sp_next = None\<rparr>"
    by (simp add: page_of_def)
  show ?thesis unfolding page page_spec_def using sorted True mem by auto
next
  case False
  let ?n = "sr_limit req" and ?kept = "take (sr_limit req) L"
  have len: "?n < length L" "?kept \<noteq> []" using False limit by auto
  have kept: "butlast (take (Suc ?n) L) = ?kept"
    using len by (simp add: butlast_take)
  have page: "page_of ?n (take (Suc ?n) L) = \<lparr>sp_entries = ?kept, sp_next = Some (fst (last ?kept))\<rparr>"
    using len kept by (simp add: page_of_def Let_def)
  have last: "last ?kept = L ! (?n - 1)"
    using len limit by (simp add: last_conv_nth)
  have after: "fst (last ?kept) < fst (L ! j)" if "?n \<le> j" "j < length L" for j
    using sorted that limit len unfolding last sorted_wrt_iff_nth_less by simp
  have beyond: "(k, v) \<in> set ?kept \<or> fst (last ?kept) < k" if "(k, v) \<in> set L" for k v
  proof -
    from that obtain j where j: "j < length L" "L ! j = (k, v)" by (auto simp: in_set_conv_nth)
    then show ?thesis
      using after [of j] by (cases "j < ?n") (force simp: in_set_conv_nth)+
  qed
  have more: "\<exists>k v. m (sr_namespace req, k) = Some v \<and> matches req k \<and> fst (last ?kept) < k"
    using after [of ?n] len mem [of "fst (L ! ?n)" "snd (L ! ?n)"] by fastforce
  show ?thesis
    unfolding page page_spec_def
    using sorted len beyond more mem
    by (auto simp: sorted_wrt_take simp flip: take_map dest: in_set_takeD)
qed

definition entry_of :: "redb \<Rightarrow> namespace \<Rightarrow> bytes \<times> bytes \<Rightarrow> key \<times> stored_value" where
  "entry_of rd ns e =
     (drop (length (ns_header ns)) (fst e), case decode_value (rd_bincode rd) (snd e) of Ok v \<Rightarrow> v)"

definition beyond_cursor :: "scan_request \<Rightarrow> bytes \<times> bytes \<Rightarrow> bool" where
  "beyond_cursor req e \<longleftrightarrow>
     (\<forall>a \<in> set_option (sr_after req). a < drop (length (ns_header (sr_namespace req))) (fst e))"

lemma decode_under_prefix:
  assumes "int (length ns) < 2 ^ 32" "prefix (ns_header ns @ p) k"
  shows "decode_physical_key k ns = Ok (drop (length (ns_header ns)) k)"
  using assms by (auto simp: prefix_def decode_of_header)

lemma scan_entries_Ok:
  assumes ns: "int (length (sr_namespace req)) < 2 ^ 32"
    and pfx: "pfx = ns_header (sr_namespace req) @ p"
  shows "scan_entries rd req pfx n acc items s = (Ok es, s') \<Longrightarrow> length acc < n \<Longrightarrow>
    es = acc @ take (n - length acc) (map (entry_of rd (sr_namespace req))
      (filter (beyond_cursor req) (takeWhile (\<lambda>e. prefix pfx (fst e)) items)))"
proof (induction items arbitrary: acc s)
  case (Cons e items)
  obtain k raw where e: "e = (k, raw)" by fastforce
  show ?case
  proof (cases "prefix pfx k")
    case False
    then show ?thesis using Cons.prems by (auto simp: e bind_eff_Ok_iff)
  next
    case True
    then have dec: "decode_physical_key k (sr_namespace req) =
        Ok (drop (4 + length (sr_namespace req)) k)" (is "_ = Ok ?lk")
      using decode_under_prefix [OF ns] by (simp add: pfx)
    have skip: "(case sr_after req of None \<Rightarrow> False | Some after \<Rightarrow> ?lk \<le> after) \<longleftrightarrow> \<not> beyond_cursor req e"
      by (cases "sr_after req") (auto simp: beyond_cursor_def e not_less)
    show ?thesis
    proof (cases "beyond_cursor req e")
      case False
      with True dec skip Cons.prems obtain t where
        "scan_entries rd req pfx n acc items t = (Ok es, s')"
        by (auto simp: e bind_eff_Ok_iff)
      from Cons.IH [OF this Cons.prems(2)] show ?thesis using True False by (simp add: e)
    next
      case b: True
      with True dec skip Cons.prems obtain t v where v: "decode_value (rd_bincode rd) raw = Ok v"
        and run: "(let entries' = acc @ [(?lk, v)] in
           if length entries' = n then ret entries' else scan_entries rd req pfx n entries' items) t = (Ok es, s')"
        by (auto simp: e bind_eff_Ok_iff)
      have entry: "entry_of rd (sr_namespace req) e = (?lk, v)" by (simp add: entry_of_def e v)
      show ?thesis
      proof (cases "Suc (length acc) = n")
        case full: True
        then have "es = acc @ [(?lk, v)]" "n - length acc = 1" using run by auto
        then show ?thesis using True b entry by (simp add: e)
      next
        case more: False
        then have "scan_entries rd req pfx n (acc @ [(?lk, v)]) items t = (Ok es, s')"
          using run by (simp add: Let_def)
        from Cons.IH [OF this] show ?thesis
          using more Cons.prems(2) True b entry by (simp add: e Suc_diff_Suc flip: take_Suc_Cons)
      qed
    qed
  qed
qed simp

lemma reads_only_scan_entries [intro, simp]: "reads_only (scan_entries rd req pfx n acc items)"
  by (induction items arbitrary: acc)
     (auto simp: Let_def intro!: reads_only_bind split: option.splits)

definition scan_start :: "scan_request \<Rightarrow> bytes" where
  "scan_start req =
     ns_header (sr_namespace req) @ (case sr_after req of Some after \<Rightarrow> after | None \<Rightarrow> sr_prefix req)"

definition selected :: "redb \<Rightarrow> scan_request \<Rightarrow> table \<Rightarrow> (key \<times> stored_value) list" where
  "selected rd req data =
     map (entry_of rd (sr_namespace req))
       (filter (beyond_cursor req)
         (takeWhile (\<lambda>e. prefix (ns_header (sr_namespace req) @ sr_prefix req) (fst e))
           (tbl_range (scan_start req) data)))"

lemma scan_once_reads:
  assumes "int (length (sr_namespace req)) < 2 ^ 32"
  shows "reads_data
    (scan_once rd req (ns_header (sr_namespace req) @ sr_prefix req) (scan_start req) (Suc (sr_limit req)))
    (\<lambda>data page. page = page_of (sr_limit req) (take (Suc (sr_limit req)) (selected rd req data)))"
    (is "reads_data ?m ?P")
proof -
  have "reads_only ?m" unfolding scan_once_def by (auto intro!: reads_only_bind)
  moreover have "?P (be_data s) page" if "?m s = (Ok page, s')" for s page s'
  proof -
    from that obtain t u1 u2 u3 t1 t2 t3 es where
        "begin_transaction rd scan_begin_context s = (Ok u1, t1)"
        "open_table rd data_table_context t1 = (Ok u2, t2)"
        "access rd scan_start_context t2 = (Ok u3, t3)"
      and run: "scan_entries rd req (ns_header (sr_namespace req) @ sr_prefix req) (Suc (sr_limit req)) []
          (tbl_range (scan_start req) (be_data t3)) t3 = (Ok es, t)"
      and page: "page = page_of (sr_limit req) es"
      unfolding scan_once_def bind_eff_Ok_iff eff_simps read_data_def by auto
    then have "same_tables s t3"
      by (meson reads_onlyD reads_only_native_calls same_tables_trans)
    then show ?thesis
      using scan_entries_Ok [OF assms refl run] page by (simp add: selected_def same_tables_def)
  qed
  ultimately show ?thesis by (simp add: reads_data_def)
qed

lemma selected_filter:
  assumes "tbl_sorted data" "\<forall>a \<in> set_option (sr_after req). prefix (sr_prefix req) a"
  shows "selected rd req data =
    map (entry_of rd (sr_namespace req))
      (filter (\<lambda>e. beyond_cursor req e \<and> scan_start req \<le> fst e \<and>
         prefix (ns_header (sr_namespace req) @ sr_prefix req) (fst e)) data)"
proof -
  have "prefix (ns_header (sr_namespace req) @ sr_prefix req) (scan_start req)"
    using assms(2) by (auto simp: scan_start_def split: option.splits)
  from scan_window [OF assms(1) this] show ?thesis by (simp add: selected_def conj_ac)
qed

lemma selected_sorted:
  assumes "tbl_sorted data" "\<forall>a \<in> set_option (sr_after req). prefix (sr_prefix req) a"
  shows "sorted_wrt (<) (map fst (selected rd req data))"
proof -
  let ?xs = "filter (\<lambda>e. beyond_cursor req e \<and> scan_start req \<le> fst e \<and>
     prefix (ns_header (sr_namespace req) @ sr_prefix req) (fst e)) data"
  have "sorted_wrt (\<lambda>x y. fst x < fst y) ?xs"
    using tbl_sorted_filter [OF assms(1)] by (simp add: tbl_sorted_def sorted_wrt_map)
  then have "sorted_wrt (\<lambda>x y. fst (entry_of rd (sr_namespace req) x) < fst (entry_of rd (sr_namespace req) y)) ?xs"
    by (rule sorted_wrt_mono_rel [rotated]) (auto simp: entry_of_def prefix_def)
  then show ?thesis unfolding selected_filter [OF assms] by (simp add: sorted_wrt_map)
qed

lemma selected_mem:
  assumes sorted: "tbl_sorted data" and cursor: "\<forall>a \<in> set_option (sr_after req). prefix (sr_prefix req) a"
    and ns: "int (length (sr_namespace req)) < 2 ^ 32" and entries: "list_all (entry_ok rd b) data"
  shows "(k, v) \<in> set (selected rd req data) \<longleftrightarrow>
    raw_view rd data (sr_namespace req, k) = Some v \<and> matches req k" (is "?L \<longleftrightarrow> ?R")
proof
  assume ?L
  then obtain p raw where e: "(p, raw) \<in> set data" "beyond_cursor req (p, raw)"
      "prefix (ns_header (sr_namespace req) @ sr_prefix req) p"
      "(k, v) = entry_of rd (sr_namespace req) (p, raw)"
    by (auto simp: selected_filter [OF sorted cursor])
  have p: "p = ns_header (sr_namespace req) @ k"
    using e(3,4) by (auto simp: entry_of_def prefix_def)
  from entries e(1) obtain ns' k' r where enc: "encode_physical_key ns' k' = Ok p"
      and r: "stored_record_decode (rd_bincode rd) raw = Ok r"
    by (auto simp: list_all_iff entry_ok_def)
  then have "encode_physical_key (sr_namespace req) k = Ok p"
    using ns p by (auto simp: encode_physical_key_Ok_iff ns_header_append_inject)
  moreover have "map_of data p = Some raw"
    using e(1) sorted by (simp add: tbl_sorted_distinct)
  ultimately have "raw_view rd data (sr_namespace req, k) = Some v"
    using e(4) r by (simp add: raw_view_def entry_of_def decode_value_def)
  moreover have "matches req k"
    using e(2,3) p by (auto simp: matches_def beyond_cursor_def prefix_def)
  ultimately show ?R by simp
next
  assume R: ?R
  then obtain p raw where p: "encode_physical_key (sr_namespace req) k = Ok p"
      and raw: "map_of data p = Some raw" "decode_value (rd_bincode rd) raw = Ok v"
    by (auto simp: raw_view_def split: sum.splits option.splits)
  then have pk: "p = ns_header (sr_namespace req) @ k" by (simp add: encode_physical_key_Ok_iff)
  then have "scan_start req \<le> p"
    using R prefix_le [of "sr_prefix req" k]
    by (auto simp: scan_start_def matches_def less_imp_le split: option.splits)
  then have "(p, raw) \<in> set (filter (\<lambda>e. beyond_cursor req e \<and> scan_start req \<le> fst e \<and>
     prefix (ns_header (sr_namespace req) @ sr_prefix req) (fst e)) data)"
    using R pk map_of_SomeD [OF raw(1)] by (auto simp: beyond_cursor_def matches_def)
  moreover have "(k, v) = entry_of rd (sr_namespace req) (p, raw)"
    by (simp add: entry_of_def pk raw(2))
  ultimately show ?L
    unfolding selected_filter [OF sorted cursor] set_map by (rule image_eqI [rotated])
qed

lemma reads_only_with_reopen [intro]: "reads_only m \<Longrightarrow> reads_only (read_with_reopen rd m)"
  using read_with_reopen_reads [of m "\<lambda>_ _. True" rd] by (simp add: reads_data_def)

lemma reads_only_scan: "reads_only (backend_scan rd req)"
  unfolding backend_scan_def scan_once_def Let_def
  by (intro reads_only_bind reads_only_with_reopen reads_only_basic reads_only_native_calls
      reads_only_scan_entries)

lemma backend_scan_Ok:
  assumes "backend_scan rd req s = (Ok page, s')"
  shows "0 < sr_limit req" "\<forall>a \<in> set_option (sr_after req). prefix (sr_prefix req) a"
    "int (length (sr_namespace req)) < 2 ^ 32"
    "read_with_reopen rd (scan_once rd req (ns_header (sr_namespace req) @ sr_prefix req)
      (scan_start req) (Suc (sr_limit req))) s = (Ok page, s')"
proof -
  from assms obtain header start where
      limit: "sr_limit req \<noteq> 0"
    and cursor: "\<not> (case sr_after req of None \<Rightarrow> False | Some after \<Rightarrow> \<not> prefix (sr_prefix req) after)"
    and header: "namespace_prefix (sr_namespace req) = Ok header"
    and start: "(case sr_after req of Some after \<Rightarrow> encode_physical_key (sr_namespace req) after
        | None \<Rightarrow> Ok (header @ sr_prefix req)) = Ok start"
    and run: "read_with_reopen rd (scan_once rd req (header @ sr_prefix req) start (sr_limit req + 1)) s =
        (Ok page, s')"
    unfolding backend_scan_def Let_def bind_eff_Ok_iff eff_simps prod.inject fail_if_iff by blast
  show "0 < sr_limit req" using limit by simp
  show "\<forall>a \<in> set_option (sr_after req). prefix (sr_prefix req) a"
    using cursor by (auto split: option.splits)
  show "int (length (sr_namespace req)) < 2 ^ 32"
    using header unfolding namespace_prefix_Ok_iff by (rule conjunct1)
  have "header = ns_header (sr_namespace req)"
    using header unfolding namespace_prefix_Ok_iff by (rule conjunct2)
  moreover from this have "start = scan_start req"
    using start by (cases "sr_after req") (auto simp: scan_start_def encode_physical_key_Ok_iff)
  ultimately show "read_with_reopen rd (scan_once rd req (ns_header (sr_namespace req) @ sr_prefix req)
      (scan_start req) (Suc (sr_limit req))) s = (Ok page, s')"
    using run by simp
qed

lemma backend_scan_law:
  assumes inv: "backend_inv rd s" and run: "backend_scan rd req s = (r, s')"
  shows "same_tables s s' \<and> (\<forall>page. r = Ok page \<longrightarrow> page_spec (backend_view rd s) req page)"
proof -
  have "page_spec (backend_view rd s) req page" if "r = Ok page" for page
  proof -
    note ok = backend_scan_Ok [OF run [unfolded that]]
    have "page = page_of (sr_limit req) (take (Suc (sr_limit req)) (selected rd req (be_data s)))"
      using reads_dataD [OF read_with_reopen_reads [OF scan_once_reads [OF ok(3)]] ok(4)] by blast
    moreover have "page_spec (backend_view rd s) req
        (page_of (sr_limit req) (take (Suc (sr_limit req)) (selected rd req (be_data s))))"
      using inv ok(1) unfolding backend_view_def backend_inv_def
      by (intro page_of_spec selected_sorted [OF _ ok(2)] selected_mem [OF _ ok(2,3)]) auto
    ultimately show ?thesis by simp
  qed
  then show ?thesis using reads_onlyD [OF reads_only_scan run] by blast
qed

section \<open>The store interface\<close>

text \<open>
  What a client of \<open>Store\<close> may rely on. \<open>view\<close> is the map the state stands for and \<open>ver\<close> its
  version counter; a commit that fails without being definite may still have happened, as a whole.
\<close>

locale store =
  fixes inv :: "'s \<Rightarrow> bool"
    and view :: "'s \<Rightarrow> store_view"
    and ver :: "'s \<Rightarrow> version"
    and get :: "namespace \<Rightarrow> key \<Rightarrow> ('s, store_error, stored_value option) eff"
    and scan :: "scan_request \<Rightarrow> ('s, store_error, scan_page) eff"
    and commit :: "write_batch \<Rightarrow> ('s, store_error, version) eff"
  assumes get_law: "inv s \<Longrightarrow> get ns k s = (r, s') \<Longrightarrow>
      inv s' \<and> view s' = view s \<and> ver s' = ver s \<and> (\<forall>x. r = Ok x \<longrightarrow> x = view s (ns, k))"
    and scan_law: "inv s \<Longrightarrow> scan req s = (sr, s') \<Longrightarrow>
      inv s' \<and> view s' = view s \<and> ver s' = ver s \<and> (\<forall>page. sr = Ok page \<longrightarrow> page_spec (view s) req page)"
    and commit_law: "inv s \<Longrightarrow> commit batch s = (cr, s') \<Longrightarrow>
      inv s' \<and>
      (case cr of
         Ok n \<Rightarrow> committed view ver batch s s' \<and> n = ver s'
       | Err e \<Rightarrow> view s' = view s \<and> ver s' = ver s \<or> st_kind e = Unavailable \<and> committed view ver batch s s')"
    and stamp_law: "inv s \<Longrightarrow> view s x = Some v \<Longrightarrow> sv_version v \<le> ver s"
begin

text \<open>One command of any client.\<close>

definition step :: "'s \<Rightarrow> 's \<Rightarrow> bool" where
  "step s s' \<longleftrightarrow>
     (\<exists>ns k. s' = snd (get ns k s)) \<or> (\<exists>req. s' = snd (scan req s)) \<or> (\<exists>batch. s' = snd (commit batch s))"

lemma step_cases:
  assumes "inv s" "step s s'"
  shows "inv s' \<and> (view s' = view s \<and> ver s' = ver s \<or> (\<exists>batch. committed view ver batch s s'))"
proof -
  from assms(2) consider ns k where "s' = snd (get ns k s)" | req where "s' = snd (scan req s)"
    | batch where "s' = snd (commit batch s)"
    by (auto simp: step_def)
  then show ?thesis
  proof cases
    case 1
    then show ?thesis using get_law [OF assms(1), of ns k "fst (get ns k s)"] by simp
  next
    case 2
    then show ?thesis using scan_law [OF assms(1), of req "fst (scan req s)"] by simp
  next
    case 3
    then show ?thesis
      using commit_law [OF assms(1), of batch "fst (commit batch s)" s']
      by (auto split: sum.splits)
  qed
qed

text \<open>A value found later is either the one that was there or stamped after it.\<close>

definition evolved :: "'s \<Rightarrow> 's \<Rightarrow> bool" where
  "evolved s s' \<longleftrightarrow>
     inv s' \<and> ver s \<le> ver s' \<and>
     (\<forall>x v. view s' x = Some v \<longrightarrow> view s x = Some v \<or> ver s < sv_version v)"

lemma apply_view_stamp: "apply_view n ops m x = Some v \<Longrightarrow> m x = Some v \<or> sv_version v = n"
  by (induction n ops m rule: apply_view.induct) (auto split: if_splits)

lemma step_evolved:
  assumes "inv s" "step s s'"
  shows "evolved s s'"
proof -
  from step_cases [OF assms] consider "view s' = view s" "ver s' = ver s" |
      batch where "committed view ver batch s s'"
    by blast
  then show ?thesis
  proof cases
    case 2
    then have "ver s < ver s'" by (simp add: committed_def word_less_nat_alt)
    with 2 step_cases [OF assms] show ?thesis
      by (auto simp: evolved_def committed_def dest: apply_view_stamp)
  qed (use step_cases [OF assms] in \<open>simp add: evolved_def\<close>)
qed

lemma steps_evolved:
  assumes "inv s" "step\<^sup>*\<^sup>* s s'"
  shows "evolved s s'"
  using assms(2)
proof (induction rule: rtranclp_induct)
  case base
  then show ?case using assms(1) by (simp add: evolved_def)
next
  case (step t u)
  then have "evolved t u" by (intro step_evolved) (simp_all add: evolved_def)
  with step.IH show ?case unfolding evolved_def by (meson le_less_trans order.trans)
qed

text \<open>
  Compare-and-swap: a commit conditioned on the version that was read succeeds only if the value
  is still the one that was read, whatever other clients did in between.
\<close>

lemma no_lost_update:
  assumes "inv s" "get ns k s = (Ok (Some v), s1)" "step\<^sup>*\<^sup>* s1 s2" "commit batch s2 = (Ok n, s3)"
    and "VersionIs ns k (sv_version v) \<in> set (wb_conditions batch)"
  shows "view s2 (ns, k) = Some v"
proof -
  from get_law [OF assms(1,2)] have s1: "inv s1" "view s1 (ns, k) = Some v" by auto
  note ev = steps_evolved [OF s1(1) assms(3)]
  from ev have "inv s2" by (simp add: evolved_def)
  from commit_law [OF this assms(4)] assms(5) have
      "condition_holds (view s2) (VersionIs ns k (sv_version v))"
    unfolding committed_def list_all_iff sum.case by blast
  then obtain v' where v': "view s2 (ns, k) = Some v'" "sv_version v' = sv_version v" by auto
  moreover have "\<not> ver s1 < sv_version v'"
    using stamp_law [OF s1] v'(2) by (simp add: not_less)
  ultimately have "view s1 (ns, k) = Some v'" using ev unfolding evolved_def by blast
  then show ?thesis using v'(1) s1(2) by simp
qed

text \<open>The same for a key that was absent.\<close>

lemma committed_missing:
  assumes "inv s" "commit batch s = (Ok n, s')" "Missing ns k \<in> set (wb_conditions batch)"
  shows "view s (ns, k) = None"
  using commit_law [OF assms(1,2)] assms(3) by (auto simp: committed_def list_all_iff)

end

text \<open>Two pages in a row are one page of the combined size.\<close>

lemma matches_after:
  "matches (req\<lparr>sr_after := Some c\<rparr>) k \<longleftrightarrow> prefix (sr_prefix req) k \<and> c < k"
  by (simp add: matches_def)

lemma page_spec_append:
  assumes p1: "page_spec m req p1" and nxt: "sp_next p1 = Some c"
    and p2: "page_spec m (req\<lparr>sr_after := Some c, sr_limit := n\<rparr>) p2"
  shows "page_spec m (req\<lparr>sr_limit := sr_limit req + n\<rparr>)
    \<lparr>sp_entries = sp_entries p1 @ sp_entries p2, sp_next = sp_next p2\<rparr>"
proof -
  have c: "sp_entries p1 \<noteq> []" "c = fst (last (sp_entries p1))"
    using p1 nxt by (auto simp: page_spec_def)
  then have "(c, snd (last (sp_entries p1))) \<in> set (sp_entries p1)"
    by (metis last_in_set prod.collapse)
  then have "matches req c" using p1 by (auto simp: page_spec_def)
  then have after: "matches (req\<lparr>sr_after := Some c, sr_limit := n\<rparr>) k \<longleftrightarrow> matches req k \<and> c < k" for k
    by (auto simp: matches_def intro: order.strict_trans)
  have limit: "matches (req\<lparr>sr_limit := j\<rparr>) k \<longleftrightarrow> matches req k" for j k
    by (simp add: matches_def)
  have below: "k \<le> c" if "k \<in> fst ` set (sp_entries p1)" for k
  proof -
    have "sorted_wrt (<) (map fst (sp_entries p1))" using p1 by (simp add: page_spec_def)
    then show ?thesis using that c
      by (cases "sp_entries p1" rule: rev_cases) (auto simp: sorted_wrt_append less_imp_le)
  qed
  have p2': "sorted_wrt (<) (map fst (sp_entries p2))" "length (sp_entries p2) \<le> n"
      "\<forall>(k, v) \<in> set (sp_entries p2). m (sr_namespace req, k) = Some v \<and> matches req k \<and> c < k"
      "\<forall>k v. m (sr_namespace req, k) = Some v \<and> matches req k \<and> c < k \<longrightarrow>
         (k, v) \<in> set (sp_entries p2) \<or> (\<exists>d \<in> set_option (sp_next p2). d < k)"
      "\<forall>d \<in> set_option (sp_next p2). sp_entries p2 \<noteq> [] \<and> d = fst (last (sp_entries p2)) \<and>
         (\<exists>k v. m (sr_namespace req, k) = Some v \<and> matches req k \<and> d < k)"
    using p2 by (simp_all add: page_spec_def after) blast
  have cover: "(k, v) \<in> set (sp_entries p1) \<or> (k, v) \<in> set (sp_entries p2) \<or>
      (\<exists>d \<in> set_option (sp_next p2). d < k)"
    if "m (sr_namespace req, k) = Some v" "matches req k" for k v
  proof -
    have "(k, v) \<in> set (sp_entries p1) \<or> c < k" using p1 nxt that by (auto simp: page_spec_def)
    then show ?thesis using p2'(4) that by blast
  qed
  have above: "c < k" if "k \<in> fst ` set (sp_entries p2)" for k
    using p2'(3) that by auto
  show ?thesis
    unfolding page_spec_def
  proof (intro conjI)
    show "sorted_wrt (<) (map fst (sp_entries
        \<lparr>sp_entries = sp_entries p1 @ sp_entries p2, sp_next = sp_next p2\<rparr>))"
      using p1 p2'(1) le_less_trans [OF below above]
      by (simp add: page_spec_def sorted_wrt_append)
  qed (use p1 p2' cover in \<open>auto simp: page_spec_def limit\<close>)
qed

section \<open>The adapter provides the interface\<close>

text \<open>The adapter over redb with the documented record layout, for every failure behaviour.\<close>

definition redb_ok :: "redb \<Rightarrow> backend \<Rightarrow> bool" where
  "redb_ok rd s \<longleftrightarrow> bincode_fixed_be (rd_bincode rd) \<and> backend_inv rd s"

interpretation redb_store: store
  "redb_ok rd" "backend_view rd" "backend_version rd" "backend_get rd" "backend_scan rd" "backend_commit rd"
  for rd
proof
  fix s ns k r s'
  assume "redb_ok rd s" "backend_get rd ns k s = (r, s')"
  then show "redb_ok rd s' \<and> backend_view rd s' = backend_view rd s \<and>
      backend_version rd s' = backend_version rd s \<and> (\<forall>x. r = Ok x \<longrightarrow> x = backend_view rd s (ns, k))"
    using backend_get_law [of rd ns k s r s'] by (auto simp: redb_ok_def same_tables_view)
next
  fix s req sr s'
  assume "redb_ok rd s" "backend_scan rd req s = (sr, s')"
  then show "redb_ok rd s' \<and> backend_view rd s' = backend_view rd s \<and>
      backend_version rd s' = backend_version rd s \<and>
      (\<forall>page. sr = Ok page \<longrightarrow> page_spec (backend_view rd s) req page)"
    using backend_scan_law [of rd s req sr s'] by (auto simp: redb_ok_def same_tables_view)
next
  fix s batch cr s'
  assume "redb_ok rd s" "backend_commit rd batch s = (cr, s')"
  then show "redb_ok rd s' \<and>
      (case cr of
         Ok n \<Rightarrow> committed (backend_view rd) (backend_version rd) batch s s' \<and> n = backend_version rd s'
       | Err e \<Rightarrow> backend_view rd s' = backend_view rd s \<and> backend_version rd s' = backend_version rd s \<or>
           st_kind e = Unavailable \<and> committed (backend_view rd) (backend_version rd) batch s s')"
    using backend_commit_law [of rd s batch cr s'] same_tables_view(1,2) [of s s' rd]
    by (auto simp: redb_ok_def split: sum.splits)
next
  fix s x v
  assume "redb_ok rd s" "backend_view rd s x = Some v"
  then show "sv_version v \<le> backend_version rd s" by (simp add: redb_ok_def stamps_bounded)
qed

text \<open>Any command the owner thread handles is a step, so clients may be interleaved freely.\<close>

lemma handle_step: "redb_store.step rd s (snd (handle rd c s))"
  by (cases c) (auto simp: redb_store.step_def)

lemma run_commands_steps: "(redb_store.step rd)\<^sup>*\<^sup>* s (snd (run_commands rd cs s))"
proof (induction cs arbitrary: s)
  case (Cons c cs)
  then show ?case
    using handle_step [of rd s c]
    by (auto simp: split_beta Let_def intro: converse_rtranclp_into_rtranclp)
qed simp

text \<open>An adapter whose native calls never fail, over an empty database that is open.\<close>

definition calm_redb :: redb where
  "calm_redb = \<lparr>rd_bincode = fixed_bincode, rd_open = \<lambda>_. None, rd_begin = \<lambda>_. None,
     rd_durability = \<lambda>_. None, rd_table = \<lambda>_. None, rd_access = \<lambda>_. None, rd_commit = \<lambda>_. None\<rparr>"

definition empty_backend :: backend where
  "empty_backend = \<lparr>be_open = True, be_data = [], be_meta = [], be_tick = 0\<rparr>"

lemma calm_redb_bincode [simp]: "rd_bincode calm_redb = fixed_bincode"
  by (simp add: calm_redb_def)

lemma empty_backend_ok: "bincode_fixed_be (rd_bincode rd) \<Longrightarrow> redb_ok rd empty_backend"
  by (simp add: redb_ok_def backend_inv_def empty_backend_def current_version_def)

text \<open>A database with two records of the namespace \<open>a\<close>, both written by the first commit.\<close>

definition demo_backend :: backend where
  "demo_backend = \<lparr>be_open = True,
     be_data =
       [([0, 0, 0, 1, 97, 1], VALUE_MAGIC @ record_layout \<lparr>rec_storage_version = 1, rec_payload = [7]\<rparr>),
        ([0, 0, 0, 1, 97, 2], VALUE_MAGIC @ record_layout \<lparr>rec_storage_version = 1, rec_payload = [8]\<rparr>)],
     be_meta = [(GLOBAL_VERSION_KEY, GLOBAL_VERSION_MAGIC @ u64_be 1)], be_tick = 0\<rparr>"

definition demo_batch :: write_batch where
  "demo_batch = \<lparr>wb_conditions = [VersionIs ''a'' [1] 1], wb_operations = [Delete ''a'' [1]]\<rparr>"

definition demo_request :: scan_request where
  "demo_request = \<lparr>sr_namespace = ''a'', sr_prefix = [], sr_after = None, sr_limit = 1\<rparr>"

lemma demo_keys:
  "encode_physical_key ''a'' [1] = Ok [0, 0, 0, 1, 97, 1]"
  "encode_physical_key ''a'' [2] = Ok [0, 0, 0, 1, 97, 2]"
  "namespace_prefix ''a'' = Ok [0, 0, 0, 1, 97]"
  "decode_physical_key [0, 0, 0, 1, 97, 1] ''a'' = Ok [1]"
  "decode_physical_key [0, 0, 0, 1, 97, 2] ''a'' = Ok [2]"
  by code_simp+

lemma decode_layout_value:
  "decode_value fixed_bincode (VALUE_MAGIC @ record_layout \<lparr>rec_storage_version = n, rec_payload = [v]\<rparr>) =
     (if n = 0 then Err record_version_error else Ok \<lparr>sv_value = [v], sv_version = n\<rparr>)"
  by (simp add: decode_value_def stored_record_decode_def validate_frame_prefix_def
      MAX_STORED_PAYLOAD_BYTES_def record_layout_def fixed_bincode_def stored_value_of_def Let_def)

lemma calm_native:
  "native (rd_begin calm_redb) f1 s = (Ok (), s\<lparr>be_tick := Suc (be_tick s)\<rparr>)"
  "native (rd_table calm_redb) f2 s = (Ok (), s\<lparr>be_tick := Suc (be_tick s)\<rparr>)"
  "native (rd_access calm_redb) f3 s = (Ok (), s\<lparr>be_tick := Suc (be_tick s)\<rparr>)"
  "native (rd_durability calm_redb) f4 s = (Ok (), s\<lparr>be_tick := Suc (be_tick s)\<rparr>)"
  "commit_transaction calm_redb d m s = (Ok (), s\<lparr>be_tick := Suc (be_tick s), be_data := d, be_meta := m\<rparr>)"
  by (simp_all add: native_def calm_redb_def commit_transaction_def Let_def)

lemmas calm_steps =
  begin_transaction_def database_def open_table_def access_def read_data_def read_meta_def calm_native
  bind_eff_apply read_with_reopen_def ensure_open_def

lemma demo_get:
  "backend_get calm_redb ''a'' [1] demo_backend =
     (Ok (Some \<lparr>sv_value = [7], sv_version = 1\<rparr>), demo_backend\<lparr>be_tick := 3\<rparr>)"
  by (simp add: backend_get_def demo_keys get_once_def calm_steps demo_backend_def decode_layout_value)

lemma demo_version: "current_version calm_redb (be_meta demo_backend) = Ok 1"
  by (simp add: demo_backend_def current_version_def global_version_decode_def validate_frame_prefix_def
      fixed_bincode_def)

lemma demo_commit: "\<exists>s'. backend_commit calm_redb demo_batch (demo_backend\<lparr>be_tick := 3\<rparr>) = (Ok 2, s')"
proof -
  have "checked_add (1 :: version) 1 = Some 2" by (simp add: checked_add_def)
  moreover have "global_version_new (2 :: version) = Ok (GlobalVersion 2)"
    by (simp add: global_version_new_def)
  ultimately show ?thesis
    using demo_version
    by (simp add: backend_commit_def commit_once_def calm_steps demo_batch_def demo_keys demo_backend_def
        decode_layout_value global_version_encode_def)
qed

lemma demo_ok: "redb_ok calm_redb demo_backend"
proof -
  have entry: "entry_ok calm_redb 1 (p, VALUE_MAGIC @ record_layout \<lparr>rec_storage_version = 1, rec_payload = [v]\<rparr>)"
    if "encode_physical_key ''a'' k = Ok p" for k p v
  proof -
    have "record_valid \<lparr>rec_storage_version = 1, rec_payload = [v]\<rparr>"
      by (simp add: record_valid_def MAX_STORED_PAYLOAD_BYTES_def)
    from stored_record_decode_layout [OF fixed_bincode_ok this] that show ?thesis
      by (auto simp: entry_ok_def intro!: exI)
  qed
  note entry [OF demo_keys(1)] entry [OF demo_keys(2)]
  moreover have "backend_version calm_redb demo_backend = 1"
    by (simp add: backend_version_def demo_version)
  moreover have "tbl_sorted (be_data demo_backend)" "tbl_sorted (be_meta demo_backend)"
    by (simp_all add: demo_backend_def)
  ultimately show ?thesis
    using demo_version fixed_bincode_ok
    by (simp add: redb_ok_def backend_inv_def) (simp add: demo_backend_def)
qed

lemma demo_scan:
  "backend_scan calm_redb demo_request demo_backend =
     (Ok \<lparr>sp_entries = [([1], \<lparr>sv_value = [7], sv_version = 1\<rparr>)], sp_next = Some [1]\<rparr>,
      demo_backend\<lparr>be_tick := 5\<rparr>)"
  "backend_scan calm_redb (demo_request\<lparr>sr_after := Some [1], sr_limit := 1\<rparr>) (demo_backend\<lparr>be_tick := 5\<rparr>) =
     (Ok \<lparr>sp_entries = [([2], \<lparr>sv_value = [8], sv_version = 1\<rparr>)], sp_next = None\<rparr>,
      demo_backend\<lparr>be_tick := 10\<rparr>)"
  by (simp_all add: backend_scan_def demo_request_def demo_keys calm_steps scan_once_def demo_backend_def
      tbl_range_def decode_layout_value page_of_def Let_def)

section \<open>Properties\<close>

text \<open>
  C35. Commits are atomic under every native failure: a commit that reports success found all its
  conditions true, applied all its operations as one step and advanced the version by one; a
  commit that reports an error left the map as it was, except that an unavailable error may stand
  for a batch that became durable as a whole. The invariant of the tables is kept either way.
\<close>

theorem commit_atomic:
  assumes "redb_ok rd s" "backend_commit rd batch s = (r, s')"
  shows "redb_ok rd s' \<and>
    (case r of
       Ok n \<Rightarrow> committed (backend_view rd) (backend_version rd) batch s s' \<and> n = backend_version rd s'
     | Err e \<Rightarrow> backend_view rd s' = backend_view rd s \<and> backend_version rd s' = backend_version rd s \<or>
         st_kind e = Unavailable \<and> committed (backend_view rd) (backend_version rd) batch s s')"
  using assms by (rule redb_store.commit_law)

theorem commit_atomic_witness:
  "\<exists>s'. backend_commit calm_redb demo_batch (demo_backend\<lparr>be_tick := 3\<rparr>) = (Ok 2, s') \<and>
     committed (backend_view calm_redb) (backend_version calm_redb) demo_batch (demo_backend\<lparr>be_tick := 3\<rparr>) s'"
proof -
  obtain s' where run: "backend_commit calm_redb demo_batch (demo_backend\<lparr>be_tick := 3\<rparr>) = (Ok 2, s')"
    using demo_commit by blast
  have "redb_ok calm_redb (demo_backend\<lparr>be_tick := 3\<rparr>)"
    using redb_store.get_law [OF demo_ok demo_get] by blast
  from commit_atomic [OF this run] run show ?thesis by auto
qed

text \<open>
  Compare-and-swap loses no update: after a key was read at a version and any sequence of other
  commands was handled, a commit that is conditioned on that version and succeeds found the very
  value that was read, so no write in between was overwritten unseen.
\<close>

theorem cas_no_lost_update:
  assumes "redb_ok rd s" "backend_get rd ns k s = (Ok (Some v), s1)"
    and "run_commands rd cs s1 = (replies, s2)" "backend_commit rd batch s2 = (Ok n, s3)"
    and "VersionIs ns k (sv_version v) \<in> set (wb_conditions batch)"
  shows "backend_view rd s2 (ns, k) = Some v"
proof (rule redb_store.no_lost_update [OF assms(1,2) _ assms(4,5)])
  show "(redb_store.step rd)\<^sup>*\<^sup>* s1 s2" using run_commands_steps [of rd s1 cs] assms(3) by simp
qed

theorem cas_no_lost_update_witness:
  "backend_view calm_redb (demo_backend\<lparr>be_tick := 3\<rparr>) (''a'', [1]) = Some \<lparr>sv_value = [7], sv_version = 1\<rparr>"
proof -
  obtain s' where "backend_commit calm_redb demo_batch (demo_backend\<lparr>be_tick := 3\<rparr>) = (Ok 2, s')"
    using demo_commit by blast
  from cas_no_lost_update [OF demo_ok demo_get run_commands.simps(1) this] show ?thesis
    by (simp add: demo_batch_def)
qed

text \<open>
  C36. A prefix scan is exact and can be paged: every page holds, in key order, current values under
  the prefix beyond the cursor and omits only what lies beyond the cursor it returns; continuing
  from that cursor yields what a single scan of the combined size would, with no key repeated or
  skipped.
\<close>

theorem scan_pages_exact:
  assumes "redb_ok rd s" "backend_scan rd req s = (Ok p1, s1)" "sp_next p1 = Some c"
    and "backend_scan rd (req\<lparr>sr_after := Some c, sr_limit := n\<rparr>) s1 = (Ok p2, s2)"
  shows "page_spec (backend_view rd s) req p1 \<and>
    page_spec (backend_view rd s) (req\<lparr>sr_limit := sr_limit req + n\<rparr>)
      \<lparr>sp_entries = sp_entries p1 @ sp_entries p2, sp_next = sp_next p2\<rparr>"
proof -
  from redb_store.scan_law [OF assms(1,2)] have s1: "redb_ok rd s1" "backend_view rd s1 = backend_view rd s"
      and p1: "page_spec (backend_view rd s) req p1"
    by auto
  from redb_store.scan_law [OF s1(1) assms(4)] s1(2)
  have "page_spec (backend_view rd s) (req\<lparr>sr_after := Some c, sr_limit := n\<rparr>) p2" by auto
  with page_spec_append [OF p1 assms(3)] p1 show ?thesis by blast
qed

theorem scan_pages_exact_witness:
  "page_spec (backend_view calm_redb demo_backend) (demo_request\<lparr>sr_limit := 2\<rparr>)
     \<lparr>sp_entries = [([1], \<lparr>sv_value = [7], sv_version = 1\<rparr>), ([2], \<lparr>sv_value = [8], sv_version = 1\<rparr>)],
      sp_next = None\<rparr>"
  using scan_pages_exact [OF demo_ok demo_scan(1) _ demo_scan(2)] by (simp add: demo_request_def numeral_2_eq_2)

end
