(* ===== verification/Chain_Values.thy ===== *)
theory Chain_Values
  imports Decimal "HOL-Library.Product_Lexorder"
begin

text \<open>
  The chain-neutral values: block references (\<open>sdk/chains/base/src/block.rs\<close>), opaque addresses
  (\<open>address.rs\<close>), network and asset metadata (\<open>network.rs\<close>, \<open>chain.rs\<close>, \<open>asset.rs\<close>), the scoped
  identifiers of \<open>sdk/indexing/src/value.rs\<close> and the error type of \<open>sdk/indexing/src/error.rs\<close>.

  The identifiers that derive \<open>Ord\<close> are ordered field by field; an ordered set of them
  (\<open>BTreeSet\<close>) is its sorted list of distinct members, which is the order it iterates in.
\<close>

section \<open>Ordered sets\<close>

definition btree_set :: "'a::linorder list \<Rightarrow> 'a list" where
  "btree_set xs = sort (remdups xs)"

lemma set_btree_set [simp]: "set (btree_set xs) = set xs"
  by (simp add: btree_set_def)

lemma distinct_btree_set [simp]: "distinct (btree_set xs)"
  by (simp add: btree_set_def)

lemma sorted_btree_set [simp]: "sorted (btree_set xs)"
  by (simp add: btree_set_def)

section \<open>Blocks\<close>

type_synonym block_height = u64
type_synonym block_position = u64
type_synonym block_hash = "u8 list"

text \<open>\<open>BlockHeight::checked_successor\<close> and \<open>BlockPosition::checked_successor\<close>.\<close>

definition height_successor :: "block_height \<Rightarrow> block_height option" where
  "height_successor h = checked_add h 1"

definition position_successor :: "block_position \<Rightarrow> block_position option" where
  "position_successor p = checked_add p 1"

record block_parent =
  bp_position :: block_position
  bp_hash :: block_hash

record block_ref =
  br_position :: block_position
  br_height :: block_height
  br_hash :: block_hash
  br_parent :: "block_parent option"
  br_timestamp :: "u64 option"

section \<open>Addresses\<close>

datatype address_error_kind =
  AddressEmpty | InvalidEncoding | InvalidFormat | InvalidLength | InvalidChecksum | WrongNetwork

record address_error =
  ae_kind :: address_error_kind
  ae_message :: string

definition address_error_new :: "address_error_kind \<Rightarrow> string \<Rightarrow> address_error" where
  "address_error_new kind message = \<lparr>ae_kind = kind, ae_message = message\<rparr>"

datatype address = Address (as_bytes: "u8 list")

definition address_empty_error :: address_error where
  "address_empty_error = address_error_new AddressEmpty ''address bytes must not be empty''"

definition address_validate :: "address \<Rightarrow> (address_error, unit) result" where
  "address_validate a = fail_if (as_bytes a = []) address_empty_error"

text \<open>\<open>{byte:02x}\<close> for every byte.\<close>

definition hex_digit :: "nat \<Rightarrow> char" where
  "hex_digit d = char_of (if d < 10 then 48 + d else 87 + d)"

definition hex_byte :: "u8 \<Rightarrow> string" where
  "hex_byte b = [hex_digit (unat b div 16), hex_digit (unat b mod 16)]"

definition address_display :: "address \<Rightarrow> string" where
  "address_display a = concat (map hex_byte (as_bytes a))"

section \<open>Networks and assets\<close>

datatype network_kind = Mainnet | Testnet

record 'r network_id =
  ni_value :: 'r
  ni_kind :: network_kind

definition is_mainnet :: "'r network_id \<Rightarrow> bool" where
  "is_mainnet n \<longleftrightarrow> ni_kind n = Mainnet"

definition is_testnet :: "'r network_id \<Rightarrow> bool" where
  "is_testnet n \<longleftrightarrow> ni_kind n = Testnet"

record 'r chain =
  ch_network_id :: "'r network_id"
  ch_name :: string
  ch_ticker :: string

record 'r asset =
  at_chain :: "'r chain"
  at_name :: string
  at_ticker :: string
  at_decimals :: nat

definition asset_to_atomic :: "'r asset \<Rightarrow> decimal \<Rightarrow> (decimal_error, nat) result" where
  "asset_to_atomic asset amount = to_atomic amount (at_decimals asset)"

definition asset_from_atomic :: "'r asset \<Rightarrow> nat \<Rightarrow> decimal" where
  "asset_from_atomic asset amount = from_atomic amount (at_decimals asset)"

text \<open>\<open>eq_ignore_ascii_case\<close> and the first test network with the name.\<close>

definition ascii_lower :: "char \<Rightarrow> char" where
  "ascii_lower c =
     (if 65 \<le> (of_char c :: nat) \<and> (of_char c :: nat) \<le> 90 then char_of (of_char c + 32 :: nat) else c)"

definition eq_ignore_ascii_case :: "string \<Rightarrow> string \<Rightarrow> bool" where
  "eq_ignore_ascii_case a b \<longleftrightarrow> map ascii_lower a = map ascii_lower b"

fun testnet_get :: "(string \<times> 'r chain) list \<Rightarrow> string \<Rightarrow> 'r chain option" where
  "testnet_get [] name = None"
| "testnet_get ((key, chain) # networks) name =
     (if eq_ignore_ascii_case key name then Some chain else testnet_get networks name)"

section \<open>Scoped identifiers\<close>

datatype chain_id = ChainId (chain_name: string)
datatype index_scope = IndexScope (sc_chain: chain_id) (sc_network: string)
datatype asset_id = AssetId (ai_chain: chain_id) (ai_asset: string)
datatype canonical_address = CanonicalAddress (ca_scope: index_scope) (ca_value: string)
datatype transaction_ref = TransactionRef (tr_scope: index_scope) (tr_value: string)

text \<open>The derived \<open>Ord\<close> compares the fields in the order they are declared.\<close>

instantiation chain_id :: linorder
begin

definition less_eq_chain_id :: "chain_id \<Rightarrow> chain_id \<Rightarrow> bool" where
  "less_eq_chain_id a b \<longleftrightarrow> chain_name a \<le> chain_name b"

definition less_chain_id :: "chain_id \<Rightarrow> chain_id \<Rightarrow> bool" where
  "less_chain_id a b \<longleftrightarrow> chain_name a < chain_name b"

instance
  by standard (auto simp: less_eq_chain_id_def less_chain_id_def intro: chain_id.expand)

end

instantiation index_scope :: linorder
begin

definition less_eq_index_scope :: "index_scope \<Rightarrow> index_scope \<Rightarrow> bool" where
  "less_eq_index_scope a b \<longleftrightarrow> (sc_chain a, sc_network a) \<le> (sc_chain b, sc_network b)"

definition less_index_scope :: "index_scope \<Rightarrow> index_scope \<Rightarrow> bool" where
  "less_index_scope a b \<longleftrightarrow> (sc_chain a, sc_network a) < (sc_chain b, sc_network b)"

instance
  by standard (auto simp: less_eq_index_scope_def less_index_scope_def intro: index_scope.expand)

end

instantiation asset_id :: linorder
begin

definition less_eq_asset_id :: "asset_id \<Rightarrow> asset_id \<Rightarrow> bool" where
  "less_eq_asset_id a b \<longleftrightarrow> (ai_chain a, ai_asset a) \<le> (ai_chain b, ai_asset b)"

definition less_asset_id :: "asset_id \<Rightarrow> asset_id \<Rightarrow> bool" where
  "less_asset_id a b \<longleftrightarrow> (ai_chain a, ai_asset a) < (ai_chain b, ai_asset b)"

instance
  by standard (auto simp: less_eq_asset_id_def less_asset_id_def intro: asset_id.expand)

end

instantiation canonical_address :: linorder
begin

definition less_eq_canonical_address :: "canonical_address \<Rightarrow> canonical_address \<Rightarrow> bool" where
  "less_eq_canonical_address a b \<longleftrightarrow> (ca_scope a, ca_value a) \<le> (ca_scope b, ca_value b)"

definition less_canonical_address :: "canonical_address \<Rightarrow> canonical_address \<Rightarrow> bool" where
  "less_canonical_address a b \<longleftrightarrow> (ca_scope a, ca_value a) < (ca_scope b, ca_value b)"

instance
  by standard
    (auto simp: less_eq_canonical_address_def less_canonical_address_def
      intro: canonical_address.expand)

end

instantiation transaction_ref :: linorder
begin

definition less_eq_transaction_ref :: "transaction_ref \<Rightarrow> transaction_ref \<Rightarrow> bool" where
  "less_eq_transaction_ref a b \<longleftrightarrow> (tr_scope a, tr_value a) \<le> (tr_scope b, tr_value b)"

definition less_transaction_ref :: "transaction_ref \<Rightarrow> transaction_ref \<Rightarrow> bool" where
  "less_transaction_ref a b \<longleftrightarrow> (tr_scope a, tr_value a) < (tr_scope b, tr_value b)"

instance
  by standard
    (auto simp: less_eq_transaction_ref_def less_transaction_ref_def intro: transaction_ref.expand)

end

definition address_belongs_to :: "canonical_address \<Rightarrow> index_scope \<Rightarrow> bool" where
  "address_belongs_to a scope \<longleftrightarrow> ca_scope a = scope"

definition transaction_belongs_to :: "transaction_ref \<Rightarrow> index_scope \<Rightarrow> bool" where
  "transaction_belongs_to t scope \<longleftrightarrow> tr_scope t = scope"

section \<open>Indexing errors\<close>

record source_error =
  se_message :: string
  se_retryable :: bool

datatype index_error_kind =
  SourceFailure | StoreFailure | Conflict | ScopeMismatch | InvalidBlock | CannotConnect | ReorgTooDeep
| InvalidRequest

record index_error =
  ie_kind :: index_error_kind
  ie_message :: string
  ie_retryable :: bool

definition index_error_new :: "index_error_kind \<Rightarrow> string \<Rightarrow> bool \<Rightarrow> index_error" where
  "index_error_new kind message retryable =
     \<lparr>ie_kind = kind, ie_message = message, ie_retryable = retryable\<rparr>"

definition cannot_connect :: "string \<Rightarrow> index_error" where
  "cannot_connect message = index_error_new CannotConnect message True"

definition retryable_conflict :: "string \<Rightarrow> index_error" where
  "retryable_conflict message = index_error_new Conflict message True"

definition index_error_from_source :: "source_error \<Rightarrow> index_error" where
  "index_error_from_source e = index_error_new SourceFailure (se_message e) (se_retryable e)"

text \<open>\<open>text.trim().is_empty()\<close>.\<close>

function blank_text :: "string \<Rightarrow> bool" where
  "blank_text s =
     (if s = [] then True
      else list_ex (\<lambda>w. if w \<noteq> [] \<and> take (length w) (map of_char s) = w then blank_text (drop (length w) s) else False)
        utf8_whitespace)"
  by auto

termination
  by (relation "measure length") auto

declare blank_text.simps [simp del]

text \<open>
  The loop of every block source over a range of positions: one block after the other, until the end of the
  range, the limit or the last position. \<open>n\<close> is what the limit leaves for further blocks.
\<close>

fun fetch_range ::
  "(block_position \<Rightarrow> ('w, source_error, 'b) eff) \<Rightarrow> nat \<Rightarrow> block_position \<Rightarrow> block_position \<Rightarrow> ('w, source_error, 'b list) eff" where
  "fetch_range fetch 0 position end1 = ret []"
| "fetch_range fetch (Suc n) position end1 =
     (if position > end1 then ret []
      else
        bind_eff (fetch position) (\<lambda>block.
        case checked_add position 1 of
          None \<Rightarrow> ret [block]
        | Some following \<Rightarrow> bind_eff (fetch_range fetch n following end1) (\<lambda>rest. ret (block # rest))))"

lemma fetch_range_Ok:
  assumes "fetch_range fetch n position end1 w = (Ok delivered, w')" "\<And>p b w w'. fetch p w = (Ok b, w') \<Longrightarrow> pos b = p"
  shows "length delivered = min n (unat end1 + 1 - unat position) \<and>
    (\<forall>k < length delivered. unat (pos (delivered ! k)) = unat position + k)"
  using assms
proof (induction fetch n position end1 arbitrary: w delivered rule: fetch_range.induct)
  case (2 fetch n position end1)
  show ?case
  proof (cases "position > end1")
    case True
    then show ?thesis using "2.prems"(1) by (auto simp: result_simps word_less_nat_alt)
  next
    case False
    then have le: "unat position \<le> unat end1" by (simp add: word_less_nat_alt)
    from False "2.prems"(1) obtain block w1 where block: "fetch position w = (Ok block, w1)"
        "(case checked_add position 1 of None \<Rightarrow> ret [block]
          | Some following \<Rightarrow> bind_eff (fetch_range fetch n following end1) (\<lambda>rest. ret (block # rest))) w1 = (Ok delivered, w')"
      by (auto simp: result_simps)
    have here: "pos block = position" using "2.prems"(2) [OF block(1)] .
    show ?thesis
    proof (cases "checked_add position 1")
      case None
      then have "delivered = [block]" using block(2) by (simp add: result_simps)
      moreover have "unat end1 + 1 - unat position = 1" using None le unat_less [of end1] by (simp add: checked_add_None_iff)
      ultimately show ?thesis using here by simp
    next
      case (Some following)
      then obtain rest where rest: "fetch_range fetch n following end1 w1 = (Ok rest, w')" "delivered = block # rest"
        using block(2) by (auto simp: result_simps)
      have following: "unat following = unat position + 1" using Some by (simp add: checked_add_SomeD)
      from "2.IH" [OF False Some rest(1) "2.prems"(2)] show ?thesis
        using rest(2) following here le by (auto simp: nth_Cons split: nat.splits)
    qed
  qed
qed (simp add: result_simps)

lemma index_error_fields [simp]:
  "ie_kind (index_error_new k m r) = k"
  "ie_message (index_error_new k m r) = m"
  "ie_retryable (index_error_new k m r) = r"
  by (simp_all add: index_error_new_def)

lemma hex_digit_inject: "a < 16 \<Longrightarrow> b < 16 \<Longrightarrow> hex_digit a = hex_digit b \<longleftrightarrow> a = b"
proof -
  assume "a < 16" "b < 16"
  have "hex_digit a = hex_digit b \<longleftrightarrow>
      (of_char (hex_digit a) :: nat) = of_char (hex_digit b)"
    by simp
  also have "\<dots> \<longleftrightarrow> a = b"
    using \<open>a < 16\<close> \<open>b < 16\<close> by (auto simp: hex_digit_def)
  finally show ?thesis .
qed

lemma hex_byte_inject [simp]: "hex_byte a = hex_byte b \<longleftrightarrow> a = b"
proof
  assume "hex_byte a = hex_byte b"
  moreover have "unat a < 256" "unat b < 256" using unat_less [of a] unat_less [of b] by simp_all
  ultimately have "unat a div 16 = unat b div 16" "unat a mod 16 = unat b mod 16"
    by (simp_all add: hex_byte_def hex_digit_inject less_mult_imp_div_less)
  then have "unat a = unat b" by (metis div_mult_mod_eq)
  then show "a = b" by (simp add: word_unat_eq_iff)
qed simp

lemma length_hex_byte [simp]: "length (hex_byte b) = 2"
  by (simp add: hex_byte_def)

section \<open>Properties\<close>

text \<open>
  The textual form of an address identifies it: two addresses print alike only if their bytes
  are equal, so the lower-case hexadecimal form can be used as a key.
\<close>

theorem address_display_inject: "address_display a = address_display b \<longleftrightarrow> a = b"
proof
  assume eq: "address_display a = address_display b"
  have "concat (map hex_byte xs) = concat (map hex_byte ys) \<Longrightarrow> xs = ys" for xs ys
  proof (induction xs arbitrary: ys)
    case Nil
    then show ?case by (cases ys) (auto simp: hex_byte_def)
  next
    case (Cons x xs)
    then show ?case by (cases ys) (auto simp: hex_byte_def append_eq_append_conv simp flip: hex_byte_inject)
  qed
  with eq show "a = b" by (simp add: address_display_def address.expand)
qed simp

end
