(* ===== verification/Observation.thy ===== *)
theory Observation
  imports Chain_Values
begin

text \<open>
  What one interpreted block contributes to the index and its validation before storage sees it:
  value movements and canonical transactions (\<open>sdk/indexing/src/observation.rs\<close>), output changes
  (\<open>output.rs\<close>) and the validated block transition \<open>BlockAddition\<close> (\<open>block.rs\<close>).

  Duplicate detection runs over a set of the identifiers met so far, as in the source; the lemmas
  show that each validation accepts exactly what its declarative condition describes.
\<close>

section \<open>Movements and transactions\<close>

datatype movement_id = MovementId (movement_text: string)

datatype movement_kind = KindTransfer | KindInput | KindOutput | KindMint | KindBurn

datatype value_movement =
  Transfer movement_id asset_id decimal canonical_address canonical_address
| Input movement_id asset_id decimal "canonical_address option"
| Output movement_id asset_id decimal "canonical_address option"
| Mint movement_id asset_id decimal canonical_address
| Burn movement_id asset_id decimal canonical_address

fun mv_id :: "value_movement \<Rightarrow> movement_id" where
  "mv_id (Transfer i _ _ _ _) = i"
| "mv_id (Input i _ _ _) = i"
| "mv_id (Output i _ _ _) = i"
| "mv_id (Mint i _ _ _) = i"
| "mv_id (Burn i _ _ _) = i"

fun mv_asset :: "value_movement \<Rightarrow> asset_id" where
  "mv_asset (Transfer _ a _ _ _) = a"
| "mv_asset (Input _ a _ _) = a"
| "mv_asset (Output _ a _ _) = a"
| "mv_asset (Mint _ a _ _) = a"
| "mv_asset (Burn _ a _ _) = a"

fun mv_amount :: "value_movement \<Rightarrow> decimal" where
  "mv_amount (Transfer _ _ d _ _) = d"
| "mv_amount (Input _ _ d _) = d"
| "mv_amount (Output _ _ d _) = d"
| "mv_amount (Mint _ _ d _) = d"
| "mv_amount (Burn _ _ d _) = d"

fun mv_kind :: "value_movement \<Rightarrow> movement_kind" where
  "mv_kind (Transfer _ _ _ _ _) = KindTransfer"
| "mv_kind (Input _ _ _ _) = KindInput"
| "mv_kind (Output _ _ _ _) = KindOutput"
| "mv_kind (Mint _ _ _ _) = KindMint"
| "mv_kind (Burn _ _ _ _) = KindBurn"

fun mv_from :: "value_movement \<Rightarrow> canonical_address option" where
  "mv_from (Transfer _ _ _ from to) = Some from"
| "mv_from (Burn _ _ _ from) = Some from"
| "mv_from (Input _ _ _ owner) = owner"
| "mv_from (Output _ _ _ owner) = None"
| "mv_from (Mint _ _ _ to) = None"

fun mv_to :: "value_movement \<Rightarrow> canonical_address option" where
  "mv_to (Transfer _ _ _ from to) = Some to"
| "mv_to (Mint _ _ _ to) = Some to"
| "mv_to (Output _ _ _ owner) = owner"
| "mv_to (Input _ _ _ owner) = None"
| "mv_to (Burn _ _ _ from) = None"

record network_fee =
  nf_asset :: asset_id
  nf_amount :: decimal
  nf_payer :: "canonical_address option"

datatype canonical_status =
  CanonicalIncluded block_ref
| CanonicalFailed block_ref "string option"

record canonical_transaction =
  ct_scope :: index_scope
  ct_id :: transaction_ref
  ct_status :: canonical_status
  ct_movements :: "value_movement list"
  ct_fee :: "network_fee option"

fun status_block :: "canonical_status \<Rightarrow> block_ref" where
  "status_block (CanonicalIncluded b) = b"
| "status_block (CanonicalFailed b _) = b"

definition ct_block :: "canonical_transaction \<Rightarrow> block_ref" where
  "ct_block t = status_block (ct_status t)"

definition opt_list :: "'a option \<Rightarrow> 'a list" where
  "opt_list x = (case x of None \<Rightarrow> [] | Some v \<Rightarrow> [v])"

lemma set_opt_list [simp]: "set (opt_list x) = set_option x"
  by (cases x) (simp_all add: opt_list_def)

text \<open>The addresses of a transaction: both ends of every movement and the fee payer.\<close>

definition ct_addresses :: "canonical_transaction \<Rightarrow> canonical_address list" where
  "ct_addresses t =
     btree_set
       (concat (map (\<lambda>m. opt_list (mv_from m) @ opt_list (mv_to m)) (ct_movements t)) @
        opt_list (Option.bind (ct_fee t) nf_payer))"

datatype draft_status = DraftIncluded | DraftFailed "string option"

record observation_draft =
  od_scope :: index_scope
  od_id :: transaction_ref
  od_status :: draft_status
  od_movements :: "value_movement list"
  od_fee :: "network_fee option"

definition transaction_scope_error :: index_error where
  "transaction_scope_error =
     index_error_new ScopeMismatch ''transaction belongs to another scope'' False"

definition failed_movements_error :: index_error where
  "failed_movements_error =
     index_error_new InvalidBlock ''failed transaction contains movements'' False"

definition invalid_movement_error :: index_error where
  "invalid_movement_error =
     index_error_new InvalidBlock ''transaction contains an invalid movement'' False"

definition invalid_fee_error :: index_error where
  "invalid_fee_error =
     index_error_new InvalidBlock ''transaction contains an invalid network fee'' False"

fun is_Err :: "('e, 'a) result \<Rightarrow> bool" where
  "is_Err (Err _) = True"
| "is_Err (Ok _) = False"

definition foreign_address :: "index_scope \<Rightarrow> canonical_address option \<Rightarrow> bool" where
  "foreign_address scope a \<longleftrightarrow>
     (case a of None \<Rightarrow> False | Some v \<Rightarrow> \<not> address_belongs_to v scope)"

text \<open>The loop over the movements, with the identifiers met so far.\<close>

fun check_movements ::
  "index_scope \<Rightarrow> movement_id set \<Rightarrow> value_movement list \<Rightarrow> (index_error, unit) result" where
  "check_movements scope ids [] = Ok ()"
| "check_movements scope ids (m # ms) =
     (if movement_text (mv_id m) = [] \<or> mv_id m \<in> ids \<or>
         ai_chain (mv_asset m) \<noteq> sc_chain scope \<or> is_Err (validate_amount (mv_amount m)) \<or>
         foreign_address scope (mv_from m) \<or> foreign_address scope (mv_to m)
      then Err invalid_movement_error
      else check_movements scope (insert (mv_id m) ids) ms)"

definition invalid_fee :: "index_scope \<Rightarrow> network_fee option \<Rightarrow> bool" where
  "invalid_fee scope fee \<longleftrightarrow>
     (case fee of
        None \<Rightarrow> False
      | Some f \<Rightarrow> ai_chain (nf_asset f) \<noteq> sc_chain scope \<or> is_Err (validate_amount (nf_amount f)) \<or>
          foreign_address scope (nf_payer f))"

fun canonical_status_of :: "block_ref \<Rightarrow> draft_status \<Rightarrow> canonical_status" where
  "canonical_status_of block DraftIncluded = CanonicalIncluded block"
| "canonical_status_of block (DraftFailed reason) = CanonicalFailed block reason"

definition draft_canonical ::
  "observation_draft \<Rightarrow> index_scope \<Rightarrow> block_ref \<Rightarrow> (index_error, canonical_transaction) result" where
  "draft_canonical d scope block =
     and_then (fail_if (od_scope d \<noteq> scope \<or> \<not> transaction_belongs_to (od_id d) scope)
                 transaction_scope_error) (\<lambda>_.
     and_then (fail_if (od_status d \<noteq> DraftIncluded \<and> od_movements d \<noteq> [])
                 failed_movements_error) (\<lambda>_.
     and_then (check_movements scope {} (od_movements d)) (\<lambda>_.
     and_then (fail_if (invalid_fee scope (od_fee d)) invalid_fee_error) (\<lambda>_.
     Ok \<lparr>ct_scope = od_scope d, ct_id = od_id d, ct_status = canonical_status_of block (od_status d),
         ct_movements = od_movements d, ct_fee = od_fee d\<rparr>))))"

section \<open>Outputs\<close>

datatype output_id = OutputId (oi_transaction: transaction_ref) (oi_index: u32)
datatype output_key = OutputKey (ok_address: canonical_address) (ok_output: output_id)

record indexed_output =
  io_id :: output_id
  io_address :: canonical_address
  io_asset :: asset_id
  io_amount :: decimal
  io_evidence :: "u8 list"
  io_created_at :: block_height
  io_coinbase :: bool

definition io_key :: "indexed_output \<Rightarrow> output_key" where
  "io_key o1 = OutputKey (io_address o1) (io_id o1)"

record output_changes =
  oc_created :: "indexed_output list"
  oc_spent :: "output_key list"
  oc_tracked_spends :: "output_key list"

definition invalid_output_error :: index_error where
  "invalid_output_error = index_error_new InvalidBlock ''block contains an invalid output'' False"

definition overlapping_changes_error :: index_error where
  "overlapping_changes_error =
     index_error_new InvalidBlock ''block contains overlapping or duplicate output changes'' False"

text \<open>The loop over the created outputs returns the set of their keys.\<close>

fun check_created ::
  "index_scope \<Rightarrow> block_height \<Rightarrow> output_id set \<Rightarrow> output_key set \<Rightarrow> indexed_output list \<Rightarrow>
     (index_error, output_key set) result" where
  "check_created scope height ids created [] = Ok created"
| "check_created scope height ids created (o1 # os) =
     (if \<not> address_belongs_to (io_address o1) scope \<or>
         \<not> transaction_belongs_to (oi_transaction (io_id o1)) scope \<or>
         ai_chain (io_asset o1) \<noteq> sc_chain scope \<or> is_Err (validate_amount (io_amount o1)) \<or>
         io_created_at o1 \<noteq> height \<or> io_id o1 \<in> ids \<or> io_key o1 \<in> created
      then Err invalid_output_error
      else check_created scope height (insert (io_id o1) ids) (insert (io_key o1) created) os)"

fun check_spent ::
  "index_scope \<Rightarrow> output_key set \<Rightarrow> output_key set \<Rightarrow> output_key list \<Rightarrow> (index_error, unit) result"
where
  "check_spent scope created spent [] = Ok ()"
| "check_spent scope created spent (k # ks) =
     (if \<not> address_belongs_to (ok_address k) scope \<or>
         \<not> transaction_belongs_to (oi_transaction (ok_output k)) scope \<or> k \<in> created \<or> k \<in> spent
      then Err overlapping_changes_error
      else check_spent scope created (insert k spent) ks)"

definition changes_validate ::
  "output_changes \<Rightarrow> index_scope \<Rightarrow> block_height \<Rightarrow> (index_error, unit) result" where
  "changes_validate c scope height =
     and_then (check_created scope height {} {} (oc_created c)) (\<lambda>created.
     check_spent scope created {} (oc_spent c @ oc_tracked_spends c))"

section \<open>Queries\<close>

datatype transaction_status =
  StatusIncluded block_ref u64
| StatusConfirmed block_ref u64
| StatusFailed block_ref "string option"

record observed_transaction =
  ot_scope :: index_scope
  ot_id :: transaction_ref
  ot_status :: transaction_status
  ot_movements :: "value_movement list"
  ot_fee :: "network_fee option"

record history_position =
  hp_height :: block_height
  hp_transaction :: transaction_ref

record history_cursor =
  hc_checkpoint :: "block_ref option"
  hc_position :: history_position

record history_query =
  hq_scope :: index_scope
  hq_address :: canonical_address
  hq_after :: "history_cursor option"
  hq_limit :: nat

record canonical_page =
  cp_checkpoint :: "block_ref option"
  cp_transactions :: "canonical_transaction list"
  cp_next :: "history_cursor option"

record transaction_page =
  tp_checkpoint :: "block_ref option"
  tp_transactions :: "observed_transaction list"
  tp_next :: "history_cursor option"

record output_cursor =
  ocu_checkpoint :: "block_ref option"
  ocu_position :: "u8 list"

record output_request =
  or_scope :: index_scope
  or_address :: canonical_address
  or_after :: "output_cursor option"
  or_limit :: nat

record output_page =
  op_checkpoint :: "block_ref option"
  op_outputs :: "indexed_output list"
  op_next :: "output_cursor option"

section \<open>Block additions\<close>

record interpreted_block =
  ib_block :: block_ref
  ib_transactions :: "observation_draft list"
  ib_outputs :: output_changes

record block_addition =
  ba_scope :: index_scope
  ba_expected_checkpoint :: "block_ref option"
  ba_retention :: u64
  ba_block :: block_ref
  ba_transactions :: "canonical_transaction list"
  ba_outputs :: output_changes

definition zero_retention_error :: index_error where
  "zero_retention_error =
     index_error_new InvalidRequest ''rollback retention must be greater than zero'' False"

definition exhausted_height_error :: index_error where
  "exhausted_height_error = index_error_new InvalidBlock ''checkpoint height is exhausted'' False"

definition disconnected_error :: index_error where
  "disconnected_error =
     index_error_new CannotConnect ''block does not connect to the checkpoint'' True"

definition duplicate_transaction_error :: index_error where
  "duplicate_transaction_error =
     index_error_new InvalidBlock ''block contains a duplicate transaction'' False"

definition checkpoint_parent :: "block_ref \<Rightarrow> block_parent" where
  "checkpoint_parent c = \<lparr>bp_position = br_position c, bp_hash = br_hash c\<rparr>"

definition check_connection ::
  "block_ref option \<Rightarrow> block_ref \<Rightarrow> (index_error, unit) result" where
  "check_connection expected block =
     (case expected of
        None \<Rightarrow> Ok ()
      | Some checkpoint \<Rightarrow>
          and_then (ok_or (checked_add (br_height checkpoint) 1) exhausted_height_error) (\<lambda>next.
          fail_if (br_height block \<noteq> next \<or> br_position block \<le> br_position checkpoint \<or>
                   br_parent block \<noteq> Some (checkpoint_parent checkpoint)) disconnected_error))"

text \<open>The loop over the drafts, with the transaction identifiers met so far.\<close>

fun canonical_transactions ::
  "index_scope \<Rightarrow> block_ref \<Rightarrow> transaction_ref set \<Rightarrow> observation_draft list \<Rightarrow>
     (index_error, canonical_transaction list) result" where
  "canonical_transactions scope block ids [] = Ok []"
| "canonical_transactions scope block ids (d # ds) =
     (if od_id d \<in> ids then Err duplicate_transaction_error
      else and_then (draft_canonical d scope block) (\<lambda>t.
           and_then (canonical_transactions scope block (insert (od_id d) ids) ds) (\<lambda>ts.
           Ok (t # ts))))"

definition block_addition_new ::
  "index_scope \<Rightarrow> block_ref option \<Rightarrow> u64 \<Rightarrow> interpreted_block \<Rightarrow>
     (index_error, block_addition) result" where
  "block_addition_new scope expected retention interpreted =
     and_then (fail_if (retention = 0) zero_retention_error) (\<lambda>_.
     and_then (check_connection expected (ib_block interpreted)) (\<lambda>_.
     and_then (changes_validate (ib_outputs interpreted) scope (br_height (ib_block interpreted))) (\<lambda>_.
     and_then (canonical_transactions scope (ib_block interpreted) {} (ib_transactions interpreted))
       (\<lambda>transactions.
     Ok \<lparr>ba_scope = scope, ba_expected_checkpoint = expected, ba_retention = retention,
         ba_block = ib_block interpreted, ba_transactions = transactions,
         ba_outputs = ib_outputs interpreted\<rparr>))))"

datatype block_selector = Tip index_scope | AtHeight index_scope block_height

datatype block_outcome = Applied | AlreadyApplied

section \<open>What the validation accepts\<close>

definition address_in :: "index_scope \<Rightarrow> canonical_address option \<Rightarrow> bool" where
  "address_in scope a \<longleftrightarrow> (\<forall>v \<in> set_option a. ca_scope v = scope)"

definition movement_ok :: "index_scope \<Rightarrow> value_movement \<Rightarrow> bool" where
  "movement_ok scope m \<longleftrightarrow>
     movement_text (mv_id m) \<noteq> [] \<and> ai_chain (mv_asset m) = sc_chain scope \<and>
     0 \<le> coefficient (mv_amount m) \<and> address_in scope (mv_from m) \<and> address_in scope (mv_to m)"

definition fee_ok :: "index_scope \<Rightarrow> network_fee \<Rightarrow> bool" where
  "fee_ok scope f \<longleftrightarrow>
     ai_chain (nf_asset f) = sc_chain scope \<and> 0 \<le> coefficient (nf_amount f) \<and>
     address_in scope (nf_payer f)"

definition movements_ok :: "index_scope \<Rightarrow> value_movement list \<Rightarrow> bool" where
  "movements_ok scope ms \<longleftrightarrow> list_all (movement_ok scope) ms \<and> distinct (map mv_id ms)"

definition draft_ok :: "index_scope \<Rightarrow> observation_draft \<Rightarrow> bool" where
  "draft_ok scope d \<longleftrightarrow>
     od_scope d = scope \<and> tr_scope (od_id d) = scope \<and>
     (od_status d = DraftIncluded \<or> od_movements d = []) \<and> movements_ok scope (od_movements d) \<and>
     (\<forall>f \<in> set_option (od_fee d). fee_ok scope f)"

definition draft_transaction :: "block_ref \<Rightarrow> observation_draft \<Rightarrow> canonical_transaction" where
  "draft_transaction block d =
     \<lparr>ct_scope = od_scope d, ct_id = od_id d, ct_status = canonical_status_of block (od_status d),
      ct_movements = od_movements d, ct_fee = od_fee d\<rparr>"

definition output_ok :: "index_scope \<Rightarrow> block_height \<Rightarrow> indexed_output \<Rightarrow> bool" where
  "output_ok scope height o1 \<longleftrightarrow>
     ca_scope (io_address o1) = scope \<and> tr_scope (oi_transaction (io_id o1)) = scope \<and>
     ai_chain (io_asset o1) = sc_chain scope \<and> 0 \<le> coefficient (io_amount o1) \<and>
     io_created_at o1 = height"

definition spend_ok :: "index_scope \<Rightarrow> output_key \<Rightarrow> bool" where
  "spend_ok scope k \<longleftrightarrow>
     ca_scope (ok_address k) = scope \<and> tr_scope (oi_transaction (ok_output k)) = scope"

text \<open>
  The output changes of a block: outputs created at its height with distinct identities, spends of
  distinct outputs that are not created in the same block.
\<close>

definition changes_ok :: "index_scope \<Rightarrow> block_height \<Rightarrow> output_changes \<Rightarrow> bool" where
  "changes_ok scope height c \<longleftrightarrow>
     list_all (output_ok scope height) (oc_created c) \<and> distinct (map io_id (oc_created c)) \<and>
     list_all (spend_ok scope) (oc_spent c @ oc_tracked_spends c) \<and>
     distinct (oc_spent c @ oc_tracked_spends c) \<and>
     set (map io_key (oc_created c)) \<inter> set (oc_spent c @ oc_tracked_spends c) = {}"

text \<open>A block is the child of a checkpoint: next height, later position, and named as its parent.\<close>

definition connects :: "block_ref option \<Rightarrow> block_ref \<Rightarrow> bool" where
  "connects expected block \<longleftrightarrow>
     (\<forall>c \<in> set_option expected.
        unat (br_height block) = unat (br_height c) + 1 \<and> br_position c < br_position block \<and>
        br_parent block = Some (checkpoint_parent c))"

definition transaction_ok :: "index_scope \<Rightarrow> block_ref \<Rightarrow> canonical_transaction \<Rightarrow> bool" where
  "transaction_ok scope block t \<longleftrightarrow>
     ct_scope t = scope \<and> tr_scope (ct_id t) = scope \<and> ct_block t = block \<and>
     movements_ok scope (ct_movements t) \<and> (\<forall>f \<in> set_option (ct_fee t). fee_ok scope f) \<and>
     (ct_status t = CanonicalIncluded block \<or> ct_movements t = [])"

definition addition_ok :: "block_addition \<Rightarrow> bool" where
  "addition_ok a \<longleftrightarrow>
     ba_retention a \<noteq> 0 \<and> connects (ba_expected_checkpoint a) (ba_block a) \<and>
     changes_ok (ba_scope a) (br_height (ba_block a)) (ba_outputs a) \<and>
     list_all (transaction_ok (ba_scope a) (ba_block a)) (ba_transactions a) \<and>
     distinct (map ct_id (ba_transactions a))"

lemma foreign_address_iff: "foreign_address scope a \<longleftrightarrow> \<not> address_in scope a"
  by (cases a) (auto simp: foreign_address_def address_in_def address_belongs_to_def)

lemma is_Err_validate_amount [simp]: "is_Err (validate_amount d) \<longleftrightarrow> coefficient d < 0"
  by (simp add: validate_amount_def fail_if_def)

lemma check_movements_Ok_iff:
  "check_movements scope ids ms = Ok u \<longleftrightarrow>
     movements_ok scope ms \<and> set (map mv_id ms) \<inter> ids = {}"
  by (induction ms arbitrary: ids)
     (auto simp: movements_ok_def movement_ok_def foreign_address_iff not_less)

lemma invalid_fee_iff: "invalid_fee scope fee \<longleftrightarrow> \<not> (\<forall>f \<in> set_option fee. fee_ok scope f)"
  by (cases fee) (auto simp: invalid_fee_def fee_ok_def foreign_address_iff not_less)

lemma draft_canonical_Ok_iff:
  "draft_canonical d scope block = Ok t \<longleftrightarrow> draft_ok scope d \<and> t = draft_transaction block d"
  by (auto simp: draft_canonical_def draft_ok_def draft_transaction_def result_simps
      check_movements_Ok_iff invalid_fee_iff transaction_belongs_to_def)

lemma check_created_Ok_iff:
  "check_created scope height ids created os = Ok keys \<longleftrightarrow>
     list_all (output_ok scope height) os \<and> distinct (map io_id os) \<and>
     set (map io_id os) \<inter> ids = {} \<and> set (map io_key os) \<inter> created = {} \<and>
     keys = created \<union> set (map io_key os)"
  by (induction os arbitrary: ids created)
     (auto simp: output_ok_def address_belongs_to_def transaction_belongs_to_def io_key_def not_less)

lemma check_spent_Ok_iff:
  "check_spent scope created spent ks = Ok u \<longleftrightarrow>
     list_all (spend_ok scope) ks \<and> distinct ks \<and> set ks \<inter> spent = {} \<and> set ks \<inter> created = {}"
  by (induction ks arbitrary: spent)
     (auto simp: spend_ok_def address_belongs_to_def transaction_belongs_to_def)

lemma changes_validate_Ok_iff: "changes_validate c scope height = Ok u \<longleftrightarrow> changes_ok scope height c"
  unfolding changes_validate_def changes_ok_def
  by (auto simp: result_simps check_created_Ok_iff check_spent_Ok_iff)

lemma check_connection_Ok_iff: "check_connection expected block = Ok u \<longleftrightarrow> connects expected block"
proof (cases expected)
  case (Some c)
  have "checked_add (br_height c) 1 = Some (br_height block) \<longleftrightarrow>
      unat (br_height block) = unat (br_height c) + 1"
    by (simp add: width_simps)
  with Some show ?thesis
    by (auto simp: check_connection_def connects_def result_simps not_le)
qed (simp add: check_connection_def connects_def)

lemma canonical_transactions_Ok_iff:
  "canonical_transactions scope block ids ds = Ok ts \<longleftrightarrow>
     list_all (draft_ok scope) ds \<and> distinct (map od_id ds) \<and> set (map od_id ds) \<inter> ids = {} \<and>
     ts = map (draft_transaction block) ds"
  by (induction ds arbitrary: ids ts) (auto simp: result_simps draft_canonical_Ok_iff)

lemma ct_id_draft_transaction [simp]: "ct_id (draft_transaction block d) = od_id d"
  by (simp add: draft_transaction_def)

lemma transaction_ok_draft: "draft_ok scope d \<Longrightarrow> transaction_ok scope block (draft_transaction block d)"
  by (cases "od_status d")
     (auto simp: draft_ok_def transaction_ok_def draft_transaction_def ct_block_def)

lemma block_addition_new_Ok_iff:
  "block_addition_new scope expected retention ib = Ok a \<longleftrightarrow>
     retention \<noteq> 0 \<and> connects expected (ib_block ib) \<and>
     changes_ok scope (br_height (ib_block ib)) (ib_outputs ib) \<and>
     list_all (draft_ok scope) (ib_transactions ib) \<and> distinct (map od_id (ib_transactions ib)) \<and>
     a = \<lparr>ba_scope = scope, ba_expected_checkpoint = expected, ba_retention = retention,
          ba_block = ib_block ib, ba_transactions = map (draft_transaction (ib_block ib)) (ib_transactions ib),
          ba_outputs = ib_outputs ib\<rparr>"
  by (auto simp: block_addition_new_def result_simps check_connection_Ok_iff changes_validate_Ok_iff
      canonical_transactions_Ok_iff)

lemma block_addition_new_ok: "block_addition_new scope expected retention ib = Ok a \<Longrightarrow> addition_ok a"
  by (auto simp: block_addition_new_Ok_iff addition_ok_def list_all_iff transaction_ok_draft comp_def)

lemma ct_addresses_set:
  "set (ct_addresses t) =
     (\<Union>m \<in> set (ct_movements t). set_option (mv_from m) \<union> set_option (mv_to m)) \<union>
     (case ct_fee t of None \<Rightarrow> {} | Some f \<Rightarrow> set_option (nf_payer f))"
  by (auto simp: ct_addresses_def split: option.splits)

lemma transaction_ok_addresses:
  "transaction_ok scope block t \<Longrightarrow> a \<in> set (ct_addresses t) \<Longrightarrow> ca_scope a = scope"
  by (fastforce simp: transaction_ok_def ct_addresses_set movements_ok_def movement_ok_def fee_ok_def
      address_in_def list_all_iff split: option.splits)

section \<open>Properties\<close>

text \<open>
  A block transition is accepted exactly when it is well formed: a positive retention, a block
  that is the child of the expected checkpoint, output changes in scope with distinct created
  identities and spends disjoint from the creations and from each other, and drafts in scope with
  distinct identifiers, non-negative amounts and, when they failed, no movements. The accepted
  transition carries the drafts unchanged, bound to the block.
\<close>

theorem block_addition_accepts:
  "block_addition_new scope expected retention ib = Ok a \<longleftrightarrow>
     retention \<noteq> 0 \<and> connects expected (ib_block ib) \<and>
     changes_ok scope (br_height (ib_block ib)) (ib_outputs ib) \<and>
     list_all (draft_ok scope) (ib_transactions ib) \<and> distinct (map od_id (ib_transactions ib)) \<and>
     a = \<lparr>ba_scope = scope, ba_expected_checkpoint = expected, ba_retention = retention,
          ba_block = ib_block ib, ba_transactions = map (draft_transaction (ib_block ib)) (ib_transactions ib),
          ba_outputs = ib_outputs ib\<rparr>"
  by (rule block_addition_new_Ok_iff)

end
