(* ===== verification/Index_Keys.thy ===== *)
theory Index_Keys
  imports Observation Tables
begin

text \<open>
  The keys of the redb index (\<open>sdk/indexing/redb/src/keys.rs\<close>): a format byte, a collection tag,
  the length-framed scope and the components of the collection. The framing makes the keys of
  different scopes, collections, addresses and transactions disjoint, and the fixed-width
  big-endian numbers keep heights and output indices in numeric order.

  A length is cast to \<open>u64\<close>; \<open>sized\<close> says that it fits, as every Rust string's does.
\<close>

section \<open>Encoders\<close>

definition NAMESPACE :: namespace where
  "NAMESPACE = ''index''"

definition FORMAT :: u8 where "FORMAT = 1"
definition CHECKPOINT :: u8 where "CHECKPOINT = 1"
definition JOURNAL :: u8 where "JOURNAL = 2"
definition HISTORY :: u8 where "HISTORY = 3"
definition OUTPUT :: u8 where "OUTPUT = 4"

definition component :: "string \<Rightarrow> bytes" where
  "component v = u64_be (of_nat (length (str_bytes v))) @ str_bytes v"

definition key_prefix :: "index_scope \<Rightarrow> u8 \<Rightarrow> bytes" where
  "key_prefix scope tag =
     [FORMAT, tag] @ component (chain_name (sc_chain scope)) @ component (sc_network scope)"

definition checkpoint_key :: "index_scope \<Rightarrow> key" where
  "checkpoint_key scope = key_prefix scope CHECKPOINT"

definition journal_key :: "index_scope \<Rightarrow> block_height \<Rightarrow> key" where
  "journal_key scope height = key_prefix scope JOURNAL @ u64_be height"

definition history_prefix :: "index_scope \<Rightarrow> canonical_address \<Rightarrow> bytes" where
  "history_prefix scope address = key_prefix scope HISTORY @ component (ca_value address)"

definition is_history :: "index_scope \<Rightarrow> bytes \<Rightarrow> bool" where
  "is_history scope k \<longleftrightarrow> prefix (key_prefix scope HISTORY) k"

definition history_key ::
  "index_scope \<Rightarrow> canonical_address \<Rightarrow> block_height \<Rightarrow> transaction_ref \<Rightarrow> key" where
  "history_key scope address height transaction =
     history_prefix scope address @ u64_be height @ component (tr_value transaction)"

definition output_prefix :: "index_scope \<Rightarrow> canonical_address \<Rightarrow> bytes" where
  "output_prefix scope address = key_prefix scope OUTPUT @ component (ca_value address)"

definition is_output :: "index_scope \<Rightarrow> bytes \<Rightarrow> bool" where
  "is_output scope k \<longleftrightarrow> prefix (key_prefix scope OUTPUT) k"

definition output_key_of :: "index_scope \<Rightarrow> output_key \<Rightarrow> key" where
  "output_key_of scope output =
     output_prefix scope (ok_address output) @
     component (tr_value (oi_transaction (ok_output output))) @ u32_be (oi_index (ok_output output))"

section \<open>Framing\<close>

definition sized :: "string \<Rightarrow> bool" where
  "sized s \<longleftrightarrow> fits_u64 (length s)"

definition scope_sized :: "index_scope \<Rightarrow> bool" where
  "scope_sized scope \<longleftrightarrow> sized (chain_name (sc_chain scope)) \<and> sized (sc_network scope)"

lemma length_frame:
  assumes "sized v"
  shows "unat (of_nat (length v) :: u64) = length v"
proof -
  have "length v < 2 ^ 64"
    using assms unfolding sized_def fits_u64_def by (metis of_nat_less_iff of_nat_numeral of_nat_power)
  then show ?thesis by (simp add: unat_of_nat)
qed

lemma frame_inject:
  assumes "sized a" "sized b"
  shows "u64_be (of_nat (length a)) = u64_be (of_nat (length b)) \<longleftrightarrow> length a = length b"
  using length_frame [OF assms(1)] length_frame [OF assms(2)] by (metis u64_be_inject)

lemma component_append_inject:
  assumes "sized a" "sized b"
  shows "component a @ x = component b @ y \<longleftrightarrow> a = b \<and> x = y"
  using frame_inject [OF assms] by (auto simp: component_def append_eq_append_conv)

lemma component_prefix_append:
  assumes "sized a" "sized b"
  shows "prefix (component a @ x) (component b @ y) \<longleftrightarrow> a = b \<and> prefix x y"
proof
  assume "prefix (component a @ x) (component b @ y)"
  then obtain z where "component b @ y = component a @ x @ z" by (auto simp: prefix_def)
  then show "a = b \<and> prefix x y"
    using component_append_inject [OF assms(2,1)] by (auto simp: prefix_def)
qed simp

lemma component_prefix:
  assumes "sized a" "sized b"
  shows "prefix (component a) (component b @ y) \<longleftrightarrow> a = b"
  using component_prefix_append [OF assms, of "[]" y] by simp

lemma scope_eq_iff:
  "scope = scope' \<longleftrightarrow>
     chain_name (sc_chain scope) = chain_name (sc_chain scope') \<and> sc_network scope = sc_network scope'"
  by (cases scope; cases scope'; cases "sc_chain scope"; cases "sc_chain scope'") auto

lemma key_prefix_append_inject:
  assumes "scope_sized scope" "scope_sized scope'"
  shows "key_prefix scope tag @ x = key_prefix scope' tag' @ y \<longleftrightarrow> scope = scope' \<and> tag = tag' \<and> x = y"
  using assms by (auto simp: key_prefix_def scope_sized_def component_append_inject scope_eq_iff)

lemma key_prefix_prefix_append:
  assumes "scope_sized scope" "scope_sized scope'"
  shows "prefix (key_prefix scope tag @ x) (key_prefix scope' tag' @ y) \<longleftrightarrow>
    scope = scope' \<and> tag = tag' \<and> prefix x y"
  using assms
  by (auto simp: key_prefix_def scope_sized_def component_prefix_append scope_eq_iff)

lemma key_prefix_prefix:
  assumes "scope_sized scope" "scope_sized scope'"
  shows "prefix (key_prefix scope tag) (key_prefix scope' tag' @ y) \<longleftrightarrow> scope = scope' \<and> tag = tag'"
  using key_prefix_prefix_append [OF assms, of tag "[]" tag' y] by simp

lemma component_inject: "sized a \<Longrightarrow> sized b \<Longrightarrow> component a = component b \<longleftrightarrow> a = b"
  using component_append_inject [of a b "[]" "[]"] by simp

lemma key_prefix_bare:
  assumes "scope_sized scope" "scope_sized scope'"
  shows "key_prefix scope tag = key_prefix scope' tag' \<longleftrightarrow> scope = scope' \<and> tag = tag'"
    "key_prefix scope tag = key_prefix scope' tag' @ y \<longleftrightarrow> scope = scope' \<and> tag = tag' \<and> y = []"
    "key_prefix scope tag @ x = key_prefix scope' tag' \<longleftrightarrow> scope = scope' \<and> tag = tag' \<and> x = []"
    "prefix (key_prefix scope tag) (key_prefix scope' tag') \<longleftrightarrow> scope = scope' \<and> tag = tag'"
    "prefix (key_prefix scope tag @ x) (key_prefix scope' tag') \<longleftrightarrow> scope = scope' \<and> tag = tag' \<and> x = []"
  using key_prefix_append_inject [OF assms, of tag "[]" tag' "[]"]
    key_prefix_append_inject [OF assms, of tag "[]" tag' y]
    key_prefix_append_inject [OF assms, of tag x tag' "[]"]
    key_prefix_prefix [OF assms, of tag tag' "[]"]
    key_prefix_prefix_append [OF assms, of tag x tag' "[]"]
  by auto

section \<open>Order\<close>

lemma append_less_same_length:
  "length xs = length ys \<Longrightarrow> xs @ as < ys @ bs \<longleftrightarrow> xs < ys \<or> xs = ys \<and> as < bs"
  for xs ys as bs :: "'a::linorder list"
  by (induction xs ys rule: list_induct2) auto

lemma byte_digits_less:
  "a < 256 \<Longrightarrow> b < 256 \<Longrightarrow> 256 * p + a < 256 * q + b \<longleftrightarrow> p < q \<or> p = q \<and> a < b"
  for a b p q :: nat
  by arith

lemma be_bytes_eq_iff: "be_bytes n x = be_bytes n y \<longleftrightarrow> x mod 256 ^ n = y mod 256 ^ n"
proof
  assume "x mod 256 ^ n = y mod 256 ^ n"
  then have "be_value (be_bytes n x) = be_value (be_bytes n y)" by (simp add: be_value_be_bytes)
  then show "be_bytes n x = be_bytes n y"
    using be_bytes_be_value [of "be_bytes n x"] be_bytes_be_value [of "be_bytes n y"] by simp
next
  assume "be_bytes n x = be_bytes n y"
  then have "be_value (be_bytes n x) = be_value (be_bytes n y)" by simp
  then show "x mod 256 ^ n = y mod 256 ^ n" by (simp add: be_value_be_bytes)
qed

lemma be_bytes_less:
  "be_bytes n x < be_bytes n y \<longleftrightarrow> x mod 256 ^ n < y mod 256 ^ n"
proof (induction n arbitrary: x y)
  case (Suc n)
  have eq: "be_bytes n (x div 256) = be_bytes n (y div 256) \<longleftrightarrow>
      x div 256 mod 256 ^ n = y div 256 mod 256 ^ n"
    by (rule be_bytes_eq_iff)
  have mod: "z mod 256 ^ Suc n = 256 * (z div 256 mod 256 ^ n) + z mod 256" for z :: nat
    by (simp add: mod_mult2_eq)
  have byte: "(of_nat (x mod 256) :: u8) < of_nat (y mod 256) \<longleftrightarrow> x mod 256 < y mod 256"
    by (simp add: word_less_nat_alt unat_of_nat)
  have bounds: "x mod 256 < 256" "y mod 256 < 256" by simp_all
  have "be_bytes (Suc n) x < be_bytes (Suc n) y \<longleftrightarrow>
      x div 256 mod 256 ^ n < y div 256 mod 256 ^ n \<or>
      x div 256 mod 256 ^ n = y div 256 mod 256 ^ n \<and> x mod 256 < y mod 256"
    using byte by (simp add: append_less_same_length Suc.IH eq)
  also have "\<dots> \<longleftrightarrow> x mod 256 ^ Suc n < y mod 256 ^ Suc n"
    unfolding mod by (rule byte_digits_less [OF bounds, symmetric])
  finally show ?case .
qed simp

lemma u64_be_less [simp]: "u64_be a < u64_be b \<longleftrightarrow> a < b"
proof -
  have "unat a < 256 ^ 8" "unat b < 256 ^ 8" using unat_less [of a] unat_less [of b] by simp_all
  then show ?thesis by (simp add: u64_be_def be_bytes_less word_less_nat_alt)
qed

lemma u32_be_less [simp]: "u32_be a < u32_be b \<longleftrightarrow> a < b"
proof -
  have "unat a < 256 ^ 4" "unat b < 256 ^ 4" using unat_less [of a] unat_less [of b] by simp_all
  then show ?thesis by (simp add: u32_be_def be_bytes_less word_less_nat_alt)
qed

section \<open>Keys never collide\<close>

lemma tags_distinct [simp]:
  "CHECKPOINT \<noteq> JOURNAL" "CHECKPOINT \<noteq> HISTORY" "CHECKPOINT \<noteq> OUTPUT" "JOURNAL \<noteq> HISTORY"
  "JOURNAL \<noteq> OUTPUT" "HISTORY \<noteq> OUTPUT"
  "JOURNAL \<noteq> CHECKPOINT" "HISTORY \<noteq> CHECKPOINT" "OUTPUT \<noteq> CHECKPOINT" "HISTORY \<noteq> JOURNAL"
  "OUTPUT \<noteq> JOURNAL" "OUTPUT \<noteq> HISTORY"
  by (simp_all add: CHECKPOINT_def JOURNAL_def HISTORY_def OUTPUT_def)

text \<open>A logical key of the index: its scope and what it identifies there.\<close>

datatype index_key =
  CheckpointOf index_scope
| JournalAt index_scope block_height
| HistoryOf index_scope canonical_address block_height transaction_ref
| OutputOf index_scope output_key

fun physical :: "index_key \<Rightarrow> key" where
  "physical (CheckpointOf scope) = checkpoint_key scope"
| "physical (JournalAt scope height) = journal_key scope height"
| "physical (HistoryOf scope address height transaction) = history_key scope address height transaction"
| "physical (OutputOf scope output) = output_key_of scope output"

text \<open>The identifiers belong to the scope of the key and their strings have a length.\<close>

fun index_key_ok :: "index_key \<Rightarrow> bool" where
  "index_key_ok (CheckpointOf scope) \<longleftrightarrow> scope_sized scope"
| "index_key_ok (JournalAt scope height) \<longleftrightarrow> scope_sized scope"
| "index_key_ok (HistoryOf scope address height transaction) \<longleftrightarrow>
     scope_sized scope \<and> ca_scope address = scope \<and> tr_scope transaction = scope \<and>
     sized (ca_value address) \<and> sized (tr_value transaction)"
| "index_key_ok (OutputOf scope output) \<longleftrightarrow>
     scope_sized scope \<and> ca_scope (ok_address output) = scope \<and>
     tr_scope (oi_transaction (ok_output output)) = scope \<and> sized (ca_value (ok_address output)) \<and>
     sized (tr_value (oi_transaction (ok_output output)))"

lemma key_split:
  "checkpoint_key scope = key_prefix scope CHECKPOINT @ []"
  "journal_key scope h = key_prefix scope JOURNAL @ u64_be h"
  "history_key scope a h t =
     key_prefix scope HISTORY @ component (ca_value a) @ u64_be h @ component (tr_value t) @ []"
  "output_key_of scope k =
     key_prefix scope OUTPUT @ component (ca_value (ok_address k)) @
     component (tr_value (oi_transaction (ok_output k))) @ u32_be (oi_index (ok_output k))"
  by (simp_all add: checkpoint_key_def journal_key_def history_key_def history_prefix_def
      output_key_of_def output_prefix_def)

lemma address_eqI: "ca_scope a = ca_scope b \<Longrightarrow> ca_value a = ca_value b \<Longrightarrow> a = b"
  by (simp add: canonical_address.expand)

lemma transaction_eqI: "tr_scope a = tr_scope b \<Longrightarrow> tr_value a = tr_value b \<Longrightarrow> a = b"
  by (simp add: transaction_ref.expand)

lemma output_key_eqI:
  "ok_address a = ok_address b \<Longrightarrow> oi_transaction (ok_output a) = oi_transaction (ok_output b) \<Longrightarrow>
   oi_index (ok_output a) = oi_index (ok_output b) \<Longrightarrow> a = b"
  by (simp add: output_id.expand output_key.expand)

lemma history_key_inject:
  assumes "index_key_ok (HistoryOf scope a h t)" "index_key_ok (HistoryOf scope' a' h' t')"
  shows "history_key scope a h t = history_key scope' a' h' t' \<longleftrightarrow>
    scope = scope' \<and> a = a' \<and> h = h' \<and> t = t'"
  using assms component_append_inject [of "tr_value t" "tr_value t'" "[]" "[]"]
  unfolding key_split
  by (auto simp: key_prefix_append_inject component_append_inject append_eq_append_conv
      intro: address_eqI transaction_eqI)

lemma output_key_inject:
  assumes "index_key_ok (OutputOf scope k)" "index_key_ok (OutputOf scope' k')"
  shows "output_key_of scope k = output_key_of scope' k' \<longleftrightarrow> scope = scope' \<and> k = k'"
  using assms unfolding key_split
  by (auto simp: key_prefix_append_inject component_append_inject component_inject
      intro!: output_key_eqI address_eqI transaction_eqI)

lemma physical_inject:
  assumes "index_key_ok x" "index_key_ok y"
  shows "physical x = physical y \<longleftrightarrow> x = y"
  using assms
  by (cases x; cases y)
     (simp_all add: history_key_inject output_key_inject,
      auto simp: key_split key_prefix_append_inject key_prefix_bare)

lemma is_history_iff:
  assumes "index_key_ok x" "scope_sized scope"
  shows "is_history scope (physical x) \<longleftrightarrow> (\<exists>a h t. x = HistoryOf scope a h t)"
  using assms by (cases x) (auto simp: is_history_def key_split key_prefix_prefix key_prefix_bare)

lemma is_output_iff:
  assumes "index_key_ok x" "scope_sized scope"
  shows "is_output scope (physical x) \<longleftrightarrow> (\<exists>k. x = OutputOf scope k)"
  using assms by (cases x) (auto simp: is_output_def key_split key_prefix_prefix key_prefix_bare)

lemma history_prefix_iff:
  assumes "index_key_ok x" "scope_sized scope" "ca_scope address = scope" "sized (ca_value address)"
  shows "prefix (history_prefix scope address) (physical x) \<longleftrightarrow> (\<exists>h t. x = HistoryOf scope address h t)"
  using assms unfolding history_prefix_def
  by (cases x)
     (auto simp: key_split key_prefix_prefix_append component_prefix key_prefix_bare intro: address_eqI)

lemma output_prefix_iff:
  assumes "index_key_ok x" "scope_sized scope" "ca_scope address = scope" "sized (ca_value address)"
  shows "prefix (output_prefix scope address) (physical x) \<longleftrightarrow>
    (\<exists>k. x = OutputOf scope k \<and> ok_address k = address)"
  using assms unfolding output_prefix_def
  by (cases x)
     (auto simp: key_split key_prefix_prefix_append component_prefix key_prefix_bare intro: address_eqI)

lemma history_key_order:
  "history_key scope a h t < history_key scope a h' t' \<longleftrightarrow>
     h < h' \<or> h = h' \<and> component (tr_value t) < component (tr_value t')"
  by (simp add: key_split append_less_same_length)

section \<open>Properties\<close>

text \<open>
  The keys of the index never collide: two logical keys of any collections and scopes have the
  same bytes only if they are the same key, and the prefix a history or output query scans selects
  exactly the keys of its own address in its own scope.
\<close>

theorem index_keys_separate:
  assumes "index_key_ok x" "index_key_ok y" "scope_sized scope" "ca_scope address = scope"
    and "sized (ca_value address)"
  shows "(physical x = physical y \<longleftrightarrow> x = y) \<and>
    (prefix (history_prefix scope address) (physical x) \<longleftrightarrow> (\<exists>h t. x = HistoryOf scope address h t)) \<and>
    (prefix (output_prefix scope address) (physical x) \<longleftrightarrow>
       (\<exists>k. x = OutputOf scope k \<and> ok_address k = address))"
  using physical_inject [OF assms(1,2)] history_prefix_iff [OF assms(1,3-5)]
    output_prefix_iff [OF assms(1,3-5)]
  by blast

theorem index_keys_separate_witness:
  "let scope = IndexScope (ChainId ''a'') ''b''; address = CanonicalAddress scope ''x'';
       k = OutputOf scope (OutputKey address (OutputId (TransactionRef scope ''t'') 7)) in
   physical k \<noteq> physical (JournalAt scope 3) \<and> prefix (output_prefix scope address) (physical k) \<and>
   \<not> prefix (history_prefix scope address) (physical k)"
proof -
  let ?scope = "IndexScope (ChainId ''a'') ''b''"
  let ?address = "CanonicalAddress ?scope ''x''"
  let ?k = "OutputOf ?scope (OutputKey ?address (OutputId (TransactionRef ?scope ''t'') 7))"
  have "index_key_ok ?k" "index_key_ok (JournalAt ?scope 3)" "scope_sized ?scope"
      "sized (ca_value ?address)" "ca_scope ?address = ?scope"
    by (simp_all add: scope_sized_def sized_def fits_u64_def)
  note separate = index_keys_separate [OF this(1,2,3,5,4)]
  have "physical ?k \<noteq> physical (JournalAt ?scope 3)" using separate by simp
  moreover have "prefix (output_prefix ?scope ?address) (physical ?k)"
    "\<not> prefix (history_prefix ?scope ?address) (physical ?k)"
    using separate by auto
  ultimately show ?thesis unfolding Let_def by (intro conjI)
qed

end
