(* ===== verification/Index_Records.thy ===== *)
theory Index_Records
  imports Observation Storage_Codec
begin

text \<open>
  The stored forms of the redb index (\<open>sdk/indexing/redb/src/{record,movement_record,
  amount_record}.rs\<close>): one record per domain value, amounts as canonical decimal text, and the
  rollback journal. The lemmas show that every valid domain value is restored from its record.
\<close>

section \<open>Records\<close>

record parent_record =
  pr_position :: u64
  pr_hash :: "u8 list"

record block_record =
  brec_position :: u64
  brec_height :: u64
  brec_hash :: "u8 list"
  brec_parent :: "parent_record option"
  brec_timestamp :: "u64 option"

record address_record =
  arec_chain :: string
  arec_network :: string
  arec_value :: string

record transaction_identity =
  ti_chain :: string
  ti_network :: string
  ti_value :: string

record asset_record =
  asr_chain :: string
  asr_value :: string

datatype movement_tag = TagTransfer | TagInput | TagOutput | TagMint | TagBurn

record movement_record =
  mr_kind :: movement_tag
  mr_id :: string
  mr_asset :: asset_record
  mr_amount :: string
  mr_from :: "address_record option"
  mr_to :: "address_record option"

record fee_record =
  fr_asset :: asset_record
  fr_amount :: string
  fr_payer :: "address_record option"

datatype status_record = IncludedRecord block_record | FailedRecord block_record "string option"

record transaction_record =
  trec_id :: transaction_identity
  trec_status :: status_record
  trec_movements :: "movement_record list"
  trec_fee :: "fee_record option"

record output_identity =
  oid_address :: address_record
  oid_transaction :: transaction_identity
  oid_index :: u32

record output_record =
  orec_id :: output_identity
  orec_asset :: asset_record
  orec_amount :: string
  orec_evidence :: "u8 list"
  orec_created_at :: u64
  orec_coinbase :: bool

record restored_output =
  ro_key :: bytes
  ro_value :: output_record

record journal_record =
  jr_block :: block_record
  jr_previous_checkpoint :: "block_record option"
  jr_history_keys :: "bytes list"
  jr_remove_output_keys :: "bytes list"
  jr_restore_outputs :: "restored_output list"

section \<open>Conversions\<close>

definition record_error :: "string \<Rightarrow> index_error" where
  "record_error message = index_error_new StoreFailure message False"

definition invalid_amount_record_error :: index_error where
  "invalid_amount_record_error = record_error ''stored amount is not a valid decimal''"

definition noncanonical_amount_error :: index_error where
  "noncanonical_amount_error = record_error ''stored amount is not canonical''"

definition negative_amount_record_error :: index_error where
  "negative_amount_record_error = record_error ''stored monetary amount must not be negative''"

definition movement_shape_error :: index_error where
  "movement_shape_error = record_error ''movement record shape is invalid''"

definition amount_decode :: "string \<Rightarrow> (index_error, decimal) result" where
  "amount_decode encoded =
     and_then (map_err (\<lambda>_. invalid_amount_record_error) (from_str encoded)) (\<lambda>v.
     and_then (fail_if (to_string v \<noteq> encoded) noncanonical_amount_error) (\<lambda>_.
     and_then (map_err (\<lambda>_. negative_amount_record_error) (to_atomic v (scale v))) (\<lambda>_.
     Ok v)))"

definition block_from_domain :: "block_ref \<Rightarrow> block_record" where
  "block_from_domain b =
     \<lparr>brec_position = br_position b, brec_height = br_height b, brec_hash = br_hash b,
      brec_parent = map_option (\<lambda>p. \<lparr>pr_position = bp_position p, pr_hash = bp_hash p\<rparr>) (br_parent b),
      brec_timestamp = br_timestamp b\<rparr>"

definition block_into_domain :: "block_record \<Rightarrow> block_ref" where
  "block_into_domain b =
     \<lparr>br_position = brec_position b, br_height = brec_height b, br_hash = brec_hash b,
      br_parent = map_option (\<lambda>p. \<lparr>bp_position = pr_position p, bp_hash = pr_hash p\<rparr>) (brec_parent b),
      br_timestamp = brec_timestamp b\<rparr>"

definition address_from_domain :: "canonical_address \<Rightarrow> address_record" where
  "address_from_domain a =
     \<lparr>arec_chain = chain_name (sc_chain (ca_scope a)), arec_network = sc_network (ca_scope a),
      arec_value = ca_value a\<rparr>"

definition address_into_domain :: "address_record \<Rightarrow> canonical_address" where
  "address_into_domain a =
     CanonicalAddress (IndexScope (ChainId (arec_chain a)) (arec_network a)) (arec_value a)"

definition identity_from_domain :: "transaction_ref \<Rightarrow> transaction_identity" where
  "identity_from_domain t =
     \<lparr>ti_chain = chain_name (sc_chain (tr_scope t)), ti_network = sc_network (tr_scope t),
      ti_value = tr_value t\<rparr>"

definition identity_into_domain :: "transaction_identity \<Rightarrow> transaction_ref" where
  "identity_into_domain t =
     TransactionRef (IndexScope (ChainId (ti_chain t)) (ti_network t)) (ti_value t)"

definition asset_from_domain :: "asset_id \<Rightarrow> asset_record" where
  "asset_from_domain a = \<lparr>asr_chain = chain_name (ai_chain a), asr_value = ai_asset a\<rparr>"

definition asset_into_domain :: "asset_record \<Rightarrow> asset_id" where
  "asset_into_domain a = AssetId (ChainId (asr_chain a)) (asr_value a)"

fun movement_parts ::
  "value_movement \<Rightarrow> movement_tag \<times> address_record option \<times> address_record option" where
  "movement_parts (Transfer _ _ _ from to) =
     (TagTransfer, Some (address_from_domain from), Some (address_from_domain to))"
| "movement_parts (Input _ _ _ owner) = (TagInput, map_option address_from_domain owner, None)"
| "movement_parts (Output _ _ _ owner) = (TagOutput, None, map_option address_from_domain owner)"
| "movement_parts (Mint _ _ _ to) = (TagMint, None, Some (address_from_domain to))"
| "movement_parts (Burn _ _ _ from) = (TagBurn, Some (address_from_domain from), None)"

definition movement_from_domain :: "value_movement \<Rightarrow> movement_record" where
  "movement_from_domain m =
     (case movement_parts m of (kind, from, to) \<Rightarrow>
       \<lparr>mr_kind = kind, mr_id = movement_text (mv_id m), mr_asset = asset_from_domain (mv_asset m),
        mr_amount = to_string (mv_amount m), mr_from = from, mr_to = to\<rparr>)"

fun movement_shape ::
  "movement_id \<Rightarrow> asset_id \<Rightarrow> decimal \<Rightarrow> movement_tag \<Rightarrow> address_record option \<Rightarrow>
     address_record option \<Rightarrow> (index_error, value_movement) result" where
  "movement_shape i a d TagTransfer (Some from) (Some to) =
     Ok (Transfer i a d (address_into_domain from) (address_into_domain to))"
| "movement_shape i a d TagInput owner None = Ok (Input i a d (map_option address_into_domain owner))"
| "movement_shape i a d TagOutput None owner = Ok (Output i a d (map_option address_into_domain owner))"
| "movement_shape i a d TagMint None (Some to) = Ok (Mint i a d (address_into_domain to))"
| "movement_shape i a d TagBurn (Some from) None = Ok (Burn i a d (address_into_domain from))"
| "movement_shape i a d _ _ _ = Err movement_shape_error"

definition movement_into_domain :: "movement_record \<Rightarrow> (index_error, value_movement) result" where
  "movement_into_domain m =
     and_then (amount_decode (mr_amount m)) (\<lambda>amount.
     movement_shape (MovementId (mr_id m)) (asset_into_domain (mr_asset m)) amount (mr_kind m)
       (mr_from m) (mr_to m))"

definition fee_from_domain :: "network_fee \<Rightarrow> fee_record" where
  "fee_from_domain f =
     \<lparr>fr_asset = asset_from_domain (nf_asset f), fr_amount = to_string (nf_amount f),
      fr_payer = map_option address_from_domain (nf_payer f)\<rparr>"

definition fee_into_domain :: "fee_record \<Rightarrow> (index_error, network_fee) result" where
  "fee_into_domain f =
     and_then (amount_decode (fr_amount f)) (\<lambda>amount.
     Ok \<lparr>nf_asset = asset_into_domain (fr_asset f), nf_amount = amount,
         nf_payer = map_option address_into_domain (fr_payer f)\<rparr>)"

fun status_from_domain :: "canonical_status \<Rightarrow> status_record" where
  "status_from_domain (CanonicalIncluded b) = IncludedRecord (block_from_domain b)"
| "status_from_domain (CanonicalFailed b reason) = FailedRecord (block_from_domain b) reason"

fun status_into_domain :: "status_record \<Rightarrow> canonical_status" where
  "status_into_domain (IncludedRecord b) = CanonicalIncluded (block_into_domain b)"
| "status_into_domain (FailedRecord b reason) = CanonicalFailed (block_into_domain b) reason"

definition transaction_from_domain :: "canonical_transaction \<Rightarrow> transaction_record" where
  "transaction_from_domain t =
     \<lparr>trec_id = identity_from_domain (ct_id t), trec_status = status_from_domain (ct_status t),
      trec_movements = map movement_from_domain (ct_movements t),
      trec_fee = map_option fee_from_domain (ct_fee t)\<rparr>"

definition transaction_into_domain ::
  "transaction_record \<Rightarrow> (index_error, canonical_transaction) result" where
  "transaction_into_domain t =
     (let transaction_id = identity_into_domain (trec_id t) in
      and_then (collect movement_into_domain (trec_movements t)) (\<lambda>movements.
      and_then (transpose_map fee_into_domain (trec_fee t)) (\<lambda>fee.
      Ok \<lparr>ct_scope = tr_scope transaction_id, ct_id = transaction_id,
          ct_status = status_into_domain (trec_status t), ct_movements = movements, ct_fee = fee\<rparr>)))"

definition output_identity_from_domain :: "output_key \<Rightarrow> output_identity" where
  "output_identity_from_domain k =
     \<lparr>oid_address = address_from_domain (ok_address k),
      oid_transaction = identity_from_domain (oi_transaction (ok_output k)),
      oid_index = oi_index (ok_output k)\<rparr>"

definition output_identity_into_domain :: "output_identity \<Rightarrow> output_key" where
  "output_identity_into_domain k =
     OutputKey (address_into_domain (oid_address k))
       (OutputId (identity_into_domain (oid_transaction k)) (oid_index k))"

definition output_from_domain :: "indexed_output \<Rightarrow> output_record" where
  "output_from_domain o1 =
     \<lparr>orec_id = output_identity_from_domain (io_key o1), orec_asset = asset_from_domain (io_asset o1),
      orec_amount = to_string (io_amount o1), orec_evidence = io_evidence o1,
      orec_created_at = io_created_at o1, orec_coinbase = io_coinbase o1\<rparr>"

definition output_into_domain :: "output_record \<Rightarrow> (index_error, indexed_output) result" where
  "output_into_domain r =
     (let key = output_identity_into_domain (orec_id r) in
      and_then (amount_decode (orec_amount r)) (\<lambda>amount.
      Ok \<lparr>io_id = ok_output key, io_address = ok_address key, io_asset = asset_into_domain (orec_asset r),
          io_amount = amount, io_evidence = orec_evidence r, io_created_at = orec_created_at r,
          io_coinbase = orec_coinbase r\<rparr>))"

definition journal_block :: "journal_record \<Rightarrow> block_ref" where
  "journal_block j = block_into_domain (jr_block j)"

section \<open>Round trips\<close>

text \<open>Amounts the \<open>Decimal\<close> type can hold that are valid as money.\<close>

definition amount_ok :: "decimal \<Rightarrow> bool" where
  "amount_ok d \<longleftrightarrow> canonical d \<and> int (scale d) < 2 ^ 32 \<and> 0 \<le> coefficient d"

lemma amount_roundtrip: "amount_ok d \<Longrightarrow> amount_decode (to_string d) = Ok d"
proof -
  assume ok: "amount_ok d"
  then have "from_str (to_string d) = Ok d" by (simp add: amount_ok_def from_str_to_string)
  moreover have "to_atomic d (scale d) = Ok (nat (coefficient d))"
    using ok by (simp add: to_atomic_Ok_iff amount_ok_def dval_def)
  ultimately show ?thesis by (simp add: amount_decode_def)
qed

text \<open>What the decoder accepts is valid money, in its one textual form.\<close>

lemma amount_decode_ok:
  assumes "amount_decode s = Ok d"
  shows "0 \<le> coefficient d \<and> canonical d \<and> to_string d = s"
proof -
  from assms obtain u where d: "from_str s = Ok d" "to_string d = s" "to_atomic d (scale d) = Ok u"
    by (auto simp: amount_decode_def result_simps)
  then have "\<not> coefficient d < 0" using to_atomic_Err_iff [of d "scale d" negative_amount_error] by auto
  then show ?thesis using d from_str_canonical [OF d(1)] by simp
qed

lemma block_roundtrip [simp]: "block_into_domain (block_from_domain b) = b"
  by (cases "br_parent b") (simp_all add: block_into_domain_def block_from_domain_def)

lemma block_record_roundtrip [simp]: "block_from_domain (block_into_domain r) = r"
  by (cases "brec_parent r") (simp_all add: block_into_domain_def block_from_domain_def)

lemma address_roundtrip [simp]: "address_into_domain (address_from_domain a) = a"
  by (simp add: address_into_domain_def address_from_domain_def)

lemma identity_roundtrip [simp]: "identity_into_domain (identity_from_domain t) = t"
  by (simp add: identity_into_domain_def identity_from_domain_def)

lemma asset_roundtrip [simp]: "asset_into_domain (asset_from_domain a) = a"
  by (simp add: asset_into_domain_def asset_from_domain_def)

lemma option_roundtrip [simp]:
  "map_option (address_into_domain \<circ> address_from_domain) a = a"
  by (cases a) simp_all

lemma movement_roundtrip: "amount_ok (mv_amount m) \<Longrightarrow> movement_into_domain (movement_from_domain m) = Ok m"
  by (cases m)
     (auto simp: movement_into_domain_def movement_from_domain_def amount_roundtrip option.map_comp)

lemma fee_roundtrip: "amount_ok (nf_amount f) \<Longrightarrow> fee_into_domain (fee_from_domain f) = Ok f"
  by (simp add: fee_into_domain_def fee_from_domain_def amount_roundtrip option.map_comp)

lemma status_roundtrip [simp]: "status_into_domain (status_from_domain s) = s"
  by (cases s) simp_all

definition transaction_amounts_ok :: "canonical_transaction \<Rightarrow> bool" where
  "transaction_amounts_ok t \<longleftrightarrow>
     (\<forall>m \<in> set (ct_movements t). amount_ok (mv_amount m)) \<and>
     (\<forall>f \<in> set_option (ct_fee t). amount_ok (nf_amount f))"

lemma transaction_roundtrip:
  assumes "transaction_amounts_ok t" "ct_scope t = tr_scope (ct_id t)"
  shows "transaction_into_domain (transaction_from_domain t) = Ok t"
proof -
  have "collect movement_into_domain (map movement_from_domain ms) = Ok ms"
    if "\<forall>m \<in> set ms. amount_ok (mv_amount m)" for ms
    using that by (induction ms) (auto simp: movement_roundtrip)
  moreover have "transpose_map fee_into_domain (map_option fee_from_domain (ct_fee t)) = Ok (ct_fee t)"
    using assms(1) by (cases "ct_fee t") (auto simp: transaction_amounts_ok_def fee_roundtrip)
  ultimately show ?thesis
    using assms by (simp add: transaction_into_domain_def transaction_from_domain_def Let_def
        transaction_amounts_ok_def)
qed

lemma output_identity_roundtrip [simp]:
  "output_identity_into_domain (output_identity_from_domain k) = k"
  by (simp add: output_identity_into_domain_def output_identity_from_domain_def)

lemma output_roundtrip: "amount_ok (io_amount o1) \<Longrightarrow> output_into_domain (output_from_domain o1) = Ok o1"
  by (simp add: output_into_domain_def output_from_domain_def Let_def amount_roundtrip io_key_def)

section \<open>Properties\<close>

text \<open>
  C37. Storage is lossless for valid facts: a canonical transaction whose identifier belongs to its
  scope and a live output are restored exactly from their records, amounts included.
\<close>

theorem record_roundtrip:
  assumes "transaction_amounts_ok t" "ct_scope t = tr_scope (ct_id t)" "amount_ok (io_amount output)"
  shows "transaction_into_domain (transaction_from_domain t) = Ok t \<and>
    output_into_domain (output_from_domain output) = Ok output"
  using transaction_roundtrip [OF assms(1,2)] output_roundtrip [OF assms(3)] by simp

theorem record_roundtrip_witness:
  "let scope = IndexScope (ChainId ''c'') ''n''; address = CanonicalAddress scope ''a'';
       block = \<lparr>br_position = 9, br_height = 7, br_hash = [1], br_parent = None, br_timestamp = None\<rparr>;
       t = \<lparr>ct_scope = scope, ct_id = TransactionRef scope ''t'', ct_status = CanonicalIncluded block,
            ct_movements = [Mint (MovementId ''m'') (AssetId (ChainId ''c'') ''native'') (decimal_new 125 2) address],
            ct_fee = None\<rparr>;
       output = \<lparr>io_id = OutputId (TransactionRef scope ''t'') 0, io_address = address,
            io_asset = AssetId (ChainId ''c'') ''native'', io_amount = decimal_new 5 0, io_evidence = [],
            io_created_at = 7, io_coinbase = False\<rparr> in
   transaction_into_domain (transaction_from_domain t) = Ok t \<and>
   output_into_domain (output_from_domain output) = Ok output"
proof -
  have "decimal_new 125 2 = \<lparr>coefficient = 125, scale = 2\<rparr>" "decimal_new 5 0 = \<lparr>coefficient = 5, scale = 0\<rparr>"
    by code_simp+
  then have "amount_ok (decimal_new 125 2)" "amount_ok (decimal_new 5 0)"
    by (simp_all add: amount_ok_def canonical_def)
  then show ?thesis
    unfolding Let_def by (intro record_roundtrip) (simp_all add: transaction_amounts_ok_def)
qed

end
