(* ===== verification/Index_Repository.thy ===== *)
theory Index_Repository
  imports Storage_Laws Index_Keys Index_Records
begin

text \<open>
  The redb index repository (\<open>sdk/indexing/redb/src/repository/{storage,blocks,outputs,
  transactions}.rs\<close>): reading a block, adding a block with its history, live outputs, rollback
  journal and checkpoint in one batch, removing the tip from its journal, and the two
  checkpoint-consistent listings.

  The store is a record of its operations over a state; \<open>bincode\<close>'s codecs for the four stored
  record types are parameters, about which only that a decoder inverts its encoder is assumed.
\<close>

section \<open>Store access\<close>

record 's store_ops =
  so_get :: "namespace \<Rightarrow> key \<Rightarrow> ('s, store_error, stored_value option) eff"
  so_scan :: "scan_request \<Rightarrow> ('s, store_error, scan_page) eff"
  so_commit :: "write_batch \<Rightarrow> ('s, store_error, version) eff"

record 't codec =
  cd_encode :: "'t \<Rightarrow> (string, bytes) result"
  cd_decode :: "bytes \<Rightarrow> (string, 't \<times> nat) result"

record codecs =
  block_codec :: "block_record codec"
  transaction_codec :: "transaction_record codec"
  output_codec :: "output_record codec"
  journal_codec :: "journal_record codec"

record 's repository =
  rp_store :: "'s store_ops"
  rp_codecs :: codecs
  rp_scope :: index_scope

record 't versioned_record =
  vr_value :: 't
  vr_version :: version

definition empty_scope_error :: index_error where
  "empty_scope_error =
     index_error_new InvalidRequest ''persistent index scope must contain a chain and network'' False"

text \<open>\<open>trim().is_empty()\<close>: nothing but white space.\<close>

fun strip_whitespace :: "nat \<Rightarrow> string \<Rightarrow> string" where
  "strip_whitespace 0 s = s"
| "strip_whitespace (Suc n) s =
     (case filter (\<lambda>w. prefix (map char_of w) s) utf8_whitespace of
        [] \<Rightarrow> s
      | w # _ \<Rightarrow> strip_whitespace n (drop (length w) s))"

definition blank :: "string \<Rightarrow> bool" where
  "blank s \<longleftrightarrow> strip_whitespace (length s) s = []"

definition repository_new ::
  "'s store_ops \<Rightarrow> codecs \<Rightarrow> index_scope \<Rightarrow> (index_error, 's repository) result" where
  "repository_new storage codecs scope =
     and_then (fail_if (blank (chain_name (sc_chain scope)) \<or> blank (sc_network scope)) empty_scope_error) (\<lambda>_.
     Ok \<lparr>rp_store = storage, rp_codecs = codecs, rp_scope = scope\<rparr>)"

definition foreign_scope_error :: index_error where
  "foreign_scope_error =
     index_error_new ScopeMismatch ''request belongs to another repository scope'' False"

definition check_scope :: "'s repository \<Rightarrow> index_scope \<Rightarrow> (index_error, unit) result" where
  "check_scope repo scope = (if rp_scope repo = scope then Ok () else Err foreign_scope_error)"

definition index_storage_error :: "store_error \<Rightarrow> index_error" where
  "index_storage_error error =
     (case st_kind error of
        StoreConflict \<Rightarrow> index_error_new Conflict (st_message error) True
      | Unavailable \<Rightarrow> index_error_new StoreFailure (st_message error) True
      | _ \<Rightarrow> index_error_new StoreFailure (st_message error) False)"

definition store_call :: "('s, store_error, 'a) eff \<Rightarrow> ('s, index_error, 'a) eff" where
  "store_call m = (\<lambda>s. map_prod (map_err index_storage_error) id (m s))"

definition encode_error :: "string \<Rightarrow> index_error" where
  "encode_error error = record_error (''cannot encode record: '' @ error)"

definition decode_error :: "string \<Rightarrow> index_error" where
  "decode_error error = record_error (''cannot decode record: '' @ error)"

definition trailing_bytes_error :: index_error where
  "trailing_bytes_error = record_error ''record has trailing bytes''"

definition encode_record :: "'t codec \<Rightarrow> 't \<Rightarrow> (index_error, bytes) result" where
  "encode_record codec v = map_err encode_error (cd_encode codec v)"

definition decode_record :: "'t codec \<Rightarrow> bytes \<Rightarrow> (index_error, 't) result" where
  "decode_record codec v =
     and_then (map_err decode_error (cd_decode codec v)) (\<lambda>(record, consumed).
     and_then (fail_if (consumed \<noteq> length v) trailing_bytes_error) (\<lambda>_. Ok record))"

definition repo_get ::
  "'s repository \<Rightarrow> 't codec \<Rightarrow> key \<Rightarrow> ('s, index_error, 't versioned_record option) eff" where
  "repo_get repo codec key =
     bind_eff (store_call (so_get (rp_store repo) NAMESPACE key)) (\<lambda>stored.
     lift_result (transpose_map (\<lambda>v.
       and_then (decode_record codec (sv_value v)) (\<lambda>r.
       Ok \<lparr>vr_value = r, vr_version = sv_version v\<rparr>)) stored))"

definition batch_put ::
  "'t codec \<Rightarrow> write_batch \<Rightarrow> key \<Rightarrow> 't \<Rightarrow> (index_error, write_batch) result" where
  "batch_put codec batch key v =
     and_then (encode_record codec v) (\<lambda>encoded.
     Ok (batch\<lparr>wb_operations := wb_operations batch @ [Put NAMESPACE key encoded]\<rparr>))"

definition batch_delete :: "write_batch \<Rightarrow> key \<Rightarrow> write_batch" where
  "batch_delete batch key = batch\<lparr>wb_operations := wb_operations batch @ [Delete NAMESPACE key]\<rparr>"

definition expect :: "write_batch \<Rightarrow> key \<Rightarrow> 't versioned_record option \<Rightarrow> write_batch" where
  "expect batch key v =
     batch\<lparr>wb_conditions := wb_conditions batch @
       [case v of
          Some r \<Rightarrow> VersionIs NAMESPACE key (vr_version r)
        | None \<Rightarrow> Missing NAMESPACE key]\<rparr>"

definition empty_batch :: write_batch where
  "empty_batch = \<lparr>wb_conditions = [], wb_operations = []\<rparr>"

definition MAX_PAGE :: nat where
  "MAX_PAGE = 1000"

definition limit_error :: index_error where
  "limit_error = index_error_new InvalidRequest ''query limit must be between 1 and 1000'' False"

definition validate_limit :: "nat \<Rightarrow> (index_error, unit) result" where
  "validate_limit limit = (if 1 \<le> limit \<and> limit \<le> MAX_PAGE then Ok () else Err limit_error)"

definition foreign_address_error :: index_error where
  "foreign_address_error =
     index_error_new ScopeMismatch ''address belongs to another repository scope'' False"

definition check_address :: "'s repository \<Rightarrow> canonical_address \<Rightarrow> (index_error, unit) result" where
  "check_address repo address =
     (if ca_scope address = rp_scope repo \<and> ca_value address \<noteq> [] then Ok () else Err foreign_address_error)"

definition current_checkpoint :: "'s repository \<Rightarrow> ('s, index_error, block_ref option) eff" where
  "current_checkpoint repo =
     bind_eff (repo_get repo (block_codec (rp_codecs repo)) (checkpoint_key (rp_scope repo))) (\<lambda>v.
     ret (map_option (\<lambda>stored. block_into_domain (vr_value stored)) v))"

definition page_changed_error :: index_error where
  "page_changed_error =
     index_error_new Conflict ''canonical state changed while reading a page'' True"

definition ensure_checkpoint :: "'s repository \<Rightarrow> block_ref option \<Rightarrow> ('s, index_error, unit) eff" where
  "ensure_checkpoint repo expected =
     bind_eff (current_checkpoint repo) (\<lambda>current.
     lift_result (fail_if (current \<noteq> expected) page_changed_error))"

section \<open>Blocks\<close>

definition read_block :: "'s repository \<Rightarrow> block_selector \<Rightarrow> ('s, index_error, block_ref option) eff" where
  "read_block repo selector =
     (let (scope, height) = (case selector of Tip scope \<Rightarrow> (scope, None) | AtHeight scope height \<Rightarrow> (scope, Some height)) in
      bind_eff (lift_result (check_scope repo scope)) (\<lambda>_.
      case height of
        Some height \<Rightarrow>
          bind_eff (repo_get repo (journal_codec (rp_codecs repo)) (journal_key scope height)) (\<lambda>v.
          ret (map_option (\<lambda>stored. journal_block (vr_value stored)) v))
      | None \<Rightarrow>
          bind_eff (repo_get repo (block_codec (rp_codecs repo)) (checkpoint_key scope)) (\<lambda>v.
          ret (map_option (\<lambda>stored. block_into_domain (vr_value stored)) v))))"

definition checkpoint_journal_error :: index_error where
  "checkpoint_journal_error = record_error ''canonical checkpoint is missing its rollback journal''"

definition retained_block_error :: index_error where
  "retained_block_error =
     index_error_new CannotConnect ''another retained block exists at this height'' True"

definition checkpoint_changed_error :: index_error where
  "checkpoint_changed_error =
     index_error_new Conflict ''checkpoint changed before block commit'' True"

definition history_exists_error :: index_error where
  "history_exists_error = index_error_new Conflict ''canonical history entry already exists'' True"

definition output_exists_error :: index_error where
  "output_exists_error = index_error_new Conflict ''created output already exists'' True"

definition unknown_output_error :: index_error where
  "unknown_output_error =
     index_error_new InvalidBlock ''block spends an unknown indexed output'' False"

text \<open>One history entry per transaction and address involved, in the order of the addresses.\<close>

definition history_entries ::
  "canonical_transaction list \<Rightarrow> (canonical_transaction \<times> canonical_address) list" where
  "history_entries transactions = concat (map (\<lambda>t. map (Pair t) (ct_addresses t)) transactions)"

fun add_history ::
  "'s repository \<Rightarrow> (canonical_transaction \<times> canonical_address) list \<Rightarrow> write_batch \<Rightarrow> bytes list \<Rightarrow>
     ('s, index_error, write_batch \<times> bytes list) eff" where
  "add_history repo [] batch keys = ret (batch, keys)"
| "add_history repo ((t, address) # entries) batch keys =
     (let key = history_key (rp_scope repo) address (br_height (ct_block t)) (ct_id t) in
      bind_eff (repo_get repo (transaction_codec (rp_codecs repo)) key) (\<lambda>existing.
      if existing \<noteq> None then throw history_exists_error
      else
        let batch' = expect batch key (None :: transaction_record versioned_record option) in
        bind_eff (lift_result
          (batch_put (transaction_codec (rp_codecs repo)) batch' key (transaction_from_domain t))) (\<lambda>batch''.
        add_history repo entries batch'' (keys @ [key]))))"

fun add_outputs ::
  "'s repository \<Rightarrow> indexed_output list \<Rightarrow> write_batch \<Rightarrow> bytes list \<Rightarrow>
     ('s, index_error, write_batch \<times> bytes list) eff" where
  "add_outputs repo [] batch keys = ret (batch, keys)"
| "add_outputs repo (output # outputs) batch keys =
     (let key = output_key_of (rp_scope repo) (io_key output) in
      bind_eff (repo_get repo (output_codec (rp_codecs repo)) key) (\<lambda>existing.
      if existing \<noteq> None then throw output_exists_error
      else
        let batch' = expect batch key (None :: output_record versioned_record option) in
        bind_eff (lift_result
          (batch_put (output_codec (rp_codecs repo)) batch' key (output_from_domain output))) (\<lambda>batch''.
        add_outputs repo outputs batch'' (keys @ [key]))))"

fun spend_outputs ::
  "'s repository \<Rightarrow> (output_key \<times> bool) list \<Rightarrow> write_batch \<Rightarrow> restored_output list \<Rightarrow>
     ('s, index_error, write_batch \<times> restored_output list) eff" where
  "spend_outputs repo [] batch restored = ret (batch, restored)"
| "spend_outputs repo ((output, required) # spends) batch restored =
     (let key = output_key_of (rp_scope repo) output in
      bind_eff (repo_get repo (output_codec (rp_codecs repo)) key) (\<lambda>existing.
      case existing of
        None \<Rightarrow>
          if required then throw unknown_output_error else spend_outputs repo spends batch restored
      | Some record \<Rightarrow>
          spend_outputs repo spends (batch_delete (expect batch key existing) key)
            (restored @ [\<lparr>ro_key = key, ro_value = vr_value record\<rparr>])))"

definition write_block :: "'s repository \<Rightarrow> block_addition \<Rightarrow> ('s, index_error, block_outcome) eff" where
  "write_block repo addition =
     bind_eff (lift_result (check_scope repo (ba_scope addition))) (\<lambda>_.
     let ck = checkpoint_key (rp_scope repo);
         jk = journal_key (rp_scope repo) (br_height (ba_block addition)) in
     bind_eff (repo_get repo (block_codec (rp_codecs repo)) ck) (\<lambda>checkpoint.
     let current = map_option (\<lambda>stored. block_into_domain (vr_value stored)) checkpoint in
     bind_eff (repo_get repo (journal_codec (rp_codecs repo)) jk) (\<lambda>journal.
     if current = Some (ba_block addition) then
       lift_result
         (case journal of
            Some stored \<Rightarrow>
              if journal_block (vr_value stored) = ba_block addition then Ok AlreadyApplied
              else Err checkpoint_journal_error
          | None \<Rightarrow> Err checkpoint_journal_error)
     else if journal \<noteq> None then throw retained_block_error
     else if current \<noteq> ba_expected_checkpoint addition then throw checkpoint_changed_error
     else
       let batch = expect (expect empty_batch ck checkpoint) jk (None :: journal_record versioned_record option) in
       bind_eff (add_history repo (history_entries (ba_transactions addition)) batch []) (\<lambda>(batch, history_keys).
       bind_eff (add_outputs repo (oc_created (ba_outputs addition)) batch []) (\<lambda>(batch, remove_output_keys).
       bind_eff (spend_outputs repo
           (map (\<lambda>k. (k, True)) (oc_spent (ba_outputs addition)) @
            map (\<lambda>k. (k, False)) (oc_tracked_spends (ba_outputs addition))) batch []) (\<lambda>(batch, restore_outputs).
       let journal = \<lparr>jr_block = block_from_domain (ba_block addition),
             jr_previous_checkpoint = map_option block_from_domain (ba_expected_checkpoint addition),
             jr_history_keys = history_keys, jr_remove_output_keys = remove_output_keys,
             jr_restore_outputs = restore_outputs\<rparr> in
       bind_eff (lift_result (batch_put (journal_codec (rp_codecs repo)) batch jk journal)) (\<lambda>batch.
       bind_eff (lift_result
         (batch_put (block_codec (rp_codecs repo)) batch ck (block_from_domain (ba_block addition)))) (\<lambda>batch.
       let batch =
             (if ba_retention addition \<le> br_height (ba_block addition)
              then batch_delete batch
                     (journal_key (rp_scope repo) (br_height (ba_block addition) - ba_retention addition))
              else batch) in
       bind_eff (store_call (so_commit (rp_store repo) batch)) (\<lambda>_.
       ret Applied))))))))) "

definition revert_target_error :: index_error where
  "revert_target_error = index_error_new Conflict ''revert must target the current checkpoint'' True"

definition journal_not_retained_error :: index_error where
  "journal_not_retained_error = index_error_new ReorgTooDeep ''rollback journal is not retained'' False"

definition journal_mismatch_error :: index_error where
  "journal_mismatch_error = record_error ''rollback journal does not match the canonical tip''"

definition foreign_history_key_error :: index_error where
  "foreign_history_key_error = record_error ''rollback journal contains a foreign history key''"

definition history_missing_error :: index_error where
  "history_missing_error = record_error ''rollback history entry is missing''"

definition foreign_output_key_error :: index_error where
  "foreign_output_key_error = record_error ''rollback journal contains a foreign output key''"

definition rollback_output_missing_error :: index_error where
  "rollback_output_missing_error = record_error ''rollback output is missing''"

definition rollback_output_mismatch_error :: index_error where
  "rollback_output_mismatch_error =
     record_error ''rollback output key does not match its stored value''"

definition foreign_restored_key_error :: index_error where
  "foreign_restored_key_error =
     record_error ''rollback journal contains a foreign restored-output key''"

definition restored_output_mismatch_error :: index_error where
  "restored_output_mismatch_error =
     record_error ''restored output key does not match its journal value''"

definition restored_exists_error :: index_error where
  "restored_exists_error = index_error_new Conflict ''output to restore already exists'' True"

fun remove_history ::
  "'s repository \<Rightarrow> index_scope \<Rightarrow> bytes list \<Rightarrow> write_batch \<Rightarrow> ('s, index_error, write_batch) eff" where
  "remove_history repo scope [] batch = ret batch"
| "remove_history repo scope (key # keys) batch =
     (if \<not> is_history scope key then throw foreign_history_key_error
      else
        bind_eff (repo_get repo (transaction_codec (rp_codecs repo)) key) (\<lambda>existing.
        bind_eff (lift_result (ok_or existing history_missing_error)) (\<lambda>record.
        bind_eff (lift_result (transaction_into_domain (vr_value record))) (\<lambda>_.
        remove_history repo scope keys (batch_delete (expect batch key existing) key)))))"

fun remove_outputs ::
  "'s repository \<Rightarrow> index_scope \<Rightarrow> bytes list \<Rightarrow> write_batch \<Rightarrow> ('s, index_error, write_batch) eff" where
  "remove_outputs repo scope [] batch = ret batch"
| "remove_outputs repo scope (key # keys) batch =
     (if \<not> is_output scope key then throw foreign_output_key_error
      else
        bind_eff (repo_get repo (output_codec (rp_codecs repo)) key) (\<lambda>existing.
        bind_eff (lift_result (ok_or existing rollback_output_missing_error)) (\<lambda>record.
        bind_eff (lift_result (output_into_domain (vr_value record))) (\<lambda>output.
        if output_key_of scope (io_key output) \<noteq> key then throw rollback_output_mismatch_error
        else remove_outputs repo scope keys (batch_delete (expect batch key existing) key)))))"

fun restore_outputs ::
  "'s repository \<Rightarrow> index_scope \<Rightarrow> restored_output list \<Rightarrow> write_batch \<Rightarrow> ('s, index_error, write_batch) eff" where
  "restore_outputs repo scope [] batch = ret batch"
| "restore_outputs repo scope (restored # rest) batch =
     (if \<not> is_output scope (ro_key restored) then throw foreign_restored_key_error
      else
        bind_eff (lift_result (output_into_domain (ro_value restored))) (\<lambda>output.
        if output_key_of scope (io_key output) \<noteq> ro_key restored then throw restored_output_mismatch_error
        else
          bind_eff (repo_get repo (output_codec (rp_codecs repo)) (ro_key restored)) (\<lambda>existing.
          if existing \<noteq> None then throw restored_exists_error
          else
            let batch' = expect batch (ro_key restored) (None :: output_record versioned_record option) in
            bind_eff (lift_result
              (batch_put (output_codec (rp_codecs repo)) batch' (ro_key restored) (ro_value restored))) (\<lambda>batch''.
            restore_outputs repo scope rest batch''))))"

definition remove_tip ::
  "'s repository \<Rightarrow> index_scope \<Rightarrow> block_ref \<Rightarrow> ('s, index_error, block_ref option) eff" where
  "remove_tip repo scope expected_tip =
     bind_eff (lift_result (check_scope repo scope)) (\<lambda>_.
     let ck = checkpoint_key scope; jk = journal_key scope (br_height expected_tip) in
     bind_eff (repo_get repo (block_codec (rp_codecs repo)) ck) (\<lambda>checkpoint.
     if map_option (\<lambda>stored. block_into_domain (vr_value stored)) checkpoint \<noteq> Some expected_tip
     then throw revert_target_error
     else
       bind_eff (repo_get repo (journal_codec (rp_codecs repo)) jk) (\<lambda>stored.
       bind_eff (lift_result (ok_or stored journal_not_retained_error)) (\<lambda>journal.
       if journal_block (vr_value journal) \<noteq> expected_tip then throw journal_mismatch_error
       else
         let batch = expect (expect empty_batch ck checkpoint) jk stored in
         bind_eff (remove_history repo scope (jr_history_keys (vr_value journal)) batch) (\<lambda>batch.
         bind_eff (remove_outputs repo scope (jr_remove_output_keys (vr_value journal)) batch) (\<lambda>batch.
         bind_eff (restore_outputs repo scope (jr_restore_outputs (vr_value journal)) batch) (\<lambda>batch.
         let batch = batch_delete batch jk;
             restored = map_option block_into_domain (jr_previous_checkpoint (vr_value journal)) in
         bind_eff (lift_result
           (case jr_previous_checkpoint (vr_value journal) of
              Some v \<Rightarrow> batch_put (block_codec (rp_codecs repo)) batch ck v
            | None \<Rightarrow> Ok (batch_delete batch ck))) (\<lambda>batch.
         bind_eff (store_call (so_commit (rp_store repo) batch)) (\<lambda>_.
         ret restored))))))))) "

section \<open>Listings\<close>

definition outputs_changed_error :: index_error where
  "outputs_changed_error = index_error_new Conflict ''outputs changed during pagination'' True"

definition history_changed_error :: index_error where
  "history_changed_error = index_error_new Conflict ''history changed during pagination'' True"

definition no_final_key_error :: index_error where
  "no_final_key_error = record_error ''paginated output page has no final key''"

definition list_outputs :: "'s repository \<Rightarrow> output_request \<Rightarrow> ('s, index_error, output_page) eff" where
  "list_outputs repo request =
     bind_eff (lift_result (check_scope repo (or_scope request))) (\<lambda>_.
     bind_eff (lift_result (check_address repo (or_address request))) (\<lambda>_.
     bind_eff (lift_result (validate_limit (or_limit request))) (\<lambda>_.
     bind_eff (current_checkpoint repo) (\<lambda>checkpoint.
     bind_eff (lift_result (fail_if
       (case or_after request of None \<Rightarrow> False | Some cursor \<Rightarrow> ocu_checkpoint cursor \<noteq> checkpoint)
       outputs_changed_error)) (\<lambda>_.
     bind_eff (store_call (so_scan (rp_store repo)
       \<lparr>sr_namespace = NAMESPACE, sr_prefix = output_prefix (rp_scope repo) (or_address request),
        sr_after = map_option ocu_position (or_after request), sr_limit = or_limit request\<rparr>)) (\<lambda>page.
     bind_eff (lift_result (collect (\<lambda>(_, stored).
       and_then (decode_record (output_codec (rp_codecs repo)) (sv_value stored)) output_into_domain)
       (sp_entries page))) (\<lambda>outputs.
     bind_eff (ensure_checkpoint repo checkpoint) (\<lambda>_.
     bind_eff (lift_result
       (if sp_next page \<noteq> None then
          (if sp_entries page = [] then Err no_final_key_error
           else Ok (Some \<lparr>ocu_checkpoint = checkpoint, ocu_position = fst (last (sp_entries page))\<rparr>))
        else Ok None)) (\<lambda>next.
     ret \<lparr>op_checkpoint = checkpoint, op_outputs = outputs, op_next = next\<rparr>)))))))))"

definition list_transactions ::
  "'s repository \<Rightarrow> history_query \<Rightarrow> ('s, index_error, canonical_page) eff" where
  "list_transactions repo request =
     bind_eff (lift_result (check_scope repo (hq_scope request))) (\<lambda>_.
     bind_eff (lift_result (check_address repo (hq_address request))) (\<lambda>_.
     bind_eff (lift_result (validate_limit (hq_limit request))) (\<lambda>_.
     bind_eff (current_checkpoint repo) (\<lambda>checkpoint.
     bind_eff (lift_result (fail_if
       (case hq_after request of None \<Rightarrow> False | Some cursor \<Rightarrow> hc_checkpoint cursor \<noteq> checkpoint)
       history_changed_error)) (\<lambda>_.
     bind_eff (store_call (so_scan (rp_store repo)
       \<lparr>sr_namespace = NAMESPACE, sr_prefix = history_prefix (rp_scope repo) (hq_address request),
        sr_after = map_option (\<lambda>cursor.
          history_key (rp_scope repo) (hq_address request) (hp_height (hc_position cursor))
            (hp_transaction (hc_position cursor))) (hq_after request),
        sr_limit = hq_limit request\<rparr>)) (\<lambda>page.
     bind_eff (lift_result (collect (\<lambda>(_, stored).
       and_then (decode_record (transaction_codec (rp_codecs repo)) (sv_value stored)) transaction_into_domain)
       (sp_entries page))) (\<lambda>transactions.
     bind_eff (ensure_checkpoint repo checkpoint) (\<lambda>_.
     ret \<lparr>cp_checkpoint = checkpoint, cp_transactions = transactions,
          cp_next =
            (if transactions \<noteq> [] \<and> sp_next page \<noteq> None then
               Some \<lparr>hc_checkpoint = checkpoint,
                     hc_position = \<lparr>hp_height = br_height (ct_block (last transactions)),
                                    hp_transaction = ct_id (last transactions)\<rparr>\<rparr>
             else None)\<rparr>))))))))"

end
