(* ===== verification/Index_Rollback.thy ===== *)
theory Index_Rollback
  imports Index_Repository
begin

text \<open>
  What the redb index repository guarantees over any store with the laws of \<open>store\<close>: a block is
  added as a whole or not at all, adding it again is recognised, and removing the tip restores the
  contents of the index byte for byte, except for the journal entry that retention had pruned.
\<close>

section \<open>Contents of the index namespace\<close>

type_synonym contents = "key \<rightharpoonup> bytes"

definition vals :: "store_view \<Rightarrow> contents" where
  "vals m k = map_option sv_value (m (NAMESPACE, k))"

fun update_of :: "operation \<Rightarrow> key \<times> bytes option" where
  "update_of (Put ns k v) = (k, Some v)"
| "update_of (Delete ns k) = (k, None)"

text \<open>The contents after a list of updates: the last one for a key wins.\<close>

definition updated :: "(key \<times> bytes option) list \<Rightarrow> contents \<Rightarrow> contents" where
  "updated us m k = (case map_of (rev us) k of None \<Rightarrow> m k | Some u \<Rightarrow> u)"

lemma updated_Nil [simp]: "updated [] m = m"
  by (simp add: updated_def fun_eq_iff)

lemma updated_snoc [simp]: "updated (us @ [(k, u)]) m = (updated us m)(k := u)"
  by (auto simp: updated_def fun_eq_iff)

lemma updated_Cons: "updated ((k, u) # us) m = updated us (m(k := u))"
  by (auto simp: updated_def fun_eq_iff map_add_def split: option.splits)

lemma updated_append: "updated (us @ vs) m = updated vs (updated us m)"
  by (auto simp: updated_def fun_eq_iff map_add_def split: option.splits)

lemma updated_other: "k \<notin> fst ` set us \<Longrightarrow> updated us m k = m k"
proof -
  assume "k \<notin> fst ` set us"
  then have "map_of (rev us) k = None" by (simp add: map_of_eq_None_iff)
  then show ?thesis by (simp add: updated_def)
qed

lemma updated_in:
  assumes "k \<in> fst ` set us" "\<And>u. (k, u) \<in> set us \<Longrightarrow> u = v"
  shows "updated us m k = v"
proof -
  have "map_of (rev us) k \<noteq> None" using assms(1) by (simp add: map_of_eq_None_iff)
  then obtain u where "map_of (rev us) k = Some u" by blast
  with assms(2) map_of_SomeD [OF this] show ?thesis by (simp add: updated_def)
qed

definition in_namespace :: "operation \<Rightarrow> bool" where
  "in_namespace op \<longleftrightarrow> (case op of Put ns _ _ \<Rightarrow> ns = NAMESPACE | Delete ns _ \<Rightarrow> ns = NAMESPACE)"

lemma vals_apply_view:
  "list_all in_namespace ops \<Longrightarrow> vals (apply_view n ops m) = updated (map update_of ops) (vals m)"
proof (induction n ops m rule: apply_view.induct)
  case (2 n ns k v ops m)
  then have "vals (m((ns, k) \<mapsto> \<lparr>sv_value = v, sv_version = n\<rparr>)) = (vals m)(k \<mapsto> v)"
    by (auto simp: vals_def in_namespace_def fun_eq_iff)
  with 2 show ?case
    unfolding apply_view.simps list.map update_of.simps updated_Cons list.pred_inject by (simp only: simp_thms)
next
  case (3 n ns k ops m)
  then have "vals (m((ns, k) := None)) = (vals m)(k := None)"
    by (auto simp: vals_def in_namespace_def fun_eq_iff)
  with 3 show ?case
    unfolding apply_view.simps list.map update_of.simps updated_Cons list.pred_inject by (simp only: simp_thms)
qed simp

definition codec_ok :: "'t codec \<Rightarrow> bool" where
  "codec_ok c \<longleftrightarrow> (\<forall>r bs. cd_encode c r = Ok bs \<longrightarrow> cd_decode c bs = Ok (r, length bs))"

definition good_codecs :: "codecs \<Rightarrow> bool" where
  "good_codecs cs \<longleftrightarrow>
     codec_ok (block_codec cs) \<and> codec_ok (transaction_codec cs) \<and> codec_ok (output_codec cs) \<and>
     codec_ok (journal_codec cs)"

lemma good_codecsD:
  "good_codecs cs \<Longrightarrow> codec_ok (block_codec cs)"
  "good_codecs cs \<Longrightarrow> codec_ok (transaction_codec cs)"
  "good_codecs cs \<Longrightarrow> codec_ok (output_codec cs)"
  "good_codecs cs \<Longrightarrow> codec_ok (journal_codec cs)"
  by (simp_all add: good_codecs_def)

lemma decode_encode:
  "codec_ok c \<Longrightarrow> encode_record c r = Ok bs \<Longrightarrow> decode_record c bs = Ok r"
  by (auto simp: encode_record_def decode_record_def result_simps codec_ok_def)

text \<open>Checkpoint and output entries hold what the encoder produced, as every write leaves them.\<close>

definition encoded_at :: "'t codec \<Rightarrow> contents \<Rightarrow> key \<Rightarrow> bool" where
  "encoded_at c m k \<longleftrightarrow> (\<forall>bs \<in> set_option (m k). \<exists>r. encode_record c r = Ok bs)"

definition index_encoded :: "codecs \<Rightarrow> index_scope \<Rightarrow> contents \<Rightarrow> bool" where
  "index_encoded cs scope m \<longleftrightarrow>
     encoded_at (block_codec cs) m (checkpoint_key scope) \<and>
     (\<forall>k. is_output scope k \<longrightarrow> encoded_at (output_codec cs) m k)"

lemma encoded_decode:
  assumes "codec_ok c" "encoded_at c m k" "m k = Some bs" "decode_record c bs = Ok r"
  shows "encode_record c r = Ok bs"
proof -
  from assms(2,3) obtain r' where "encode_record c r' = Ok bs" by (auto simp: encoded_at_def)
  with decode_encode [OF assms(1) this] assms(4) show ?thesis by simp
qed

text \<open>The record stored under a key, if there is one and it decodes.\<close>

definition record_at :: "'t codec \<Rightarrow> contents \<Rightarrow> key \<Rightarrow> 't option" where
  "record_at c m k =
     (case m k of
        None \<Rightarrow> None
      | Some bs \<Rightarrow> (case decode_record c bs of Ok r \<Rightarrow> Some r | Err _ \<Rightarrow> None))"

definition pruned_keys :: "index_scope \<Rightarrow> block_addition \<Rightarrow> key set" where
  "pruned_keys scope a =
     (if ba_retention a \<le> br_height (ba_block a)
      then {journal_key scope (br_height (ba_block a) - ba_retention a)} else {})"

definition history_keys_of :: "index_scope \<Rightarrow> block_addition \<Rightarrow> key list" where
  "history_keys_of scope a =
     map (\<lambda>(t, address). history_key scope address (br_height (ct_block t)) (ct_id t))
       (history_entries (ba_transactions a))"

definition spent_keys_of :: "block_addition \<Rightarrow> output_key list" where
  "spent_keys_of a = oc_spent (ba_outputs a) @ oc_tracked_spends (ba_outputs a)"

text \<open>
  The index after a block was added to contents \<open>m\<close>: the block is the checkpoint and has a journal,
  its history and outputs are stored, what it spends is gone, and nothing else changed but the
  journal entry that fell out of the retention window.
\<close>

definition index_after :: "codecs \<Rightarrow> index_scope \<Rightarrow> block_addition \<Rightarrow> contents \<Rightarrow> contents \<Rightarrow> bool" where
  "index_after cs scope a m m' \<longleftrightarrow>
     record_at (block_codec cs) m' (checkpoint_key scope) = Some (block_from_domain (ba_block a)) \<and>
     map_option journal_block (record_at (journal_codec cs) m' (journal_key scope (br_height (ba_block a)))) =
       Some (ba_block a) \<and>
     (\<forall>(t, address) \<in> set (history_entries (ba_transactions a)).
        record_at (transaction_codec cs) m' (history_key scope address (br_height (ct_block t)) (ct_id t)) =
          Some (transaction_from_domain t)) \<and>
     (\<forall>x \<in> set (oc_created (ba_outputs a)).
        record_at (output_codec cs) m' (output_key_of scope (io_key x)) = Some (output_from_domain x)) \<and>
     (\<forall>k \<in> set (spent_keys_of a). m' (output_key_of scope k) = None) \<and>
     (\<forall>k. k \<notin> {checkpoint_key scope, journal_key scope (br_height (ba_block a))} \<union> pruned_keys scope a \<union>
            set (history_keys_of scope a) \<union>
            (\<lambda>x. output_key_of scope (io_key x)) ` set (oc_created (ba_outputs a)) \<union>
            output_key_of scope ` set (spent_keys_of a) \<longrightarrow> m' k = m k)"

text \<open>The strings of an addition have a length.\<close>

definition addition_sized :: "block_addition \<Rightarrow> bool" where
  "addition_sized a \<longleftrightarrow>
     scope_sized (ba_scope a) \<and>
     (\<forall>(t, address) \<in> set (history_entries (ba_transactions a)).
        sized (tr_value (ct_id t)) \<and> sized (ca_value address)) \<and>
     (\<forall>k \<in> io_key ` set (oc_created (ba_outputs a)) \<union> set (spent_keys_of a).
        sized (ca_value (ok_address k)) \<and> sized (tr_value (oi_transaction (ok_output k))))"

lemma addition_output_keys:
  assumes "addition_ok a" "addition_sized a" "ba_scope a = scope"
    and "k \<in> io_key ` set (oc_created (ba_outputs a)) \<union> set (spent_keys_of a)"
  shows "index_key_ok (OutputOf scope k)"
  using assms
  by (auto simp: addition_ok_def addition_sized_def changes_ok_def list_all_iff output_ok_def spend_ok_def
      io_key_def spent_keys_of_def)

lemma addition_history_keys:
  assumes "addition_ok a" "addition_sized a" "ba_scope a = scope" "(t, address) \<in> set (history_entries (ba_transactions a))"
  shows "index_key_ok (HistoryOf scope address (br_height (ct_block t)) (ct_id t))"
proof -
  have t: "t \<in> set (ba_transactions a)" "address \<in> set (ct_addresses t)"
    using assms(4) by (auto simp: history_entries_def)
  then have ok: "transaction_ok scope (ba_block a) t"
    using assms(1,3) by (auto simp: addition_ok_def list_all_iff)
  then have "ca_scope address = scope" "tr_scope (ct_id t) = scope"
    using transaction_ok_addresses [OF ok t(2)] by (simp_all add: transaction_ok_def)
  then show ?thesis using assms by (fastforce simp: addition_sized_def)
qed

lemma distinct_created:
  "addition_ok a \<Longrightarrow> x \<in> set (oc_created (ba_outputs a)) \<Longrightarrow> y \<in> set (oc_created (ba_outputs a)) \<Longrightarrow>
   io_key x = io_key y \<Longrightarrow> x = y"
  by (auto simp: addition_ok_def changes_ok_def distinct_map io_key_def dest: inj_onD)

lemma distinct_transactions:
  "addition_ok a \<Longrightarrow> t \<in> set (ba_transactions a) \<Longrightarrow> u \<in> set (ba_transactions a) \<Longrightarrow>
   ct_id t = ct_id u \<Longrightarrow> t = u"
  by (auto simp: addition_ok_def distinct_map dest: inj_onD)

section \<open>Reading through the interface\<close>

locale index_store =
  store inv view ver "so_get (rp_store repo)" "so_scan (rp_store repo)" "so_commit (rp_store repo)"
  for inv :: "'s \<Rightarrow> bool" and view :: "'s \<Rightarrow> store_view" and ver :: "'s \<Rightarrow> version"
    and repo :: "'s repository" +
  assumes codec_law: "inv s \<Longrightarrow> good_codecs (rp_codecs repo)"
begin

definition content :: "'s \<Rightarrow> contents" where
  "content s = vals (view s)"

definition quiet :: "('s, 'e, 'a) eff \<Rightarrow> bool" where
  "quiet m \<longleftrightarrow> (\<forall>s. inv s \<longrightarrow> inv (snd (m s)) \<and> view (snd (m s)) = view s \<and> ver (snd (m s)) = ver s)"

lemma quietD: "quiet m \<Longrightarrow> inv s \<Longrightarrow> m s = (r, s') \<Longrightarrow> inv s' \<and> view s' = view s \<and> ver s' = ver s"
  by (metis quiet_def snd_conv)

lemma quiet_basic [simp, intro]: "quiet (ret x)" "quiet (throw e)" "quiet (lift_result r)" "quiet (Pair r)"
  by (simp_all add: quiet_def)

lemma quiet_bind [intro]:
  assumes m: "quiet m" and f: "\<And>x. quiet (f x)"
  shows "quiet (bind_eff m f)"
  unfolding quiet_def
proof (intro allI impI)
  fix s
  assume inv: "inv s"
  obtain r t where run: "m s = (r, t)" by fastforce
  note t = quietD [OF m inv run]
  show "inv (snd (bind_eff m f s)) \<and> view (snd (bind_eff m f s)) = view s \<and> ver (snd (bind_eff m f s)) = ver s"
  proof (cases r)
    case (Inr x)
    have "inv (snd (f x t)) \<and> view (snd (f x t)) = view t \<and> ver (snd (f x t)) = ver t"
      using f t by (simp add: quiet_def)
    then show ?thesis using run Inr t by simp
  qed (use run t in simp)
qed

lemma quiet_get [simp, intro]: "quiet (repo_get repo c k)"
proof -
  have "quiet (store_call (so_get (rp_store repo) NAMESPACE k))"
    using get_law by (auto simp: quiet_def store_call_def) (metis prod.collapse)+
  then show ?thesis unfolding repo_get_def by (rule quiet_bind) simp
qed

text \<open>A successful read returns what is stored: nothing, or the decoded value with its version.\<close>

lemma repo_get_Ok:
  assumes "inv s" "repo_get repo c k s = (Ok x, s')"
  shows "case x of
      None \<Rightarrow> content s k = None
    | Some r \<Rightarrow> \<exists>bs. content s k = Some bs \<and> decode_record c bs = Ok (vr_value r)"
proof -
  obtain stored t where t: "so_get (rp_store repo) NAMESPACE k s = (stored, t)" by fastforce
  with assms(2) obtain v where v: "stored = Ok v"
      "transpose_map (\<lambda>v. and_then (decode_record c (sv_value v)) (\<lambda>r.
         Ok \<lparr>vr_value = r, vr_version = sv_version v\<rparr>)) v = Ok x"
    by (auto simp: repo_get_def bind_eff_Ok_iff store_call_def map_err_def split: sum.splits)
  have eq: "view s (NAMESPACE, k) = v" using get_law [OF assms(1) t] v(1) by blast
  show ?thesis using v(2) by (cases v) (auto simp: content_def vals_def eq result_simps)
qed

section \<open>The parts of an added block\<close>

abbreviation hkey :: "canonical_transaction \<times> canonical_address \<Rightarrow> key" where
  "hkey e \<equiv> history_key (rp_scope repo) (snd e) (br_height (ct_block (fst e))) (ct_id (fst e))"

abbreviation okey :: "output_key \<Rightarrow> key" where
  "okey k \<equiv> output_key_of (rp_scope repo) k"

definition ops_of :: "write_batch \<Rightarrow> (key \<times> bytes option) list" where
  "ops_of batch = map update_of (wb_operations batch)"

definition batch_ok :: "write_batch \<Rightarrow> bool" where
  "batch_ok batch \<longleftrightarrow> list_all in_namespace (wb_operations batch)"

lemma batch_simps [simp]:
  "ops_of empty_batch = []"
  "batch_ok empty_batch"
  "ops_of (expect batch k v) = ops_of batch"
  "batch_ok (expect batch k v) = batch_ok batch"
  "ops_of (batch_delete batch k) = ops_of batch @ [(k, None)]"
  "batch_ok (batch_delete batch k) = batch_ok batch"
  by (simp_all add: ops_of_def batch_ok_def empty_batch_def expect_def batch_delete_def in_namespace_def)

lemma batch_put_Ok:
  "batch_put c batch k v = Ok batch' \<longleftrightarrow>
     (\<exists>bs. encode_record c v = Ok bs \<and>
        batch' = batch\<lparr>wb_operations := wb_operations batch @ [Put NAMESPACE k bs]\<rparr>)"
  by (auto simp: batch_put_def result_simps)

lemma batch_put_ops:
  assumes "batch_put c batch k v = Ok batch'"
  shows "\<exists>bs. encode_record c v = Ok bs \<and> ops_of batch' = ops_of batch @ [(k, Some bs)] \<and>
    batch_ok batch' = batch_ok batch"
  using assms by (auto simp: batch_put_Ok ops_of_def batch_ok_def in_namespace_def)

lemma add_history_quiet [simp, intro]: "quiet (add_history repo es batch keys)"
proof (induction es arbitrary: batch keys)
  case (Cons e es)
  then show ?case by (cases e) (auto simp: Let_def intro!: quiet_bind)
qed simp

lemma add_outputs_quiet [simp, intro]: "quiet (add_outputs repo os batch keys)"
  by (induction os arbitrary: batch keys) (auto simp: Let_def intro!: quiet_bind)

lemma spend_outputs_quiet [simp, intro]: "quiet (spend_outputs repo ks batch rs)"
proof (induction ks arbitrary: batch rs)
  case (Cons k ks)
  then show ?case by (cases k) (auto simp: Let_def intro!: quiet_bind split: option.splits)
qed simp

text \<open>Every history entry was absent and is put.\<close>

lemma add_history_Ok:
  assumes "inv s" "add_history repo es batch keys s = (Ok (batch', keys'), s')"
  shows "\<exists>us. ops_of batch' = ops_of batch @ us \<and> map fst us = map hkey es \<and>
    keys' = keys @ map hkey es \<and> batch_ok batch' = batch_ok batch \<and>
    list_all (\<lambda>e. content s (hkey e) = None) es \<and>
    list_all2 (\<lambda>e u. \<exists>bs. encode_record (transaction_codec (rp_codecs repo)) (transaction_from_domain (fst e)) = Ok bs \<and>
       snd u = Some bs) es us"
  using assms
proof (induction es arbitrary: batch keys s)
  case (Cons e es)
  obtain t a where e: "e = (t, a)" by fastforce
  from Cons.prems(2) obtain s1 batch1 where
      get: "repo_get repo (transaction_codec (rp_codecs repo)) (hkey e) s = (Ok None, s1)"
    and put: "batch_put (transaction_codec (rp_codecs repo))
        (expect batch (hkey e) (None :: transaction_record versioned_record option)) (hkey e)
        (transaction_from_domain t) = Ok batch1"
    and rest: "add_history repo es batch1 (keys @ [hkey e]) s1 = (Ok (batch', keys'), s')"
    by (auto simp: e Let_def bind_eff_Ok_iff split: if_splits)
  note s1 = quietD [OF quiet_get Cons.prems(1) get]
  from repo_get_Ok [OF Cons.prems(1) get] have absent: "content s (hkey e) = None" by simp
  from batch_put_ops [OF put] obtain bs where
      bs: "encode_record (transaction_codec (rp_codecs repo)) (transaction_from_domain t) = Ok bs"
      "ops_of batch1 = ops_of batch @ [(hkey e, Some bs)]" "batch_ok batch1 = batch_ok batch"
    by auto
  from s1 have c1: "content s1 = content s" by (simp add: content_def)
  from Cons.IH [OF _ rest] s1 obtain us where
      us: "ops_of batch' = ops_of batch1 @ us" "map fst us = map hkey es"
      "keys' = (keys @ [hkey e]) @ map hkey es" "batch_ok batch' = batch_ok batch1"
      "list_all (\<lambda>e. content s (hkey e) = None) es"
      "list_all2 (\<lambda>e u. \<exists>bs. encode_record (transaction_codec (rp_codecs repo)) (transaction_from_domain (fst e)) = Ok bs \<and>
         snd u = Some bs) es us"
    unfolding c1 by blast
  show ?case
    by (rule exI [of _ "(hkey e, Some bs) # us"]) (use us bs absent in \<open>simp add: e\<close>)
qed simp

text \<open>Every created output was absent and is put.\<close>

lemma add_outputs_Ok:
  assumes "inv s" "add_outputs repo os batch keys s = (Ok (batch', keys'), s')"
  shows "\<exists>us. ops_of batch' = ops_of batch @ us \<and> map fst us = map (\<lambda>x. okey (io_key x)) os \<and>
    keys' = keys @ map (\<lambda>x. okey (io_key x)) os \<and> batch_ok batch' = batch_ok batch \<and>
    list_all (\<lambda>x. content s (okey (io_key x)) = None) os \<and>
    list_all2 (\<lambda>x u. \<exists>bs. encode_record (output_codec (rp_codecs repo)) (output_from_domain x) = Ok bs \<and>
       snd u = Some bs) os us"
  using assms
proof (induction os arbitrary: batch keys s)
  case (Cons x os)
  from Cons.prems(2) obtain s1 batch1 where
      get: "repo_get repo (output_codec (rp_codecs repo)) (okey (io_key x)) s = (Ok None, s1)"
    and put: "batch_put (output_codec (rp_codecs repo))
        (expect batch (okey (io_key x)) (None :: output_record versioned_record option)) (okey (io_key x))
        (output_from_domain x) = Ok batch1"
    and rest: "add_outputs repo os batch1 (keys @ [okey (io_key x)]) s1 = (Ok (batch', keys'), s')"
    by (auto simp: Let_def bind_eff_Ok_iff split: if_splits)
  note s1 = quietD [OF quiet_get Cons.prems(1) get]
  from repo_get_Ok [OF Cons.prems(1) get] have absent: "content s (okey (io_key x)) = None" by simp
  from batch_put_ops [OF put] obtain bs where
      bs: "encode_record (output_codec (rp_codecs repo)) (output_from_domain x) = Ok bs"
      "ops_of batch1 = ops_of batch @ [(okey (io_key x), Some bs)]" "batch_ok batch1 = batch_ok batch"
    by auto
  from s1 have c1: "content s1 = content s" by (simp add: content_def)
  from Cons.IH [OF _ rest] s1 obtain us where
      us: "ops_of batch' = ops_of batch1 @ us" "map fst us = map (\<lambda>x. okey (io_key x)) os"
      "keys' = (keys @ [okey (io_key x)]) @ map (\<lambda>x. okey (io_key x)) os" "batch_ok batch' = batch_ok batch1"
      "list_all (\<lambda>x. content s (okey (io_key x)) = None) os"
      "list_all2 (\<lambda>x u. \<exists>bs. encode_record (output_codec (rp_codecs repo)) (output_from_domain x) = Ok bs \<and>
         snd u = Some bs) os us"
    unfolding c1 by blast
  show ?case
    by (rule exI [of _ "(okey (io_key x), Some bs) # us"]) (use us bs absent in simp)
qed simp

text \<open>
  Every spend that is recorded was stored, is deleted, and is kept with its stored value; a
  required one is always recorded.
\<close>

lemma spend_outputs_Ok:
  assumes "inv s" "spend_outputs repo ks batch rs s = (Ok (batch', rs'), s')"
  shows "\<exists>new. ops_of batch' = ops_of batch @ map (\<lambda>r. (ro_key r, None)) new \<and> rs' = rs @ new \<and>
    batch_ok batch' = batch_ok batch \<and>
    map ro_key new = map (\<lambda>(k, q). okey k) (filter (\<lambda>(k, q). content s (okey k) \<noteq> None) ks) \<and>
    list_all (\<lambda>r. \<exists>bs. content s (ro_key r) = Some bs \<and>
       decode_record (output_codec (rp_codecs repo)) bs = Ok (ro_value r)) new \<and>
    list_all (\<lambda>(k, q). q \<longrightarrow> content s (okey k) \<noteq> None) ks"
  using assms
proof (induction ks arbitrary: batch rs s)
  case (Cons kq ks)
  obtain k q where kq: "kq = (k, q)" by fastforce
  from Cons.prems(2) obtain existing s1 where
      get: "repo_get repo (output_codec (rp_codecs repo)) (okey k) s = (Ok existing, s1)"
    and rest: "(case existing of
        None \<Rightarrow> if q then throw unknown_output_error else spend_outputs repo ks batch rs
      | Some record \<Rightarrow> spend_outputs repo ks (batch_delete (expect batch (okey k) existing) (okey k))
          (rs @ [\<lparr>ro_key = okey k, ro_value = vr_value record\<rparr>])) s1 = (Ok (batch', rs'), s')"
    by (auto simp: kq Let_def bind_eff_Ok_iff)
  note s1 = quietD [OF quiet_get Cons.prems(1) get]
  from s1 have c1: "content s1 = content s" by (simp add: content_def)
  note found = repo_get_Ok [OF Cons.prems(1) get]
  show ?case
  proof (cases existing)
    case None
    then have q: "\<not> q" and run: "spend_outputs repo ks batch rs s1 = (Ok (batch', rs'), s')"
      using rest by (auto split: if_splits)
    from Cons.IH [OF _ run] s1 show ?thesis
      using q None found unfolding c1 by (simp add: kq)
  next
    case (Some r)
    then have run: "spend_outputs repo ks (batch_delete (expect batch (okey k) existing) (okey k))
        (rs @ [\<lparr>ro_key = okey k, ro_value = vr_value r\<rparr>]) s1 = (Ok (batch', rs'), s')"
      using rest by simp
    from Cons.IH [OF _ run] s1 obtain new where
        new: "ops_of batch' = (ops_of batch @ [(okey k, None)]) @ map (\<lambda>r. (ro_key r, None)) new"
        "rs' = (rs @ [\<lparr>ro_key = okey k, ro_value = vr_value r\<rparr>]) @ new" "batch_ok batch' = batch_ok batch"
        "map ro_key new = map (\<lambda>(k, q). okey k) (filter (\<lambda>(k, q). content s (okey k) \<noteq> None) ks)"
        "list_all (\<lambda>r. \<exists>bs. content s (ro_key r) = Some bs \<and>
           decode_record (output_codec (rp_codecs repo)) bs = Ok (ro_value r)) new"
        "list_all (\<lambda>(k, q). q \<longrightarrow> content s (okey k) \<noteq> None) ks"
      unfolding c1 batch_simps by blast
    show ?thesis
      by (rule exI [of _ "\<lparr>ro_key = okey k, ro_value = vr_value r\<rparr> # new"])
         (use new found Some in \<open>auto simp: kq\<close>)
  qed
qed simp

section \<open>Adding a block\<close>

abbreviation ckey :: key where
  "ckey \<equiv> checkpoint_key (rp_scope repo)"

abbreviation jkey :: "block_height \<Rightarrow> key" where
  "jkey h \<equiv> journal_key (rp_scope repo) h"

definition prune_ops :: "block_addition \<Rightarrow> (key \<times> bytes option) list" where
  "prune_ops a =
     (if ba_retention a \<le> br_height (ba_block a)
      then [(jkey (br_height (ba_block a) - ba_retention a), None)] else [])"

definition spend_keys :: "block_addition \<Rightarrow> (output_key \<times> bool) list" where
  "spend_keys a =
     map (\<lambda>k. (k, True)) (oc_spent (ba_outputs a)) @ map (\<lambda>k. (k, False)) (oc_tracked_spends (ba_outputs a))"

text \<open>The checkpoint the contents hold is the given one.\<close>

definition checkpoint_is :: "contents \<Rightarrow> block_ref option \<Rightarrow> bool" where
  "checkpoint_is m b \<longleftrightarrow>
     (case b of
        None \<Rightarrow> m ckey = None
      | Some c \<Rightarrow> \<exists>bs. m ckey = Some bs \<and>
          decode_record (block_codec (rp_codecs repo)) bs = Ok (block_from_domain c))"

text \<open>
  The updates of an addition: history and created outputs, which were absent, the deletion of every
  stored output that is spent, the journal that records all of it, the checkpoint, and the pruning.
\<close>

definition added_ops :: "block_addition \<Rightarrow> (key \<times> bytes option) list \<Rightarrow> journal_record \<Rightarrow> bool" where
  "added_ops a us j \<longleftrightarrow>
     (\<exists>hs os jb cb.
        us = hs @ os @ map (\<lambda>r. (ro_key r, None)) (jr_restore_outputs j) @
          [(jkey (br_height (ba_block a)), Some jb), (ckey, Some cb)] @ prune_ops a \<and>
        map fst hs = jr_history_keys j \<and> map fst os = jr_remove_output_keys j \<and>
        list_all2 (\<lambda>e u. \<exists>bs. encode_record (transaction_codec (rp_codecs repo)) (transaction_from_domain (fst e)) = Ok bs \<and>
          snd u = Some bs) (history_entries (ba_transactions a)) hs \<and>
        list_all2 (\<lambda>x u. \<exists>bs. encode_record (output_codec (rp_codecs repo)) (output_from_domain x) = Ok bs \<and>
          snd u = Some bs) (oc_created (ba_outputs a)) os \<and>
        encode_record (journal_codec (rp_codecs repo)) j = Ok jb \<and>
        encode_record (block_codec (rp_codecs repo)) (block_from_domain (ba_block a)) = Ok cb)"

definition journal_of :: "block_addition \<Rightarrow> contents \<Rightarrow> journal_record \<Rightarrow> bool" where
  "journal_of a m j \<longleftrightarrow>
     jr_block j = block_from_domain (ba_block a) \<and>
     jr_previous_checkpoint j = map_option block_from_domain (ba_expected_checkpoint a) \<and>
     jr_history_keys j = map hkey (history_entries (ba_transactions a)) \<and>
     jr_remove_output_keys j = map (\<lambda>x. okey (io_key x)) (oc_created (ba_outputs a)) \<and>
     map ro_key (jr_restore_outputs j) =
       map (\<lambda>(k, q). okey k) (filter (\<lambda>(k, q). m (okey k) \<noteq> None) (spend_keys a)) \<and>
     list_all (\<lambda>r. \<exists>bs. m (ro_key r) = Some bs \<and>
       decode_record (output_codec (rp_codecs repo)) bs = Ok (ro_value r)) (jr_restore_outputs j)"

definition added :: "block_addition \<Rightarrow> contents \<Rightarrow> (key \<times> bytes option) list \<Rightarrow> journal_record \<Rightarrow> bool" where
  "added a m us j \<longleftrightarrow>
     added_ops a us j \<and> journal_of a m j \<and>
     list_all (\<lambda>k. m (okey k) \<noteq> None) (oc_spent (ba_outputs a)) \<and>
     list_all (\<lambda>k. m k = None) (jr_history_keys j @ jr_remove_output_keys j) \<and>
     m (jkey (br_height (ba_block a))) = None \<and> checkpoint_is m (ba_expected_checkpoint a)"

text \<open>Everything before the commit only reads.\<close>

definition prepare_block :: "block_addition \<Rightarrow> ('s, index_error, block_outcome + write_batch) eff" where
  "prepare_block addition =
     bind_eff (lift_result (check_scope repo (ba_scope addition))) (\<lambda>_.
     let ck = ckey; jk = jkey (br_height (ba_block addition)) in
     bind_eff (repo_get repo (block_codec (rp_codecs repo)) ck) (\<lambda>checkpoint.
     let current = map_option (\<lambda>stored. block_into_domain (vr_value stored)) checkpoint in
     bind_eff (repo_get repo (journal_codec (rp_codecs repo)) jk) (\<lambda>journal.
     if current = Some (ba_block addition) then
       lift_result
         (case journal of
            Some stored \<Rightarrow>
              if journal_block (vr_value stored) = ba_block addition then Ok (Inl AlreadyApplied)
              else Err checkpoint_journal_error
          | None \<Rightarrow> Err checkpoint_journal_error)
     else if journal \<noteq> None then throw retained_block_error
     else if current \<noteq> ba_expected_checkpoint addition then throw checkpoint_changed_error
     else
       let batch = expect (expect empty_batch ck checkpoint) jk (None :: journal_record versioned_record option) in
       bind_eff (add_history repo (history_entries (ba_transactions addition)) batch []) (\<lambda>(batch, history_keys).
       bind_eff (add_outputs repo (oc_created (ba_outputs addition)) batch []) (\<lambda>(batch, remove_output_keys).
       bind_eff (spend_outputs repo (spend_keys addition) batch []) (\<lambda>(batch, restore_outputs).
       let journal = \<lparr>jr_block = block_from_domain (ba_block addition),
             jr_previous_checkpoint = map_option block_from_domain (ba_expected_checkpoint addition),
             jr_history_keys = history_keys, jr_remove_output_keys = remove_output_keys,
             jr_restore_outputs = restore_outputs\<rparr> in
       bind_eff (lift_result (batch_put (journal_codec (rp_codecs repo)) batch jk journal)) (\<lambda>batch.
       bind_eff (lift_result
         (batch_put (block_codec (rp_codecs repo)) batch ck (block_from_domain (ba_block addition)))) (\<lambda>batch.
       ret (Inr
         (if ba_retention addition \<le> br_height (ba_block addition)
          then batch_delete batch (jkey (br_height (ba_block addition) - ba_retention addition))
          else batch)))))))))) "

definition finish_block :: "block_outcome + write_batch \<Rightarrow> ('s, index_error, block_outcome) eff" where
  "finish_block p =
     (case p of
        Inl outcome \<Rightarrow> ret outcome
      | Inr batch \<Rightarrow> bind_eff (store_call (so_commit (rp_store repo) batch)) (\<lambda>_. ret Applied))"

lemma bind_distrib:
  "bind_eff (if c then m1 else m2) f = (if c then bind_eff m1 f else bind_eff m2 f)"
  "bind_eff (case x of (y, z) \<Rightarrow> g y z) f = (case x of (y, z) \<Rightarrow> bind_eff (g y z) f)"
  by (simp_all split: prod.splits)

lemma finish_applied:
  "bind_eff (lift_result
     (case journal of
        Some stored \<Rightarrow> if P stored then Ok (Inl AlreadyApplied) else Err e1
      | None \<Rightarrow> Err e2)) finish_block =
   lift_result
     (case journal of Some stored \<Rightarrow> if P stored then Ok AlreadyApplied else Err e1 | None \<Rightarrow> Err e2)"
  by (auto simp: fun_eq_iff bind_eff_apply finish_block_def split: option.splits)

lemma finish_Inr:
  "finish_block (Inr batch) = bind_eff (store_call (so_commit (rp_store repo) batch)) (\<lambda>_. ret Applied)"
  by (simp add: finish_block_def)

lemma write_block_prepare: "write_block repo a = bind_eff (prepare_block a) finish_block"
  unfolding write_block_def prepare_block_def spend_keys_def [symmetric] Let_def
  by (simp only: bind_eff_assoc bind_distrib finish_applied bind_eff_throw bind_eff_ret finish_Inr)

lemma prepare_block_quiet [simp, intro]: "quiet (prepare_block a)"
  unfolding prepare_block_def Let_def
  by (auto intro!: quiet_bind split: option.splits)

lemma checkpoint_read:
  assumes "inv s" "repo_get repo (block_codec (rp_codecs repo)) ckey s = (Ok checkpoint, s1)"
  shows "checkpoint_is (content s) (map_option (\<lambda>stored. block_into_domain (vr_value stored)) checkpoint)"
  using repo_get_Ok [OF assms] by (cases checkpoint) (auto simp: checkpoint_is_def)

lemma prepare_block_Inr:
  assumes inv: "inv s" and run: "prepare_block a s = (Ok (Inr batch), s')"
  shows "batch_ok batch \<and> (\<exists>j. added a (content s) (ops_of batch) j)"
proof -
  let ?cs = "rp_codecs repo" and ?h = "br_height (ba_block a)"
  from run obtain checkpoint s1 s2 b1 hk s3 b2 ok s4 b3 rs s5 b4 b5 where
      ck: "repo_get repo (block_codec ?cs) ckey s = (Ok checkpoint, s1)"
    and jk: "repo_get repo (journal_codec ?cs) (jkey ?h) s1 = (Ok None, s2)"
    and expected: "map_option (\<lambda>stored. block_into_domain (vr_value stored)) checkpoint = ba_expected_checkpoint a"
    and h: "add_history repo (history_entries (ba_transactions a))
        (expect (expect empty_batch ckey checkpoint) (jkey ?h) (None :: journal_record versioned_record option)) [] s2 =
        (Ok (b1, hk), s3)"
    and o: "add_outputs repo (oc_created (ba_outputs a)) b1 [] s3 = (Ok (b2, ok), s4)"
    and sp: "spend_outputs repo (spend_keys a) b2 [] s4 = (Ok (b3, rs), s5)"
    and j: "batch_put (journal_codec ?cs) b3 (jkey ?h) \<lparr>jr_block = block_from_domain (ba_block a),
        jr_previous_checkpoint = map_option block_from_domain (ba_expected_checkpoint a),
        jr_history_keys = hk, jr_remove_output_keys = ok, jr_restore_outputs = rs\<rparr> = Ok b4"
    and c: "batch_put (block_codec ?cs) b4 ckey (block_from_domain (ba_block a)) = Ok b5"
    and batch: "batch = (if ba_retention a \<le> ?h then batch_delete b5 (jkey (?h - ba_retention a)) else b5)"
    unfolding prepare_block_def Let_def
    by (auto simp: bind_eff_Ok_iff split: if_splits option.splits)
  let ?j = "\<lparr>jr_block = block_from_domain (ba_block a),
        jr_previous_checkpoint = map_option block_from_domain (ba_expected_checkpoint a),
        jr_history_keys = hk, jr_remove_output_keys = ok, jr_restore_outputs = rs\<rparr>"
  note s1 = quietD [OF quiet_get inv ck]
  then have inv1: "inv s1" by simp
  note s2 = quietD [OF quiet_get inv1 jk]
  then have inv2: "inv s2" by simp
  note s3 = quietD [OF add_history_quiet inv2 h]
  then have inv3: "inv s3" by simp
  note s4 = quietD [OF add_outputs_quiet inv3 o]
  then have inv4: "inv s4" by simp
  have same: "content s1 = content s" "content s2 = content s" "content s3 = content s" "content s4 = content s"
    using s1 s2 s3 s4 by (simp_all add: content_def)
  from add_history_Ok [OF inv2 h, unfolded same batch_simps] obtain hs where
      hs: "ops_of b1 = hs" "map fst hs = map hkey (history_entries (ba_transactions a))"
      "hk = map hkey (history_entries (ba_transactions a))" "batch_ok b1"
      "list_all (\<lambda>e. content s (hkey e) = None) (history_entries (ba_transactions a))"
      "list_all2 (\<lambda>e u. \<exists>bs. encode_record (transaction_codec ?cs) (transaction_from_domain (fst e)) = Ok bs \<and>
         snd u = Some bs) (history_entries (ba_transactions a)) hs"
    by auto
  from add_outputs_Ok [OF inv3 o, unfolded same] hs obtain os where
      os: "ops_of b2 = hs @ os" "map fst os = map (\<lambda>x. okey (io_key x)) (oc_created (ba_outputs a))"
      "ok = map (\<lambda>x. okey (io_key x)) (oc_created (ba_outputs a))" "batch_ok b2"
      "list_all (\<lambda>x. content s (okey (io_key x)) = None) (oc_created (ba_outputs a))"
      "list_all2 (\<lambda>x u. \<exists>bs. encode_record (output_codec ?cs) (output_from_domain x) = Ok bs \<and>
         snd u = Some bs) (oc_created (ba_outputs a)) os"
    by auto
  from spend_outputs_Ok [OF inv4 sp, unfolded same] os have
      rs: "ops_of b3 = hs @ os @ map (\<lambda>r. (ro_key r, None)) rs" "batch_ok b3"
      "map ro_key rs = map (\<lambda>(k, q). okey k) (filter (\<lambda>(k, q). content s (okey k) \<noteq> None) (spend_keys a))"
      "list_all (\<lambda>r. \<exists>bs. content s (ro_key r) = Some bs \<and> decode_record (output_codec ?cs) bs = Ok (ro_value r)) rs"
      "list_all (\<lambda>(k, q). q \<longrightarrow> content s (okey k) \<noteq> None) (spend_keys a)"
    by auto
  from batch_put_ops [OF j] obtain jb where
      jb: "encode_record (journal_codec ?cs) ?j = Ok jb" "ops_of b4 = ops_of b3 @ [(jkey ?h, Some jb)]" "batch_ok b4"
    using rs(2) by auto
  from batch_put_ops [OF c] obtain cb where
      cb: "encode_record (block_codec ?cs) (block_from_domain (ba_block a)) = Ok cb"
      "ops_of b5 = ops_of b4 @ [(ckey, Some cb)]" "batch_ok b5"
    using jb(3) by auto
  have ops: "ops_of batch = hs @ os @ map (\<lambda>r. (ro_key r, None)) rs @
      [(jkey ?h, Some jb), (ckey, Some cb)] @ prune_ops a"
    using cb(2) jb(2) rs(1) by (simp add: batch prune_ops_def)
  have cp: "checkpoint_is (content s) (ba_expected_checkpoint a)"
    using checkpoint_read [OF inv ck] unfolding expected .
  have jn: "content s (jkey ?h) = None" using repo_get_Ok [OF inv1 jk] same by simp
  have spent: "list_all (\<lambda>k. content s (okey k) \<noteq> None) (oc_spent (ba_outputs a))"
    using rs(5) by (auto simp: spend_keys_def list_all_iff)
  have absent: "list_all (\<lambda>k. content s k = None) (hk @ ok)"
    using hs(3,5) os(3,5) by (auto simp: list_all_iff)
  have "added_ops a (ops_of batch) ?j"
    unfolding added_ops_def
    by (rule exI [of _ hs], rule exI [of _ os], rule exI [of _ jb], rule exI [of _ cb])
       (use ops hs(2,3,6) os(2,3,6) jb(1) cb(1) in simp)
  moreover have "journal_of a (content s) ?j"
    unfolding journal_of_def using hs(3) os(3) rs(3,4) by simp
  ultimately have "added a (content s) (ops_of batch) ?j"
    unfolding added_def using spent absent jn cp by simp
  moreover have "batch_ok batch" using cb(3) by (simp add: batch)
  ultimately show ?thesis by blast
qed

text \<open>The block an addition reports as already applied is the checkpoint.\<close>

lemma prepare_block_Inl:
  assumes inv: "inv s" and run: "prepare_block a s = (Ok (Inl outcome), s')"
  shows "outcome = AlreadyApplied \<and> checkpoint_is (content s) (Some (ba_block a))"
proof -
  from run obtain checkpoint s1 where
      ck: "repo_get repo (block_codec (rp_codecs repo)) ckey s = (Ok checkpoint, s1)"
    and block: "map_option (\<lambda>stored. block_into_domain (vr_value stored)) checkpoint = Some (ba_block a)"
    and o: "outcome = AlreadyApplied"
    unfolding prepare_block_def Let_def
    by (auto simp: bind_eff_Ok_iff split: if_splits option.splits)
  show ?thesis using checkpoint_read [OF inv ck] o unfolding block by blast
qed

definition block_added :: "block_addition \<Rightarrow> 's \<Rightarrow> 's \<Rightarrow> bool" where
  "block_added a s s' \<longleftrightarrow> (\<exists>us j. added a (content s) us j \<and> content s' = updated us (content s))"

lemma committed_content:
  assumes "committed view ver batch s s'" "batch_ok batch"
  shows "content s' = updated (ops_of batch) (content s)"
  using assms vals_apply_view [of "wb_operations batch" "ver s'" "view s"]
  by (simp add: committed_def content_def batch_ok_def ops_of_def)

lemma store_commit_law:
  assumes "inv s" "store_call (so_commit (rp_store repo) batch) s = (r, s')" "batch_ok batch"
  shows "inv s' \<and>
    (case r of
       Ok n \<Rightarrow> content s' = updated (ops_of batch) (content s)
     | Err e \<Rightarrow> view s' = view s \<or>
         ie_kind e = StoreFailure \<and> ie_retryable e \<and> content s' = updated (ops_of batch) (content s))"
proof -
  obtain cr where cr: "so_commit (rp_store repo) batch s = (cr, s')" "r = map_err index_storage_error cr"
    using assms(2) by (auto simp: store_call_def map_prod_def split: prod.splits)
  from commit_law [OF assms(1) cr(1)] show ?thesis
    using committed_content [OF _ assms(3)] cr(2)
    by (cases cr) (auto simp: index_storage_error_def split: store_error_kind.splits)
qed

lemma write_block_law:
  assumes inv: "inv s" and run: "write_block repo a s = (r, s')"
  shows "inv s' \<and>
    (case r of
       Ok AlreadyApplied \<Rightarrow> view s' = view s \<and> checkpoint_is (content s) (Some (ba_block a))
     | Ok Applied \<Rightarrow> block_added a s s'
     | Err e \<Rightarrow> view s' = view s \<or> ie_kind e = StoreFailure \<and> ie_retryable e \<and> block_added a s s')"
proof -
  obtain pr s1 where p: "prepare_block a s = (pr, s1)" by fastforce
  note s1 = quietD [OF prepare_block_quiet inv p]
  then have inv1: "inv s1" and c1: "content s1 = content s" by (simp_all add: content_def)
  show ?thesis
  proof (cases pr)
    case (Inl e)
    then show ?thesis using run p s1 by (auto simp: write_block_prepare)
  next
    case (Inr y)
    show ?thesis
    proof (cases y)
      case (Inl outcome)
      then show ?thesis
        using run p Inr s1 prepare_block_Inl [OF inv, of a outcome s1]
        by (auto simp: write_block_prepare finish_block_def)
    next
      case batch: (Inr batch)
      from prepare_block_Inr [OF inv, of a batch s1] p Inr batch obtain j where
          j: "batch_ok batch" "added a (content s) (ops_of batch) j" by auto
      obtain cr s2 where com: "store_call (so_commit (rp_store repo) batch) s1 = (cr, s2)" by fastforce
      have r: "s' = s2" "r = (case cr of Err e \<Rightarrow> Err e | Ok _ \<Rightarrow> Ok Applied)"
        using run p Inr batch com
        by (auto simp: write_block_prepare finish_block_def bind_eff_apply split: sum.splits)
      have added: "block_added a s s'" if "content s' = updated (ops_of batch) (content s)"
        using j(2) that by (auto simp: block_added_def)
      from store_commit_law [OF inv1 com j(1)] show ?thesis
        using r added s1 unfolding c1 by (cases cr) auto
    qed
  qed
qed

section \<open>Removing the tip\<close>

lemma remove_history_quiet [simp, intro]: "quiet (remove_history repo scope keys batch)"
  by (induction keys arbitrary: batch) (auto intro!: quiet_bind)

lemma remove_outputs_quiet [simp, intro]: "quiet (remove_outputs repo scope keys batch)"
  by (induction keys arbitrary: batch) (auto intro!: quiet_bind)

lemma restore_outputs_quiet [simp, intro]: "quiet (restore_outputs repo scope rs batch)"
  by (induction rs arbitrary: batch) (auto simp: Let_def intro!: quiet_bind)

lemma remove_history_Ok:
  "remove_history repo scope keys batch s = (Ok batch', s') \<Longrightarrow>
   ops_of batch' = ops_of batch @ map (\<lambda>k. (k, None)) keys \<and> batch_ok batch' = batch_ok batch \<and>
   list_all (is_history scope) keys"
proof (induction keys arbitrary: batch s)
  case (Cons k keys)
  then obtain batch1 s1 where "remove_history repo scope keys batch1 s1 = (Ok batch', s')"
      "ops_of batch1 = ops_of batch @ [(k, None)]" "batch_ok batch1 = batch_ok batch" "is_history scope k"
    by (auto simp: bind_eff_Ok_iff split: if_splits)
  with Cons.IH show ?case by fastforce
qed simp

lemma remove_outputs_Ok:
  "remove_outputs repo scope keys batch s = (Ok batch', s') \<Longrightarrow>
   ops_of batch' = ops_of batch @ map (\<lambda>k. (k, None)) keys \<and> batch_ok batch' = batch_ok batch \<and>
   list_all (is_output scope) keys"
proof (induction keys arbitrary: batch s)
  case (Cons k keys)
  then obtain batch1 s1 where "remove_outputs repo scope keys batch1 s1 = (Ok batch', s')"
      "ops_of batch1 = ops_of batch @ [(k, None)]" "batch_ok batch1 = batch_ok batch" "is_output scope k"
    by (auto simp: bind_eff_Ok_iff split: if_splits)
  with Cons.IH show ?case by fastforce
qed simp

definition restores :: "restored_output list \<Rightarrow> (key \<times> bytes option) list \<Rightarrow> bool" where
  "restores rs us \<longleftrightarrow>
     list_all2 (\<lambda>r u. fst u = ro_key r \<and>
       (\<exists>bs. encode_record (output_codec (rp_codecs repo)) (ro_value r) = Ok bs \<and> snd u = Some bs)) rs us"

text \<open>What is restored was checked: a valid output under its own key.\<close>

definition restore_checked :: "index_scope \<Rightarrow> restored_output \<Rightarrow> bool" where
  "restore_checked scope r \<longleftrightarrow>
     is_output scope (ro_key r) \<and>
     (\<exists>x. output_into_domain (ro_value r) = Ok x \<and> output_key_of scope (io_key x) = ro_key r)"

lemma restore_outputs_Ok:
  "restore_outputs repo scope rs batch s = (Ok batch', s') \<Longrightarrow>
   \<exists>us. restores rs us \<and> ops_of batch' = ops_of batch @ us \<and> batch_ok batch' = batch_ok batch \<and>
     list_all (restore_checked scope) rs"
proof (induction rs arbitrary: batch s)
  case (Cons r rs)
  then obtain batch1 s1 where rest: "restore_outputs repo scope rs batch1 s1 = (Ok batch', s')"
      and put: "batch_put (output_codec (rp_codecs repo))
        (expect batch (ro_key r) (None :: output_record versioned_record option)) (ro_key r) (ro_value r) = Ok batch1"
      and checked: "restore_checked scope r"
    by (auto simp: bind_eff_Ok_iff Let_def restore_checked_def split: if_splits)
  from batch_put_ops [OF put] obtain bs where
      bs: "encode_record (output_codec (rp_codecs repo)) (ro_value r) = Ok bs"
      "ops_of batch1 = ops_of batch @ [(ro_key r, Some bs)]" "batch_ok batch1 = batch_ok batch"
    by auto
  from Cons.IH [OF rest] obtain us where
      us: "restores rs us" "ops_of batch' = ops_of batch1 @ us" "batch_ok batch' = batch_ok batch1"
      "list_all (restore_checked scope) rs"
    by blast
  show ?case
    by (rule exI [of _ "(ro_key r, Some bs) # us"]) (use us bs checked in \<open>simp add: restores_def\<close>)
qed (simp add: restores_def)

text \<open>The updates of a removal, as the journal of the tip dictates them.\<close>

definition removal_ops ::
  "block_ref \<Rightarrow> journal_record \<Rightarrow> (key \<times> bytes option) list \<Rightarrow> bytes option \<Rightarrow> (key \<times> bytes option) list" where
  "removal_ops tip j us previous =
     map (\<lambda>k. (k, None)) (jr_history_keys j) @ map (\<lambda>k. (k, None)) (jr_remove_output_keys j) @ us @
     [(jkey (br_height tip), None), (ckey, previous)]"

definition removes :: "block_ref \<Rightarrow> contents \<Rightarrow> (key \<times> bytes option) list \<Rightarrow> block_ref option \<Rightarrow> bool" where
  "removes tip m ops restored \<longleftrightarrow>
     (\<exists>j jb us previous.
        m (jkey (br_height tip)) = Some jb \<and> decode_record (journal_codec (rp_codecs repo)) jb = Ok j \<and>
        journal_block j = tip \<and> checkpoint_is m (Some tip) \<and> restores (jr_restore_outputs j) us \<and>
        list_all (is_history (rp_scope repo)) (jr_history_keys j) \<and>
        list_all (is_output (rp_scope repo)) (jr_remove_output_keys j) \<and>
        list_all (restore_checked (rp_scope repo)) (jr_restore_outputs j) \<and>
        (case jr_previous_checkpoint j of
           None \<Rightarrow> previous = None
         | Some r \<Rightarrow> \<exists>bs. encode_record (block_codec (rp_codecs repo)) r = Ok bs \<and> previous = Some bs) \<and>
        restored = map_option block_into_domain (jr_previous_checkpoint j) \<and>
        ops = removal_ops tip j us previous)"

definition prepare_removal ::
  "block_ref \<Rightarrow> ('s, index_error, write_batch \<times> block_ref option) eff" where
  "prepare_removal expected_tip =
     (let ck = ckey; jk = jkey (br_height expected_tip) in
     bind_eff (repo_get repo (block_codec (rp_codecs repo)) ck) (\<lambda>checkpoint.
     if map_option (\<lambda>stored. block_into_domain (vr_value stored)) checkpoint \<noteq> Some expected_tip
     then throw revert_target_error
     else
       bind_eff (repo_get repo (journal_codec (rp_codecs repo)) jk) (\<lambda>stored.
       bind_eff (lift_result (ok_or stored journal_not_retained_error)) (\<lambda>journal.
       if journal_block (vr_value journal) \<noteq> expected_tip then throw journal_mismatch_error
       else
         let batch = expect (expect empty_batch ck checkpoint) jk stored in
         bind_eff (remove_history repo (rp_scope repo) (jr_history_keys (vr_value journal)) batch) (\<lambda>batch.
         bind_eff (remove_outputs repo (rp_scope repo) (jr_remove_output_keys (vr_value journal)) batch) (\<lambda>batch.
         bind_eff (restore_outputs repo (rp_scope repo) (jr_restore_outputs (vr_value journal)) batch) (\<lambda>batch.
         let batch = batch_delete batch jk;
             restored = map_option block_into_domain (jr_previous_checkpoint (vr_value journal)) in
         bind_eff (lift_result
           (case jr_previous_checkpoint (vr_value journal) of
              Some v \<Rightarrow> batch_put (block_codec (rp_codecs repo)) batch ck v
            | None \<Rightarrow> Ok (batch_delete batch ck))) (\<lambda>batch.
         ret (batch, restored)))))))))"

lemma remove_tip_prepare:
  "remove_tip repo (rp_scope repo) tip =
     bind_eff (prepare_removal tip) (\<lambda>(batch, restored).
     bind_eff (store_call (so_commit (rp_store repo) batch)) (\<lambda>_. ret restored))"
proof -
  have "check_scope repo (rp_scope repo) = Ok ()" by (simp add: check_scope_def)
  then have scope: "bind_eff (lift_result (check_scope repo (rp_scope repo))) f = f ()" for f
    by (simp add: fun_eq_iff)
  show ?thesis
    unfolding remove_tip_def prepare_removal_def Let_def
    by (simp only: scope bind_eff_assoc bind_distrib bind_eff_throw bind_eff_ret prod.case)
qed

lemma prepare_removal_quiet [simp, intro]: "quiet (prepare_removal tip)"
  unfolding prepare_removal_def Let_def by (auto intro!: quiet_bind)

lemma prepare_removal_Ok:
  assumes inv: "inv s" and run: "prepare_removal tip s = (Ok (batch, restored), s')"
  shows "batch_ok batch \<and> removes tip (content s) (ops_of batch) restored"
proof -
  from run obtain checkpoint s1 j s2 b1 s3 b2 s4 b3 s5 where
      ck: "repo_get repo (block_codec (rp_codecs repo)) ckey s = (Ok checkpoint, s1)"
    and tip: "map_option (\<lambda>stored. block_into_domain (vr_value stored)) checkpoint = Some tip"
    and jk: "repo_get repo (journal_codec (rp_codecs repo)) (jkey (br_height tip)) s1 = (Ok (Some j), s2)"
    and block: "journal_block (vr_value j) = tip"
    and h: "remove_history repo (rp_scope repo) (jr_history_keys (vr_value j))
        (expect (expect empty_batch ckey checkpoint) (jkey (br_height tip)) (Some j)) s2 = (Ok b1, s3)"
    and o: "remove_outputs repo (rp_scope repo) (jr_remove_output_keys (vr_value j)) b1 s3 = (Ok b2, s4)"
    and r: "restore_outputs repo (rp_scope repo) (jr_restore_outputs (vr_value j)) b2 s4 = (Ok b3, s5)"
    and last: "(case jr_previous_checkpoint (vr_value j) of
        Some v \<Rightarrow> batch_put (block_codec (rp_codecs repo)) (batch_delete b3 (jkey (br_height tip))) ckey v
      | None \<Rightarrow> Ok (batch_delete (batch_delete b3 (jkey (br_height tip))) ckey)) = Ok batch"
    and restored: "restored = map_option block_into_domain (jr_previous_checkpoint (vr_value j))"
    unfolding prepare_removal_def Let_def
    by (auto simp: bind_eff_Ok_iff ok_or_iff split: if_splits)
  from quietD [OF quiet_get inv ck] have inv1: "inv s1" and c1: "content s1 = content s"
    by (simp_all add: content_def)
  from repo_get_Ok [OF inv1 jk, unfolded c1] obtain jb where
      jb: "content s (jkey (br_height tip)) = Some jb"
      "decode_record (journal_codec (rp_codecs repo)) jb = Ok (vr_value j)"
    by auto
  from restore_outputs_Ok [OF r] obtain us where
      us: "restores (jr_restore_outputs (vr_value j)) us" "ops_of b3 = ops_of b2 @ us" "batch_ok b3 = batch_ok b2"
      "list_all (restore_checked (rp_scope repo)) (jr_restore_outputs (vr_value j))"
    by blast
  have b3: "ops_of b3 = map (\<lambda>k. (k, None)) (jr_history_keys (vr_value j)) @
      map (\<lambda>k. (k, None)) (jr_remove_output_keys (vr_value j)) @ us" "batch_ok b3"
    using us remove_history_Ok [OF h] remove_outputs_Ok [OF o] by simp_all
  obtain previous where previous:
      "ops_of batch = ops_of b3 @ [(jkey (br_height tip), None), (ckey, previous)]" "batch_ok batch"
      "case jr_previous_checkpoint (vr_value j) of
         None \<Rightarrow> previous = None
       | Some r \<Rightarrow> \<exists>bs. encode_record (block_codec (rp_codecs repo)) r = Ok bs \<and> previous = Some bs"
    using last b3(2) by (cases "jr_previous_checkpoint (vr_value j)") (auto dest!: batch_put_ops)
  show ?thesis
    unfolding removes_def
    using previous jb block checkpoint_read [OF inv ck, unfolded tip] us(1,4) restored b3(1)
      remove_history_Ok [OF h] remove_outputs_Ok [OF o]
    by (auto simp: removal_ops_def)
qed

lemma remove_tip_law:
  assumes inv: "inv s" and run: "remove_tip repo (rp_scope repo) tip s = (r, s')"
  shows "inv s' \<and>
    (case r of
       Ok restored \<Rightarrow> \<exists>ops. removes tip (content s) ops restored \<and> content s' = updated ops (content s)
     | Err e \<Rightarrow> view s' = view s \<or>
         ie_kind e = StoreFailure \<and> ie_retryable e \<and>
         (\<exists>ops restored. removes tip (content s) ops restored \<and> content s' = updated ops (content s)))"
proof -
  obtain pr s1 where p: "prepare_removal tip s = (pr, s1)" by fastforce
  note s1 = quietD [OF prepare_removal_quiet inv p]
  then have inv1: "inv s1" and c1: "content s1 = content s" by (simp_all add: content_def)
  show ?thesis
  proof (cases pr)
    case (Inl e)
    then show ?thesis using run p s1 by (auto simp: remove_tip_prepare)
  next
    case (Inr y)
    obtain batch restored where y: "y = (batch, restored)" by fastforce
    from prepare_removal_Ok [OF inv, of tip batch restored s1] p Inr y have
        b: "batch_ok batch" "removes tip (content s) (ops_of batch) restored" by auto
    obtain cr s2 where com: "store_call (so_commit (rp_store repo) batch) s1 = (cr, s2)" by fastforce
    have r: "s' = s2" "r = (case cr of Err e \<Rightarrow> Err e | Ok _ \<Rightarrow> Ok restored)"
      using run p Inr y com by (auto simp: remove_tip_prepare bind_eff_apply split: sum.splits)
    from store_commit_law [OF inv1 com b(1)] show ?thesis
      using r b(2) s1 unfolding c1 by (cases cr) auto
  qed
qed

section \<open>Removal undoes addition\<close>

lemma checkpoint_not_journal [simp]: "checkpoint_key scope \<noteq> journal_key scope' h"
  by (simp add: checkpoint_key_def journal_key_def key_prefix_def CHECKPOINT_def JOURNAL_def)

lemma journal_not_checkpoint [simp]: "journal_key scope' h \<noteq> checkpoint_key scope"
  using checkpoint_not_journal [of scope scope' h] by metis

lemma is_output_okey [simp]: "is_output (rp_scope repo) (okey k)"
  by (simp add: is_output_def output_key_of_def output_prefix_def)

lemma pruned_other: "ba_retention a \<noteq> 0 \<Longrightarrow> jkey (br_height (ba_block a)) \<notin> fst ` set (prune_ops a)"
  by (auto simp: prune_ops_def journal_key_def)

lemma pruned_journal: "ckey \<notin> fst ` set (prune_ops a)"
  by (auto simp: prune_ops_def)

text \<open>After an addition the journal of the block and the checkpoint are what was written.\<close>

lemma added_journal:
  assumes "added a m us j" "ba_retention a \<noteq> 0" and good: "good_codecs (rp_codecs repo)"
  shows "\<exists>jb. updated us m (jkey (br_height (ba_block a))) = Some jb \<and>
    decode_record (journal_codec (rp_codecs repo)) jb = Ok j"
proof -
  from assms(1) obtain xs jb cb where
      us: "us = (xs @ [(jkey (br_height (ba_block a)), Some jb), (ckey, Some cb)]) @ prune_ops a"
    and jb: "encode_record (journal_codec (rp_codecs repo)) j = Ok jb"
    unfolding added_def added_ops_def append_assoc [symmetric] by blast
  have "updated us m (jkey (br_height (ba_block a))) = Some jb"
    by (simp add: us updated_append updated_Cons updated_other [OF pruned_other [OF assms(2)]])
  with decode_encode [OF good_codecsD(4) [OF good] jb] show ?thesis by blast
qed

lemma added_checkpoint:
  assumes "added a m us j" and good: "good_codecs (rp_codecs repo)"
  shows "checkpoint_is (updated us m) (Some (ba_block a))"
proof -
  from assms(1) obtain xs jb cb where
      us: "us = (xs @ [(jkey (br_height (ba_block a)), Some jb), (ckey, Some cb)]) @ prune_ops a"
    and cb: "encode_record (block_codec (rp_codecs repo)) (block_from_domain (ba_block a)) = Ok cb"
    unfolding added_def added_ops_def append_assoc [symmetric] by blast
  have "updated us m ckey = Some cb"
    using updated_other [OF pruned_journal] by (simp add: us updated_append updated_Cons)
  with decode_encode [OF good_codecsD(1) [OF good] cb] show ?thesis by (simp add: checkpoint_is_def)
qed

lemma restores_values:
  assumes "restores rs us" "(k, u) \<in> set us"
    and stored: "list_all (\<lambda>r. \<exists>bs. m (ro_key r) = Some bs \<and>
      decode_record (output_codec (rp_codecs repo)) bs = Ok (ro_value r)) rs"
    and keys: "\<forall>r \<in> set rs. is_output (rp_scope repo) (ro_key r)"
    and encoded: "index_encoded (rp_codecs repo) (rp_scope repo) m" and good: "good_codecs (rp_codecs repo)"
  shows "u = m k"
proof -
  from assms(1,2) obtain r bs where r: "r \<in> set rs" "k = ro_key r" "u = Some bs"
      "encode_record (output_codec (rp_codecs repo)) (ro_value r) = Ok bs"
    unfolding restores_def by (auto simp: list_all2_conv_all_nth in_set_conv_nth) (metis fst_conv snd_conv)
  from stored r(1) obtain bs' where
      bs': "m (ro_key r) = Some bs'" "decode_record (output_codec (rp_codecs repo)) bs' = Ok (ro_value r)"
    by (auto simp: list_all_iff)
  have "encoded_at (output_codec (rp_codecs repo)) m (ro_key r)"
    using encoded keys r(1) by (simp add: index_encoded_def)
  from encoded_decode [OF good_codecsD(3) [OF good] this bs'] r bs'(1) show ?thesis by simp
qed

lemma restored_checkpoint:
  assumes "checkpoint_is m expected" "encoded_at (block_codec (rp_codecs repo)) m ckey"
    and "case map_option block_from_domain expected of
      None \<Rightarrow> previous = None
    | Some r \<Rightarrow> \<exists>bs. encode_record (block_codec (rp_codecs repo)) r = Ok bs \<and> previous = Some bs"
    and good: "good_codecs (rp_codecs repo)"
  shows "previous = m ckey"
proof (cases expected)
  case (Some c)
  with assms(1) obtain bs where
      bs: "m ckey = Some bs" "decode_record (block_codec (rp_codecs repo)) bs = Ok (block_from_domain c)"
    by (auto simp: checkpoint_is_def)
  from encoded_decode [OF good_codecsD(1) [OF good] assms(2) bs] bs(1) assms(3) Some show ?thesis by auto
qed (use assms(1,3) in \<open>simp add: checkpoint_is_def\<close>)

lemma fst_restores: "restores rs us \<Longrightarrow> fst ` set us = ro_key ` set rs"
  unfolding restores_def by (induction rs us rule: list_all2_induct) auto

lemma added_keys:
  assumes "added a m us j"
  shows "fst ` set us = set (jr_history_keys j) \<union> set (jr_remove_output_keys j) \<union>
    ro_key ` set (jr_restore_outputs j) \<union> {jkey (br_height (ba_block a)), ckey} \<union> fst ` set (prune_ops a)"
proof -
  from assms obtain hs os jb cb where
      us: "us = hs @ os @ map (\<lambda>r. (ro_key r, None)) (jr_restore_outputs j) @
          [(jkey (br_height (ba_block a)), Some jb), (ckey, Some cb)] @ prune_ops a"
      "map fst hs = jr_history_keys j" "map fst os = jr_remove_output_keys j"
    unfolding added_def added_ops_def by blast
  have "fst ` set hs = set (jr_history_keys j)" "fst ` set os = set (jr_remove_output_keys j)"
    using us(2,3) by (metis image_set)+
  then show ?thesis by (simp add: us(1) image_Un image_image) blast
qed

lemma removal_restores:
  assumes add: "added a m us j" and ret: "ba_retention a \<noteq> 0"
    and encoded: "index_encoded (rp_codecs repo) (rp_scope repo) m"
    and rem: "removes (ba_block a) (updated us m) ops restored" and good: "good_codecs (rp_codecs repo)"
  shows "restored = ba_expected_checkpoint a \<and>
    (\<forall>k. k \<notin> fst ` set (prune_ops a) \<longrightarrow> updated ops (updated us m) k = m k)"
proof -
  let ?tip = "ba_block a" and ?m1 = "updated us m"
  from added_journal [OF add ret good] rem obtain vs previous where
      vs: "restores (jr_restore_outputs j) vs"
    and previous: "case jr_previous_checkpoint j of
         None \<Rightarrow> previous = None
       | Some r \<Rightarrow> \<exists>bs. encode_record (block_codec (rp_codecs repo)) r = Ok bs \<and> previous = Some bs"
    and restored: "restored = map_option block_into_domain (jr_previous_checkpoint j)"
    and ops: "ops = removal_ops ?tip j vs previous"
    unfolding removes_def by auto
  have prev: "jr_previous_checkpoint j = map_option block_from_domain (ba_expected_checkpoint a)"
    and cp: "checkpoint_is m (ba_expected_checkpoint a)" and jn: "m (jkey (br_height ?tip)) = None"
    and absent: "\<forall>k \<in> set (jr_history_keys j) \<union> set (jr_remove_output_keys j). m k = None"
    and stored: "list_all (\<lambda>r. \<exists>bs. m (ro_key r) = Some bs \<and>
      decode_record (output_codec (rp_codecs repo)) bs = Ok (ro_value r)) (jr_restore_outputs j)"
    and keys: "map ro_key (jr_restore_outputs j) =
      map (\<lambda>(k, q). okey k) (filter (\<lambda>(k, q). m (okey k) \<noteq> None) (spend_keys a))"
    using add unfolding added_def journal_of_def by (simp_all add: list_all_iff ball_Un)
  have "\<forall>k \<in> set (map ro_key (jr_restore_outputs j)). is_output (rp_scope repo) k"
    unfolding keys by auto
  then have outputs: "\<forall>r \<in> set (jr_restore_outputs j). is_output (rp_scope repo) (ro_key r)" by simp
  have "previous = m ckey"
    using restored_checkpoint [OF cp _ _ good] encoded previous unfolding prev index_encoded_def by blast
  moreover have "restored = ba_expected_checkpoint a"
    unfolding restored prev by (cases "ba_expected_checkpoint a") simp_all
  moreover have "updated ops ?m1 k = m k" if k: "k \<notin> fst ` set (prune_ops a)" "k \<noteq> ckey" "k \<noteq> jkey (br_height ?tip)" for k
  proof -
    let ?dels = "map (\<lambda>k. (k, None :: bytes option)) (jr_history_keys j @ jr_remove_output_keys j)"
    have dels: "fst ` set ?dels = set (jr_history_keys j) \<union> set (jr_remove_output_keys j)"
      by (simp add: image_Un image_image)
    have "updated ops ?m1 k = updated vs (updated ?dels ?m1) k"
      using k(2,3) by (simp add: ops removal_ops_def updated_append updated_Cons)
    moreover have "updated vs (updated ?dels ?m1) k = m k" if "k \<in> fst ` set vs"
      using that restores_values [OF vs _ stored outputs encoded good] by (intro updated_in) auto
    moreover have "updated vs (updated ?dels ?m1) k = m k" if v: "k \<notin> fst ` set vs"
    proof (cases "k \<in> fst ` set ?dels")
      case True
      have "updated ?dels ?m1 k = None" by (rule updated_in [OF True]) auto
      moreover have "m k = None" using True absent unfolding dels by blast
      ultimately show ?thesis using v by (simp add: updated_other)
    next
      case False
      then have "k \<notin> fst ` set us"
        using False v k unfolding added_keys [OF add] fst_restores [OF vs] dels by blast
      then show ?thesis using updated_other [OF v] updated_other [OF False] by (simp add: updated_other)
    qed
    ultimately show ?thesis by metis
  qed
  ultimately show ?thesis
    using jn by (auto simp: ops removal_ops_def updated_append updated_Cons)
qed

text \<open>A block that was added can be removed without a trace.\<close>

lemma write_remove_restores:
  assumes "inv s" "write_block repo a s = (Ok Applied, s1)" "ba_retention a \<noteq> 0"
    and "index_encoded (rp_codecs repo) (rp_scope repo) (content s)"
    and "remove_tip repo (rp_scope repo) (ba_block a) s1 = (Ok restored, s2)"
  shows "restored = ba_expected_checkpoint a \<and>
    (\<forall>k. k \<notin> fst ` set (prune_ops a) \<longrightarrow> content s2 k = content s k)"
proof -
  from write_block_law [OF assms(1,2)] obtain us j where
      s1: "inv s1" "added a (content s) us j" "content s1 = updated us (content s)"
    by (auto simp: block_added_def)
  from remove_tip_law [OF s1(1) assms(5)] obtain ops where
      "removes (ba_block a) (content s1) ops restored" "content s2 = updated ops (content s1)"
    by auto
  with removal_restores [OF s1(2) assms(3,4) _ codec_law [OF assms(1)]] show ?thesis unfolding s1(3) by simp
qed

section \<open>Adding again\<close>

lemma repo_get_present:
  assumes "inv s" "content s k = Some bs" "decode_record c bs = Ok v" "repo_get repo c k s = (r, s')"
  shows "(\<exists>n. r = Ok (Some \<lparr>vr_value = v, vr_version = n\<rparr>)) \<or> (\<exists>e. r = Err (index_storage_error e))"
proof -
  obtain stored t where t: "so_get (rp_store repo) NAMESPACE k s = (stored, t)" by fastforce
  show ?thesis
  proof (cases stored)
    case (Inl e)
    then have "r = Err (index_storage_error e)"
      using assms(4) t by (simp add: repo_get_def store_call_def bind_eff_apply)
    then show ?thesis by blast
  next
    case (Inr x)
    then have "x = view s (NAMESPACE, k)" using get_law [OF assms(1) t] by blast
    moreover obtain w where w: "view s (NAMESPACE, k) = Some w" "sv_value w = bs"
      using assms(2) by (auto simp: content_def vals_def)
    ultimately have "r = Ok (Some \<lparr>vr_value = v, vr_version = sv_version w\<rparr>)"
      using assms(3,4) t Inr by (simp add: repo_get_def store_call_def bind_eff_apply)
    then show ?thesis by blast
  qed
qed

lemma write_block_again:
  assumes inv: "inv s" and first: "write_block repo a s = (Ok Applied, s1)" and ret: "ba_retention a \<noteq> 0"
    and again: "write_block repo a s1 = (r, s2)"
  shows "view s2 = view s1 \<and> (r = Ok AlreadyApplied \<or> (\<exists>e. r = Err (index_storage_error e)))"
proof -
  from write_block_law [OF inv first] obtain us j where
      s1: "inv s1" "added a (content s) us j" "content s1 = updated us (content s)"
    by (auto simp: block_added_def)
  from added_checkpoint [OF s1(2) codec_law [OF inv]] obtain cb where
      cb: "content s1 ckey = Some cb"
      "decode_record (block_codec (rp_codecs repo)) cb = Ok (block_from_domain (ba_block a))"
    unfolding s1(3) by (auto simp: checkpoint_is_def)
  from added_journal [OF s1(2) ret codec_law [OF inv]] obtain jb where
      jb: "content s1 (jkey (br_height (ba_block a))) = Some jb"
      "decode_record (journal_codec (rp_codecs repo)) jb = Ok j"
    unfolding s1(3) by auto
  have jblock: "journal_block j = ba_block a"
    using s1(2) by (simp add: added_def journal_of_def journal_block_def)
  have scope: "check_scope repo (ba_scope a) = Ok ()"
    using first by (cases "check_scope repo (ba_scope a)") (auto simp: write_block_def)
  obtain r1 t1 where g1: "repo_get repo (block_codec (rp_codecs repo)) ckey s1 = (r1, t1)" by fastforce
  from quietD [OF quiet_get s1(1) g1] have t1: "inv t1" "view t1 = view s1" "content t1 = content s1"
    by (simp_all add: content_def)
  obtain r2 t2 where g2: "repo_get repo (journal_codec (rp_codecs repo)) (jkey (br_height (ba_block a))) t1 = (r2, t2)"
    by fastforce
  from quietD [OF quiet_get t1(1) g2] have t2: "view t2 = view s1" using t1 by simp
  have jb1: "content t1 (jkey (br_height (ba_block a))) = Some jb" using jb(1) t1 by simp
  from repo_get_present [OF s1(1) cb g1] repo_get_present [OF t1(1) jb1 jb(2) g2] consider
      e where "r1 = Err (index_storage_error e)"
    | n e where "r1 = Ok (Some \<lparr>vr_value = block_from_domain (ba_block a), vr_version = n\<rparr>)"
        "r2 = Err (index_storage_error e)"
    | n n' where "r1 = Ok (Some \<lparr>vr_value = block_from_domain (ba_block a), vr_version = n\<rparr>)"
        "r2 = Ok (Some \<lparr>vr_value = j, vr_version = n'\<rparr>)"
    by blast
  then show ?thesis
    by cases (use again g1 g2 scope t1 t2 jblock in \<open>auto simp: write_block_def Let_def\<close>)
qed

section \<open>Entries stay encoded\<close>

lemma updated_cases: "updated us m k = m k \<or> (k, updated us m k) \<in> set us"
  by (cases "map_of (rev us) k") (auto simp: updated_def dest: map_of_SomeD)

lemma output_keys_only:
  "\<not> is_output scope (hkey e)" "\<not> is_output scope (jkey h)" "\<not> is_output scope ckey"
  by (auto simp: is_output_def history_key_def history_prefix_def journal_key_def checkpoint_key_def
      key_prefix_def HISTORY_def JOURNAL_def CHECKPOINT_def OUTPUT_def prefix_def)

lemma checkpoint_keys_only:
  "hkey e \<noteq> ckey" "okey k \<noteq> ckey"
  by (simp_all add: history_key_def history_prefix_def output_key_of_def output_prefix_def
      checkpoint_key_def key_prefix_def HISTORY_def CHECKPOINT_def OUTPUT_def)

lemma list_all2_snd:
  "list_all2 (\<lambda>x u. \<exists>bs. encode_record c (f x) = Ok bs \<and> snd u = Some bs) xs us \<Longrightarrow> (k, u) \<in> set us \<Longrightarrow>
   \<exists>x bs. x \<in> set xs \<and> encode_record c (f x) = Ok bs \<and> u = Some bs"
  by (induction xs us rule: list_all2_induct) auto

lemma added_encoded:
  assumes add: "added a m us j" and old: "index_encoded (rp_codecs repo) (rp_scope repo) m"
  shows "index_encoded (rp_codecs repo) (rp_scope repo) (updated us m)"
proof -
  from add obtain hs os jb cb where
      us: "us = hs @ os @ map (\<lambda>r. (ro_key r, None)) (jr_restore_outputs j) @
          [(jkey (br_height (ba_block a)), Some jb), (ckey, Some cb)] @ prune_ops a"
    and keys: "map fst hs = jr_history_keys j" "map fst os = jr_remove_output_keys j"
    and os: "list_all2 (\<lambda>x u. \<exists>bs. encode_record (output_codec (rp_codecs repo)) (output_from_domain x) = Ok bs \<and>
          snd u = Some bs) (oc_created (ba_outputs a)) os"
    and cb: "encode_record (block_codec (rp_codecs repo)) (block_from_domain (ba_block a)) = Ok cb"
    unfolding added_def added_ops_def by blast
  have jkeys: "jr_history_keys j = map hkey (history_entries (ba_transactions a))"
    using add by (simp add: added_def journal_of_def)
  have hist: "\<not> is_output (rp_scope repo) k" if "(k, u) \<in> set hs" for k u
  proof -
    have "k \<in> set (map fst hs)" using that by force
    then show ?thesis unfolding keys jkeys using output_keys_only(1) by auto
  qed
  have prune: "\<not> is_output (rp_scope repo) k" if "(k, u) \<in> set (prune_ops a)" for k u
    using that output_keys_only(2) by (auto simp: prune_ops_def split: if_splits)
  have "encoded_at (output_codec (rp_codecs repo)) (updated us m) k" if out: "is_output (rp_scope repo) k" for k
  proof -
    have "encoded_at (output_codec (rp_codecs repo)) m k" using old out by (simp add: index_encoded_def)
    moreover have "\<exists>r. encode_record (output_codec (rp_codecs repo)) r = Ok bs" if "(k, Some bs) \<in> set us" for bs
      using that out hist [of k] prune [of k] output_keys_only(2,3) list_all2_snd [OF os, of k "Some bs"]
      unfolding us by auto
    ultimately show ?thesis
      using updated_cases [of us m k] by (auto simp: encoded_at_def)
  qed
  moreover have "encoded_at (block_codec (rp_codecs repo)) (updated us m) ckey"
  proof -
    have "updated us m ckey = Some cb"
      using updated_other [OF pruned_journal] by (simp add: us updated_append updated_Cons)
    then show ?thesis using cb by (auto simp: encoded_at_def)
  qed
  ultimately show ?thesis by (simp add: index_encoded_def)
qed

section \<open>The effect of an addition\<close>

lemma record_at_updated:
  assumes "k \<in> fst ` set us" "\<And>u. (k, u) \<in> set us \<Longrightarrow> \<exists>bs. u = Some bs \<and> encode_record c r = Ok bs" "codec_ok c"
  shows "record_at c (updated us m) k = Some r"
proof -
  have "(k, updated us m k) \<in> set us"
  proof -
    from assms(1) have "map_of (rev us) k \<noteq> None" by (simp add: map_of_eq_None_iff)
    then obtain u where "map_of (rev us) k = Some u" by blast
    with map_of_SomeD [OF this] show ?thesis by (simp add: updated_def)
  qed
  from assms(2) [OF this] obtain bs where "updated us m k = Some bs" "encode_record c r = Ok bs" by blast
  with decode_encode [OF assms(3)] show ?thesis by (simp add: record_at_def)
qed

lemma other_collections:
  "okey k \<noteq> history_key (rp_scope repo) address h t" "okey k \<noteq> jkey h" "okey k \<noteq> ckey"
  "history_key (rp_scope repo) address h t \<noteq> jkey h'" "history_key (rp_scope repo) address h t \<noteq> ckey"
  "history_key (rp_scope repo) address h t \<noteq> okey k"
  by (simp_all add: key_split key_prefix_def)

lemma list_all2_pair:
  "list_all2 (\<lambda>x u. \<exists>bs. encode_record c (f x) = Ok bs \<and> snd u = Some bs) xs us \<Longrightarrow> map fst us = map g xs \<Longrightarrow>
   (k, u) \<in> set us \<Longrightarrow> \<exists>x bs. x \<in> set xs \<and> k = g x \<and> encode_record c (f x) = Ok bs \<and> u = Some bs"
  by (induction xs us rule: list_all2_induct) auto

lemma added_parts:
  assumes add: "added a m us j" and u: "(k, u) \<in> set us"
  obtains (history) e bs where "e \<in> set (history_entries (ba_transactions a))" "k = hkey e" "u = Some bs"
      "encode_record (transaction_codec (rp_codecs repo)) (transaction_from_domain (fst e)) = Ok bs"
  | (created) x bs where "x \<in> set (oc_created (ba_outputs a))" "k = okey (io_key x)" "u = Some bs"
      "encode_record (output_codec (rp_codecs repo)) (output_from_domain x) = Ok bs"
  | (spent) x where "x \<in> set (spent_keys_of a)" "k = okey x" "u = None"
  | (control) "k = ckey \<or> (\<exists>h. k = jkey h)"
proof -
  have j: "jr_history_keys j = map hkey (history_entries (ba_transactions a))"
      "jr_remove_output_keys j = map (\<lambda>x. okey (io_key x)) (oc_created (ba_outputs a))"
    using add unfolding added_def journal_of_def by simp_all
  from add obtain hs os jb cb where
      us: "us = hs @ os @ map (\<lambda>r. (ro_key r, None)) (jr_restore_outputs j) @
          [(jkey (br_height (ba_block a)), Some jb), (ckey, Some cb)] @ prune_ops a"
    and keys: "map fst hs = jr_history_keys j" "map fst os = jr_remove_output_keys j"
    and hs: "list_all2 (\<lambda>e u. \<exists>bs. encode_record (transaction_codec (rp_codecs repo)) (transaction_from_domain (fst e)) = Ok bs \<and>
          snd u = Some bs) (history_entries (ba_transactions a)) hs"
    and os: "list_all2 (\<lambda>x u. \<exists>bs. encode_record (output_codec (rp_codecs repo)) (output_from_domain x) = Ok bs \<and>
          snd u = Some bs) (oc_created (ba_outputs a)) os"
    unfolding added_def added_ops_def by blast
  from u consider "(k, u) \<in> set hs" | "(k, u) \<in> set os"
    | "(k, u) \<in> set (map (\<lambda>r. (ro_key r, None :: bytes option)) (jr_restore_outputs j))"
    | "k = jkey (br_height (ba_block a)) \<or> k = ckey \<or> (k, u) \<in> set (prune_ops a)"
    unfolding us by auto
  then show thesis
  proof cases
    case 1
    from list_all2_pair [OF hs keys(1) [unfolded j] this] show thesis using history by blast
  next
    case 2
    from list_all2_pair [OF os keys(2) [unfolded j] this] show thesis using created by blast
  next
    case 3
    then have k: "k \<in> set (map ro_key (jr_restore_outputs j))" and "u = None" by auto
    moreover have "set (map ro_key (jr_restore_outputs j)) \<subseteq> okey ` set (spent_keys_of a)"
    proof -
      have "map ro_key (jr_restore_outputs j) =
          map (\<lambda>(k, q). okey k) (filter (\<lambda>(k, q). m (okey k) \<noteq> None) (spend_keys a))"
        using add unfolding added_def journal_of_def by blast
      then show ?thesis by (auto simp: spend_keys_def spent_keys_of_def)
    qed
    ultimately show thesis using spent by blast
  next
    case 4
    then show thesis using control by (auto simp: prune_ops_def split: if_splits)
  qed
qed

lemma added_history:
  assumes add: "added a m us j" and ok: "addition_ok a" "addition_sized a" "ba_scope a = rp_scope repo"
    and good: "good_codecs (rp_codecs repo)" and e: "(t, address) \<in> set (history_entries (ba_transactions a))"
  shows "record_at (transaction_codec (rp_codecs repo)) (updated us m) (hkey (t, address)) =
    Some (transaction_from_domain t)"
proof (rule record_at_updated)
  have "set (jr_history_keys j) \<subseteq> fst ` set us" unfolding added_keys [OF add] by blast
  moreover have "hkey (t, address) \<in> set (jr_history_keys j)"
    using add e unfolding added_def journal_of_def by force
  ultimately show "hkey (t, address) \<in> fst ` set us" by blast
next
  fix u
  assume "(hkey (t, address), u) \<in> set us"
  with add show "\<exists>bs. u = Some bs \<and> encode_record (transaction_codec (rp_codecs repo)) (transaction_from_domain t) = Ok bs"
  proof (cases rule: added_parts)
    case (history e' bs)
    obtain t' address' where e': "e' = (t', address')" by fastforce
    have "ct_id t = ct_id t'"
      using history(2) history_key_inject [OF addition_history_keys [OF ok e] addition_history_keys [OF ok, of t' address']]
        history(1) unfolding e' by simp
    then have "t = t'"
      using distinct_transactions [OF ok(1), of t t'] e history(1) e' by (auto simp: history_entries_def)
    then show ?thesis using history(3,4) e' by simp
  qed (simp_all add: other_collections)
qed (use good in \<open>simp add: good_codecs_def\<close>)

lemma added_created:
  assumes add: "added a m us j" and ok: "addition_ok a" "addition_sized a" "ba_scope a = rp_scope repo"
    and good: "good_codecs (rp_codecs repo)" and x: "x \<in> set (oc_created (ba_outputs a))"
  shows "record_at (output_codec (rp_codecs repo)) (updated us m) (okey (io_key x)) = Some (output_from_domain x)"
proof (rule record_at_updated)
  have "set (jr_remove_output_keys j) \<subseteq> fst ` set us" unfolding added_keys [OF add] by blast
  moreover have "okey (io_key x) \<in> set (jr_remove_output_keys j)"
    using add x unfolding added_def journal_of_def by force
  ultimately show "okey (io_key x) \<in> fst ` set us" by blast
next
  fix u
  assume "(okey (io_key x), u) \<in> set us"
  with add show "\<exists>bs. u = Some bs \<and> encode_record (output_codec (rp_codecs repo)) (output_from_domain x) = Ok bs"
  proof (cases rule: added_parts)
    case (created y bs)
    then have "io_key x = io_key y"
      using output_key_inject [OF addition_output_keys [OF ok] addition_output_keys [OF ok], of "io_key x" "io_key y"] x
      by simp
    then have "x = y" using distinct_created [OF ok(1) x created(1)] by blast
    then show ?thesis using created by simp
  next
    case (spent k)
    then have "io_key x = k"
      using output_key_inject [OF addition_output_keys [OF ok] addition_output_keys [OF ok], of "io_key x" k] x
      by simp
    then have False using spent(1) x ok(1) by (auto simp: addition_ok_def changes_ok_def spent_keys_of_def)
    then show ?thesis ..
  qed (simp_all add: other_collections)
qed (use good in \<open>simp add: good_codecs_def\<close>)

lemma added_spent:
  assumes add: "added a m us j" and ok: "addition_ok a" "addition_sized a" "ba_scope a = rp_scope repo"
    and k: "k \<in> set (spent_keys_of a)"
  shows "updated us m (okey k) = None"
proof -
  have none: "u = None" if "(okey k, u) \<in> set us" for u
    using add that
  proof (cases rule: added_parts)
    case (created y bs)
    then have "k = io_key y"
      using output_key_inject [OF addition_output_keys [OF ok] addition_output_keys [OF ok], of k "io_key y"] k
      by simp
    then have False using k created(1) ok(1) by (auto simp: addition_ok_def changes_ok_def spent_keys_of_def)
    then show ?thesis ..
  qed (simp_all add: other_collections)
  have recorded: "map ro_key (jr_restore_outputs j) =
      map (\<lambda>(k, q). okey k) (filter (\<lambda>(k, q). m (okey k) \<noteq> None) (spend_keys a))"
    using add unfolding added_def journal_of_def by blast
  show ?thesis
  proof (cases "m (okey k)")
    case None
    then show ?thesis using updated_cases [of us m "okey k"] none by auto
  next
    case (Some bs)
    then have "okey k \<in> set (map ro_key (jr_restore_outputs j))"
      using k unfolding recorded by (auto simp: spend_keys_def spent_keys_of_def)
    then have "okey k \<in> fst ` set us" unfolding added_keys [OF add] by auto
    then show ?thesis by (rule updated_in [OF _ none])
  qed
qed

lemma added_unchanged:
  assumes add: "added a m us j"
    and k: "k \<notin> {ckey, jkey (br_height (ba_block a))} \<union> pruned_keys (rp_scope repo) a \<union>
      set (history_keys_of (rp_scope repo) a) \<union> (\<lambda>x. okey (io_key x)) ` set (oc_created (ba_outputs a)) \<union>
      output_key_of (rp_scope repo) ` set (spent_keys_of a)"
  shows "updated us m k = m k"
proof (rule updated_other)
  have j: "jr_history_keys j = history_keys_of (rp_scope repo) a"
      "jr_remove_output_keys j = map (\<lambda>x. okey (io_key x)) (oc_created (ba_outputs a))"
    and r: "map ro_key (jr_restore_outputs j) =
      map (\<lambda>(k, q). okey k) (filter (\<lambda>(k, q). m (okey k) \<noteq> None) (spend_keys a))"
    using add unfolding added_def journal_of_def history_keys_of_def by (auto simp: split_def)
  have "ro_key ` set (jr_restore_outputs j) \<subseteq> okey ` set (spent_keys_of a)"
    using r [THEN arg_cong, of set] by (auto simp: spend_keys_def spent_keys_of_def)
  moreover have "fst ` set (prune_ops a) = pruned_keys (rp_scope repo) a"
    by (simp add: prune_ops_def pruned_keys_def)
  ultimately show "k \<notin> fst ` set us"
    using k unfolding added_keys [OF add] j by auto
qed

lemma added_effect:
  assumes add: "added a m us j" and ok: "addition_ok a" "addition_sized a" "ba_scope a = rp_scope repo"
    and good: "good_codecs (rp_codecs repo)"
  shows "index_after (rp_codecs repo) (rp_scope repo) a m (updated us m)"
proof -
  have ret: "ba_retention a \<noteq> 0" using ok(1) by (simp add: addition_ok_def)
  have "journal_block j = ba_block a"
    using add by (simp add: added_def journal_of_def journal_block_def)
  then have "record_at (block_codec (rp_codecs repo)) (updated us m) ckey = Some (block_from_domain (ba_block a))"
      "map_option journal_block (record_at (journal_codec (rp_codecs repo)) (updated us m)
        (jkey (br_height (ba_block a)))) = Some (ba_block a)"
    using added_checkpoint [OF add good] added_journal [OF add ret good]
    by (auto simp: checkpoint_is_def record_at_def)
  then show ?thesis
    unfolding index_after_def
    using added_history [OF add ok good] added_created [OF add ok good] added_spent [OF add ok] added_unchanged [OF add]
    by (auto simp del: set_map)
qed

lemma foreign_scope_fails: "ba_scope a \<noteq> rp_scope repo \<Longrightarrow> write_block repo a s = (Err foreign_scope_error, s)"
  unfolding write_block_def check_scope_def by (auto simp: bind_eff_apply)

lemma write_block_effect:
  assumes inv: "inv s" and run: "write_block repo a s = (r, s')" and ok: "addition_ok a" "addition_sized a"
  shows "case r of
       Ok Applied \<Rightarrow> index_after (rp_codecs repo) (rp_scope repo) a (content s) (content s')
     | Ok AlreadyApplied \<Rightarrow> view s' = view s \<and>
         record_at (block_codec (rp_codecs repo)) (content s) ckey = Some (block_from_domain (ba_block a))
     | Err e \<Rightarrow> view s' = view s \<or> ie_kind e = StoreFailure \<and> ie_retryable e \<and>
         index_after (rp_codecs repo) (rp_scope repo) a (content s) (content s')"
proof (cases "ba_scope a = rp_scope repo")
  case False
  then show ?thesis using run by (auto simp: foreign_scope_fails)
next
  case True
  have "index_after (rp_codecs repo) (rp_scope repo) a (content s) (content s')" if "block_added a s s'"
    using that added_effect [OF _ ok True codec_law [OF inv]] by (auto simp: block_added_def)
  moreover have "record_at (block_codec (rp_codecs repo)) (content s) ckey = Some (block_from_domain (ba_block a))"
    if "checkpoint_is (content s) (Some (ba_block a))"
    using that by (auto simp: checkpoint_is_def record_at_def)
  ultimately show ?thesis
    using write_block_law [OF inv run] by (auto split: sum.splits block_outcome.splits)
qed

lemma write_remove_pruned:
  "fst ` set (prune_ops a) = pruned_keys (rp_scope repo) a"
  by (simp add: prune_ops_def pruned_keys_def)

end

section \<open>The repository over redb\<close>

definition redb_ops :: "redb \<Rightarrow> backend store_ops" where
  "redb_ops rd = \<lparr>so_get = backend_get rd, so_scan = backend_scan rd, so_commit = backend_commit rd\<rparr>"

definition redb_repository :: "redb \<Rightarrow> codecs \<Rightarrow> index_scope \<Rightarrow> backend repository" where
  "redb_repository rd cs scope = \<lparr>rp_store = redb_ops rd, rp_codecs = cs, rp_scope = scope\<rparr>"

lemma redb_repository_simps [simp]:
  "rp_store (redb_repository rd cs scope) = redb_ops rd"
  "rp_codecs (redb_repository rd cs scope) = cs"
  "rp_scope (redb_repository rd cs scope) = scope"
  "so_get (redb_ops rd) = backend_get rd" "so_scan (redb_ops rd) = backend_scan rd"
  "so_commit (redb_ops rd) = backend_commit rd"
  by (simp_all add: redb_repository_def redb_ops_def)

definition index_contents :: "redb \<Rightarrow> backend \<Rightarrow> contents" where
  "index_contents rd s = vals (backend_view rd s)"

interpretation redb_index: index_store
  "\<lambda>s. redb_ok rd s \<and> good_codecs cs" "backend_view rd" "backend_version rd" "redb_repository rd cs scope"
  for rd cs scope
proof (unfold_locales, goal_cases get scan commit stamp codecs)
  case (get s ns k r s')
  then show ?case using redb_store.get_law [of rd s ns k r s'] by simp
next
  case (scan s req sr s')
  then show ?case using redb_store.scan_law [of rd s req sr s'] by simp
next
  case (commit s batch cr s')
  then show ?case using redb_store.commit_law [of rd s batch cr s'] by simp
next
  case (stamp s x v)
  then show ?case using redb_store.stamp_law [of rd s x v] by simp
next
  case (codecs s)
  then show ?case by simp
qed

lemma redb_index_content [simp]: "redb_index.content rd = index_contents rd"
  by (simp add: fun_eq_iff redb_index.content_def index_contents_def)

end
