(* ===== verification/Index_Guarantees.thy ===== *)
theory Index_Guarantees
  imports Index_Rollback
begin

text \<open>
  What callers of the redb index repository may rely on: the outcome of adding a block, that adding
  it again is harmless, and that a block that was added can be removed again, failing only when the
  store fails. The last needs an invariant of the stored outputs, which additions keep.
\<close>

section \<open>Stored outputs\<close>

text \<open>A stored output is the encoding of a valid output that belongs under its key.\<close>

definition output_entry_ok :: "codecs \<Rightarrow> index_scope \<Rightarrow> contents \<Rightarrow> key \<Rightarrow> bool" where
  "output_entry_ok cs scope m k \<longleftrightarrow>
     (\<forall>bs \<in> set_option (m k). \<exists>x. encode_record (output_codec cs) (output_from_domain x) = Ok bs \<and>
        amount_ok (io_amount x) \<and> output_key_of scope (io_key x) = k)"

definition index_ok :: "codecs \<Rightarrow> index_scope \<Rightarrow> contents \<Rightarrow> bool" where
  "index_ok cs scope m \<longleftrightarrow>
     encoded_at (block_codec cs) m (checkpoint_key scope) \<and>
     (\<forall>k. is_output scope k \<longrightarrow> output_entry_ok cs scope m k)"

definition addition_amounts_ok :: "block_addition \<Rightarrow> bool" where
  "addition_amounts_ok a \<longleftrightarrow>
     list_all transaction_amounts_ok (ba_transactions a) \<and>
     list_all (\<lambda>x. amount_ok (io_amount x)) (oc_created (ba_outputs a))"

lemma index_ok_encoded: "index_ok cs scope m \<Longrightarrow> index_encoded cs scope m"
  by (fastforce simp: index_ok_def index_encoded_def output_entry_ok_def encoded_at_def)

lemma record_at_Some:
  "record_at c m k = Some r \<longleftrightarrow> (\<exists>bs. m k = Some bs \<and> decode_record c bs = Ok r)"
  by (auto simp: record_at_def split: option.splits sum.splits)

text \<open>The parts of \<open>index_after\<close>.\<close>

lemma index_afterD:
  assumes "index_after cs scope a m m'"
  shows "record_at (block_codec cs) m' (checkpoint_key scope) = Some (block_from_domain (ba_block a))"
    and "(t, address) \<in> set (history_entries (ba_transactions a)) \<Longrightarrow>
      record_at (transaction_codec cs) m' (history_key scope address (br_height (ct_block t)) (ct_id t)) =
        Some (transaction_from_domain t)"
    and "x \<in> set (oc_created (ba_outputs a)) \<Longrightarrow>
      record_at (output_codec cs) m' (output_key_of scope (io_key x)) = Some (output_from_domain x)"
    and "k \<in> set (spent_keys_of a) \<Longrightarrow> m' (output_key_of scope k) = None"
  using assms unfolding index_after_def by blast+

section \<open>Operations that fail only with the store\<close>

context index_store
begin

definition sound :: "('s, index_error, 'a) eff \<Rightarrow> 's \<Rightarrow> bool" where
  "sound m s \<longleftrightarrow> (\<forall>e \<in> set_option (case fst (m s) of Err e \<Rightarrow> Some e | Ok _ \<Rightarrow> None). \<exists>c. e = index_storage_error c)"

lemma soundD: "sound m s \<Longrightarrow> m s = (r, s') \<Longrightarrow> (\<exists>x. r = Ok x) \<or> (\<exists>c. r = Err (index_storage_error c))"
  by (cases r) (auto simp: sound_def)

lemma sound_basic [simp]: "sound (ret x) s" "sound (lift_result (Ok x)) s"
  by (simp_all add: sound_def)

lemma sound_store_call [simp]: "sound (store_call m) s"
  by (cases "fst (m s)") (auto simp: sound_def store_call_def)

lemma sound_bind:
  assumes "sound m s" "\<And>x s'. m s = (Ok x, s') \<Longrightarrow> sound (f x) s'"
  shows "sound (bind_eff m f) s"
  using assms by (cases "m s"; cases "fst (m s)") (auto simp: sound_def bind_eff_apply)

lemma sound_lift [simp]: "sound (bind_eff (lift_result (Ok x)) f) s \<longleftrightarrow> sound (f x) s"
  by (simp add: sound_def bind_eff_apply)

lemma sound_present:
  assumes "inv s" "record_at c (content s) k = Some v"
    and "\<And>n s'. inv s' \<Longrightarrow> content s' = content s \<Longrightarrow> sound (f (Some \<lparr>vr_value = v, vr_version = n\<rparr>)) s'"
  shows "sound (bind_eff (repo_get repo c k) f) s"
proof -
  obtain r s' where get: "repo_get repo c k s = (r, s')" by fastforce
  from assms(2) obtain bs where bs: "content s k = Some bs" "decode_record c bs = Ok v"
    by (auto simp: record_at_Some)
  from quietD [OF quiet_get assms(1) get] have "inv s'" "content s' = content s" by (simp_all add: content_def)
  with repo_get_present [OF assms(1) bs get] get assms(3) show ?thesis
    by (auto simp: sound_def bind_eff_apply)
qed

lemma sound_absent:
  assumes "inv s" "content s k = None" "\<And>s'. inv s' \<Longrightarrow> content s' = content s \<Longrightarrow> sound (f None) s'"
  shows "sound (bind_eff (repo_get repo c k) f) s"
proof -
  obtain stored t where t: "so_get (rp_store repo) NAMESPACE k s = (stored, t)" by fastforce
  from get_law [OF assms(1) t] have "inv t" "content t = content s" "stored = Ok x \<Longrightarrow> x = None" for x
    using assms(2) by (auto simp: content_def vals_def)
  then show ?thesis
    using t assms(3) [of t]
    by (cases stored) (auto simp: sound_def bind_eff_apply repo_get_def store_call_def transpose_map_def)
qed

lemma sound_put:
  "encode_record c v = Ok bs \<Longrightarrow> (\<And>batch'. sound (f batch') s) \<Longrightarrow>
   sound (bind_eff (lift_result (batch_put c batch k v)) f) s"
  by (rule sound_bind) (auto simp: batch_put_def)

lemma sound_remove_history:
  assumes "inv s" "\<forall>k \<in> set keys. is_history scope k \<and>
      (\<exists>t. record_at (transaction_codec (rp_codecs repo)) (content s) k = Some (transaction_from_domain t) \<and>
        transaction_into_domain (transaction_from_domain t) = Ok t)"
  shows "sound (remove_history repo scope keys batch) s"
  using assms
proof (induction keys arbitrary: batch s)
  case (Cons k keys)
  then obtain t where t: "is_history scope k" "transaction_into_domain (transaction_from_domain t) = Ok t"
      "record_at (transaction_codec (rp_codecs repo)) (content s) k = Some (transaction_from_domain t)"
    by auto
  have IH: "sound (remove_history repo scope keys b) s'" if "inv s'" "content s' = content s" for b s'
    using Cons.IH [OF that(1)] Cons.prems(2) that(2) by simp
  show ?case
    by (simp only: remove_history.simps t(1) not_True_eq_False if_False)
       (rule sound_present [OF Cons.prems(1) t(3)], simp add: t(2) IH)
qed simp

lemma sound_remove_outputs:
  assumes "inv s" "\<forall>k \<in> set keys. is_output scope k \<and>
      (\<exists>x. record_at (output_codec (rp_codecs repo)) (content s) k = Some (output_from_domain x) \<and>
        output_into_domain (output_from_domain x) = Ok x \<and> output_key_of scope (io_key x) = k)"
  shows "sound (remove_outputs repo scope keys batch) s"
  using assms
proof (induction keys arbitrary: batch s)
  case (Cons k keys)
  then obtain x where x: "is_output scope k" "output_into_domain (output_from_domain x) = Ok x"
      "record_at (output_codec (rp_codecs repo)) (content s) k = Some (output_from_domain x)"
      "output_key_of scope (io_key x) = k"
    by auto
  have IH: "sound (remove_outputs repo scope keys b) s'" if "inv s'" "content s' = content s" for b s'
    using Cons.IH [OF that(1)] Cons.prems(2) that(2) by simp
  show ?case
    by (simp only: remove_outputs.simps x(1) not_True_eq_False if_False)
       (rule sound_present [OF Cons.prems(1) x(3)], simp add: x(2,4) IH)
qed simp

lemma sound_restore_outputs:
  assumes "inv s" "\<forall>r \<in> set rs. is_output scope (ro_key r) \<and> content s (ro_key r) = None \<and>
      (\<exists>x bs. ro_value r = output_from_domain x \<and> output_into_domain (output_from_domain x) = Ok x \<and>
        output_key_of scope (io_key x) = ro_key r \<and>
        encode_record (output_codec (rp_codecs repo)) (output_from_domain x) = Ok bs)"
  shows "sound (restore_outputs repo scope rs batch) s"
  using assms
proof (induction rs arbitrary: batch s)
  case (Cons r rs)
  then obtain x bs where x: "is_output scope (ro_key r)" "content s (ro_key r) = None"
      "ro_value r = output_from_domain x" "output_into_domain (output_from_domain x) = Ok x"
      "output_key_of scope (io_key x) = ro_key r"
      "encode_record (output_codec (rp_codecs repo)) (output_from_domain x) = Ok bs"
    by auto
  have IH: "sound (restore_outputs repo scope rs b) s'" if "inv s'" "content s' = content s" for b s'
    using Cons.IH [OF that(1)] Cons.prems(2) that(2) by simp
  have "sound (bind_eff (repo_get repo (output_codec (rp_codecs repo)) (ro_key r)) (\<lambda>existing.
      if existing \<noteq> None then throw restored_exists_error
      else let batch' = expect batch (ro_key r) (None :: output_record versioned_record option) in
        bind_eff (lift_result (batch_put (output_codec (rp_codecs repo)) batch' (ro_key r) (ro_value r)))
          (restore_outputs repo scope rs))) s"
    by (rule sound_absent [OF Cons.prems(1) x(2)]) (simp add: x(3) IH sound_put [OF x(6)])
  then show ?case using x(1,3-5) by simp
qed simp

text \<open>What was recorded of a spent output is the output itself.\<close>

lemma restored_valid:
  assumes ok: "index_ok (rp_codecs repo) (rp_scope repo) m" and out: "is_output (rp_scope repo) k"
    and bs: "m k = Some bs" "decode_record (output_codec (rp_codecs repo)) bs = Ok v"
    and good: "good_codecs (rp_codecs repo)"
  shows "\<exists>x. v = output_from_domain x \<and> output_into_domain (output_from_domain x) = Ok x \<and>
    output_key_of (rp_scope repo) (io_key x) = k \<and>
    encode_record (output_codec (rp_codecs repo)) (output_from_domain x) = Ok bs"
proof -
  from ok out bs(1) obtain x where
      x: "encode_record (output_codec (rp_codecs repo)) (output_from_domain x) = Ok bs"
      "amount_ok (io_amount x)" "output_key_of (rp_scope repo) (io_key x) = k"
    by (auto simp: index_ok_def output_entry_ok_def)
  from decode_encode [OF good_codecsD(3) [OF good] x(1)] bs(2) have "v = output_from_domain x" by simp
  with x output_roundtrip [OF x(2)] show ?thesis by blast
qed

text \<open>
  The contents a journal can be undone from: what it added is there and valid, what it restores is
  absent and valid, and the previous checkpoint can be encoded.
\<close>

definition history_removable :: "contents \<Rightarrow> key \<Rightarrow> bool" where
  "history_removable m k \<longleftrightarrow> is_history (rp_scope repo) k \<and>
     (\<exists>t. record_at (transaction_codec (rp_codecs repo)) m k = Some (transaction_from_domain t) \<and>
        transaction_into_domain (transaction_from_domain t) = Ok t)"

definition output_removable :: "contents \<Rightarrow> key \<Rightarrow> bool" where
  "output_removable m k \<longleftrightarrow> is_output (rp_scope repo) k \<and>
     (\<exists>x. record_at (output_codec (rp_codecs repo)) m k = Some (output_from_domain x) \<and>
        output_into_domain (output_from_domain x) = Ok x \<and> output_key_of (rp_scope repo) (io_key x) = k)"

definition restorable :: "contents \<Rightarrow> restored_output \<Rightarrow> bool" where
  "restorable m r \<longleftrightarrow> is_output (rp_scope repo) (ro_key r) \<and> m (ro_key r) = None \<and>
     (\<exists>x bs. ro_value r = output_from_domain x \<and> output_into_domain (output_from_domain x) = Ok x \<and>
        output_key_of (rp_scope repo) (io_key x) = ro_key r \<and>
        encode_record (output_codec (rp_codecs repo)) (output_from_domain x) = Ok bs)"

definition removable :: "contents \<Rightarrow> journal_record \<Rightarrow> bool" where
  "removable m j \<longleftrightarrow>
     list_all (history_removable m) (jr_history_keys j) \<and>
     list_all (output_removable m) (jr_remove_output_keys j) \<and>
     list_all (restorable m) (jr_restore_outputs j) \<and>
     (\<forall>v \<in> set_option (jr_previous_checkpoint j). \<exists>bs. encode_record (block_codec (rp_codecs repo)) v = Ok bs)"

lemma added_history_removable:
  assumes after: "index_after (rp_codecs repo) (rp_scope repo) a m m'"
    and ok: "addition_ok a" "addition_amounts_ok a" and e: "e \<in> set (history_entries (ba_transactions a))"
  shows "history_removable m' (hkey e)"
proof -
  obtain t address where ta: "e = (t, address)" by fastforce
  with e have t: "t \<in> set (ba_transactions a)" by (auto simp: history_entries_def)
  then have "transaction_amounts_ok t" "transaction_ok (ba_scope a) (ba_block a) t"
    using ok by (auto simp: addition_ok_def addition_amounts_ok_def list_all_iff)
  then have "transaction_into_domain (transaction_from_domain t) = Ok t"
    by (intro transaction_roundtrip) (simp_all add: transaction_ok_def)
  moreover have "is_history (rp_scope repo) (hkey e)" by (simp add: is_history_def key_split)
  ultimately show ?thesis
    unfolding history_removable_def using index_afterD(2) [OF after e [unfolded ta]] ta by auto
qed

lemma added_output_removable:
  assumes after: "index_after (rp_codecs repo) (rp_scope repo) a m m'"
    and ok: "addition_amounts_ok a" and x: "x \<in> set (oc_created (ba_outputs a))"
  shows "output_removable m' (okey (io_key x))"
proof -
  have "amount_ok (io_amount x)" using ok x by (simp add: addition_amounts_ok_def list_all_iff)
  moreover have "is_output (rp_scope repo) (okey (io_key x))" by (simp add: is_output_def key_split)
  ultimately show ?thesis
    unfolding output_removable_def using index_afterD(3) [OF after x] output_roundtrip by blast
qed

lemma added_restorable:
  assumes add: "added a m us j" and after: "index_after (rp_codecs repo) (rp_scope repo) a m m'"
    and old: "index_ok (rp_codecs repo) (rp_scope repo) m" and good: "good_codecs (rp_codecs repo)"
    and r: "r \<in> set (jr_restore_outputs j)"
  shows "restorable m' r"
proof -
  have keys: "map ro_key (jr_restore_outputs j) =
      map (\<lambda>(k, q). okey k) (filter (\<lambda>(k, q). m (okey k) \<noteq> None) (spend_keys a))"
    and vals: "list_all (\<lambda>r. \<exists>bs. m (ro_key r) = Some bs \<and>
      decode_record (output_codec (rp_codecs repo)) bs = Ok (ro_value r)) (jr_restore_outputs j)"
    using add unfolding added_def journal_of_def by simp_all
  from r have "ro_key r \<in> set (map ro_key (jr_restore_outputs j))" by simp
  then obtain k where k: "k \<in> set (spent_keys_of a)" "ro_key r = okey k"
    unfolding keys by (auto simp: spend_keys_def spent_keys_of_def)
  have out: "is_output (rp_scope repo) (ro_key r)" by (simp add: k(2) is_output_def key_split)
  from vals r obtain bs where
      bs: "m (ro_key r) = Some bs" "decode_record (output_codec (rp_codecs repo)) bs = Ok (ro_value r)"
    by (auto simp: list_all_iff)
  from restored_valid [OF old out bs good] index_afterD(4) [OF after k(1)] out k(2) show ?thesis
    unfolding restorable_def by auto
qed

lemma added_removable:
  assumes add: "added a m us j" and after: "index_after (rp_codecs repo) (rp_scope repo) a m m'"
    and ok: "addition_ok a" "addition_amounts_ok a"
    and old: "index_ok (rp_codecs repo) (rp_scope repo) m" and good: "good_codecs (rp_codecs repo)"
  shows "removable m' j"
proof -
  have j: "jr_previous_checkpoint j = map_option block_from_domain (ba_expected_checkpoint a)"
      "jr_history_keys j = map hkey (history_entries (ba_transactions a))"
      "jr_remove_output_keys j = map (\<lambda>x. okey (io_key x)) (oc_created (ba_outputs a))"
    and cp: "checkpoint_is m (ba_expected_checkpoint a)"
    using add unfolding added_def journal_of_def by simp_all
  have "\<exists>bs. encode_record (block_codec (rp_codecs repo)) v = Ok bs" if "jr_previous_checkpoint j = Some v" for v
  proof -
    from that cp obtain bs where
        bs: "m ckey = Some bs" "decode_record (block_codec (rp_codecs repo)) bs = Ok v"
      by (auto simp: checkpoint_is_def j(1))
    have "encoded_at (block_codec (rp_codecs repo)) m ckey" using old by (simp add: index_ok_def)
    from encoded_decode [OF good_codecsD(1) [OF good] this bs] show ?thesis by blast
  qed
  then show ?thesis
    unfolding removable_def j(2,3) list_all_iff
    using added_history_removable [OF after ok] added_output_removable [OF after ok(2)]
      added_restorable [OF add after old good] by auto
qed

lemma sound_undo:
  assumes "removable (content s) j" "inv s" "\<And>b s'. sound (f b) s'"
  shows "sound (bind_eff (remove_history repo (rp_scope repo) (jr_history_keys j) batch) (\<lambda>batch.
      bind_eff (remove_outputs repo (rp_scope repo) (jr_remove_output_keys j) batch) (\<lambda>batch.
      bind_eff (restore_outputs repo (rp_scope repo) (jr_restore_outputs j) batch) f))) s"
proof (rule sound_bind)
  show "sound (remove_history repo (rp_scope repo) (jr_history_keys j) batch) s"
    using assms(1) by (intro sound_remove_history assms(2)) (auto simp: removable_def list_all_iff history_removable_def)
next
  fix b t
  assume "remove_history repo (rp_scope repo) (jr_history_keys j) batch s = (Ok b, t)"
  from quietD [OF remove_history_quiet assms(2) this] have t: "inv t" "content t = content s"
    by (simp_all add: content_def)
  show "sound (bind_eff (remove_outputs repo (rp_scope repo) (jr_remove_output_keys j) b) (\<lambda>batch.
      bind_eff (restore_outputs repo (rp_scope repo) (jr_restore_outputs j) batch) f)) t"
  proof (rule sound_bind)
    show "sound (remove_outputs repo (rp_scope repo) (jr_remove_output_keys j) b) t"
      using assms(1) t(2) by (intro sound_remove_outputs t(1)) (auto simp: removable_def list_all_iff output_removable_def)
  next
    fix b' t'
    assume "remove_outputs repo (rp_scope repo) (jr_remove_output_keys j) b t = (Ok b', t')"
    from quietD [OF remove_outputs_quiet t(1) this] have t': "inv t'" "content t' = content s"
      using t(2) by (simp_all add: content_def)
    have "sound (restore_outputs repo (rp_scope repo) (jr_restore_outputs j) b') t'"
      using assms(1) t'(2) by (intro sound_restore_outputs t'(1)) (auto simp: removable_def list_all_iff restorable_def)
    then show "sound (bind_eff (restore_outputs repo (rp_scope repo) (jr_restore_outputs j) b') f) t'"
      by (rule sound_bind) (rule assms(3))
  qed
qed

lemma sound_remove_tip:
  assumes inv: "inv s" and ck: "record_at (block_codec (rp_codecs repo)) (content s) ckey = Some (block_from_domain tip)"
    and jr: "record_at (journal_codec (rp_codecs repo)) (content s) (jkey (br_height tip)) = Some j"
    and j: "journal_block j = tip" "removable (content s) j"
  shows "sound (remove_tip repo (rp_scope repo) tip) s"
proof -
  have finish: "sound (bind_eff (lift_result
       (case jr_previous_checkpoint j of
          Some v \<Rightarrow> batch_put (block_codec (rp_codecs repo)) batch ckey v
        | None \<Rightarrow> Ok (batch_delete batch ckey))) (\<lambda>batch.
       bind_eff (store_call (so_commit (rp_store repo) batch)) (\<lambda>_. ret x))) s'" for batch s' x
  proof -
    have commit: "sound (bind_eff (store_call (so_commit (rp_store repo) b)) (\<lambda>_. ret x)) t" for b t
      by (rule sound_bind) simp_all
    show ?thesis
      using j(2) by (cases "jr_previous_checkpoint j") (auto simp: removable_def commit intro: sound_put)
  qed
  show ?thesis
    unfolding remove_tip_def check_scope_def Let_def
    by (simp only: refl if_True sound_lift)
       (rule sound_present [OF inv ck], simp, rule sound_present,
        auto simp: jr j intro!: sound_undo [of _ j] finish)
qed

text \<open>
  A block that was added can be removed: the removal either restores the previous checkpoint and
  contents, or reports a failure of the store.
\<close>

lemma write_remove:
  assumes inv: "inv s" and run: "write_block repo a s = (Ok Applied, s1)"
    and ok: "addition_ok a" "addition_sized a" "addition_amounts_ok a"
    and old: "index_ok (rp_codecs repo) (rp_scope repo) (content s)"
    and rem: "remove_tip repo (rp_scope repo) (ba_block a) s1 = (r, s2)"
  shows "r = Ok (ba_expected_checkpoint a) \<and>
      (\<forall>k. k \<notin> pruned_keys (rp_scope repo) a \<longrightarrow> content s2 k = content s k) \<or>
    (\<exists>c. r = Err (index_storage_error c))"
proof -
  from write_block_law [OF inv run] obtain us j where
      s1: "inv s1" "added a (content s) us j" "content s1 = updated us (content s)"
    by (auto simp: block_added_def)
  have scope: "ba_scope a = rp_scope repo" using run foreign_scope_fails [of a s] by auto
  have ret: "ba_retention a \<noteq> 0" using ok(1) by (simp add: addition_ok_def)
  note good = codec_law [OF inv]
  have after: "index_after (rp_codecs repo) (rp_scope repo) a (content s) (content s1)"
    using added_effect [OF s1(2) ok(1,2) scope good] by (simp add: s1(3))
  from added_journal [OF s1(2) ret good] have
      jr: "record_at (journal_codec (rp_codecs repo)) (content s1) (jkey (br_height (ba_block a))) = Some j"
    by (auto simp: s1(3) record_at_Some)
  have jblock: "journal_block j = ba_block a"
    using s1(2) by (simp add: added_def journal_of_def journal_block_def)
  have "sound (remove_tip repo (rp_scope repo) (ba_block a)) s1"
    by (rule sound_remove_tip [OF s1(1) index_afterD(1) [OF after] jr jblock
          added_removable [OF s1(2) after ok(1,3) old good]])
  from soundD [OF this rem] show ?thesis
    using write_remove_restores [OF inv run ret index_ok_encoded [OF old], of _ s2] rem
    by (auto simp: write_remove_pruned)
qed

text \<open>Additions keep the invariant of the stored outputs.\<close>

lemma added_index_ok:
  assumes add: "added a m us j" and amounts: "addition_amounts_ok a"
    and old: "index_ok (rp_codecs repo) (rp_scope repo) m"
  shows "index_ok (rp_codecs repo) (rp_scope repo) (updated us m)"
proof -
  have "output_entry_ok (rp_codecs repo) (rp_scope repo) (updated us m) k" if out: "is_output (rp_scope repo) k" for k
    using updated_cases [of us m k]
  proof
    assume "updated us m k = m k"
    then show ?thesis using old out by (simp add: index_ok_def output_entry_ok_def)
  next
    assume "(k, updated us m k) \<in> set us"
    with add show ?thesis
    proof (cases rule: added_parts)
      case (created x bs)
      then show ?thesis using amounts by (auto simp: output_entry_ok_def addition_amounts_ok_def list_all_iff)
    qed (use out output_keys_only in \<open>auto simp: output_entry_ok_def\<close>)
  qed
  moreover have "encoded_at (block_codec (rp_codecs repo)) (updated us m) ckey"
    using added_encoded [OF add index_ok_encoded [OF old]] by (simp add: index_encoded_def)
  ultimately show ?thesis by (simp add: index_ok_def)
qed

lemma write_block_index_ok:
  assumes "inv s" "write_block repo a s = (r, s')" "addition_amounts_ok a"
    and "index_ok (rp_codecs repo) (rp_scope repo) (content s)"
  shows "inv s' \<and> index_ok (rp_codecs repo) (rp_scope repo) (content s')"
proof -
  have "index_ok (rp_codecs repo) (rp_scope repo) (content s')" if "block_added a s s'"
    using that added_index_ok [OF _ assms(3,4)] by (auto simp: block_added_def)
  moreover have "index_ok (rp_codecs repo) (rp_scope repo) (content s')" if "view s' = view s"
    using that assms(4) by (simp add: content_def)
  ultimately show ?thesis
    using write_block_law [OF assms(1,2)] by (auto split: sum.splits block_outcome.splits)
qed

end

section \<open>A block on a concrete database\<close>

definition demo_scope :: index_scope where
  "demo_scope = IndexScope (ChainId ''a'') ''b''"

definition only_codec :: "'t \<Rightarrow> 't codec" where
  "only_codec x = \<lparr>cd_encode = \<lambda>r. if r = x then Ok [7] else Err '''',
     cd_decode = \<lambda>bs. if bs = [7] then Ok (x, 1) else Err ''''\<rparr>"

definition demo_block :: block_ref where
  "demo_block = \<lparr>br_position = 5, br_height = 5, br_hash = [1], br_parent = None, br_timestamp = None\<rparr>"

definition demo_address :: canonical_address where
  "demo_address = CanonicalAddress demo_scope ''x''"

definition demo_output :: indexed_output where
  "demo_output = \<lparr>io_id = OutputId (TransactionRef demo_scope ''t'') 0, io_address = demo_address,
     io_asset = AssetId (ChainId ''a'') ''n'', io_amount = \<lparr>coefficient = 5, scale = 0\<rparr>, io_evidence = [],
     io_created_at = 5, io_coinbase = False\<rparr>"

definition demo_transaction :: canonical_transaction where
  "demo_transaction = \<lparr>ct_scope = demo_scope, ct_id = TransactionRef demo_scope ''t'',
     ct_status = CanonicalIncluded demo_block,
     ct_movements = [Mint (MovementId ''m'') (AssetId (ChainId ''a'') ''n'') \<lparr>coefficient = 5, scale = 0\<rparr> demo_address],
     ct_fee = None\<rparr>"

definition demo_addition :: block_addition where
  "demo_addition = \<lparr>ba_scope = demo_scope, ba_expected_checkpoint = None, ba_retention = 3, ba_block = demo_block,
     ba_transactions = [demo_transaction],
     ba_outputs = \<lparr>oc_created = [demo_output], oc_spent = [], oc_tracked_spends = []\<rparr>\<rparr>"


definition demo_journal :: journal_record where
  "demo_journal = \<lparr>jr_block = block_from_domain demo_block, jr_previous_checkpoint = None,
     jr_history_keys = [history_key demo_scope demo_address 5 (ct_id demo_transaction)],
     jr_remove_output_keys = [output_key_of demo_scope (io_key demo_output)], jr_restore_outputs = []\<rparr>"

definition demo_codecs :: codecs where
  "demo_codecs = \<lparr>block_codec = only_codec (block_from_domain demo_block),
     transaction_codec = only_codec (transaction_from_domain demo_transaction),
     output_codec = only_codec (output_from_domain demo_output),
     journal_codec = only_codec demo_journal\<rparr>"

lemma codec_ok_only: "codec_ok (only_codec x)"
  by (simp add: codec_ok_def only_codec_def)

lemma good_demo_codecs: "good_codecs demo_codecs"
  by (simp add: good_codecs_def demo_codecs_def codec_ok_only)

lemma only_codec_simps [simp]:
  "encode_record (only_codec x) x = Ok [7]" "decode_record (only_codec x) [7] = Ok x"
  by (simp_all add: encode_record_def decode_record_def only_codec_def result_simps)

definition demo_physical_key :: "key \<Rightarrow> bytes" where
  "demo_physical_key k = (case encode_physical_key NAMESPACE k of Ok p \<Rightarrow> p | Err _ \<Rightarrow> [])"

abbreviation demo_checkpoint_key :: key where
  "demo_checkpoint_key \<equiv> checkpoint_key demo_scope"

abbreviation demo_journal_key :: key where
  "demo_journal_key \<equiv> journal_key demo_scope 5"

abbreviation demo_pruned_key :: key where
  "demo_pruned_key \<equiv> journal_key demo_scope 2"

abbreviation demo_history_key :: key where
  "demo_history_key \<equiv> history_key demo_scope demo_address 5 (ct_id demo_transaction)"

abbreviation demo_output_key :: key where
  "demo_output_key \<equiv> output_key_of demo_scope (io_key demo_output)"


lemma demo_keys_encoded:
  "encode_physical_key NAMESPACE demo_checkpoint_key = Ok (demo_physical_key demo_checkpoint_key)"
  "encode_physical_key NAMESPACE demo_journal_key = Ok (demo_physical_key demo_journal_key)"
  "encode_physical_key NAMESPACE demo_pruned_key = Ok (demo_physical_key demo_pruned_key)"
  "encode_physical_key NAMESPACE demo_history_key = Ok (demo_physical_key demo_history_key)"
  "encode_physical_key NAMESPACE demo_output_key = Ok (demo_physical_key demo_output_key)"
  by code_simp+

lemma demo_key_order:
  "demo_physical_key demo_checkpoint_key < demo_physical_key demo_pruned_key" "demo_physical_key demo_pruned_key < demo_physical_key demo_journal_key" "demo_physical_key demo_journal_key < demo_physical_key demo_history_key" "demo_physical_key demo_history_key < demo_physical_key demo_output_key"
  by code_simp+

lemma demo_key_order_more:
  "demo_physical_key demo_checkpoint_key < demo_physical_key demo_journal_key" "demo_physical_key demo_checkpoint_key < demo_physical_key demo_history_key" "demo_physical_key demo_checkpoint_key < demo_physical_key demo_output_key" "demo_physical_key demo_pruned_key < demo_physical_key demo_history_key" "demo_physical_key demo_pruned_key < demo_physical_key demo_output_key" "demo_physical_key demo_journal_key < demo_physical_key demo_output_key"
  using demo_key_order by order+

lemmas demo_keys_distinct = demo_key_order [THEN less_imp_neq] demo_key_order_more [THEN less_imp_neq]
lemmas demo_key_table = demo_key_order demo_key_order_more demo_keys_distinct demo_keys_distinct [THEN not_sym]
  demo_key_order [THEN less_not_sym] demo_key_order_more [THEN less_not_sym]

lemma calm_get:
  assumes "be_open s" "encode_physical_key ns k = Ok p" "transpose_map (decode_value fixed_bincode) (map_of (be_data s) p) = Ok v"
  shows "backend_get calm_redb ns k s = (Ok v, s\<lparr>be_tick := be_tick s + 3\<rparr>)"
  using assms by (simp add: backend_get_def get_once_def calm_steps)

definition demo_value :: "version \<Rightarrow> bytes" where
  "demo_value n = VALUE_MAGIC @ record_layout \<lparr>rec_storage_version = n, rec_payload = [7]\<rparr>"

lemma demo_read:
  assumes "be_open s" "encode_physical_key NAMESPACE k = Ok p" "map_of (be_data s) p = v" "v = None \<or> v = Some (demo_value n)" "n \<noteq> 0"
  shows "repo_get (redb_repository calm_redb cs demo_scope) (only_codec x) k s =
    (Ok (case v of None \<Rightarrow> None | Some _ \<Rightarrow> Some \<lparr>vr_value = x, vr_version = n\<rparr>), s\<lparr>be_tick := be_tick s + 3\<rparr>)"
proof (cases v)
  case None
  then have "backend_get calm_redb NAMESPACE k s = (Ok None, s\<lparr>be_tick := be_tick s + 3\<rparr>)"
    using assms(3) by (intro calm_get [OF assms(1,2)]) (simp add: transpose_map_def)
  with None show ?thesis by (simp add: repo_get_def store_call_def bind_eff_apply transpose_map_def)
next
  case (Some w)
  then have "backend_get calm_redb NAMESPACE k s = (Ok (Some \<lparr>sv_value = [7], sv_version = n\<rparr>), s\<lparr>be_tick := be_tick s + 3\<rparr>)"
    using assms(3-5) by (intro calm_get [OF assms(1,2)]) (simp add: transpose_map_def demo_value_def decode_layout_value)
  with Some show ?thesis by (simp add: repo_get_def store_call_def bind_eff_apply transpose_map_def)
qed

lemma demo_repo_simps:
  "block_codec demo_codecs = only_codec (block_from_domain demo_block)"
  "transaction_codec demo_codecs = only_codec (transaction_from_domain demo_transaction)"
  "output_codec demo_codecs = only_codec (output_from_domain demo_output)"
  "journal_codec demo_codecs = only_codec demo_journal"
  by (simp_all add: demo_codecs_def)

lemma demo_addition_simps:
  "ba_scope demo_addition = demo_scope" "ba_expected_checkpoint demo_addition = None"
  "ba_retention demo_addition = 3" "ba_block demo_addition = demo_block" "br_height demo_block = 5"
  "history_entries (ba_transactions demo_addition) = [(demo_transaction, demo_address)]"
  "ba_outputs demo_addition = \<lparr>oc_created = [demo_output], oc_spent = [], oc_tracked_spends = []\<rparr>"
  "ct_block demo_transaction = demo_block"
proof -
  have "ct_addresses demo_transaction = [demo_address]" by code_simp
  then show "history_entries (ba_transactions demo_addition) = [(demo_transaction, demo_address)]"
    by (simp add: history_entries_def demo_addition_def)
qed (simp_all add: demo_addition_def demo_block_def demo_transaction_def ct_block_def)

definition demo_written :: backend where
  "demo_written = \<lparr>be_open = True,
     be_data = [(demo_physical_key demo_checkpoint_key, demo_value 1), (demo_physical_key demo_journal_key, demo_value 1), (demo_physical_key demo_history_key, demo_value 1), (demo_physical_key demo_output_key, demo_value 1)],
     be_meta = [(GLOBAL_VERSION_KEY, GLOBAL_VERSION_MAGIC @ u64_be 1)], be_tick = 30\<rparr>"

lemma empty_get:
  "encode_physical_key NAMESPACE k = Ok p \<Longrightarrow>
   repo_get (redb_repository calm_redb cs demo_scope) (only_codec x) k (empty_backend\<lparr>be_tick := n\<rparr>) =
    (Ok None, empty_backend\<lparr>be_tick := n + 3\<rparr>)"
  using demo_read [of "empty_backend\<lparr>be_tick := n\<rparr>" k p None 1 cs x] by (simp add: empty_backend_def)

lemma demo_journal_eq:
  "\<lparr>jr_block = block_from_domain demo_block, jr_previous_checkpoint = None, jr_history_keys = [demo_history_key],
    jr_remove_output_keys = [demo_output_key], jr_restore_outputs = []\<rparr> = demo_journal"
  by (simp add: demo_journal_def)

definition demo_block_commit_batch :: write_batch where
  "demo_block_commit_batch = \<lparr>wb_conditions = [Missing NAMESPACE demo_checkpoint_key, Missing NAMESPACE demo_journal_key, Missing NAMESPACE demo_history_key, Missing NAMESPACE demo_output_key],
     wb_operations = [Put NAMESPACE demo_history_key [7], Put NAMESPACE demo_output_key [7], Put NAMESPACE demo_journal_key [7], Put NAMESPACE demo_checkpoint_key [7],
       Delete NAMESPACE demo_pruned_key]\<rparr>"

lemma demo_frame:
  "and_then (stored_record_new [7] 1) (stored_record_encode fixed_bincode) = Ok (demo_value 1)"
  by (simp add: stored_record_new_def stored_record_encode_def demo_value_def MAX_STORED_PAYLOAD_BYTES_def fixed_bincode_def) 

lemma demo_block_commit:
  "backend_commit calm_redb demo_block_commit_batch (empty_backend\<lparr>be_tick := n\<rparr>) =
    (Ok 1, demo_written\<lparr>be_tick := n + 16\<rparr>)"
proof -
  have "checked_add (0 :: version) 1 = Some 1" by (simp add: checked_add_def)
  moreover have "global_version_new (1 :: version) = Ok (GlobalVersion 1)"
    by (simp add: global_version_new_def)
  moreover have "current_version calm_redb [] = Ok 0" by (simp add: current_version_def)
  ultimately show ?thesis
    by (simp add: backend_commit_def commit_once_def calm_steps demo_block_commit_batch_def demo_keys_encoded empty_backend_def
        demo_frame global_version_encode_def demo_written_def demo_key_table)
qed

lemma demo_write:
  "write_block (redb_repository calm_redb demo_codecs demo_scope) demo_addition (empty_backend\<lparr>be_tick := 0\<rparr>) = (Ok Applied, demo_written\<lparr>be_tick := 28\<rparr>)"
proof -
  have "store_call (backend_commit calm_redb demo_block_commit_batch) (empty_backend\<lparr>be_tick := 12\<rparr>) =
      (Ok 1, demo_written\<lparr>be_tick := 28\<rparr>)"
    by (simp add: store_call_def demo_block_commit)
  then show ?thesis
    unfolding write_block_def
    by (simp add: check_scope_def demo_addition_simps demo_repo_simps empty_get demo_keys_encoded Let_def bind_eff_apply
      batch_put_def demo_journal_eq expect_def batch_delete_def empty_batch_def demo_block_commit_batch_def)
qed

lemma written_get:
  "encode_physical_key NAMESPACE k = Ok p \<Longrightarrow> p \<in> {demo_physical_key demo_checkpoint_key, demo_physical_key demo_journal_key, demo_physical_key demo_history_key, demo_physical_key demo_output_key} \<Longrightarrow>
   repo_get (redb_repository calm_redb cs demo_scope) (only_codec x) k (demo_written\<lparr>be_tick := n\<rparr>) =
    (Ok (Some \<lparr>vr_value = x, vr_version = 1\<rparr>), demo_written\<lparr>be_tick := n + 3\<rparr>)"
  using demo_read [of "demo_written\<lparr>be_tick := n\<rparr>" k p "Some (demo_value 1)" 1 cs x]
  by (auto simp: demo_written_def demo_key_table)

lemma demo_amount: "amount_ok \<lparr>coefficient = 5, scale = 0\<rparr>"
  by (simp add: amount_ok_def canonical_def)

lemma demo_into_domain:
  "transaction_into_domain (transaction_from_domain demo_transaction) = Ok demo_transaction"
  "output_into_domain (output_from_domain demo_output) = Ok demo_output"
  using demo_amount
  by (auto intro!: transaction_roundtrip output_roundtrip simp: demo_transaction_def demo_output_def transaction_amounts_ok_def)

lemma demo_tags: "is_history demo_scope demo_history_key" "is_output demo_scope demo_output_key"
  by code_simp+

lemma demo_journal_simps:
  "journal_block demo_journal = demo_block" "jr_previous_checkpoint demo_journal = None" "jr_history_keys demo_journal = [demo_history_key]"
  "jr_remove_output_keys demo_journal = [demo_output_key]" "jr_restore_outputs demo_journal = []"
  by (simp_all add: demo_journal_def journal_block_def)

definition demo_removal_batch :: write_batch where
  "demo_removal_batch = \<lparr>wb_conditions = map (\<lambda>k. VersionIs NAMESPACE k 1) [demo_checkpoint_key, demo_journal_key, demo_history_key, demo_output_key],
     wb_operations = map (Delete NAMESPACE) [demo_history_key, demo_output_key, demo_journal_key, demo_checkpoint_key]\<rparr>"

lemma demo_value_decode: "decode_value fixed_bincode (demo_value 1) = Ok \<lparr>sv_value = [7], sv_version = 1\<rparr>"
  by (simp add: demo_value_def decode_layout_value)

lemma demo_removal_commit:
  "\<exists>s. backend_commit calm_redb demo_removal_batch (demo_written\<lparr>be_tick := n\<rparr>) = (Ok 2, s)"
proof -
  have "checked_add (1 :: version) 1 = Some 2" by (simp add: checked_add_def)
  moreover have "global_version_new (2 :: version) = Ok (GlobalVersion 2)"
    by (simp add: global_version_new_def)
  moreover have "current_version calm_redb [(GLOBAL_VERSION_KEY, GLOBAL_VERSION_MAGIC @ u64_be 1)] = Ok 1"
    by (simp add: current_version_def global_version_decode_def validate_frame_prefix_def fixed_bincode_def)
  ultimately show ?thesis
    by (simp add: backend_commit_def commit_once_def calm_steps demo_removal_batch_def demo_keys_encoded demo_written_def
        demo_value_decode global_version_encode_def demo_key_table)
qed

lemma demo_remove:
  "\<exists>s. remove_tip (redb_repository calm_redb demo_codecs demo_scope) demo_scope demo_block
     (demo_written\<lparr>be_tick := 28\<rparr>) = (Ok None, s)"
proof -
  obtain s where "store_call (backend_commit calm_redb demo_removal_batch) (demo_written\<lparr>be_tick := 40\<rparr>) = (Ok 2, s)"
    using demo_removal_commit [of 40] by (auto simp: store_call_def)
  then show ?thesis
    unfolding remove_tip_def
    by (simp add: check_scope_def demo_addition_simps demo_repo_simps written_get demo_keys_encoded Let_def bind_eff_apply
      demo_into_domain demo_tags demo_journal_simps expect_def batch_delete_def empty_batch_def demo_removal_batch_def)
qed

lemma demo_again:
  "write_block (redb_repository calm_redb demo_codecs demo_scope) demo_addition (demo_written\<lparr>be_tick := 28\<rparr>) =
    (Ok AlreadyApplied, demo_written\<lparr>be_tick := 34\<rparr>)"
  unfolding write_block_def
  by (simp add: check_scope_def demo_addition_simps demo_repo_simps written_get demo_keys_encoded Let_def bind_eff_apply
      demo_journal_simps)

lemma demo_addition_ok: "addition_ok demo_addition" "addition_sized demo_addition"
proof -
  show "addition_ok demo_addition" by code_simp
qed code_simp


lemma empty_index: "index_contents calm_redb empty_backend k = None"
  by (simp add: index_contents_def vals_def backend_view_def raw_view_def empty_backend_def split: sum.splits)

lemma empty_index_ok: "index_ok cs scope (index_contents calm_redb empty_backend)"
  by (simp add: index_ok_def encoded_at_def output_entry_ok_def empty_index)

lemma demo_amounts_ok: "addition_amounts_ok demo_addition"
  using demo_amount
  by (simp add: addition_amounts_ok_def demo_addition_def demo_output_def demo_transaction_def transaction_amounts_ok_def)

section \<open>Properties\<close>

text \<open>
  C2. Adding a block is all or nothing. When it reports success, the checkpoint and the journal name
  the block, its history and created outputs are stored, every output it spends is gone, and
  nothing else changed but the journal entry outside the retention window; when it reports the
  block as already applied, nothing changed and the block is the checkpoint; when it fails, nothing
  changed, or the failure is a retryable store failure of a batch that became durable as a whole.
\<close>

theorem write_block_outcome:
  assumes "redb_ok rd s" "good_codecs cs" "addition_ok a" "addition_sized a"
    and "write_block (redb_repository rd cs scope) a s = (r, s')"
  shows "case r of
       Ok Applied \<Rightarrow> index_after cs scope a (index_contents rd s) (index_contents rd s')
     | Ok AlreadyApplied \<Rightarrow> backend_view rd s' = backend_view rd s \<and>
         record_at (block_codec cs) (index_contents rd s) (checkpoint_key scope) = Some (block_from_domain (ba_block a))
     | Err e \<Rightarrow> backend_view rd s' = backend_view rd s \<or> ie_kind e = StoreFailure \<and> ie_retryable e \<and>
         index_after cs scope a (index_contents rd s) (index_contents rd s')"
  using redb_index.write_block_effect [of rd s cs scope a r s', unfolded redb_repository_simps redb_index_content] assms
  by simp

theorem write_block_outcome_witness:
  "index_after demo_codecs demo_scope demo_addition (index_contents calm_redb empty_backend)
     (index_contents calm_redb (demo_written\<lparr>be_tick := 28\<rparr>))"
  using write_block_outcome [OF empty_backend_ok good_demo_codecs demo_addition_ok, of calm_redb demo_scope "Ok Applied"]
    demo_write fixed_bincode_ok by (simp add: empty_backend_def)

text \<open>
  Adding a block is idempotent: adding the block that was just added changes nothing and reports
  it as already applied, or reports a failure of the store.
\<close>

theorem write_block_idempotent:
  assumes "redb_ok rd s" "good_codecs cs" "ba_retention a \<noteq> 0"
    and "write_block (redb_repository rd cs scope) a s = (Ok Applied, s1)"
    and "write_block (redb_repository rd cs scope) a s1 = (r, s2)"
  shows "backend_view rd s2 = backend_view rd s1 \<and>
    (r = Ok AlreadyApplied \<or> (\<exists>e. r = Err (index_storage_error e)))"
  using redb_index.write_block_again [OF _ assms(4,3,5)] assms(1,2) by blast

theorem write_block_idempotent_witness:
  "backend_view calm_redb (demo_written\<lparr>be_tick := 34\<rparr>) = backend_view calm_redb (demo_written\<lparr>be_tick := 28\<rparr>)"
  using write_block_idempotent [OF empty_backend_ok good_demo_codecs, of calm_redb demo_addition demo_scope]
    demo_write demo_again fixed_bincode_ok by (simp add: demo_addition_simps empty_backend_def)

text \<open>
  C1. Rollback is exact: after a block was added to a valid index, removing it restores the previous
  checkpoint and every byte of the index, except for the journal entry that the addition pruned.
  The only other outcome is a failure of the store.
\<close>

theorem remove_tip_restores:
  assumes "redb_ok rd s" "good_codecs cs" "index_ok cs scope (index_contents rd s)"
    and "addition_ok a" "addition_sized a" "addition_amounts_ok a"
    and "write_block (redb_repository rd cs scope) a s = (Ok Applied, s1)"
    and "remove_tip (redb_repository rd cs scope) scope (ba_block a) s1 = (r, s2)"
  shows "r = Ok (ba_expected_checkpoint a) \<and>
      (\<forall>k. k \<notin> pruned_keys scope a \<longrightarrow> index_contents rd s2 k = index_contents rd s k) \<or>
    (\<exists>e. r = Err (index_storage_error e))"
  using redb_index.write_remove [of rd s cs scope a s1 r s2] assms by simp

theorem remove_tip_restores_witness:
  "\<exists>s. remove_tip (redb_repository calm_redb demo_codecs demo_scope) demo_scope demo_block
       (demo_written\<lparr>be_tick := 28\<rparr>) = (Ok None, s) \<and>
     index_contents calm_redb s demo_output_key = None"
proof -
  obtain s where s: "remove_tip (redb_repository calm_redb demo_codecs demo_scope) demo_scope demo_block
      (demo_written\<lparr>be_tick := 28\<rparr>) = (Ok None, s)"
    using demo_remove by blast
  have "demo_output_key \<notin> pruned_keys demo_scope demo_addition"
    using demo_key_table demo_keys_encoded by (auto simp: pruned_keys_def demo_addition_simps)
  then show ?thesis
    using remove_tip_restores [OF empty_backend_ok good_demo_codecs empty_index_ok demo_addition_ok demo_amounts_ok,
        of demo_scope "demo_written\<lparr>be_tick := 28\<rparr>" "Ok None" s] s demo_write fixed_bincode_ok empty_index
    by (simp add: demo_addition_simps empty_backend_def)
qed

text \<open>
  C8. Whatever the outcome of adding a block, the tables stay well formed and every stored output is
  the encoding of a valid output under its own key.
\<close>

theorem write_block_keeps_index:
  assumes "redb_ok rd s" "good_codecs cs" "index_ok cs scope (index_contents rd s)" "addition_amounts_ok a"
    and "write_block (redb_repository rd cs scope) a s = (r, s')"
  shows "redb_ok rd s' \<and> index_ok cs scope (index_contents rd s')"
  using redb_index.write_block_index_ok [of rd s cs scope a r s'] assms by simp

theorem write_block_keeps_index_witness:
  "index_ok demo_codecs demo_scope (index_contents calm_redb (demo_written\<lparr>be_tick := 28\<rparr>))"
  using write_block_keeps_index [OF empty_backend_ok good_demo_codecs empty_index_ok demo_amounts_ok,
      of demo_scope "Ok Applied"] demo_write fixed_bincode_ok by (simp add: empty_backend_def)

end
