(* ===== verification/Index_Chain.thy ===== *)
theory Index_Chain
  imports Index_Guarantees
begin

text \<open>
  The block repository as an abstract chain: the checkpoint and, for each retained height, the block
  and its predecessor. Adding a block and removing the tip of the redb index are refinements of two
  functions on chains, and the chain stays linked. The interface \<open>block_repository\<close> states this for the
  clients of the \<open>Blocks\<close> trait (\<open>sdk/indexing/src/block.rs\<close>).
\<close>

section \<open>Abstract chains\<close>

record chain_state =
  ch_tip :: "block_ref option"
  ch_journal :: "block_height \<rightharpoonup> block_ref \<times> block_ref option"

fun chain_get :: "chain_state \<Rightarrow> block_selector \<Rightarrow> block_ref option" where
  "chain_get c (Tip scope) = ch_tip c"
| "chain_get c (AtHeight scope height) = map_option fst (ch_journal c height)"

definition chain_can_add :: "block_addition \<Rightarrow> chain_state \<Rightarrow> bool" where
  "chain_can_add a c \<longleftrightarrow>
     ch_tip c = ba_expected_checkpoint a \<and> ch_journal c (br_height (ba_block a)) = None"

definition chain_add :: "block_addition \<Rightarrow> chain_state \<Rightarrow> chain_state" where
  "chain_add a c =
     (let h = br_height (ba_block a);
          kept = (ch_journal c)(h \<mapsto> (ba_block a, ba_expected_checkpoint a)) in
      \<lparr>ch_tip = Some (ba_block a),
       ch_journal = (if ba_retention a \<le> h then kept(h - ba_retention a := None) else kept)\<rparr>)"

definition chain_removable :: "chain_state \<Rightarrow> block_ref \<Rightarrow> block_ref option \<Rightarrow> bool" where
  "chain_removable c tip previous \<longleftrightarrow>
     ch_tip c = Some tip \<and> ch_journal c (br_height tip) = Some (tip, previous)"

definition chain_remove :: "chain_state \<Rightarrow> block_ref \<Rightarrow> block_ref option \<Rightarrow> chain_state" where
  "chain_remove c tip previous = \<lparr>ch_tip = previous, ch_journal = (ch_journal c)(br_height tip := None)\<rparr>"

text \<open>
  Linked: a retained block sits at its height and connects to its predecessor, which is the retained
  block below it if that height is retained; nothing is retained above the checkpoint or below a
  first block; and the checkpoint is the block retained at its height.
\<close>

definition linked :: "chain_state \<Rightarrow> bool" where
  "linked c \<longleftrightarrow>
     (\<forall>h b p. ch_journal c h = Some (b, p) \<longrightarrow>
        br_height b = h \<and> connects p b \<and> (\<exists>t. ch_tip c = Some t \<and> h \<le> br_height t)) \<and>
     (\<forall>h b q b' p'. ch_journal c h = Some (b, Some q) \<longrightarrow> ch_journal c (br_height q) = Some (b', p') \<longrightarrow> b' = q) \<and>
     (\<forall>h b h'. ch_journal c h = Some (b, None) \<longrightarrow> h' < h \<longrightarrow> ch_journal c h' = None) \<and>
     (\<forall>t b p. ch_tip c = Some t \<longrightarrow> ch_journal c (br_height t) = Some (b, p) \<longrightarrow> b = t)"

lemma linkedD:
  assumes "linked c"
  shows "ch_journal c h = Some (b, p) \<Longrightarrow> br_height b = h"
    and "ch_journal c h = Some (b, p) \<Longrightarrow> connects p b"
    and "ch_journal c h = Some (b, p) \<Longrightarrow> \<exists>t. ch_tip c = Some t \<and> h \<le> br_height t"
    and "ch_journal c h = Some (b, Some q) \<Longrightarrow> ch_journal c (br_height q) = Some (b', p') \<Longrightarrow> b' = q"
    and "ch_journal c h = Some (b, None) \<Longrightarrow> h' < h \<Longrightarrow> ch_journal c h' = None"
    and "ch_tip c = Some t \<Longrightarrow> ch_journal c (br_height t) = Some (b, p) \<Longrightarrow> b = t"
  using assms unfolding linked_def by blast+

lemma linkedI:
  assumes "\<And>h b p. ch_journal c h = Some (b, p) \<Longrightarrow>
      br_height b = h \<and> connects p b \<and> (\<exists>t. ch_tip c = Some t \<and> h \<le> br_height t)"
    and "\<And>h b q b' p'. ch_journal c h = Some (b, Some q) \<Longrightarrow> ch_journal c (br_height q) = Some (b', p') \<Longrightarrow> b' = q"
    and "\<And>h b h'. ch_journal c h = Some (b, None) \<Longrightarrow> h' < h \<Longrightarrow> ch_journal c h' = None"
    and "\<And>t b p. ch_tip c = Some t \<Longrightarrow> ch_journal c (br_height t) = Some (b, p) \<Longrightarrow> b = t"
  shows "linked c"
  unfolding linked_def using assms by blast

lemma connects_height: "connects (Some p) b \<Longrightarrow> br_height p < br_height b"
  by (simp add: connects_def word_less_nat_alt)

lemma connects_below: "connects (Some p) b \<Longrightarrow> h < br_height b \<Longrightarrow> h \<le> br_height p"
  by (simp add: connects_def word_less_nat_alt word_le_nat_alt)

lemma linked_without: "linked c \<Longrightarrow> linked (c\<lparr>ch_journal := (ch_journal c)(h := None)\<rparr>)"
  unfolding linked_def by (auto split: if_splits)

lemma linked_extend:
  assumes "linked c" "chain_can_add a c" "connects (ba_expected_checkpoint a) (ba_block a)"
  shows "linked \<lparr>ch_tip = Some (ba_block a),
    ch_journal = (ch_journal c)(br_height (ba_block a) \<mapsto> (ba_block a, ba_expected_checkpoint a))\<rparr>"
proof -
  let ?b = "ba_block a" and ?h = "br_height (ba_block a)"
  have tip: "ch_tip c = ba_expected_checkpoint a" using assms(2) by (simp add: chain_can_add_def)
  have below: "h < ?h" if e: "ch_journal c h = Some e" for h e
  proof -
    obtain t where t: "ch_tip c = Some t" "h \<le> br_height t"
      using linkedD(3) [OF assms(1), of h "fst e" "snd e"] e by auto
    then have "br_height t < ?h" using connects_height assms(3) tip by simp
    then show ?thesis using t(2) by order
  qed
  have none: "ch_journal c h = None" if "ba_expected_checkpoint a = None" for h
    using linkedD(3) [OF assms(1)] that tip by (cases "ch_journal c h") fastforce+
  have tip': "b' = q" if "ba_expected_checkpoint a = Some q" "ch_journal c (br_height q) = Some (b', p')" for q b' p'
    using linkedD(6) [OF assms(1)] that tip by simp
  have own: "br_height q \<noteq> ?h" if "ba_expected_checkpoint a = Some q" for q
    using connects_height assms(3) that by fastforce
  have prev: "br_height q \<noteq> ?h" if "ch_journal c h = Some (b, Some q)" for h b q
    using connects_height [of q b] linkedD(1,2) [OF assms(1) that] below [OF that] by auto
  show ?thesis
  proof (rule linkedI; clarsimp split: if_splits)
    show "connects (ba_expected_checkpoint a) ?b" by (rule assms(3))
  next
    fix h b p
    assume "h \<noteq> ?h" "ch_journal c h = Some (b, p)"
    then show "br_height b = h \<and> connects p b \<and> h \<le> ?h"
      using linkedD(1,2) [OF assms(1)] below less_imp_le by blast
  next
    fix h b q b' p'
    assume "h \<noteq> ?h" "ch_journal c h = Some (b, Some q)" "ch_journal c (br_height q) = Some (b', p')"
    then show "b' = q" using linkedD(4) [OF assms(1)] by blast
  qed (use tip' own prev none below linkedD(5) [OF assms(1)] in \<open>auto dest: less_not_sym\<close>)
qed

lemma linked_add:
  assumes "linked c" "chain_can_add a c" "connects (ba_expected_checkpoint a) (ba_block a)"
  shows "linked (chain_add a c)"
  using linked_extend [OF assms] linked_without [OF linked_extend [OF assms], of "br_height (ba_block a) - ba_retention a"]
  by (simp add: chain_add_def Let_def)

lemma linked_remove:
  assumes "linked c" "chain_removable c tip previous"
  shows "linked (chain_remove c tip previous)"
proof -
  have j: "ch_journal c (br_height tip) = Some (tip, previous)" "ch_tip c = Some tip"
    using assms(2) by (simp_all add: chain_removable_def)
  have below: "\<exists>q. previous = Some q \<and> h \<le> br_height q" if "ch_journal c h = Some e" "h \<noteq> br_height tip" for h e
  proof -
    have "h \<le> br_height tip" using linkedD(3) [OF assms(1)] that(1) j(2) by (cases e) fastforce
    then have less: "h < br_height tip" using that(2) by simp
    show ?thesis
    proof (cases previous)
      case None
      then show ?thesis using linkedD(5) [OF assms(1) j(1) [unfolded None] less] that(1) by simp
    next
      case (Some q)
      then show ?thesis using connects_below [OF _ less] linkedD(2) [OF assms(1) j(1)] by simp
    qed
  qed
  have "b = q" if "previous = Some q" "ch_journal c (br_height q) = Some (b, p)" for q b p
    using linkedD(4) [OF assms(1) j(1) [unfolded that(1)] that(2)] .
  with below show ?thesis
    unfolding linked_def chain_remove_def
    using linkedD [OF assms(1)] by (auto split: if_splits)
qed

section \<open>The index as a chain\<close>

definition chain_of :: "codecs \<Rightarrow> index_scope \<Rightarrow> contents \<Rightarrow> chain_state" where
  "chain_of cs scope m =
     \<lparr>ch_tip = map_option block_into_domain (record_at (block_codec cs) m (checkpoint_key scope)),
      ch_journal = (\<lambda>h. map_option
        (\<lambda>j. (journal_block j, map_option block_into_domain (jr_previous_checkpoint j)))
        (record_at (journal_codec cs) m (journal_key scope h)))\<rparr>"

lemma record_at_same: "m k = m' k \<Longrightarrow> record_at c m k = record_at c m' k"
  by (simp add: record_at_def)

lemma record_at_None [simp]: "m k = None \<Longrightarrow> record_at c m k = None"
  by (simp add: record_at_def)

lemma journal_key_inject [simp]: "journal_key scope h = journal_key scope h' \<longleftrightarrow> h = h'"
  by (simp add: journal_key_def)

context index_store
begin

abbreviation chain_at :: "contents \<Rightarrow> chain_state" where
  "chain_at m \<equiv> chain_of (rp_codecs repo) (rp_scope repo) m"

lemma checkpoint_is_tip: "checkpoint_is m b \<Longrightarrow> ch_tip (chain_at m) = b"
  by (cases b) (auto simp: checkpoint_is_def chain_of_def record_at_def)

text \<open>Only the control part of an addition touches checkpoint and journals.\<close>

lemma added_journals:
  assumes add: "added a m us j" and h: "h \<noteq> br_height (ba_block a)"
  shows "updated us m (jkey h) =
    (if ba_retention a \<le> br_height (ba_block a) \<and> h = br_height (ba_block a) - ba_retention a
     then None else m (jkey h))"
proof -
  from add obtain hs os jb cb where
      us: "us = hs @ os @ map (\<lambda>r. (ro_key r, None)) (jr_restore_outputs j) @
          [(jkey (br_height (ba_block a)), Some jb), (ckey, Some cb)] @ prune_ops a"
    and keys: "map fst hs = jr_history_keys j" "map fst os = jr_remove_output_keys j"
    unfolding added_def added_ops_def by blast
  have jr: "jr_history_keys j = map hkey (history_entries (ba_transactions a))"
      "jr_remove_output_keys j = map (\<lambda>x. okey (io_key x)) (oc_created (ba_outputs a))"
      "map ro_key (jr_restore_outputs j) =
        map (\<lambda>(k, q). okey k) (filter (\<lambda>(k, q). m (okey k) \<noteq> None) (spend_keys a))"
    using add unfolding added_def journal_of_def by simp_all
  let ?data = "hs @ os @ map (\<lambda>r. (ro_key r, None)) (jr_restore_outputs j)"
  have "jkey h \<notin> set (map fst hs)" "jkey h \<notin> set (map fst os)" "jkey h \<notin> set (map ro_key (jr_restore_outputs j))"
    unfolding keys jr using other_collections by (auto dest: sym)
  then have "jkey h \<notin> fst ` set ?data" by auto
  then have "updated ?data m (jkey h) = m (jkey h)" by (rule updated_other)
  then have "updated (?data @ [(jkey (br_height (ba_block a)), Some jb), (ckey, Some cb)]) m (jkey h) = m (jkey h)"
    using h by (simp only: updated_append updated_Cons updated_Nil) simp
  then show ?thesis
    using us by (simp add: updated_append updated_Cons prune_ops_def)
qed

lemma added_chain:
  assumes add: "added a m us j" and ret: "ba_retention a \<noteq> 0" and good: "good_codecs (rp_codecs repo)"
  shows "chain_can_add a (chain_at m) \<and> chain_at (updated us m) = chain_add a (chain_at m)"
proof -
  let ?h = "br_height (ba_block a)"
  have cp: "checkpoint_is m (ba_expected_checkpoint a)" and jn: "m (jkey ?h) = None"
    and jb: "journal_block j = ba_block a"
    and jp: "jr_previous_checkpoint j = map_option block_from_domain (ba_expected_checkpoint a)"
    using add unfolding added_def journal_of_def by (simp_all add: journal_block_def)
  have can: "chain_can_add a (chain_at m)"
    unfolding chain_can_add_def using checkpoint_is_tip [OF cp] jn by (simp add: chain_of_def)
  have tip: "ch_tip (chain_at (updated us m)) = Some (ba_block a)"
    using checkpoint_is_tip [OF added_checkpoint [OF add good]] .
  have own: "ch_journal (chain_at (updated us m)) ?h = Some (ba_block a, ba_expected_checkpoint a)"
    using added_journal [OF add ret good]
    by (cases "ba_expected_checkpoint a") (auto simp: chain_of_def record_at_def jb jp)
  have other: "ch_journal (chain_at (updated us m)) h =
      (if ba_retention a \<le> ?h \<and> h = ?h - ba_retention a then None else ch_journal (chain_at m) h)" if "h \<noteq> ?h" for h
    using added_journals [OF add that] by (auto simp: chain_of_def intro!: arg_cong [where f = "map_option _"] record_at_same)
  have apart: "?h - ba_retention a \<noteq> ?h" using ret by simp
  have "ch_journal (chain_at (updated us m)) h = ch_journal (chain_add a (chain_at m)) h" for h
    using own other [of h] apart by (cases "h = ?h") (simp_all add: chain_add_def Let_def)
  then have "ch_journal (chain_at (updated us m)) = ch_journal (chain_add a (chain_at m))" ..
  then have "chain_at (updated us m) = chain_add a (chain_at m)"
    using tip by (simp add: chain_add_def Let_def)
  with can show ?thesis by blast
qed

lemma restores_keys: "restores rs us \<Longrightarrow> fst ` set us = ro_key ` set rs"
  unfolding restores_def by (induction rs us rule: list_all2_induct) auto

lemma control_not_data [simp]:
  "\<not> is_history scope (journal_key scope h)" "\<not> is_history scope (checkpoint_key scope)"
  "\<not> is_output scope (journal_key scope h)" "\<not> is_output scope (checkpoint_key scope)"
  by (auto simp: is_history_def is_output_def journal_key_def checkpoint_key_def key_prefix_def prefix_def
      HISTORY_def OUTPUT_def JOURNAL_def CHECKPOINT_def)

lemma removes_chain:
  assumes rem: "removes tip m ops restored" and good: "good_codecs (rp_codecs repo)"
  shows "chain_removable (chain_at m) tip restored \<and> chain_at (updated ops m) = chain_remove (chain_at m) tip restored"
proof -
  from rem obtain j jb us previous where
      jb: "m (jkey (br_height tip)) = Some jb" "decode_record (journal_codec (rp_codecs repo)) jb = Ok j"
    and block: "journal_block j = tip" and cp: "checkpoint_is m (Some tip)"
    and us: "restores (jr_restore_outputs j) us"
    and checked: "list_all (is_history (rp_scope repo)) (jr_history_keys j)"
      "list_all (is_output (rp_scope repo)) (jr_remove_output_keys j)"
      "list_all (restore_checked (rp_scope repo)) (jr_restore_outputs j)"
    and previous: "case jr_previous_checkpoint j of
           None \<Rightarrow> previous = None
         | Some r \<Rightarrow> \<exists>bs. encode_record (block_codec (rp_codecs repo)) r = Ok bs \<and> previous = Some bs"
    and restored: "restored = map_option block_into_domain (jr_previous_checkpoint j)"
    and ops: "ops = removal_ops tip j us previous"
    unfolding removes_def by blast
  let ?data = "map (\<lambda>k. (k, None :: bytes option)) (jr_history_keys j @ jr_remove_output_keys j) @ us"
  have kinds: "is_history (rp_scope repo) k \<or> is_output (rp_scope repo) k" if "k \<in> fst ` set ?data" for k
  proof -
    from that have "k \<in> set (jr_history_keys j) \<or> k \<in> set (jr_remove_output_keys j) \<or> k \<in> ro_key ` set (jr_restore_outputs j)"
      unfolding set_append image_Un restores_keys [OF us] set_map image_image by auto
    then show ?thesis using checked unfolding list_all_iff restore_checked_def by blast
  qed
  have data: "k \<notin> fst ` set ?data" if "k = ckey \<or> (\<exists>h. k = jkey h)" for k
  proof
    assume "k \<in> fst ` set ?data"
    from kinds [OF this] that show False by auto
  qed
  have eq: "updated ops m k = updated [(jkey (br_height tip), None), (ckey, previous)] m k"
    if "k = ckey \<or> (\<exists>h. k = jkey h)" for k
  proof -
    have "ops = ?data @ [(jkey (br_height tip), None), (ckey, previous)]" by (simp add: ops removal_ops_def)
    then show ?thesis
      using updated_other [OF data [OF that], of m]
      by (simp only: updated_append updated_Cons updated_Nil fun_upd_def)
  qed
  have can: "chain_removable (chain_at m) tip restored"
    unfolding chain_removable_def using checkpoint_is_tip [OF cp] jb block restored
    by (simp add: chain_of_def record_at_def)
  have "record_at (block_codec (rp_codecs repo)) (updated ops m) ckey = jr_previous_checkpoint j"
    using eq [of ckey] previous decode_encode [OF good_codecsD(1) [OF good]]
    by (cases "jr_previous_checkpoint j") (auto simp: updated_Cons record_at_def)
  then have tip: "ch_tip (chain_at (updated ops m)) = restored" by (simp add: chain_of_def restored)
  have "updated ops m (jkey h) = (if h = br_height tip then None else m (jkey h))" for h
    using eq [of "jkey h"] by (auto simp: updated_Cons)
  then have "ch_journal (chain_at (updated ops m)) = (ch_journal (chain_at m))(br_height tip := None)"
    by (auto simp: chain_of_def fun_eq_iff intro!: arg_cong [where f = "map_option _"] record_at_same)
  with tip can show ?thesis by (simp add: chain_remove_def)
qed

lemma read_block_chain:
  assumes "inv s" "read_block repo selector s = (r, s')"
  shows "inv s' \<and> content s' = content s \<and> (\<forall>x. r = Ok x \<longrightarrow> x = chain_get (chain_at (content s)) selector)"
proof -
  have quiet: "quiet (read_block repo selector)"
    unfolding read_block_def Let_def by (auto intro!: quiet_bind split: block_selector.splits option.splits prod.splits)
  from quietD [OF this assms] have same: "inv s'" "content s' = content s" by (simp_all add: content_def)
  moreover have "x = chain_get (chain_at (content s)) selector" if r: "r = Ok x" for x
  proof (cases selector)
    case (Tip scope)
    then obtain v s1 where scope: "scope = rp_scope repo"
        and get: "repo_get repo (block_codec (rp_codecs repo)) ckey s = (Ok v, s1)"
        and x: "x = map_option (\<lambda>stored. block_into_domain (vr_value stored)) v"
      using assms(2) r by (auto simp: read_block_def bind_eff_Ok_iff check_scope_def split: if_splits)
    from repo_get_Ok [OF assms(1) get] show ?thesis
      by (cases v) (auto simp: Tip x chain_of_def record_at_def)
  next
    case (AtHeight scope h)
    then obtain v s1 where scope: "scope = rp_scope repo"
        and get: "repo_get repo (journal_codec (rp_codecs repo)) (jkey h) s = (Ok v, s1)"
        and x: "x = map_option (\<lambda>stored. journal_block (vr_value stored)) v"
      using assms(2) r by (auto simp: read_block_def bind_eff_Ok_iff check_scope_def split: if_splits)
    from repo_get_Ok [OF assms(1) get] show ?thesis
      by (cases v) (auto simp: AtHeight x chain_of_def record_at_def)
  qed
  ultimately show ?thesis by blast
qed

lemma write_block_chain:
  assumes inv: "inv s" and run: "write_block repo a s = (r, s')" and ret: "ba_retention a \<noteq> 0"
  shows "inv s' \<and>
    (case r of
       Ok Applied \<Rightarrow> chain_can_add a (chain_at (content s)) \<and>
         chain_at (content s') = chain_add a (chain_at (content s))
     | Ok AlreadyApplied \<Rightarrow> content s' = content s \<and> ch_tip (chain_at (content s)) = Some (ba_block a)
     | Err e \<Rightarrow> content s' = content s \<or>
         ie_kind e = StoreFailure \<and> ie_retryable e \<and> chain_can_add a (chain_at (content s)) \<and>
         chain_at (content s') = chain_add a (chain_at (content s)))"
proof -
  have "chain_can_add a (chain_at (content s)) \<and> chain_at (content s') = chain_add a (chain_at (content s))"
    if "block_added a s s'"
    using that added_chain [OF _ ret codec_law [OF inv]] by (auto simp: block_added_def)
  moreover have "content s' = content s" if "view s' = view s" using that by (simp add: content_def)
  ultimately show ?thesis
    using write_block_law [OF inv run] checkpoint_is_tip by (auto split: sum.splits block_outcome.splits)
qed

lemma remove_tip_chain:
  assumes inv: "inv s" and run: "remove_tip repo scope tip s = (r, s')"
  shows "inv s' \<and>
    (case r of
       Ok previous \<Rightarrow> chain_removable (chain_at (content s)) tip previous \<and>
         chain_at (content s') = chain_remove (chain_at (content s)) tip previous
     | Err e \<Rightarrow> content s' = content s \<or>
         ie_kind e = StoreFailure \<and> ie_retryable e \<and>
         (\<exists>previous. chain_removable (chain_at (content s)) tip previous \<and>
            chain_at (content s') = chain_remove (chain_at (content s)) tip previous))"
proof (cases "scope = rp_scope repo")
  case False
  then have "check_scope repo scope = Err foreign_scope_error" by (auto simp: check_scope_def)
  then have "r = Err foreign_scope_error" "s' = s" using run by (auto simp: remove_tip_def bind_eff_apply)
  then show ?thesis using inv by simp
next
  case True
  have "content s' = content s" if "view s' = view s" using that by (simp add: content_def)
  then show ?thesis
    using remove_tip_law [OF inv run [unfolded True]] removes_chain [OF _ codec_law [OF inv]]
    by (auto split: sum.splits) metis+
qed

end

section \<open>The interface of the block repository\<close>

locale block_repository =
  fixes inv :: "'s \<Rightarrow> bool"
    and chain :: "'s \<Rightarrow> chain_state"
    and get :: "block_selector \<Rightarrow> ('s, index_error, block_ref option) eff"
    and add :: "block_addition \<Rightarrow> ('s, index_error, block_outcome) eff"
    and remove :: "index_scope \<Rightarrow> block_ref \<Rightarrow> ('s, index_error, block_ref option) eff"
  assumes get_law: "inv s \<Longrightarrow> get selector s = (gr, s') \<Longrightarrow>
      inv s' \<and> chain s' = chain s \<and> (\<forall>x. gr = Ok x \<longrightarrow> x = chain_get (chain s) selector)"
    and add_law: "inv s \<Longrightarrow> addition_ok a \<Longrightarrow> add a s = (ar, s') \<Longrightarrow>
      inv s' \<and>
      (case ar of
         Ok Applied \<Rightarrow> chain_can_add a (chain s) \<and> chain s' = chain_add a (chain s)
       | Ok AlreadyApplied \<Rightarrow> chain s' = chain s \<and> ch_tip (chain s) = Some (ba_block a)
       | Err e \<Rightarrow> chain s' = chain s \<or>
           ie_retryable e \<and> chain_can_add a (chain s) \<and> chain s' = chain_add a (chain s))"
    and remove_law: "inv s \<Longrightarrow> remove scope tip s = (rr, s') \<Longrightarrow>
      inv s' \<and>
      (case rr of
         Ok previous \<Rightarrow> chain_removable (chain s) tip previous \<and> chain s' = chain_remove (chain s) tip previous
       | Err e \<Rightarrow> chain s' = chain s \<or>
           ie_retryable e \<and> (\<exists>previous. chain_removable (chain s) tip previous \<and>
             chain s' = chain_remove (chain s) tip previous))"
    and linked_law: "inv s \<Longrightarrow> linked (chain s)"

text \<open>The redb index keeps a linked chain under every operation, whatever fails.\<close>

definition redb_chain :: "redb \<Rightarrow> codecs \<Rightarrow> index_scope \<Rightarrow> backend \<Rightarrow> chain_state" where
  "redb_chain rd cs scope s = chain_of cs scope (index_contents rd s)"

definition redb_blocks_ok :: "redb \<Rightarrow> codecs \<Rightarrow> index_scope \<Rightarrow> backend \<Rightarrow> bool" where
  "redb_blocks_ok rd cs scope s \<longleftrightarrow> redb_ok rd s \<and> good_codecs cs \<and> linked (redb_chain rd cs scope s)"

interpretation redb_blocks: block_repository "redb_blocks_ok rd cs scope" "redb_chain rd cs scope"
  "read_block (redb_repository rd cs scope)" "write_block (redb_repository rd cs scope)"
  "remove_tip (redb_repository rd cs scope)"
  for rd cs scope
proof (unfold_locales, goal_cases got put undone chained)
  case (got s selector gr s')
  then show ?case
    using redb_index.read_block_chain [of rd s cs scope selector gr s']
    by (simp add: redb_blocks_ok_def redb_chain_def)
next
  case (put s a ar s')
  have "ba_retention a \<noteq> 0" "connects (ba_expected_checkpoint a) (ba_block a)"
    using put(2) by (simp_all add: addition_ok_def)
  with put show ?case
    using redb_index.write_block_chain [of rd s cs scope a ar s'] linked_add [of "redb_chain rd cs scope s" a]
    by (auto simp: redb_blocks_ok_def redb_chain_def split: sum.splits block_outcome.splits)
next
  case (undone s sc tip rr s')
  then show ?case
    using redb_index.remove_tip_chain [of rd s cs scope sc tip rr s'] linked_remove [of "redb_chain rd cs scope s" tip]
    by (auto simp: redb_blocks_ok_def redb_chain_def split: sum.splits)
next
  case (chained s)
  then show ?case by (simp add: redb_blocks_ok_def)
qed

lemma empty_chain: "redb_chain calm_redb cs scope empty_backend = \<lparr>ch_tip = None, ch_journal = Map.empty\<rparr>"
  by (simp add: redb_chain_def chain_of_def empty_index fun_eq_iff)

lemma empty_blocks_ok: "redb_blocks_ok calm_redb demo_codecs demo_scope empty_backend"
  using fixed_bincode_ok good_demo_codecs
  by (simp add: redb_blocks_ok_def empty_chain empty_backend_ok linked_def)

section \<open>Properties\<close>

text \<open>
  C10. Adding a block refines appending to an abstract chain. Whatever the store does, the chain of
  checkpoint and retained blocks stays linked; on success the block was appended to the checkpoint
  it expected, and on an error the chain is unchanged or, for a retryable store failure, appended.
\<close>

theorem write_block_refines_chain:
  assumes "redb_blocks_ok rd cs scope s" "addition_ok a"
    and "write_block (redb_repository rd cs scope) a s = (r, s')"
  shows "redb_blocks_ok rd cs scope s' \<and>
    (case r of
       Ok Applied \<Rightarrow> chain_can_add a (redb_chain rd cs scope s) \<and>
         redb_chain rd cs scope s' = chain_add a (redb_chain rd cs scope s)
     | Ok AlreadyApplied \<Rightarrow> redb_chain rd cs scope s' = redb_chain rd cs scope s \<and>
         ch_tip (redb_chain rd cs scope s) = Some (ba_block a)
     | Err e \<Rightarrow> redb_chain rd cs scope s' = redb_chain rd cs scope s \<or>
         ie_retryable e \<and> chain_can_add a (redb_chain rd cs scope s) \<and>
         redb_chain rd cs scope s' = chain_add a (redb_chain rd cs scope s))"
  by (rule redb_blocks.add_law [OF assms])

theorem write_block_refines_chain_witness:
  "ch_tip (redb_chain calm_redb demo_codecs demo_scope (demo_written\<lparr>be_tick := 28\<rparr>)) = Some demo_block"
proof -
  have "write_block (redb_repository calm_redb demo_codecs demo_scope) demo_addition empty_backend =
      (Ok Applied, demo_written\<lparr>be_tick := 28\<rparr>)"
    using demo_write by (simp add: empty_backend_def)
  from write_block_refines_chain [OF empty_blocks_ok demo_addition_ok(1) this] show ?thesis
    by (simp add: chain_add_def Let_def demo_addition_simps)
qed

text \<open>
  C11. Removing the tip refines popping the chain: it only ever removes the checkpoint whose retained
  entry it has, returns the predecessor recorded there, and keeps the chain linked; on an error the
  chain is unchanged or, for a retryable store failure, popped.
\<close>

theorem remove_tip_refines_chain:
  assumes "redb_blocks_ok rd cs scope s" "remove_tip (redb_repository rd cs scope) sc tip s = (r, s')"
  shows "redb_blocks_ok rd cs scope s' \<and>
    (case r of
       Ok previous \<Rightarrow> chain_removable (redb_chain rd cs scope s) tip previous \<and>
         redb_chain rd cs scope s' = chain_remove (redb_chain rd cs scope s) tip previous
     | Err e \<Rightarrow> redb_chain rd cs scope s' = redb_chain rd cs scope s \<or>
         ie_retryable e \<and> (\<exists>previous. chain_removable (redb_chain rd cs scope s) tip previous \<and>
           redb_chain rd cs scope s' = chain_remove (redb_chain rd cs scope s) tip previous))"
  by (rule redb_blocks.remove_law [OF assms])

theorem remove_tip_refines_chain_witness:
  "\<exists>s. remove_tip (redb_repository calm_redb demo_codecs demo_scope) demo_scope demo_block
       (demo_written\<lparr>be_tick := 28\<rparr>) = (Ok None, s) \<and>
     ch_tip (redb_chain calm_redb demo_codecs demo_scope s) = None"
proof -
  have "write_block (redb_repository calm_redb demo_codecs demo_scope) demo_addition empty_backend =
      (Ok Applied, demo_written\<lparr>be_tick := 28\<rparr>)"
    using demo_write by (simp add: empty_backend_def)
  from redb_blocks.add_law [OF empty_blocks_ok demo_addition_ok(1) this]
  have ok: "redb_blocks_ok calm_redb demo_codecs demo_scope (demo_written\<lparr>be_tick := 28\<rparr>)" by blast
  obtain s where s: "remove_tip (redb_repository calm_redb demo_codecs demo_scope) demo_scope demo_block
      (demo_written\<lparr>be_tick := 28\<rparr>) = (Ok None, s)"
    using demo_remove by blast
  from remove_tip_refines_chain [OF ok s] s show ?thesis by (auto simp: chain_remove_def)
qed

end
