(* ===== verification/Admission.thy ===== *)
theory Admission
  imports Observation
begin

text \<open>
  The admission gate of \<open>sdk/indexing/src/admission.rs\<close>, which serialises checkpoint commits with the
  publication of new addresses: the shared state behind its mutex, plans, commit and publication
  permits, and the transition system of any number of clients. Every section that holds the lock is
  one step. A permit that goes out of scope runs its \<open>Drop\<close>.
\<close>

section \<open>State\<close>

record admission_state =
  ad_initialized :: bool
  ad_persisted :: "block_ref option"
  ad_revision :: u64
  ad_commit :: bool
  ad_publication :: bool
  ad_recovery :: bool
  ad_waiters :: "nat list"

text \<open>\<open>State::notify\<close>: every parked waiter is sent its wake-up.\<close>

definition notify :: "admission_state \<Rightarrow> admission_state" where
  "notify st = st\<lparr>ad_waiters := []\<rparr>"

record scope_admission =
  sa_state :: admission_state
  sa_poisoned :: bool

type_synonym 'a admission_op = "(scope_admission, index_error, 'a) eff"

definition admission_new :: scope_admission where
  "admission_new =
     \<lparr>sa_state = \<lparr>ad_initialized = False, ad_persisted = None, ad_revision = 0, ad_commit = False,
        ad_publication = False, ad_recovery = False, ad_waiters = []\<rparr>, sa_poisoned = False\<rparr>"

definition lock_poisoned_error :: index_error where
  "lock_poisoned_error = index_error_new StoreFailure ''address admission lock is poisoned'' False"

definition lock :: "admission_state admission_op" where
  "lock = (\<lambda>a. if sa_poisoned a then (Err lock_poisoned_error, a) else (Ok (sa_state a), a))"

definition unlock :: "admission_state \<Rightarrow> unit admission_op" where
  "unlock st = (\<lambda>a. (Ok (), a\<lparr>sa_state := st\<rparr>))"

section \<open>Plans\<close>

record address_filter =
  af_address :: canonical_address
  af_start_position :: block_position

text \<open>\<open>pl_attached\<close> tells whether the plan refers to an admission gate.\<close>

record sync_plan =
  pl_filters :: "address_filter list"
  pl_checkpoint :: "block_ref option"
  pl_revision :: u64
  pl_attached :: bool

definition admission_changing_error :: index_error where
  "admission_changing_error = retryable_conflict ''address admission is changing''"

definition capture_conflict_error :: index_error where
  "capture_conflict_error =
     retryable_conflict ''checkpoint or address revision changed during filter capture''"

text \<open>The repository's checkpoint replaces the remembered one when they differ.\<close>

definition reload_state :: "block_ref option \<Rightarrow> admission_state \<Rightarrow> admission_state" where
  "reload_state persisted st =
     (if \<not> ad_initialized st \<or> ad_recovery st \<or> ad_persisted st \<noteq> persisted
      then st\<lparr>ad_persisted := persisted, ad_initialized := True, ad_recovery := False\<rparr> else st)"

definition plan_open :: "block_ref option \<Rightarrow> u64 admission_op" where
  "plan_open persisted =
     bind_eff lock (\<lambda>st.
     if ad_commit st \<or> ad_publication st then throw admission_changing_error
     else
       let st' = reload_state persisted st in
       bind_eff (unlock st') (\<lambda>_. ret (ad_revision st')))"

definition plan_close ::
  "block_ref option \<Rightarrow> u64 \<Rightarrow> address_filter list \<Rightarrow> sync_plan admission_op" where
  "plan_close persisted revision filters =
     bind_eff lock (\<lambda>st.
     if ad_commit st \<or> ad_publication st \<or> ad_recovery st \<or> ad_persisted st \<noteq> persisted \<or>
        ad_revision st \<noteq> revision
     then throw capture_conflict_error
     else ret \<lparr>pl_filters = filters, pl_checkpoint = persisted, pl_revision = revision, pl_attached = True\<rparr>)"

text \<open>The capture runs without the lock, so it may see any interference by other clients.\<close>

definition plan ::
  "block_ref option \<Rightarrow> address_filter list admission_op \<Rightarrow> sync_plan admission_op" where
  "plan persisted capture =
     bind_eff (plan_open persisted) (\<lambda>revision.
     bind_eff capture (\<lambda>filters.
     plan_close persisted revision filters))"

definition plan_detached :: "address_filter list \<Rightarrow> block_ref option \<Rightarrow> sync_plan" where
  "plan_detached filters checkpoint =
     \<lparr>pl_filters = filters, pl_checkpoint = checkpoint, pl_revision = 0, pl_attached = False\<rparr>"

definition earliest_position :: "sync_plan \<Rightarrow> block_position option" where
  "earliest_position p =
     (if pl_filters p = [] then None else Some (Min (set (map af_start_position (pl_filters p)))))"

definition active_addresses :: "sync_plan \<Rightarrow> block_position \<Rightarrow> canonical_address list" where
  "active_addresses p position =
     map af_address (filter (\<lambda>f. af_start_position f \<le> position) (pl_filters p))"

definition with_filters :: "sync_plan \<Rightarrow> address_filter list \<Rightarrow> sync_plan" where
  "with_filters p filters = p\<lparr>pl_filters := filters\<rparr>"

definition advance :: "sync_plan \<Rightarrow> block_ref \<Rightarrow> sync_plan" where
  "advance p checkpoint = p\<lparr>pl_checkpoint := Some checkpoint\<rparr>"

section \<open>Commit permits\<close>

record commit_permit =
  cm_attached :: bool
  cm_started :: bool
  cm_finished :: bool

definition reload_required_error :: index_error where
  "reload_required_error = retryable_conflict ''checkpoint admission requires repository reload''"

definition admission_busy_error :: index_error where
  "admission_busy_error = retryable_conflict ''checkpoint admission is busy''"

definition stale_plan_error :: index_error where
  "stale_plan_error = retryable_conflict ''checkpoint or address revision changed before commit''"

definition admission_begin :: "sync_plan \<Rightarrow> commit_permit admission_op" where
  "admission_begin p =
     bind_eff lock (\<lambda>st.
     if ad_recovery st then throw reload_required_error
     else if ad_commit st \<or> ad_publication st then throw admission_busy_error
     else if ad_persisted st \<noteq> pl_checkpoint p \<or> ad_revision st \<noteq> pl_revision p then throw stale_plan_error
     else
       bind_eff (unlock (st\<lparr>ad_commit := True\<rparr>)) (\<lambda>_.
       ret \<lparr>cm_attached = True, cm_started = False, cm_finished = False\<rparr>))"

definition permit_detached :: commit_permit where
  "permit_detached = \<lparr>cm_attached = False, cm_started = False, cm_finished = False\<rparr>"

definition plan_begin :: "sync_plan \<Rightarrow> commit_permit admission_op" where
  "plan_begin p = (if pl_attached p then admission_begin p else ret permit_detached)"

definition commit_start :: "commit_permit \<Rightarrow> commit_permit" where
  "commit_start permit = permit\<lparr>cm_started := True\<rparr>"

definition commit_persist :: "commit_permit \<Rightarrow> block_ref option \<Rightarrow> unit admission_op" where
  "commit_persist permit checkpoint =
     (if cm_attached permit then bind_eff lock (\<lambda>st. unlock (st\<lparr>ad_persisted := checkpoint\<rparr>)) else ret ())"

definition commit_drop :: "commit_permit \<Rightarrow> scope_admission \<Rightarrow> scope_admission" where
  "commit_drop permit a =
     (if cm_finished permit \<or> \<not> cm_attached permit \<or> sa_poisoned a then a
      else
        let st = sa_state a in
        a\<lparr>sa_state := notify (st\<lparr>ad_commit := False, ad_recovery := ad_recovery st \<or> cm_started permit\<rparr>)\<rparr>)"

text \<open>Completion consumes the permit: on an early return its \<open>Drop\<close> runs.\<close>

definition commit_complete :: "commit_permit \<Rightarrow> block_ref option \<Rightarrow> unit admission_op" where
  "commit_complete permit checkpoint =
     (\<lambda>a. case
        (if cm_attached permit then
           bind_eff lock (\<lambda>st. unlock (notify (st\<lparr>ad_persisted := checkpoint, ad_commit := False\<rparr>)))
         else ret ()) a of
        (Err e, a') \<Rightarrow> (Err e, commit_drop permit a')
      | (Ok u, a') \<Rightarrow> (Ok u, a'))"

section \<open>Publication permits\<close>

record publication_permit =
  pu_checkpoint :: "block_ref option"
  pu_finished :: bool

definition revision_exhausted_error :: index_error where
  "revision_exhausted_error = index_error_new StoreFailure ''address filter revision is exhausted'' False"

text \<open>
  One round of the waiting loop: the permit, or the waiter that was parked. A reload value seen
  while the gate is busy is discarded.
\<close>

definition publication_round ::
  "block_ref option option \<Rightarrow> nat \<Rightarrow> (publication_permit + nat) admission_op" where
  "publication_round reload waiter =
     bind_eff lock (\<lambda>st.
     let busy = (ad_commit st \<or> ad_publication st);
         st' = (case (if busy then None else reload) of
                  Some persisted \<Rightarrow> reload_state persisted st
                | None \<Rightarrow> st) in
     if \<not> busy then
       bind_eff (unlock (st'\<lparr>ad_publication := True\<rparr>)) (\<lambda>_.
       ret (Inl \<lparr>pu_checkpoint = ad_persisted st', pu_finished = False\<rparr>))
     else
       bind_eff (unlock (st'\<lparr>ad_waiters := ad_waiters st' @ [waiter]\<rparr>)) (\<lambda>_. ret (Inr waiter)))"

definition publication_drop :: "publication_permit \<Rightarrow> scope_admission \<Rightarrow> scope_admission" where
  "publication_drop permit a =
     (if pu_finished permit \<or> sa_poisoned a then a
      else a\<lparr>sa_state := notify ((sa_state a)\<lparr>ad_publication := False\<rparr>)\<rparr>)"

definition publication_complete :: "publication_permit \<Rightarrow> unit admission_op" where
  "publication_complete permit =
     (\<lambda>a. case
        bind_eff lock (\<lambda>st.
        bind_eff (lift_result (ok_or (checked_add (ad_revision st) 1) revision_exhausted_error)) (\<lambda>revision.
        unlock (notify (st\<lparr>ad_revision := revision, ad_publication := False\<rparr>)))) a of
        (Err e, a') \<Rightarrow> (Err e, publication_drop permit a')
      | (Ok u, a') \<Rightarrow> (Ok u, a'))"

section \<open>Clients\<close>

text \<open>
  The gate with the permits that are alive and the waiters that wait for their wake-up; a waiter
  that is no longer registered has been woken.
\<close>

record gate =
  ga_admission :: scope_admission
  ga_commits :: "commit_permit list"
  ga_publications :: "publication_permit list"
  ga_parked :: "nat list"

datatype gate_event =
  Reloaded "block_ref option"
| Began sync_plan
| Started
| Persisted "block_ref option"
| Completed "block_ref option"
| Abandoned
| Reserved
| Parked nat
| Published
| Withdrawn

inductive gate_step :: "gate \<Rightarrow> gate_event \<Rightarrow> gate \<Rightarrow> bool" where
  opened: "plan_open persisted (ga_admission g) = (r, a) \<Longrightarrow>
    gate_step g (Reloaded persisted) (g\<lparr>ga_admission := a\<rparr>)"
| began: "admission_begin p (ga_admission g) = (Ok permit, a) \<Longrightarrow>
    gate_step g (Began p) (g\<lparr>ga_admission := a, ga_commits := permit # ga_commits g\<rparr>)"
| started: "ga_commits g = xs @ permit # ys \<Longrightarrow>
    gate_step g Started (g\<lparr>ga_commits := xs @ commit_start permit # ys\<rparr>)"
| persisted: "permit \<in> set (ga_commits g) \<Longrightarrow> commit_persist permit checkpoint (ga_admission g) = (r, a) \<Longrightarrow>
    gate_step g (Persisted checkpoint) (g\<lparr>ga_admission := a\<rparr>)"
| completed: "ga_commits g = xs @ permit # ys \<Longrightarrow> commit_complete permit checkpoint (ga_admission g) = (r, a) \<Longrightarrow>
    gate_step g (Completed checkpoint) (g\<lparr>ga_admission := a, ga_commits := xs @ ys\<rparr>)"
| abandoned: "ga_commits g = xs @ permit # ys \<Longrightarrow>
    gate_step g Abandoned (g\<lparr>ga_admission := commit_drop permit (ga_admission g), ga_commits := xs @ ys\<rparr>)"
| reserved: "publication_round reload waiter (ga_admission g) = (Ok (Inl permit), a) \<Longrightarrow>
    (reload = None \<longrightarrow> (\<exists>w \<in> set (ga_parked g). w \<notin> set (ad_waiters (sa_state (ga_admission g))))) \<Longrightarrow>
    gate_step g (case reload of None \<Rightarrow> Reserved | Some persisted \<Rightarrow> Reloaded persisted)
      (g\<lparr>ga_admission := a, ga_publications := permit # ga_publications g\<rparr>)"
| parked: "publication_round reload waiter (ga_admission g) = (Ok (Inr waiter), a) \<Longrightarrow>
    gate_step g (Parked waiter) (g\<lparr>ga_admission := a, ga_parked := waiter # ga_parked g\<rparr>)"
| published: "ga_publications g = xs @ permit # ys \<Longrightarrow>
    publication_complete permit (ga_admission g) = (Ok (), a) \<Longrightarrow>
    gate_step g Published (g\<lparr>ga_admission := a, ga_publications := xs @ ys\<rparr>)"
| exhausted: "ga_publications g = xs @ permit # ys \<Longrightarrow>
    publication_complete permit (ga_admission g) = (Err e, a) \<Longrightarrow>
    gate_step g Withdrawn (g\<lparr>ga_admission := a, ga_publications := xs @ ys\<rparr>)"
| withdrawn: "ga_publications g = xs @ permit # ys \<Longrightarrow>
    gate_step g Withdrawn
      (g\<lparr>ga_admission := publication_drop permit (ga_admission g), ga_publications := xs @ ys\<rparr>)"

inductive gate_run :: "gate \<Rightarrow> gate_event list \<Rightarrow> gate \<Rightarrow> bool" where
  run_nil: "gate_run g [] g"
| run_step: "gate_run g es g1 \<Longrightarrow> gate_step g1 e g2 \<Longrightarrow> gate_run g (es @ [e]) g2"

definition gate_new :: gate where
  "gate_new = \<lparr>ga_admission = admission_new, ga_commits = [], ga_publications = [], ga_parked = []\<rparr>"


section \<open>The gate's invariant\<close>

text \<open>
  At most one permit is alive, the flags say which kind it is, and a registered waiter waits for
  that permit to end.
\<close>

definition gate_ok :: "gate \<Rightarrow> bool" where
  "gate_ok g \<longleftrightarrow>
     (let st = sa_state (ga_admission g) in
      \<not> sa_poisoned (ga_admission g) \<and>
      length (ga_commits g) = (if ad_commit st then 1 else 0) \<and>
      length (ga_publications g) = (if ad_publication st then 1 else 0) \<and>
      \<not> (ad_commit st \<and> ad_publication st) \<and>
      (ad_waiters st = [] \<or> ad_commit st \<or> ad_publication st) \<and>
      list_all (\<lambda>p. cm_attached p \<and> \<not> cm_finished p) (ga_commits g) \<and>
      list_all (\<lambda>p. \<not> pu_finished p) (ga_publications g))"

lemma gate_okD:
  assumes "gate_ok g"
  shows "sa_poisoned (ga_admission g) = False"
    and "length (ga_commits g) = (if ad_commit (sa_state (ga_admission g)) then 1 else 0)"
    and "length (ga_publications g) = (if ad_publication (sa_state (ga_admission g)) then 1 else 0)"
    and "\<not> (ad_commit (sa_state (ga_admission g)) \<and> ad_publication (sa_state (ga_admission g)))"
    and "permit \<in> set (ga_commits g) \<Longrightarrow> cm_attached permit \<and> \<not> cm_finished permit"
    and "pub \<in> set (ga_publications g) \<Longrightarrow> \<not> pu_finished pub"
  using assms by (auto simp: gate_ok_def Let_def list_all_iff)

lemma reload_state_fields [simp]:
  "ad_revision (reload_state p st) = ad_revision st" "ad_commit (reload_state p st) = ad_commit st"
  "ad_publication (reload_state p st) = ad_publication st" "ad_waiters (reload_state p st) = ad_waiters st"
  by (simp_all add: reload_state_def)

lemma notify_fields [simp]:
  "ad_revision (notify st) = ad_revision st" "ad_commit (notify st) = ad_commit st"
  "ad_publication (notify st) = ad_publication st" "ad_waiters (notify st) = []"
  "ad_recovery (notify st) = ad_recovery st" "ad_persisted (notify st) = ad_persisted st"
  by (simp_all add: notify_def)

text \<open>What each operation does to the gate.\<close>

lemma plan_open_effect:
  "plan_open persisted a = (r, a') \<Longrightarrow>
   a' = a \<or> \<not> ad_commit (sa_state a) \<and> \<not> ad_publication (sa_state a) \<and> r = Ok (ad_revision (sa_state a)) \<and>
     a' = a\<lparr>sa_state := reload_state persisted (sa_state a)\<rparr>"
  by (auto simp: plan_open_def lock_def unlock_def bind_eff_apply Let_def throw_def ret_def split: if_splits)

lemma plan_close_effect:
  "plan_close persisted revision filters a = (Ok p, a') \<longleftrightarrow>
     a' = a \<and> \<not> sa_poisoned a \<and> \<not> ad_commit (sa_state a) \<and> \<not> ad_publication (sa_state a) \<and>
     \<not> ad_recovery (sa_state a) \<and> ad_persisted (sa_state a) = persisted \<and> ad_revision (sa_state a) = revision \<and>
     p = \<lparr>pl_filters = filters, pl_checkpoint = persisted, pl_revision = revision, pl_attached = True\<rparr>"
  by (auto simp: plan_close_def lock_def bind_eff_apply throw_def ret_def)

lemma admission_begin_effect:
  "admission_begin p a = (Ok permit, a') \<longleftrightarrow>
     \<not> sa_poisoned a \<and> \<not> ad_recovery (sa_state a) \<and> \<not> ad_commit (sa_state a) \<and> \<not> ad_publication (sa_state a) \<and>
     ad_persisted (sa_state a) = pl_checkpoint p \<and> ad_revision (sa_state a) = pl_revision p \<and>
     permit = \<lparr>cm_attached = True, cm_started = False, cm_finished = False\<rparr> \<and>
     a' = a\<lparr>sa_state := (sa_state a)\<lparr>ad_commit := True\<rparr>\<rparr>"
  by (auto simp: admission_begin_def lock_def unlock_def bind_eff_apply throw_def ret_def)

lemma commit_persist_effect:
  "\<not> sa_poisoned a \<Longrightarrow> cm_attached permit \<Longrightarrow>
   commit_persist permit checkpoint a = (Ok (), a\<lparr>sa_state := (sa_state a)\<lparr>ad_persisted := checkpoint\<rparr>\<rparr>)"
  by (simp add: commit_persist_def lock_def unlock_def bind_eff_apply)

lemma commit_complete_effect:
  "\<not> sa_poisoned a \<Longrightarrow> cm_attached permit \<Longrightarrow>
   commit_complete permit checkpoint a =
     (Ok (), a\<lparr>sa_state := notify ((sa_state a)\<lparr>ad_persisted := checkpoint, ad_commit := False\<rparr>)\<rparr>)"
  by (simp add: commit_complete_def lock_def unlock_def bind_eff_apply)

lemma commit_drop_effect:
  "\<not> sa_poisoned a \<Longrightarrow> cm_attached permit \<Longrightarrow> \<not> cm_finished permit \<Longrightarrow>
   commit_drop permit a = a\<lparr>sa_state := notify ((sa_state a)\<lparr>ad_commit := False,
     ad_recovery := ad_recovery (sa_state a) \<or> cm_started permit\<rparr>)\<rparr>"
  by (simp add: commit_drop_def Let_def)

lemma publication_round_reserved:
  "publication_round reload waiter a = (Ok (Inl permit), a') \<Longrightarrow>
   \<not> sa_poisoned a \<and> \<not> ad_commit (sa_state a) \<and> \<not> ad_publication (sa_state a) \<and> \<not> pu_finished permit \<and>
   (\<exists>st'. (st' = sa_state a \<and> reload = None \<or> (\<exists>q. reload = Some q \<and> st' = reload_state q (sa_state a))) \<and>
      pu_checkpoint permit = ad_persisted st' \<and> a' = a\<lparr>sa_state := st'\<lparr>ad_publication := True\<rparr>\<rparr>)"
  by (cases reload)
     (auto simp: publication_round_def lock_def unlock_def bind_eff_apply Let_def ret_def split: if_splits)

lemma publication_round_parked:
  "publication_round reload waiter a = (Ok (Inr w), a') \<Longrightarrow>
   \<not> sa_poisoned a \<and> (ad_commit (sa_state a) \<or> ad_publication (sa_state a)) \<and> w = waiter \<and>
   a' = a\<lparr>sa_state := (sa_state a)\<lparr>ad_waiters := ad_waiters (sa_state a) @ [waiter]\<rparr>\<rparr>"
  by (auto simp: publication_round_def lock_def unlock_def bind_eff_apply Let_def ret_def split: if_splits)

lemma publication_drop_effect:
  "\<not> sa_poisoned a \<Longrightarrow> \<not> pu_finished permit \<Longrightarrow>
   publication_drop permit a = a\<lparr>sa_state := notify ((sa_state a)\<lparr>ad_publication := False\<rparr>)\<rparr>"
  by (simp add: publication_drop_def)

lemma publication_complete_effect:
  assumes "\<not> sa_poisoned a" "\<not> pu_finished permit"
  shows "publication_complete permit a =
    (case checked_add (ad_revision (sa_state a)) 1 of
       None \<Rightarrow> (Err revision_exhausted_error, publication_drop permit a)
     | Some revision \<Rightarrow>
         (Ok (), a\<lparr>sa_state := notify ((sa_state a)\<lparr>ad_revision := revision, ad_publication := False\<rparr>)\<rparr>))"
  using assms
  by (cases "checked_add (ad_revision (sa_state a)) 1")
     (simp_all add: publication_complete_def lock_def unlock_def bind_eff_apply)

text \<open>The permits that are alive are the only one of their kind.\<close>

lemma only_permit:
  "length (xs @ p # ys) = (if b then 1 else 0) \<Longrightarrow> xs = [] \<and> ys = [] \<and> b"
  by (simp split: if_splits)

lemma only_commit:
  assumes "gate_ok g" "ga_commits g = xs @ permit # ys"
  shows "xs = [] \<and> ys = [] \<and> ad_commit (sa_state (ga_admission g)) \<and> ga_publications g = [] \<and>
    cm_attached permit \<and> \<not> cm_finished permit"
proof -
  from gate_okD(2) [OF assms(1)] only_permit [of xs permit ys] have
      c: "xs = []" "ys = []" "ad_commit (sa_state (ga_admission g))"
    unfolding assms(2) by blast+
  moreover have "ga_publications g = []" using gate_okD(3,4) [OF assms(1)] c(3) by simp
  moreover have "cm_attached permit \<and> \<not> cm_finished permit" using gate_okD(5) [OF assms(1)] assms(2) by simp
  ultimately show ?thesis by blast
qed

lemma only_publication:
  assumes "gate_ok g" "ga_publications g = xs @ permit # ys"
  shows "xs = [] \<and> ys = [] \<and> ad_publication (sa_state (ga_admission g)) \<and> ga_commits g = [] \<and>
    \<not> pu_finished permit"
proof -
  from gate_okD(3) [OF assms(1)] only_permit [of xs permit ys] have
      c: "xs = []" "ys = []" "ad_publication (sa_state (ga_admission g))"
    unfolding assms(2) by blast+
  moreover have "ga_commits g = []" using gate_okD(2,4) [OF assms(1)] c(3) by simp
  moreover have "\<not> pu_finished permit" using gate_okD(6) [OF assms(1)] assms(2) by simp
  ultimately show ?thesis by blast
qed

lemma gate_step_ok: "gate_step g e g' \<Longrightarrow> gate_ok g \<Longrightarrow> gate_ok g'"
proof (induction rule: gate_step.induct)
  case (opened persisted g r a)
  from plan_open_effect [OF opened(1)] opened(2) show ?case by (auto simp: gate_ok_def Let_def)
next
  case (began p g permit a)
  then show ?case unfolding admission_begin_effect by (auto simp: gate_ok_def Let_def)
next
  case (started g xs permit ys)
  then show ?case by (auto simp: gate_ok_def Let_def commit_start_def)
next
  case (persisted permit g checkpoint r a)
  with commit_persist_effect gate_okD(1,5) [OF persisted(3)] show ?case
    by (auto simp: gate_ok_def Let_def)
next
  case (completed g xs permit ys checkpoint r a)
  with only_commit [OF completed(3,1)] commit_complete_effect gate_okD(1) [OF completed(3)] show ?case
    by (auto simp: gate_ok_def Let_def)
next
  case (abandoned g xs permit ys)
  with only_commit [OF abandoned(2,1)] gate_okD(1) [OF abandoned(2)] show ?case
    by (auto simp: gate_ok_def commit_drop_effect Let_def)
next
  case (reserved reload waiter g permit a)
  from publication_round_reserved [OF reserved(1)] reserved(3) show ?case by (auto simp: gate_ok_def Let_def)
next
  case (parked reload waiter g a)
  from publication_round_parked [OF parked(1)] parked(2) show ?case by (auto simp: gate_ok_def Let_def)
next
  case (published g xs permit ys a)
  with only_publication [OF published(3,1)] publication_complete_effect gate_okD(1) [OF published(3)] show ?case
    by (auto simp: gate_ok_def Let_def split: option.splits)
next
  case (exhausted g xs permit ys e a)
  with only_publication [OF exhausted(3,1)] publication_complete_effect gate_okD(1) [OF exhausted(3)] show ?case
    by (auto simp: gate_ok_def publication_drop_effect Let_def split: option.splits)
next
  case (withdrawn g xs permit ys)
  with only_publication [OF withdrawn(2,1)] gate_okD(1) [OF withdrawn(2)] show ?case
    by (auto simp: gate_ok_def publication_drop_effect Let_def)
qed

section \<open>Runs\<close>

inductive_cases gate_run_Nil [elim!]: "gate_run g [] g'"

lemma gate_run_ok: "gate_run g es g' \<Longrightarrow> gate_ok g \<Longrightarrow> gate_ok g'"
  by (induction rule: gate_run.induct) (auto intro: gate_step_ok)

lemma gate_new_ok: "gate_ok gate_new"
  by (simp add: gate_ok_def gate_new_def admission_new_def Let_def)

abbreviation gate_state :: "gate \<Rightarrow> admission_state" where
  "gate_state g \<equiv> sa_state (ga_admission g)"

text \<open>Only a publication moves the revision, by one.\<close>

lemma gate_step_revision:
  "gate_step g e g' \<Longrightarrow> gate_ok g \<Longrightarrow>
   unat (ad_revision (gate_state g')) = unat (ad_revision (gate_state g)) + (if e = Published then 1 else 0)"
proof (induction rule: gate_step.induct)
  case (opened persisted g r a)
  from plan_open_effect [OF opened(1)] show ?case by auto
next
  case (began p g permit a)
  then show ?case unfolding admission_begin_effect by simp
next
  case (persisted permit g checkpoint r a)
  with commit_persist_effect gate_okD(1,5) [OF persisted(3)] show ?case by auto
next
  case (completed g xs permit ys checkpoint r a)
  with only_commit [OF completed(3,1)] commit_complete_effect gate_okD(1) [OF completed(3)] show ?case by auto
next
  case (abandoned g xs permit ys)
  with only_commit [OF abandoned(2,1)] gate_okD(1) [OF abandoned(2)] show ?case by (simp add: commit_drop_effect)
next
  case (reserved reload waiter g permit a)
  from publication_round_reserved [OF reserved(1)] show ?case by (auto split: option.splits)
next
  case (parked reload waiter g a)
  from publication_round_parked [OF parked(1)] show ?case by simp
next
  case (published g xs permit ys a)
  with only_publication [OF published(3,1)] publication_complete_effect gate_okD(1) [OF published(3)] show ?case
    by (auto simp: width_simps split: option.splits)
next
  case (exhausted g xs permit ys e a)
  with only_publication [OF exhausted(3,1)] publication_complete_effect gate_okD(1) [OF exhausted(3)] show ?case
    by (auto simp: publication_drop_effect split: option.splits)
next
  case (withdrawn g xs permit ys)
  with only_publication [OF withdrawn(2,1)] gate_okD(1) [OF withdrawn(2)] show ?case
    by (simp add: publication_drop_effect)
qed simp

lemma gate_run_revision:
  "gate_run g es g' \<Longrightarrow> gate_ok g \<Longrightarrow>
   unat (ad_revision (gate_state g')) = unat (ad_revision (gate_state g)) + count_list es Published"
proof (induction rule: gate_run.induct)
  case (run_step g es g1 e g2)
  from gate_step_revision [OF run_step(2) gate_run_ok [OF run_step(1,4)]] run_step(3,4) show ?case by simp
qed simp

lemma same_revision_unpublished:
  "gate_run g es g' \<Longrightarrow> gate_ok g \<Longrightarrow> ad_revision (gate_state g') = ad_revision (gate_state g) \<Longrightarrow>
   Published \<notin> set es"
  using gate_run_revision [of g es g'] by (simp add: count_list_0_iff)

text \<open>Once a repository transition was abandoned, only a reload clears the mark.\<close>

lemma gate_step_recovery:
  "gate_step g e g' \<Longrightarrow> gate_ok g \<Longrightarrow> ad_recovery (gate_state g) \<Longrightarrow> (\<forall>q. e \<noteq> Reloaded q) \<Longrightarrow>
   ad_recovery (gate_state g')"
proof (induction rule: gate_step.induct)
  case (began p g permit a)
  then show ?case unfolding admission_begin_effect by simp
next
  case (persisted permit g checkpoint r a)
  with commit_persist_effect gate_okD(1,5) [OF persisted(3)] show ?case by auto
next
  case (completed g xs permit ys checkpoint r a)
  with only_commit [OF completed(3,1)] commit_complete_effect gate_okD(1) [OF completed(3)] show ?case by auto
next
  case (abandoned g xs permit ys)
  with only_commit [OF abandoned(2,1)] gate_okD(1) [OF abandoned(2)] show ?case by (simp add: commit_drop_effect)
next
  case (reserved reload waiter g permit a)
  from publication_round_reserved [OF reserved(1)] reserved(4,5) show ?case by (auto split: option.splits)
next
  case (parked reload waiter g a)
  from publication_round_parked [OF parked(1)] parked(3) show ?case by simp
next
  case (published g xs permit ys a)
  with only_publication [OF published(3,1)] publication_complete_effect gate_okD(1) [OF published(3)] show ?case
    by (auto split: option.splits)
next
  case (exhausted g xs permit ys e a)
  with only_publication [OF exhausted(3,1)] publication_complete_effect gate_okD(1) [OF exhausted(3)] show ?case
    by (auto simp: publication_drop_effect split: option.splits)
next
  case (withdrawn g xs permit ys)
  with only_publication [OF withdrawn(2,1)] gate_okD(1) [OF withdrawn(2)] show ?case
    by (simp add: publication_drop_effect)
qed auto

lemma gate_run_recovery:
  "gate_run g es g' \<Longrightarrow> gate_ok g \<Longrightarrow> ad_recovery (gate_state g) \<Longrightarrow> (\<forall>q. Reloaded q \<notin> set es) \<Longrightarrow>
   ad_recovery (gate_state g')"
proof (induction rule: gate_run.induct)
  case (run_step g es g1 e g2)
  have "ad_recovery (gate_state g1)" using run_step by simp
  moreover have "\<forall>q. e \<noteq> Reloaded q" using run_step(6) by auto
  ultimately show ?case by (rule gate_step_recovery [OF run_step(2) gate_run_ok [OF run_step(1,4)]])
qed simp

text \<open>A reservation of an idle gate, and a started commit, as concrete runs.\<close>

definition idle_state :: admission_state where
  "idle_state = \<lparr>ad_initialized = True, ad_persisted = None, ad_revision = 0, ad_commit = False,
     ad_publication = False, ad_recovery = False, ad_waiters = []\<rparr>"

definition idle_gate :: gate where
  "idle_gate = \<lparr>ga_admission = \<lparr>sa_state = idle_state, sa_poisoned = False\<rparr>, ga_commits = [],
     ga_publications = [], ga_parked = []\<rparr>"

definition idle_plan :: sync_plan where
  "idle_plan = \<lparr>pl_filters = [], pl_checkpoint = None, pl_revision = 0, pl_attached = True\<rparr>"

definition fresh_permit :: commit_permit where
  "fresh_permit = \<lparr>cm_attached = True, cm_started = False, cm_finished = False\<rparr>"

lemma idle_opens: "plan_open None (ga_admission gate_new) = (Ok 0, ga_admission idle_gate)"
  by (simp add: plan_open_def lock_def unlock_def bind_eff_apply Let_def gate_new_def admission_new_def
      reload_state_def idle_gate_def idle_state_def)

lemma idle_gate_new: "gate_new\<lparr>ga_admission := ga_admission idle_gate\<rparr> = idle_gate"
  by (simp add: gate_new_def idle_gate_def)

lemma idle_begins:
  "admission_begin idle_plan (ga_admission idle_gate) =
     (Ok fresh_permit, \<lparr>sa_state = idle_state\<lparr>ad_commit := True\<rparr>, sa_poisoned = False\<rparr>)"
  by (simp add: admission_begin_effect idle_gate_def idle_state_def idle_plan_def fresh_permit_def)

lemma idle_run: "gate_run gate_new [Reloaded None] idle_gate"
  using run_step [OF run_nil opened [OF idle_opens]] by (simp add: idle_gate_new)

lemma reservation_run:
  "gate_run idle_gate [Reloaded None, Withdrawn] idle_gate"
proof -
  let ?a = "\<lparr>sa_state = idle_state\<lparr>ad_publication := True\<rparr>, sa_poisoned = False\<rparr>"
  let ?p = "\<lparr>pu_checkpoint = None, pu_finished = False\<rparr>"
  let ?g = "idle_gate\<lparr>ga_admission := ?a, ga_publications := [?p]\<rparr>"
  have "publication_round (Some None) 0 (ga_admission idle_gate) = (Ok (Inl ?p), ?a)"
    by (simp add: publication_round_def lock_def unlock_def bind_eff_apply Let_def idle_gate_def idle_state_def
        reload_state_def)
  from reserved [OF this] have "gate_step idle_gate (Reloaded None) ?g" by (simp add: idle_gate_def)
  moreover have "gate_step ?g Withdrawn idle_gate"
    using withdrawn [of ?g "[]" ?p "[]"]
    by (simp add: publication_drop_def notify_def idle_gate_def idle_state_def)
  ultimately show ?thesis using run_step [OF run_step [OF run_nil]] by fastforce
qed

lemma started_run:
  "gate_run gate_new [Reloaded None, Began idle_plan, Started]
     (idle_gate\<lparr>ga_admission := \<lparr>sa_state = idle_state\<lparr>ad_commit := True\<rparr>, sa_poisoned = False\<rparr>,
        ga_commits := [commit_start fresh_permit]\<rparr>)"
proof -
  let ?a = "\<lparr>sa_state = idle_state\<lparr>ad_commit := True\<rparr>, sa_poisoned = False\<rparr>"
  have "gate_step idle_gate (Began idle_plan) (idle_gate\<lparr>ga_admission := ?a, ga_commits := [fresh_permit]\<rparr>)"
    using began [OF idle_begins] by (simp add: idle_gate_def)
  moreover have "gate_step (idle_gate\<lparr>ga_admission := ?a, ga_commits := [fresh_permit]\<rparr>) Started
      (idle_gate\<lparr>ga_admission := ?a, ga_commits := [commit_start fresh_permit]\<rparr>)"
    using started [of "idle_gate\<lparr>ga_admission := ?a, ga_commits := [fresh_permit]\<rparr>" "[]" fresh_permit "[]"] by simp
  ultimately show ?thesis using run_step [OF run_step [OF idle_run]] by fastforce
qed

lemma parked_run:
  "\<exists>g. gate_run gate_new [Reloaded None, Began idle_plan, Started, Parked 4] g \<and>
     ga_commits g = [commit_start fresh_permit] \<and> ga_publications g = [] \<and> ad_waiters (gate_state g) = [4] \<and>
     \<not> sa_poisoned (ga_admission g)"
proof -
  let ?g = "idle_gate\<lparr>ga_admission := \<lparr>sa_state = idle_state\<lparr>ad_commit := True\<rparr>, sa_poisoned = False\<rparr>,
    ga_commits := [commit_start fresh_permit]\<rparr>"
  let ?a = "\<lparr>sa_state = idle_state\<lparr>ad_commit := True, ad_waiters := [4]\<rparr>, sa_poisoned = False\<rparr>"
  have "publication_round None 4 (ga_admission ?g) = (Ok (Inr 4), ?a)"
    by (simp add: publication_round_def lock_def unlock_def bind_eff_apply Let_def idle_state_def)
  from run_step [OF started_run parked [OF this]] show ?thesis by (force simp: idle_gate_def)
qed

lemma released_run:
  "\<exists>g. gate_run gate_new [Reloaded None, Began idle_plan, Started, Parked 4, Completed None] g \<and>
     ga_commits g = [] \<and> ga_publications g = []"
proof -
  obtain g where g: "gate_run gate_new [Reloaded None, Began idle_plan, Started, Parked 4] g"
      "ga_commits g = [] @ commit_start fresh_permit # []" "ga_publications g = []"
    using parked_run by auto
  obtain r a where "commit_complete (commit_start fresh_permit) None (ga_admission g) = (r, a)" by fastforce
  from run_step [OF g(1) completed [OF g(2) this]] g(3) show ?thesis by force
qed

section \<open>Properties\<close>

text \<open>
  C9. Commits and publications exclude each other: in every reachable state of any number of clients
  at most one permit is alive. The flags say which: the commit flag is set exactly while a commit permit
  is alive and the publication flag exactly while a publication permit is, so a free gate is never
  reported as busy nor a busy one as free. No client is registered as waiting unless a permit is alive
  whose end will wake it.
\<close>

theorem gate_exclusive:
  assumes "gate_run gate_new es g"
  shows "length (ga_commits g) + length (ga_publications g) \<le> 1 \<and>
    (ad_commit (gate_state g) \<longleftrightarrow> ga_commits g \<noteq> []) \<and> (ad_publication (gate_state g) \<longleftrightarrow> ga_publications g \<noteq> []) \<and>
    (ad_waiters (gate_state g) \<noteq> [] \<longrightarrow> ga_commits g \<noteq> [] \<or> ga_publications g \<noteq> [])"
  using gate_run_ok [OF assms gate_new_ok] by (auto simp: gate_ok_def Let_def split: if_splits)

theorem gate_exclusive_witness:
  "\<exists>g g'. gate_run gate_new [Reloaded None, Began idle_plan, Started, Parked 4] g \<and>
     ad_commit (gate_state g) \<and> \<not> ad_publication (gate_state g) \<and> ad_waiters (gate_state g) = [4] \<and>
     length (ga_commits g) + length (ga_publications g) = 1 \<and>
     gate_run gate_new [Reloaded None, Began idle_plan, Started, Parked 4, Completed None] g' \<and>
     \<not> ad_commit (gate_state g') \<and> \<not> ad_publication (gate_state g') \<and> ad_waiters (gate_state g') = []"
proof -
  obtain g where run: "gate_run gate_new [Reloaded None, Began idle_plan, Started, Parked 4] g"
      "ga_commits g = [commit_start fresh_permit]" "ga_publications g = []" "ad_waiters (gate_state g) = [4]"
    using parked_run by blast
  moreover obtain g' where "gate_run gate_new [Reloaded None, Began idle_plan, Started, Parked 4, Completed None] g'"
      "ga_commits g' = []" "ga_publications g' = []"
    using released_run by blast
  ultimately show ?thesis using gate_exclusive [OF run(1)] gate_exclusive [of _ g'] by force
qed

text \<open>
  No address is missed: between the start of a plan, whose filters are captured without the lock,
  and the moment a commit of that plan is admitted, no other client has published addresses,
  however the clients are interleaved.
\<close>

theorem plan_sees_publications:
  assumes "gate_run gate_new es g" "plan_open persisted (ga_admission g) = (Ok revision, a)"
    and "gate_run (g\<lparr>ga_admission := a\<rparr>) es1 g1" "plan_close persisted revision filters (ga_admission g1) = (Ok p, a1)"
    and "gate_run g1 es2 g2" "admission_begin p (ga_admission g2) = (Ok permit, a2)"
  shows "Published \<notin> set (es1 @ es2)"
proof -
  let ?g = "g\<lparr>ga_admission := a\<rparr>"
  have ok: "gate_ok ?g"
    using gate_step_ok [OF opened [OF assms(2)]] gate_run_ok [OF assms(1) gate_new_ok] by simp
  have "ad_revision (gate_state ?g) = revision"
    using plan_open_effect [OF assms(2)] assms(2)
    by (auto simp: plan_open_def lock_def unlock_def bind_eff_apply Let_def throw_def ret_def split: if_splits)
  moreover have "ad_revision (gate_state g1) = revision" "pl_revision p = revision"
    using assms(4) by (simp_all add: plan_close_effect)
  moreover have "ad_revision (gate_state g2) = pl_revision p" using assms(6) by (simp add: admission_begin_effect)
  ultimately show ?thesis
    using same_revision_unpublished [OF assms(3) ok] same_revision_unpublished [OF assms(5) gate_run_ok [OF assms(3) ok]]
    by simp
qed

theorem plan_sees_publications_witness: "Published \<notin> set [Reloaded None, Withdrawn]"
proof -
  have close: "plan_close None 0 [] (ga_admission idle_gate) = (Ok idle_plan, ga_admission idle_gate)"
    unfolding plan_close_effect by (simp add: idle_plan_def idle_gate_def idle_state_def)
  have "gate_run (gate_new\<lparr>ga_admission := ga_admission idle_gate\<rparr>) [] idle_gate"
    unfolding idle_gate_new by (rule run_nil)
  from plan_sees_publications [OF run_nil idle_opens this close reservation_run idle_begins]
  show ?thesis unfolding append_Nil .
qed

text \<open>
  An interrupted commit is not built upon: when a permit whose repository transition had started
  is dropped unfinished, every later commit is refused until some client has reloaded the
  checkpoint from the repository.
\<close>

theorem abandoned_commit_needs_reload:
  assumes "gate_run gate_new es g" "ga_commits g = [permit]" "cm_started permit"
    and "gate_run (g\<lparr>ga_admission := commit_drop permit (ga_admission g), ga_commits := []\<rparr>) es1 g1"
    and "\<forall>q. Reloaded q \<notin> set es1"
  shows "admission_begin p (ga_admission g1) = (Err reload_required_error, ga_admission g1)"
proof -
  let ?g = "g\<lparr>ga_admission := commit_drop permit (ga_admission g), ga_commits := []\<rparr>"
  note ok = gate_run_ok [OF assms(1) gate_new_ok]
  have permit: "cm_attached permit \<and> \<not> cm_finished permit" using gate_okD(5) [OF ok] assms(2) by simp
  have step: "gate_step g Abandoned ?g" using abandoned [of g "[]" permit "[]"] assms(2) by simp
  have "ad_recovery (gate_state ?g)" using permit assms(3) gate_okD(1) [OF ok] by (simp add: commit_drop_effect)
  from gate_run_recovery [OF assms(4) gate_step_ok [OF step ok] this assms(5)]
  have "ad_recovery (gate_state g1)" .
  moreover have "\<not> sa_poisoned (ga_admission g1)"
    using gate_okD(1) [OF gate_run_ok [OF assms(4) gate_step_ok [OF step ok]]] by simp
  ultimately show ?thesis by (simp add: admission_begin_def lock_def bind_eff_apply throw_def)
qed


theorem abandoned_commit_needs_reload_witness:
  "admission_begin idle_plan (commit_drop (commit_start fresh_permit)
       \<lparr>sa_state = idle_state\<lparr>ad_commit := True\<rparr>, sa_poisoned = False\<rparr>) =
     (Err reload_required_error, commit_drop (commit_start fresh_permit)
       \<lparr>sa_state = idle_state\<lparr>ad_commit := True\<rparr>, sa_poisoned = False\<rparr>)"
  using abandoned_commit_needs_reload [OF started_run _ _ run_nil, of "commit_start fresh_permit" idle_plan]
  by (simp add: commit_start_def)

end
