(* ===== verification/Synchronizer.thy ===== *)
theory Synchronizer
  imports Index_Chain Admission
begin

text \<open>
  The synchronizer of \<open>sdk/indexing/src/synchronizer.rs\<close>: it follows a block source, applies blocks
  that connect, and rolls the index back to the newest retained block the source still considers
  canonical. The block source, the interpreter and the address selection are parameters; while they
  run they may also change the admission gate, as other clients do. The two loops of the rollback
  may in principle run forever, so they are defined as computations that may not return, and their
  return is proved.
\<close>

section \<open>Configuration, status and world\<close>

record sync_config =
  cfg_scope :: index_scope
  cfg_minimum_confirmations :: u64
  cfg_reorg_retention :: u64
  cfg_batch_size :: nat

definition zero_confirmations_error :: index_error where
  "zero_confirmations_error =
     index_error_new InvalidRequest ''minimum confirmations must be greater than zero'' False"

definition zero_batch_error :: index_error where
  "zero_batch_error =
     index_error_new InvalidRequest ''rollback retention and batch size must be greater than zero'' False"

definition sync_config_new ::
  "index_scope \<Rightarrow> u64 \<Rightarrow> u64 \<Rightarrow> nat \<Rightarrow> (index_error, sync_config) result" where
  "sync_config_new scope minimum_confirmations reorg_retention batch_size =
     and_then (fail_if (minimum_confirmations = 0) zero_confirmations_error) (\<lambda>_.
     and_then (fail_if (reorg_retention = 0 \<or> batch_size = 0) zero_batch_error) (\<lambda>_.
     Ok \<lparr>cfg_scope = scope, cfg_minimum_confirmations = minimum_confirmations,
         cfg_reorg_retention = reorg_retention, cfg_batch_size = batch_size\<rparr>))"

datatype sync_phase = CatchingUp | Ready

record sync_status =
  ss_scope :: index_scope
  ss_checkpoint :: "block_ref option"
  ss_observed_tip :: "block_ref option"
  ss_phase :: sync_phase

record block_observation =
  bo_scope :: index_scope
  bo_block :: block_ref
  bo_transactions :: "canonical_transaction list"

record ('r, 'x) world =
  w_repo :: 'r
  w_admission :: scope_admission
  w_env :: 'x
  w_running :: bool
  w_observed :: "block_observation list"

type_synonym 'x outside = "scope_admission \<times> 'x"

record 'x filter_source =
  fs_filters :: "('x outside, index_error, address_filter list) eff"
  fs_plan :: "index_scope \<Rightarrow> block_ref option \<Rightarrow> ('x outside, index_error, sync_plan) eff"

text \<open>
  \<open>sy_tip\<close> to \<open>sy_canonical_at\<close> are the \<open>BlockSource\<close>, \<open>sy_block_ref\<close> is \<open>IndexedBlock\<close>, \<open>sy_inspect\<close> the
  \<open>BlockInterpreter\<close>, \<open>sy_get\<close> to \<open>sy_remove\<close> the \<open>Blocks\<close> repository; \<open>sy_observer\<close> tells whether an
  observer is set.
\<close>

record ('r, 'x, 'b) synchronizer =
  sy_tip :: "('x outside, source_error, block_ref) eff"
  sy_blocks :: "block_position \<Rightarrow> block_position \<Rightarrow> nat \<Rightarrow> ('x outside, source_error, 'b list) eff"
  sy_canonical_at :: "block_position \<Rightarrow> ('x outside, source_error, block_ref option) eff"
  sy_block_ref :: "'b \<Rightarrow> block_ref"
  sy_inspect :: "'b \<Rightarrow> canonical_address list \<Rightarrow> (index_error, interpreted_block) result"
  sy_get :: "block_selector \<Rightarrow> ('r, index_error, block_ref option) eff"
  sy_add :: "block_addition \<Rightarrow> ('r, index_error, block_outcome) eff"
  sy_remove :: "index_scope \<Rightarrow> block_ref \<Rightarrow> ('r, index_error, block_ref option) eff"
  sy_config :: sync_config
  sy_observer :: bool

type_synonym ('r, 'x, 'a) sync_op = "(('r, 'x) world, index_error, 'a) eff"

definition on_repo :: "('r, index_error, 'a) eff \<Rightarrow> ('r, 'x, 'a) sync_op" where
  "on_repo m = (\<lambda>w. case m (w_repo w) of (r, s) \<Rightarrow> (r, w\<lparr>w_repo := s\<rparr>))"

definition on_outside :: "('x outside, index_error, 'a) eff \<Rightarrow> ('r, 'x, 'a) sync_op" where
  "on_outside m = (\<lambda>w. case m (w_admission w, w_env w) of (r, a, x) \<Rightarrow> (r, w\<lparr>w_admission := a, w_env := x\<rparr>))"

definition on_source :: "('x outside, source_error, 'a) eff \<Rightarrow> ('r, 'x, 'a) sync_op" where
  "on_source m = on_outside (\<lambda>o1. map_prod (map_err index_error_from_source) id (m o1))"

definition on_admission :: "'a admission_op \<Rightarrow> ('r, 'x, 'a) sync_op" where
  "on_admission m = (\<lambda>w. case m (w_admission w) of (r, a) \<Rightarrow> (r, w\<lparr>w_admission := a\<rparr>))"

text \<open>An early return with a commit permit in scope drops the permit.\<close>

definition with_permit :: "commit_permit \<Rightarrow> ('r, 'x, 'a) sync_op \<Rightarrow> ('r, 'x, 'a) sync_op" where
  "with_permit permit m = (\<lambda>w. case m w of
     (Err e, w') \<Rightarrow> (Err e, w'\<lparr>w_admission := commit_drop permit (w_admission w')\<rparr>)
   | (Ok x, w') \<Rightarrow> (Ok x, w'))"

section \<open>Validation\<close>

definition foreign_filter_error :: index_error where
  "foreign_filter_error = index_error_new ScopeMismatch ''address filter belongs to another scope'' False"

definition invalid_filter_error :: index_error where
  "invalid_filter_error = index_error_new InvalidRequest ''address filters must be non-empty and unique'' False"

fun has_invalid_filter :: "canonical_address set \<Rightarrow> address_filter list \<Rightarrow> bool" where
  "has_invalid_filter addresses [] \<longleftrightarrow> False"
| "has_invalid_filter addresses (f # fs) \<longleftrightarrow>
     ca_value (af_address f) = [] \<or> af_address f \<in> addresses \<or>
     has_invalid_filter (insert (af_address f) addresses) fs"

definition validate_filters ::
  "('r, 'x, 'b) synchronizer \<Rightarrow> address_filter list \<Rightarrow> (index_error, unit) result" where
  "validate_filters sy filters =
     and_then (fail_if
       (list_ex (\<lambda>f. \<not> address_belongs_to (af_address f) (cfg_scope (sy_config sy))) filters)
       foreign_filter_error) (\<lambda>_.
     fail_if (has_invalid_filter {} filters) invalid_filter_error)"

definition changed_reference_error :: index_error where
  "changed_reference_error = index_error_new InvalidBlock ''interpreter changed the block reference'' False"

definition validate_block :: "block_ref \<Rightarrow> interpreted_block \<Rightarrow> (index_error, unit) result" where
  "validate_block source block = fail_if (ib_block block \<noteq> source) changed_reference_error"

section \<open>Fetching\<close>

definition block_limit_error :: index_error where
  "block_limit_error = cannot_connect ''source exceeded the returned-block limit''"

definition block_order_error :: index_error where
  "block_order_error = cannot_connect ''source blocks are outside the range or not strictly increasing''"

definition required_block_error :: index_error where
  "required_block_error = cannot_connect ''source did not return the required produced block''"

fun check_positions ::
  "block_position \<Rightarrow> block_position \<Rightarrow> block_position option \<Rightarrow> block_position list \<Rightarrow> (index_error, unit) result" where
  "check_positions start end1 previous [] = Ok ()"
| "check_positions start end1 previous (position # positions) =
     (if position < start \<or> position > end1 \<or> (case previous of None \<Rightarrow> False | Some q \<Rightarrow> position \<le> q)
      then Err block_order_error
      else check_positions start end1 (Some position) positions)"

definition fetch_blocks ::
  "('r, 'x, 'b) synchronizer \<Rightarrow> block_position \<Rightarrow> block_position \<Rightarrow> nat \<Rightarrow> ('r, 'x, 'b list) sync_op" where
  "fetch_blocks sy start end1 limit =
     bind_eff (on_source (sy_blocks sy start end1 limit)) (\<lambda>blocks.
     bind_eff (lift_result (fail_if (limit < length blocks) block_limit_error)) (\<lambda>_.
     bind_eff (lift_result
       (check_positions start end1 None (map (\<lambda>b. br_position (sy_block_ref sy b)) blocks))) (\<lambda>_.
     ret blocks)))"

definition one_block ::
  "('r, 'x, 'b) synchronizer \<Rightarrow> block_position \<Rightarrow> block_position \<Rightarrow> ('r, 'x, 'b) sync_op" where
  "one_block sy start end1 =
     bind_eff (fetch_blocks sy start end1 1) (\<lambda>blocks.
     case blocks of [block] \<Rightarrow> ret block | _ \<Rightarrow> throw required_block_error)"

section \<open>Applying a block\<close>

definition genesis_parent_error :: index_error where
  "genesis_parent_error = cannot_connect ''genesis block must not have a parent''"

definition missing_parent_error :: index_error where
  "missing_parent_error = cannot_connect ''non-genesis block is missing its parent''"

definition source_disconnected_error :: index_error where
  "source_disconnected_error = cannot_connect ''source block does not connect to the checkpoint''"

definition source_changed_error :: index_error where
  "source_changed_error = cannot_connect ''source block changed before commit''"

definition check_parent :: "block_ref \<Rightarrow> (index_error, unit) result" where
  "check_parent block =
     (if br_position block = 0 then fail_if (br_parent block \<noteq> None) genesis_parent_error
      else fail_if (br_parent block = None) missing_parent_error)"

definition check_source_connection :: "block_ref option \<Rightarrow> block_ref \<Rightarrow> (index_error, unit) result" where
  "check_source_connection checkpoint block =
     (case checkpoint of
        None \<Rightarrow> Ok ()
      | Some tip \<Rightarrow>
          and_then (ok_or (height_successor (br_height tip)) exhausted_height_error) (\<lambda>expected_height.
          fail_if (br_position block \<le> br_position tip \<or> br_height block \<noteq> expected_height \<or>
                   br_parent block \<noteq> Some (checkpoint_parent tip)) source_disconnected_error))"

definition observe_block ::
  "('r, 'x, 'b) synchronizer \<Rightarrow> block_outcome \<Rightarrow> block_ref \<Rightarrow> canonical_transaction list \<Rightarrow> ('r, 'x, unit) sync_op" where
  "observe_block sy outcome block transactions =
     (\<lambda>w. (Ok (),
        if outcome = Applied \<and> sy_observer sy
        then w\<lparr>w_observed := w_observed w @
          [\<lparr>bo_scope = cfg_scope (sy_config sy), bo_block = block, bo_transactions = transactions\<rparr>]\<rparr>
        else w))"

definition apply_block ::
  "('r, 'x, 'b) synchronizer \<Rightarrow> 'b \<Rightarrow> canonical_address list \<Rightarrow> block_ref option \<Rightarrow> sync_plan \<Rightarrow>
     ('r, 'x, block_ref \<times> sync_plan) sync_op" where
  "apply_block sy source_block addresses checkpoint pl =
     (let block = sy_block_ref sy source_block in
      bind_eff (lift_result (check_parent block)) (\<lambda>_.
      bind_eff (lift_result (check_source_connection checkpoint block)) (\<lambda>_.
      bind_eff (lift_result (sy_inspect sy source_block addresses)) (\<lambda>interpreted.
      bind_eff (lift_result (validate_block block interpreted)) (\<lambda>_.
      bind_eff (on_source (sy_canonical_at sy (br_position block))) (\<lambda>canonical.
      bind_eff (lift_result (fail_if (canonical \<noteq> Some block) source_changed_error)) (\<lambda>_.
      bind_eff (lift_result (block_addition_new (cfg_scope (sy_config sy)) checkpoint
        (cfg_reorg_retention (sy_config sy)) interpreted)) (\<lambda>addition.
      bind_eff (on_admission (plan_begin pl)) (\<lambda>permit.
      let permit = commit_start permit in
      bind_eff (with_permit permit (on_repo (sy_add sy addition))) (\<lambda>outcome.
      bind_eff (on_admission (commit_complete permit (Some block))) (\<lambda>_.
      bind_eff (observe_block sy outcome block (ba_transactions addition)) (\<lambda>_.
      ret (block, advance pl block)))))))))))))"

section \<open>Rolling back\<close>

type_synonym ('r, 'x, 'a) sync_proc =
  "('r, 'x) world \<Rightarrow> ((index_error, 'a) result \<times> ('r, 'x) world) option"

definition returning :: "('r, 'x, 'a) sync_op \<Rightarrow> ('r, 'x, 'a) sync_proc" where
  "returning m = (\<lambda>w. Some (m w))"

definition bind_proc ::
  "('r, 'x, 'a) sync_proc \<Rightarrow> ('a \<Rightarrow> ('r, 'x, 'b) sync_proc) \<Rightarrow> ('r, 'x, 'b) sync_proc" where
  "bind_proc m f = (\<lambda>w. case m w of
     None \<Rightarrow> None
   | Some (Err e, w') \<Rightarrow> Some (Err e, w')
   | Some (Ok x, w') \<Rightarrow> f x w')"

text \<open>The block retained at a height and what the source has at its position.\<close>

definition local_and_remote ::
  "('r, 'x, 'b) synchronizer \<Rightarrow> block_height \<Rightarrow> ('r, 'x, block_ref option \<times> block_ref option) sync_op" where
  "local_and_remote sy height =
     bind_eff (on_repo (sy_get sy (AtHeight (cfg_scope (sy_config sy)) height))) (\<lambda>local.
     bind_eff
       (case local of
          Some block \<Rightarrow> on_source (sy_canonical_at sy (br_position block))
        | None \<Rightarrow> ret None) (\<lambda>remote.
     ret (local, remote)))"

partial_function (option) find_ancestor ::
  "('r, 'x, 'b) synchronizer \<Rightarrow> block_height \<Rightarrow> block_height \<Rightarrow> ('r, 'x) world \<Rightarrow>
     ((index_error, block_ref option) result \<times> ('r, 'x) world) option" where
  "find_ancestor sy oldest height w =
     (case local_and_remote sy height w of
        (Err e, w') \<Rightarrow> Some (Err e, w')
      | (Ok (local, remote), w') \<Rightarrow>
          if local \<noteq> None \<and> local = remote then Some (Ok local, w')
          else if height = oldest then Some (Ok None, w')
          else find_ancestor sy oldest (saturating_sub height 1) w')"

text \<open>
  The loop removes the checkpoint while it is above the ancestor; inside it the checkpoint exists,
  so the source's error for a missing one cannot arise.
\<close>

definition revert_once ::
  "('r, 'x, 'b) synchronizer \<Rightarrow> commit_permit \<Rightarrow> block_ref \<Rightarrow> ('r, 'x, block_ref option) sync_op" where
  "revert_once sy permit expected_tip =
     bind_eff (on_repo (sy_remove sy (cfg_scope (sy_config sy)) expected_tip)) (\<lambda>current.
     bind_eff (on_admission (commit_persist permit current)) (\<lambda>_.
     ret current))"

partial_function (option) revert_to ::
  "('r, 'x, 'b) synchronizer \<Rightarrow> commit_permit \<Rightarrow> block_ref \<Rightarrow> block_ref option \<Rightarrow> ('r, 'x) world \<Rightarrow>
     ((index_error, block_ref option) result \<times> ('r, 'x) world) option" where
  "revert_to sy permit ancestor current w =
     (case current of
        None \<Rightarrow> Some (Ok None, w)
      | Some tip \<Rightarrow>
          if br_height tip > br_height ancestor then
            (case with_permit permit (revert_once sy permit tip) w of
               (Err e, w') \<Rightarrow> Some (Err e, w')
             | (Ok previous, w') \<Rightarrow> revert_to sy permit ancestor previous w')
          else Some (Ok current, w))"

definition reorg_too_deep_error :: index_error where
  "reorg_too_deep_error =
     index_error_new ReorgTooDeep ''reorg exceeds rollback journal; rescan required'' False"

definition reconcile ::
  "('r, 'x, 'b) synchronizer \<Rightarrow> block_ref \<Rightarrow> sync_plan \<Rightarrow> ('r, 'x, block_ref option \<times> sync_plan) sync_proc" where
  "reconcile sy tip pl =
     (let oldest = saturating_sub (br_height tip) (cfg_reorg_retention (sy_config sy)) in
      bind_proc (find_ancestor sy oldest (br_height tip)) (\<lambda>found.
      bind_proc (returning (lift_result (ok_or found reorg_too_deep_error))) (\<lambda>ancestor.
      bind_proc (returning (on_admission (plan_begin pl))) (\<lambda>permit.
      let permit = commit_start permit in
      bind_proc (revert_to sy permit ancestor (Some tip)) (\<lambda>current.
      bind_proc (returning (on_admission (commit_complete permit current))) (\<lambda>_.
      returning (ret (current, case current of Some checkpoint \<Rightarrow> advance pl checkpoint | None \<Rightarrow> pl))))))))"

section \<open>A pass\<close>

definition anchor_mismatch_error :: index_error where
  "anchor_mismatch_error = cannot_connect ''birthday anchor does not match the first block parent''"

definition apply_anchor ::
  "('r, 'x, 'b) synchronizer \<Rightarrow> block_parent \<Rightarrow> sync_plan \<Rightarrow> ('r, 'x, block_ref \<times> sync_plan) sync_op" where
  "apply_anchor sy parent pl =
     bind_eff (one_block sy (bp_position parent) (bp_position parent)) (\<lambda>anchor.
     bind_eff (lift_result (fail_if
       (br_position (sy_block_ref sy anchor) \<noteq> bp_position parent \<or>
        br_hash (sy_block_ref sy anchor) \<noteq> bp_hash parent) anchor_mismatch_error)) (\<lambda>_.
     apply_block sy anchor [] None pl))"

definition initialize_checkpoint ::
  "('r, 'x, 'b) synchronizer \<Rightarrow> block_ref \<Rightarrow> sync_plan \<Rightarrow>
     ('r, 'x, block_ref option \<times> nat \<times> sync_plan) sync_op" where
  "initialize_checkpoint sy observed_tip pl =
     (case earliest_position pl of
        Some start \<Rightarrow>
          if start \<le> br_position observed_tip then
            bind_eff (one_block sy start (br_position observed_tip)) (\<lambda>first.
            let first_ref = sy_block_ref sy first in
            bind_eff
              (case br_parent first_ref of
                 Some parent \<Rightarrow>
                   bind_eff (apply_anchor sy parent pl) (\<lambda>(checkpoint, pl). ret (Some checkpoint, 1, pl))
               | None \<Rightarrow> ret (None, 0, pl)) (\<lambda>(checkpoint, applied, pl).
            if applied < cfg_batch_size (sy_config sy) then
              bind_eff (apply_block sy first (active_addresses pl (br_position first_ref)) checkpoint pl)
                (\<lambda>(checkpoint, pl). ret (Some checkpoint, applied + 1, pl))
            else ret (checkpoint, applied, pl)))
          else
            bind_eff (one_block sy (br_position observed_tip) (br_position observed_tip)) (\<lambda>anchor.
            bind_eff (apply_block sy anchor [] None pl) (\<lambda>(checkpoint, pl). ret (Some checkpoint, 1, pl)))
      | None \<Rightarrow>
          bind_eff (one_block sy (br_position observed_tip) (br_position observed_tip)) (\<lambda>anchor.
          bind_eff (apply_block sy anchor [] None pl) (\<lambda>(checkpoint, pl). ret (Some checkpoint, 1, pl))))"

fun apply_blocks ::
  "('r, 'x, 'b) synchronizer \<Rightarrow> 'b list \<Rightarrow> block_ref option \<Rightarrow> sync_plan \<Rightarrow>
     ('r, 'x, block_ref option \<times> sync_plan) sync_op" where
  "apply_blocks sy [] checkpoint pl = ret (checkpoint, pl)"
| "apply_blocks sy (source_block # blocks) checkpoint pl =
     bind_eff (apply_block sy source_block (active_addresses pl (br_position (sy_block_ref sy source_block)))
       checkpoint pl) (\<lambda>(block, pl).
     apply_blocks sy blocks (Some block) pl)"

definition position_exhausted_error :: index_error where
  "position_exhausted_error = index_error_new InvalidBlock ''checkpoint position is exhausted'' False"

definition no_block_error :: index_error where
  "no_block_error = cannot_connect ''source returned no produced block before its observed tip''"

definition advance_chain ::
  "('r, 'x, 'b) synchronizer \<Rightarrow> block_ref \<Rightarrow> block_ref option \<Rightarrow> nat \<Rightarrow> sync_plan \<Rightarrow>
     ('r, 'x, block_ref option) sync_op" where
  "advance_chain sy observed_tip checkpoint applied pl =
     (case checkpoint of
        Some tip \<Rightarrow>
          if applied < cfg_batch_size (sy_config sy) \<and> br_position tip < br_position observed_tip then
            bind_eff (lift_result (ok_or (position_successor (br_position tip)) position_exhausted_error)) (\<lambda>start.
            bind_eff (fetch_blocks sy start (br_position observed_tip) (cfg_batch_size (sy_config sy) - applied)) (\<lambda>blocks.
            bind_eff (lift_result (fail_if (blocks = []) no_block_error)) (\<lambda>_.
            bind_eff (apply_blocks sy blocks checkpoint pl) (\<lambda>(checkpoint, pl). ret checkpoint))))
          else ret checkpoint
      | None \<Rightarrow> ret None)"

definition already_running_error :: index_error where
  "already_running_error = retryable_conflict ''synchronization is already running''"

definition caught_up :: "block_ref \<Rightarrow> block_ref option \<Rightarrow> bool" where
  "caught_up observed_tip checkpoint \<longleftrightarrow>
     (case checkpoint of Some v \<Rightarrow> br_position v \<ge> br_position observed_tip | None \<Rightarrow> False)"

definition sync_pass ::
  "('r, 'x, 'b) synchronizer \<Rightarrow> 'x filter_source \<Rightarrow> ('r, 'x, sync_status) sync_proc" where
  "sync_pass sy selection =
     bind_proc (returning (on_outside (fs_filters selection))) (\<lambda>filters.
     bind_proc (returning (lift_result (validate_filters sy filters))) (\<lambda>_.
     bind_proc (returning (on_source (sy_tip sy))) (\<lambda>observed_tip.
     bind_proc (returning (on_repo (sy_get sy (Tip (cfg_scope (sy_config sy)))))) (\<lambda>checkpoint.
     bind_proc (returning (on_outside (fs_plan selection (cfg_scope (sy_config sy)) checkpoint))) (\<lambda>pl.
     bind_proc (returning (lift_result (validate_filters sy (pl_filters pl)))) (\<lambda>_.
     bind_proc
       (case checkpoint of
          Some local \<Rightarrow>
            bind_proc (returning (on_source (sy_canonical_at sy (br_position local)))) (\<lambda>canonical.
            if canonical \<noteq> Some local then reconcile sy local pl else returning (ret (checkpoint, pl)))
        | None \<Rightarrow> returning (ret (checkpoint, pl))) (\<lambda>(checkpoint, pl).
     bind_proc
       (if checkpoint = None then returning (initialize_checkpoint sy observed_tip pl)
        else returning (ret (checkpoint, 0, pl))) (\<lambda>(checkpoint, applied, pl).
     bind_proc (returning (advance_chain sy observed_tip checkpoint applied pl)) (\<lambda>checkpoint.
     returning (ret \<lparr>ss_scope = cfg_scope (sy_config sy), ss_checkpoint = checkpoint,
       ss_observed_tip = Some observed_tip,
       ss_phase = (if caught_up observed_tip checkpoint then Ready else CatchingUp)\<rparr>))))))))))"

text \<open>The running flag is taken on entry and released on every exit.\<close>

definition sync :: "('r, 'x, 'b) synchronizer \<Rightarrow> 'x filter_source \<Rightarrow> ('r, 'x, sync_status) sync_proc" where
  "sync sy selection = (\<lambda>w.
     if w_running w then Some (Err already_running_error, w)
     else map_option (\<lambda>(r, w'). (r, w'\<lparr>w_running := False\<rparr>)) (sync_pass sy selection (w\<lparr>w_running := True\<rparr>)))"

end
