(* ===== verification/Sync_Laws.thy ===== *)
theory Sync_Laws
  imports Synchronizer
begin

text \<open>
  What a synchronization pass guarantees over any repository with the laws of \<open>block_repository\<close>: it
  always returns, it keeps the chain linked whatever fails, a rollback ends exactly at the newest
  retained block the source confirms, and the status it reports is the repository's own.
\<close>

section \<open>Connected blocks\<close>

text \<open>Blocks that lead, each connecting to the one before, from one checkpoint to another.\<close>

fun chained :: "block_ref option \<Rightarrow> block_ref list \<Rightarrow> block_ref option \<Rightarrow> bool" where
  "chained t [] t' \<longleftrightarrow> t = t'"
| "chained t (b # bs) t' \<longleftrightarrow> connects t b \<and> chained (Some b) bs t'"

lemma chained_append: "chained t bs t1 \<Longrightarrow> chained t1 cs t2 \<Longrightarrow> chained t (bs @ cs) t2"
  by (induction t bs t1 rule: chained.induct) auto

text \<open>
  The retained block at a height is confirmed if the source has the same block at its position; the
  newest common block of a range of heights is the highest confirmed one.
\<close>

definition retained :: "chain_state \<Rightarrow> block_ref \<Rightarrow> bool" where
  "retained c b \<longleftrightarrow> (\<exists>p. ch_journal c (br_height b) = Some (b, p))"

definition confirmed :: "chain_state \<Rightarrow> (block_position \<Rightarrow> block_ref option) \<Rightarrow> block_height \<Rightarrow> bool" where
  "confirmed c canon h \<longleftrightarrow> (\<exists>b p. ch_journal c h = Some (b, p) \<and> canon (br_position b) = Some b)"

definition newest_common ::
  "chain_state \<Rightarrow> (block_position \<Rightarrow> block_ref option) \<Rightarrow> block_height \<Rightarrow> block_height \<Rightarrow> block_ref option \<Rightarrow> bool" where
  "newest_common c canon oldest height found \<longleftrightarrow>
     (case found of
        Some b \<Rightarrow> retained c b \<and> confirmed c canon (br_height b) \<and> oldest \<le> br_height b \<and> br_height b \<le> height \<and>
          (\<forall>h. br_height b < h \<longrightarrow> h \<le> height \<longrightarrow> \<not> confirmed c canon h)
      | None \<Rightarrow> \<forall>h. oldest \<le> h \<longrightarrow> h \<le> height \<longrightarrow> \<not> confirmed c canon h)"

text \<open>The chain cut back to one of its blocks.\<close>

definition chain_cut :: "chain_state \<Rightarrow> block_ref \<Rightarrow> chain_state" where
  "chain_cut c b = \<lparr>ch_tip = Some b, ch_journal = (\<lambda>h. if h \<le> br_height b then ch_journal c h else None)\<rparr>"

text \<open>A source whose answers about canonical blocks do not change.\<close>

definition steady :: "('r, 'x, 'b) synchronizer \<Rightarrow> (block_position \<Rightarrow> block_ref option) \<Rightarrow> bool" where
  "steady sy canon \<longleftrightarrow> (\<forall>p o1. fst (sy_canonical_at sy p o1) = Ok (canon p))"

text \<open>
  The retained blocks of a range of heights, the newest first, and the question a rollback asks: which of
  them is the first one the source has at its position. The source may fail, and what it answers may change
  from call to call.
\<close>

definition candidates :: "chain_state \<Rightarrow> block_height \<Rightarrow> block_height \<Rightarrow> block_ref list" where
  "candidates c oldest height =
     List.map_filter (\<lambda>h. map_option fst (ch_journal c (of_nat h))) (rev [unat oldest..<Suc (unat height)])"

fun first_confirmed ::
  "('r, 'x, 'b) synchronizer \<Rightarrow> block_ref list \<Rightarrow> 'x outside \<Rightarrow> (source_error, block_ref option) result \<times> 'x outside" where
  "first_confirmed sy [] o1 = (Ok None, o1)"
| "first_confirmed sy (b # bs) o1 =
     (case sy_canonical_at sy (br_position b) o1 of
        (Err e, o2) \<Rightarrow> (Err e, o2)
      | (Ok answer, o2) \<Rightarrow> if answer = Some b then (Ok (Some b), o2) else first_confirmed sy bs o2)"

text \<open>An error the index gave when a block was read from it.\<close>

definition read_failed :: "('r, 'x, 'b) synchronizer \<Rightarrow> (index_error, 'a) result \<Rightarrow> bool" where
  "read_failed sy r \<longleftrightarrow> (\<exists>e h s s'. r = Err e \<and> sy_get sy (AtHeight (cfg_scope (sy_config sy)) h) s = (Err e, s'))"

lemma candidates_step:
  assumes "oldest \<le> height"
  shows "candidates c oldest height =
    (case ch_journal c height of None \<Rightarrow> [] | Some (b, p) \<Rightarrow> [b]) @ (if height = oldest then [] else candidates c oldest (height - 1))"
proof (cases "height = oldest")
  case False
  then have "unat (height - 1) = unat height - 1" "0 < unat height" "unat oldest < unat height"
    using assms by (simp_all add: word_le_nat_alt word_less_nat_alt unat_sub word_unat_eq_iff)
  then have "rev [unat oldest..<Suc (unat height)] = unat height # rev [unat oldest..<Suc (unat (height - 1))]" by simp
  then show ?thesis using False by (simp add: candidates_def map_filter_simps split: option.splits)
qed (simp add: candidates_def map_filter_simps split: option.splits)

text \<open>
  What a reconciliation may do to the chain: cut it back to a retained block of the window that the
  source confirms, or stop part of the way there, or leave it alone.
\<close>

definition window :: "('r, 'x, 'b) synchronizer \<Rightarrow> block_ref \<Rightarrow> block_height" where
  "window sy tip = saturating_sub (br_height tip) (cfg_reorg_retention (sy_config sy))"

definition aims_for :: "('r, 'x, 'b) synchronizer \<Rightarrow> chain_state \<Rightarrow> block_ref \<Rightarrow> block_ref \<Rightarrow> bool" where
  "aims_for sy c tip b \<longleftrightarrow> retained c b \<and> window sy tip \<le> br_height b \<and> br_height b \<le> br_height tip \<and>
     (\<forall>canon. steady sy canon \<longrightarrow> newest_common c canon (window sy tip) (br_height tip) (Some b))"

text \<open>While a rollback is under way nothing at or below the block it aims for has changed.\<close>

definition above :: "block_ref \<Rightarrow> chain_state \<Rightarrow> chain_state \<Rightarrow> bool" where
  "above b c c' \<longleftrightarrow>
     (\<forall>h \<le> br_height b. ch_journal c' h = ch_journal c h) \<and>
     (\<exists>t. ch_tip c' = Some t \<and> br_height b \<le> br_height t) \<and>
     chain_cut c' b = chain_cut c b"

text \<open>The block a pass builds on: the checkpoint it found, or the one a reconciliation went back to.\<close>

definition base_of :: "('r, 'x, 'b) synchronizer \<Rightarrow> chain_state \<Rightarrow> block_ref option \<Rightarrow> bool" where
  "base_of sy c base \<longleftrightarrow> base = ch_tip c \<or> (\<exists>tip b. ch_tip c = Some tip \<and> base = Some b \<and> aims_for sy c tip b)"

section \<open>Steps of a pass\<close>

lemma returning_apply [simp]: "returning m w = Some (m w)"
  by (simp add: returning_def)

lemma bind_proc_Ok [simp]: "m w = Some (Ok x, w1) \<Longrightarrow> bind_proc m f w = f x w1"
  by (simp add: bind_proc_def)

lemma bind_proc_Err [simp]: "m w = Some (Err e, w1) \<Longrightarrow> bind_proc m f w = Some (Err e, w1)"
  by (simp add: bind_proc_def)

lemma bind_proc_assoc: "bind_proc (bind_proc m f) g = bind_proc m (\<lambda>x. bind_proc (f x) g)"
  by (auto simp: bind_proc_def fun_eq_iff split: option.splits prod.splits sum.splits)

lemma bind_proc_returning: "bind_proc (returning m) (\<lambda>x. returning (f x)) = returning (bind_eff m f)"
  by (auto simp: bind_proc_def bind_eff_def fun_eq_iff split: option.splits prod.splits sum.splits)

lemma bind_proc_returning_ret [simp]: "bind_proc (returning (ret x)) f = f x"
  by (simp add: bind_proc_def fun_eq_iff)

section \<open>Steps that leave the repository alone\<close>

locale synchronized =
  block_repository inv chain "sy_get sy" "sy_add sy" "sy_remove sy"
  for inv :: "'r \<Rightarrow> bool" and chain :: "'r \<Rightarrow> chain_state" and sy :: "('r, 'x, 'b) synchronizer"
begin

abbreviation wchain :: "('r, 'x) world \<Rightarrow> chain_state" where
  "wchain w \<equiv> chain (w_repo w)"

definition kept :: "('r, 'x) world \<Rightarrow> ('r, 'x) world \<Rightarrow> bool" where
  "kept w w' \<longleftrightarrow> inv (w_repo w') \<and> wchain w' = wchain w \<and> w_observed w' = w_observed w"

definition calm :: "('r, 'x, 'a) sync_op \<Rightarrow> bool" where
  "calm m \<longleftrightarrow> (\<forall>w. inv (w_repo w) \<longrightarrow> kept w (snd (m w)))"

lemma calmD: "calm m \<Longrightarrow> inv (w_repo w) \<Longrightarrow> m w = (r, w') \<Longrightarrow> kept w w'"
  by (metis calm_def snd_conv)

lemma kept_refl: "inv (w_repo w) \<Longrightarrow> kept w w"
  by (simp add: kept_def)

lemma kept_trans: "kept w w1 \<Longrightarrow> kept w1 w2 \<Longrightarrow> kept w w2"
  by (simp add: kept_def)

lemma calm_basic [simp, intro]: "calm (ret x)" "calm (throw e)" "calm (lift_result r)"
  by (simp_all add: calm_def kept_def)

lemma calm_outside [simp, intro]: "calm (on_outside m)" "calm (on_source q)" "calm (on_admission p)"
  by (simp_all add: calm_def kept_def on_source_def on_outside_def on_admission_def split: prod.splits)

lemma calm_bind [intro]:
  assumes m: "calm m" and f: "\<And>x. calm (f x)"
  shows "calm (bind_eff m f)"
  unfolding calm_def
proof (intro allI impI)
  fix w :: "('r, 'x) world"
  assume inv: "inv (w_repo w)"
  obtain r w1 where run: "m w = (r, w1)" by fastforce
  note k = calmD [OF m inv run]
  show "kept w (snd (bind_eff m f w))"
  proof (cases r)
    case (Inr x)
    obtain r2 w2 where "f x w1 = (r2, w2)" by fastforce
    with calmD [OF f _ this] k run Inr show ?thesis by (auto simp: kept_def)
  qed (use run k in simp)
qed

lemma calm_read [simp, intro]: "calm (on_repo (sy_get sy selector))"
  unfolding calm_def
proof (intro allI impI)
  fix w :: "('r, 'x) world"
  assume inv: "inv (w_repo w)"
  obtain r s where get: "sy_get sy selector (w_repo w) = (r, s)" by fastforce
  from get_law [OF inv get] show "kept w (snd (on_repo (sy_get sy selector) w))"
    by (simp add: on_repo_def get kept_def)
qed

lemma calm_with_permit [intro]: "calm m \<Longrightarrow> calm (with_permit permit m)"
  by (auto simp: calm_def with_permit_def kept_def split: prod.splits sum.splits)

lemma calm_fetch [simp, intro]: "calm (fetch_blocks sy start end1 limit)"
  unfolding fetch_blocks_def by (auto intro!: calm_bind)

lemma calm_one_block [simp, intro]: "calm (one_block sy start end1)"
  unfolding one_block_def by (auto intro!: calm_bind split: list.splits)

lemma calm_local_and_remote [simp, intro]: "calm (local_and_remote sy height)"
  unfolding local_and_remote_def by (auto intro!: calm_bind split: option.splits)

section \<open>Applying blocks\<close>

text \<open>A step that may append blocks: the invariant holds after it and it notified at most \<open>n\<close> blocks.\<close>

definition progress :: "nat \<Rightarrow> ('r, 'x) world \<Rightarrow> ('r, 'x) world \<Rightarrow> bool" where
  "progress n w w' \<longleftrightarrow> inv (w_repo w') \<and> (\<exists>os. w_observed w' = w_observed w @ os \<and> length os \<le> n)"

text \<open>One that succeeded: the blocks it notified lead from the old checkpoint to the new one.\<close>

definition applied :: "nat \<Rightarrow> ('r, 'x) world \<Rightarrow> ('r, 'x) world \<Rightarrow> bool" where
  "applied n w w' \<longleftrightarrow> inv (w_repo w') \<and>
     (\<exists>os. w_observed w' = w_observed w @ os \<and> length os \<le> n \<and>
       (sy_observer sy \<longrightarrow> chained (ch_tip (wchain w)) (map bo_block os) (ch_tip (wchain w'))))"

lemma applied_progress: "applied n w w' \<Longrightarrow> n \<le> k \<Longrightarrow> progress k w w'"
  unfolding applied_def progress_def by fastforce

lemma progress_mono: "progress n w w' \<Longrightarrow> n \<le> k \<Longrightarrow> progress k w w'"
  unfolding progress_def by fastforce

lemma progress_kept: "kept w w1 \<Longrightarrow> progress n w1 w2 \<Longrightarrow> progress n w w2"
  by (simp add: progress_def kept_def)

lemma kept_progress: "kept w w' \<Longrightarrow> progress n w w'"
  by (auto simp: progress_def kept_def)

lemma applied_kept: "kept w w1 \<Longrightarrow> applied n w1 w2 \<Longrightarrow> applied n w w2"
  by (simp add: applied_def kept_def)

lemma kept_applied: "kept w w' \<Longrightarrow> applied 0 w w'"
  by (auto simp: applied_def kept_def)

lemma applied_then_progress: "applied n w w1 \<Longrightarrow> progress k w1 w2 \<Longrightarrow> progress (n + k) w w2"
  unfolding applied_def progress_def by fastforce

lemma applied_trans: "applied n w w1 \<Longrightarrow> applied k w1 w2 \<Longrightarrow> applied (n + k) w w2"
  unfolding applied_def by (fastforce intro: chained_append)

text \<open>
  \<open>advances n R tip m\<close>: from the checkpoint \<open>tip\<close> the step \<open>m\<close> notifies at most \<open>n\<close> blocks, and on success
  its value, a bound on the notified blocks and the new checkpoint are related by \<open>R\<close>.
\<close>

definition advances ::
  "nat \<Rightarrow> ('a \<Rightarrow> nat \<Rightarrow> block_ref option \<Rightarrow> bool) \<Rightarrow> block_ref option \<Rightarrow> ('r, 'x, 'a) sync_op \<Rightarrow> bool" where
  "advances n R tip m \<longleftrightarrow>
     (\<forall>w r w'. inv (w_repo w) \<longrightarrow> ch_tip (wchain w) = tip \<longrightarrow> m w = (r, w') \<longrightarrow>
        progress n w w' \<and> (\<forall>x. r = Ok x \<longrightarrow> (\<exists>k. applied k w w' \<and> R x k (ch_tip (wchain w')))))"

lemma advancesD:
  assumes "advances n R tip m" "inv (w_repo w)" "ch_tip (wchain w) = tip" "m w = (r, w')"
  shows "progress n w w'" "r = Ok x \<Longrightarrow> \<exists>k. applied k w w' \<and> R x k (ch_tip (wchain w'))"
  using assms unfolding advances_def by blast+

lemma advances_mono:
  assumes m: "advances n R tip m" and "n \<le> N" and "\<And>x k t. R x k t \<Longrightarrow> R' x k t"
  shows "advances N R' tip m"
  unfolding advances_def
proof (intro allI impI conjI)
  fix w r w'
  assume w: "inv (w_repo w)" "ch_tip (wchain w) = tip" "m w = (r, w')"
  show "progress N w w'" using progress_mono [OF advancesD(1) [OF m w] assms(2)] .
  fix x
  assume "r = Ok x"
  then show "\<exists>k. applied k w w' \<and> R' x k (ch_tip (wchain w'))" using advancesD(2) [OF m w] assms(3) by blast
qed

lemma advances_ret: "R x 0 tip \<Longrightarrow> advances n R tip (ret x)"
  unfolding advances_def using kept_refl kept_progress kept_applied by fastforce

lemma advances_throw: "advances n R tip (throw e)"
  unfolding advances_def using kept_refl kept_progress by fastforce

lemma advances_fail: "advances n R tip (bind_eff (lift_result (Err e)) f)"
  unfolding advances_def using kept_refl kept_progress by (fastforce simp: bind_eff_apply)

lemma advances_bind:
  assumes m: "advances n R tip m" and "n \<le> N"
    and f: "\<And>x k t. R x k t \<Longrightarrow> \<exists>j. k + j \<le> N \<and> advances j (\<lambda>y i. R' y (k + i)) t (f x)"
  shows "advances N R' tip (bind_eff m f)"
  unfolding advances_def
proof (intro allI impI)
  fix w r w'
  assume w: "inv (w_repo w)" "ch_tip (wchain w) = tip" and run: "bind_eff m f w = (r, w')"
  obtain mr w1 where mrun: "m w = (mr, w1)" by fastforce
  note law = advancesD [OF m w mrun]
  show "progress N w w' \<and> (\<forall>x. r = Ok x \<longrightarrow> (\<exists>k. applied k w w' \<and> R' x k (ch_tip (wchain w'))))"
  proof (cases mr)
    case (Inl e)
    then have "r = Err e" "w' = w1" using run mrun by (auto simp: bind_eff_apply)
    then show ?thesis using progress_mono [OF law(1) assms(2)] by simp
  next
    case (Inr x)
    obtain k where k: "applied k w w1" "R x k (ch_tip (wchain w1))" using law(2) [OF Inr] by blast
    obtain j where j: "k + j \<le> N" "advances j (\<lambda>y i. R' y (k + i)) (ch_tip (wchain w1)) (f x)"
      using f [OF k(2)] by blast
    have "inv (w_repo w1)" "f x w1 = (r, w')" using k(1) run mrun Inr by (auto simp: applied_def)
    note rest = advancesD [OF j(2) this(1) refl this(2)]
    have "progress N w w'" using progress_mono [OF applied_then_progress [OF k(1) rest(1)] j(1)] .
    then show ?thesis using rest(2) applied_trans [OF k(1)] by blast
  qed
qed

lemma advances_calm:
  assumes m: "calm m" and f: "\<And>x. advances n R tip (f x)"
  shows "advances n R tip (bind_eff m f)"
proof (rule advances_bind [where R = "\<lambda>_ k t. k = 0 \<and> t = tip"])
  show "advances n (\<lambda>_ k t. k = 0 \<and> t = tip) tip m"
    unfolding advances_def using calmD [OF m] kept_progress kept_applied by (metis kept_def)
qed (use f in auto)

lemma advances_tip: "advances n (\<lambda>x k t. k = 0 \<and> x = tip \<and> t = tip) tip (on_repo (sy_get sy (Tip scope)))"
  unfolding advances_def
proof (intro allI impI)
  fix w :: "('r, 'x) world" and r w'
  assume w: "inv (w_repo w)" "ch_tip (wchain w) = tip" and run: "on_repo (sy_get sy (Tip scope)) w = (r, w')"
  obtain s where get: "sy_get sy (Tip scope) (w_repo w) = (r, s)" "w' = w\<lparr>w_repo := s\<rparr>"
    using run by (auto simp: on_repo_def split: prod.splits)
  note k = calmD [OF calm_read w(1) run]
  then show "progress n w w' \<and> (\<forall>x. r = Ok x \<longrightarrow> (\<exists>k. applied k w w' \<and> k = 0 \<and> x = tip \<and> ch_tip (wchain w') = tip))"
    using get_law [OF w(1) get(1)] w(2) kept_progress [OF k] kept_applied [OF k] by (auto simp: kept_def)
qed

lemma add_block_law:
  assumes "inv (w_repo w)" "addition_ok a" "ch_tip (wchain w) = ba_expected_checkpoint a"
    and run: "with_permit permit (on_repo (sy_add sy a)) w = (r, w')"
  shows "inv (w_repo w')" "w_observed w' = w_observed w"
    "r = Ok o1 \<Longrightarrow> o1 = Applied \<and> ch_tip (wchain w') = Some (ba_block a)"
proof -
  obtain ar s where add: "sy_add sy a (w_repo w) = (ar, s)" by fastforce
  have "ch_tip (wchain w) \<noteq> Some (ba_block a)"
    using assms(2,3) connects_height [of "ba_block a" "ba_block a"] by (auto simp: addition_ok_def)
  with add_law [OF assms(1,2) add] have "inv s" "ar = Ok o1 \<Longrightarrow> o1 = Applied \<and> ch_tip (chain s) = Some (ba_block a)"
    by (auto simp: chain_add_def Let_def split: sum.splits block_outcome.splits)
  then show "inv (w_repo w')" "w_observed w' = w_observed w"
      "r = Ok o1 \<Longrightarrow> o1 = Applied \<and> ch_tip (wchain w') = Some (ba_block a)"
    using run add by (auto simp: with_permit_def on_repo_def split: sum.splits prod.splits)
qed

text \<open>The checks before a block is committed, and the commit itself.\<close>

definition prepare :: "'b \<Rightarrow> canonical_address list \<Rightarrow> block_ref option \<Rightarrow> sync_plan \<Rightarrow>
    ('r, 'x, block_addition \<times> commit_permit) sync_op" where
  "prepare b addresses checkpoint pl =
     (let block = sy_block_ref sy b in
      bind_eff (lift_result (check_parent block)) (\<lambda>_.
      bind_eff (lift_result (check_source_connection checkpoint block)) (\<lambda>_.
      bind_eff (lift_result (sy_inspect sy b addresses)) (\<lambda>interpreted.
      bind_eff (lift_result (validate_block block interpreted)) (\<lambda>_.
      bind_eff (on_source (sy_canonical_at sy (br_position block))) (\<lambda>canonical.
      bind_eff (lift_result (fail_if (canonical \<noteq> Some block) source_changed_error)) (\<lambda>_.
      bind_eff (lift_result (block_addition_new (cfg_scope (sy_config sy)) checkpoint
        (cfg_reorg_retention (sy_config sy)) interpreted)) (\<lambda>addition.
      bind_eff (on_admission (plan_begin pl)) (\<lambda>permit.
      ret (addition, commit_start permit))))))))))"

definition conclude :: "'b \<Rightarrow> sync_plan \<Rightarrow> block_addition \<times> commit_permit \<Rightarrow>
    ('r, 'x, block_ref \<times> sync_plan) sync_op" where
  "conclude b pl = (\<lambda>(addition, permit).
      bind_eff (with_permit permit (on_repo (sy_add sy addition))) (\<lambda>outcome.
      bind_eff (on_admission (commit_complete permit (Some (sy_block_ref sy b)))) (\<lambda>_.
      bind_eff (observe_block sy outcome (sy_block_ref sy b) (ba_transactions addition)) (\<lambda>_.
      ret (sy_block_ref sy b, advance pl (sy_block_ref sy b))))))"

lemma apply_block_split:
  "apply_block sy b addresses checkpoint pl = bind_eff (prepare b addresses checkpoint pl) (conclude b pl)"
  by (simp only: apply_block_def prepare_def conclude_def Let_def bind_eff_assoc bind_eff_ret prod.case)

lemma calm_prepare: "calm (prepare b addresses checkpoint pl)"
  unfolding prepare_def Let_def by (intro calm_bind) auto

lemma prepare_addition:
  assumes "prepare b addresses checkpoint pl w = (Ok (addition, permit), w')"
  shows "addition_ok addition" "ba_block addition = sy_block_ref sy b" "ba_expected_checkpoint addition = checkpoint"
proof -
  from assms obtain interpreted where
      new: "block_addition_new (cfg_scope (sy_config sy)) checkpoint (cfg_reorg_retention (sy_config sy)) interpreted =
        Ok addition" "ib_block interpreted = sy_block_ref sy b"
    by (auto simp: prepare_def Let_def bind_eff_Ok_iff validate_block_def fail_if_iff)
  then show "addition_ok addition" "ba_block addition = sy_block_ref sy b" "ba_expected_checkpoint addition = checkpoint"
    using block_addition_new_ok [OF new(1)] by (auto simp: block_addition_new_Ok_iff)
qed

lemma conclude_advances:
  assumes w: "inv (w_repo w)" and a: "addition_ok addition" "ba_block addition = sy_block_ref sy b"
      "ba_expected_checkpoint addition = ch_tip (wchain w)"
    and run: "conclude b pl (addition, permit) w = (r, w')"
  shows "progress 1 w w'"
    "r = Ok (blk, pl') \<Longrightarrow> applied 1 w w' \<and> blk = sy_block_ref sy b \<and> ch_tip (wchain w') = Some blk"
proof -
  obtain ar w1 where add: "with_permit permit (on_repo (sy_add sy addition)) w = (ar, w1)" by fastforce
  note law = add_block_law [OF w a(1) a(3) [symmetric] add]
  obtain cr w2 where fin: "on_admission (commit_complete permit (Some (sy_block_ref sy b))) w1 = (cr, w2)" by fastforce
  have w2: "w_repo w2 = w_repo w1" "w_observed w2 = w_observed w1"
    using fin by (auto simp: on_admission_def split: prod.splits)
  have con: "connects (ch_tip (wchain w)) (sy_block_ref sy b)" using a by (simp add: addition_ok_def)
  have "progress 1 w w' \<and>
      (\<forall>blk pl'. r = Ok (blk, pl') \<longrightarrow> applied 1 w w' \<and> blk = sy_block_ref sy b \<and> ch_tip (wchain w') = Some blk)"
  proof (cases ar)
    case (Inl e)
    then have "r = Err e" "w' = w1" using run add by (auto simp: conclude_def bind_eff_apply)
    then show ?thesis using law by (simp add: progress_def)
  next
    case (Inr outcome)
    then have out: "outcome = Applied" "ch_tip (wchain w1) = Some (sy_block_ref sy b)" using law(3) a(2) by auto
    show ?thesis
    proof (cases cr)
      case (Inl e)
      then have "r = Err e" "w' = w2" using run add fin Inr by (auto simp: conclude_def bind_eff_apply)
      then show ?thesis using law w2 by (simp add: progress_def)
    next
      case fine: (Inr u)
      have "w_repo w' = w_repo w2" "\<exists>pl'. r = Ok (sy_block_ref sy b, pl')"
          "w_observed w' = w_observed w2 @ (if sy_observer sy then [\<lparr>bo_scope = cfg_scope (sy_config sy),
             bo_block = sy_block_ref sy b, bo_transactions = ba_transactions addition\<rparr>] else [])"
        using run add fin Inr fine out by (auto simp: conclude_def bind_eff_apply observe_block_def)
      then show ?thesis using law w2 out con by (auto simp: progress_def applied_def)
    qed
  qed
  then show "progress 1 w w'"
      "r = Ok (blk, pl') \<Longrightarrow> applied 1 w w' \<and> blk = sy_block_ref sy b \<and> ch_tip (wchain w') = Some blk" by blast+
qed

lemma apply_block_advances:
  "advances 1 (\<lambda>(blk, pl') k t. k = 1 \<and> t = Some blk) checkpoint (apply_block sy b addresses checkpoint pl)"
  unfolding advances_def
proof (intro allI impI)
  fix w :: "('r, 'x) world" and r w'
  assume w: "inv (w_repo w)" "ch_tip (wchain w) = checkpoint" and run: "apply_block sy b addresses checkpoint pl w = (r, w')"
  obtain pr w1 where pre: "prepare b addresses checkpoint pl w = (pr, w1)" by fastforce
  note k = calmD [OF calm_prepare w(1) pre]
  show "progress 1 w w' \<and>
      (\<forall>x. r = Ok x \<longrightarrow> (\<exists>k. applied k w w' \<and> (case x of (blk, pl') \<Rightarrow> \<lambda>k t. k = 1 \<and> t = Some blk) k (ch_tip (wchain w'))))"
  proof (cases pr)
    case (Inl e)
    then have "r = Err e" "w' = w1" using run pre unfolding apply_block_split by (auto simp: bind_eff_apply)
    then show ?thesis using kept_progress [OF k] by simp
  next
    case (Inr y)
    obtain addition permit where y: "y = (addition, permit)" by fastforce
    have post: "conclude b pl (addition, permit) w1 = (r, w')"
      using run pre Inr y unfolding apply_block_split by simp
    note add = prepare_addition [OF pre [unfolded Inr y]]
    have w1: "inv (w_repo w1)" "ba_expected_checkpoint addition = ch_tip (wchain w1)"
      using k w(2) add(3) by (simp_all add: kept_def)
    note law = conclude_advances [OF w1(1) add(1,2) w1(2) post]
    show ?thesis using progress_kept [OF k law(1)] law(2) applied_kept [OF k] by fastforce
  qed
qed

lemma apply_blocks_advances:
  "advances (length blocks) (\<lambda>(cp, pl') k t. k \<le> length blocks \<and> t = cp) checkpoint (apply_blocks sy blocks checkpoint pl)"
proof (induction blocks arbitrary: checkpoint pl)
  case Nil
  show ?case unfolding apply_blocks.simps by (rule advances_ret) simp
next
  case (Cons b blocks)
  show ?case
    unfolding apply_blocks.simps
    by (intro advances_bind [OF apply_block_advances])
      (auto intro!: exI [where x = "length blocks"] advances_mono [OF Cons.IH] simp del: apply_blocks.simps)
qed

section \<open>Initialising and advancing\<close>

lemma apply_single_advances:
  "advances 1 (\<lambda>(cp, n, pl') k t. k \<le> 1 \<and> n = 1 \<and> t = cp) None
     (bind_eff (apply_block sy b [] None pl) (\<lambda>(checkpoint, pl). ret (Some checkpoint, 1, pl)))"
  by (rule advances_bind [OF apply_block_advances]) (auto intro: advances_ret)

lemma apply_anchor_advances:
  "advances 1 (\<lambda>(blk, pl') k t. k = 1 \<and> t = Some blk) None (apply_anchor sy parent pl)"
  unfolding apply_anchor_def
  by (intro advances_calm calm_one_block calm_basic apply_block_advances)

lemma first_block_advances:
  assumes "n \<le> N" "0 < N"
  shows "advances (N - n) (\<lambda>(cp, m, pl') k t. n + k \<le> m \<and> m \<le> N \<and> t = cp) checkpoint
     (if n < N then bind_eff (apply_block sy b addresses checkpoint pl) (\<lambda>(checkpoint, pl). ret (Some checkpoint, n + 1, pl))
      else ret (checkpoint, n, pl))"
proof (cases "n < N")
  case True
  have "advances (N - n) (\<lambda>(cp, m, pl') k t. n + k \<le> m \<and> m \<le> N \<and> t = cp) checkpoint
      (bind_eff (apply_block sy b addresses checkpoint pl) (\<lambda>(checkpoint, pl). ret (Some checkpoint, n + 1, pl)))"
    by (rule advances_bind [OF apply_block_advances])
      (use True in \<open>auto intro!: advances_ret exI [where x = 0]\<close>)
  with True show ?thesis by simp
qed (use assms in \<open>auto intro!: advances_ret\<close>)

lemma initialize_checkpoint_advances:
  assumes "0 < cfg_batch_size (sy_config sy)"
  shows "advances (cfg_batch_size (sy_config sy))
      (\<lambda>(cp, n, pl') k t. k \<le> n \<and> n \<le> cfg_batch_size (sy_config sy) \<and> t = cp) None
      (initialize_checkpoint sy observed_tip pl)"
proof -
  let ?N = "cfg_batch_size (sy_config sy)"
  let ?R = "\<lambda>(cp, n, pl' :: sync_plan) k t. k \<le> n \<and> n \<le> ?N \<and> t = cp"
  have single: "advances ?N ?R None
      (bind_eff (one_block sy p p) (\<lambda>anchor.
       bind_eff (apply_block sy anchor [] None pl) (\<lambda>(checkpoint, pl). ret (Some checkpoint, 1, pl))))" for p
    by (intro advances_calm calm_one_block advances_mono [OF apply_single_advances]) (use assms in auto)
  have anchor: "advances 1 (\<lambda>(cp, n, pl') k t. k \<le> n \<and> n \<le> 1 \<and> t = cp) None
      (case parent of
         Some p \<Rightarrow> bind_eff (apply_anchor sy p pl) (\<lambda>(checkpoint, pl). ret (Some checkpoint, 1, pl))
       | None \<Rightarrow> ret (None, 0, pl))" for parent
  proof (cases parent)
    case (Some p)
    have "advances 1 (\<lambda>(cp, n, pl') k t. k \<le> n \<and> n \<le> 1 \<and> t = cp) None
        (bind_eff (apply_anchor sy p pl) (\<lambda>(checkpoint, pl). ret (Some checkpoint, 1, pl)))"
      by (rule advances_bind [OF apply_anchor_advances]) (auto intro!: advances_ret exI [where x = 0])
    with Some show ?thesis by simp
  qed (auto intro: advances_ret)
  have first: "advances ?N ?R None
      (bind_eff (one_block sy start (br_position observed_tip)) (\<lambda>first.
       let first_ref = sy_block_ref sy first in
       bind_eff
         (case br_parent first_ref of
            Some parent \<Rightarrow> bind_eff (apply_anchor sy parent pl) (\<lambda>(checkpoint, pl). ret (Some checkpoint, 1, pl))
          | None \<Rightarrow> ret (None, 0, pl)) (\<lambda>(checkpoint, m, pl).
       if m < ?N then
         bind_eff (apply_block sy first (active_addresses pl (br_position first_ref)) checkpoint pl)
           (\<lambda>(checkpoint, pl). ret (Some checkpoint, m + 1, pl))
       else ret (checkpoint, m, pl))))" for start
    unfolding Let_def
  proof (rule advances_calm [OF calm_one_block], rule advances_bind [OF anchor], goal_cases)
    fix x and k :: nat and t :: "block_ref option" and b :: 'b
    assume "(\<lambda>(cp, n, pl' :: sync_plan) k t. k \<le> n \<and> n \<le> (1 :: nat) \<and> t = cp) x k t"
    then obtain n pl' where x: "x = (t, n, pl')" "k \<le> n" "n \<le> 1" by (cases x) auto
    then have n: "n \<le> ?N" using assms by simp
    have "advances (?N - n) (\<lambda>y i. ?R y (k + i)) t
        (if n < ?N then bind_eff (apply_block sy b (active_addresses pl' (br_position (sy_block_ref sy b))) t pl')
           (\<lambda>(checkpoint, pl). ret (Some checkpoint, n + 1, pl)) else ret (t, n, pl'))"
      by (rule advances_mono [OF first_block_advances [OF n assms]]) (use x in auto)
    then show "\<exists>j. k + j \<le> ?N \<and> advances j (\<lambda>y i. ?R y (k + i)) t
        (case x of (checkpoint, m, pl) \<Rightarrow>
          if m < ?N then
            bind_eff (apply_block sy b (active_addresses pl (br_position (sy_block_ref sy b))) checkpoint pl)
              (\<lambda>(checkpoint, pl). ret (Some checkpoint, m + 1, pl))
          else ret (checkpoint, m, pl))"
      using x n by (intro exI [where x = "?N - n"]) simp
  qed (use assms in simp)
  show ?thesis
    unfolding initialize_checkpoint_def using single first by (simp split: option.splits)
qed

lemma advance_chain_advances:
  "advances (cfg_batch_size (sy_config sy) - n)
     (\<lambda>cp k t. k \<le> cfg_batch_size (sy_config sy) - n \<and> t = cp) checkpoint
     (advance_chain sy observed_tip checkpoint n pl)"
proof -
  let ?N = "cfg_batch_size (sy_config sy) - n"
  have apply1: "advances ?N (\<lambda>cp k t. k \<le> ?N \<and> t = cp) checkpoint
      (bind_eff (apply_blocks sy blocks checkpoint pl) (\<lambda>(checkpoint, pl). ret checkpoint))"
    if "length blocks \<le> ?N" for blocks
    by (rule advances_bind [OF apply_blocks_advances])
      (use that in \<open>auto intro!: advances_ret exI [where x = 0]\<close>)
  have fetch: "advances ?N (\<lambda>cp k t. k \<le> ?N \<and> t = cp) checkpoint
      (bind_eff (fetch_blocks sy start end1 ?N) (\<lambda>blocks.
       bind_eff (lift_result (fail_if (blocks = []) no_block_error)) (\<lambda>_.
       bind_eff (apply_blocks sy blocks checkpoint pl) (\<lambda>(checkpoint, pl). ret checkpoint))))" for start end1
    unfolding fetch_blocks_def bind_eff_assoc
  proof (rule advances_calm [OF calm_outside(2)])
    fix blocks
    show "advances ?N (\<lambda>cp k t. k \<le> ?N \<and> t = cp) checkpoint
      (bind_eff (lift_result (fail_if (?N < length blocks) block_limit_error)) (\<lambda>_.
       bind_eff (lift_result
         (check_positions start end1 None (map (\<lambda>b. br_position (sy_block_ref sy b)) blocks))) (\<lambda>_.
       bind_eff (ret blocks) (\<lambda>blocks.
       bind_eff (lift_result (fail_if (blocks = []) no_block_error)) (\<lambda>_.
       bind_eff (apply_blocks sy blocks checkpoint pl) (\<lambda>(checkpoint, pl). ret checkpoint))))))"
    proof (cases "?N < length blocks")
      case True
      then show ?thesis by (simp only: fail_if_def if_True advances_fail)
    next
      case False
      then show ?thesis
        unfolding bind_eff_ret by (intro advances_calm calm_basic apply1) simp
    qed
  qed
  show ?thesis
    unfolding advance_chain_def
    using advances_calm [OF calm_basic(3) fetch] by (auto intro: advances_ret split: option.splits)
qed

section \<open>Rolling back\<close>

lemma local_and_remote_law:
  assumes w: "inv (w_repo w)" and run: "local_and_remote sy height w = (Ok (local, remote), w')"
  shows "local = map_option fst (ch_journal (wchain w) height)"
    "steady sy canon \<Longrightarrow> remote = (case local of None \<Rightarrow> None | Some b \<Rightarrow> canon (br_position b))"
proof -
  obtain w1 where get: "on_repo (sy_get sy (AtHeight (cfg_scope (sy_config sy)) height)) w = (Ok local, w1)"
    and rem: "(case local of Some block \<Rightarrow> on_source (sy_canonical_at sy (br_position block)) | None \<Rightarrow> ret None) w1 = (Ok remote, w')"
    using run by (auto simp: local_and_remote_def bind_eff_Ok_iff)
  obtain s where "sy_get sy (AtHeight (cfg_scope (sy_config sy)) height) (w_repo w) = (Ok local, s)"
    using get by (auto simp: on_repo_def split: prod.splits)
  from get_law [OF w this] show "local = map_option fst (ch_journal (wchain w) height)" by simp
  assume st: "steady sy canon"
  show "remote = (case local of None \<Rightarrow> None | Some b \<Rightarrow> canon (br_position b))"
  proof (cases local)
    case (Some b)
    have "fst (sy_canonical_at sy (br_position b) (w_admission w1, w_env w1)) = Ok (canon (br_position b))"
      using st by (simp add: steady_def)
    then show ?thesis
      using rem Some by (auto simp: on_source_def on_outside_def map_prod_def split: prod.splits)
  qed (use rem in simp)
qed

lemma find_ancestor_returns:
  assumes "inv (w_repo w)" "oldest \<le> height"
  shows "\<exists>r w'. find_ancestor sy oldest height w = Some (r, w') \<and> kept w w' \<and>
    (\<forall>b. r = Ok (Some b) \<longrightarrow> retained (wchain w) b \<and> oldest \<le> br_height b \<and> br_height b \<le> height) \<and>
    (\<forall>canon found. steady sy canon \<longrightarrow> r = Ok found \<longrightarrow> newest_common (wchain w) canon oldest height found)"
  using assms
proof (induction "unat height" arbitrary: height w rule: less_induct)
  case less
  obtain r1 w1 where run: "local_and_remote sy height w = (r1, w1)" by fastforce
  note k = calmD [OF calm_local_and_remote less.prems(1) run]
  note step = find_ancestor.simps [of sy oldest height w]
  show ?case
  proof (cases r1)
    case (Inl e)
    then show ?thesis using step run k by simp
  next
    case (Inr lr)
    obtain local remote where lr: "lr = (local, remote)" by fastforce
    note law = local_and_remote_law [OF less.prems(1) run [unfolded Inr lr]]
    have here: "confirmed (wchain w) canon height \<longleftrightarrow> local \<noteq> None \<and> local = remote" if "steady sy canon" for canon
      using law(1) law(2) [OF that] by (cases local) (auto simp: confirmed_def)
    have at: "retained (wchain w) b \<and> br_height b = height" if own: "local = Some b" for b
    proof -
      obtain p where "ch_journal (wchain w) height = Some (b, p)"
        using law(1) own by (cases "ch_journal (wchain w) height") auto
      then show ?thesis using linkedD(1) [OF linked_law [OF less.prems(1)]] by (auto simp: retained_def)
    qed
    show ?thesis
    proof (cases "local \<noteq> None \<and> local = remote \<or> height = oldest")
      case True
      then show ?thesis
        using step run k Inr lr at less.prems(2) here
        by (auto simp: newest_common_def)
    next
      case False
      then have less1: "oldest < height" using less.prems(2) by auto
      then have pred: "unat (height - 1) = unat height - 1" "0 < unat height"
        by (simp_all add: word_less_nat_alt unat_sub word_le_nat_alt)
      have prev: "saturating_sub height 1 = height - 1" "unat (height - 1) < unat height" "oldest \<le> height - 1"
        using less1 pred by (simp_all add: saturating_sub_def word_le_nat_alt word_less_nat_alt)
      have split: "h \<le> height \<longleftrightarrow> h \<le> height - 1 \<or> h = height" for h
        using pred by (auto simp: word_le_nat_alt word_unat_eq_iff)
      have w1: "inv (w_repo w1)" "wchain w1 = wchain w" using k by (simp_all add: kept_def)
      obtain r w' where IH: "find_ancestor sy oldest (height - 1) w1 = Some (r, w')" "kept w1 w'"
          "\<forall>b. r = Ok (Some b) \<longrightarrow> retained (wchain w1) b \<and> oldest \<le> br_height b \<and> br_height b \<le> height - 1"
          "\<forall>canon found. steady sy canon \<longrightarrow> r = Ok found \<longrightarrow> newest_common (wchain w1) canon oldest (height - 1) found"
        using less.hyps [OF prev(2) w1(1) prev(3)] by blast
      have "find_ancestor sy oldest height w = Some (r, w')"
        using step run Inr lr False prev(1) IH(1) by auto
      moreover have "newest_common (wchain w) canon oldest height found" if "steady sy canon" "r = Ok found" for canon found
        using IH(4) that here [OF that(1)] False w1(2) split
        by (auto simp: newest_common_def split: option.splits)
      ultimately show ?thesis using IH(2,3) kept_trans [OF k] w1(2) split by auto
    qed
  qed
qed

text \<open>
  The search asks the source about the retained blocks one by one, from the newest on, and stops at the
  first one it confirms; a failing read of the index ends it earlier.
\<close>

lemma local_and_remote_asks:
  assumes "inv (w_repo w)" "local_and_remote sy height w = (r, w')"
  shows "read_failed sy r \<or>
    (case ch_journal (wchain w) height of
       None \<Rightarrow> r = Ok (None, None) \<and> (w_admission w', w_env w') = (w_admission w, w_env w)
     | Some (b, p) \<Rightarrow> (case sy_canonical_at sy (br_position b) (w_admission w, w_env w) of
         (answer, o2) \<Rightarrow> r = map_err index_error_from_source (and_then answer (\<lambda>a. Ok (Some b, a))) \<and> (w_admission w', w_env w') = o2))"
proof -
  obtain g s where get: "sy_get sy (AtHeight (cfg_scope (sy_config sy)) height) (w_repo w) = (g, s)" by fastforce
  show ?thesis
  proof (cases g)
    case (Inl e)
    then have "r = Err e" using assms(2) get by (simp add: local_and_remote_def on_repo_def bind_eff_def)
    then show ?thesis using get Inl by (auto simp: read_failed_def)
  next
    case (Inr found)
    then have found: "found = map_option fst (ch_journal (wchain w) height)" using get_law [OF assms(1)] get by force
    show ?thesis
    proof (cases "ch_journal (wchain w) height")
      case None
      then show ?thesis using assms(2) get Inr found
        by (auto simp: local_and_remote_def on_repo_def bind_eff_def ret_def)
    next
      case (Some x)
      then obtain b p where j: "ch_journal (wchain w) height = Some (b, p)" by (cases x) auto
      obtain answer o2 where ask: "sy_canonical_at sy (br_position b) (w_admission w, w_env w) = (answer, o2)"
        by (cases "sy_canonical_at sy (br_position b) (w_admission w, w_env w)")
      then show ?thesis using assms(2) get Inr found j
        by (cases answer; cases o2) (auto simp: local_and_remote_def on_repo_def on_source_def on_outside_def bind_eff_def ret_def)
    qed
  qed
qed

lemma find_ancestor_asks:
  assumes "inv (w_repo w)" "oldest \<le> height" "find_ancestor sy oldest height w = Some (r, w')"
  shows "read_failed sy r \<or>
    r = map_err index_error_from_source (fst (first_confirmed sy (candidates (wchain w) oldest height) (w_admission w, w_env w)))"
  using assms
proof (induction "unat height" arbitrary: height w rule: less_induct)
  case less
  obtain r1 w1 where run: "local_and_remote sy height w = (r1, w1)" by fastforce
  note k = calmD [OF calm_local_and_remote less.prems(1) run]
  note asks = local_and_remote_asks [OF less.prems(1) run]
  note step = less.prems(3) [unfolded find_ancestor.simps [of sy oldest height w] run]
  have w1: "inv (w_repo w1)" "wchain w1 = wchain w" using k by (simp_all add: kept_def)
  have later: "read_failed sy r \<or> r = map_err index_error_from_source
      (fst (first_confirmed sy (candidates (wchain w) oldest (height - 1)) (w_admission w1, w_env w1)))"
    if "height \<noteq> oldest" "find_ancestor sy oldest (saturating_sub height 1) w1 = Some (r, w')"
  proof -
    have "oldest < height" using that(1) less.prems(2) by auto
    then have "saturating_sub height 1 = height - 1" "unat (height - 1) < unat height" "oldest \<le> height - 1"
      by (simp_all add: saturating_sub_def word_le_nat_alt word_less_nat_alt unat_sub)
    then show ?thesis using less.hyps [of "height - 1" w1] that(2) w1 by simp
  qed
  show ?case
  proof (cases "read_failed sy r1")
    case True
    then obtain e where e: "r1 = Err e" by (auto simp: read_failed_def)
    then have "r = Err e" using step by simp
    then show ?thesis using True e by (simp add: read_failed_def)
  next
    case False
    then show ?thesis using asks step later candidates_step [OF less.prems(2), of "wchain w"]
      by (cases "ch_journal (wchain w) height")
         (auto split: prod.splits sum.splits if_splits)
  qed
qed

text \<open>What removing one tip does: the chain loses its newest block, or nothing happens.\<close>

lemma revert_once_law:
  assumes w: "inv (w_repo w)" and run: "with_permit permit (revert_once sy permit tip) w = (r, w')"
  shows "inv (w_repo w')" "w_observed w' = w_observed w"
    "wchain w' = wchain w \<or> (\<exists>previous. chain_removable (wchain w) tip previous \<and> wchain w' = chain_remove (wchain w) tip previous)"
    "r = Ok previous \<Longrightarrow> chain_removable (wchain w) tip previous \<and> wchain w' = chain_remove (wchain w) tip previous"
proof -
  obtain rr s where rem: "sy_remove sy (cfg_scope (sy_config sy)) tip (w_repo w) = (rr, s)" by fastforce
  note law = remove_law [OF w rem]
  have w': "w_repo w' = s \<and> w_observed w' = w_observed w \<and> (\<forall>x. r = Ok x \<longrightarrow> rr = Ok x)"
    using run rem
    by (auto simp: with_permit_def revert_once_def on_repo_def on_admission_def bind_eff_apply split: prod.splits sum.splits)
  show "inv (w_repo w')" "w_observed w' = w_observed w" using w' law by auto
  show "wchain w' = wchain w \<or> (\<exists>previous. chain_removable (wchain w) tip previous \<and> wchain w' = chain_remove (wchain w) tip previous)"
    using w' law by (auto split: sum.splits)
  show "r = Ok previous \<Longrightarrow> chain_removable (wchain w) tip previous \<and> wchain w' = chain_remove (wchain w) tip previous"
    using w' law by auto
qed

lemma above_refl: "linked c \<Longrightarrow> retained c b \<Longrightarrow> above b c c"
  unfolding above_def retained_def using linkedD(3) by blast

lemma above_trans: "above b c c1 \<Longrightarrow> above b c1 c2 \<Longrightarrow> above b c c2"
  unfolding above_def by auto

lemma above_retained: "above b c c' \<Longrightarrow> retained c b \<Longrightarrow> retained c' b"
  by (simp add: above_def retained_def)

lemma above_remove:
  assumes "linked c" "retained c b" "chain_removable c tip previous" "br_height b < br_height tip"
  shows "above b c (chain_remove c tip previous)" "\<exists>q. previous = Some q \<and> br_height q < br_height tip"
proof -
  have j: "ch_journal c (br_height tip) = Some (tip, previous)"
    using assms(3) by (simp add: chain_removable_def)
  obtain q where q: "previous = Some q"
    using linkedD(5) [OF assms(1) _ assms(4)] j assms(2) by (cases previous) (auto simp: retained_def)
  then have con: "connects (Some q) tip" using linkedD(2) [OF assms(1) j] by simp
  then show "\<exists>q. previous = Some q \<and> br_height q < br_height tip" using q connects_height by blast
  show "above b c (chain_remove c tip previous)"
    using assms(4) q connects_below [OF con assms(4)]
    by (auto simp: above_def chain_remove_def chain_cut_def fun_eq_iff)
qed

lemma revert_to_returns:
  assumes "inv (w_repo w)" "ch_tip (wchain w) = Some tip" "retained (wchain w) b"
  shows "\<exists>r w'. revert_to sy permit b (Some tip) w = Some (r, w') \<and> inv (w_repo w') \<and>
    w_observed w' = w_observed w \<and> above b (wchain w) (wchain w') \<and>
    (\<forall>current. r = Ok current \<longrightarrow> current = Some b \<and> wchain w' = chain_cut (wchain w) b)"
  using assms
proof (induction "unat (br_height tip)" arbitrary: tip w rule: less_induct)
  case less
  note link = linked_law [OF less.prems(1)]
  note step = revert_to.simps [of sy permit b "Some tip" w]
  note refl = above_refl [OF link less.prems(3)]
  show ?case
  proof (cases "br_height b < br_height tip")
    case False
    then have "br_height b = br_height tip" using refl less.prems(2) by (auto simp: above_def)
    then have b: "b = tip" using linkedD(6) [OF link less.prems(2)] less.prems(3) by (auto simp: retained_def)
    have "ch_journal (wchain w) h = None" if "\<not> h \<le> br_height tip" for h
      using linkedD(3) [OF link] less.prems(2) that by (cases "ch_journal (wchain w) h") fastforce+
    then have "wchain w = chain_cut (wchain w) b"
      using b less.prems(2) by (auto simp: chain_cut_def intro!: chain_state.equality)
    then show ?thesis using step b less.prems refl by auto
  next
    case True
    obtain r1 w1 where run: "with_permit permit (revert_once sy permit tip) w = (r1, w1)" by fastforce
    note law = revert_once_law [OF less.prems(1) run]
    have ab: "above b (wchain w) (wchain w1)"
      using law(3) refl above_remove(1) [OF link less.prems(3) _ True] by auto
    show ?thesis
    proof (cases r1)
      case (Inl e)
      then show ?thesis using step run True law(1,2) ab by simp
    next
      case (Inr previous)
      note rem = law(4) [OF Inr]
      obtain q where q: "previous = Some q" "br_height q < br_height tip"
        using above_remove(2) [OF link less.prems(3) conjunct1 [OF rem] True] by blast
      have tip1: "ch_tip (wchain w1) = Some q" using rem q by (simp add: chain_remove_def)
      obtain r w' where IH: "revert_to sy permit b (Some q) w1 = Some (r, w')" "inv (w_repo w')"
          "w_observed w' = w_observed w1" "above b (wchain w1) (wchain w')"
          "\<forall>current. r = Ok current \<longrightarrow> current = Some b \<and> wchain w' = chain_cut (wchain w1) b"
        using less.hyps [OF _ law(1) tip1 above_retained [OF ab less.prems(3)]] q(2) by (auto simp: word_less_nat_alt)
      have "revert_to sy permit b (Some tip) w = Some (r, w')" using step run True Inr q(1) IH(1) by simp
      moreover have "chain_cut (wchain w1) b = chain_cut (wchain w) b" using ab by (simp add: above_def)
      ultimately show ?thesis using IH(2-5) law(2) above_trans [OF ab] by auto
    qed
  qed
qed

section \<open>Reconciling with the source\<close>

lemma window_le: "window sy tip \<le> br_height tip"
  by (simp add: window_def word_le_nat_alt unat_saturating_sub)

definition revert_phase :: "sync_plan \<Rightarrow> block_ref \<Rightarrow> block_ref \<Rightarrow> ('r, 'x, block_ref option \<times> sync_plan) sync_proc" where
  "revert_phase pl tip b =
     bind_proc (returning (on_admission (plan_begin pl))) (\<lambda>permit.
     bind_proc (revert_to sy (commit_start permit) b (Some tip)) (\<lambda>current.
     bind_proc (returning (on_admission (commit_complete (commit_start permit) current))) (\<lambda>_.
     returning (ret (current, case current of Some checkpoint \<Rightarrow> advance pl checkpoint | None \<Rightarrow> pl)))))"

lemma reconcile_found:
  "find_ancestor sy (window sy tip) (br_height tip) w = Some (Ok (Some b), w1) \<Longrightarrow>
     reconcile sy tip pl w = revert_phase pl tip b w1"
  by (simp add: reconcile_def revert_phase_def window_def Let_def ok_or_def)

lemma revert_phase_returns:
  assumes w: "inv (w_repo w)" "ch_tip (wchain w) = Some tip" and b: "retained (wchain w) b"
  shows "\<exists>r w'. revert_phase pl tip b w = Some (r, w') \<and>
    inv (w_repo w') \<and> w_observed w' = w_observed w \<and> above b (wchain w) (wchain w') \<and>
    (\<forall>cp pl'. r = Ok (cp, pl') \<longrightarrow> cp = Some b \<and> wchain w' = chain_cut (wchain w) b)"
proof -
  obtain br w1 where open1: "on_admission (plan_begin pl) w = (br, w1)" by fastforce
  note k = calmD [OF calm_outside(3) w(1) open1]
  then have w1: "inv (w_repo w1)" "wchain w1 = wchain w" "w_observed w1 = w_observed w" by (simp_all add: kept_def)
  note refl = above_refl [OF linked_law [OF w(1)] b]
  show ?thesis
  proof (cases br)
    case (Inl e)
    then show ?thesis using open1 w1 refl by (simp add: revert_phase_def)
  next
    case (Inr permit)
    obtain r2 w2 where rev: "revert_to sy (commit_start permit) b (Some tip) w1 = Some (r2, w2)" "inv (w_repo w2)"
        "w_observed w2 = w_observed w1" "above b (wchain w1) (wchain w2)"
        "\<forall>current. r2 = Ok current \<longrightarrow> current = Some b \<and> wchain w2 = chain_cut (wchain w1) b"
      using revert_to_returns [OF w1(1)] w1(2) w(2) b by force
    show ?thesis
    proof (cases r2)
      case (Inl e)
      then show ?thesis using open1 w1 rev Inr by (simp add: revert_phase_def)
    next
      case ok: (Inr current)
      obtain cr w3 where fin: "on_admission (commit_complete (commit_start permit) current) w2 = (cr, w3)" by fastforce
      note k3 = calmD [OF calm_outside(3) rev(2) fin]
      then show ?thesis
        using open1 w1 rev Inr ok fin
        by (cases cr) (auto simp: revert_phase_def kept_def)
    qed
  qed
qed

lemma reconcile_returns:
  assumes w: "inv (w_repo w)" "ch_tip (wchain w) = Some tip"
  shows "\<exists>r w'. reconcile sy tip pl w = Some (r, w') \<and> inv (w_repo w') \<and> w_observed w' = w_observed w \<and>
    (case r of
       Ok (cp, pl') \<Rightarrow> \<exists>b. cp = Some b \<and> aims_for sy (wchain w) tip b \<and> wchain w' = chain_cut (wchain w) b
     | Err e \<Rightarrow> wchain w' = wchain w \<or> (\<exists>b. aims_for sy (wchain w) tip b \<and> above b (wchain w) (wchain w')))"
proof -
  obtain fr w1 where find: "find_ancestor sy (window sy tip) (br_height tip) w = Some (fr, w1)" "kept w w1"
      "\<forall>b. fr = Ok (Some b) \<longrightarrow> retained (wchain w) b \<and> window sy tip \<le> br_height b \<and> br_height b \<le> br_height tip"
      "\<forall>canon found. steady sy canon \<longrightarrow> fr = Ok found \<longrightarrow> newest_common (wchain w) canon (window sy tip) (br_height tip) found"
    using find_ancestor_returns [OF w(1) window_le] by blast
  have w1: "inv (w_repo w1)" "wchain w1 = wchain w" "w_observed w1 = w_observed w" using find(2) by (simp_all add: kept_def)
  show ?thesis
  proof (cases "\<exists>b. fr = Ok (Some b)")
    case False
    then have "\<exists>e. reconcile sy tip pl w = Some (Err e, w1)"
      using find(1)
      by (cases fr) (auto simp: reconcile_def window_def Let_def ok_or_def split: option.splits)
    then show ?thesis using w1 by auto
  next
    case True
    then obtain b where b: "fr = Ok (Some b)" by blast
    then have aim: "aims_for sy (wchain w) tip b" using find(3,4) by (simp add: aims_for_def)
    then have "retained (wchain w1) b" "ch_tip (wchain w1) = Some tip" using w1(2) w(2) by (simp_all add: aims_for_def)
    from revert_phase_returns [OF w1(1) this(2,1), of pl] obtain r w' where
        run: "revert_phase pl tip b w1 = Some (r, w')" "inv (w_repo w')" "w_observed w' = w_observed w1"
          "above b (wchain w1) (wchain w')"
          "\<forall>cp pl'. r = Ok (cp, pl') \<longrightarrow> cp = Some b \<and> wchain w' = chain_cut (wchain w1) b" by blast
    have "reconcile sy tip pl w = Some (r, w')" using reconcile_found find(1) b run(1) by simp
    then show ?thesis using run(2-5) w1(2,3) aim by (cases r) auto
  qed
qed

text \<open>The same, with what the search was told.\<close>

lemma reconcile_asks:
  assumes w: "inv (w_repo w)" "ch_tip (wchain w) = Some tip"
  shows "\<exists>r w'. reconcile sy tip pl w = Some (r, w') \<and>
    (let found = fst (first_confirmed sy (candidates (wchain w) (window sy tip) (br_height tip)) (w_admission w, w_env w)) in
     case r of
       Ok (cp, pl') \<Rightarrow> \<exists>b. found = Ok (Some b) \<and> cp = Some b \<and> wchain w' = chain_cut (wchain w) b
     | Err e \<Rightarrow> (\<exists>b. found = Ok (Some b) \<and> above b (wchain w) (wchain w')) \<or>
         wchain w' = wchain w \<and> (found = Ok None \<and> e = reorg_too_deep_error \<or> (\<exists>se. found = Err se \<and> e = index_error_from_source se) \<or>
           read_failed sy (Err e :: (index_error, block_ref option) result)))"
proof -
  let ?found = "fst (first_confirmed sy (candidates (wchain w) (window sy tip) (br_height tip)) (w_admission w, w_env w))"
  obtain fr w1 where find: "find_ancestor sy (window sy tip) (br_height tip) w = Some (fr, w1)" "kept w w1"
      "\<forall>b. fr = Ok (Some b) \<longrightarrow> retained (wchain w) b"
    using find_ancestor_returns [OF w(1) window_le] by blast
  note asks = find_ancestor_asks [OF w(1) window_le find(1)]
  have w1: "inv (w_repo w1)" "wchain w1 = wchain w" using find(2) by (simp_all add: kept_def)
  consider (error) e where "fr = Err e" | (none) "fr = Ok None" | (some) b where "fr = Ok (Some b)" by (cases fr; cases "projr fr") auto
  then show ?thesis
  proof cases
    case error
    then have "reconcile sy tip pl w = Some (Err e, w1)" using find(1) by (simp add: reconcile_def window_def Let_def)
    then show ?thesis using asks error w1(2) by (cases ?found) (auto simp: Let_def)
  next
    case none
    then have "reconcile sy tip pl w = Some (Err reorg_too_deep_error, w1)" "?found = Ok None"
      using find(1) asks by (cases ?found; simp add: reconcile_def window_def Let_def ok_or_def read_failed_def)+
    then show ?thesis using w1(2) by (simp add: Let_def)
  next
    case some
    then have found: "?found = Ok (Some b)" using asks by (cases ?found) (auto simp: read_failed_def)
    have "retained (wchain w1) b" "ch_tip (wchain w1) = Some tip" using find(3) some w1(2) w(2) by simp_all
    from revert_phase_returns [OF w1(1) this(2,1), of pl] obtain r w' where
        run: "revert_phase pl tip b w1 = Some (r, w')" "above b (wchain w1) (wchain w')"
          "\<forall>cp pl'. r = Ok (cp, pl') \<longrightarrow> cp = Some b \<and> wchain w' = chain_cut (wchain w1) b" by blast
    have "reconcile sy tip pl w = Some (r, w')" using reconcile_found find(1) some run(1) by simp
    then show ?thesis using run(2,3) w1(2) found by (cases r) (auto simp: Let_def)
  qed
qed

section \<open>A pass\<close>

text \<open>The part of a pass that only reads, the reconciliation, and the part that adds blocks.\<close>

definition look :: "'x filter_source \<Rightarrow> ('r, 'x, block_ref \<times> block_ref option \<times> sync_plan) sync_op" where
  "look selection =
     bind_eff (on_outside (fs_filters selection)) (\<lambda>filters.
     bind_eff (lift_result (validate_filters sy filters)) (\<lambda>_.
     bind_eff (on_source (sy_tip sy)) (\<lambda>observed_tip.
     bind_eff (on_repo (sy_get sy (Tip (cfg_scope (sy_config sy))))) (\<lambda>checkpoint.
     bind_eff (on_outside (fs_plan selection (cfg_scope (sy_config sy)) checkpoint)) (\<lambda>pl.
     bind_eff (lift_result (validate_filters sy (pl_filters pl))) (\<lambda>_.
     ret (observed_tip, checkpoint, pl)))))))"

definition agree :: "block_ref option \<Rightarrow> sync_plan \<Rightarrow> ('r, 'x, block_ref option \<times> sync_plan) sync_proc" where
  "agree checkpoint pl =
     (case checkpoint of
        Some local \<Rightarrow>
          bind_proc (returning (on_source (sy_canonical_at sy (br_position local)))) (\<lambda>canonical.
          if canonical \<noteq> Some local then reconcile sy local pl else returning (ret (checkpoint, pl)))
      | None \<Rightarrow> returning (ret (checkpoint, pl)))"

definition extend :: "block_ref \<Rightarrow> block_ref option \<Rightarrow> sync_plan \<Rightarrow> ('r, 'x, sync_status) sync_op" where
  "extend observed_tip checkpoint pl =
     bind_eff
       (if checkpoint = None then initialize_checkpoint sy observed_tip pl else ret (checkpoint, 0, pl))
       (\<lambda>(checkpoint, n, pl).
     bind_eff (advance_chain sy observed_tip checkpoint n pl) (\<lambda>checkpoint.
     ret \<lparr>ss_scope = cfg_scope (sy_config sy), ss_checkpoint = checkpoint, ss_observed_tip = Some observed_tip,
       ss_phase = (if caught_up observed_tip checkpoint then Ready else CatchingUp)\<rparr>))"

lemma sync_pass_split:
  "sync_pass sy selection =
     bind_proc (returning (look selection)) (\<lambda>(observed_tip, checkpoint, pl).
     bind_proc (agree checkpoint pl) (\<lambda>(checkpoint, pl).
     returning (extend observed_tip checkpoint pl)))"
proof -
  have init: "(if checkpoint = None then returning m else returning m') = returning (if checkpoint = None then m else m')"
    for checkpoint :: "block_ref option" and m m' :: "('r, 'x, 'c) sync_op" by simp
  show ?thesis
    unfolding sync_pass_def look_def agree_def extend_def init case_prod_unfold
    by (simp only: bind_proc_assoc bind_proc_returning [symmetric] bind_proc_returning_ret fst_conv snd_conv)
qed

lemma calm_look: "calm (look selection)"
  unfolding look_def by (intro calm_bind) auto

lemma look_checkpoint:
  assumes w: "inv (w_repo w)" and run: "look selection w = (Ok (observed_tip, checkpoint, pl), w')"
  shows "checkpoint = ch_tip (wchain w)"
proof -
  have "advances 0 (\<lambda>(observed, cp, pl) k t. cp = ch_tip (wchain w)) (ch_tip (wchain w)) (look selection)"
    unfolding look_def
    by (intro advances_calm calm_outside calm_basic advances_bind [OF advances_tip])
      (auto intro!: exI [where x = 0] advances_calm advances_ret)
  from advancesD(2) [OF this w refl run refl] show ?thesis by simp
qed

lemma agree_returns:
  assumes w: "inv (w_repo w)" "ch_tip (wchain w) = checkpoint"
  shows "\<exists>r w'. agree checkpoint pl w = Some (r, w') \<and> inv (w_repo w') \<and> w_observed w' = w_observed w \<and>
    (\<forall>cp pl'. r = Ok (cp, pl') \<longrightarrow> base_of sy (wchain w) cp \<and> ch_tip (wchain w') = cp)"
proof (cases checkpoint)
  case None
  then show ?thesis using w by (simp add: agree_def base_of_def)
next
  case (Some tip)
  obtain cr w1 where ask: "on_source (sy_canonical_at sy (br_position tip)) w = (cr, w1)" by fastforce
  have w1: "inv (w_repo w1)" "wchain w1 = wchain w" "w_observed w1 = w_observed w"
    using calmD [OF calm_outside(2) w(1) ask] by (simp_all add: kept_def)
  show ?thesis
  proof (cases "cr = Ok (Some tip) \<or> (\<exists>e. cr = Err e)")
    case True
    then show ?thesis using ask w w1 Some by (auto simp: agree_def base_of_def)
  next
    case False
    then obtain canonical where no: "cr = Ok canonical" "canonical \<noteq> Some tip" by (cases cr) auto
    have tip1: "ch_tip (wchain w1) = Some tip" using w1(2) w(2) Some by simp
    obtain r w' where rec: "reconcile sy tip pl w1 = Some (r, w')" "inv (w_repo w')" "w_observed w' = w_observed w1"
        "case r of Ok (cp, pl') \<Rightarrow> \<exists>b. cp = Some b \<and> aims_for sy (wchain w1) tip b \<and> wchain w' = chain_cut (wchain w1) b
         | Err e \<Rightarrow> wchain w' = wchain w1 \<or> (\<exists>b. aims_for sy (wchain w1) tip b \<and> above b (wchain w1) (wchain w'))"
      using reconcile_returns [OF w1(1) tip1, of pl] by blast
    have "agree checkpoint pl w = Some (r, w')" using ask no rec(1) Some by (simp add: agree_def)
    then show ?thesis using rec(2-4) w1(2,3) w(2) Some by (auto simp: base_of_def chain_cut_def)
  qed
qed

lemma extend_advances:
  assumes batch: "0 < cfg_batch_size (sy_config sy)"
  shows "advances (cfg_batch_size (sy_config sy))
    (\<lambda>st k t. k \<le> cfg_batch_size (sy_config sy) \<and> ss_checkpoint st = t \<and> ss_scope st = cfg_scope (sy_config sy) \<and>
       ss_observed_tip st = Some observed_tip \<and> (ss_phase st = Ready \<longleftrightarrow> caught_up observed_tip t)) checkpoint
    (extend observed_tip checkpoint pl)"
proof -
  let ?N = "cfg_batch_size (sy_config sy)"
  let ?R = "\<lambda>st k t. k \<le> ?N \<and> ss_checkpoint st = t \<and> ss_scope st = cfg_scope (sy_config sy) \<and>
       ss_observed_tip st = Some observed_tip \<and> (ss_phase st = Ready \<longleftrightarrow> caught_up observed_tip t)"
  have init: "advances ?N (\<lambda>(cp, n, pl') k t. k \<le> n \<and> n \<le> ?N \<and> t = cp) checkpoint
      (if checkpoint = None then initialize_checkpoint sy observed_tip pl else ret (checkpoint, 0, pl))"
    using initialize_checkpoint_advances [OF batch] by (auto intro: advances_ret)
  have tail: "advances (?N - n) (\<lambda>st i. ?R st (k + i)) t
      (bind_eff (advance_chain sy observed_tip t n pl') (\<lambda>cp.
        ret \<lparr>ss_scope = cfg_scope (sy_config sy), ss_checkpoint = cp, ss_observed_tip = Some observed_tip,
          ss_phase = (if caught_up observed_tip cp then Ready else CatchingUp)\<rparr>))"
    if "k \<le> n" "n \<le> ?N" for k n t pl'
    by (rule advances_bind [OF advance_chain_advances])
      (use that in \<open>auto intro!: exI [where x = 0] advances_ret\<close>)
  show ?thesis
    unfolding extend_def
  proof (rule advances_bind [OF init])
    fix x and k :: nat and t :: "block_ref option"
    assume "(\<lambda>(cp, n, pl' :: sync_plan) k t. k \<le> n \<and> n \<le> ?N \<and> t = cp) x k t"
    then obtain n pl' where x: "x = (t, n, pl')" "k \<le> n" "n \<le> ?N" by (cases x) auto
    then show "\<exists>j. k + j \<le> ?N \<and> advances j (\<lambda>st i. ?R st (k + i)) t
        (case x of (checkpoint, n, pl) \<Rightarrow>
           bind_eff (advance_chain sy observed_tip checkpoint n pl) (\<lambda>checkpoint.
           ret \<lparr>ss_scope = cfg_scope (sy_config sy), ss_checkpoint = checkpoint, ss_observed_tip = Some observed_tip,
             ss_phase = (if caught_up observed_tip checkpoint then Ready else CatchingUp)\<rparr>))"
      using tail [OF x(2,3)] by (intro exI [where x = "?N - n"]) auto
  qed simp
qed

lemma sync_pass_returns:
  assumes w: "inv (w_repo w)" and batch: "0 < cfg_batch_size (sy_config sy)"
  shows "\<exists>r w'. sync_pass sy selection w = Some (r, w') \<and> progress (cfg_batch_size (sy_config sy)) w w' \<and>
    (\<forall>st. r = Ok st \<longrightarrow> ss_scope st = cfg_scope (sy_config sy) \<and> ss_checkpoint st = ch_tip (wchain w') \<and>
       (\<exists>observed_tip. ss_observed_tip st = Some observed_tip \<and>
          (ss_phase st = Ready \<longleftrightarrow> caught_up observed_tip (ss_checkpoint st))) \<and>
       (\<exists>base os. base_of sy (wchain w) base \<and> w_observed w' = w_observed w @ os \<and>
          (sy_observer sy \<longrightarrow> chained base (map bo_block os) (ss_checkpoint st))))"
proof -
  obtain lr w1 where look: "look selection w = (lr, w1)" by fastforce
  have w1: "inv (w_repo w1)" "wchain w1 = wchain w" "w_observed w1 = w_observed w"
    using calmD [OF calm_look w look] by (simp_all add: kept_def)
  show ?thesis
  proof (cases lr)
    case (Inl e)
    then show ?thesis using look w1 by (simp add: sync_pass_split progress_def)
  next
    case (Inr x)
    obtain observed cp pl where x: "x = (observed, cp, pl)" by (cases x) auto
    have cp: "ch_tip (wchain w1) = cp" using look_checkpoint [OF w] look Inr x w1(2) by simp
    obtain ar w2 where agree: "agree cp pl w1 = Some (ar, w2)" "inv (w_repo w2)" "w_observed w2 = w_observed w1"
        "\<forall>base pl'. ar = Ok (base, pl') \<longrightarrow> base_of sy (wchain w1) base \<and> ch_tip (wchain w2) = base"
      using agree_returns [OF w1(1) cp] by blast
    show ?thesis
    proof (cases ar)
      case err: (Inl e)
      then show ?thesis using look w1 Inr x agree by (simp add: sync_pass_split progress_def)
    next
      case ok: (Inr y)
      obtain base pl' where y: "y = (base, pl')" by fastforce
      obtain r w' where ext: "extend observed base pl' w2 = (r, w')" by fastforce
      have tip2: "ch_tip (wchain w2) = base" using agree(4) ok y by simp
      note law = advancesD [OF extend_advances [OF batch] agree(2) tip2 ext]
      have run: "sync_pass sy selection w = Some (r, w')"
        using look Inr x agree(1) ok y ext by (simp add: sync_pass_split)
      have "progress (cfg_batch_size (sy_config sy)) w w'"
        using law(1) agree(3) w1(3) by (simp add: progress_def)
      moreover have "\<exists>base os. base_of sy (wchain w) base \<and> w_observed w' = w_observed w @ os \<and>
          (sy_observer sy \<longrightarrow> chained base (map bo_block os) (ss_checkpoint st))" if "r = Ok st" for st
        using law(2) [OF that] agree(3,4) ok y w1(2,3) tip2 by (fastforce simp: applied_def)
      moreover have "ss_scope st = cfg_scope (sy_config sy) \<and> ss_checkpoint st = ch_tip (wchain w') \<and>
          (\<exists>observed_tip. ss_observed_tip st = Some observed_tip \<and>
            (ss_phase st = Ready \<longleftrightarrow> caught_up observed_tip (ss_checkpoint st)))" if "r = Ok st" for st
        using law(2) [OF that] by auto
      ultimately show ?thesis using run by blast
    qed
  qed
qed

lemmas sync_pass_facts = sync_pass_returns [unfolded progress_def]

end

section \<open>The synchronizer over the redb index\<close>

definition redb_synchronizer ::
  "redb \<Rightarrow> codecs \<Rightarrow> (backend, 'x, 'b) synchronizer \<Rightarrow> (backend, 'x, 'b) synchronizer" where
  "redb_synchronizer rd cs sy =
     (let repo = redb_repository rd cs (cfg_scope (sy_config sy)) in
      sy\<lparr>sy_get := read_block repo, sy_add := write_block repo, sy_remove := remove_tip repo\<rparr>)"

lemma redb_synchronizer_config [simp]:
  "sy_config (redb_synchronizer rd cs sy) = sy_config sy" "sy_observer (redb_synchronizer rd cs sy) = sy_observer sy"
  by (simp_all add: redb_synchronizer_def Let_def)

interpretation redb_sync: synchronized "redb_blocks_ok rd cs (cfg_scope (sy_config sy))"
  "redb_chain rd cs (cfg_scope (sy_config sy))" "redb_synchronizer rd cs sy"
  for rd cs and sy :: "(backend, 'x, 'b) synchronizer"
  unfolding synchronized_def redb_synchronizer_def Let_def by simp (rule redb_blocks.block_repository_axioms)

lemma redb_asks: "first_confirmed (redb_synchronizer rd cs sy) bs o1 = first_confirmed sy bs o1"
  by (induction bs arbitrary: o1) (simp_all add: redb_synchronizer_def Let_def split: prod.splits sum.splits)

lemma sync_config_new_Ok:
  assumes "sync_config_new scope confirmations retention batch = Ok cfg"
  shows "cfg_scope cfg = scope" "0 < cfg_batch_size cfg" "cfg_batch_size cfg = batch" "cfg_reorg_retention cfg = retention"
    "retention \<noteq> 0"
  using assms by (auto simp: sync_config_new_def fail_if_def split: if_splits)

text \<open>A source that has lost every block, and one that confirms the checkpoint.\<close>

definition demo_config :: sync_config where
  "demo_config = \<lparr>cfg_scope = demo_scope, cfg_minimum_confirmations = 1, cfg_reorg_retention = 3, cfg_batch_size = 5\<rparr>"

definition demo_synchronizer :: "block_ref option \<Rightarrow> (backend, unit, block_ref) synchronizer" where
  "demo_synchronizer answer =
     \<lparr>sy_tip = (\<lambda>o1. (Ok demo_block, o1)), sy_blocks = (\<lambda>_ _ _ o1. (Ok [demo_block], o1)),
      sy_canonical_at = (\<lambda>_ o1. (Ok answer, o1)), sy_block_ref = id,
      sy_inspect = (\<lambda>b _. Ok \<lparr>ib_block = b, ib_transactions = [],
        ib_outputs = \<lparr>oc_created = [], oc_spent = [], oc_tracked_spends = []\<rparr>\<rparr>),
      sy_get = (\<lambda>_ s. (Ok None, s)), sy_add = (\<lambda>_ s. (Ok Applied, s)), sy_remove = (\<lambda>_ _ s. (Ok None, s)),
      sy_config = demo_config, sy_observer = True\<rparr>"

definition demo_world :: "(backend, unit) world" where
  "demo_world = \<lparr>w_repo = demo_written\<lparr>be_tick := 28\<rparr>, w_admission = admission_new, w_env = (), w_running = False,
     w_observed = []\<rparr>"

definition demo_selection :: "unit filter_source" where
  "demo_selection = \<lparr>fs_filters = (\<lambda>o1. (Ok [], o1)), fs_plan = (\<lambda>_ checkpoint o1. (Ok (plan_detached [] checkpoint), o1))\<rparr>"

lemma demo_config_new: "sync_config_new demo_scope 1 3 5 = Ok demo_config"
  by (simp add: sync_config_new_def fail_if_def demo_config_def)

lemma demo_synchronizer_simps [simp]:
  "sy_config (demo_synchronizer c) = demo_config" "cfg_scope demo_config = demo_scope"
  "steady (redb_synchronizer rd cs (demo_synchronizer c)) (\<lambda>_. c)"
  by (simp_all add: demo_synchronizer_def demo_config_def redb_synchronizer_def steady_def Let_def)

lemma demo_world_ok:
  "redb_blocks_ok calm_redb demo_codecs demo_scope (w_repo demo_world)"
  "ch_tip (redb_chain calm_redb demo_codecs demo_scope (w_repo demo_world)) = Some demo_block"
proof -
  have "write_block (redb_repository calm_redb demo_codecs demo_scope) demo_addition empty_backend =
      (Ok Applied, demo_written\<lparr>be_tick := 28\<rparr>)"
    using demo_write by (simp add: empty_backend_def)
  from redb_blocks.add_law [OF empty_blocks_ok demo_addition_ok(1) this]
  show "redb_blocks_ok calm_redb demo_codecs demo_scope (w_repo demo_world)"
      "ch_tip (redb_chain calm_redb demo_codecs demo_scope (w_repo demo_world)) = Some demo_block"
    by (simp_all add: demo_world_def chain_add_def Let_def demo_addition_simps)
qed

lemma demo_reads:
  "read_block (redb_repository calm_redb demo_codecs demo_scope) (Tip demo_scope) (demo_written\<lparr>be_tick := n\<rparr>) =
    (Ok (Some demo_block), demo_written\<lparr>be_tick := n + 3\<rparr>)"
  "read_block (redb_repository calm_redb demo_codecs demo_scope) (AtHeight demo_scope 5) (demo_written\<lparr>be_tick := n\<rparr>) =
    (Ok (Some demo_block), demo_written\<lparr>be_tick := n + 3\<rparr>)"
  unfolding read_block_def
  by (simp_all add: check_scope_def demo_addition_simps demo_repo_simps written_get demo_keys_encoded Let_def bind_eff_apply
      demo_journal_simps)

text \<open>A source that cannot be reached.\<close>

definition demo_failing_synchronizer :: "(backend, unit, block_ref) synchronizer" where
  "demo_failing_synchronizer =
     (demo_synchronizer None)\<lparr>sy_canonical_at := (\<lambda>_ o1. (Err \<lparr>se_message = ''unreachable'', se_retryable = True\<rparr>, o1))\<rparr>"

lemma demo_failing_confirms: "fst (first_confirmed demo_failing_synchronizer bs o1) \<noteq> Ok (Some b)"
  by (cases bs) (simp_all add: demo_failing_synchronizer_def)

lemma demo_sync:
  "\<exists>w'. sync (redb_synchronizer calm_redb demo_codecs (demo_synchronizer (Some demo_block))) demo_selection demo_world =
     Some (Ok \<lparr>ss_scope = demo_scope, ss_checkpoint = Some demo_block, ss_observed_tip = Some demo_block, ss_phase = Ready\<rparr>, w')"
  by (simp add: sync_def sync_pass_def demo_world_def demo_selection_def demo_synchronizer_def redb_synchronizer_def Let_def
    on_outside_def on_source_def on_repo_def validate_filters_def fail_if_def demo_config_def demo_reads plan_detached_def
    advance_chain_def caught_up_def)

lemma demo_reconcile:
  "\<exists>w'. reconcile (redb_synchronizer calm_redb demo_codecs (demo_synchronizer (Some demo_block))) demo_block
      (plan_detached [] (Some demo_block)) demo_world =
     Some (Ok (Some demo_block, plan_detached [] (Some demo_block)), w')"
proof -
  let ?sy = "redb_synchronizer calm_redb demo_codecs (demo_synchronizer (Some demo_block))"
  have "local_and_remote ?sy 5 demo_world =
      (Ok (Some demo_block, Some demo_block), demo_world\<lparr>w_repo := demo_written\<lparr>be_tick := 31\<rparr>\<rparr>)"
    by (simp add: local_and_remote_def on_repo_def on_source_def on_outside_def demo_synchronizer_def redb_synchronizer_def Let_def
      demo_config_def demo_world_def demo_reads bind_eff_apply)
  then have "find_ancestor ?sy 2 5 demo_world = Some (Ok (Some demo_block), demo_world\<lparr>w_repo := demo_written\<lparr>be_tick := 31\<rparr>\<rparr>)"
    by (subst find_ancestor.simps) simp
  then show ?thesis
    by (simp add: reconcile_def demo_block_def [THEN arg_cong [where f = br_height]] demo_config_def saturating_sub_def Let_def
      ok_or_def on_admission_def plan_begin_def plan_detached_def revert_to.simps commit_complete_def permit_detached_def
      commit_start_def advance_def)
qed

section \<open>Properties\<close>

text \<open>
  C3. A synchronization pass over the redb index always returns, whatever the source answers and
  whatever fails. It leaves the chain linked and the running flag as it found it, and a reported
  status names the configured scope and the checkpoint that is stored, \<open>Ready\<close> exactly when that
  checkpoint has reached the tip the source reported.
\<close>

theorem sync_settles:
  assumes "redb_blocks_ok rd cs scope (w_repo w)" "sync_config_new scope confirmations retention batch = Ok (sy_config sy)"
  shows "\<exists>r w'. sync (redb_synchronizer rd cs sy) selection w = Some (r, w') \<and>
    redb_blocks_ok rd cs scope (w_repo w') \<and> w_running w' = w_running w \<and>
    (\<forall>st. r = Ok st \<longrightarrow> \<not> w_running w \<and> ss_scope st = scope \<and>
       ss_checkpoint st = ch_tip (redb_chain rd cs scope (w_repo w')) \<and>
       (\<exists>observed_tip. ss_observed_tip st = Some observed_tip \<and>
          (ss_phase st = Ready \<longleftrightarrow> caught_up observed_tip (ss_checkpoint st))))"
proof (cases "w_running w")
  case True
  then show ?thesis using assms(1) by (simp add: sync_def)
next
  case False
  note cfg = sync_config_new_Ok [OF assms(2)]
  obtain r w' where run: "sync_pass (redb_synchronizer rd cs sy) selection (w\<lparr>w_running := True\<rparr>) = Some (r, w')"
      "redb_blocks_ok rd cs scope (w_repo w')"
      "\<forall>st. r = Ok st \<longrightarrow> ss_scope st = scope \<and> ss_checkpoint st = ch_tip (redb_chain rd cs scope (w_repo w')) \<and>
       (\<exists>observed_tip. ss_observed_tip st = Some observed_tip \<and>
          (ss_phase st = Ready \<longleftrightarrow> caught_up observed_tip (ss_checkpoint st)))"
    using redb_sync.sync_pass_facts [of rd cs sy "w\<lparr>w_running := True\<rparr>" selection] assms(1) cfg by auto
  then show ?thesis using False cfg by (auto simp: sync_def)
qed

theorem sync_settles_witness:
  "\<exists>r w'. sync (redb_synchronizer calm_redb demo_codecs (demo_synchronizer None)) demo_selection demo_world = Some (r, w') \<and>
     redb_blocks_ok calm_redb demo_codecs demo_scope (w_repo w') \<and> \<not> w_running w'"
  using sync_settles [OF demo_world_ok(1), of 1 3 5 "demo_synchronizer None" demo_selection] demo_config_new
  by (auto simp: demo_world_def)

text \<open>
  C5. Every applied block is notified, in order and once: a successful pass with an observer appends
  at most a batch of notifications, whose blocks lead, each connecting to the one before, from the
  block the pass built on to the checkpoint it reports. That block is the checkpoint it found or a
  retained block of the rollback window.
\<close>

theorem sync_reports_blocks:
  assumes "redb_blocks_ok rd cs scope (w_repo w)" "sync_config_new scope confirmations retention batch = Ok (sy_config sy)"
    and "sy_observer sy" "sync (redb_synchronizer rd cs sy) selection w = Some (Ok st, w')"
  shows "\<exists>base os. w_observed w' = w_observed w @ os \<and> length os \<le> batch \<and>
    base_of (redb_synchronizer rd cs sy) (redb_chain rd cs scope (w_repo w)) base \<and>
    chained base (map bo_block os) (ss_checkpoint st)"
proof -
  note cfg = sync_config_new_Ok [OF assms(2)]
  let ?w = "w\<lparr>w_running := True\<rparr>"
  obtain r w1 where run: "sync_pass (redb_synchronizer rd cs sy) selection ?w = Some (r, w1)"
      "\<exists>os. w_observed w1 = w_observed w @ os \<and> length os \<le> batch"
      "\<forall>st. r = Ok st \<longrightarrow> (\<exists>base os. base_of (redb_synchronizer rd cs sy) (redb_chain rd cs scope (w_repo w)) base \<and>
         w_observed w1 = w_observed w @ os \<and> chained base (map bo_block os) (ss_checkpoint st))"
    using redb_sync.sync_pass_facts [of rd cs sy ?w selection] assms(1,3) cfg by auto
  have "r = Ok st" "w_observed w' = w_observed w1"
    using assms(4) run(1) by (auto simp: sync_def split: if_splits)
  then show ?thesis using run(2,3) by force
qed

theorem sync_reports_blocks_witness:
  "\<exists>w' base os. sync (redb_synchronizer calm_redb demo_codecs (demo_synchronizer (Some demo_block))) demo_selection demo_world =
       Some (Ok \<lparr>ss_scope = demo_scope, ss_checkpoint = Some demo_block, ss_observed_tip = Some demo_block, ss_phase = Ready\<rparr>, w') \<and>
     w_observed w' = w_observed demo_world @ os \<and> length os \<le> 5 \<and> chained base (map bo_block os) (Some demo_block)"
proof -
  obtain w' where run: "sync (redb_synchronizer calm_redb demo_codecs (demo_synchronizer (Some demo_block))) demo_selection demo_world =
      Some (Ok \<lparr>ss_scope = demo_scope, ss_checkpoint = Some demo_block, ss_observed_tip = Some demo_block, ss_phase = Ready\<rparr>, w')"
    using demo_sync by blast
  have "sy_observer (demo_synchronizer (Some demo_block))" by (simp add: demo_synchronizer_def)
  from sync_reports_blocks [OF demo_world_ok(1) _ this run, of 1 3 5] demo_config_new run show ?thesis by fastforce
qed

text \<open>
  C4. Reconciling over the redb index always returns, whatever the source and the store answer. It asks the
  source about the retained blocks of the window one by one, from the tip downwards, and success means that
  the index was cut back to exactly the first of them the source confirmed: everything above it removed,
  everything at or below it kept. A failure of the source ends the search with that error; it never counts
  as a denial. When the source denied every retained block, or a read of the index failed, that is the error.
  In all these cases the chain is as before, and an error after the search leaves everything at or below the
  confirmed block untouched.
\<close>

theorem reconcile_cuts_to_common:
  assumes "redb_blocks_ok rd cs (cfg_scope (sy_config sy)) (w_repo w)"
    and "ch_tip (redb_chain rd cs (cfg_scope (sy_config sy)) (w_repo w)) = Some tip"
  shows "\<exists>r w' c c' found. reconcile (redb_synchronizer rd cs sy) tip pl w = Some (r, w') \<and>
    c = redb_chain rd cs (cfg_scope (sy_config sy)) (w_repo w) \<and>
    c' = redb_chain rd cs (cfg_scope (sy_config sy)) (w_repo w') \<and>
    found = fst (first_confirmed sy (candidates c (window sy tip) (br_height tip)) (w_admission w, w_env w)) \<and>
    (case r of
       Ok (cp, pl') \<Rightarrow> \<exists>b. found = Ok (Some b) \<and> cp = Some b \<and> c' = chain_cut c b
     | Err e \<Rightarrow>
         (\<exists>b. found = Ok (Some b) \<and> above b c c') \<or>
         c' = c \<and> (found = Ok None \<and> e = reorg_too_deep_error \<or> (\<exists>se. found = Err se \<and> e = index_error_from_source se) \<or>
           read_failed (redb_synchronizer rd cs sy) r))"
proof -
  let ?sy = "redb_synchronizer rd cs sy" and ?c = "\<lambda>w. redb_chain rd cs (cfg_scope (sy_config sy)) (w_repo w)"
  let ?found = "fst (first_confirmed sy (candidates (?c w) (window sy tip) (br_height tip)) (w_admission w, w_env w))"
  have win: "window ?sy tip = window sy tip" by (simp add: window_def)
  obtain r w' where run: "reconcile ?sy tip pl w = Some (r, w')"
      "case r of
         Ok (cp, pl') \<Rightarrow> \<exists>b. ?found = Ok (Some b) \<and> cp = Some b \<and> ?c w' = chain_cut (?c w) b
       | Err e \<Rightarrow> (\<exists>b. ?found = Ok (Some b) \<and> above b (?c w) (?c w')) \<or>
           ?c w' = ?c w \<and> (?found = Ok None \<and> e = reorg_too_deep_error \<or> (\<exists>se. ?found = Err se \<and> e = index_error_from_source se) \<or>
             read_failed ?sy (Err e :: (index_error, block_ref option) result))"
    using redb_sync.reconcile_asks [OF assms, of pl, unfolded Let_def redb_asks win] by blast
  have "read_failed ?sy r \<longleftrightarrow> read_failed ?sy (Err e :: (index_error, block_ref option) result)" if "r = Err e" for e
    using that by (simp add: read_failed_def)
  with run show ?thesis by (cases r) auto
qed

theorem reconcile_cuts_to_common_witness:
  "(\<exists>w'. reconcile (redb_synchronizer calm_redb demo_codecs (demo_synchronizer (Some demo_block))) demo_block
       (plan_detached [] (Some demo_block)) demo_world = Some (Ok (Some demo_block, plan_detached [] (Some demo_block)), w') \<and>
     redb_chain calm_redb demo_codecs demo_scope (w_repo w') =
       chain_cut (redb_chain calm_redb demo_codecs demo_scope (w_repo demo_world)) demo_block) \<and>
   (\<exists>e w'. reconcile (redb_synchronizer calm_redb demo_codecs demo_failing_synchronizer) demo_block
       (plan_detached [] (Some demo_block)) demo_world = Some (Err e, w') \<and>
     redb_chain calm_redb demo_codecs demo_scope (w_repo w') = redb_chain calm_redb demo_codecs demo_scope (w_repo demo_world))"
proof -
  have config: "cfg_scope (sy_config (demo_synchronizer (Some demo_block))) = demo_scope" "cfg_scope (sy_config demo_failing_synchronizer) = demo_scope"
    by (simp_all add: demo_failing_synchronizer_def)
  obtain w' where run: "reconcile (redb_synchronizer calm_redb demo_codecs (demo_synchronizer (Some demo_block))) demo_block
      (plan_detached [] (Some demo_block)) demo_world = Some (Ok (Some demo_block, plan_detached [] (Some demo_block)), w')"
    using demo_reconcile by blast
  with reconcile_cuts_to_common [of calm_redb demo_codecs "demo_synchronizer (Some demo_block)" demo_world demo_block
      "plan_detached [] (Some demo_block)", unfolded config, OF demo_world_ok]
  have one: "redb_chain calm_redb demo_codecs demo_scope (w_repo w') =
      chain_cut (redb_chain calm_redb demo_codecs demo_scope (w_repo demo_world)) demo_block" by auto
  obtain r w2 where two: "reconcile (redb_synchronizer calm_redb demo_codecs demo_failing_synchronizer) demo_block
        (plan_detached [] (Some demo_block)) demo_world = Some (r, w2)"
      "\<forall>x. r \<noteq> Ok x" "redb_chain calm_redb demo_codecs demo_scope (w_repo w2) = redb_chain calm_redb demo_codecs demo_scope (w_repo demo_world)"
    using reconcile_cuts_to_common [of calm_redb demo_codecs demo_failing_synchronizer demo_world demo_block
      "plan_detached [] (Some demo_block)", unfolded config, OF demo_world_ok] demo_failing_confirms
    by (elim exE conjE) (simp split: sum.splits prod.splits)
  then obtain e where "r = Err e" by (cases r) auto
  with run one two show ?thesis by blast
qed



text \<open>
  C7. A rollback never goes back a whole retention window. The search for a common block ends at the
  height a window below the tip, or at zero, but adding the tip has already removed the entry of the
  height a window below, so a successful reconciliation of a block that was just added ends at a block at
  most as high that is fewer blocks away than the configured retention.
\<close>

theorem rollback_below_retention:
  assumes "redb_blocks_ok rd cs (cfg_scope (sy_config sy)) s" "addition_ok a"
    and "write_block (redb_repository rd cs (cfg_scope (sy_config sy))) a s = (Ok Applied, w_repo w)"
    and "ba_retention a = cfg_reorg_retention (sy_config sy)"
    and "reconcile (redb_synchronizer rd cs sy) (ba_block a) pl w = Some (Ok (Some b, pl'), w')"
  shows "br_height b \<le> br_height (ba_block a) \<and>
    unat (br_height (ba_block a)) - unat (br_height b) < unat (cfg_reorg_retention (sy_config sy))"
proof -
  let ?c = "redb_chain rd cs (cfg_scope (sy_config sy)) (w_repo w)"
  have w: "redb_blocks_ok rd cs (cfg_scope (sy_config sy)) (w_repo w)"
      "?c = chain_add a (redb_chain rd cs (cfg_scope (sy_config sy)) s)"
    using redb_blocks.add_law [OF assms(1-3)] by simp_all
  then have tip: "ch_tip ?c = Some (ba_block a)" by (simp add: chain_add_def Let_def)
  have "aims_for (redb_synchronizer rd cs sy) ?c (ba_block a) b"
    using redb_sync.reconcile_returns [OF w(1) tip, of pl] assms(5) by auto
  then have b: "retained ?c b" "saturating_sub (br_height (ba_block a)) (ba_retention a) \<le> br_height b" "br_height b \<le> br_height (ba_block a)"
    using assms(4) by (simp_all add: aims_for_def window_def)
  show ?thesis
  proof (cases "ba_retention a \<le> br_height (ba_block a)")
    case True
    have "ch_journal ?c (br_height (ba_block a) - ba_retention a) = None"
      using w(2) True by (simp add: chain_add_def Let_def)
    then have "br_height (ba_block a) - ba_retention a \<noteq> br_height b" using b(1) by (auto simp: retained_def)
    then have "br_height (ba_block a) - ba_retention a < br_height b" using b(2) True by (simp add: saturating_sub_def)
    moreover have "0 < unat (ba_retention a)" using assms(2) by (simp add: addition_ok_def unat_gt_0)
    ultimately show ?thesis
      using assms(4) True b(3) unfolding word_less_nat_alt word_le_nat_alt by (simp add: unat_sub word_le_nat_alt)
  qed (use assms(4) b(3) in \<open>auto simp: word_le_nat_alt\<close>)
qed

theorem rollback_below_retention_witness:
  "write_block (redb_repository calm_redb demo_codecs demo_scope) demo_addition empty_backend = (Ok Applied, w_repo demo_world) \<and>
   ba_block demo_addition = demo_block \<and> ba_retention demo_addition = cfg_reorg_retention demo_config \<and>
   (\<exists>b pl' w'. reconcile (redb_synchronizer calm_redb demo_codecs (demo_synchronizer (Some demo_block))) demo_block
        (plan_detached [] (Some demo_block)) demo_world = Some (Ok (Some b, pl'), w') \<and>
      br_height b \<le> br_height demo_block \<and>
      unat (br_height demo_block) - unat (br_height b) < unat (cfg_reorg_retention demo_config))"
proof -
  obtain w' where run: "reconcile (redb_synchronizer calm_redb demo_codecs (demo_synchronizer (Some demo_block))) demo_block
      (plan_detached [] (Some demo_block)) demo_world = Some (Ok (Some demo_block, plan_detached [] (Some demo_block)), w')"
    using demo_reconcile by blast
  have wrote: "write_block (redb_repository calm_redb demo_codecs demo_scope) demo_addition empty_backend =
      (Ok Applied, w_repo demo_world)"
    using demo_write by (simp add: empty_backend_def demo_world_def)
  have addition1: "ba_block demo_addition = demo_block" "ba_retention demo_addition = cfg_reorg_retention demo_config"
    by (simp_all add: demo_addition_def demo_config_def)
  from rollback_below_retention [of calm_redb demo_codecs "demo_synchronizer (Some demo_block)" empty_backend
      demo_addition demo_world] empty_blocks_ok demo_addition_ok(1) run wrote addition1
  show ?thesis by fastforce
qed

end
