(* ===== verification/Index_Service.thy ===== *)
theory Index_Service
  imports Sync_Laws
begin

text \<open>
  The query side of one index (\<open>sdk/indexing/src/indexer.rs\<close>), the service that joins it with the
  synchronizer (\<open>service.rs\<close>), and the composer that routes between several indexers
  (\<open>composer.rs\<close>). Every indexer reports one status per scope; the interface \<open>reporting_indexer\<close> states
  this, services satisfy it, and composing keeps it.
\<close>

section \<open>Queries\<close>

record 's index =
  ix_get :: "block_selector \<Rightarrow> ('s, index_error, block_ref option) eff"
  ix_list :: "history_query \<Rightarrow> ('s, index_error, canonical_page) eff"
  ix_confirmations :: u64

definition index_checkpoint :: "'s index \<Rightarrow> index_scope \<Rightarrow> ('s, index_error, block_ref option) eff" where
  "index_checkpoint ix scope = ix_get ix (Tip scope)"

definition history_without_checkpoint_error :: index_error where
  "history_without_checkpoint_error = index_error_new StoreFailure ''history exists without a checkpoint'' False"

definition history_beyond_checkpoint_error :: index_error where
  "history_beyond_checkpoint_error =
     index_error_new StoreFailure ''history contains a transaction beyond its checkpoint'' False"

definition observe_status ::
  "'s index \<Rightarrow> canonical_status \<Rightarrow> block_ref option \<Rightarrow> (index_error, transaction_status) result" where
  "observe_status ix status checkpoint =
     (case status of
        CanonicalFailed block reason \<Rightarrow> Ok (StatusFailed block reason)
      | CanonicalIncluded block \<Rightarrow>
          and_then (ok_or checkpoint history_without_checkpoint_error) (\<lambda>tip.
          and_then (ok_or
            (Option.bind (checked_sub (br_height tip) (br_height block)) (\<lambda>d. checked_add d 1))
            history_beyond_checkpoint_error) (\<lambda>confirmations.
          Ok (if confirmations \<ge> ix_confirmations ix then StatusConfirmed block confirmations
              else StatusIncluded block confirmations))))"

definition observe_transaction ::
  "'s index \<Rightarrow> block_ref option \<Rightarrow> canonical_transaction \<Rightarrow> (index_error, observed_transaction) result" where
  "observe_transaction ix checkpoint t =
     and_then (observe_status ix (ct_status t) checkpoint) (\<lambda>status.
     Ok \<lparr>ot_scope = ct_scope t, ot_id = ct_id t, ot_status = status, ot_movements = ct_movements t,
         ot_fee = ct_fee t\<rparr>)"

definition observe :: "'s index \<Rightarrow> canonical_page \<Rightarrow> (index_error, transaction_page) result" where
  "observe ix page =
     and_then (collect (observe_transaction ix (cp_checkpoint page)) (cp_transactions page)) (\<lambda>transactions.
     Ok \<lparr>tp_checkpoint = cp_checkpoint page, tp_transactions = transactions, tp_next = cp_next page\<rparr>)"

definition foreign_history_error :: index_error where
  "foreign_history_error = index_error_new ScopeMismatch ''history address belongs to another scope'' False"

definition pages_changed_error :: index_error where
  "pages_changed_error =
     index_error_new Conflict ''history changed between pages; restart from the first page'' True"

definition index_history :: "'s index \<Rightarrow> history_query \<Rightarrow> ('s, index_error, transaction_page) eff" where
  "index_history ix request =
     bind_eff (lift_result (fail_if (\<not> address_belongs_to (hq_address request) (hq_scope request)) foreign_history_error)) (\<lambda>_.
     bind_eff (ix_list ix request) (\<lambda>page.
     bind_eff (lift_result (fail_if
       (case hq_after request of None \<Rightarrow> False | Some cursor \<Rightarrow> hc_checkpoint cursor \<noteq> cp_checkpoint page)
       pages_changed_error)) (\<lambda>_.
     lift_result (observe ix page))))"

section \<open>Indexers and services\<close>

text \<open>
  An indexer over a state \<open>'s\<close>; a pass may in principle not return. The selection reads the outside
  world of \<open>Synchronizer\<close>.
\<close>

record ('s, 'x) indexer =
  in_scopes :: "index_scope list"
  in_checkpoint :: "index_scope \<Rightarrow> ('s, index_error, block_ref option) eff"
  in_history :: "history_query \<Rightarrow> ('s, index_error, transaction_page) eff"
  in_sync :: "'x filter_source \<Rightarrow> 's \<Rightarrow> ((index_error, sync_status list) result \<times> 's) option"

record ('r, 'x, 'b) service =
  sv_scope :: index_scope
  sv_synchronizer :: "('r, 'x, 'b) synchronizer"
  sv_index :: "'r index"

text \<open>
  \<open>Service::new\<close> gives the synchronizer and the queries the same repository; \<open>list\<close> is its \<open>Transactions\<close>
  side. No observer is set yet.
\<close>

definition service_new ::
  "('r, 'x, 'b) synchronizer \<Rightarrow> (history_query \<Rightarrow> ('r, index_error, canonical_page) eff) \<Rightarrow> ('r, 'x, 'b) service" where
  "service_new sy lister =
     \<lparr>sv_scope = cfg_scope (sy_config sy), sv_synchronizer = sy\<lparr>sy_observer := False\<rparr>,
      sv_index = \<lparr>ix_get = sy_get sy, ix_list = lister, ix_confirmations = cfg_minimum_confirmations (sy_config sy)\<rparr>\<rparr>"

definition service_observe :: "('r, 'x, 'b) service \<Rightarrow> ('r, 'x, 'b) service" where
  "service_observe sv = sv\<lparr>sv_synchronizer := (sv_synchronizer sv)\<lparr>sy_observer := True\<rparr>\<rparr>"

definition service_indexer :: "('r, 'x, 'b) service \<Rightarrow> (('r, 'x) world, 'x) indexer" where
  "service_indexer sv =
     \<lparr>in_scopes = [sv_scope sv],
      in_checkpoint = (\<lambda>scope. on_repo (index_checkpoint (sv_index sv) scope)),
      in_history = (\<lambda>request. on_repo (index_history (sv_index sv) request)),
      in_sync = (\<lambda>selection. bind_proc (sync (sv_synchronizer sv) selection) (\<lambda>status. returning (ret [status])))\<rparr>"

section \<open>The composer\<close>

record ('s, 'x) composer =
  co_indexers :: "('s, 'x) indexer list"
  co_scopes :: "index_scope list"

definition no_indexer_error :: index_error where
  "no_indexer_error = index_error_new InvalidRequest ''at least one indexer is required'' False"

definition same_scope_error :: index_error where
  "same_scope_error = index_error_new Conflict ''indexers contain the same scope'' False"

definition unconfigured_scope_error :: index_error where
  "unconfigured_scope_error = index_error_new ScopeMismatch ''index scope is not configured'' False"

fun unique_scopes :: "index_scope list \<Rightarrow> index_scope list \<Rightarrow> (index_error, index_scope list) result" where
  "unique_scopes scopes [] = Ok scopes"
| "unique_scopes scopes (scope # rest) =
     (if scope \<in> set scopes then Err same_scope_error else unique_scopes (scopes @ [scope]) rest)"

definition composer_new :: "('s, 'x) indexer list \<Rightarrow> (index_error, ('s, 'x) composer) result" where
  "composer_new indexers =
     and_then (fail_if (indexers = []) no_indexer_error) (\<lambda>_.
     and_then (unique_scopes [] (concat (map in_scopes indexers))) (\<lambda>scopes.
     Ok \<lparr>co_indexers = indexers, co_scopes = scopes\<rparr>))"

definition route :: "('s, 'x) composer \<Rightarrow> index_scope \<Rightarrow> (index_error, ('s, 'x) indexer) result" where
  "route co scope = ok_or (find (\<lambda>i. scope \<in> set (in_scopes i)) (co_indexers co)) unconfigured_scope_error"

fun check_selection ::
  "('s, 'x) composer \<Rightarrow> canonical_address set \<Rightarrow> address_filter list \<Rightarrow> (index_error, unit) result" where
  "check_selection co addresses [] = Ok ()"
| "check_selection co addresses (f # fs) =
     and_then (route co (ca_scope (af_address f))) (\<lambda>_.
     and_then (fail_if (ca_value (af_address f) = [] \<or> af_address f \<in> addresses) invalid_filter_error) (\<lambda>_.
     check_selection co (insert (af_address f) addresses) fs))"

definition composer_checkpoint :: "('s, 'x) composer \<Rightarrow> index_scope \<Rightarrow> ('s, index_error, block_ref option) eff" where
  "composer_checkpoint co scope =
     (case route co scope of Ok i \<Rightarrow> in_checkpoint i scope | Err e \<Rightarrow> throw e)"

definition composer_history :: "('s, 'x) composer \<Rightarrow> history_query \<Rightarrow> ('s, index_error, transaction_page) eff" where
  "composer_history co request =
     (case route co (ca_scope (hq_address request)) of Ok i \<Rightarrow> in_history i request | Err e \<Rightarrow> throw e)"

definition scoped :: "'x filter_source \<Rightarrow> index_scope list \<Rightarrow> 'x filter_source" where
  "scoped selection scopes =
     (let narrow = filter (\<lambda>f. ca_scope (af_address f) \<in> set scopes) in
      \<lparr>fs_filters = bind_eff (fs_filters selection) (\<lambda>filters. ret (narrow filters)),
       fs_plan = (\<lambda>scope checkpoint.
         bind_eff (fs_plan selection scope checkpoint) (\<lambda>pl. ret (with_filters pl (narrow (pl_filters pl)))))\<rparr>)"

type_synonym ('s, 'a) index_proc = "'s \<Rightarrow> ((index_error, 'a) result \<times> 's) option"

fun sync_indexers :: "'x filter_source \<Rightarrow> ('s, 'x) indexer list \<Rightarrow> sync_status list \<Rightarrow> ('s, sync_status list) index_proc" where
  "sync_indexers selection [] statuses = (\<lambda>s. Some (Ok statuses, s))"
| "sync_indexers selection (i # rest) statuses = (\<lambda>s.
     case in_sync i (scoped selection (in_scopes i)) s of
       None \<Rightarrow> None
     | Some (Err e, s') \<Rightarrow> Some (Err e, s')
     | Some (Ok reported, s') \<Rightarrow> sync_indexers selection rest (statuses @ reported) s')"

text \<open>The selection is read on the outside part of the composed state, which \<open>reading\<close> gives.\<close>

definition composer_sync ::
  "(('x outside, index_error, address_filter list) eff \<Rightarrow> ('s, index_error, address_filter list) eff) \<Rightarrow>
   ('s, 'x) composer \<Rightarrow> 'x filter_source \<Rightarrow> ('s, sync_status list) index_proc" where
  "composer_sync reading co selection = (\<lambda>s.
     case reading (fs_filters selection) s of
       (Err e, s') \<Rightarrow> Some (Err e, s')
     | (Ok filters, s') \<Rightarrow>
         (case check_selection co {} filters of
            Err e \<Rightarrow> Some (Err e, s')
          | Ok _ \<Rightarrow> sync_indexers selection (co_indexers co) [] s'))"

definition composer_indexer ::
  "(('x outside, index_error, address_filter list) eff \<Rightarrow> ('s, index_error, address_filter list) eff) \<Rightarrow>
   ('s, 'x) composer \<Rightarrow> ('s, 'x) indexer" where
  "composer_indexer reading co =
     \<lparr>in_scopes = co_scopes co, in_checkpoint = composer_checkpoint co, in_history = composer_history co,
      in_sync = composer_sync reading co\<rparr>"

section \<open>Confirmations\<close>

lemma observe_status_Ok_iff:
  "observe_status ix status checkpoint = Ok s \<longleftrightarrow>
     (case status of
        CanonicalFailed block reason \<Rightarrow> s = StatusFailed block reason
      | CanonicalIncluded block \<Rightarrow>
          \<exists>tip n. checkpoint = Some tip \<and> br_height block \<le> br_height tip \<and>
            unat n = unat (br_height tip) - unat (br_height block) + 1 \<and>
            s = (if ix_confirmations ix \<le> n then StatusConfirmed block n else StatusIncluded block n))"
proof (cases status)
  case (CanonicalIncluded block)
  have "Option.bind (checked_sub a b) (\<lambda>d. checked_add d 1) = Some n \<longleftrightarrow>
      b \<le> a \<and> unat n = unat a - unat b + 1" for a b n :: u64
    by (auto simp: bind_eq_Some_conv checked_add_SomeD checked_sub_SomeD word_le_nat_alt unat_sub
      intro!: exI [where x = "a - b"])
  then show ?thesis
    using CanonicalIncluded
    by (cases checkpoint) (auto simp: observe_status_def and_then_Ok_iff ok_or_iff)
qed (auto simp: observe_status_def)

text \<open>A stored transaction as a page with a checkpoint must show it.\<close>

definition shown_at :: "u64 \<Rightarrow> block_ref option \<Rightarrow> canonical_transaction \<Rightarrow> observed_transaction \<Rightarrow> bool" where
  "shown_at threshold checkpoint t o1 \<longleftrightarrow>
     ot_scope o1 = ct_scope t \<and> ot_id o1 = ct_id t \<and> ot_movements o1 = ct_movements t \<and> ot_fee o1 = ct_fee t \<and>
     (case ct_status t of
        CanonicalFailed block reason \<Rightarrow> ot_status o1 = StatusFailed block reason
      | CanonicalIncluded block \<Rightarrow>
          \<exists>tip n. checkpoint = Some tip \<and> br_height block \<le> br_height tip \<and>
            unat n = unat (br_height tip) - unat (br_height block) + 1 \<and>
            ot_status o1 = (if threshold \<le> n then StatusConfirmed block n else StatusIncluded block n))"

lemma observe_transaction_Ok:
  "observe_transaction ix checkpoint t = Ok o1 \<Longrightarrow> shown_at (ix_confirmations ix) checkpoint t o1"
  by (cases "ct_status t") (auto simp: shown_at_def observe_transaction_def and_then_Ok_iff observe_status_Ok_iff)

section \<open>Statuses\<close>

lemma sync_status_shape:
  assumes "sync sy selection w = Some (Ok st, w')"
  shows "ss_scope st = cfg_scope (sy_config sy)" "ss_phase st = Ready \<Longrightarrow> ss_checkpoint st \<noteq> None"
proof -
  obtain w1 w2 observed checkpoint where
      "returning (ret \<lparr>ss_scope = cfg_scope (sy_config sy), ss_checkpoint = checkpoint, ss_observed_tip = Some observed,
         ss_phase = (if caught_up observed checkpoint then Ready else CatchingUp)\<rparr>) w1 = Some (Ok st, w2)"
    using assms
    by (auto simp: sync_def sync_pass_def bind_proc_def split: if_splits option.splits sum.splits prod.splits)
  then show "ss_scope st = cfg_scope (sy_config sy)" "ss_phase st = Ready \<Longrightarrow> ss_checkpoint st \<noteq> None"
    by (auto simp: caught_up_def split: if_splits option.splits)
qed

locale reporting_indexer =
  fixes indexer :: "('s, 'x) indexer"
  assumes scopes_law: "in_sync indexer selection s = Some (Ok statuses, s') \<Longrightarrow> map ss_scope statuses = in_scopes indexer"
    and ready_law: "in_sync indexer selection s = Some (Ok statuses, s') \<Longrightarrow> st \<in> set statuses \<Longrightarrow>
      ss_phase st = Ready \<Longrightarrow> ss_checkpoint st \<noteq> None"

interpretation service_reports: reporting_indexer "service_indexer (service_new sy lister)" for sy lister
proof (unfold_locales, goal_cases)
  case (1 selection s statuses s')
  then obtain st where "sync (sy\<lparr>sy_observer := False\<rparr>) selection s = Some (Ok st, s')" "statuses = [st]"
    by (auto simp: service_indexer_def service_new_def bind_proc_def split: option.splits sum.splits prod.splits)
  then show ?case using sync_status_shape by (fastforce simp: service_indexer_def service_new_def)
next
  case (2 selection s statuses s' st)
  then obtain st' where "sync (sy\<lparr>sy_observer := False\<rparr>) selection s = Some (Ok st', s')" "statuses = [st']"
    by (auto simp: service_indexer_def service_new_def bind_proc_def split: option.splits sum.splits prod.splits)
  then show ?case using sync_status_shape(2) 2 by fastforce
qed

section \<open>Composition\<close>

lemma unique_scopes_Ok_iff:
  "distinct scopes \<Longrightarrow>
     unique_scopes scopes rest = Ok result \<longleftrightarrow> result = scopes @ rest \<and> distinct (scopes @ rest)"
  by (induction scopes rest rule: unique_scopes.induct) auto

lemma composer_new_Ok_iff:
  "composer_new indexers = Ok co \<longleftrightarrow>
     indexers \<noteq> [] \<and> distinct (concat (map in_scopes indexers)) \<and>
     co = \<lparr>co_indexers = indexers, co_scopes = concat (map in_scopes indexers)\<rparr>"
  by (auto simp: composer_new_def and_then_Ok_iff fail_if_iff unique_scopes_Ok_iff)

lemma same_position:
  assumes "distinct (concat xss)" "i < length xss" "j < length xss" "x \<in> set (xss ! i)" "x \<in> set (xss ! j)"
  shows "i = j"
  using assms
proof (induction xss arbitrary: i j)
  case (Cons xs xss)
  have "x \<notin> set (concat xss)" if "x \<in> set xs" using Cons.prems(1) that by auto
  moreover have "x \<in> set (concat xss)" if "k < length xss" "x \<in> set (xss ! k)" for k using that by auto
  ultimately show ?case using Cons by (cases i; cases j) auto
qed simp

lemma route_Ok_iff:
  assumes "composer_new indexers = Ok co"
  shows "route co scope = Ok i \<longleftrightarrow> i \<in> set indexers \<and> scope \<in> set (in_scopes i)"
proof -
  have co: "co_indexers co = indexers" "distinct (concat (map in_scopes indexers))"
    using assms by (auto simp: composer_new_Ok_iff)
  have "find (\<lambda>i. scope \<in> set (in_scopes i)) indexers = Some i \<longleftrightarrow> i \<in> set indexers \<and> scope \<in> set (in_scopes i)"
  proof
    assume "i \<in> set indexers \<and> scope \<in> set (in_scopes i)"
    moreover from this obtain k where k: "k < length indexers" "indexers ! k = i" by (auto simp: in_set_conv_nth)
    moreover have "scope \<notin> set (in_scopes (indexers ! j))" if "j < k" for j
      using same_position [OF co(2), of j k scope] that k calculation by auto
    ultimately show "find (\<lambda>i. scope \<in> set (in_scopes i)) indexers = Some i"
      by (auto simp: find_Some_iff)
  qed (auto simp: find_Some_iff)
  then show ?thesis by (simp add: route_def co(1) ok_or_iff)
qed

lemma sync_indexers_scopes:
  assumes "\<And>i. i \<in> set indexers \<Longrightarrow> reporting_indexer i"
    and "sync_indexers selection indexers statuses s = Some (Ok result, s')"
  shows "\<exists>reported. result = statuses @ reported \<and> map ss_scope reported = concat (map in_scopes indexers) \<and>
    (\<forall>st \<in> set reported. ss_phase st = Ready \<longrightarrow> ss_checkpoint st \<noteq> None)"
  using assms
proof (induction indexers arbitrary: statuses s)
  case (Cons i rest)
  obtain reported s1 where run: "in_sync i (scoped selection (in_scopes i)) s = Some (Ok reported, s1)"
      "sync_indexers selection rest (statuses @ reported) s1 = Some (Ok result, s')"
    using Cons.prems(2) by (auto split: option.splits prod.splits sum.splits)
  have i: "reporting_indexer i" using Cons.prems(1) by simp
  obtain later where "result = (statuses @ reported) @ later" "map ss_scope later = concat (map in_scopes rest)"
      "\<forall>st \<in> set later. ss_phase st = Ready \<longrightarrow> ss_checkpoint st \<noteq> None"
    using Cons.IH [OF _ run(2)] Cons.prems(1) by auto
  then show ?case
    using reporting_indexer.scopes_law [OF i run(1)] reporting_indexer.ready_law [OF i run(1)]
    by (intro exI [where x = "reported @ later"]) auto
qed simp

lemma check_selection_Ok_iff:
  "check_selection co addresses filters = Ok () \<longleftrightarrow>
     (\<forall>f \<in> set filters. (\<exists>i. route co (ca_scope (af_address f)) = Ok i) \<and> ca_value (af_address f) \<noteq> [] \<and>
        af_address f \<notin> addresses) \<and> distinct (map af_address filters)"
  by (induction co addresses filters rule: check_selection.induct) (auto simp: and_then_Ok_iff fail_if_iff image_iff)

text \<open>What an indexer reads of a selection that the whole composer reads as \<open>filters\<close>.\<close>

lemma scoped_filters:
  "fs_filters selection o1 = (Ok filters, o2) \<Longrightarrow>
     fs_filters (scoped selection scopes) o1 = (Ok (filter (\<lambda>f. ca_scope (af_address f) \<in> set scopes) filters), o2)"
  by (simp add: scoped_def Let_def bind_eff_apply)

lemma composer_reports:
  assumes "composer_new indexers = Ok co" "\<And>i. i \<in> set indexers \<Longrightarrow> reporting_indexer i"
  shows "reporting_indexer (composer_indexer reading co)"
proof
  have co: "co_indexers co = indexers" "co_scopes co = concat (map in_scopes indexers)"
    using assms(1) by (auto simp: composer_new_Ok_iff)
  fix selection s statuses s'
  assume "in_sync (composer_indexer reading co) selection s = Some (Ok statuses, s')"
  then obtain s1 where "sync_indexers selection indexers [] s1 = Some (Ok statuses, s')"
    by (auto simp: composer_indexer_def composer_sync_def co split: prod.splits sum.splits)
  note law = sync_indexers_scopes [OF assms(2) this]
  then show "map ss_scope statuses = in_scopes (composer_indexer reading co)"
    by (auto simp: composer_indexer_def co)
  show "ss_checkpoint st \<noteq> None" if "st \<in> set statuses" "ss_phase st = Ready" for st
    using law that by auto
qed

definition demo_status_index :: "unit index" where
  "demo_status_index =
     \<lparr>ix_get = (\<lambda>_ s. (Ok (Some demo_block), s)),
      ix_list = (\<lambda>_ s. (Ok \<lparr>cp_checkpoint = Some demo_block, cp_transactions = [demo_transaction], cp_next = None\<rparr>, s)),
      ix_confirmations = 1\<rparr>"

definition demo_query :: history_query where
  "demo_query = \<lparr>hq_scope = demo_scope, hq_address = demo_address, hq_after = None, hq_limit = 1\<rparr>"

definition demo_services :: "((backend, unit) world, unit) indexer list" where
  "demo_services = [service_indexer (service_new (demo_synchronizer None) (\<lambda>_ s. (Err no_indexer_error, s)))]"

definition demo_filters :: "unit filter_source" where
  "demo_filters =
     (let fs = [\<lparr>af_address = demo_address, af_start_position = 0\<rparr>] in
      \<lparr>fs_filters = (\<lambda>o1. (Ok fs, o1)), fs_plan = (\<lambda>_ checkpoint o1. (Ok (plan_detached fs checkpoint), o1))\<rparr>)"

definition demo_composer :: "((backend, unit) world, unit) composer" where
  "demo_composer = \<lparr>co_indexers = demo_services, co_scopes = [demo_scope]\<rparr>"

lemma demo_composer_new: "composer_new demo_services = Ok demo_composer"
  by (simp add: composer_new_Ok_iff demo_composer_def demo_services_def service_indexer_def service_new_def)

lemma demo_observed: "\<exists>page. index_history demo_status_index demo_query () = (Ok page, ())"
proof -
  have "observe_status demo_status_index (CanonicalIncluded demo_block) (Some demo_block) = Ok (StatusConfirmed demo_block 1)"
    by (auto simp: observe_status_Ok_iff demo_status_index_def intro!: exI [where x = 1])
  moreover have "ct_status demo_transaction = CanonicalIncluded demo_block" by (simp add: demo_transaction_def)
  moreover have "address_belongs_to demo_address demo_scope" by (simp add: demo_address_def address_belongs_to_def)
  ultimately show ?thesis
    by (simp add: index_history_def demo_query_def demo_status_index_def [THEN arg_cong [where f = ix_list]] observe_def
      observe_transaction_def)
qed

section \<open>Properties\<close>

text \<open>
  C25. A history page shows the repository's transactions in order, each with its exact number of
  confirmations at the page's checkpoint: the heights from its block to the checkpoint, both
  included. It is \<open>Confirmed\<close> exactly when that number reaches the configured one. A page continued
  from a cursor has the cursor's checkpoint.
\<close>

theorem history_confirmations:
  assumes "index_history ix request s = (Ok page, s')"
  shows "\<exists>stored. ix_list ix request s = (Ok stored, s') \<and>
    tp_checkpoint page = cp_checkpoint stored \<and> tp_next page = cp_next stored \<and>
    list_all2 (shown_at (ix_confirmations ix) (tp_checkpoint page)) (cp_transactions stored) (tp_transactions page) \<and>
    (\<forall>cursor. hq_after request = Some cursor \<longrightarrow> hc_checkpoint cursor = tp_checkpoint page)"
proof -
  from assms obtain stored where
      stored: "ix_list ix request s = (Ok stored, s')" "observe ix stored = Ok page"
        "\<not> (case hq_after request of None \<Rightarrow> False | Some cursor \<Rightarrow> hc_checkpoint cursor \<noteq> cp_checkpoint stored)"
    by (auto simp: index_history_def bind_eff_Ok_iff fail_if_iff)
  then have page: "tp_checkpoint page = cp_checkpoint stored" "tp_next page = cp_next stored"
      "list_all2 (\<lambda>t o1. observe_transaction ix (cp_checkpoint stored) t = Ok o1) (cp_transactions stored) (tp_transactions page)"
    by (auto simp: observe_def and_then_Ok_iff collect_Ok_iff)
  have "list_all2 (shown_at (ix_confirmations ix) (cp_checkpoint stored)) (cp_transactions stored) (tp_transactions page)"
    by (rule list_all2_mono [OF page(3) observe_transaction_Ok])
  then show ?thesis
    using stored(1,3) page(1,2)
    by (intro exI [where x = stored]) (auto split: option.splits)
qed

theorem history_confirmations_witness:
  "\<exists>page. index_history demo_status_index demo_query () = (Ok page, ()) \<and>
     map ot_status (tp_transactions page) = [StatusConfirmed demo_block 1]"
proof -
  obtain page where run: "index_history demo_status_index demo_query () = (Ok page, ())"
    using demo_observed by blast
  have status: "ct_status demo_transaction = CanonicalIncluded demo_block" by (simp add: demo_transaction_def)
  have one: "unat n = Suc 0 \<longleftrightarrow> n = 1" for n :: u64 by (simp add: word_unat_eq_iff)
  show ?thesis
    using history_confirmations [OF run] run
    by (auto simp: demo_status_index_def status list_all2_Cons1 shown_at_def one)
qed

text \<open>
  A confirmed transaction stays confirmed: if it is confirmed at one checkpoint, every later
  reading of the same inclusion at a checkpoint of at least that height is confirmed as well, with at
  least as many confirmations.
\<close>

theorem confirmed_stays_confirmed:
  assumes "observe_status ix (CanonicalIncluded block) (Some tip) = Ok (StatusConfirmed block n)"
    and "br_height tip \<le> br_height tip'" "observe_status ix (CanonicalIncluded block) (Some tip') = Ok st"
  shows "\<exists>n'. st = StatusConfirmed block n' \<and> n \<le> n'"
proof -
  have "unat (br_height tip) \<le> unat (br_height tip')" using assms(2) by (simp add: word_le_nat_alt)
  with assms(1,3) show ?thesis
    by (auto simp: observe_status_Ok_iff word_le_nat_alt split: if_splits)
qed

theorem confirmed_stays_confirmed_witness:
  "\<exists>n'. StatusConfirmed demo_block 2 = StatusConfirmed demo_block n' \<and> 1 \<le> n'"
proof (rule confirmed_stays_confirmed [where ix = demo_status_index and tip = demo_block and tip' = "demo_block\<lparr>br_height := 6\<rparr>"])
  show "observe_status demo_status_index (CanonicalIncluded demo_block) (Some demo_block) = Ok (StatusConfirmed demo_block 1)"
    by (auto simp: observe_status_Ok_iff demo_status_index_def intro!: exI [where x = 1])
  show "observe_status demo_status_index (CanonicalIncluded demo_block) (Some (demo_block\<lparr>br_height := 6\<rparr>)) =
      Ok (StatusConfirmed demo_block 2)"
    by (auto simp: observe_status_Ok_iff demo_status_index_def demo_block_def intro!: exI [where x = 2])
qed (simp add: demo_block_def)

text \<open>
  A composer is accepted exactly when it has an indexer and no scope occurs twice. It then sends
  a scope to an indexer exactly if that indexer owns it, and of a selection it validated every
  filter reaches exactly one indexer and every address occurs once.
\<close>

theorem composer_routes_once:
  assumes "composer_new indexers = Ok co" "check_selection co {} filters = Ok ()"
    and "fs_filters selection o1 = (Ok filters, o2)"
  shows "(route co scope = Ok i \<longleftrightarrow> i \<in> set indexers \<and> scope \<in> set (in_scopes i)) \<and>
    distinct (map af_address filters) \<and>
    (\<forall>f \<in> set filters. \<exists>!k. k < length indexers \<and>
       (\<exists>seen. fs_filters (scoped selection (in_scopes (indexers ! k))) o1 = (Ok seen, o2) \<and> f \<in> set seen))"
proof (intro conjI ballI)
  show "route co scope = Ok i \<longleftrightarrow> i \<in> set indexers \<and> scope \<in> set (in_scopes i)" by (rule route_Ok_iff [OF assms(1)])
  show "distinct (map af_address filters)" using assms(2) by (simp add: check_selection_Ok_iff)
  fix f
  assume f: "f \<in> set filters"
  then obtain i where "route co (ca_scope (af_address f)) = Ok i" using assms(2) by (auto simp: check_selection_Ok_iff)
  then obtain k where k: "k < length indexers" "ca_scope (af_address f) \<in> set (in_scopes (indexers ! k))"
    using route_Ok_iff [OF assms(1)] by (auto simp: in_set_conv_nth)
  have "distinct (concat (map in_scopes indexers))" using assms(1) by (simp add: composer_new_Ok_iff)
  from same_position [OF this] have "j = k" if "j < length indexers" "ca_scope (af_address f) \<in> set (in_scopes (indexers ! j))" for j
    using that k by force
  then show "\<exists>!k. k < length indexers \<and>
      (\<exists>seen. fs_filters (scoped selection (in_scopes (indexers ! k))) o1 = (Ok seen, o2) \<and> f \<in> set seen)"
    using k f scoped_filters [OF assms(3)] by auto
qed

theorem composer_routes_once_witness:
  "\<exists>!k. k < length demo_services \<and>
     (\<exists>seen. fs_filters (scoped demo_filters (in_scopes (demo_services ! k))) (admission_new, ()) = (Ok seen, (admission_new, ())) \<and>
       \<lparr>af_address = demo_address, af_start_position = 0\<rparr> \<in> set seen)"
proof -
  have "check_selection demo_composer {} [\<lparr>af_address = demo_address, af_start_position = 0\<rparr>] = Ok ()"
    by (simp add: route_def demo_composer_def demo_services_def service_indexer_def service_new_def demo_address_def fail_if_def ok_or_def)
  from composer_routes_once [OF demo_composer_new this, of demo_filters "(admission_new, ())" "(admission_new, ())"] show ?thesis
    by (simp add: demo_filters_def Let_def)
qed

end
