(* ===== verification/Sync_Runtime.thy ===== *)
theory Sync_Runtime
  imports Index_Service
begin

text \<open>
  The loop that keeps an indexer current (\<open>sdk/indexing/runtime/src/lib.rs\<close>): what it publishes after a
  pass, when it waits and when it ends. The environment decides, round by round, what the shutdown
  channel shows and which branch of each \<open>select!\<close> completes; a run over a list of rounds is the
  beginning of the loop's execution.
\<close>

section \<open>The published state\<close>

datatype sync_state = SyncCatchingUp | SyncReady | Retrying string

definition complete_statuses :: "index_scope list \<Rightarrow> sync_status list \<Rightarrow> bool" where
  "complete_statuses scopes statuses \<longleftrightarrow>
     scopes \<noteq> [] \<and> length statuses = length scopes \<and>
     list_all (\<lambda>scope. length (filter (\<lambda>st. ss_scope st = scope) statuses) = 1) scopes"

definition from_statuses :: "index_scope list \<Rightarrow> sync_status list \<Rightarrow> sync_state option" where
  "from_statuses scopes statuses =
     (if \<not> complete_statuses scopes statuses \<or>
         list_ex (\<lambda>st. ss_phase st = Ready \<and> ss_checkpoint st = None) statuses then None
      else if list_all (\<lambda>st. ss_phase st = Ready) statuses then Some SyncReady
      else Some SyncCatchingUp)"

section \<open>The loop\<close>

text \<open>
  A watched shutdown flag: its sender may be gone, and it has a value. A pass either completes or is
  interrupted by a change of the flag; a wait either elapses or is interrupted.
\<close>

datatype watch_change = Changed (sender_gone: bool) (flag: bool)

datatype pass_event = PassDone "(index_error, sync_status list) result" | PassInterrupted watch_change
datatype wait_event = Elapsed | WaitInterrupted watch_change

record run_input =
  ri_shutdown :: bool
  ri_pass :: pass_event
  ri_wait :: wait_event

datatype run_failure = IncompleteStatus string | IndexFailure index_error

datatype step_outcome = Again | Return "(run_failure, unit) result"

definition incomplete_state :: sync_state where
  "incomplete_state = Retrying ''incomplete synchronization status''"

definition incomplete_failure :: run_failure where
  "incomplete_failure = IncompleteStatus ''indexer returned incomplete or inconsistent synchronization status''"

definition stopping :: "watch_change \<Rightarrow> bool" where
  "stopping c \<longleftrightarrow> sender_gone c \<or> flag c"

definition wait_round :: "wait_event \<Rightarrow> step_outcome" where
  "wait_round e = (case e of Elapsed \<Rightarrow> Again | WaitInterrupted c \<Rightarrow> if stopping c then Return (Ok ()) else Again)"

text \<open>The states published in a round are appended to a log; an unchanged state is not republished.\<close>

definition publish :: "sync_state \<Rightarrow> sync_state \<times> sync_state list \<Rightarrow> sync_state \<times> sync_state list" where
  "publish state = (\<lambda>(current, published). (state, if state = current then published else published @ [state]))"

definition replace :: "sync_state \<Rightarrow> sync_state \<times> sync_state list \<Rightarrow> sync_state \<times> sync_state list" where
  "replace state = (\<lambda>(current, published). (state, published @ [state]))"

definition settle :: "sync_state \<Rightarrow> wait_event \<Rightarrow> sync_state \<times> sync_state list \<Rightarrow> step_outcome \<times> sync_state \<times> sync_state list" where
  "settle state e st = (if state \<noteq> SyncCatchingUp then wait_round e else Again, publish state st)"

definition run_round ::
  "index_scope list \<Rightarrow> run_input \<Rightarrow> sync_state \<times> sync_state list \<Rightarrow> step_outcome \<times> sync_state \<times> sync_state list" where
  "run_round scopes r st =
     (if ri_shutdown r then (Return (Ok ()), st)
      else
        case ri_pass r of
          PassInterrupted c \<Rightarrow> (if stopping c then Return (Ok ()) else Again, st)
        | PassDone (Ok statuses) \<Rightarrow>
            (case from_statuses scopes statuses of
               Some state \<Rightarrow> settle state (ri_wait r) st
             | None \<Rightarrow> (Return (Err incomplete_failure), replace incomplete_state st))
        | PassDone (Err error) \<Rightarrow>
            if ie_retryable error then settle (Retrying (ie_message error)) (ri_wait r) st
            else (Return (Err (IndexFailure error)), replace (Retrying (ie_message error)) st))"

fun run ::
  "index_scope list \<Rightarrow> run_input list \<Rightarrow> sync_state \<times> sync_state list \<Rightarrow> step_outcome \<times> sync_state \<times> sync_state list" where
  "run scopes [] st = (Again, st)"
| "run scopes (r # rs) st =
     (case run_round scopes r st of
        (Again, st') \<Rightarrow> run scopes rs st'
      | (Return result, st') \<Rightarrow> (Return result, st'))"

section \<open>How a run ends\<close>

definition asks_stop :: "run_input \<Rightarrow> bool" where
  "asks_stop r \<longleftrightarrow> ri_shutdown r \<or> (\<exists>c. ri_pass r = PassInterrupted c \<and> stopping c) \<or>
     (\<exists>c. ri_wait r = WaitInterrupted c \<and> stopping c)"

text \<open>Why a round ends the loop, and in which state.\<close>

definition ends :: "index_scope list \<Rightarrow> run_input \<Rightarrow> (run_failure, unit) result \<Rightarrow> sync_state \<Rightarrow> bool" where
  "ends scopes r result state \<longleftrightarrow>
     result = Ok () \<and> asks_stop r \<or>
     (\<exists>e. ri_pass r = PassDone (Err e) \<and> \<not> ie_retryable e \<and> result = Err (IndexFailure e) \<and> state = Retrying (ie_message e)) \<or>
     (\<exists>statuses. ri_pass r = PassDone (Ok statuses) \<and> from_statuses scopes statuses = None \<and>
        result = Err incomplete_failure \<and> state = incomplete_state)"

lemma settle_Return: "settle state e st = (Return result, st') \<Longrightarrow> result = Ok () \<and> (\<exists>c. e = WaitInterrupted c \<and> stopping c)"
  by (auto simp: settle_def wait_round_def split: if_splits wait_event.splits)

lemma run_round_Return:
  assumes "run_round scopes r st = (Return result, state, published)"
  shows "ends scopes r result state"
  using assms
  by (auto simp: run_round_def ends_def asks_stop_def replace_def split: if_splits pass_event.splits sum.splits option.splits prod.splits
      dest!: settle_Return)

lemma run_Return:
  assumes "run scopes rs st = (Return result, state, published)"
  shows "\<exists>r \<in> set rs. ends scopes r result state"
  using assms
proof (induction rs arbitrary: st)
  case (Cons r rs)
  obtain out state1 published1 where round: "run_round scopes r st = (out, state1, published1)" by (cases "run_round scopes r st") auto
  show ?case
  proof (cases out)
    case Again
    then show ?thesis using Cons round by auto
  next
    case (Return x)
    then have "run_round scopes r st = (Return result, state, published)" using Cons.prems round by simp
    then show ?thesis using run_round_Return by auto
  qed
qed simp

section \<open>Complete statuses\<close>

lemma one_of_each: "distinct (map f xs) \<Longrightarrow> x \<in> set xs \<Longrightarrow> length (filter (\<lambda>y. f y = f x) xs) = 1"
proof (induction xs)
  case (Cons y ys)
  have "filter (\<lambda>z. f z = f y) ys = []" if "f y \<notin> f ` set ys" using that by (auto simp: filter_empty_conv) (metis image_eqI)
  then show ?case using Cons by (auto simp: image_iff)
qed simp

context reporting_indexer
begin

text \<open>The statuses of a pass are complete: the loop never ends for their shape.\<close>

lemma statuses_complete:
  assumes run: "in_sync indexer selection s = Some (Ok statuses, s')"
    and scopes: "distinct (in_scopes indexer)" "in_scopes indexer \<noteq> []"
  shows "from_statuses (in_scopes indexer) statuses =
    Some (if list_all (\<lambda>st. ss_phase st = Ready) statuses then SyncReady else SyncCatchingUp)"
proof -
  note eq = scopes_law [OF run]
  have "length statuses = length (in_scopes indexer)" using eq by (metis length_map)
  moreover have "length (filter (\<lambda>st. ss_scope st = scope) statuses) = 1" if scope: "scope \<in> set (in_scopes indexer)" for scope
  proof -
    have "scope \<in> ss_scope ` set statuses" using scope eq by (metis set_map)
    then obtain st where "st \<in> set statuses" "scope = ss_scope st" by blast
    then show ?thesis using one_of_each [of ss_scope statuses st] scopes(1) eq by simp
  qed
  ultimately have "complete_statuses (in_scopes indexer) statuses"
    using scopes(2) by (simp add: complete_statuses_def list_all_iff)
  moreover have "\<not> list_ex (\<lambda>st. ss_phase st = Ready \<and> ss_checkpoint st = None) statuses"
    using ready_law [OF run] by (auto simp: list_ex_iff)
  ultimately show ?thesis by (simp add: from_statuses_def)
qed

end

definition demo_service ::
  "(backend, unit, block_ref) synchronizer \<times> (history_query \<Rightarrow> (backend, index_error, canonical_page) eff)" where
  "demo_service = (redb_synchronizer calm_redb demo_codecs (demo_synchronizer (Some demo_block)),
     list_transactions (redb_repository calm_redb demo_codecs demo_scope))"

lemma demo_composed:
  "\<exists>co w'. composer_new (map (\<lambda>(sy, lister). service_indexer (service_new sy lister)) [demo_service]) = Ok co \<and>
     in_sync (composer_indexer on_outside co) demo_selection demo_world =
       Some (Ok [\<lparr>ss_scope = demo_scope, ss_checkpoint = Some demo_block, ss_observed_tip = Some demo_block, ss_phase = Ready\<rparr>], w')"
  by (simp add: composer_new_Ok_iff demo_service_def composer_indexer_def composer_sync_def service_indexer_def service_new_def
    scoped_def with_filters_def sync_def sync_pass_def demo_world_def demo_selection_def demo_synchronizer_def redb_synchronizer_def
    Let_def on_outside_def on_source_def on_repo_def validate_filters_def fail_if_def demo_config_def demo_reads plan_detached_def
    advance_chain_def caught_up_def)

section \<open>Properties\<close>

text \<open>
  The loop ends successfully only on a shutdown signal, and with an error only when a pass failed
  with an error that is not retryable, whose message it publishes last, or when a pass returned
  statuses that do not cover the scopes. In particular retryable errors never end it.
\<close>

theorem run_ends_for_a_reason:
  assumes "run scopes rs st = (Return result, state, published)"
  shows "\<exists>r \<in> set rs.
    result = Ok () \<and> asks_stop r \<or>
    (\<exists>e. ri_pass r = PassDone (Err e) \<and> \<not> ie_retryable e \<and> result = Err (IndexFailure e) \<and> state = Retrying (ie_message e)) \<or>
    (\<exists>statuses. ri_pass r = PassDone (Ok statuses) \<and> from_statuses scopes statuses = None \<and>
       result = Err incomplete_failure \<and> state = incomplete_state)"
  using run_Return [OF assms] unfolding ends_def .

theorem run_ends_for_a_reason_witness:
  "\<exists>r \<in> set [\<lparr>ri_shutdown = False, ri_pass = PassDone (Err reorg_too_deep_error), ri_wait = Elapsed\<rparr>].
     ri_pass r = PassDone (Err reorg_too_deep_error) \<and> \<not> ie_retryable reorg_too_deep_error"
proof -
  have "run [demo_scope] [\<lparr>ri_shutdown = False, ri_pass = PassDone (Err reorg_too_deep_error), ri_wait = Elapsed\<rparr>]
      (SyncCatchingUp, []) =
      (Return (Err (IndexFailure reorg_too_deep_error)), Retrying (ie_message reorg_too_deep_error),
       [Retrying (ie_message reorg_too_deep_error)])"
    by (simp add: run_round_def replace_def reorg_too_deep_error_def)
  from run_ends_for_a_reason [OF this] show ?thesis by (auto simp: asks_stop_def incomplete_failure_def)
qed

text \<open>
  A composer of services always reports complete statuses: one per configured scope and none
  ready without a checkpoint. So the loop over it never ends for incomplete statuses, and it
  publishes \<open>Ready\<close> exactly when every scope has caught up.
\<close>

theorem composed_services_complete:
  assumes "composer_new (map (\<lambda>(sy, lister). service_indexer (service_new sy lister)) services) = Ok co"
    and "in_sync (composer_indexer reading co) selection s = Some (Ok statuses, s')"
  shows "map ss_scope statuses = map (\<lambda>(sy, lister). cfg_scope (sy_config sy)) services \<and>
    from_statuses (in_scopes (composer_indexer reading co)) statuses =
      Some (if list_all (\<lambda>st. ss_phase st = Ready) statuses then SyncReady else SyncCatchingUp)"
proof -
  let ?indexers = "map (\<lambda>(sy, lister). service_indexer (service_new sy lister)) services"
  have law: "reporting_indexer (composer_indexer reading co)"
    by (rule composer_reports [OF assms(1)]) (auto intro: service_reports.reporting_indexer_axioms)
  have "concat (map in_scopes ?indexers) = map (\<lambda>(sy, lister). cfg_scope (sy_config sy)) services"
    by (induction services) (auto simp: service_indexer_def service_new_def)
  then have scopes: "in_scopes (composer_indexer reading co) = map (\<lambda>(sy, lister). cfg_scope (sy_config sy)) services"
      "distinct (in_scopes (composer_indexer reading co))" "in_scopes (composer_indexer reading co) \<noteq> []"
    using assms(1) by (auto simp: composer_new_Ok_iff composer_indexer_def)
  show ?thesis
    using reporting_indexer.scopes_law [OF law assms(2)]
      reporting_indexer.statuses_complete [OF law assms(2) scopes(2,3)] scopes(1) by simp
qed

theorem composed_services_complete_witness:
  "from_statuses [demo_scope]
     [\<lparr>ss_scope = demo_scope, ss_checkpoint = Some demo_block, ss_observed_tip = Some demo_block, ss_phase = Ready\<rparr>] = Some SyncReady"
proof -
  obtain co w' where co: "composer_new (map (\<lambda>(sy, lister). service_indexer (service_new sy lister)) [demo_service]) = Ok co"
    and run: "in_sync (composer_indexer on_outside co) demo_selection demo_world =
      Some (Ok [\<lparr>ss_scope = demo_scope, ss_checkpoint = Some demo_block, ss_observed_tip = Some demo_block, ss_phase = Ready\<rparr>], w')"
    using demo_composed by blast
  from composed_services_complete [OF this] co show ?thesis
    by (auto simp: composer_new_Ok_iff composer_indexer_def service_indexer_def service_new_def demo_service_def)
qed

end
