(* ===== verification/Bitcoin_Build.thy ===== *)
theory Bitcoin_Build
  imports Chain_Values "HOL-Library.Sublist" "HOL-Library.Multiset"
begin

text \<open>
  Building Bitcoin transactions: fee rates, coin selection, draining and grouped funding
  (\<open>sdk/chains/bitcoin/src/transaction/builder.rs, operations/build.rs, operations/rules.rs,
  unsigned.rs\<close>, \<open>address.rs\<close>, \<open>error.rs\<close>). What the sources ask of the \<open>bitcoin\<close> crate is the record
  \<open>native_bitcoin\<close>: parsing addresses, classifying scripts, the dust limit of a script, and the weight of
  the unsigned transaction with given outpoints and output scripts. Amounts are 64-bit satoshis.
\<close>

section \<open>Errors and the native crate\<close>

datatype chain_error_kind =
  InvalidAddress | InvalidTransaction | InsufficientFunds | FeeUnavailable | RpcUnavailable
| SignerFailure | Rejected | NotFound | OtherChainFailure

record chain_error =
  ce_kind :: chain_error_kind
  ce_message :: string

definition invalid_transaction :: "string \<Rightarrow> chain_error" where
  "invalid_transaction message = \<lparr>ce_kind = InvalidTransaction, ce_message = message\<rparr>"

definition insufficient_funds :: "string \<Rightarrow> chain_error" where
  "insufficient_funds message = \<lparr>ce_kind = InsufficientFunds, ce_message = message\<rparr>"

datatype bitcoin_network = BitcoinMainnet | BitcoinTestnet3 | BitcoinTestnet4 | BitcoinSignet | BitcoinRegtest

type_synonym script = "u8 list"
type_synonym satoshi = u64

text \<open>A parse or network error is given by its display text.\<close>

record 'n native_bitcoin =
  nb_parse :: "string \<Rightarrow> string + 'n"
  nb_require_network :: "'n \<Rightarrow> bitcoin_network \<Rightarrow> string + 'n"
  nb_display :: "'n \<Rightarrow> string"
  nb_script_pubkey :: "'n \<Rightarrow> script"
  nb_is_p2wpkh :: "script \<Rightarrow> bool"
  nb_is_p2tr :: "script \<Rightarrow> bool"
  nb_minimal_non_dust :: "script \<Rightarrow> satoshi"
  nb_weight :: "(u8 list \<times> u32) list \<Rightarrow> script list \<Rightarrow> u64"
  nb_display_txid :: "u8 list \<Rightarrow> string"

section \<open>Addresses\<close>

text \<open>An address is its encoded text.\<close>

definition invalid_address_error :: "string \<Rightarrow> chain_error" where
  "invalid_address_error e = \<lparr>ce_kind = InvalidAddress, ce_message = ''invalid Bitcoin address: '' @ e\<rparr>"

definition wrong_network_error :: "string \<Rightarrow> chain_error" where
  "wrong_network_error e = \<lparr>ce_kind = InvalidAddress, ce_message = ''Bitcoin address is for the wrong network: '' @ e\<rparr>"

definition invalid_canonical_error :: "string \<Rightarrow> chain_error" where
  "invalid_canonical_error e = \<lparr>ce_kind = InvalidAddress, ce_message = ''invalid canonical Bitcoin address: '' @ e\<rparr>"

definition parse_for_network :: "'n native_bitcoin \<Rightarrow> string \<Rightarrow> bitcoin_network \<Rightarrow> (chain_error, string) result" where
  "parse_for_network nb text network =
     and_then (map_err invalid_address_error (nb_parse nb text)) (\<lambda>unchecked.
     and_then (map_err wrong_network_error (nb_require_network nb unchecked network)) (\<lambda>address.
     Ok (nb_display nb address)))"

definition script_pubkey_for_network :: "'n native_bitcoin \<Rightarrow> string \<Rightarrow> bitcoin_network \<Rightarrow> (chain_error, script) result" where
  "script_pubkey_for_network nb address network =
     and_then (parse_for_network nb address network) (\<lambda>canonical.
     and_then (map_err invalid_canonical_error (nb_parse nb canonical)) (\<lambda>unchecked.
     and_then (map_err wrong_network_error (nb_require_network nb unchecked network)) (\<lambda>native.
     Ok (nb_script_pubkey nb native))))"

section \<open>Fee rates and requests\<close>

definition fee_overflow_u128_error :: chain_error where
  "fee_overflow_u128_error = invalid_transaction ''Bitcoin transaction fee overflowed u128''"

definition fee_overflow_u64_error :: chain_error where
  "fee_overflow_u64_error = invalid_transaction ''Bitcoin transaction fee overflowed u64''"

definition for_vsize :: "u64 \<Rightarrow> u64 \<Rightarrow> (chain_error, u64) result" where
  "for_vsize satoshis_per_kvb virtual_size =
     and_then (ok_or
       (Option.bind (checked_mul (ucast satoshis_per_kvb :: 128 word) (ucast virtual_size)) (\<lambda>v. checked_add v 999))
       fee_overflow_u128_error) (\<lambda>numerator.
     if unat (numerator div 1000) < 2 ^ 64 then Ok (ucast (numerator div 1000)) else Err fee_overflow_u64_error)"

record spend_source =
  us_transaction_id :: "u8 list"
  us_output_index :: u32
  us_value :: satoshi
  us_script_pubkey :: script
  us_satisfaction_weight :: u64

definition outpoint :: "spend_source \<Rightarrow> u8 list \<times> u32" where
  "outpoint u = (us_transaction_id u, us_output_index u)"

text \<open>The order of displayed transaction ids, then of output indices, as a sort key.\<close>

definition outpoint_key :: "'n native_bitcoin \<Rightarrow> spend_source \<Rightarrow> string \<times> u32" where
  "outpoint_key nb u = (nb_display_txid nb (us_transaction_id u), us_output_index u)"

definition P2WPKH_SATISFACTION_WEIGHT :: u64 where "P2WPKH_SATISFACTION_WEIGHT = 109"
definition P2TR_SATISFACTION_WEIGHT :: u64 where "P2TR_SATISFACTION_WEIGHT = 67"

definition script_mismatch_error :: chain_error where
  "script_mismatch_error = invalid_transaction ''Bitcoin selected output script does not match its address''"

definition selected_kind_error :: chain_error where
  "selected_kind_error = invalid_transaction ''Bitcoin selected output must be P2WPKH or P2TR''"

definition from_exact_selection ::
  "'n native_bitcoin \<Rightarrow> bitcoin_network \<Rightarrow> string \<Rightarrow> u8 list \<Rightarrow> u32 \<Rightarrow> satoshi \<Rightarrow> script \<Rightarrow> (chain_error, spend_source) result" where
  "from_exact_selection nb network address transaction_id output_index amount script =
     and_then (script_pubkey_for_network nb address network) (\<lambda>expected.
     and_then (fail_if (script \<noteq> expected) script_mismatch_error) (\<lambda>_.
     and_then
       (if nb_is_p2wpkh nb script then Ok P2WPKH_SATISFACTION_WEIGHT
        else if nb_is_p2tr nb script then Ok P2TR_SATISFACTION_WEIGHT
        else Err selected_kind_error) (\<lambda>satisfaction_weight.
     Ok \<lparr>us_transaction_id = transaction_id, us_output_index = output_index, us_value = amount,
         us_script_pubkey = script, us_satisfaction_weight = satisfaction_weight\<rparr>)))"

record btc_output =
  bo_address :: string
  bo_value :: satoshi

record build_request =
  bq_available :: "spend_source list"
  bq_recipients :: "btc_output list"
  bq_change_address :: string
  bq_fee_rate :: u64
  bq_drain_wallet :: bool

record funding =
  fu_available :: "spend_source list"
  fu_recipients :: "btc_output list"
  fu_change_address :: string

record btc_input =
  bi_utxo :: spend_source
  bi_sequence :: u32

datatype sighash_type =
  SighashAll | SighashNone | SighashSingle | SighashAllAnyoneCanPay | SighashNoneAnyoneCanPay
| SighashSingleAnyoneCanPay | SighashTaprootDefault

record unsigned_transaction =
  ut_version :: "32 word"
  ut_lock_time :: u32
  ut_inputs :: "btc_input list"
  ut_outputs :: "btc_output list"
  ut_sighash_type :: sighash_type

text \<open>\<open>Sequence::ENABLE_RBF_NO_LOCKTIME\<close> is \<open>0xFFFFFFFD\<close>.\<close>

definition from_selected :: "spend_source list \<Rightarrow> btc_output list \<Rightarrow> unsigned_transaction" where
  "from_selected utxos outputs =
     \<lparr>ut_version = 2, ut_lock_time = 0,
      ut_inputs = map (\<lambda>u. \<lparr>bi_utxo = u, bi_sequence = 0xFFFFFFFD\<rparr>) utxos,
      ut_outputs = outputs, ut_sighash_type = SighashAll\<rparr>"

section \<open>Rules and fees\<close>

definition dust_error :: "satoshi \<Rightarrow> chain_error" where
  "dust_error minimum = invalid_transaction
     (''Bitcoin recipient output is dust: minimum is '' @ to_digits (unat minimum) @ '' satoshis'')"

definition checked_output ::
  "'n native_bitcoin \<Rightarrow> bitcoin_network \<Rightarrow> btc_output \<Rightarrow> bool \<Rightarrow> (chain_error, script) result" where
  "checked_output nb network output allow_zero =
     and_then (script_pubkey_for_network nb (bo_address output) network) (\<lambda>script.
     let minimum = nb_minimal_non_dust nb script in
     and_then (fail_if (\<not> allow_zero \<and> bo_value output < minimum) (dust_error minimum)) (\<lambda>_.
     Ok script))"

fun checked_sum :: "u64 \<Rightarrow> u64 list \<Rightarrow> u64 option" where
  "checked_sum sum1 [] = Some sum1"
| "checked_sum sum1 (v # vs) = Option.bind (checked_add sum1 v) (\<lambda>t. checked_sum t vs)"

definition SEGWIT_MARKER_FLAG_WEIGHT :: u64 where "SEGWIT_MARKER_FLAG_WEIGHT = 2"

definition satisfaction_overflow_error :: chain_error where
  "satisfaction_overflow_error = invalid_transaction ''Bitcoin satisfaction weight overflowed u64''"

definition weight_overflow_error :: chain_error where
  "weight_overflow_error = invalid_transaction ''Bitcoin transaction weight overflowed u64''"

definition div_ceil4 :: "u64 \<Rightarrow> u64" where
  "div_ceil4 w = (if w mod 4 = 0 then w div 4 else w div 4 + 1)"

definition predicted_fee ::
  "'n native_bitcoin \<Rightarrow> spend_source list \<Rightarrow> script list \<Rightarrow> u64 \<Rightarrow> (chain_error, u64) result" where
  "predicted_fee nb inputs output_scripts fee_rate =
     and_then (ok_or (checked_sum 0 (map us_satisfaction_weight inputs)) satisfaction_overflow_error) (\<lambda>satisfaction_weight.
     and_then (ok_or
       (Option.bind (checked_add (nb_weight nb (map outpoint inputs) output_scripts) SEGWIT_MARKER_FLAG_WEIGHT)
         (\<lambda>w. checked_add w satisfaction_weight))
       weight_overflow_error) (\<lambda>weight.
     for_vsize fee_rate (div_ceil4 weight)))"

section \<open>Building one transfer\<close>

definition no_utxos_error :: chain_error where
  "no_utxos_error = insufficient_funds ''Bitcoin transfer has no available UTXOs''"
definition no_recipients_error :: chain_error where
  "no_recipients_error = invalid_transaction ''Bitcoin transfer has no recipients''"
definition zero_fee_rate_error :: chain_error where
  "zero_fee_rate_error = \<lparr>ce_kind = FeeUnavailable, ce_message = ''Bitcoin fee rate must be greater than zero''\<rparr>"
definition duplicate_utxo_error :: chain_error where
  "duplicate_utxo_error = invalid_transaction ''Bitcoin transfer contains a duplicate UTXO''"
definition input_kind_error :: chain_error where
  "input_kind_error = invalid_transaction ''Bitcoin wallet supports P2WPKH and P2TR inputs only''"
definition drain_recipients_error :: chain_error where
  "drain_recipients_error = invalid_transaction ''Bitcoin drain transfer requires exactly one recipient''"
definition input_overflow_error :: chain_error where
  "input_overflow_error = invalid_transaction ''Bitcoin selected input amount overflowed u64''"
definition recipient_overflow_error :: chain_error where
  "recipient_overflow_error = invalid_transaction ''Bitcoin recipient amount overflowed u64''"
definition required_overflow_error :: chain_error where
  "required_overflow_error = invalid_transaction ''Bitcoin amount and fee overflowed u64''"
definition drain_fee_error :: chain_error where
  "drain_fee_error = insufficient_funds ''Bitcoin UTXOs cannot cover the drain transaction fee''"
definition drain_dust_error :: "satoshi \<Rightarrow> chain_error" where
  "drain_dust_error minimum = insufficient_funds
     (''Bitcoin drain output is dust: minimum is '' @ to_digits (unat minimum) @ '' satoshis'')"
definition insufficient_error :: "satoshi \<Rightarrow> chain_error" where
  "insufficient_error recipient_total = insufficient_funds
     (''insufficient Bitcoin funds for '' @ to_digits (unat recipient_total) @ '' satoshis plus network fee'')"

text \<open>Larger values first, then by transaction id and output index.\<close>

definition selection_key :: "spend_source \<Rightarrow> u64 \<times> u8 list \<times> u32" where
  "selection_key u = (- 1 - us_value u, us_transaction_id u, us_output_index u)"

text \<open>The sum of the inputs taken so far, checked at every addition.\<close>

fun select_coins ::
  "'n native_bitcoin \<Rightarrow> build_request \<Rightarrow> script list \<Rightarrow> script \<Rightarrow> satoshi \<Rightarrow> spend_source list \<Rightarrow> satoshi \<Rightarrow>
     spend_source list \<Rightarrow> (chain_error, unsigned_transaction) result" where
  "select_coins nb q recipient_scripts change_script recipient_total selected selected_total [] =
     Err (insufficient_error recipient_total)"
| "select_coins nb q recipient_scripts change_script recipient_total selected selected_total (utxo # rest) =
     and_then (ok_or (checked_add selected_total (us_value utxo)) input_overflow_error) (\<lambda>sum1.
     let taken = selected @ [utxo] in
     and_then (predicted_fee nb taken recipient_scripts (bq_fee_rate q)) (\<lambda>fee_without_change.
     and_then (ok_or (checked_add recipient_total fee_without_change) required_overflow_error) (\<lambda>required.
     if sum1 < required then
       select_coins nb q recipient_scripts change_script recipient_total taken sum1 rest
     else
       and_then (predicted_fee nb taken (recipient_scripts @ [change_script]) (bq_fee_rate q)) (\<lambda>fee_with_change.
       let change = Option.bind (checked_sub sum1 recipient_total) (\<lambda>v. checked_sub v fee_with_change);
           kept = (case change of Some v \<Rightarrow> if v \<ge> nb_minimal_non_dust nb change_script then Some v else None | None \<Rightarrow> None) in
       Ok (from_selected taken
         (bq_recipients q @
          (case kept of Some v \<Rightarrow> [\<lparr>bo_address = bq_change_address q, bo_value = v\<rparr>] | None \<Rightarrow> [])))))))"

definition build_drain ::
  "'n native_bitcoin \<Rightarrow> build_request \<Rightarrow> script list \<Rightarrow> (chain_error, unsigned_transaction) result" where
  "build_drain nb q recipient_scripts =
     and_then (fail_if (length (bq_recipients q) \<noteq> 1) drain_recipients_error) (\<lambda>_.
     let available = sort_key (outpoint_key nb) (bq_available q) in
     and_then (ok_or (checked_sum 0 (map us_value available)) input_overflow_error) (\<lambda>selected_total.
     and_then (predicted_fee nb available recipient_scripts (bq_fee_rate q)) (\<lambda>fee.
     and_then (ok_or (checked_sub selected_total fee) drain_fee_error) (\<lambda>amount.
     let minimum = nb_minimal_non_dust nb (hd recipient_scripts) in
     and_then (fail_if (amount < minimum) (drain_dust_error minimum)) (\<lambda>_.
     Ok (from_selected available ((bq_recipients q)[0 := (bq_recipients q ! 0)\<lparr>bo_value := amount\<rparr>])))))))"

definition build :: "'n native_bitcoin \<Rightarrow> bitcoin_network \<Rightarrow> build_request \<Rightarrow> (chain_error, unsigned_transaction) result" where
  "build nb network q =
     and_then (fail_if (bq_available q = []) no_utxos_error) (\<lambda>_.
     and_then (fail_if (bq_recipients q = []) no_recipients_error) (\<lambda>_.
     and_then (fail_if (bq_fee_rate q = 0) zero_fee_rate_error) (\<lambda>_.
     and_then (fail_if (\<not> distinct (map outpoint (bq_available q))) duplicate_utxo_error) (\<lambda>_.
     and_then (fail_if
       (list_ex (\<lambda>u. \<not> nb_is_p2wpkh nb (us_script_pubkey u) \<and> \<not> nb_is_p2tr nb (us_script_pubkey u)) (bq_available q))
       input_kind_error) (\<lambda>_.
     and_then (collect (\<lambda>o1. checked_output nb network o1 (bq_drain_wallet q)) (bq_recipients q)) (\<lambda>recipient_scripts.
     and_then (script_pubkey_for_network nb (bq_change_address q) network) (\<lambda>change_script.
     if bq_drain_wallet q then build_drain nb q recipient_scripts
     else
       and_then (ok_or (checked_sum 0 (map bo_value (bq_recipients q))) recipient_overflow_error) (\<lambda>recipient_total.
       select_coins nb q recipient_scripts change_script recipient_total [] 0
         (sort_key selection_key (bq_available q))))))))))"

section \<open>Grouped funding\<close>

definition grouped_sources_error :: chain_error where
  "grouped_sources_error = invalid_transaction ''Bitcoin grouped transfer needs sources and a positive fee rate''"
definition group_empty_error :: chain_error where
  "group_empty_error = invalid_transaction ''each Bitcoin grouped source needs inputs and recipients''"
definition group_funds_error :: chain_error where
  "group_funds_error = insufficient_funds ''a Bitcoin grouped source cannot fund its requested outputs''"
definition grouped_fee_error :: chain_error where
  "grouped_fee_error = insufficient_funds ''Bitcoin grouped sources cannot cover the network fee''"

text \<open>A group with its inputs in order, what it does not spend on recipients, and its change script.\<close>

definition fund_group ::
  "'n native_bitcoin \<Rightarrow> bitcoin_network \<Rightarrow> funding \<Rightarrow> (chain_error, spend_source list \<times> satoshi \<times> script) result" where
  "fund_group nb network g =
     and_then (fail_if (fu_available g = [] \<or> fu_recipients g = []) group_empty_error) (\<lambda>_.
     let available = sort_key (outpoint_key nb) (fu_available g) in
     and_then (ok_or (checked_sum 0 (map us_value available)) input_overflow_error) (\<lambda>input.
     and_then (ok_or (checked_sum 0 (map bo_value (fu_recipients g))) recipient_overflow_error) (\<lambda>output.
     and_then (ok_or (checked_sub input output) group_funds_error) (\<lambda>surplus.
     and_then (script_pubkey_for_network nb (fu_change_address g) network) (\<lambda>script.
     Ok (available, surplus, script))))))"

text \<open>Each source in order pays what it can of the fee that is left.\<close>

fun take_fee :: "u64 list \<Rightarrow> u64 \<Rightarrow> u64 list \<times> u64" where
  "take_fee [] remaining_fee = ([], remaining_fee)"
| "take_fee (v # vs) remaining_fee =
     (let contribution = min v remaining_fee;
          (rest, unpaid) = take_fee vs (remaining_fee - contribution) in
      ((v - contribution) # rest, unpaid))"

definition allocate_fee :: "u64 list \<Rightarrow> u64 \<Rightarrow> (chain_error, u64 list) result" where
  "allocate_fee surplus fee =
     (let (remaining, unpaid) = take_fee surplus fee in
      and_then (fail_if (unpaid \<noteq> 0) grouped_fee_error) (\<lambda>_. Ok remaining))"

definition keeps_change :: "'n native_bitcoin \<Rightarrow> u64 list \<Rightarrow> script list \<Rightarrow> bool list \<Rightarrow> bool list" where
  "keeps_change nb remaining change active =
     map (\<lambda>(v, script, was_active). was_active \<and> v \<ge> nb_minimal_non_dust nb script) (zip remaining (zip change active))"

definition active_scripts :: "script list \<Rightarrow> bool list \<Rightarrow> script list" where
  "active_scripts change active = map fst (filter snd (zip change active))"

lemma length_keeps_change [simp]:
  "length (keeps_change nb remaining change active) = min (length remaining) (min (length change) (length active))"
  by (simp add: keeps_change_def)

lemma keeps_change_nth:
  "i < length (keeps_change nb remaining change active) \<Longrightarrow> keeps_change nb remaining change active ! i \<Longrightarrow> active ! i"
  by (simp add: keeps_change_def)

lemma fewer_true:
  assumes "length xs = length ys" "xs \<noteq> ys" "\<And>i. i < length xs \<Longrightarrow> xs ! i \<Longrightarrow> ys ! i"
  shows "length (filter id xs) < length (filter id ys)"
  using assms
proof (induction xs ys rule: list_induct2)
  case (Cons x xs y ys)
  have tail: "\<And>i. i < length xs \<Longrightarrow> xs ! i \<Longrightarrow> ys ! i" and head: "x \<Longrightarrow> y" using Cons.prems(2) by fastforce+
  show ?case
  proof (cases "xs = ys")
    case True
    then show ?thesis using Cons.prems(1) head by (auto simp: id_def)
  next
    case False
    then have "length (filter id xs) < length (filter id ys)" using Cons.IH tail by blast
    then show ?thesis using head by (auto simp: id_def)
  qed
qed simp

function settle_change ::
  "'n native_bitcoin \<Rightarrow> spend_source list \<Rightarrow> script list \<Rightarrow> u64 \<Rightarrow> u64 list \<Rightarrow> script list \<Rightarrow> bool list \<Rightarrow>
     (chain_error, u64 list \<times> bool list) result" where
  "settle_change nb available recipient_scripts fee_rate surplus change active =
     (case predicted_fee nb available (recipient_scripts @ active_scripts change active) fee_rate of
        Err e \<Rightarrow> Err e
      | Ok fee \<Rightarrow>
          (case allocate_fee surplus fee of
             Err e \<Rightarrow> Err e
           | Ok remaining \<Rightarrow>
               let now = keeps_change nb remaining change active in
               if now = active then Ok (remaining, active)
               else settle_change nb available recipient_scripts fee_rate surplus change now))"
  by pat_completeness auto

termination
proof (relation "measures [\<lambda>(_, _, _, _, _, _, active). length active,
    \<lambda>(_, _, _, _, _, _, active). length (filter id active)]", goal_cases)
  case (2 nb available recipient_scripts fee_rate surplus change active fee remaining now)
  have "length now = length active \<Longrightarrow> length (filter id now) < length (filter id active)"
    using 2 keeps_change_nth [of _ nb remaining change active] by (intro fewer_true) auto
  then show ?case using 2(3) by auto
qed simp

definition build_grouped ::
  "'n native_bitcoin \<Rightarrow> bitcoin_network \<Rightarrow> funding list \<Rightarrow> u64 \<Rightarrow> (chain_error, unsigned_transaction) result" where
  "build_grouped nb network groups fee_rate =
     and_then (fail_if (groups = [] \<or> fee_rate = 0) grouped_sources_error) (\<lambda>_.
     and_then (collect (fund_group nb network) groups) (\<lambda>funded.
     let available = concat (map fst funded);
         recipients = concat (map fu_recipients groups);
         surplus = map (\<lambda>(_, v, _). v) funded;
         change = map (\<lambda>(_, _, script). script) funded in
     and_then (fail_if (\<not> distinct (map outpoint available)) duplicate_utxo_error) (\<lambda>_.
     and_then (collect (\<lambda>o1. checked_output nb network o1 False) recipients) (\<lambda>recipient_scripts.
     and_then (settle_change nb available recipient_scripts fee_rate surplus change
       (map (\<lambda>(v, script). v \<ge> nb_minimal_non_dust nb script) (zip surplus change))) (\<lambda>(remaining, active).
     Ok (from_selected available
       (recipients @
        map (\<lambda>((g, v), _). \<lparr>bo_address = fu_change_address g, bo_value = v\<rparr>)
          (filter snd (zip (zip groups remaining) active)))))))))"

section \<open>Fees\<close>

lemma for_vsize_value:
  "for_vsize rate vsize =
     (let fee = (unat rate * unat vsize + 999) div 1000 in
      if fee < 2 ^ 64 then Ok (of_nat fee) else Err fee_overflow_u64_error)"
proof -
  let ?a = "ucast rate :: 128 word" and ?b = "ucast vsize :: 128 word"
  have u: "unat ?a = unat rate" "unat ?b = unat vsize" by (simp_all add: unat_ucast_up)
  have small: "unat rate \<le> 2 ^ 64 - 1" "unat vsize \<le> 2 ^ 64 - 1" using unat_less [of rate] unat_less [of vsize] by simp_all
  then have bound: "unat rate * unat vsize + 999 < 2 ^ 128"
    using mult_le_mono [OF small] by simp
  have mul: "checked_mul ?a ?b = Some (?a * ?b)" "unat (?a * ?b) = unat rate * unat vsize"
    using bound u by (simp_all add: checked_mul_def unat_word_ariths)
  have add: "checked_add (?a * ?b) 999 = Some (?a * ?b + 999)" "unat (?a * ?b + 999) = unat rate * unat vsize + 999"
    using bound mul(2) by (simp_all add: checked_add_SomeD unat_word_ariths)
  have "unat ((?a * ?b + 999) div 1000) = (unat rate * unat vsize + 999) div 1000"
    using add(2) by (simp add: unat_div)
  then show ?thesis
    using mul(1) add(1) by (simp add: for_vsize_def Let_def unsigned_ucast_eq take_bit_nat_eq_self word_unat_eq_iff unsigned_of_nat)
qed

section \<open>Sums\<close>

definition sats :: "u64 list \<Rightarrow> nat" where
  "sats vs = sum_list (map unat vs)"

lemma sats_simps [simp]: "sats [] = 0" "sats (v # vs) = unat v + sats vs" "sats (vs @ ws) = sats vs + sats ws"
  by (simp_all add: sats_def)

lemma checked_sum_Some_iff: "checked_sum t vs = Some s \<longleftrightarrow> unat s = unat t + sats vs"
proof (induction vs arbitrary: t)
  case (Cons v vs)
  show ?case
  proof
    assume "checked_sum t (v # vs) = Some s"
    then show "unat s = unat t + sats (v # vs)" by (auto simp: bind_eq_Some_conv Cons.IH checked_add_SomeD)
  next
    assume s: "unat s = unat t + sats (v # vs)"
    then have "unat (t + v) = unat t + unat v" using unat_less [of s] by (simp add: unat_word_ariths)
    then have "checked_add t v = Some (t + v)" by (simp add: checked_add_SomeD)
    then show "checked_sum t (v # vs) = Some s" using s \<open>unat (t + v) = _\<close> by (simp add: Cons.IH)
  qed
qed (auto simp: word_unat_eq_iff)

lemma sats_map_sort [simp]: "sats (map f (sort_key k xs)) = sats (map f xs)"
proof -
  have "mset (map unat (map f (sort_key k xs))) = mset (map unat (map f xs))" by simp
  then show ?thesis unfolding sats_def by (metis sum_mset_sum_list)
qed

lemma take_fee_effect:
  assumes "take_fee vs fee = (rest, unpaid)"
  shows "sats vs + unat unpaid = sats rest + unat fee \<and> unpaid \<le> fee \<and> list_all2 (\<le>) rest vs"
  using assms
proof (induction vs fee arbitrary: rest rule: take_fee.induct)
  case (2 v vs fee)
  let ?c = "min v fee"
  obtain rest' where step: "take_fee vs (fee - ?c) = (rest', unpaid)" "rest = (v - ?c) # rest'"
    using 2(2) by (auto simp: Let_def split: prod.splits)
  note IH = 2(1) [OF refl step(1)]
  have c: "unat (v - ?c) = unat v - unat ?c" "unat (fee - ?c) = unat fee - unat ?c" "unat ?c \<le> unat v" "unat ?c \<le> unat fee"
    by (auto simp: min_def unat_sub word_le_nat_alt not_le)
  have "sats vs + unat unpaid + unat ?c = sats rest' + unat fee" using IH c(2,4) by linarith
  then have "sats (v # vs) + unat unpaid = sats rest + unat fee" using step(2) c(1,3) by simp
  moreover have "unpaid \<le> fee" using IH c(2,4) unfolding word_le_nat_alt by linarith
  moreover have "v - ?c \<le> v" using c(1) by (simp add: word_le_nat_alt)
  ultimately show ?case using IH step(2) by simp
qed simp

lemma allocate_fee_Ok:
  assumes "allocate_fee surplus fee = Ok remaining"
  shows "sats surplus = sats remaining + unat fee" "list_all2 (\<le>) remaining surplus" "length remaining = length surplus"
proof -
  obtain unpaid where "take_fee surplus fee = (remaining, unpaid)" "unpaid = 0"
    using assms by (auto simp: allocate_fee_def and_then_Ok_iff fail_if_iff split: prod.splits)
  then show "sats surplus = sats remaining + unat fee" "list_all2 (\<le>) remaining surplus" "length remaining = length surplus"
    using take_fee_effect [of surplus fee remaining unpaid] by (auto dest: list_all2_lengthD)
qed

section \<open>Transactions that pay their fee\<close>

definition output_scripts :: "'n native_bitcoin \<Rightarrow> bitcoin_network \<Rightarrow> btc_output list \<Rightarrow> (chain_error, script list) result" where
  "output_scripts nb network outputs = collect (\<lambda>o1. script_pubkey_for_network nb (bo_address o1) network) outputs"

text \<open>
  The inputs are distinct and cover the outputs plus a fee that is at least what the rate asks for
  exactly these inputs and output scripts; no output is below the dust limit of its script.
\<close>

definition pays_its_fee :: "'n native_bitcoin \<Rightarrow> bitcoin_network \<Rightarrow> u64 \<Rightarrow> unsigned_transaction \<Rightarrow> bool" where
  "pays_its_fee nb network rate tx \<longleftrightarrow>
     (let utxos = map bi_utxo (ut_inputs tx) in
      distinct (map outpoint utxos) \<and>
      (\<exists>scripts fee. output_scripts nb network (ut_outputs tx) = Ok scripts \<and>
         predicted_fee nb utxos scripts rate = Ok fee \<and>
         sats (map bo_value (ut_outputs tx)) + unat fee \<le> sats (map us_value utxos) \<and>
         list_all2 (\<lambda>o1 script. nb_minimal_non_dust nb script \<le> bo_value o1) (ut_outputs tx) scripts))"

lemma from_selected_simps [simp]:
  "map bi_utxo (ut_inputs (from_selected utxos outputs)) = utxos" "ut_outputs (from_selected utxos outputs) = outputs"
  by (simp_all add: from_selected_def comp_def)

lemma pays_from_selected:
  assumes "distinct (map outpoint utxos)" "output_scripts nb network outputs = Ok scripts"
    "predicted_fee nb utxos scripts rate = Ok fee" "sats (map bo_value outputs) + unat fee \<le> sats (map us_value utxos)"
    "list_all2 (\<lambda>o1 script. nb_minimal_non_dust nb script \<le> bo_value o1) outputs scripts"
  shows "pays_its_fee nb network rate (from_selected utxos outputs)"
  using assms by (simp add: pays_its_fee_def Let_def)

lemma checked_outputs_Ok:
  assumes "collect (\<lambda>o1. checked_output nb network o1 allow_zero) outputs = Ok scripts"
  shows "output_scripts nb network outputs = Ok scripts"
    "\<not> allow_zero \<Longrightarrow> list_all2 (\<lambda>o1 script. nb_minimal_non_dust nb script \<le> bo_value o1) outputs scripts"
proof -
  have all: "list_all2 (\<lambda>o1 script. checked_output nb network o1 allow_zero = Ok script) outputs scripts"
    using assms by (simp add: collect_Ok_iff)
  show "output_scripts nb network outputs = Ok scripts"
    unfolding output_scripts_def collect_Ok_iff
    by (rule list_all2_mono [OF all]) (auto simp: checked_output_def Let_def and_then_Ok_iff)
  show "list_all2 (\<lambda>o1 script. nb_minimal_non_dust nb script \<le> bo_value o1) outputs scripts" if "\<not> allow_zero"
    by (rule list_all2_mono [OF all]) (use that in \<open>auto simp: checked_output_def Let_def and_then_Ok_iff fail_if_iff not_less\<close>)
qed

lemma output_scripts_append:
  assumes "output_scripts nb network outputs = Ok scripts" "script_pubkey_for_network nb address network = Ok script"
  shows "output_scripts nb network (outputs @ [\<lparr>bo_address = address, bo_value = v\<rparr>]) = Ok (scripts @ [script])"
  using assms unfolding output_scripts_def collect_Ok_iff by (auto intro!: list_all2_appendI)

lemma select_coins_pays:
  assumes "select_coins nb q scripts change_script recipient_total selected selected_total rest = Ok tx"
    and "distinct (map outpoint (selected @ rest))" "unat selected_total = sats (map us_value selected)"
    and "unat recipient_total = sats (map bo_value (bq_recipients q))"
    and "output_scripts nb network (bq_recipients q) = Ok scripts"
    and "script_pubkey_for_network nb (bq_change_address q) network = Ok change_script"
    and "list_all2 (\<lambda>o1 script. nb_minimal_non_dust nb script \<le> bo_value o1) (bq_recipients q) scripts"
  shows "pays_its_fee nb network (bq_fee_rate q) tx \<and>
    (\<exists>used change. map bi_utxo (ut_inputs tx) = selected @ used \<and> prefix used rest \<and> used \<noteq> [] \<and>
       ut_outputs tx = bq_recipients q @ change \<and> length change \<le> 1 \<and> list_all (\<lambda>o1. bo_address o1 = bq_change_address q) change)"
  using assms(1-3)
proof (induction rest arbitrary: selected selected_total)
  case (Cons utxo rest)
  let ?taken = "selected @ [utxo]"
  obtain total fee0 required where
      total: "checked_add selected_total (us_value utxo) = Some total"
    and fee0: "predicted_fee nb ?taken scripts (bq_fee_rate q) = Ok fee0"
    and required: "checked_add recipient_total fee0 = Some required"
    using Cons.prems(1) by (auto simp: and_then_Ok_iff ok_or_iff Let_def)
  have sum: "unat total = sats (map us_value ?taken)" using total Cons.prems(3) by (simp add: checked_add_SomeD)
  have dist: "distinct (map outpoint ?taken)" using Cons.prems(2) by auto
  show ?case
  proof (cases "total < required")
    case True
    then have rec: "select_coins nb q scripts change_script recipient_total ?taken total rest = Ok tx"
      using Cons.prems(1) total fee0 required by (simp add: Let_def)
    obtain used change where IH: "pays_its_fee nb network (bq_fee_rate q) tx"
        "map bi_utxo (ut_inputs tx) = ?taken @ used" "prefix used rest" "ut_outputs tx = bq_recipients q @ change"
        "length change \<le> 1" "list_all (\<lambda>o1. bo_address o1 = bq_change_address q) change"
      using Cons.IH [OF rec _ sum] Cons.prems(2) by auto
    then show ?thesis by (intro conjI exI [where x = "utxo # used"] exI [where x = change]) auto
  next
    case False
    then have enough: "sats (map bo_value (bq_recipients q)) + unat fee0 \<le> sats (map us_value ?taken)"
      using required sum assms(4) by (simp add: word_less_nat_alt checked_add_SomeD)
    obtain fee1 where fee1: "predicted_fee nb ?taken (scripts @ [change_script]) (bq_fee_rate q) = Ok fee1"
      using Cons.prems(1) total fee0 required False by (auto simp: Let_def and_then_Ok_iff)
    let ?change = "Option.bind (checked_sub total recipient_total) (\<lambda>v. checked_sub v fee1)"
    show ?thesis
    proof (cases "\<exists>v. ?change = Some v \<and> v \<ge> nb_minimal_non_dust nb change_script")
      case True
      then obtain v where v: "?change = Some v" "v \<ge> nb_minimal_non_dust nb change_script" by blast
      let ?out = "bq_recipients q @ [\<lparr>bo_address = bq_change_address q, bo_value = v\<rparr>]"
      have tx: "tx = from_selected ?taken ?out"
        using Cons.prems(1) total fee0 required False fee1 v by (simp add: Let_def)
      have "unat total = unat recipient_total + unat fee1 + unat v"
        using v(1) by (auto simp: bind_eq_Some_conv checked_sub_SomeD)
      then have "sats (map bo_value ?out) + unat fee1 \<le> sats (map us_value ?taken)" using sum assms(4) by simp
      moreover have "list_all2 (\<lambda>o1 script. nb_minimal_non_dust nb script \<le> bo_value o1) ?out (scripts @ [change_script])"
        using assms(7) v(2) by (auto intro!: list_all2_appendI)
      ultimately have "pays_its_fee nb network (bq_fee_rate q) tx"
        unfolding tx by (intro pays_from_selected [OF dist output_scripts_append [OF assms(5,6)] fee1])
      then show ?thesis using tx
        by (intro conjI exI [where x = "[utxo]"] exI [where x = "[\<lparr>bo_address = bq_change_address q, bo_value = v\<rparr>]"]) auto
    next
      case False
      have tx: "tx = from_selected ?taken (bq_recipients q)"
        using Cons.prems(1) total fee0 required \<open>\<not> total < required\<close> fee1 False by (auto simp: Let_def split: option.splits if_splits)
      have "pays_its_fee nb network (bq_fee_rate q) tx"
        unfolding tx by (rule pays_from_selected [OF dist assms(5) fee0 enough assms(7)])
      then show ?thesis using tx by (intro conjI exI [where x = "[utxo]"] exI [where x = "[]"]) auto
    qed
  qed
qed simp

lemma distinct_map_sort [simp]: "distinct (map f (sort_key k xs)) \<longleftrightarrow> distinct (map f xs)"
proof -
  have "mset (map f (sort_key k xs)) = mset (map f xs)" by simp
  then show ?thesis using mset_eq_imp_distinct_iff by blast
qed

lemma build_drain_pays:
  assumes "build_drain nb q scripts = Ok tx" "distinct (map outpoint (bq_available q))"
    and "output_scripts nb network (bq_recipients q) = Ok scripts"
  shows "pays_its_fee nb network (bq_fee_rate q) tx"
    "map bi_utxo (ut_inputs tx) = sort_key (outpoint_key nb) (bq_available q)"
    "\<exists>v. ut_outputs tx = [(hd (bq_recipients q))\<lparr>bo_value := v\<rparr>] \<and> length (bq_recipients q) = 1"
proof -
  let ?avail = "sort_key (outpoint_key nb) (bq_available q)"
  obtain total fee v where
      one: "length (bq_recipients q) = 1"
    and sum0: "checked_sum 0 (map us_value ?avail) = Some total"
    and fee: "predicted_fee nb ?avail scripts (bq_fee_rate q) = Ok fee"
    and sub: "checked_sub total fee = Some v" and dust: "nb_minimal_non_dust nb (hd scripts) \<le> v"
    and tx: "tx = from_selected ?avail ((bq_recipients q)[0 := (bq_recipients q ! 0)\<lparr>bo_value := v\<rparr>])"
    using assms(1)
    by (auto simp: build_drain_def Let_def and_then_Ok_iff ok_or_iff fail_if_iff not_less)
  have total: "unat total = sats (map us_value (bq_available q))" "unat total = unat fee + unat v"
    using sum0 sub by (simp_all add: checked_sum_Some_iff checked_sub_SomeD)
  from one obtain r where r: "bq_recipients q = [r]" by (cases "bq_recipients q") auto
  then obtain script where script: "scripts = [script]" "script_pubkey_for_network nb (bo_address r) network = Ok script"
    using assms(3) by (auto simp: output_scripts_def and_then_Ok_iff)
  have out: "output_scripts nb network [r\<lparr>bo_value := v\<rparr>] = Ok scripts"
    using script by (simp add: output_scripts_def collect_Ok_iff)
  have "pays_its_fee nb network (bq_fee_rate q) (from_selected ?avail [r\<lparr>bo_value := v\<rparr>])"
    by (rule pays_from_selected [OF _ out fee]) (use assms(2) total dust script in auto)
  then show "pays_its_fee nb network (bq_fee_rate q) tx" using tx r by simp
  show "map bi_utxo (ut_inputs tx) = ?avail" using tx by simp
  show "\<exists>v. ut_outputs tx = [(hd (bq_recipients q))\<lparr>bo_value := v\<rparr>] \<and> length (bq_recipients q) = 1" using tx r by auto
qed

section \<open>Grouped transactions that pay their fee\<close>

lemma fund_group_Ok:
  assumes "fund_group nb network g = Ok (available, surplus, script)"
  shows "available = sort_key (outpoint_key nb) (fu_available g)"
    "sats (map us_value available) = sats (map bo_value (fu_recipients g)) + unat surplus"
    "script_pubkey_for_network nb (fu_change_address g) network = Ok script"
  using assms
  by (auto simp: fund_group_def Let_def and_then_Ok_iff ok_or_iff checked_sum_Some_iff checked_sub_SomeD)

lemma settle_change_Ok:
  assumes "settle_change nb available scripts rate surplus change active = Ok (remaining, kept)"
  shows "\<exists>fee. predicted_fee nb available (scripts @ active_scripts change kept) rate = Ok fee \<and>
    allocate_fee surplus fee = Ok remaining \<and> kept = keeps_change nb remaining change kept"
  using assms
proof (induction nb available scripts rate surplus change active rule: settle_change.induct)
  case (1 nb available scripts rate surplus change active)
  obtain fee remaining' where step: "predicted_fee nb available (scripts @ active_scripts change active) rate = Ok fee"
      "allocate_fee surplus fee = Ok remaining'"
    using 1(2) by (subst (asm) settle_change.simps) (auto split: sum.splits)
  show ?case
  proof (cases "keeps_change nb remaining' change active = active")
    case True
    then show ?thesis using 1(2) step by (subst (asm) settle_change.simps) (auto simp: Let_def)
  next
    case False
    have "settle_change nb available scripts rate surplus change (keeps_change nb remaining' change active) = Ok (remaining, kept)"
      using 1(2) step False by (subst (asm) settle_change.simps) (auto simp: Let_def)
    from 1(1) [OF step refl False this] show ?thesis .
  qed
qed

text \<open>The change outputs of the groups that keep one.\<close>

definition change_outputs :: "funding list \<Rightarrow> u64 list \<Rightarrow> bool list \<Rightarrow> btc_output list" where
  "change_outputs groups remaining kept =
     map (\<lambda>((g, v), _). \<lparr>bo_address = fu_change_address g, bo_value = v\<rparr>) (filter snd (zip (zip groups remaining) kept))"

lemma change_outputs_Cons:
  "change_outputs (g # gs) (v # vs) (k # ks) =
     (if k then [\<lparr>bo_address = fu_change_address g, bo_value = v\<rparr>] else []) @ change_outputs gs vs ks"
  by (simp add: change_outputs_def)

lemma change_outputs_ok:
  assumes "list_all2 (\<lambda>g script. script_pubkey_for_network nb (fu_change_address g) network = Ok script) groups change"
    and "length remaining = length groups" "length kept = length groups"
    and "kept = keeps_change nb remaining change kept"
  shows "output_scripts nb network (change_outputs groups remaining kept) = Ok (active_scripts change kept) \<and>
    sats (map bo_value (change_outputs groups remaining kept)) \<le> sats remaining \<and>
    list_all2 (\<lambda>o1 script. nb_minimal_non_dust nb script \<le> bo_value o1) (change_outputs groups remaining kept) (active_scripts change kept)"
  using assms
proof (induction groups change arbitrary: remaining kept rule: list_all2_induct)
  case Nil
  then show ?case by (simp add: change_outputs_def active_scripts_def output_scripts_def)
next
  case (Cons g gs script scripts)
  obtain v vs k ks where lists: "remaining = v # vs" "kept = k # ks" "length vs = length gs" "length ks = length gs"
    using Cons.prems(1,2) by (auto simp: length_Suc_conv)
  have k: "k \<Longrightarrow> nb_minimal_non_dust nb script \<le> v" "ks = keeps_change nb vs scripts ks"
    using Cons.prems(3) lists by (auto simp: keeps_change_def)
  have IH: "output_scripts nb network (change_outputs gs vs ks) = Ok (active_scripts scripts ks)"
      "sats (map bo_value (change_outputs gs vs ks)) \<le> sats vs"
      "list_all2 (\<lambda>o1 script. nb_minimal_non_dust nb script \<le> bo_value o1) (change_outputs gs vs ks) (active_scripts scripts ks)"
    using Cons.IH [OF lists(3,4) k(2)] by auto
  then show ?case
    using lists k(1) Cons.hyps(1)
    by (auto simp: change_outputs_Cons active_scripts_def output_scripts_def collect_Ok_iff)
qed

lemma settle_change_length:
  assumes "settle_change nb available scripts rate surplus change active = Ok (remaining, kept)"
    and "length surplus = length active" "length change = length active"
  shows "length kept = length active"
  using assms
proof (induction nb available scripts rate surplus change active rule: settle_change.induct)
  case (1 nb available scripts rate surplus change active)
  obtain fee remaining' where step: "predicted_fee nb available (scripts @ active_scripts change active) rate = Ok fee"
      "allocate_fee surplus fee = Ok remaining'"
    using 1(2) by (subst (asm) settle_change.simps) (auto split: sum.splits)
  let ?now = "keeps_change nb remaining' change active"
  have len: "length ?now = length active" using allocate_fee_Ok(3) [OF step(2)] 1(3,4) by simp
  show ?case
  proof (cases "?now = active")
    case True
    then show ?thesis using 1(2) step by (subst (asm) settle_change.simps) (auto simp: Let_def)
  next
    case False
    have "settle_change nb available scripts rate surplus change ?now = Ok (remaining, kept)"
      using 1(2) step False by (subst (asm) settle_change.simps) (auto simp: Let_def)
    from 1(1) [OF step refl False this] show ?thesis using len 1(3,4) by simp
  qed
qed

lemma build_grouped_steps:
  assumes "build_grouped nb network groups rate = Ok tx"
  obtains funded scripts remaining kept fee where
    "list_all2 (\<lambda>g f. fund_group nb network g = Ok f) groups funded"
    "distinct (map outpoint (concat (map fst funded)))"
    "collect (\<lambda>o1. checked_output nb network o1 False) (concat (map fu_recipients groups)) = Ok scripts"
    "predicted_fee nb (concat (map fst funded)) (scripts @ active_scripts (map (\<lambda>(_, _, s). s) funded) kept) rate = Ok fee"
    "allocate_fee (map (\<lambda>(_, v, _). v) funded) fee = Ok remaining"
    "kept = keeps_change nb remaining (map (\<lambda>(_, _, s). s) funded) kept"
    "length kept = length groups"
    "tx = from_selected (concat (map fst funded)) (concat (map fu_recipients groups) @ change_outputs groups remaining kept)"
proof -
  obtain funded scripts remaining kept where
      f: "list_all2 (\<lambda>g f. fund_group nb network g = Ok f) groups funded"
        "distinct (map outpoint (concat (map fst funded)))"
        "collect (\<lambda>o1. checked_output nb network o1 False) (concat (map fu_recipients groups)) = Ok scripts"
    and settle: "settle_change nb (concat (map fst funded)) scripts rate (map (\<lambda>(_, v, _). v) funded) (map (\<lambda>(_, _, s). s) funded)
        (map (\<lambda>(v, script). v \<ge> nb_minimal_non_dust nb script) (zip (map (\<lambda>(_, v, _). v) funded) (map (\<lambda>(_, _, s). s) funded)))
        = Ok (remaining, kept)"
    and tx: "tx = from_selected (concat (map fst funded)) (concat (map fu_recipients groups) @ change_outputs groups remaining kept)"
    using assms
    by (auto simp: build_grouped_def Let_def and_then_Ok_iff fail_if_iff collect_Ok_iff [of "fund_group nb network"] change_outputs_def)
  have "length kept = length groups"
    using settle_change_length [OF settle] list_all2_lengthD [OF f(1)] by simp
  with settle_change_Ok [OF settle] show thesis using that f tx by blast
qed

lemma funded_sums:
  assumes "list_all2 (\<lambda>g f. fund_group nb network g = Ok f) groups funded"
  shows "sats (map us_value (concat (map fst funded))) =
      sats (map bo_value (concat (map fu_recipients groups))) + sats (map (\<lambda>(_, v, _). v) funded)"
    "list_all2 (\<lambda>g script. script_pubkey_for_network nb (fu_change_address g) network = Ok script) groups (map (\<lambda>(_, _, s). s) funded)"
    "mset (concat (map fst funded)) = mset (concat (map fu_available groups))"
  using assms
proof (induction groups funded rule: list_all2_induct)
  case (Cons g gs f fs)
  obtain available surplus script where f: "f = (available, surplus, script)" by (cases f) auto
  note law = fund_group_Ok [OF Cons.hyps(1) [unfolded f]]
  {
    case 1
    then show ?case using Cons.IH(1) law(2) f by simp
  next
    case 2
    then show ?case using Cons.IH(2) law(3) f by simp
  next
    case 3
    then show ?case using Cons.IH(3) law(1) f by simp
  }
qed simp_all

lemma change_outputs_funded:
  assumes "list_all2 (\<lambda>g f. fund_group nb network g = Ok f) groups funded"
    and "list_all2 (\<le>) remaining (map (\<lambda>(_, v, _). v) funded)" "o1 \<in> set (change_outputs groups remaining kept)"
  shows "\<exists>g \<in> set groups. bo_address o1 = fu_change_address g \<and>
    sats (map bo_value (fu_recipients g)) + unat (bo_value o1) \<le> sats (map us_value (fu_available g))"
proof -
  obtain i where i: "i < length groups" "i < length remaining" "bo_address o1 = fu_change_address (groups ! i)" "bo_value o1 = remaining ! i"
    using assms(3) by (auto simp: change_outputs_def set_zip)
  obtain available surplus script where f: "funded ! i = (available, surplus, script)" by (cases "funded ! i") auto
  have "i < length funded" using i(1) list_all2_lengthD [OF assms(1)] by simp
  then have "remaining ! i \<le> surplus" using list_all2_nthD [OF assms(2) i(2)] f by simp
  moreover have "fund_group nb network (groups ! i) = Ok (available, surplus, script)"
    using list_all2_nthD [OF assms(1) i(1)] f by simp
  ultimately show ?thesis
    using fund_group_Ok(1,2) i nth_mem [OF i(1)]
    by (intro bexI [where x = "groups ! i"]) (fastforce simp: word_le_nat_alt)+
qed

text \<open>A crate in which every text is an address with the same script.\<close>

definition demo_bitcoin :: "string native_bitcoin" where
  "demo_bitcoin =
     \<lparr>nb_parse = Inr, nb_require_network = (\<lambda>a _. Inr a), nb_display = id, nb_script_pubkey = (\<lambda>_. [0]),
      nb_is_p2wpkh = (\<lambda>_. True), nb_is_p2tr = (\<lambda>_. False), nb_minimal_non_dust = (\<lambda>_. 294),
      nb_weight = (\<lambda>inputs outputs. of_nat (40 + 164 * length inputs + 124 * length outputs)),
      nb_display_txid = (\<lambda>_. [])\<rparr>"

definition demo_utxo :: "satoshi \<Rightarrow> u32 \<Rightarrow> spend_source" where
  "demo_utxo v i = \<lparr>us_transaction_id = [], us_output_index = i, us_value = v, us_script_pubkey = [0], us_satisfaction_weight = 109\<rparr>"

definition demo_transfer :: build_request where
  "demo_transfer =
     \<lparr>bq_available = [demo_utxo 1000 0, demo_utxo 9000 1], bq_recipients = [\<lparr>bo_address = ''r'', bo_value = 5000\<rparr>],
      bq_change_address = ''c'', bq_fee_rate = 1000, bq_drain_wallet = False\<rparr>"

definition demo_groups :: "funding list" where
  "demo_groups =
     [\<lparr>fu_available = [demo_utxo 3000 0], fu_recipients = [\<lparr>bo_address = ''r'', bo_value = 2000\<rparr>], fu_change_address = ''c''\<rparr>,
      \<lparr>fu_available = [demo_utxo 3000 1], fu_recipients = [\<lparr>bo_address = ''r'', bo_value = 2900\<rparr>], fu_change_address = ''d''\<rparr>]"

lemmas demo_bitcoin_simps = demo_bitcoin_def demo_utxo_def script_pubkey_for_network_def parse_for_network_def
  checked_output_def predicted_fee_def for_vsize_value div_ceil4_def outpoint_def fail_if_def ok_or_def checked_add_def
  checked_sub_def SEGWIT_MARKER_FLAG_WEIGHT_def Let_def

lemma demo_built: "\<exists>tx. build demo_bitcoin BitcoinRegtest demo_transfer = Ok tx"
  by (simp add: build_def demo_transfer_def selection_key_def demo_bitcoin_simps)

lemma demo_grouped: "\<exists>tx. build_grouped demo_bitcoin BitcoinRegtest demo_groups 1000 = Ok tx"
  by (simp add: build_grouped_def demo_groups_def fund_group_def outpoint_key_def settle_change.simps active_scripts_def
    allocate_fee_def keeps_change_def demo_bitcoin_simps)

section \<open>Properties\<close>

text \<open>
  C26. A built transfer spends distinct inputs of the request, pays every recipient in order the
  requested amount and adds at most one output, to the change address; or, when the wallet is drained,
  spends all inputs into the one recipient. Its inputs cover its outputs plus at least the fee the
  rate asks for exactly this transaction, and no output is dust.
\<close>

theorem build_pays:
  assumes "build nb network q = Ok tx"
  shows "pays_its_fee nb network (bq_fee_rate q) tx \<and>
    set (map bi_utxo (ut_inputs tx)) \<subseteq> set (bq_available q) \<and>
    (if bq_drain_wallet q
     then length (ut_inputs tx) = length (bq_available q) \<and>
       (\<exists>r v. bq_recipients q = [r] \<and> ut_outputs tx = [r\<lparr>bo_value := v\<rparr>])
     else \<exists>change. ut_outputs tx = bq_recipients q @ change \<and> length change \<le> 1 \<and>
       list_all (\<lambda>o1. bo_address o1 = bq_change_address q) change)"
proof -
  obtain scripts change_script where
      ok: "distinct (map outpoint (bq_available q))"
        "collect (\<lambda>o1. checked_output nb network o1 (bq_drain_wallet q)) (bq_recipients q) = Ok scripts"
        "script_pubkey_for_network nb (bq_change_address q) network = Ok change_script"
    and run: "(if bq_drain_wallet q then build_drain nb q scripts
       else and_then (ok_or (checked_sum 0 (map bo_value (bq_recipients q))) recipient_overflow_error) (\<lambda>recipient_total.
         select_coins nb q scripts change_script recipient_total [] 0 (sort_key selection_key (bq_available q)))) = Ok tx"
    using assms by (auto simp: build_def and_then_Ok_iff fail_if_iff)
  note out = checked_outputs_Ok [OF ok(2)]
  show ?thesis
  proof (cases "bq_drain_wallet q")
    case True
    then have "build_drain nb q scripts = Ok tx" using run by simp
    note law = build_drain_pays [OF this ok(1) out(1)]
    have "length (ut_inputs tx) = length (bq_available q)"
      using arg_cong [OF law(2), of length] by simp
    moreover have "set (map bi_utxo (ut_inputs tx)) \<subseteq> set (bq_available q)" unfolding law(2) by simp
    ultimately show ?thesis using law(1,3) True by (cases "bq_recipients q") auto
  next
    case False
    then obtain recipient_total where
        total: "unat recipient_total = sats (map bo_value (bq_recipients q))"
      and sel: "select_coins nb q scripts change_script recipient_total [] 0 (sort_key selection_key (bq_available q)) = Ok tx"
      using run by (auto simp: and_then_Ok_iff ok_or_iff checked_sum_Some_iff)
    have "pays_its_fee nb network (bq_fee_rate q) tx \<and>
        (\<exists>used change. map bi_utxo (ut_inputs tx) = [] @ used \<and> prefix used (sort_key selection_key (bq_available q)) \<and> used \<noteq> [] \<and>
          ut_outputs tx = bq_recipients q @ change \<and> length change \<le> 1 \<and> list_all (\<lambda>o1. bo_address o1 = bq_change_address q) change)"
      by (rule select_coins_pays [OF sel _ _ total out(1) ok(3) out(2)]) (use ok(1) False in auto)
    then show ?thesis using False by (fastforce dest!: set_mono_prefix)
  qed
qed

theorem build_pays_witness:
  "\<exists>tx. build demo_bitcoin BitcoinRegtest demo_transfer = Ok tx \<and> pays_its_fee demo_bitcoin BitcoinRegtest 1000 tx"
proof -
  obtain tx where tx: "build demo_bitcoin BitcoinRegtest demo_transfer = Ok tx" using demo_built by blast
  from build_pays [OF this] tx show ?thesis by (simp add: demo_transfer_def)
qed

text \<open>
  C27. A grouped transaction spends exactly the inputs of all its sources, pays every recipient of
  every source in order, and adds change outputs only to the sources' change addresses. Its inputs
  cover its outputs plus at least the fee the rate asks for exactly this transaction, and no output is
  dust. The search for which sources keep a change output always ends.
\<close>

theorem build_grouped_pays:
  assumes "build_grouped nb network groups rate = Ok tx"
  shows "pays_its_fee nb network rate tx \<and>
    mset (map bi_utxo (ut_inputs tx)) = mset (concat (map fu_available groups)) \<and>
    (\<exists>change. ut_outputs tx = concat (map fu_recipients groups) @ change \<and> length change \<le> length groups \<and>
       (\<forall>o1 \<in> set change. \<exists>g \<in> set groups. bo_address o1 = fu_change_address g \<and>
          sats (map bo_value (fu_recipients g)) + unat (bo_value o1) \<le> sats (map us_value (fu_available g))))"
proof -
  obtain funded scripts remaining kept fee where
      f: "list_all2 (\<lambda>g f. fund_group nb network g = Ok f) groups funded"
        "distinct (map outpoint (concat (map fst funded)))"
        "collect (\<lambda>o1. checked_output nb network o1 False) (concat (map fu_recipients groups)) = Ok scripts"
        "predicted_fee nb (concat (map fst funded)) (scripts @ active_scripts (map (\<lambda>(_, _, s). s) funded) kept) rate = Ok fee"
    and alloc: "allocate_fee (map (\<lambda>(_, v, _). v) funded) fee = Ok remaining"
    and kept: "kept = keeps_change nb remaining (map (\<lambda>(_, _, s). s) funded) kept" "length kept = length groups"
    and tx: "tx = from_selected (concat (map fst funded)) (concat (map fu_recipients groups) @ change_outputs groups remaining kept)"
    using assms by (rule build_grouped_steps)
  note sums = funded_sums [OF f(1)] and out = checked_outputs_Ok [OF f(3)] and fee = allocate_fee_Ok [OF alloc]
  have len: "length remaining = length groups" using fee(3) list_all2_lengthD [OF f(1)] by simp
  note change = change_outputs_ok [OF sums(2) len kept(2,1)]
  have scripts: "output_scripts nb network (concat (map fu_recipients groups) @ change_outputs groups remaining kept) =
      Ok (scripts @ active_scripts (map (\<lambda>(_, _, s). s) funded) kept)"
    using out(1) change unfolding output_scripts_def collect_Ok_iff by (auto intro!: list_all2_appendI)
  have "pays_its_fee nb network rate tx"
    unfolding tx
    by (rule pays_from_selected [OF f(2) scripts f(4)])
      (use sums(1) fee(1) change out(2) in \<open>auto intro!: list_all2_appendI\<close>)
  moreover have "mset (map bi_utxo (ut_inputs tx)) = mset (concat (map fu_available groups))" using tx sums(3) by simp
  moreover have "\<exists>g \<in> set groups. bo_address o1 = fu_change_address g \<and>
      sats (map bo_value (fu_recipients g)) + unat (bo_value o1) \<le> sats (map us_value (fu_available g))"
    if "o1 \<in> set (change_outputs groups remaining kept)" for o1
    using change_outputs_funded [OF f(1) fee(2) that] .
  moreover have "length (change_outputs groups remaining kept) \<le> length groups"
    using length_filter_le [of snd "zip (zip groups remaining) kept"] by (simp add: change_outputs_def)
  ultimately show ?thesis using tx by auto
qed

theorem build_grouped_pays_witness:
  "\<exists>tx. build_grouped demo_bitcoin BitcoinRegtest demo_groups 1000 = Ok tx \<and> pays_its_fee demo_bitcoin BitcoinRegtest 1000 tx"
proof -
  obtain tx where tx: "build_grouped demo_bitcoin BitcoinRegtest demo_groups 1000 = Ok tx" using demo_grouped by blast
  from build_grouped_pays [OF this] tx show ?thesis by blast
qed

text \<open>
  The fee of a virtual size is the rate times the size over a thousand, rounded up; it is refused
  exactly when it does not fit 64 bits, and the 128-bit product never overflows.
\<close>

theorem for_vsize_exact:
  "for_vsize rate vsize =
     (let fee = (unat rate * unat vsize + 999) div 1000 in
      if fee < 2 ^ 64 then Ok (of_nat fee) else Err fee_overflow_u64_error)"
  by (rule for_vsize_value)

end
