(* ===== verification/Eth_Values.thy ===== *)
theory Eth_Values
  imports Chain_Values
begin

text \<open>
  The values of the Ethereum crate: amounts in wei, the text of addresses and transaction ids, and
  transfer requests (\<open>sdk/chains/ethereum/src/lib.rs, address.rs, error.rs, transaction/signed.rs,
  transaction/builder.rs, transaction/unsigned.rs\<close>). Texts are lists of UTF-8 bytes, so that slicing a
  text inside a character is the panic it is in the program.
\<close>

section \<open>Errors\<close>

datatype eth_error_kind =
  EthInvalidAddress | EthInvalidTransaction | EthInsufficientFunds | EthFeeUnavailable | EthRpcUnavailable
| EthDivergent | EthSigner | EthRejected | EthNotFound | EthOther

record eth_error =
  ee_kind :: eth_error_kind
  ee_message :: string

definition eth_error_new :: "eth_error_kind \<Rightarrow> string \<Rightarrow> eth_error" where
  "eth_error_new kind message = \<lparr>ee_kind = kind, ee_message = message\<rparr>"

definition eth_error_from_rpc :: "source_error \<Rightarrow> eth_error" where
  "eth_error_from_rpc e = eth_error_new EthRpcUnavailable (se_message e)"

section \<open>Wei\<close>

text \<open>
  An amount is 32 big-endian bytes that are read as \<open>U256\<close> for every operation; the derived order of
  the bytes is the order of the numbers.
\<close>

type_synonym wei = "256 word"

definition ETH_DECIMALS :: nat where "ETH_DECIMALS = 18"

definition wei_from_u128 :: "128 word \<Rightarrow> wei" where
  "wei_from_u128 v = ucast v"

definition wei_from_decimal :: "decimal \<Rightarrow> (decimal_error, wei) result" where
  "wei_from_decimal v = and_then (to_atomic_be_bytes 32 v ETH_DECIMALS) (\<lambda>bytes. Ok (of_nat (be_value bytes)))"

definition wei_decimal :: "wei \<Rightarrow> decimal" where
  "wei_decimal w = from_atomic (unat w) ETH_DECIMALS"

definition wei_is_zero :: "wei \<Rightarrow> bool" where
  "wei_is_zero w \<longleftrightarrow> list_all (\<lambda>b. b = 0) (be_bytes 32 (unat w))"

definition wei_checked_to_u128 :: "wei \<Rightarrow> 128 word option" where
  "wei_checked_to_u128 w = (if unat w < 2 ^ 128 then Some (ucast w) else None)"

definition wei_checked_mul_u64 :: "wei \<Rightarrow> u64 \<Rightarrow> wei option" where
  "wei_checked_mul_u64 w m = checked_mul w (ucast m)"

section \<open>Slices and hexadecimal bytes\<close>

datatype 'a call = Panic | Return 'a

definition is_char_boundary :: "string \<Rightarrow> nat \<Rightarrow> bool" where
  "is_char_boundary s i \<longleftrightarrow>
     i = 0 \<or> i = length s \<or> i < length s \<and> \<not> (128 \<le> (of_char (s ! i) :: nat) \<and> (of_char (s ! i) :: nat) < 192)"

text \<open>\<open>&s[a..b]\<close>.\<close>

definition str_slice :: "string \<Rightarrow> nat \<Rightarrow> nat \<Rightarrow> string call" where
  "str_slice s a b =
     (if a \<le> b \<and> is_char_boundary s a \<and> is_char_boundary s b then Return (take (b - a) (drop a s)) else Panic)"

definition hex_value :: "char \<Rightarrow> nat option" where
  "hex_value c =
     (let n = of_char c in
      if 48 \<le> n \<and> n \<le> 57 then Some (n - 48)
      else if 97 \<le> n \<and> n \<le> 102 then Some (n - 87)
      else if 65 \<le> n \<and> n \<le> 70 then Some (n - 55)
      else None)"

fun radix16_digits :: "nat \<Rightarrow> string \<Rightarrow> u8 option" where
  "radix16_digits v [] = Some (of_nat v)"
| "radix16_digits v (c # cs) =
     (case hex_value c of
        None \<Rightarrow> None
      | Some d \<Rightarrow> if v * 16 + d < 256 then radix16_digits (v * 16 + d) cs else None)"

text \<open>\<open>u8::from_str_radix(s, 16)\<close>: a leading plus sign is read over, unless it is all there is.\<close>

definition from_str_radix16 :: "string \<Rightarrow> u8 option" where
  "from_str_radix16 s =
     (if s = [] \<or> s = ''+'' \<or> s = ''-'' then None
      else radix16_digits 0 (if hd s = CHR ''+'' then tl s else s))"

text \<open>The loop over the bytes of an address or a transaction id: it stops at the first bad pair.\<close>

fun parse_pairs :: "string \<Rightarrow> nat \<Rightarrow> nat \<Rightarrow> u8 list option call" where
  "parse_pairs h index 0 = Return (Some [])"
| "parse_pairs h index (Suc n) =
     (case str_slice h (index * 2) (index * 2 + 2) of
        Panic \<Rightarrow> Panic
      | Return pair \<Rightarrow>
          (case from_str_radix16 pair of
             None \<Rightarrow> Return None
           | Some b \<Rightarrow>
               (case parse_pairs h (index + 1) n of
                  Panic \<Rightarrow> Panic
                | Return None \<Rightarrow> Return None
                | Return (Some bs) \<Rightarrow> Return (Some (b # bs)))))"

definition strip_0x :: "string \<Rightarrow> string option" where
  "strip_0x s = (if take 2 s = ''0x'' then Some (drop 2 s) else None)"

section \<open>Addresses\<close>

text \<open>An address holds 20 bytes.\<close>

type_synonym eth_address = "u8 list"

definition eth_address_display :: "eth_address \<Rightarrow> string" where
  "eth_address_display a = ''0x'' @ concat (map hex_byte a)"

datatype address_parse_error = AddressMissingPrefix | AddressInvalidLength | AddressInvalidHexadecimal | AddressWrongChain

definition address_from_str :: "string \<Rightarrow> (address_parse_error, eth_address) result call" where
  "address_from_str input =
     (case strip_0x input of
        None \<Rightarrow> Return (Err AddressMissingPrefix)
      | Some hexadecimal \<Rightarrow>
          if length hexadecimal \<noteq> 40 then Return (Err AddressInvalidLength)
          else (case parse_pairs hexadecimal 0 20 of
                  Panic \<Rightarrow> Panic
                | Return None \<Rightarrow> Return (Err AddressInvalidHexadecimal)
                | Return (Some bytes) \<Rightarrow> Return (Ok bytes)))"

definition eth_address_is_zero :: "eth_address \<Rightarrow> bool" where
  "eth_address_is_zero a \<longleftrightarrow> a = replicate 20 0"

definition eth_address_canonical :: "eth_address \<Rightarrow> index_scope \<Rightarrow> canonical_address" where
  "eth_address_canonical a scope = CanonicalAddress scope (eth_address_display a)"

definition eth_address_of_base :: "address \<Rightarrow> (address_parse_error, eth_address) result" where
  "eth_address_of_base a = (if length (as_bytes a) = 20 then Ok (as_bytes a) else Err AddressInvalidLength)"

definition ETHEREUM_CHAIN :: string where "ETHEREUM_CHAIN = ''ethereum''"

definition eth_address_of_canonical :: "canonical_address \<Rightarrow> (address_parse_error, eth_address) result call" where
  "eth_address_of_canonical a =
     (if sc_chain (ca_scope a) \<noteq> ChainId ETHEREUM_CHAIN then Return (Err AddressWrongChain)
      else address_from_str (ca_value a))"

section \<open>Transaction ids\<close>

type_synonym eth_id = "u8 list"

definition eth_id_display :: "eth_id \<Rightarrow> string" where
  "eth_id_display i = ''0x'' @ concat (map hex_byte i)"

datatype id_error = IdMissingPrefix | IdInvalidLength | IdInvalidHexadecimal | IdNonCanonical

definition eth_id_from_str :: "string \<Rightarrow> (id_error, eth_id) result call" where
  "eth_id_from_str input =
     (case strip_0x input of
        None \<Rightarrow> Return (Err IdMissingPrefix)
      | Some hexadecimal \<Rightarrow>
          if length hexadecimal \<noteq> 64 then Return (Err IdInvalidLength)
          else (case parse_pairs hexadecimal 0 32 of
                  Panic \<Rightarrow> Panic
                | Return None \<Rightarrow> Return (Err IdInvalidHexadecimal)
                | Return (Some parsed) \<Rightarrow>
                    if eth_id_display parsed \<noteq> input then Return (Err IdNonCanonical) else Return (Ok parsed)))"

record signed_transaction =
  st_id :: eth_id
  st_envelope :: "u8 list"

datatype signed_error = EmptyEnvelope | HashMismatch

text \<open>The hash function comes from the \<open>alloy\<close> crate.\<close>

definition from_envelope :: "(u8 list \<Rightarrow> u8 list) \<Rightarrow> eth_id \<Rightarrow> u8 list \<Rightarrow> (signed_error, signed_transaction) result" where
  "from_envelope keccak256 i envelope =
     and_then (fail_if (envelope = []) EmptyEnvelope) (\<lambda>_.
     and_then (fail_if (keccak256 envelope \<noteq> i) HashMismatch) (\<lambda>_.
     Ok \<lparr>st_id = i, st_envelope = envelope\<rparr>))"

section \<open>Transfer requests\<close>

datatype transfer_request =
  NativeTransfer (transfer_from: eth_address) eth_address wei
| Erc20Transfer (transfer_from: eth_address) eth_address eth_address wei

fun transfer_to :: "transfer_request \<Rightarrow> eth_address" where
  "transfer_to (NativeTransfer from1 to1 v) = to1"
| "transfer_to (Erc20Transfer from1 token recipient amount) = token"

fun transfer_value :: "transfer_request \<Rightarrow> wei" where
  "transfer_value (NativeTransfer from1 to1 v) = v"
| "transfer_value (Erc20Transfer from1 token recipient amount) = 0"

fun erc20_transfer :: "transfer_request \<Rightarrow> (eth_address \<times> wei) option" where
  "erc20_transfer (NativeTransfer from1 to1 v) = None"
| "erc20_transfer (Erc20Transfer from1 token recipient amount) = Some (token, amount)"

definition transfer_native :: "eth_address \<Rightarrow> eth_address \<Rightarrow> decimal \<Rightarrow> (decimal_error, transfer_request) result" where
  "transfer_native from1 to1 v = and_then (wei_from_decimal v) (\<lambda>w. Ok (NativeTransfer from1 to1 w))"

record build_context =
  bc_chain_id :: u64
  bc_nonce :: u64
  bc_gas_limit :: u64
  bc_max_fee_per_gas :: wei
  bc_max_priority_fee_per_gas :: wei

record eth_unsigned =
  eu_chain_id :: u64
  eu_nonce :: u64
  eu_from :: eth_address
  eu_to :: "eth_address option"
  eu_value :: wei
  eu_input :: "u8 list"
  eu_gas_limit :: u64
  eu_max_fee_per_gas :: wei
  eu_max_priority_fee_per_gas :: wei

definition zero_chain_id_error :: eth_error where
  "zero_chain_id_error = eth_error_new EthInvalidTransaction ''Ethereum chain ID must be non-zero''"
definition zero_gas_error :: eth_error where
  "zero_gas_error = eth_error_new EthInvalidTransaction ''Ethereum gas limit must be non-zero''"
definition priority_fee_error :: eth_error where
  "priority_fee_error = eth_error_new EthInvalidTransaction ''Ethereum max fee per gas is below the priority fee''"

text \<open>The call data of an ERC-20 transfer is encoded by the \<open>alloy\<close> crate: recipient and amount.\<close>

definition transfer_input :: "(eth_address \<Rightarrow> wei \<Rightarrow> u8 list) \<Rightarrow> transfer_request \<Rightarrow> u8 list" where
  "transfer_input abi_transfer request =
     (case request of
        NativeTransfer _ _ _ \<Rightarrow> []
      | Erc20Transfer _ _ recipient amount \<Rightarrow> abi_transfer recipient amount)"

definition eth_unsigned_new ::
  "(eth_address \<Rightarrow> wei \<Rightarrow> u8 list) \<Rightarrow> transfer_request \<Rightarrow> build_context \<Rightarrow> (eth_error, eth_unsigned) result" where
  "eth_unsigned_new abi_transfer request context =
     and_then (fail_if (bc_chain_id context = 0) zero_chain_id_error) (\<lambda>_.
     and_then (fail_if (bc_gas_limit context = 0) zero_gas_error) (\<lambda>_.
     and_then (fail_if (bc_max_fee_per_gas context < bc_max_priority_fee_per_gas context) priority_fee_error) (\<lambda>_.
     Ok \<lparr>eu_chain_id = bc_chain_id context, eu_nonce = bc_nonce context, eu_from = transfer_from request,
         eu_to = Some (transfer_to request), eu_value = transfer_value request,
         eu_input = transfer_input abi_transfer request, eu_gas_limit = bc_gas_limit context,
         eu_max_fee_per_gas = bc_max_fee_per_gas context,
         eu_max_priority_fee_per_gas = bc_max_priority_fee_per_gas context\<rparr>)))"

section \<open>Parsing pairs\<close>

text \<open>What a pair of characters reads as: two digits, or a plus sign and one digit.\<close>

definition pair_reads :: "string \<Rightarrow> u8 \<Rightarrow> bool" where
  "pair_reads p b \<longleftrightarrow>
     (\<exists>c d y. p = [c, d] \<and> hex_value d = Some y \<and>
        (c = CHR ''+'' \<and> unat b = y \<or> (\<exists>x. hex_value c = Some x \<and> unat b = 16 * x + y)))"

lemma hex_value_less: "hex_value c = Some x \<Longrightarrow> x < 16"
  by (auto simp: hex_value_def Let_def split: if_splits)

lemma hex_value_digit: "d < 16 \<Longrightarrow> hex_value (hex_digit d) = Some d"
  by (simp add: hex_value_def hex_digit_def Let_def)

lemma hex_value_signs [simp]: "hex_value CHR ''+'' = None" "hex_value CHR ''-'' = None"
  by (simp_all add: hex_value_def)

lemma hex_value_ascii: "hex_value c = Some x \<Longrightarrow> (of_char c :: nat) < 128"
  by (auto simp: hex_value_def Let_def split: if_splits)

lemma from_str_radix16_pair:
  assumes "length p = 2"
  shows "from_str_radix16 p = Some b \<longleftrightarrow> pair_reads p b"
proof -
  obtain c d where p: "p = [c, d]" using assms by (auto simp: numeral_2_eq_2 length_Suc_conv)
  have b: "of_nat v = b \<longleftrightarrow> unat b = v" if "v < 256" for v
    using that by (auto simp: unat_of_nat)
  show ?thesis
  proof (cases "hex_value d")
    case None
    then show ?thesis using p by (auto simp: from_str_radix16_def pair_reads_def split: option.splits)
  next
    case (Some y)
    note y = hex_value_less [OF this]
    show ?thesis
    proof (cases "hex_value c")
      case None
      then show ?thesis using p Some y b [of y] by (auto simp: from_str_radix16_def pair_reads_def)
    next
      case x: (Some x)
      then have "c \<noteq> CHR ''+''" by auto
      then show ?thesis using p Some x y hex_value_less [OF x] b [of "x * 16 + y"]
        by (simp add: from_str_radix16_def pair_reads_def mult.commute)
    qed
  qed
qed

lemma char_boundary_pair:
  assumes "pair_reads p b"
  shows "length p = 2" "(of_char (p ! 0) :: nat) < 128"
  using assms by (auto simp: pair_reads_def dest: hex_value_ascii)

lemma parse_pairs_exact:
  assumes "length h = 2 * (i + n)"
  shows "parse_pairs h i n = Return (Some bs) \<longleftrightarrow>
    length bs = n \<and> (\<forall>k < n. pair_reads (take 2 (drop (2 * (i + k)) h)) (bs ! k))"
  using assms
proof (induction n arbitrary: i bs)
  case (Suc n)
  let ?p = "take 2 (drop (2 * i) h)"
  have len: "length ?p = 2" using Suc.prems by simp
  have IH: "parse_pairs h (i + 1) n = Return (Some cs) \<longleftrightarrow>
      length cs = n \<and> (\<forall>k < n. pair_reads (take 2 (drop (2 * (i + 1 + k)) h)) (cs ! k))" for cs
    using Suc.IH [of "i + 1" cs] Suc.prems by simp
  have slice: "str_slice h (i * 2) (i * 2 + 2) = Return ?p"
    if head: "pair_reads ?p b" and following: "n \<noteq> 0 \<longrightarrow> (\<exists>b'. pair_reads (take 2 (drop (2 * (i + 1)) h)) b')" for b
  proof -
    have "is_char_boundary h (i * 2)"
      using char_boundary_pair(2) [OF head] Suc.prems by (simp add: is_char_boundary_def mult.commute)
    moreover have "is_char_boundary h (i * 2 + 2)"
    proof (cases "n = 0")
      case False
      then obtain b' where "pair_reads (take 2 (drop (2 * (i + 1)) h)) b'" using following by blast
      from char_boundary_pair(2) [OF this] have "(of_char (h ! (i * 2 + 2)) :: nat) < 128"
        using Suc.prems False by (simp add: algebra_simps)
      then show ?thesis by (simp add: is_char_boundary_def) (use Suc.prems in auto)
    qed (use Suc.prems in \<open>simp add: is_char_boundary_def\<close>)
    ultimately show ?thesis by (simp add: str_slice_def mult.commute)
  qed
  have sliced: "pair = ?p" if "str_slice h (i * 2) (i * 2 + 2) = Return pair" for pair
    using that by (simp add: str_slice_def mult.commute split: if_splits)
  show ?case
  proof
    assume "parse_pairs h i (Suc n) = Return (Some bs)"
    then obtain b cs where "from_str_radix16 ?p = Some b" "parse_pairs h (i + 1) n = Return (Some cs)" "bs = b # cs"
      by (auto split: call.splits option.splits dest: sliced [simplified])
    then show "length bs = Suc n \<and> (\<forall>k < Suc n. pair_reads (take 2 (drop (2 * (i + k)) h)) (bs ! k))"
      using IH [of cs] from_str_radix16_pair [OF len] by (auto simp: less_Suc_eq_0_disj)
  next
    assume r: "length bs = Suc n \<and> (\<forall>k < Suc n. pair_reads (take 2 (drop (2 * (i + k)) h)) (bs ! k))"
    then obtain b cs where bs: "bs = b # cs" "length cs = n" by (cases bs) auto
    have head: "pair_reads ?p b" using r bs by (metis add_0_right nth_Cons_0 zero_less_Suc)
    have tail: "pair_reads (take 2 (drop (2 * (i + 1 + k)) h)) (cs ! k)" if "k < n" for k
      using r bs that by (metis Suc_eq_plus1_left add.assoc nth_Cons_Suc Suc_less_eq)
    have "n \<noteq> 0 \<longrightarrow> (\<exists>b'. pair_reads (take 2 (drop (2 * (i + 1)) h)) b')" using tail [of 0] by auto
    from slice [OF head this] show "parse_pairs h i (Suc n) = Return (Some bs)"
      using from_str_radix16_pair [OF len, of b] head IH [of cs] tail bs by simp
  qed
qed auto

lemma hex_byte_reads: "pair_reads (hex_byte b) b"
proof -
  have "unat b < 256" using unat_less [of b] by simp
  then have "hex_value (hex_digit (unat b div 16)) = Some (unat b div 16)" "hex_value (hex_digit (unat b mod 16)) = Some (unat b mod 16)"
    by (auto intro!: hex_value_digit)
  then show ?thesis by (simp add: pair_reads_def hex_byte_def)
qed

lemma length_hex [simp]: "length (concat (map hex_byte bs)) = 2 * length bs"
  by (induction bs) simp_all

lemma pair_of_concat: "k < length ps \<Longrightarrow> list_all (\<lambda>p. length p = 2) ps \<Longrightarrow> take 2 (drop (2 * k) (concat ps)) = ps ! k"
proof (induction ps arbitrary: k)
  case (Cons p ps)
  then show ?case by (cases k) simp_all
qed simp

lemma hex_pair: "k < length bs \<Longrightarrow> take 2 (drop (2 * k) (concat (map hex_byte bs))) = hex_byte (bs ! k)"
  using pair_of_concat [of k "map hex_byte bs"] by (simp add: list_all_iff)

lemma parse_hex: "length bs = n \<Longrightarrow> parse_pairs (concat (map hex_byte bs)) 0 n = Return (Some bs)"
  by (subst parse_pairs_exact) (auto simp: hex_pair hex_byte_reads)

lemma strip_0x_simps: "strip_0x (''0x'' @ h) = Some h" "strip_0x s = Some h \<longleftrightarrow> s = ''0x'' @ h"
proof -
  show "strip_0x (''0x'' @ h) = Some h" by (simp add: strip_0x_def)
  show "strip_0x s = Some h \<longleftrightarrow> s = ''0x'' @ h"
    using append_take_drop_id [of 2 s] by (auto simp: strip_0x_def simp del: append_take_drop_id)
qed

lemma address_from_str_pairs:
  "address_from_str (''0x'' @ h) = Return (Ok a) \<longleftrightarrow>
      length a = 20 \<and> length h = 40 \<and> (\<forall>k < 20. pair_reads (take 2 (drop (2 * k) h)) (a ! k))"
  using parse_pairs_exact [of h 0 20 a]
  by (auto simp: address_from_str_def strip_0x_simps simp del: append.simps parse_pairs.simps split: call.splits option.splits)

text \<open>
  An address in which every pair is a plus sign and a digit is accepted, and a text of 42 bytes with a
  character across a pair makes the parser panic.
\<close>

lemma address_accepts_plus_signs:
  "address_from_str (''0x'' @ concat (replicate 20 ''+f'')) = Return (Ok (replicate 20 15))"
proof -
  have "take 2 (drop (2 * k) (concat (replicate 20 ''+f''))) = ''+f''" if "k < 20" for k
    using pair_of_concat [of k "replicate 20 ''+f''"] that by (simp add: list_all_iff)
  moreover have "pair_reads ''+f'' 15" by (simp add: pair_reads_def hex_value_def)
  moreover have "length (concat (replicate 20 ''+f'')) = 40" by (simp add: length_concat sum_list_replicate)
  ultimately show ?thesis unfolding address_from_str_pairs by simp
qed

lemma address_parse_panics:
  "address_from_str (''0xa'' @ [char_of (195 :: nat), char_of (169 :: nat)] @ replicate 37 CHR ''0'') = Panic"
proof -
  have "parse_pairs (CHR ''a'' # char_of (195 :: nat) # char_of (169 :: nat) # replicate 37 CHR ''0'') 0 (Suc 19) = Panic"
    by (simp only: parse_pairs.simps) (simp add: str_slice_def is_char_boundary_def)
  then show ?thesis by (simp add: address_from_str_def strip_0x_def del: parse_pairs.simps)
qed

section \<open>Properties\<close>

text \<open>
  A transaction id is read back from exactly its own text: the parser accepts a text if and only
  if it is the lower-case display of the 32 bytes it returns.
\<close>

theorem eth_id_text_exact:
  "eth_id_from_str input = Return (Ok i) \<longleftrightarrow> length i = 32 \<and> input = eth_id_display i"
proof
  assume "eth_id_from_str input = Return (Ok i)"
  then obtain h where "strip_0x input = Some h" "length h = 2 * (0 + 32)" "parse_pairs h 0 32 = Return (Some i)" "eth_id_display i = input"
    by (auto simp: eth_id_from_str_def split: option.splits if_splits call.splits)
  then show "length i = 32 \<and> input = eth_id_display i" using parse_pairs_exact [of h 0 32 i] by simp
next
  assume "length i = 32 \<and> input = eth_id_display i"
  then show "eth_id_from_str input = Return (Ok i)"
    using parse_hex [of i 32] by (simp add: eth_id_from_str_def eth_id_display_def strip_0x_simps del: append.simps)
qed

text \<open>
  C40. An address text is accepted if and only if it is the prefix and twenty pairs that each read as
  the byte returned, where a pair is two hexadecimal digits of either case or a plus sign and one digit;
  the display of an address is read back as the address.
\<close>

theorem address_text_exact:
  "(address_from_str input = Return (Ok a) \<longleftrightarrow>
      length a = 20 \<and> length input = 42 \<and> take 2 input = ''0x'' \<and>
      (\<forall>k < 20. pair_reads (take 2 (drop (2 + 2 * k) input)) (a ! k))) \<and>
   (length a = 20 \<longrightarrow> address_from_str (eth_address_display a) = Return (Ok a))"
proof -
  have "address_from_str input = Return (Ok a) \<longleftrightarrow>
      length a = 20 \<and> length input = 42 \<and> take 2 input = ''0x'' \<and>
      (\<forall>k < 20. pair_reads (take 2 (drop (2 + 2 * k) input)) (a ! k))"
  proof (cases "take 2 input = ''0x''")
    case True
    then obtain h where "input = ''0x'' @ h" by (metis append_take_drop_id)
    then show ?thesis using address_from_str_pairs [of h a] by (simp add: eval_nat_numeral)
  next
    case False
    then show ?thesis by (simp add: address_from_str_def strip_0x_def)
  qed
  moreover have "address_from_str (eth_address_display a) = Return (Ok a)" if "length a = 20"
    using parse_hex [OF that] that by (simp add: address_from_str_def eth_address_display_def strip_0x_simps del: append.simps)
  ultimately show ?thesis by blast
qed

theorem address_text_exact_witness:
  "address_from_str (eth_address_display (replicate 20 (171 :: u8))) = Return (Ok (replicate 20 171))"
  using address_text_exact [of "[]" "replicate 20 171"] by simp

text \<open>Converting an amount to decimal ether and back gives the same amount.\<close>

theorem wei_decimal_roundtrip: "wei_from_decimal (wei_decimal w) = Ok w"
proof -
  have "unat w < 256 ^ 32" using unat_less [of w] by simp
  then have "length (to_bytes_be (unat w)) \<le> 32" using length_to_bytes_be [of "unat w" 31] by auto
  then show ?thesis
    by (simp add: wei_from_decimal_def wei_decimal_def to_atomic_be_bytes_def atomic_inverse Let_def)
qed

end
