(* ===== verification/Transaction_Values.thy ===== *)
theory Transaction_Values
  imports Chain_Values
begin

text \<open>
  The chain-independent transaction errors of \<open>sdk/chains/base/src/transaction.rs\<close>. An error that
  carries a transaction id says that the submission may have happened.
\<close>

datatype transaction_error_kind =
  TxInvalidAddress | TxInvalidAmount | TxInvalidSnapshot | TxInvalidTransaction | TxUnsupported | TxInsufficientFunds
| TxFee | TxSigning | TxUnavailable | TxDivergent | TxRejected | TxUnknown | TxTimeout

text \<open>A transaction id is its canonical text.\<close>

record transaction_error =
  te_kind :: transaction_error_kind
  te_message :: string
  te_ambiguous :: "string option"

definition transaction_error_new :: "transaction_error_kind \<Rightarrow> string \<Rightarrow> transaction_error" where
  "transaction_error_new kind message = \<lparr>te_kind = kind, te_message = message, te_ambiguous = None\<rparr>"

definition with_ambiguous_transaction_id :: "transaction_error \<Rightarrow> string \<Rightarrow> transaction_error" where
  "with_ambiguous_transaction_id e i = e\<lparr>te_ambiguous := Some i\<rparr>"

lemma transaction_error_fields [simp]:
  "te_ambiguous (transaction_error_new k m) = None"
  "te_ambiguous (with_ambiguous_transaction_id e i) = Some i"
  by (simp_all add: transaction_error_new_def with_ambiguous_transaction_id_def)

end
