(* ===== verification/Json.thy ===== *)
theory Json
  imports Decimal
begin

text \<open>
  JSON values as the \<open>serde_json\<close> crate presents them: a number keeps its text, an object its members in order.
  Reading a text as a value belongs to that crate and is a parameter wherever it is used.
\<close>

datatype json =
  JNull | JBool bool | JNumber string | JString string | JArray "json list" | JObject "(string \<times> json) list"

type_synonym members = "(string \<times> json) list"

fun json_get :: "json \<Rightarrow> string \<Rightarrow> json option" where
  "json_get (JObject members) name = map_of members name"
| "json_get _ name = None"

fun json_as_str :: "json \<Rightarrow> string option" where
  "json_as_str (JString s) = Some s"
| "json_as_str _ = None"

fun json_as_object :: "json \<Rightarrow> members option" where
  "json_as_object (JObject members) = Some members"
| "json_as_object _ = None"

fun json_as_array :: "json \<Rightarrow> json list option" where
  "json_as_array (JArray xs) = Some xs"
| "json_as_array _ = None"

fun json_as_bool :: "json \<Rightarrow> bool option" where
  "json_as_bool (JBool b) = Some b"
| "json_as_bool _ = None"

fun json_as_number :: "json \<Rightarrow> string option" where
  "json_as_number (JNumber s) = Some s"
| "json_as_number _ = None"

text \<open>\<open>str::parse::<u64>\<close> on a text of digits.\<close>

definition digits_u64 :: "string \<Rightarrow> u64 option" where
  "digits_u64 s = (if s \<noteq> [] \<and> list_all is_digit s \<and> parse_digits s < 2 ^ 64 then Some (of_nat (parse_digits s)) else None)"

text \<open>A JSON number has no leading plus sign, so it is a \<open>u64\<close> exactly when it is a text of digits in range.\<close>

definition json_as_u64 :: "json \<Rightarrow> u64 option" where
  "json_as_u64 j = Option.bind (json_as_number j) digits_u64"

lemma json_as_object_iff: "json_as_object j = Some members \<longleftrightarrow> j = JObject members"
  by (cases j) auto

lemma json_as_array_iff: "json_as_array j = Some xs \<longleftrightarrow> j = JArray xs"
  by (cases j) auto

lemma json_as_str_iff: "json_as_str j = Some s \<longleftrightarrow> j = JString s"
  by (cases j) auto

lemma digits_u64_iff:
  "digits_u64 s = Some v \<longleftrightarrow> s \<noteq> [] \<and> list_all is_digit s \<and> unat v = parse_digits s"
proof -
  have "unat (of_nat (parse_digits s) :: u64) = parse_digits s" if "parse_digits s < 2 ^ 64"
    using that by (simp add: unat_of_nat)
  moreover have "parse_digits s < 2 ^ 64" if "unat v = parse_digits s" using that unat_less [of v] by simp
  ultimately show ?thesis by (auto simp: digits_u64_def word_unat_eq_iff)
qed

end
