(* ===== verification/Eth_Rpc.thy ===== *)
theory Eth_Rpc
  imports Eth_Values Transaction_Values Json
begin

text \<open>
  The JSON-RPC methods of the Ethereum crate (\<open>sdk/chains/ethereum/src/rpc\<close>): the wire syntax of
  quantities, construction limits, account reads, the preflight that fixes gas and fees of a transfer,
  and the submission of a signed envelope. The transport, the hexadecimal decoder and the ABI codec are
  parameters of the record \<open>eth_rpc\<close>; a call is any function on the state of the outside world.
\<close>

section \<open>Call failures\<close>

record rpc_failure =
  rf_code :: int
  rf_message :: string
  rf_data :: "json option"

datatype call_error = CallLocal source_error | CallRemote rpc_failure

fun contains :: "string \<Rightarrow> string \<Rightarrow> bool" where
  "contains [] needle \<longleftrightarrow> needle = []"
| "contains (c # text) needle \<longleftrightarrow> take (length needle) (c # text) = needle \<or> contains text needle"

definition is_already_known :: "call_error \<Rightarrow> bool" where
  "is_already_known e \<longleftrightarrow>
     (case e of
        CallLocal _ \<Rightarrow> False
      | CallRemote failure \<Rightarrow>
          (let message = map ascii_lower (rf_message failure) in
           contains message ''already known'' \<or> contains message ''known transaction''))"

definition execution_revert_code :: "call_error \<Rightarrow> int option" where
  "execution_revert_code e =
     (case e of
        CallLocal _ \<Rightarrow> None
      | CallRemote failure \<Rightarrow>
          (let message = map ascii_lower (rf_message failure) in
           if contains message ''execution reverted'' \<or> contains message ''execution revert'' then Some (rf_code failure) else None))"

definition eth_source_error :: "string \<Rightarrow> bool \<Rightarrow> source_error" where
  "eth_source_error message retryable = \<lparr>se_message = message, se_retryable = retryable\<rparr>"

definition RETRYABLE_MESSAGES :: "string list" where
  "RETRYABLE_MESSAGES =
     [''rate limit'', ''too many requests'', ''temporarily unavailable'', ''timeout'', ''timed out'', ''try again'', ''overloaded'']"

definition int_text :: "int \<Rightarrow> string" where
  "int_text i = (if i < 0 then ''-'' @ to_digits (nat (- i)) else to_digits (nat i))"

definition remote_failed_error :: "string \<Rightarrow> int \<Rightarrow> bool \<Rightarrow> source_error" where
  "remote_failed_error method code retryable =
     eth_source_error (''Ethereum JSON-RPC '' @ method @ '' failed with code '' @ int_text code) retryable"

definition into_source :: "call_error \<Rightarrow> string \<Rightarrow> source_error" where
  "into_source e method =
     (case e of
        CallLocal error1 \<Rightarrow> error1
      | CallRemote failure \<Rightarrow>
          (let retryable = rf_code failure \<in> {- 32605, - 32603, - 32005} \<or>
                 list_ex (contains (map ascii_lower (rf_message failure))) RETRYABLE_MESSAGES in
           remote_failed_error method (rf_code failure) retryable))"

definition invalid_rpc_response :: "string \<Rightarrow> string \<Rightarrow> source_error" where
  "invalid_rpc_response method message =
     eth_source_error (''Ethereum RPC '' @ method @ '' returned an invalid response: '' @ message) False"

section \<open>Quantities\<close>

definition quantity_no_prefix :: string where "quantity_no_prefix = ''hex quantity has no 0x prefix''"
definition quantity_empty :: string where "quantity_empty = ''hex quantity is empty''"
definition quantity_leading_zero :: string where "quantity_leading_zero = ''hex quantity contains a leading zero''"
definition quantity_invalid :: string where "quantity_invalid = ''hex quantity contains invalid data''"
definition quantity_exceeds_u64 :: string where "quantity_exceeds_u64 = ''hex quantity exceeds u64''"
definition quantity_exceeds_256 :: string where "quantity_exceeds_256 = ''hex quantity exceeds 256 bits''"

definition quantity_digits :: "string \<Rightarrow> (string, string) result" where
  "quantity_digits text =
     and_then (ok_or (strip_0x text) quantity_no_prefix) (\<lambda>digits.
     and_then (fail_if (digits = []) quantity_empty) (\<lambda>_.
     and_then (fail_if (1 < length digits \<and> hd digits = CHR ''0'') quantity_leading_zero) (\<lambda>_.
     and_then (fail_if (\<not> list_all (\<lambda>c. hex_value c \<noteq> None) digits) quantity_invalid) (\<lambda>_.
     Ok digits))))"

text \<open>The value of hexadecimal digits; both parsers are only given hexadecimal digits.\<close>

definition hex_number :: "string \<Rightarrow> nat" where
  "hex_number digits = foldl (\<lambda>v c. v * 16 + (case hex_value c of Some d \<Rightarrow> d | None \<Rightarrow> 0)) 0 digits"

definition parse_quantity_u64 :: "string \<Rightarrow> (string, u64) result" where
  "parse_quantity_u64 text =
     and_then (quantity_digits text) (\<lambda>digits.
     if hex_number digits < 2 ^ 64 then Ok (of_nat (hex_number digits)) else Err quantity_exceeds_u64)"

definition wei_from_quantity :: "string \<Rightarrow> (string, wei) result" where
  "wei_from_quantity text =
     and_then (quantity_digits text) (\<lambda>digits.
     and_then (fail_if (64 < length digits) quantity_exceeds_256) (\<lambda>_.
     Ok (of_nat (hex_number digits))))"

fun hex_text :: "nat \<Rightarrow> string" where
  "hex_text n = (if n < 16 then [hex_digit n] else hex_text (n div 16) @ [hex_digit (n mod 16)])"

declare hex_text.simps [simp del]

text \<open>\<open>{:#x}\<close>.\<close>

definition wei_to_quantity :: "wei \<Rightarrow> string" where
  "wei_to_quantity w = ''0x'' @ hex_text (unat w)"

section \<open>Construction limits\<close>

datatype build_error_kind = InvalidConfiguration | HttpTransport

record build_error =
  be_kind :: build_error_kind
  be_message :: string

definition build_error_invalid :: "string \<Rightarrow> build_error" where
  "build_error_invalid message = \<lparr>be_kind = InvalidConfiguration, be_message = message\<rparr>"

definition BASIS_POINTS_DENOMINATOR :: u64 where "BASIS_POINTS_DENOMINATOR = 10000"

record limits =
  li_max_input_bytes :: nat
  li_margin_basis_points :: u32
  li_max_gas_limit :: u64
  li_max_fee_per_gas :: wei
  li_max_priority_fee_per_gas :: wei
  li_max_total_fee :: wei

definition zero_input_error :: build_error where
  "zero_input_error = build_error_invalid ''Ethereum RPC maximum transaction input size must be greater than zero''"
definition margin_error :: build_error where
  "margin_error = build_error_invalid ''Ethereum RPC gas-limit margin must not exceed 10000 basis points''"
definition zero_max_gas_error :: build_error where
  "zero_max_gas_error = build_error_invalid ''Ethereum RPC maximum gas limit must be greater than zero''"
definition zero_ceiling_error :: build_error where
  "zero_ceiling_error = build_error_invalid ''Ethereum RPC fee ceilings must be greater than zero''"
definition priority_ceiling_error :: build_error where
  "priority_ceiling_error = build_error_invalid ''Ethereum RPC priority-fee ceiling must not exceed the max-fee ceiling''"

definition limits_new :: "nat \<Rightarrow> u32 \<Rightarrow> u64 \<Rightarrow> wei \<Rightarrow> wei \<Rightarrow> wei \<Rightarrow> (build_error, limits) result" where
  "limits_new max_input_bytes margin max_gas_limit max_fee_per_gas max_priority_fee_per_gas max_total_fee =
     and_then (fail_if (max_input_bytes = 0) zero_input_error) (\<lambda>_.
     and_then (fail_if ((ucast margin :: u64) > BASIS_POINTS_DENOMINATOR) margin_error) (\<lambda>_.
     and_then (fail_if (max_gas_limit = 0) zero_max_gas_error) (\<lambda>_.
     and_then (fail_if (wei_is_zero max_fee_per_gas \<or> wei_is_zero max_total_fee) zero_ceiling_error) (\<lambda>_.
     and_then (fail_if (max_priority_fee_per_gas > max_fee_per_gas) priority_ceiling_error) (\<lambda>_.
     Ok \<lparr>li_max_input_bytes = max_input_bytes, li_margin_basis_points = margin, li_max_gas_limit = max_gas_limit,
         li_max_fee_per_gas = max_fee_per_gas, li_max_priority_fee_per_gas = max_priority_fee_per_gas,
         li_max_total_fee = max_total_fee\<rparr>)))))"

definition margin_overflow_error :: source_error where
  "margin_overflow_error = invalid_rpc_response ''eth_estimateGas'' ''gas margin overflowed''"
definition margin_u64_error :: source_error where
  "margin_u64_error = invalid_rpc_response ''eth_estimateGas'' ''gas margin exceeds u64''"
definition gas_u64_error :: source_error where
  "gas_u64_error = invalid_rpc_response ''eth_estimateGas'' ''gas limit with margin exceeds u64''"

definition gas_limit_with_margin :: "limits \<Rightarrow> u64 \<Rightarrow> (source_error, u64) result" where
  "gas_limit_with_margin l estimated =
     and_then (ok_or (checked_mul (ucast estimated :: 128 word) (ucast (li_margin_basis_points l))) margin_overflow_error) (\<lambda>numerator.
     and_then (ok_or
       (Option.bind (map_option (\<lambda>v. v div ucast BASIS_POINTS_DENOMINATOR)
          (checked_add numerator (ucast (BASIS_POINTS_DENOMINATOR - 1))))
          (\<lambda>v. if unat v < 2 ^ 64 then Some (ucast v :: u64) else None))
       margin_u64_error) (\<lambda>margin.
     ok_or (checked_add estimated margin) gas_u64_error))"

section \<open>The client\<close>

text \<open>
  The transport (\<open>call\<close> retries and fails over, \<open>call_once\<close> does not), the error of an answer that is
  not a text, the hexadecimal codec, the ABI codec and the hash function.
\<close>

record 'w eth_rpc =
  er_call :: "string \<Rightarrow> json \<Rightarrow> ('w, call_error, json) eff"
  er_call_once :: "string \<Rightarrow> json \<Rightarrow> ('w, call_error, json) eff"
  er_expected_chain_id :: u64
  er_limits :: "limits option"
  er_not_text :: source_error
  er_decode_hex :: "string \<Rightarrow> u8 list option"
  er_decode_data :: "string \<Rightarrow> u8 list option"
  er_encode_data :: "u8 list \<Rightarrow> string"
  er_abi_transfer :: "eth_address \<Rightarrow> wei \<Rightarrow> u8 list"
  er_abi_balance_of :: "eth_address \<Rightarrow> u8 list"
  er_abi_decimals :: "u8 list"
  er_abi_read_uint256 :: "u8 list \<Rightarrow> wei option"
  er_abi_write_uint256 :: "wei \<Rightarrow> u8 list"
  er_abi_read_uint8 :: "u8 list \<Rightarrow> u8 option"
  er_abi_write_uint8 :: "u8 \<Rightarrow> u8 list"
  er_abi_read_bool :: "u8 list \<Rightarrow> bool option"
  er_abi_write_bool :: "bool \<Rightarrow> u8 list"
  er_keccak256 :: "u8 list \<Rightarrow> u8 list"

definition chain_id_zero_error :: build_error where
  "chain_id_zero_error = build_error_invalid ''expected Ethereum chain ID must be non-zero''"

definition from_client :: "'w eth_rpc \<Rightarrow> u64 \<Rightarrow> limits option \<Rightarrow> (build_error, 'w eth_rpc) result" where
  "from_client client expected_chain_id lims =
     and_then (fail_if (expected_chain_id = 0) chain_id_zero_error) (\<lambda>_.
     Ok (client\<lparr>er_expected_chain_id := expected_chain_id, er_limits := lims\<rparr>))"

definition no_limits_error :: source_error where
  "no_limits_error = eth_source_error ''Ethereum transaction adapter has no construction limits'' False"

definition methods_limits :: "'w eth_rpc \<Rightarrow> (source_error, limits) result" where
  "methods_limits m = ok_or (er_limits m) no_limits_error"

definition request_result :: "'w eth_rpc \<Rightarrow> string \<Rightarrow> json \<Rightarrow> ('w, source_error, json) eff" where
  "request_result m method params = eff_err (\<lambda>e. into_source e method) (er_call m method params)"

text \<open>\<open>raw.deserialize::<String>()\<close>.\<close>

definition json_text :: "'w eth_rpc \<Rightarrow> json \<Rightarrow> (source_error, string) result" where
  "json_text m v = ok_or (json_as_str v) (er_not_text m)"

definition rpc_u64 :: "'w eth_rpc \<Rightarrow> string \<Rightarrow> json \<Rightarrow> ('w, source_error, u64) eff" where
  "rpc_u64 m method params =
     bind_eff (request_result m method params) (\<lambda>raw.
     lift_result (and_then (json_text m raw) (\<lambda>text. map_err (invalid_rpc_response method) (parse_quantity_u64 text))))"

definition rpc_wei :: "'w eth_rpc \<Rightarrow> string \<Rightarrow> json \<Rightarrow> ('w, source_error, wei) eff" where
  "rpc_wei m method params =
     bind_eff (request_result m method params) (\<lambda>raw.
     lift_result (and_then (json_text m raw) (\<lambda>text. map_err (invalid_rpc_response method) (wei_from_quantity text))))"

definition chain_id_message :: "u64 \<Rightarrow> u64 \<Rightarrow> string" where
  "chain_id_message actual expected =
     ''Ethereum RPC chain ID '' @ to_digits (unat actual) @ '' does not match configured chain ID '' @ to_digits (unat expected)"

definition verify_chain_id :: "'w eth_rpc \<Rightarrow> ('w, source_error, unit) eff" where
  "verify_chain_id m =
     bind_eff (rpc_u64 m ''eth_chainId'' (JArray [])) (\<lambda>actual.
     lift_result (fail_if (actual \<noteq> er_expected_chain_id m)
       (eth_source_error (chain_id_message actual (er_expected_chain_id m)) False)))"

definition data_no_prefix :: string where "data_no_prefix = ''hex data has no 0x prefix''"
definition data_length :: string where "data_length = ''hex data has an invalid length''"
definition data_invalid :: string where "data_invalid = ''hex data contains invalid data''"

definition parse_fixed_data :: "'w eth_rpc \<Rightarrow> nat \<Rightarrow> string \<Rightarrow> (string, u8 list) result" where
  "parse_fixed_data m n text =
     and_then (ok_or (strip_0x text) data_no_prefix) (\<lambda>digits.
     and_then (fail_if (length digits \<noteq> n * 2) data_length) (\<lambda>_.
     ok_or (er_decode_hex m digits) data_invalid))"

definition parse_data :: "'w eth_rpc \<Rightarrow> string \<Rightarrow> (string, u8 list) result" where
  "parse_data m text =
     and_then (ok_or (strip_0x text) data_no_prefix) (\<lambda>digits.
     and_then (fail_if (length digits mod 2 \<noteq> 0) data_length) (\<lambda>_.
     ok_or (er_decode_data m text) data_invalid))"

definition id_from_rpc :: "'w eth_rpc \<Rightarrow> string \<Rightarrow> string \<Rightarrow> (source_error, eth_id) result" where
  "id_from_rpc m text method = map_err (invalid_rpc_response method) (parse_fixed_data m 32 text)"

definition block_parameter :: "'w eth_rpc \<Rightarrow> u8 list \<Rightarrow> json" where
  "block_parameter m hash = JObject [(''blockHash'', JString (er_encode_data m hash)), (''requireCanonical'', JBool True)]"

definition latest_hash_error :: source_error where
  "latest_hash_error = invalid_rpc_response ''eth_getBlockByNumber'' ''latest block has no hash''"

definition latest_canonical_parameter :: "'w eth_rpc \<Rightarrow> ('w, source_error, json) eff" where
  "latest_canonical_parameter m =
     bind_eff (request_result m ''eth_getBlockByNumber'' (JArray [JString ''latest'', JBool False])) (\<lambda>block.
     lift_result (
       and_then (ok_or (Option.bind (json_get block ''hash'') json_as_str) latest_hash_error) (\<lambda>hash.
       and_then (map_err (invalid_rpc_response ''eth_getBlockByNumber'') (parse_fixed_data m 32 hash)) (\<lambda>hash.
       Ok (block_parameter m hash)))))"

definition lookup_hash_error :: source_error where
  "lookup_hash_error = invalid_rpc_response ''eth_getTransactionByHash'' ''transaction object has no hash''"
definition lookup_mismatch_error :: source_error where
  "lookup_mismatch_error = invalid_rpc_response ''eth_getTransactionByHash'' ''transaction object hash does not match the lookup''"

definition confirm_known_transaction :: "'w eth_rpc \<Rightarrow> eth_id \<Rightarrow> ('w, source_error, bool) eff" where
  "confirm_known_transaction m expected =
     bind_eff (request_result m ''eth_getTransactionByHash'' (JArray [JString (eth_id_display expected)])) (\<lambda>found.
     lift_result (
       if found = JNull then Ok False
       else
         and_then (ok_or (Option.bind (json_get found ''hash'') json_as_str) lookup_hash_error) (\<lambda>text.
         and_then (id_from_rpc m text ''eth_getTransactionByHash'') (\<lambda>returned.
         and_then (fail_if (returned \<noteq> expected) lookup_mismatch_error) (\<lambda>_.
         Ok True)))))"

section \<open>Accounts\<close>

datatype asset_kind = AssetNative | AssetErc20 eth_address

definition decode_balance :: "'w eth_rpc \<Rightarrow> u8 list \<Rightarrow> (string, wei) result" where
  "decode_balance m word1 =
     and_then (ok_or (er_abi_read_uint256 m word1) ''invalid balanceOf ABI word'') (\<lambda>v.
     and_then (fail_if (er_abi_write_uint256 m v \<noteq> word1) ''non-canonical balanceOf ABI word'') (\<lambda>_. Ok v))"

definition decode_decimals :: "'w eth_rpc \<Rightarrow> u8 list \<Rightarrow> (string, u8) result" where
  "decode_decimals m word1 =
     and_then (ok_or (er_abi_read_uint8 m word1) ''invalid decimals ABI word'') (\<lambda>v.
     and_then (fail_if (er_abi_write_uint8 m v \<noteq> word1) ''non-canonical decimals ABI word'') (\<lambda>_. Ok v))"

definition decode_transfer :: "'w eth_rpc \<Rightarrow> u8 list \<Rightarrow> (string, bool) result" where
  "decode_transfer m word1 =
     and_then (ok_or (er_abi_read_bool m word1) ''invalid transfer ABI word'') (\<lambda>v.
     and_then (fail_if (er_abi_write_bool m v \<noteq> word1) ''non-canonical transfer ABI word'') (\<lambda>_. Ok v))"

definition block_hash_error :: source_error where
  "block_hash_error = eth_source_error ''Ethereum balance block hash must contain exactly 32 bytes'' False"
definition zero_token_error :: source_error where
  "zero_token_error = eth_source_error ''Ethereum ERC-20 token address must not be zero'' False"
definition balance_word_error :: source_error where
  "balance_word_error = invalid_rpc_response ''eth_call'' ''invalid balanceOf result''"

definition token_call :: "'w eth_rpc \<Rightarrow> eth_address \<Rightarrow> u8 list \<Rightarrow> json" where
  "token_call m token data = JObject [(''to'', JString (eth_address_display token)), (''data'', JString (er_encode_data m data))]"

definition erc20_word :: "'w eth_rpc \<Rightarrow> eth_address \<Rightarrow> u8 list \<Rightarrow> json \<Rightarrow> ('w, source_error, u8 list) eff" where
  "erc20_word m token input block =
     bind_eff (request_result m ''eth_call'' (JArray [token_call m token input, block])) (\<lambda>raw.
     lift_result (and_then (json_text m raw) (\<lambda>text. map_err (invalid_rpc_response ''eth_call'') (parse_fixed_data m 32 text))))"

definition balance_block :: "'w eth_rpc \<Rightarrow> block_ref option \<Rightarrow> (source_error, json) result" where
  "balance_block m at_block =
     (case at_block of
        None \<Rightarrow> Ok (JString ''pending'')
      | Some block \<Rightarrow>
          and_then (fail_if (length (br_hash block) \<noteq> 32) block_hash_error) (\<lambda>_. Ok (block_parameter m (br_hash block))))"

definition eth_balance :: "'w eth_rpc \<Rightarrow> eth_address \<Rightarrow> asset_kind \<Rightarrow> block_ref option \<Rightarrow> ('w, source_error, wei) eff" where
  "eth_balance m address asset at_block =
     bind_eff (lift_result (balance_block m at_block)) (\<lambda>block.
     case asset of
       AssetNative \<Rightarrow> rpc_wei m ''eth_getBalance'' (JArray [JString (eth_address_display address), block])
     | AssetErc20 token \<Rightarrow>
         bind_eff (lift_result (fail_if (eth_address_is_zero token) zero_token_error)) (\<lambda>_.
         bind_eff (erc20_word m token (er_abi_balance_of m address) block) (\<lambda>word1.
         lift_result (map_err (\<lambda>_. balance_word_error) (decode_balance m word1)))))"

definition eth_nonce :: "'w eth_rpc \<Rightarrow> eth_address \<Rightarrow> ('w, source_error, u64) eff" where
  "eth_nonce m address =
     rpc_u64 m ''eth_getTransactionCount'' (JArray [JString (eth_address_display address), JString ''pending''])"

definition no_code_error :: source_error where
  "no_code_error = eth_source_error ''Ethereum ERC-20 token address has no deployed code'' False"
definition decimals_word_error :: source_error where
  "decimals_word_error = invalid_rpc_response ''eth_call'' ''invalid ERC-20 decimals result''"
definition token_balance_word_error :: source_error where
  "token_balance_word_error = invalid_rpc_response ''eth_call'' ''invalid ERC-20 balanceOf result''"
definition decimals_mismatch_error :: "u8 \<Rightarrow> u8 \<Rightarrow> source_error" where
  "decimals_mismatch_error actual expected = eth_source_error
     (''Ethereum ERC-20 token decimals '' @ to_digits (unat actual) @ '' do not match configured decimals '' @ to_digits (unat expected)) False"

definition validate_token :: "'w eth_rpc \<Rightarrow> eth_address \<Rightarrow> u8 \<Rightarrow> ('w, source_error, unit) eff" where
  "validate_token m token expected_decimals =
     bind_eff (lift_result (fail_if (eth_address_is_zero token) zero_token_error)) (\<lambda>_.
     bind_eff (verify_chain_id m) (\<lambda>_.
     bind_eff (latest_canonical_parameter m) (\<lambda>block.
     bind_eff (request_result m ''eth_getCode'' (JArray [JString (eth_address_display token), block])) (\<lambda>raw.
     bind_eff (lift_result (and_then (json_text m raw) (\<lambda>code.
       and_then (map_err (invalid_rpc_response ''eth_getCode'') (parse_data m code)) (\<lambda>bytes.
       fail_if (bytes = []) no_code_error)))) (\<lambda>_.
     bind_eff (erc20_word m token (er_abi_decimals m) block) (\<lambda>word1.
     bind_eff (lift_result (map_err (\<lambda>_. decimals_word_error) (decode_decimals m word1))) (\<lambda>decimals.
     bind_eff (lift_result (fail_if (decimals \<noteq> expected_decimals) (decimals_mismatch_error decimals expected_decimals))) (\<lambda>_.
     bind_eff (erc20_word m token (er_abi_balance_of m (replicate 20 0)) block) (\<lambda>word1.
     bind_eff (lift_result (map_err (\<lambda>_. token_balance_word_error) (decode_balance m word1))) (\<lambda>_.
     ret ()))))))))))"

section \<open>The preflight of a transfer\<close>

definition input_size_error :: eth_error where
  "input_size_error = eth_error_new EthInvalidTransaction ''Ethereum transaction input exceeds the configured size limit''"
definition zero_estimate_error :: eth_error where
  "zero_estimate_error = eth_error_from_rpc (invalid_rpc_response ''eth_estimateGas'' ''estimated gas limit is zero'')"
definition gas_ceiling_error :: eth_error where
  "gas_ceiling_error = eth_error_new EthFeeUnavailable ''Ethereum estimated gas limit exceeds the configured ceiling''"
definition priority_over_ceiling_error :: eth_error where
  "priority_over_ceiling_error = eth_error_new EthFeeUnavailable ''Ethereum priority fee exceeds the configured ceiling''"
definition no_base_fee_error :: eth_error where
  "no_base_fee_error = eth_error_from_rpc (invalid_rpc_response ''eth_getBlockByNumber'' ''latest block has no EIP-1559 baseFeePerGas'')"
definition fee_overflow_error :: eth_error where
  "fee_overflow_error = eth_error_from_rpc (invalid_rpc_response ''eth_getBlockByNumber'' ''fee calculation overflowed U256'')"
definition fee_over_ceiling_error :: eth_error where
  "fee_over_ceiling_error = eth_error_new EthFeeUnavailable ''Ethereum max fee per gas exceeds the configured ceiling''"
definition fee_below_priority_error :: eth_error where
  "fee_below_priority_error = eth_error_from_rpc (invalid_rpc_response ''eth_getBlockByNumber'' ''calculated max fee is below the priority fee'')"
definition total_fee_overflow_error :: eth_error where
  "total_fee_overflow_error = eth_error_new EthFeeUnavailable ''Ethereum maximum transaction fee overflowed U256''"
definition total_over_ceiling_error :: eth_error where
  "total_over_ceiling_error = eth_error_new EthFeeUnavailable ''Ethereum maximum transaction fee exceeds the configured ceiling''"

definition verify_transaction_chain_id :: "'w eth_rpc \<Rightarrow> ('w, eth_error, unit) eff" where
  "verify_transaction_chain_id m =
     bind_eff (eff_err eth_error_from_rpc (rpc_u64 m ''eth_chainId'' (JArray []))) (\<lambda>actual.
     lift_result (fail_if (actual \<noteq> er_expected_chain_id m)
       (eth_error_new EthDivergent (chain_id_message actual (er_expected_chain_id m)))))"

text \<open>The call with the failure of a reverted execution told apart from the others.\<close>

definition execution_call ::
  "'w eth_rpc \<Rightarrow> string \<Rightarrow> json \<Rightarrow> (int \<Rightarrow> eth_error) \<Rightarrow> ('w, eth_error, json) eff" where
  "execution_call m method params reverted =
     eff_err (\<lambda>e. case execution_revert_code e of Some code \<Rightarrow> reverted code | None \<Rightarrow> eth_error_from_rpc (into_source e method))
       (er_call m method params)"

definition estimate_rejected_error :: "int \<Rightarrow> eth_error" where
  "estimate_rejected_error code = eth_error_new EthRejected (''Ethereum gas estimation was rejected with code '' @ int_text code)"

definition estimate_gas :: "'w eth_rpc \<Rightarrow> json \<Rightarrow> ('w, eth_error, u64) eff" where
  "estimate_gas m transaction =
     bind_eff (execution_call m ''eth_estimateGas'' (JArray [transaction]) estimate_rejected_error) (\<lambda>raw.
     lift_result (map_err eth_error_from_rpc (and_then (json_text m raw) (\<lambda>text.
       map_err (invalid_rpc_response ''eth_estimateGas'') (parse_quantity_u64 text)))))"

definition simulation_rejected_error :: "int \<Rightarrow> eth_error" where
  "simulation_rejected_error code =
     eth_error_new EthRejected (''Ethereum ERC-20 transfer simulation was rejected with code '' @ int_text code)"
definition simulation_json_error :: eth_error where
  "simulation_json_error = eth_error_new EthRejected ''Ethereum ERC-20 transfer simulation returned an invalid JSON value''"
definition simulation_data_error :: "string \<Rightarrow> eth_error" where
  "simulation_data_error message =
     eth_error_new EthRejected (''Ethereum ERC-20 transfer simulation returned invalid data: '' @ message)"
definition simulation_abi_error :: eth_error where
  "simulation_abi_error = eth_error_new EthRejected ''Ethereum ERC-20 transfer simulation returned an invalid ABI result''"
definition simulation_false_error :: eth_error where
  "simulation_false_error = eth_error_new EthRejected ''Ethereum ERC-20 transfer simulation returned false''"

definition simulate_token_transfer :: "'w eth_rpc \<Rightarrow> json \<Rightarrow> ('w, eth_error, unit) eff" where
  "simulate_token_transfer m transaction =
     bind_eff (execution_call m ''eth_call'' (JArray [transaction, JString ''pending'']) simulation_rejected_error) (\<lambda>raw.
     lift_result (
       and_then (ok_or (json_as_str raw) simulation_json_error) (\<lambda>text.
       and_then (map_err simulation_data_error (parse_fixed_data m 32 text)) (\<lambda>word1.
       and_then (map_err (\<lambda>_. simulation_abi_error) (decode_transfer m word1)) (\<lambda>transferred.
       fail_if (\<not> transferred) simulation_false_error)))))"

definition token_funds_error :: eth_error where
  "token_funds_error = eth_error_new EthInsufficientFunds ''Ethereum ERC-20 balance is insufficient for the transfer amount''"

definition ensure_token_amount :: "'w eth_rpc \<Rightarrow> transfer_request \<Rightarrow> ('w, eth_error, unit) eff" where
  "ensure_token_amount m request =
     (case erc20_transfer request of
        None \<Rightarrow> ret ()
      | Some (token, amount) \<Rightarrow>
          bind_eff (eff_err eth_error_from_rpc (eth_balance m (transfer_from request) (AssetErc20 token) None)) (\<lambda>token_balance.
          lift_result (fail_if (token_balance < amount) token_funds_error)))"

definition value_fee_overflow_error :: eth_error where
  "value_fee_overflow_error = eth_error_new EthFeeUnavailable ''Ethereum transfer value plus maximum fee overflowed U256''"
definition native_funds_error :: eth_error where
  "native_funds_error = eth_error_new EthInsufficientFunds ''Ethereum native balance is insufficient for transfer value and maximum fee''"
definition fee_funds_error :: eth_error where
  "fee_funds_error = eth_error_new EthInsufficientFunds ''Ethereum native balance is insufficient for the ERC-20 maximum fee''"

definition native_funds_check :: "transfer_request \<Rightarrow> wei \<Rightarrow> wei \<Rightarrow> (eth_error, unit) result" where
  "native_funds_check request total_fee native_balance =
     (if erc20_transfer request = None then
        and_then (ok_or (checked_add (transfer_value request) total_fee) value_fee_overflow_error) (\<lambda>required.
        fail_if (native_balance < required) native_funds_error)
      else fail_if (native_balance < total_fee) fee_funds_error)"

definition ensure_native_funds :: "'w eth_rpc \<Rightarrow> transfer_request \<Rightarrow> wei \<Rightarrow> ('w, eth_error, unit) eff" where
  "ensure_native_funds m request total_fee =
     bind_eff (eff_err eth_error_from_rpc (eth_balance m (transfer_from request) AssetNative None)) (\<lambda>native_balance.
     lift_result (native_funds_check request total_fee native_balance))"

definition transaction_json :: "'w eth_rpc \<Rightarrow> transfer_request \<Rightarrow> json" where
  "transaction_json m request =
     JObject [(''from'', JString (eth_address_display (transfer_from request))),
              (''to'', JString (eth_address_display (transfer_to request))),
              (''value'', JString (wei_to_quantity (transfer_value request))),
              (''data'', JString (er_encode_data m (transfer_input (er_abi_transfer m) request)))]"

text \<open>The fees of the preflight: priority fee and maximum fee within the ceilings.\<close>

definition preflight_fees :: "'w eth_rpc \<Rightarrow> limits \<Rightarrow> ('w, eth_error, wei \<times> wei) eff" where
  "preflight_fees m lims =
     bind_eff (eff_err eth_error_from_rpc (rpc_wei m ''eth_maxPriorityFeePerGas'' (JArray []))) (\<lambda>max_priority_fee_per_gas.
     bind_eff (lift_result (fail_if (max_priority_fee_per_gas > li_max_priority_fee_per_gas lims) priority_over_ceiling_error)) (\<lambda>_.
     bind_eff (eff_err eth_error_from_rpc
       (request_result m ''eth_getBlockByNumber'' (JArray [JString ''latest'', JBool False]))) (\<lambda>latest_block.
     lift_result (
       and_then (ok_or (Option.bind (json_get latest_block ''baseFeePerGas'') json_as_str) no_base_fee_error) (\<lambda>text.
       and_then (map_err (\<lambda>e. eth_error_from_rpc (invalid_rpc_response ''eth_getBlockByNumber'' e)) (wei_from_quantity text)) (\<lambda>base_fee.
       and_then (ok_or (Option.bind (wei_checked_mul_u64 base_fee 2) (\<lambda>fee. checked_add fee max_priority_fee_per_gas))
         fee_overflow_error) (\<lambda>max_fee_per_gas.
       and_then (fail_if (max_fee_per_gas > li_max_fee_per_gas lims) fee_over_ceiling_error) (\<lambda>_.
       and_then (fail_if (max_fee_per_gas < max_priority_fee_per_gas) fee_below_priority_error) (\<lambda>_.
       Ok (max_fee_per_gas, max_priority_fee_per_gas))))))))))"

definition build_context_of :: "'w eth_rpc \<Rightarrow> transfer_request \<Rightarrow> u64 \<Rightarrow> ('w, eth_error, build_context) eff" where
  "build_context_of m request nonce =
     bind_eff (lift_result (map_err eth_error_from_rpc (methods_limits m))) (\<lambda>lims.
     bind_eff (lift_result (fail_if (length (transfer_input (er_abi_transfer m) request) > li_max_input_bytes lims) input_size_error)) (\<lambda>_.
     bind_eff (verify_transaction_chain_id m) (\<lambda>_.
     bind_eff (if erc20_transfer request \<noteq> None
        then bind_eff (ensure_token_amount m request) (\<lambda>_. simulate_token_transfer m (transaction_json m request))
        else ret ()) (\<lambda>_.
     bind_eff (estimate_gas m (transaction_json m request)) (\<lambda>estimated_gas_limit.
     bind_eff (lift_result (fail_if (estimated_gas_limit = 0) zero_estimate_error)) (\<lambda>_.
     bind_eff (lift_result (map_err eth_error_from_rpc (gas_limit_with_margin lims estimated_gas_limit))) (\<lambda>gas_limit.
     bind_eff (lift_result (fail_if (gas_limit > li_max_gas_limit lims) gas_ceiling_error)) (\<lambda>_.
     bind_eff (preflight_fees m lims) (\<lambda>(max_fee_per_gas, max_priority_fee_per_gas).
     bind_eff (lift_result (ok_or (wei_checked_mul_u64 max_fee_per_gas gas_limit) total_fee_overflow_error)) (\<lambda>total_fee.
     bind_eff (lift_result (fail_if (total_fee > li_max_total_fee lims) total_over_ceiling_error)) (\<lambda>_.
     bind_eff (ensure_native_funds m request total_fee) (\<lambda>_.
     ret \<lparr>bc_chain_id = er_expected_chain_id m, bc_nonce = nonce, bc_gas_limit = gas_limit,
          bc_max_fee_per_gas = max_fee_per_gas, bc_max_priority_fee_per_gas = max_priority_fee_per_gas\<rparr>))))))))))))"

section \<open>Submission\<close>

definition ambiguous_submission :: "eth_id \<Rightarrow> string \<Rightarrow> transaction_error" where
  "ambiguous_submission i message =
     with_ambiguous_transaction_id
       (transaction_error_new TxUnavailable (''Ethereum submission outcome is ambiguous: '' @ message)) (eth_id_display i)"

definition envelope_hash_error :: transaction_error where
  "envelope_hash_error = transaction_error_new TxInvalidTransaction ''signed Ethereum envelope hash does not match its transaction ID''"
definition not_exposed_error :: "eth_id \<Rightarrow> transaction_error" where
  "not_exposed_error i = ambiguous_submission i
     ''Ethereum RPC reported an already-known transaction but did not expose the matching hash''"
definition response_hash_error :: "eth_id \<Rightarrow> transaction_error" where
  "response_hash_error i = ambiguous_submission i
     ''Ethereum submission response hash differs from the exact signed envelope; outcome is ambiguous''"

definition submission_answer :: "'w eth_rpc \<Rightarrow> eth_id \<Rightarrow> json \<Rightarrow> (transaction_error, eth_id) result" where
  "submission_answer m computed raw =
     and_then (map_err (\<lambda>e. ambiguous_submission computed (se_message e)) (json_text m raw)) (\<lambda>text.
     and_then (map_err (\<lambda>e. ambiguous_submission computed (se_message e)) (id_from_rpc m text ''eth_sendRawTransaction'')) (\<lambda>returned.
     and_then (fail_if (returned \<noteq> computed) (response_hash_error computed)) (\<lambda>_.
     Ok returned)))"

definition eth_broadcast :: "'w eth_rpc \<Rightarrow> signed_transaction \<Rightarrow> ('w, transaction_error, eth_id) eff" where
  "eth_broadcast m transaction =
     (let computed = er_keccak256 m (st_envelope transaction) in
      if computed \<noteq> st_id transaction then throw envelope_hash_error
      else (\<lambda>w. case er_call_once m ''eth_sendRawTransaction'' (JArray [JString (er_encode_data m (st_envelope transaction))]) w of
          (Ok raw, w') \<Rightarrow> (submission_answer m computed raw, w')
        | (Err e, w') \<Rightarrow>
            if is_already_known e then
              (case confirm_known_transaction m computed w' of
                 (Ok known, w'') \<Rightarrow> (if known then Ok computed else Err (not_exposed_error computed), w'')
               | (Err error1, w'') \<Rightarrow> (Err (ambiguous_submission computed (se_message error1)), w''))
            else (Err (ambiguous_submission computed (se_message (into_source e ''eth_sendRawTransaction''))), w')))"

section \<open>Hexadecimal numbers\<close>

lemma hex_number_simps [simp]:
  "hex_number [] = 0"
  "hex_value c = Some d \<Longrightarrow> hex_number (ds @ [c]) = hex_number ds * 16 + d"
  by (simp_all add: hex_number_def)

lemma hex_text_small: "n < 16 \<Longrightarrow> hex_text n = [hex_digit n]"
  by (simp add: hex_text.simps)

lemma hex_text_step: "\<not> n < 16 \<Longrightarrow> hex_text n = hex_text (n div 16) @ [hex_digit (n mod 16)]"
  by (simp add: hex_text.simps [of n])

lemma hex_text_not_empty [simp]: "hex_text n \<noteq> []"
  by (cases "n < 16") (simp_all add: hex_text_small hex_text_step)

lemma hex_digit_0: "hex_digit 0 = CHR ''0''"
  by code_simp

lemma hex_number_text [simp]: "hex_number (hex_text n) = n"
proof (induction n rule: hex_text.induct)
  case (1 n)
  show ?case
  proof (cases "n < 16")
    case True
    then show ?thesis using hex_number_simps(2) [OF hex_value_digit [OF True], of "[]"] by (simp add: hex_text_small)
  next
    case False
    then show ?thesis using 1 hex_value_digit [of "n mod 16"] by (simp add: hex_text_step)
  qed
qed

lemma hex_text_digits: "list_all (\<lambda>c. hex_value c \<noteq> None) (hex_text n)"
proof (induction n rule: hex_text.induct)
  case (1 n)
  then show ?case
    by (cases "n < 16") (simp_all add: hex_text_small hex_text_step hex_value_digit)
qed

lemma length_hex_text: "length (hex_text n) \<le> Suc k \<longleftrightarrow> n < 16 ^ Suc k"
proof (induction n arbitrary: k rule: hex_text.induct)
  case (1 n)
  show ?case
  proof (cases "n < 16")
    case True
    have "16 \<le> (16 :: nat) ^ Suc k" by simp
    with True have "n < 16 ^ Suc k" by linarith
    with True show ?thesis by (simp add: hex_text_small)
  next
    case False
    show ?thesis
    proof (cases k)
      case 0
      have "0 < length (hex_text (n div 16))" by simp
      with False 0 show ?thesis by (simp add: hex_text_step)
    next
      case (Suc k')
      with 1 False have "length (hex_text (n div 16)) \<le> k \<longleftrightarrow> n div 16 < 16 ^ k" by simp
      also have "\<dots> \<longleftrightarrow> n < 16 ^ Suc k" by (simp add: div_less_iff_less_mult mult.commute)
      finally show ?thesis using False by (simp add: hex_text_step)
    qed
  qed
qed

lemma hd_hex_text: "0 < n \<Longrightarrow> hd (hex_text n) \<noteq> CHR ''0''"
proof (induction n rule: hex_text.induct)
  case (1 n)
  show ?case
  proof (cases "n < 16")
    case True
    have "hex_value (hex_digit n) \<noteq> hex_value CHR ''0''" using True 1(2) by (simp add: hex_value_digit) (simp add: hex_value_def)
    then show ?thesis using True by (auto simp: hex_text_small)
  next
    case False
    then show ?thesis using 1 by (simp add: hex_text_step)
  qed
qed

lemma lower_hex: "hex_value c = Some d \<Longrightarrow> ascii_lower c = hex_digit d"
  by (auto simp: hex_value_def ascii_lower_def hex_digit_def Let_def split: if_splits)

lemma hex_text_of_number:
  assumes "list_all (\<lambda>c. hex_value c \<noteq> None) ds" "ds \<noteq> []" "1 < length ds \<longrightarrow> hd ds \<noteq> CHR ''0''"
  shows "hex_text (hex_number ds) = map ascii_lower ds"
  using assms
proof (induction ds rule: rev_induct)
  case (snoc c ds)
  obtain d where d: "hex_value c = Some d" "d < 16" using snoc.prems(1) hex_value_less by auto
  show ?case
  proof (cases "ds = []")
    case True
    then show ?thesis using d hex_number_simps(2) [OF d(1), of "[]"] by (simp add: hex_text_small lower_hex)
  next
    case False
    then have hd: "hd ds \<noteq> CHR ''0''" using snoc.prems(3) by simp
    have IH: "hex_text (hex_number ds) = map ascii_lower ds" using snoc.IH snoc.prems(1) False hd by simp
    have "hex_number ds \<noteq> 0"
    proof
      assume "hex_number ds = 0"
      then have "[CHR ''0''] = map ascii_lower ds" using IH by (simp add: hex_text_small hex_digit_0)
      then obtain c' where c': "ds = [c']" "ascii_lower c' = CHR ''0''" by auto
      have "c' = CHR ''0''"
      proof (cases "65 \<le> (of_char c' :: nat) \<and> (of_char c' :: nat) \<le> 90")
        case True
        then have "of_char (ascii_lower c') = (of_char c' :: nat) + 32" by (simp add: ascii_lower_def)
        then show ?thesis using True c'(2) by simp
      qed (use c'(2) in \<open>auto simp: ascii_lower_def\<close>)
      then show False using hd c'(1) by simp
    qed
    then show ?thesis using IH d by (simp add: hex_text_step lower_hex)
  qed
qed simp

lemma quantity_digits_text: "quantity_digits (''0x'' @ hex_text n) = Ok (hex_text n)"
proof -
  have "\<not> (1 < length (hex_text n) \<and> hd (hex_text n) = CHR ''0'')"
    using hd_hex_text [of n] by (cases "n = 0") (auto simp: hex_text_small)
  then show ?thesis
    using hex_text_digits [of n] by (auto simp: quantity_digits_def result_simps strip_0x_simps simp del: append.simps)
qed

lemma quantity_digits_Ok:
  assumes "quantity_digits text = Ok ds"
  shows "text = ''0x'' @ ds" "hex_text (hex_number ds) = map ascii_lower ds"
proof -
  have *: "text = ''0x'' @ ds" "ds \<noteq> []" "1 < length ds \<longrightarrow> hd ds \<noteq> CHR ''0''" "list_all (\<lambda>c. hex_value c \<noteq> None) ds"
    using assms by (auto simp: quantity_digits_def result_simps strip_0x_simps simp del: append.simps)
  show "text = ''0x'' @ ds" by (rule *(1))
  show "hex_text (hex_number ds) = map ascii_lower ds" by (rule hex_text_of_number [OF *(4,2,3)])
qed

section \<open>The preflight\<close>

lemma gas_limit_with_margin_Ok:
  assumes "gas_limit_with_margin l estimated = Ok gas"
  shows "unat gas = unat estimated + (unat estimated * unat (li_margin_basis_points l) + 9999) div 10000"
proof -
  obtain numerator padded margin where
      mul: "checked_mul (ucast estimated :: 128 word) (ucast (li_margin_basis_points l)) = Some numerator"
    and add: "checked_add numerator (ucast (BASIS_POINTS_DENOMINATOR - 1)) = Some padded"
    and fits: "unat (padded div 10000) < 2 ^ 64" "margin = (ucast (padded div 10000) :: u64)"
    and gas: "checked_add estimated margin = Some gas"
    using assms
    by (auto simp: gas_limit_with_margin_def result_simps bind_eq_Some_conv BASIS_POINTS_DENOMINATOR_def split: if_splits)
  have "unat numerator = unat estimated * unat (li_margin_basis_points l)" using mul by (simp add: checked_mul_SomeD unat_ucast_up)
  moreover have "unat padded = unat numerator + 9999"
    using add by (simp add: checked_add_SomeD BASIS_POINTS_DENOMINATOR_def)
  moreover have "unat margin = unat padded div 10000"
    using fits by (simp add: unsigned_ucast_eq take_bit_nat_eq_self unat_div)
  ultimately show ?thesis using gas by (simp add: checked_add_SomeD)
qed

lemma preflight_fees_Ok:
  assumes "preflight_fees m lims w = (Ok (fee, priority), w')"
  shows "priority \<le> fee" "fee \<le> li_max_fee_per_gas lims" "priority \<le> li_max_priority_fee_per_gas lims"
  using assms by (auto simp: preflight_fees_def result_simps not_less)

lemma build_context_steps:
  assumes "build_context_of m request nonce w = (Ok context, w')"
  obtains lims estimated fee priority total_fee w1 w2 where
    "er_limits m = Some lims" "length (transfer_input (er_abi_transfer m) request) \<le> li_max_input_bytes lims"
    "estimated \<noteq> 0" "gas_limit_with_margin lims estimated = Ok (bc_gas_limit context)"
    "bc_gas_limit context \<le> li_max_gas_limit lims" "preflight_fees m lims w1 = (Ok (fee, priority), w2)"
    "wei_checked_mul_u64 fee (bc_gas_limit context) = Some total_fee" "total_fee \<le> li_max_total_fee lims"
    "context = \<lparr>bc_chain_id = er_expected_chain_id m, bc_nonce = nonce, bc_gas_limit = bc_gas_limit context,
       bc_max_fee_per_gas = fee, bc_max_priority_fee_per_gas = priority\<rparr>"
  using assms by (fastforce simp: build_context_of_def methods_limits_def result_simps not_less)

text \<open>A node that answers every call of the preflight of a native transfer.\<close>

definition demo_answer :: "string \<Rightarrow> json" where
  "demo_answer method =
     (if method = ''eth_getBlockByNumber'' then JObject [(''baseFeePerGas'', JString ''0x1'')]
      else if method = ''eth_getBalance'' then JString ''0xff'' else JString ''0x1'')"

definition demo_limits :: limits where
  "demo_limits =
     \<lparr>li_max_input_bytes = 8, li_margin_basis_points = 0, li_max_gas_limit = 9, li_max_fee_per_gas = 9,
      li_max_priority_fee_per_gas = 9, li_max_total_fee = 99\<rparr>"

definition demo_rpc :: "unit eth_rpc" where
  "demo_rpc =
     \<lparr>er_call = (\<lambda>method _. ret (demo_answer method)), er_call_once = (\<lambda>method _. ret (demo_answer method)),
      er_expected_chain_id = 1, er_limits = Some demo_limits, er_not_text = \<lparr>se_message = [], se_retryable = False\<rparr>,
      er_decode_hex = (\<lambda>_. None), er_decode_data = (\<lambda>_. None), er_encode_data = (\<lambda>_. []), er_abi_transfer = (\<lambda>_ _. []),
      er_abi_balance_of = (\<lambda>_. []), er_abi_decimals = [], er_abi_read_uint256 = (\<lambda>_. None), er_abi_write_uint256 = (\<lambda>_. []),
      er_abi_read_uint8 = (\<lambda>_. None), er_abi_write_uint8 = (\<lambda>_. []), er_abi_read_bool = (\<lambda>_. None),
      er_abi_write_bool = (\<lambda>_. []), er_keccak256 = id\<rparr>"

lemma demo_quantities:
  "parse_quantity_u64 ''0x1'' = Ok 1" "wei_from_quantity ''0x1'' = Ok 1" "wei_from_quantity ''0xff'' = Ok 255"
  by (simp_all add: parse_quantity_u64_def wei_from_quantity_def quantity_digits_def strip_0x_def hex_value_def hex_number_def)

lemma demo_preflight:
  "build_context_of demo_rpc (NativeTransfer [] [] 3) nonce w =
     (Ok \<lparr>bc_chain_id = 1, bc_nonce = nonce, bc_gas_limit = 1, bc_max_fee_per_gas = 3, bc_max_priority_fee_per_gas = 1\<rparr>, w)"
  by (simp add: build_context_of_def methods_limits_def demo_rpc_def demo_limits_def demo_answer_def bind_eff_def eff_err_def
    verify_transaction_chain_id_def estimate_gas_def execution_call_def preflight_fees_def ensure_native_funds_def
    native_funds_check_def eth_balance_def balance_block_def rpc_u64_def rpc_wei_def request_result_def json_text_def
    demo_quantities gas_limit_with_margin_def checked_mul_def checked_add_def BASIS_POINTS_DENOMINATOR_def
    wei_checked_mul_u64_def transfer_input_def)

section \<open>Properties\<close>

text \<open>
  C33. A preflight that succeeds keeps the nonce it was given and the configured chain, and stays within
  every configured limit: input size, gas, fee per gas, priority fee and the product of gas and fee,
  which did not overflow. The unsigned transaction of such a context is never refused when the
  configured chain id is not zero.
\<close>

theorem build_context_within_limits:
  assumes "build_context_of m request nonce w = (Ok context, w')"
  shows "\<exists>lims. er_limits m = Some lims \<and> bc_nonce context = nonce \<and> bc_chain_id context = er_expected_chain_id m \<and>
    length (transfer_input (er_abi_transfer m) request) \<le> li_max_input_bytes lims \<and>
    0 < bc_gas_limit context \<and> bc_gas_limit context \<le> li_max_gas_limit lims \<and>
    bc_max_priority_fee_per_gas context \<le> bc_max_fee_per_gas context \<and>
    bc_max_priority_fee_per_gas context \<le> li_max_priority_fee_per_gas lims \<and>
    bc_max_fee_per_gas context \<le> li_max_fee_per_gas lims \<and>
    unat (bc_max_fee_per_gas context) * unat (bc_gas_limit context) \<le> unat (li_max_total_fee lims) \<and>
    (er_expected_chain_id m \<noteq> 0 \<longrightarrow>
       (\<exists>u. eth_unsigned_new (er_abi_transfer m) request context = Ok u \<and> eu_nonce u = nonce))"
proof -
  obtain lims estimated fee priority total_fee w1 w2 where
      lims: "er_limits m = Some lims" "length (transfer_input (er_abi_transfer m) request) \<le> li_max_input_bytes lims"
    and gas: "estimated \<noteq> 0" "gas_limit_with_margin lims estimated = Ok (bc_gas_limit context)"
        "bc_gas_limit context \<le> li_max_gas_limit lims"
    and fees: "preflight_fees m lims w1 = (Ok (fee, priority), w2)"
    and total: "wei_checked_mul_u64 fee (bc_gas_limit context) = Some total_fee" "total_fee \<le> li_max_total_fee lims"
    and shape: "context = \<lparr>bc_chain_id = er_expected_chain_id m, bc_nonce = nonce, bc_gas_limit = bc_gas_limit context,
       bc_max_fee_per_gas = fee, bc_max_priority_fee_per_gas = priority\<rparr>"
    using build_context_steps [OF assms] by metis
  have parts: "bc_chain_id context = er_expected_chain_id m" "bc_nonce context = nonce" "bc_max_fee_per_gas context = fee"
      "bc_max_priority_fee_per_gas context = priority"
    using shape by (metis build_context.select_convs)+
  have "0 < unat estimated" using gas(1) by (simp add: unat_gt_0)
  then have positive: "0 < bc_gas_limit context" using gas_limit_with_margin_Ok [OF gas(2)] by (simp add: word_less_nat_alt)
  have product: "unat fee * unat (bc_gas_limit context) \<le> unat (li_max_total_fee lims)"
    using total by (simp add: wei_checked_mul_u64_def checked_mul_SomeD unat_ucast_up word_le_nat_alt)
  have "\<exists>u. eth_unsigned_new (er_abi_transfer m) request context = Ok u \<and> eu_nonce u = nonce" if "er_expected_chain_id m \<noteq> 0"
    using that positive preflight_fees_Ok(1) [OF fees] parts
    by (simp add: eth_unsigned_new_def result_simps not_less)
  then show ?thesis using lims gas(3) positive preflight_fees_Ok [OF fees] product parts by simp
qed

theorem build_context_within_limits_witness:
  "\<exists>context. build_context_of demo_rpc (NativeTransfer [] [] 3) 7 () = (Ok context, ()) \<and> bc_nonce context = 7 \<and>
     bc_gas_limit context \<le> 9"
proof -
  obtain c where run: "build_context_of demo_rpc (NativeTransfer [] [] 3) 7 () = (Ok c, ())" using demo_preflight by blast
  from build_context_within_limits [OF this] run show ?thesis by (auto simp: demo_rpc_def demo_limits_def)
qed

text \<open>
  C34. Submitting an envelope succeeds only with the id of exactly that envelope. An error without a
  transaction id is returned only for an envelope that does not hash to its id, before any call was
  made; every error after the attempt carries the id of the local envelope as an unknown outcome.
\<close>

theorem broadcast_outcome:
  "case eth_broadcast m transaction w of
     (Ok i, w') \<Rightarrow> i = st_id transaction \<and> er_keccak256 m (st_envelope transaction) = st_id transaction
   | (Err e, w') \<Rightarrow>
       if er_keccak256 m (st_envelope transaction) \<noteq> st_id transaction then e = envelope_hash_error \<and> w' = w
       else te_ambiguous e = Some (eth_id_display (st_id transaction))"
proof (cases "er_keccak256 m (st_envelope transaction) = st_id transaction")
  case False
  then show ?thesis by (simp add: eth_broadcast_def)
next
  case True
  have answer: "case submission_answer m i raw of Ok j \<Rightarrow> j = i | Err e \<Rightarrow> te_ambiguous e = Some (eth_id_display i)" for i raw
    by (auto simp: submission_answer_def result_simps ambiguous_submission_def response_hash_error_def split: sum.splits)
  obtain r w' where call: "er_call_once m ''eth_sendRawTransaction'' (JArray [JString (er_encode_data m (st_envelope transaction))]) w = (r, w')"
    by fastforce
  obtain known w'' where confirm: "confirm_known_transaction m (st_id transaction) w' = (known, w'')" by fastforce
  show ?thesis
  proof (cases r)
    case (Inl e)
    then show ?thesis using True call confirm
      by (cases known) (simp_all add: eth_broadcast_def Let_def ambiguous_submission_def not_exposed_error_def)
  next
    case (Inr raw)
    then show ?thesis using True call answer [of "st_id transaction" raw] by (simp add: eth_broadcast_def Let_def split: sum.splits)
  qed
qed

text \<open>
  Quantities are read back: the text of an amount parses to the amount, and a text that parses to
  an amount is the text of that amount up to the case of its digits. The 64-bit parser agrees with the
  256-bit one wherever the number fits.
\<close>

theorem quantity_roundtrip:
  "wei_from_quantity (wei_to_quantity v) = Ok v \<and>
   (wei_from_quantity text = Ok v \<longrightarrow> map ascii_lower text = wei_to_quantity v) \<and>
   (parse_quantity_u64 text = Ok n \<longrightarrow> wei_from_quantity text = Ok (ucast n))"
proof -
  have "length (hex_text (unat v)) \<le> 64" using length_hex_text [of "unat v" 63] unat_less [of v] by simp
  then have "wei_from_quantity (wei_to_quantity v) = Ok v"
    using quantity_digits_text [of "unat v"] by (simp add: wei_from_quantity_def wei_to_quantity_def not_less)
  moreover have "map ascii_lower text = wei_to_quantity v" if accepted: "wei_from_quantity text = Ok v"
  proof -
    obtain ds where ds: "quantity_digits text = Ok ds" "length ds \<le> 64" "v = of_nat (hex_number ds)"
      using accepted by (auto simp: wei_from_quantity_def result_simps not_less)
    note digits = quantity_digits_Ok [OF ds(1)]
    have "length (hex_text (hex_number ds)) \<le> 64" using ds(2) digits(2) by simp
    then have "hex_number ds < 16 ^ 64" using length_hex_text [of "hex_number ds" 63] by simp
    then have "unat v = hex_number ds" using ds(3) by (simp add: unat_of_nat)
    then show ?thesis using digits by (simp add: wei_to_quantity_def ascii_lower_def)
  qed
  moreover have "wei_from_quantity text = Ok (ucast n)" if accepted: "parse_quantity_u64 text = Ok n"
  proof -
    obtain ds where ds: "quantity_digits text = Ok ds" "hex_number ds < 2 ^ 64" "n = of_nat (hex_number ds)"
      using accepted by (auto simp: parse_quantity_u64_def result_simps split: if_splits)
    have "hex_number ds < 16 ^ Suc 15" using ds(2) by simp
    then have "length ds \<le> 64" using length_hex_text [of "hex_number ds" 15] quantity_digits_Ok(2) [OF ds(1)] by simp
    moreover have "(of_nat (hex_number ds) :: wei) = ucast n"
      using ds(2,3) by (simp add: word_unat_eq_iff unat_ucast_up unsigned_of_nat take_bit_nat_eq_self)
    ultimately show ?thesis using ds(1) by (simp add: wei_from_quantity_def)
  qed
  ultimately show ?thesis by blast
qed

theorem quantity_roundtrip_witness:
  "wei_from_quantity ''0xff'' = Ok 255 \<and> parse_quantity_u64 ''0x1'' = Ok 1 \<and> map ascii_lower ''0xff'' = wei_to_quantity 255 \<and>
     wei_from_quantity ''0x1'' = Ok (ucast (1 :: u64))"
  using quantity_roundtrip [of 255 "''0xff''" 0] quantity_roundtrip [of 0 "''0x1''" 1] demo_quantities by simp

end
