(* ===== verification/Eth_Coordinator.thy ===== *)
theory Eth_Coordinator
  imports Eth_Rpc "HOL-Library.AList"
begin

text \<open>
  The process-local coordination of nonces and submissions (\<open>sdk/chains/ethereum/src/transaction/
  coordinator.rs, coordinator_state.rs, coordinator_requirements.rs\<close>): who may prepare transactions of a
  sender, which nonces a batch gets, whether the balances cover the whole batch, and what a submission
  leaves behind when its outcome is unknown. Every function on \<open>coord_state\<close> is one critical section
  under the mutex of \<open>Core\<close>; the answers of the node that a task waits for are arguments. The ordered
  maps are association lists: nothing depends on the order in which they are iterated.
\<close>

section \<open>State\<close>

datatype record_status = RecordPrepared | RecordUnknown | RecordReconciling

record coord_record =
  cr_source :: eth_address
  cr_nonce :: u64
  cr_transaction :: signed_transaction
  cr_operation :: "u64 option"
  cr_status :: record_status

record sender_state =
  ss_active :: "u64 option"
  ss_floor :: "u64 option"
  ss_records :: "eth_id list"

record coord_state =
  cs_next_operation :: u64
  cs_senders :: "(eth_address \<times> sender_state) list"
  cs_records :: "(eth_id \<times> coord_record) list"

definition sender_default :: sender_state where
  "sender_default = \<lparr>ss_active = None, ss_floor = None, ss_records = []\<rparr>"

definition coord_new :: coord_state where
  "coord_new = \<lparr>cs_next_operation = 0, cs_senders = [], cs_records = []\<rparr>"

text \<open>\<open>senders.entry(source).or_default()\<close> and storing the changed entry.\<close>

definition sender_entry :: "coord_state \<Rightarrow> eth_address \<Rightarrow> sender_state" where
  "sender_entry st source = (case map_of (cs_senders st) source of Some sender \<Rightarrow> sender | None \<Rightarrow> sender_default)"

definition set_sender :: "eth_address \<Rightarrow> sender_state \<Rightarrow> coord_state \<Rightarrow> coord_state" where
  "set_sender source sender st = st\<lparr>cs_senders := AList.update source sender (cs_senders st)\<rparr>"

definition set_record :: "eth_id \<Rightarrow> coord_record \<Rightarrow> coord_state \<Rightarrow> coord_state" where
  "set_record i r st = st\<lparr>cs_records := AList.update i r (cs_records st)\<rparr>"

definition remove_record :: "eth_id \<Rightarrow> coord_state \<Rightarrow> coord_record option \<times> coord_state" where
  "remove_record i st =
     (case map_of (cs_records st) i of
        None \<Rightarrow> (None, st)
      | Some r \<Rightarrow>
          let st' = st\<lparr>cs_records := AList.delete i (cs_records st)\<rparr> in
          (Some r,
           case map_of (cs_senders st') (cr_source r) of
             None \<Rightarrow> st'
           | Some sender \<Rightarrow> set_sender (cr_source r) (sender\<lparr>ss_records := removeAll i (ss_records sender)\<rparr>) st'))"

section \<open>Admission\<close>

datatype coord_admission =
  Acquired u64 | AdmissionWait | Recover eth_id nat | Exhausted nat

text \<open>The first record of the sender's set that still exists.\<close>

fun first_record :: "coord_state \<Rightarrow> eth_id list \<Rightarrow> (eth_id \<times> coord_record) option" where
  "first_record st [] = None"
| "first_record st (i # ids) =
     (case map_of (cs_records st) i of Some r \<Rightarrow> Some (i, r) | None \<Rightarrow> first_record st ids)"

fun admission_blocked :: "coord_state \<Rightarrow> (eth_address \<times> nat) list \<Rightarrow> coord_admission option" where
  "admission_blocked st [] = None"
| "admission_blocked st ((source, index) # senders) =
     (case map_of (cs_senders st) source of
        None \<Rightarrow> admission_blocked st senders
      | Some sender \<Rightarrow>
          if ss_active sender \<noteq> None then Some AdmissionWait
          else (case first_record st (ss_records sender) of
                  None \<Rightarrow> admission_blocked st senders
                | Some (i, r) \<Rightarrow>
                    Some (case cr_status r of
                            RecordUnknown \<Rightarrow> Recover i index
                          | RecordPrepared \<Rightarrow> AdmissionWait
                          | RecordReconciling \<Rightarrow> AdmissionWait)))"

definition activate :: "u64 \<Rightarrow> eth_address \<times> nat \<Rightarrow> coord_state \<Rightarrow> coord_state" where
  "activate operation sender st =
     set_sender (fst sender) ((sender_entry st (fst sender))\<lparr>ss_active := Some operation\<rparr>) st"

definition admission :: "(eth_address \<times> nat) list \<Rightarrow> coord_state \<Rightarrow> coord_admission \<times> coord_state" where
  "admission senders st =
     (case admission_blocked st senders of
        Some a \<Rightarrow> (a, st)
      | None \<Rightarrow>
          (case checked_add (cs_next_operation st) 1 of
             None \<Rightarrow> (Exhausted (case senders of [] \<Rightarrow> 0 | (_, index) # _ \<Rightarrow> index), st)
           | Some following \<Rightarrow>
               (Acquired (cs_next_operation st),
                fold (activate (cs_next_operation st)) senders (st\<lparr>cs_next_operation := following\<rparr>))))"

definition coord_floor :: "coord_state \<Rightarrow> eth_address \<Rightarrow> u64 option" where
  "coord_floor st source = Option.bind (map_of (cs_senders st) source) ss_floor"

section \<open>Registration\<close>

record prepared_entry =
  pe_source :: eth_address
  pe_nonce :: u64
  pe_signed :: signed_transaction

definition already_coordinated_error :: eth_error where
  "already_coordinated_error = eth_error_new EthOther ''Ethereum signed transaction is already coordinated''"
definition admission_lost_error :: eth_error where
  "admission_lost_error = eth_error_new EthOther ''Ethereum sender lost its atomic coordinator admission''"
definition not_coordinated_error :: eth_error where
  "not_coordinated_error = eth_error_new EthOther ''Ethereum prepared transaction is not coordinated''"
definition cannot_leave_error :: eth_error where
  "cannot_leave_error = eth_error_new EthOther ''Ethereum prepared transaction cannot leave its batch admission''"

definition register_check :: "u64 \<Rightarrow> coord_state \<Rightarrow> prepared_entry \<Rightarrow> (eth_error, unit) result" where
  "register_check operation st entry =
     and_then (fail_if (map_of (cs_records st) (st_id (pe_signed entry)) \<noteq> None) already_coordinated_error) (\<lambda>_.
     fail_if (case map_of (cs_senders st) (pe_source entry) of
        None \<Rightarrow> True | Some sender \<Rightarrow> ss_active sender \<noteq> Some operation) admission_lost_error)"

definition register_entry :: "u64 \<Rightarrow> prepared_entry \<Rightarrow> coord_state \<Rightarrow> coord_state" where
  "register_entry operation entry st =
     (let i = st_id (pe_signed entry); sender = sender_entry st (pe_source entry) in
      set_record i
        \<lparr>cr_source = pe_source entry, cr_nonce = pe_nonce entry, cr_transaction = pe_signed entry,
         cr_operation = Some operation, cr_status = RecordPrepared\<rparr>
        (set_sender (pe_source entry) (sender\<lparr>ss_records := insort_insert i (ss_records sender)\<rparr>) st))"

definition register :: "u64 \<Rightarrow> prepared_entry list \<Rightarrow> (coord_state, eth_error, unit) eff" where
  "register operation entries st =
     (case collect (register_check operation st) entries of
        Err e \<Rightarrow> (Err e, st)
      | Ok _ \<Rightarrow> (Ok (), fold (register_entry operation) entries st))"

definition detach :: "u64 \<Rightarrow> eth_id \<Rightarrow> (coord_state, eth_error, unit) eff" where
  "detach operation i st =
     (case map_of (cs_records st) i of
        None \<Rightarrow> (Err not_coordinated_error, st)
      | Some r \<Rightarrow>
          if cr_operation r \<noteq> Some operation \<or> cr_status r \<noteq> RecordPrepared then (Err cannot_leave_error, st)
          else (Ok (), set_record i (r\<lparr>cr_operation := None\<rparr>) st))"

text \<open>Dropping the admission: its prepared records go, and its senders are free again.\<close>

definition finish_operation :: "u64 \<Rightarrow> coord_state \<Rightarrow> coord_state" where
  "finish_operation operation st =
     (let cancelled = map fst (filter (\<lambda>(i, r). cr_operation r = Some operation \<and> cr_status r = RecordPrepared) (cs_records st));
          st' = fold (\<lambda>i st. snd (remove_record i st)) cancelled st in
      st'\<lparr>cs_senders := map (\<lambda>(source, sender).
        (source, if ss_active sender = Some operation then sender\<lparr>ss_active := None\<rparr> else sender)) (cs_senders st')\<rparr>)"

section \<open>Claims and submissions\<close>

datatype coord_claim = ClaimReady signed_transaction bool | ClaimWait

definition no_reservation_error :: source_error where
  "no_reservation_error = eth_source_error ''signed Ethereum transaction has no process-local nonce reservation'' False"
definition envelope_differs_error :: source_error where
  "envelope_differs_error = eth_source_error ''signed Ethereum transaction differs from its reserved exact envelope'' False"
definition disappeared_error :: source_error where
  "disappeared_error = eth_source_error ''Ethereum transaction disappeared during submission reconciliation'' True"
definition nonce_exhausted_error :: source_error where
  "nonce_exhausted_error = eth_source_error ''accepted Ethereum transaction exhausted the nonce range'' False"

definition claim :: "eth_id \<Rightarrow> signed_transaction option \<Rightarrow> (coord_state, source_error, coord_claim) eff" where
  "claim i expected st =
     (case map_of (cs_records st) i of
        None \<Rightarrow> (Err no_reservation_error, st)
      | Some r \<Rightarrow>
          if (case expected of None \<Rightarrow> False | Some transaction \<Rightarrow> transaction \<noteq> cr_transaction r) then (Err envelope_differs_error, st)
          else if cr_status r = RecordReconciling then (Ok ClaimWait, st)
          else (Ok (ClaimReady (cr_transaction r) (cr_status r = RecordUnknown)),
                set_record i (r\<lparr>cr_status := RecordReconciling\<rparr>) st))"

text \<open>Dropping a submission that was neither accepted nor rejected leaves its outcome unknown.\<close>

definition submission_drop :: "eth_id \<Rightarrow> coord_state \<Rightarrow> coord_state" where
  "submission_drop i st =
     (case map_of (cs_records st) i of
        None \<Rightarrow> st
      | Some r \<Rightarrow> if cr_status r = RecordReconciling then set_record i (r\<lparr>cr_status := RecordUnknown\<rparr>) st else st)"

definition submission_accept :: "eth_id \<Rightarrow> (coord_state, source_error, eth_id) eff" where
  "submission_accept i st =
     (case remove_record i st of
        (None, st') \<Rightarrow> (Err disappeared_error, submission_drop i st')
      | (Some r, st') \<Rightarrow>
          (case checked_add (cr_nonce r) 1 of
             None \<Rightarrow> (Err nonce_exhausted_error, submission_drop i st')
           | Some following \<Rightarrow>
               let sender = sender_entry st' (cr_source r);
                   bound = (case ss_floor sender of None \<Rightarrow> following | Some b \<Rightarrow> max b following) in
               (Ok i, set_sender (cr_source r) (sender\<lparr>ss_floor := Some bound\<rparr>) st')))"

definition submission_reject :: "eth_id \<Rightarrow> coord_state \<Rightarrow> coord_state" where
  "submission_reject i st = snd (remove_record i st)"

definition definite_submission_error :: "source_error \<Rightarrow> transaction_error" where
  "definite_submission_error e =
     transaction_error_new (if se_retryable e then TxUnavailable else TxRejected) (se_message e)"

definition ambiguous_submission_error :: "eth_id \<Rightarrow> string \<Rightarrow> transaction_error" where
  "ambiguous_submission_error i message =
     with_ambiguous_transaction_id (transaction_error_new TxUnavailable message) (eth_id_display i)"

definition different_hash_message :: string where
  "different_hash_message = ''Ethereum node returned a different hash for the exact signed envelope''"

text \<open>
  What a claimed submission does with the answers of the node: \<open>known\<close> is asked only when an earlier
  attempt left the outcome unknown.
\<close>

definition submit_broadcast ::
  "eth_id \<Rightarrow> bool \<Rightarrow> (transaction_error, eth_id) result \<Rightarrow> (coord_state, transaction_error, eth_id) eff" where
  "submit_broadcast i recovery answer st =
     (case answer of
        Ok returned \<Rightarrow>
          if returned = i then eff_err definite_submission_error (submission_accept i) st
          else (Err (ambiguous_submission_error i different_hash_message), submission_drop i st)
      | Err e \<Rightarrow>
          if \<not> recovery \<and> te_ambiguous e = None then (Err e, submission_reject i st)
          else (Err (ambiguous_submission_error i (te_message e)), submission_drop i st))"

definition submit_claimed ::
  "eth_id \<Rightarrow> bool \<Rightarrow> (source_error, bool) result \<Rightarrow> (transaction_error, eth_id) result \<Rightarrow>
     (coord_state, transaction_error, eth_id) eff" where
  "submit_claimed i recovery known answer st =
     (if recovery then
        (case known of
           Ok True \<Rightarrow> eff_err definite_submission_error (submission_accept i) st
         | Ok False \<Rightarrow> submit_broadcast i recovery answer st
         | Err e \<Rightarrow> (Err (ambiguous_submission_error i (se_message e)), submission_drop i st))
      else submit_broadcast i recovery answer st)"

section \<open>Preparation\<close>

record preparation =
  pr_request :: transfer_request
  pr_expected_chain_id :: u64

record preparation_error =
  px_index :: nat
  px_source :: eth_error

definition preparation_error_new :: "nat \<Rightarrow> eth_error \<Rightarrow> preparation_error" where
  "preparation_error_new index source = \<lparr>px_index = index, px_source = source\<rparr>"

text \<open>Each sender once, with the first index it has in the batch, in that order.\<close>

fun first_senders :: "nat \<Rightarrow> eth_address list \<Rightarrow> (eth_address \<times> nat) list \<Rightarrow> (eth_address \<times> nat) list" where
  "first_senders index [] found = found"
| "first_senders index (source # sources) found =
     first_senders (index + 1) sources
       (if map_of found source = None then AList.update source index found else found)"

definition batch_senders :: "preparation list \<Rightarrow> (eth_address \<times> nat) list" where
  "batch_senders preparations = sort_key snd (first_senders 0 (map (transfer_from \<circ> pr_request) preparations) [])"

definition count_error :: eth_error where
  "count_error = eth_error_new EthInvalidTransaction ''Ethereum transaction count exceeds u64''"
definition nonce_range_error :: eth_error where
  "nonce_range_error = eth_error_new EthInvalidTransaction ''Ethereum batch nonce range overflows u64''"
definition not_admitted_error :: eth_error where
  "not_admitted_error = eth_error_new EthOther ''Ethereum sender was not admitted for nonce assignment''"
definition nonce_overflow_error :: eth_error where
  "nonce_overflow_error = eth_error_new EthInvalidTransaction ''Ethereum transaction nonce overflows u64''"

text \<open>The first nonce of one sender, from the node's pending nonce and the floor read after it.\<close>

definition nonce_start ::
  "eth_address list \<Rightarrow> eth_address \<times> nat \<Rightarrow> (source_error, u64) result \<times> u64 option \<Rightarrow> (preparation_error, eth_address \<times> u64) result" where
  "nonce_start sources sender reads =
     and_then (map_err (\<lambda>e. preparation_error_new (snd sender) (eth_error_from_rpc e)) (fst reads)) (\<lambda>pending.
     let start = (case snd reads of None \<Rightarrow> pending | Some b \<Rightarrow> max b pending);
         count = length (filter (\<lambda>source. source = fst sender) sources) in
     and_then (fail_if (2 ^ 64 \<le> count) (preparation_error_new (snd sender) count_error)) (\<lambda>_.
     and_then (ok_or (checked_add start (of_nat count)) (preparation_error_new (snd sender) nonce_range_error)) (\<lambda>_.
     Ok (fst sender, start))))"

fun assign_nonces :: "nat \<Rightarrow> eth_address list \<Rightarrow> (eth_address \<times> u64) list \<Rightarrow> (preparation_error, u64 list) result" where
  "assign_nonces index [] following = Ok []"
| "assign_nonces index (source # sources) following =
     and_then (ok_or (map_of following source) (preparation_error_new index not_admitted_error)) (\<lambda>nonce.
     and_then (ok_or (checked_add nonce 1) (preparation_error_new index nonce_overflow_error)) (\<lambda>after.
     and_then (assign_nonces (index + 1) sources (AList.update source after following)) (\<lambda>nonces.
     Ok (nonce # nonces))))"

definition batch_nonces ::
  "eth_address list \<Rightarrow> (eth_address \<times> nat) list \<Rightarrow> ((source_error, u64) result \<times> u64 option) list \<Rightarrow>
     (preparation_error, u64 list) result" where
  "batch_nonces sources senders reads =
     and_then (collect (\<lambda>(sender, r). nonce_start sources sender r) (zip senders reads)) (\<lambda>starts.
     assign_nonces 0 sources (rev starts))"

section \<open>Requirements of a batch\<close>

datatype required_asset = RequiredNative | RequiredErc20 eth_address

instantiation required_asset :: linorder
begin

fun less_eq_required_asset :: "required_asset \<Rightarrow> required_asset \<Rightarrow> bool" where
  "less_eq_required_asset RequiredNative b = True"
| "less_eq_required_asset (RequiredErc20 t) RequiredNative = False"
| "less_eq_required_asset (RequiredErc20 t) (RequiredErc20 u) = (t \<le> u)"

definition less_required_asset :: "required_asset \<Rightarrow> required_asset \<Rightarrow> bool" where
  "less_required_asset a b \<longleftrightarrow> a \<le> b \<and> \<not> b \<le> a"

instance
proof
  fix a b c :: required_asset
  show "a < b \<longleftrightarrow> a \<le> b \<and> \<not> b \<le> a" by (rule less_required_asset_def)
  show "a \<le> a" by (cases a) auto
  show "a \<le> b \<Longrightarrow> b \<le> c \<Longrightarrow> a \<le> c" by (cases a; cases b; cases c) auto
  show "a \<le> b \<Longrightarrow> b \<le> a \<Longrightarrow> a = b" by (cases a; cases b) auto
  show "a \<le> b \<or> b \<le> a" by (cases a; cases b) auto
qed

end

record requirement =
  rq_source :: eth_address
  rq_asset :: required_asset
  rq_amount :: wei
  rq_contributions :: "(nat \<times> wei) list"

definition first_index :: "requirement \<Rightarrow> nat" where
  "first_index r = (case rq_contributions r of [] \<Rightarrow> 0 | (index, _) # _ \<Rightarrow> index)"

fun failing_contribution :: "wei \<Rightarrow> wei \<Rightarrow> (nat \<times> wei) list \<Rightarrow> nat option" where
  "failing_contribution balance cumulative [] = None"
| "failing_contribution balance cumulative ((index, amount) # contributions) =
     (case checked_add cumulative amount of
        None \<Rightarrow> Some index
      | Some sum1 \<Rightarrow> if sum1 > balance then Some index else failing_contribution balance sum1 contributions)"

definition failure_index :: "requirement \<Rightarrow> wei \<Rightarrow> nat" where
  "failure_index r balance =
     (case failing_contribution balance 0 (rq_contributions r) of Some index \<Rightarrow> index | None \<Rightarrow> first_index r)"

record draft =
  df_preparation :: preparation
  df_context :: build_context

type_synonym requirements = "((eth_address \<times> required_asset) \<times> (wei \<times> (nat \<times> wei) list)) list"

definition asset_overflow_error :: eth_error where
  "asset_overflow_error = eth_error_new EthInsufficientFunds ''Ethereum aggregate asset requirement overflows U256''"
definition aggregate_fee_error :: eth_error where
  "aggregate_fee_error = eth_error_new EthFeeUnavailable ''Ethereum aggregate maximum fee overflows U256''"
definition aggregate_native_error :: eth_error where
  "aggregate_native_error = eth_error_new EthInsufficientFunds ''Ethereum aggregate native requirement overflows U256''"
definition aggregate_balance_error :: eth_error where
  "aggregate_balance_error = eth_error_new EthInsufficientFunds ''Ethereum aggregate batch balance is insufficient''"

definition add_requirement ::
  "eth_address \<times> required_asset \<Rightarrow> wei \<Rightarrow> nat \<Rightarrow> requirements \<Rightarrow> (preparation_error, requirements) result" where
  "add_requirement key amount index values =
     (let entry = (case map_of values key of Some e \<Rightarrow> e | None \<Rightarrow> (0, [])) in
      and_then (ok_or (checked_add (fst entry) amount) (preparation_error_new index asset_overflow_error)) (\<lambda>sum1.
      Ok (AList.update key (sum1, snd entry @ [(index, amount)]) values)))"

definition draft_native :: "nat \<Rightarrow> draft \<Rightarrow> (preparation_error, wei) result" where
  "draft_native index d =
     (let request = pr_request (df_preparation d) in
      and_then (ok_or (wei_checked_mul_u64 (bc_max_fee_per_gas (df_context d)) (bc_gas_limit (df_context d)))
        (preparation_error_new index aggregate_fee_error)) (\<lambda>fee.
      ok_or (if erc20_transfer request = None then checked_add fee (transfer_value request) else Some fee)
        (preparation_error_new index aggregate_native_error)))"

definition add_draft :: "nat \<Rightarrow> draft \<Rightarrow> requirements \<Rightarrow> (preparation_error, requirements) result" where
  "add_draft index d values =
     (let request = pr_request (df_preparation d); source = transfer_from request in
      and_then (draft_native index d) (\<lambda>native1.
      and_then (add_requirement (source, RequiredNative) native1 index values) (\<lambda>values.
      case erc20_transfer request of
        None \<Rightarrow> Ok values
      | Some (token, amount) \<Rightarrow> add_requirement (source, RequiredErc20 token) amount index values)))"

fun add_drafts :: "nat \<Rightarrow> draft list \<Rightarrow> requirements \<Rightarrow> (preparation_error, requirements) result" where
  "add_drafts index [] values = Ok values"
| "add_drafts index (d # drafts) values =
     and_then (add_draft index d values) (\<lambda>values. add_drafts (index + 1) drafts values)"

text \<open>The map is iterated in key order, and the stable sort by first index keeps that order among equals.\<close>

definition requirements_of :: "requirements \<Rightarrow> requirement list" where
  "requirements_of values =
     sort_key first_index
       (map (\<lambda>((source, asset), (amount, contributions)).
          \<lparr>rq_source = source, rq_asset = asset, rq_amount = amount, rq_contributions = contributions\<rparr>)
        (sort_key fst values))"

definition from_drafts :: "draft list \<Rightarrow> (preparation_error, requirement list) result" where
  "from_drafts drafts = and_then (add_drafts 0 drafts []) (\<lambda>values. Ok (requirements_of values))"

definition asset_of :: "required_asset \<Rightarrow> asset_kind" where
  "asset_of asset = (case asset of RequiredNative \<Rightarrow> AssetNative | RequiredErc20 token \<Rightarrow> AssetErc20 token)"

fun check_balances ::
  "(eth_address \<Rightarrow> asset_kind \<Rightarrow> (source_error, wei) result) \<Rightarrow> requirement list \<Rightarrow> nat option \<Rightarrow>
     (preparation_error, nat option) result" where
  "check_balances balance_of [] insufficient = Ok insufficient"
| "check_balances balance_of (r # requirements) insufficient =
     (if (case insufficient of None \<Rightarrow> False | Some index \<Rightarrow> index \<le> first_index r) then Ok insufficient
      else
        and_then (map_err (\<lambda>e. preparation_error_new (first_index r) (eth_error_from_rpc e))
          (balance_of (rq_source r) (asset_of (rq_asset r)))) (\<lambda>balance.
        if rq_amount r \<le> balance then check_balances balance_of requirements insufficient
        else
          let index = failure_index r balance in
          check_balances balance_of requirements
            (Some (case insufficient of None \<Rightarrow> index | Some current \<Rightarrow> min current index))))"

definition ensure_aggregate_balances ::
  "(eth_address \<Rightarrow> asset_kind \<Rightarrow> (source_error, wei) result) \<Rightarrow> draft list \<Rightarrow> (preparation_error, unit) result" where
  "ensure_aggregate_balances balance_of drafts =
     and_then (from_drafts drafts) (\<lambda>requirements.
     and_then (check_balances balance_of requirements None) (\<lambda>insufficient.
     case insufficient of
       Some index \<Rightarrow> Err (preparation_error_new index aggregate_balance_error)
     | None \<Rightarrow> Ok ()))"

section \<open>Preparing a batch\<close>

definition chain_mismatch_error :: eth_error where
  "chain_mismatch_error = eth_error_new EthDivergent ''Ethereum RPC chain ID does not match the wallet network''"
definition empty_batch_error :: eth_error where
  "empty_batch_error = eth_error_new EthInvalidTransaction ''Ethereum transaction batch is empty''"
definition operations_exhausted_error :: eth_error where
  "operations_exhausted_error = eth_error_new EthOther ''Ethereum transaction coordinator exhausted operation identifiers''"
definition blocked_sender_error :: "string \<Rightarrow> eth_error" where
  "blocked_sender_error e = eth_error_new EthRpcUnavailable (''Ethereum sender is blocked by an ambiguous transaction: '' @ e)"

fun make_drafts ::
  "(nat \<Rightarrow> transfer_request \<Rightarrow> u64 \<Rightarrow> (eth_error, build_context) result) \<Rightarrow> nat \<Rightarrow> (preparation \<times> u64) list \<Rightarrow>
     (preparation_error, draft list) result" where
  "make_drafts build_context_at index [] = Ok []"
| "make_drafts build_context_at index ((p, nonce) # rest) =
     and_then (map_err (preparation_error_new index) (build_context_at index (pr_request p) nonce)) (\<lambda>c.
     and_then (fail_if (bc_chain_id c \<noteq> pr_expected_chain_id p) (preparation_error_new index chain_mismatch_error)) (\<lambda>_.
     and_then (make_drafts build_context_at (index + 1) rest) (\<lambda>drafts.
     Ok (\<lparr>df_preparation = p, df_context = c\<rparr> # drafts))))"

fun sign_drafts ::
  "(nat \<Rightarrow> draft \<Rightarrow> (eth_error, signed_transaction) result) \<Rightarrow> nat \<Rightarrow> draft list \<Rightarrow> (preparation_error, prepared_entry list) result" where
  "sign_drafts sign index [] = Ok []"
| "sign_drafts sign index (d # drafts) =
     and_then (map_err (preparation_error_new index) (sign index d)) (\<lambda>signed.
     and_then (sign_drafts sign (index + 1) drafts) (\<lambda>entries.
     Ok (\<lparr>pe_source = transfer_from (pr_request (df_preparation d)), pe_nonce = bc_nonce (df_context d), pe_signed = signed\<rparr> # entries)))"

text \<open>
  Answers of the node and of the signers during one preparation: contexts by index, balances,
  signatures by index.
\<close>

record preparation_answers =
  an_context :: "nat \<Rightarrow> transfer_request \<Rightarrow> u64 \<Rightarrow> (eth_error, build_context) result"
  an_balance :: "eth_address \<Rightarrow> asset_kind \<Rightarrow> (source_error, wei) result"
  an_sign :: "nat \<Rightarrow> draft \<Rightarrow> (eth_error, signed_transaction) result"

definition prepare_entries ::
  "preparation_answers \<Rightarrow> preparation list \<Rightarrow> ((source_error, u64) result \<times> u64 option) list \<Rightarrow> (preparation_error, prepared_entry list) result" where
  "prepare_entries answers preparations reads =
     and_then (batch_nonces (map (transfer_from \<circ> pr_request) preparations) (batch_senders preparations) reads) (\<lambda>nonces.
     and_then (make_drafts (an_context answers) 0 (zip preparations nonces)) (\<lambda>drafts.
     and_then (ensure_aggregate_balances (an_balance answers) drafts) (\<lambda>_.
     sign_drafts (an_sign answers) 0 drafts)))"

record prepared_batch =
  pb_entries :: "prepared_entry list"
  pb_cursor :: nat
  pb_operation :: "u64 option"

text \<open>One round of the admission loop: a sender with an unknown submission has it reconciled first.\<close>

datatype admit_outcome = Admitted u64 | AdmitAgain | AdmitRecover eth_id nat | AdmitFails preparation_error

definition admit_round :: "preparation list \<Rightarrow> coord_state \<Rightarrow> admit_outcome \<times> coord_state" where
  "admit_round preparations st =
     (if preparations = [] then (AdmitFails (preparation_error_new 0 empty_batch_error), st)
      else (case admission (batch_senders preparations) st of
          (Acquired operation, st') \<Rightarrow> (Admitted operation, st')
        | (AdmissionWait, st') \<Rightarrow> (AdmitAgain, st')
        | (Recover i index, st') \<Rightarrow> (AdmitRecover i index, st')
        | (Exhausted index, st') \<Rightarrow> (AdmitFails (preparation_error_new index operations_exhausted_error), st')))"

definition admit_recovered :: "nat \<Rightarrow> (transaction_error, eth_id) result \<Rightarrow> admit_outcome" where
  "admit_recovered index r =
     (case r of Ok _ \<Rightarrow> AdmitAgain | Err e \<Rightarrow> AdmitFails (preparation_error_new index (blocked_sender_error (te_message e))))"

text \<open>The end of a preparation; an error drops the admission.\<close>

definition prepare_finish ::
  "u64 \<Rightarrow> preparation_answers \<Rightarrow> preparation list \<Rightarrow> ((source_error, u64) result \<times> u64 option) list \<Rightarrow>
     (coord_state, preparation_error, prepared_batch) eff" where
  "prepare_finish operation answers preparations reads st =
     (case prepare_entries answers preparations reads of
        Err e \<Rightarrow> (Err e, finish_operation operation st)
      | Ok entries \<Rightarrow>
          (case register operation entries st of
             (Err e, st') \<Rightarrow> (Err (preparation_error_new 0 e), finish_operation operation st')
           | (Ok _, st') \<Rightarrow> (Ok \<lparr>pb_entries = entries, pb_cursor = 0, pb_operation = Some operation\<rparr>, st')))"

definition take_operation :: "prepared_batch \<Rightarrow> coord_state \<Rightarrow> prepared_batch \<times> coord_state" where
  "take_operation b st =
     (b\<lparr>pb_operation := None\<rparr>, case pb_operation b of None \<Rightarrow> st | Some operation \<Rightarrow> finish_operation operation st)"

text \<open>
  \<open>PreparedBatch::next\<close>: the entry to submit, and what its outcome does to the batch.
\<close>

definition batch_next :: "prepared_batch \<Rightarrow> coord_state \<Rightarrow> prepared_entry option \<times> prepared_batch \<times> coord_state" where
  "batch_next b st =
     (if pb_cursor b < length (pb_entries b) then (Some (pb_entries b ! pb_cursor b), b, st) else (None, take_operation b st))"

definition batch_submitted ::
  "(transaction_error, eth_id) result \<Rightarrow> prepared_batch \<Rightarrow> coord_state \<Rightarrow> prepared_batch \<times> coord_state" where
  "batch_submitted r b st =
     (case r of
        Err _ \<Rightarrow> (b, st)
      | Ok _ \<Rightarrow>
          let b' = b\<lparr>pb_cursor := pb_cursor b + 1\<rparr> in
          if pb_cursor b' = length (pb_entries b') then take_operation b' st else (b', st))"

definition no_transaction_error :: eth_error where
  "no_transaction_error = eth_error_new EthOther ''Ethereum single preparation produced no transaction''"
definition lost_admission_error :: eth_error where
  "lost_admission_error = eth_error_new EthOther ''Ethereum single preparation lost its coordinator admission''"

text \<open>The batch is consumed: on every path its admission is dropped.\<close>

definition detach_one :: "prepared_batch \<Rightarrow> (coord_state, eth_error, signed_transaction) eff" where
  "detach_one b st =
     (if pb_entries b = [] then (Err no_transaction_error, snd (take_operation b st))
      else
        let entry = last (pb_entries b) in
        (case pb_operation b of
           None \<Rightarrow> (Err lost_admission_error, st)
         | Some operation \<Rightarrow>
             (case detach operation (st_id (pe_signed entry)) st of
                (Err e, st') \<Rightarrow> (Err e, snd (take_operation b st'))
              | (Ok _, st') \<Rightarrow> (Ok (pe_signed entry), snd (take_operation b st')))))"

end
