(* ===== verification/Eth_Coordination.thy ===== *)
theory Eth_Coordination
  imports Eth_Coordinator
begin

text \<open>
  Every interleaving of the tasks that share one coordinator. A configuration holds the state under
  the mutex and, as ghosts, the admissions that are alive, the submissions that are claimed, and the
  nonces the node accepted. The step relation composes the critical sections of \<open>Eth_Coordinator\<close>; the
  invariant is proved for every step, and the interface \<open>transactions\<close> states the one thing the
  coordinator relies on: a preflight keeps the nonce it was given.
\<close>

section \<open>Views of the state\<close>

definition recs :: "coord_state \<Rightarrow> eth_id \<rightharpoonup> coord_record" where
  "recs st = map_of (cs_records st)"

definition active_of :: "coord_state \<Rightarrow> eth_address \<Rightarrow> u64 option" where
  "active_of st s = Option.bind (map_of (cs_senders st) s) ss_active"

definition ids_of :: "coord_state \<Rightarrow> eth_address \<Rightarrow> eth_id set" where
  "ids_of st s = (case map_of (cs_senders st) s of None \<Rightarrow> {} | Some sender \<Rightarrow> set (ss_records sender))"

lemma sender_entry_view [simp]:
  "ss_active (sender_entry st s) = active_of st s"
  "ss_floor (sender_entry st s) = coord_floor st s"
  "set (ss_records (sender_entry st s)) = ids_of st s"
  by (simp_all add: sender_entry_def active_of_def coord_floor_def ids_of_def sender_default_def split: option.splits)

lemma set_sender_view [simp]:
  "recs (set_sender s v st) = recs st"
  "active_of (set_sender s v st) t = (if t = s then ss_active v else active_of st t)"
  "coord_floor (set_sender s v st) t = (if t = s then ss_floor v else coord_floor st t)"
  "ids_of (set_sender s v st) t = (if t = s then set (ss_records v) else ids_of st t)"
  "cs_next_operation (set_sender s v st) = cs_next_operation st"
  "cs_records (set_sender s v st) = cs_records st"
  by (simp_all add: set_sender_def recs_def active_of_def coord_floor_def ids_of_def update_conv')

lemma set_record_view [simp]:
  "recs (set_record i r st) = (recs st)(i \<mapsto> r)"
  "active_of (set_record i r st) = active_of st"
  "coord_floor (set_record i r st) = coord_floor st"
  "ids_of (set_record i r st) = ids_of st"
  "cs_next_operation (set_record i r st) = cs_next_operation st"
  by (simp_all add: set_record_def recs_def active_of_def coord_floor_def ids_of_def update_conv' fun_eq_iff)

definition keys_ok :: "coord_state \<Rightarrow> bool" where
  "keys_ok st \<longleftrightarrow> distinct (map fst (cs_records st))"

lemma keys_ok_set [simp]:
  "keys_ok (set_sender s v st) = keys_ok st"
  "keys_ok st \<Longrightarrow> keys_ok (set_record i r st)"
  by (simp_all add: keys_ok_def set_sender_def set_record_def distinct_update)

lemma remove_record_view:
  "fst (remove_record i st) = recs st i"
  "recs (snd (remove_record i st)) = (recs st)(i := None)"
  "active_of (snd (remove_record i st)) = active_of st"
  "coord_floor (snd (remove_record i st)) = coord_floor st"
  "ids_of st s - {i} \<subseteq> ids_of (snd (remove_record i st)) s"
  "cs_next_operation (snd (remove_record i st)) = cs_next_operation st"
  "keys_ok st \<Longrightarrow> keys_ok (snd (remove_record i st))"
proof -
  show "fst (remove_record i st) = recs st i"
    by (simp add: remove_record_def recs_def Let_def split: option.splits)
  show "recs (snd (remove_record i st)) = (recs st)(i := None)"
    by (auto simp: remove_record_def recs_def Let_def set_sender_def delete_conv' fun_eq_iff split: option.splits)
  show "active_of (snd (remove_record i st)) = active_of st"
    by (auto simp: remove_record_def active_of_def Let_def set_sender_def update_conv' fun_eq_iff split: option.splits)
  show "coord_floor (snd (remove_record i st)) = coord_floor st"
    by (auto simp: remove_record_def coord_floor_def Let_def set_sender_def update_conv' fun_eq_iff split: option.splits)
  show "ids_of st s - {i} \<subseteq> ids_of (snd (remove_record i st)) s"
    by (auto simp: remove_record_def ids_of_def Let_def set_sender_def update_conv' split: option.splits)
  show "cs_next_operation (snd (remove_record i st)) = cs_next_operation st"
    by (simp add: remove_record_def Let_def set_sender_def split: option.splits)
  show "keys_ok st \<Longrightarrow> keys_ok (snd (remove_record i st))"
    by (simp add: remove_record_def Let_def set_sender_def keys_ok_def distinct_delete split: option.splits)
qed

definition remove_records :: "eth_id list \<Rightarrow> coord_state \<Rightarrow> coord_state" where
  "remove_records ids st = fold (\<lambda>i st. snd (remove_record i st)) ids st"

lemma remove_records_simps [simp]:
  "remove_records [] st = st"
  "remove_records (i # ids) st = remove_records ids (snd (remove_record i st))"
  by (simp_all add: remove_records_def)

lemma remove_records_view:
  "recs (remove_records ids st) j = (if j \<in> set ids then None else recs st j)"
  "active_of (remove_records ids st) = active_of st"
  "coord_floor (remove_records ids st) = coord_floor st"
  "ids_of st s - set ids \<subseteq> ids_of (remove_records ids st) s"
  "cs_next_operation (remove_records ids st) = cs_next_operation st"
  "keys_ok st \<Longrightarrow> keys_ok (remove_records ids st)"
proof -
  show "recs (remove_records ids st) j = (if j \<in> set ids then None else recs st j)"
    by (induction ids arbitrary: st) (auto simp: remove_record_view)
  show "ids_of st s - set ids \<subseteq> ids_of (remove_records ids st) s"
  proof (induction ids arbitrary: st)
    case (Cons i ids)
    then show ?case using Cons.IH [of "snd (remove_record i st)"] remove_record_view(5) [of st s i] by auto
  qed simp
  show "active_of (remove_records ids st) = active_of st" "coord_floor (remove_records ids st) = coord_floor st"
    "cs_next_operation (remove_records ids st) = cs_next_operation st" "keys_ok st \<Longrightarrow> keys_ok (remove_records ids st)"
    by (induction ids arbitrary: st) (simp_all add: remove_record_view)
qed

text \<open>Which records the end of an admission cancels.\<close>

definition cancelled_by :: "u64 \<Rightarrow> coord_record \<Rightarrow> bool" where
  "cancelled_by operation r \<longleftrightarrow> cr_operation r = Some operation \<and> cr_status r = RecordPrepared"

lemma finish_operation_view:
  assumes "keys_ok st"
  shows "recs (finish_operation operation st) i = (case recs st i of Some r \<Rightarrow> if cancelled_by operation r then None else Some r | None \<Rightarrow> None)"
    "active_of (finish_operation operation st) s = (if active_of st s = Some operation then None else active_of st s)"
    "coord_floor (finish_operation operation st) = coord_floor st"
    "i \<in> ids_of st s \<Longrightarrow> recs (finish_operation operation st) i \<noteq> None \<Longrightarrow> i \<in> ids_of (finish_operation operation st) s"
    "cs_next_operation (finish_operation operation st) = cs_next_operation st"
    "keys_ok (finish_operation operation st)"
proof -
  define ids where "ids = map fst (filter (\<lambda>(i, r). cancelled_by operation r) (cs_records st))"
  define st1 where "st1 = remove_records ids st"
  note view = remove_records_view [where ids = ids and st = st, folded st1_def]
  let ?f = "\<lambda>sender. if ss_active sender = Some operation then sender\<lparr>ss_active := None\<rparr> else sender"
  have fin: "finish_operation operation st = st1\<lparr>cs_senders := map (\<lambda>(s, v). (s, ?f v)) (cs_senders st1)\<rparr>"
    by (simp add: finish_operation_def cancelled_by_def Let_def st1_def ids_def remove_records_def)
  have senders: "map_of (cs_senders (finish_operation operation st)) t = map_option ?f (map_of (cs_senders st1) t)" for t
    unfolding fin by (simp add: map_of_map)
  have recs': "recs (finish_operation operation st) = recs st1" by (simp add: fin recs_def)
  have mem: "i \<in> set ids \<longleftrightarrow> (\<exists>r. recs st i = Some r \<and> cancelled_by operation r)" for i
    using assms unfolding ids_def recs_def keys_ok_def by (auto simp: map_of_eq_Some_iff image_iff Bex_def)
  show recs: "recs (finish_operation operation st) i = (case recs st i of Some r \<Rightarrow> if cancelled_by operation r then None else Some r | None \<Rightarrow> None)"
    using view(1) [of i] mem [of i] by (cases "recs st i") (auto simp: recs')
  show "active_of (finish_operation operation st) s = (if active_of st s = Some operation then None else active_of st s)"
    unfolding view(2) [symmetric] by (cases "map_of (cs_senders st1) s") (simp_all add: active_of_def senders)
  show "coord_floor (finish_operation operation st) = coord_floor st"
  proof
    fix t
    show "coord_floor (finish_operation operation st) t = coord_floor st t"
      unfolding view(3) [symmetric] by (cases "map_of (cs_senders st1) t") (simp_all add: coord_floor_def senders)
  qed
  have "ids_of (finish_operation operation st) s = ids_of st1 s"
    by (cases "map_of (cs_senders st1) s") (simp_all add: ids_of_def senders)
  then show "i \<in> ids_of (finish_operation operation st) s" if "i \<in> ids_of st s" "recs (finish_operation operation st) i \<noteq> None"
    using that view(4) [of s] view(1) [of i] recs' by (auto split: if_splits)
  show "cs_next_operation (finish_operation operation st) = cs_next_operation st"
    using view(5) by (simp add: fin)
  show "keys_ok (finish_operation operation st)"
    using view(6) [OF assms] by (simp add: fin keys_ok_def)
qed

section \<open>Admission and registration\<close>

lemma activate_view [simp]:
  "recs (activate operation x st) = recs st"
  "active_of (activate operation x st) t = (if t = fst x then Some operation else active_of st t)"
  "coord_floor (activate operation x st) = coord_floor st"
  "ids_of (activate operation x st) = ids_of st"
  "cs_next_operation (activate operation x st) = cs_next_operation st"
  "keys_ok (activate operation x st) = keys_ok st"
  by (simp_all add: activate_def fun_eq_iff)

lemma activate_all_view:
  fixes operation :: u64 and senders :: "(eth_address \<times> nat) list" and st :: coord_state
  defines "st' \<equiv> fold (activate operation) senders st"
  shows "recs st' = recs st" "active_of st' t = (if t \<in> fst ` set senders then Some operation else active_of st t)"
    "coord_floor st' = coord_floor st" "ids_of st' = ids_of st" "cs_next_operation st' = cs_next_operation st"
    "keys_ok st' = keys_ok st"
  unfolding st'_def by (induction senders arbitrary: st) simp_all

lemma first_record_None: "first_record st ids = None \<longleftrightarrow> (\<forall>i \<in> set ids. recs st i = None)"
  by (induction ids) (auto simp: recs_def split: option.splits)

lemma admission_blocked_Acquired: "admission_blocked st senders \<noteq> Some (Acquired operation)"
  by (induction senders) (auto split: option.splits record_status.splits if_splits)

lemma admission_free:
  assumes "admission_blocked st senders = None" "s \<in> fst ` set senders"
  shows "active_of st s = None \<and> (\<forall>i \<in> ids_of st s. recs st i = None)"
  using assms
proof (induction senders)
  case (Cons x senders)
  obtain source index where x: "x = (source, index)" by (cases x)
  show ?case
  proof (cases "map_of (cs_senders st) source")
    case None
    then show ?thesis using Cons x by (auto simp: active_of_def ids_of_def)
  next
    case (Some sender)
    then have "ss_active sender = None" "first_record st (ss_records sender) = None" "admission_blocked st senders = None"
      using Cons.prems(1) x by (auto split: if_splits option.splits)
    then show ?thesis using Cons x Some by (auto simp: active_of_def ids_of_def first_record_None)
  qed
qed simp

lemma admission_Acquired:
  assumes "admission senders st = (Acquired operation, st')"
  shows "operation = cs_next_operation st" "unat (cs_next_operation st') = unat operation + 1"
    "recs st' = recs st" "coord_floor st' = coord_floor st" "ids_of st' = ids_of st" "keys_ok st' = keys_ok st"
    "active_of st' t = (if t \<in> fst ` set senders then Some operation else active_of st t)"
    "admission_blocked st senders = None"
proof -
  obtain following where *: "admission_blocked st senders = None" "checked_add (cs_next_operation st) 1 = Some following"
      "operation = cs_next_operation st" "st' = fold (activate operation) senders (st\<lparr>cs_next_operation := following\<rparr>)"
    using assms by (auto simp: admission_def admission_blocked_Acquired split: option.splits)
  show "operation = cs_next_operation st" "admission_blocked st senders = None" using *(1,3) by auto
  show "unat (cs_next_operation st') = unat operation + 1"
    using *(2-4) by (simp add: activate_all_view checked_add_SomeD)
  show "recs st' = recs st" "coord_floor st' = coord_floor st" "ids_of st' = ids_of st" "keys_ok st' = keys_ok st"
    "active_of st' t = (if t \<in> fst ` set senders then Some operation else active_of st t)"
    using *(4) by (simp_all add: activate_all_view)
      (simp_all add: recs_def coord_floor_def ids_of_def keys_ok_def active_of_def fun_eq_iff)
qed

lemma register_entry_view [simp]:
  "recs (register_entry operation e st) = (recs st)(st_id (pe_signed e) \<mapsto>
     \<lparr>cr_source = pe_source e, cr_nonce = pe_nonce e, cr_transaction = pe_signed e,
      cr_operation = Some operation, cr_status = RecordPrepared\<rparr>)"
  "active_of (register_entry operation e st) = active_of st"
  "coord_floor (register_entry operation e st) = coord_floor st"
  "ids_of (register_entry operation e st) t = (if t = pe_source e then insert (st_id (pe_signed e)) (ids_of st t) else ids_of st t)"
  "cs_next_operation (register_entry operation e st) = cs_next_operation st"
  "keys_ok st \<Longrightarrow> keys_ok (register_entry operation e st)"
  by (simp_all add: register_entry_def Let_def fun_eq_iff set_insort_insert)

lemma register_entries_view:
  fixes operation :: u64 and entries :: "prepared_entry list" and st :: coord_state
  defines "st' \<equiv> fold (register_entry operation) entries st"
  shows "active_of st' = active_of st" "coord_floor st' = coord_floor st" "cs_next_operation st' = cs_next_operation st"
    "keys_ok st \<Longrightarrow> keys_ok st'" "ids_of st s \<subseteq> ids_of st' s"
    "i \<notin> st_id ` pe_signed ` set entries \<Longrightarrow> recs st' i = recs st i"
    "i \<in> st_id ` pe_signed ` set entries \<Longrightarrow> \<exists>e r. e \<in> set entries \<and> st_id (pe_signed e) = i \<and> recs st' i = Some r \<and>
       cr_source r = pe_source e \<and> cr_nonce r = pe_nonce e \<and> i \<in> ids_of st' (pe_source e)"
proof -
  show "active_of st' = active_of st" "coord_floor st' = coord_floor st" "cs_next_operation st' = cs_next_operation st"
    "keys_ok st \<Longrightarrow> keys_ok st'"
    unfolding st'_def by (induction entries arbitrary: st) simp_all
  show "ids_of st s \<subseteq> ids_of st' s"
    unfolding st'_def by (induction entries arbitrary: st) (fastforce split: if_splits)+
  show "i \<notin> st_id ` pe_signed ` set entries \<Longrightarrow> recs st' i = recs st i"
    unfolding st'_def by (induction entries arbitrary: st) auto
  show "i \<in> st_id ` pe_signed ` set entries \<Longrightarrow> \<exists>e r. e \<in> set entries \<and> st_id (pe_signed e) = i \<and> recs st' i = Some r \<and>
       cr_source r = pe_source e \<and> cr_nonce r = pe_nonce e \<and> i \<in> ids_of st' (pe_source e)"
    unfolding st'_def
  proof (induction entries rule: rev_induct)
    case (snoc e entries)
    show ?case
    proof (cases "st_id (pe_signed e) = i")
      case True
      then show ?thesis by (intro exI [where x = e]) auto
    next
      case False
      then show ?thesis using snoc by fastforce
    qed
  qed simp
qed

lemma register_Ok:
  assumes "register operation entries st = (Ok u, st')"
  shows "st' = fold (register_entry operation) entries st"
    "e \<in> set entries \<Longrightarrow> recs st (st_id (pe_signed e)) = None \<and> active_of st (pe_source e) = Some operation"
proof -
  have "\<exists>us. collect (register_check operation st) entries = Ok us" and st': "st' = fold (register_entry operation) entries st"
    using assms by (auto simp: register_def split: sum.splits)
  then obtain us where us: "list_all2 (\<lambda>e y. register_check operation st e = Ok y) entries us" by (auto simp: collect_Ok_iff)
  show "st' = fold (register_entry operation) entries st" by (rule st')
  show "recs st (st_id (pe_signed e)) = None \<and> active_of st (pe_source e) = Some operation" if e: "e \<in> set entries"
  proof -
    obtain y where "register_check operation st e = Ok y" using us e by (auto simp: list_all2_conv_all_nth in_set_conv_nth)
    then show ?thesis by (auto simp: register_check_def result_simps recs_def active_of_def split: option.splits)
  qed
qed

section \<open>The nonces of a batch\<close>

text \<open>Each source gets increasing nonces from its start on, each with a successor.\<close>

definition nonces_from :: "(eth_address \<rightharpoonup> u64) \<Rightarrow> eth_address list \<Rightarrow> u64 list \<Rightarrow> bool" where
  "nonces_from start sources nonces \<longleftrightarrow>
     length nonces = length sources \<and>
     (\<forall>k < length sources. \<exists>b. start (sources ! k) = Some b \<and> b \<le> nonces ! k \<and> unat (nonces ! k) + 1 < 2 ^ 64) \<and>
     (\<forall>j k. j < k \<and> k < length sources \<and> sources ! j = sources ! k \<longrightarrow> nonces ! j < nonces ! k)"

lemma nonces_from_Cons:
  assumes "start source = Some nonce" "unat after = unat nonce + 1" "nonces_from (start(source \<mapsto> after)) sources rest"
  shows "nonces_from start (source # sources) (nonce # rest)"
proof -
  have later: "\<exists>b. start (sources ! k) = Some b \<and> b \<le> rest ! k \<and> unat (rest ! k) + 1 < 2 ^ 64 \<and> (sources ! k = source \<longrightarrow> nonce < rest ! k)"
    if k: "k < length sources" for k
  proof -
    obtain b where b: "(start(source \<mapsto> after)) (sources ! k) = Some b" "b \<le> rest ! k" "unat (rest ! k) + 1 < 2 ^ 64"
      using assms(3) k by (auto simp: nonces_from_def)
    show ?thesis
    proof (cases "sources ! k = source")
      case True
      then have "nonce < rest ! k" using b assms(2) by (simp add: word_less_nat_alt word_le_nat_alt)
      then show ?thesis using True assms(1) b(3) by auto
    qed (use b in auto)
  qed
  have first: "unat nonce + 1 < 2 ^ 64" using unat_less [of after] assms(2) by simp
  have len: "length rest = length sources" using assms(3) by (simp add: nonces_from_def)
  have increasing: "(nonce # rest) ! j < (nonce # rest) ! k"
    if jk: "j < k" "k < length (source # sources)" "(source # sources) ! j = (source # sources) ! k" for j k
  proof -
    obtain k' where k: "k = Suc k'" "k' < length sources" using jk(1,2) by (cases k) auto
    show ?thesis
    proof (cases j)
      case 0
      then show ?thesis using later [OF k(2)] jk(3) k(1) by auto
    next
      case (Suc j')
      then show ?thesis using assms(3) jk(1,3) k by (auto simp: nonces_from_def)
    qed
  qed
  have "\<exists>b. start ((source # sources) ! k) = Some b \<and> b \<le> (nonce # rest) ! k \<and> unat ((nonce # rest) ! k) + 1 < 2 ^ 64"
    if k: "k < length (source # sources)" for k
  proof (cases k)
    case 0
    then show ?thesis using assms(1) first by simp
  next
    case (Suc k')
    then show ?thesis using later [of k'] k by auto
  qed
  then show ?thesis using len increasing unfolding nonces_from_def by (metis length_Cons)
qed

lemma assign_nonces_Ok:
  "assign_nonces index sources following = Ok nonces \<Longrightarrow> nonces_from (map_of following) sources nonces"
proof (induction sources arbitrary: index following nonces)
  case Nil
  then show ?case by (simp add: nonces_from_def)
next
  case (Cons source sources)
  obtain nonce after rest where
      step: "map_of following source = Some nonce" "checked_add nonce 1 = Some after"
        "assign_nonces (index + 1) sources (AList.update source after following) = Ok rest" "nonces = nonce # rest"
    using Cons.prems by (auto simp: result_simps)
  have "nonces_from ((map_of following)(source \<mapsto> after)) sources rest"
    using Cons.IH [OF step(3)] unfolding update_conv' .
  moreover have "unat after = unat nonce + 1" using step(2) by (simp add: checked_add_SomeD)
  ultimately show ?case using nonces_from_Cons [of "map_of following", OF step(1)] step(4) by simp
qed

lemma batch_nonces_Ok:
  assumes "batch_nonces sources senders reads = Ok nonces" "k < length sources"
  shows "\<exists>n. n < length senders \<and> n < length reads \<and> fst (senders ! n) = sources ! k \<and>
    (\<forall>b. snd (reads ! n) = Some b \<longrightarrow> b \<le> nonces ! k)"
proof -
  obtain starts where
      starts: "list_all2 (\<lambda>(sender, r) y. nonce_start sources sender r = Ok y) (zip senders reads) starts"
    and assigned: "assign_nonces 0 sources (rev starts) = Ok nonces"
    using assms(1) by (auto simp: batch_nonces_def result_simps collect_Ok_iff case_prod_unfold)
  obtain b where b: "map_of (rev starts) (sources ! k) = Some b" "b \<le> nonces ! k"
    using assign_nonces_Ok [OF assigned] assms(2) by (auto simp: nonces_from_def)
  then have "(sources ! k, b) \<in> set starts" by (auto dest: map_of_SomeD)
  then obtain n where n: "n < length starts" "starts ! n = (sources ! k, b)" by (auto simp: in_set_conv_nth)
  moreover have len: "length starts = min (length senders) (length reads)" using list_all2_lengthD [OF starts] by simp
  moreover have "nonce_start sources (senders ! n) (reads ! n) = Ok (sources ! k, b)"
    using list_all2_nthD2 [OF starts n(1)] n len by simp
  then have "fst (senders ! n) = sources ! k" "\<forall>f. snd (reads ! n) = Some f \<longrightarrow> f \<le> b"
    by (auto simp: nonce_start_def Let_def result_simps)
  ultimately show ?thesis using b(2) by (intro exI [where x = n]) (auto intro: order.trans)
qed

lemma batch_nonces_increase:
  assumes "batch_nonces sources senders reads = Ok nonces"
  shows "length nonces = length sources" "k < length sources \<Longrightarrow> unat (nonces ! k) + 1 < 2 ^ 64"
    "j < k \<Longrightarrow> k < length sources \<Longrightarrow> sources ! j = sources ! k \<Longrightarrow> nonces ! j < nonces ! k"
proof -
  obtain starts where assigned: "assign_nonces 0 sources (rev starts) = Ok nonces"
    using assms by (auto simp: batch_nonces_def result_simps)
  show "length nonces = length sources" "k < length sources \<Longrightarrow> unat (nonces ! k) + 1 < 2 ^ 64"
    "j < k \<Longrightarrow> k < length sources \<Longrightarrow> sources ! j = sources ! k \<Longrightarrow> nonces ! j < nonces ! k"
    using assign_nonces_Ok [OF assigned] by (auto simp: nonces_from_def)
qed

section \<open>Entries\<close>

definition keeps_nonce :: "(nat \<Rightarrow> transfer_request \<Rightarrow> u64 \<Rightarrow> (eth_error, build_context) result) \<Rightarrow> bool" where
  "keeps_nonce f \<longleftrightarrow> (\<forall>index request nonce c. f index request nonce = Ok c \<longrightarrow> bc_nonce c = nonce)"

lemma make_drafts_Ok:
  assumes "make_drafts f index pairs = Ok drafts" "keeps_nonce f"
  shows "map (\<lambda>d. (df_preparation d, bc_nonce (df_context d))) drafts = pairs"
  using assms(1)
proof (induction pairs arbitrary: index drafts)
  case (Cons x rest)
  then show ?case using assms(2) by (cases x) (fastforce simp: result_simps keeps_nonce_def)
qed simp

lemma sign_drafts_Ok:
  "sign_drafts sign index drafts = Ok entries \<Longrightarrow>
    map (\<lambda>e. (pe_source e, pe_nonce e)) entries =
    map (\<lambda>d. (transfer_from (pr_request (df_preparation d)), bc_nonce (df_context d))) drafts"
proof (induction drafts arbitrary: index entries)
  case (Cons d drafts)
  then show ?case by (auto simp: result_simps)
qed simp

lemma prepare_entries_Ok:
  assumes "prepare_entries answers preparations reads = Ok entries" "keeps_nonce (an_context answers)"
  shows "\<exists>nonces. batch_nonces (map (transfer_from \<circ> pr_request) preparations) (batch_senders preparations) reads = Ok nonces \<and>
    map pe_source entries = map (transfer_from \<circ> pr_request) preparations \<and> map pe_nonce entries = nonces"
proof -
  obtain nonces drafts where
      nonces: "batch_nonces (map (transfer_from \<circ> pr_request) preparations) (batch_senders preparations) reads = Ok nonces"
    and drafts: "make_drafts (an_context answers) 0 (zip preparations nonces) = Ok drafts"
    and signed: "sign_drafts (an_sign answers) 0 drafts = Ok entries"
    using assms(1) by (auto simp: prepare_entries_def result_simps)
  note pairs = make_drafts_Ok [OF drafts assms(2)]
  have len: "length nonces = length preparations" using batch_nonces_increase(1) [OF nonces] by simp
  have "map (\<lambda>e. (pe_source e, pe_nonce e)) entries =
      map (\<lambda>(p, n). (transfer_from (pr_request p), n)) (map (\<lambda>d. (df_preparation d, bc_nonce (df_context d))) drafts)"
    using sign_drafts_Ok [OF signed] by (simp add: comp_def case_prod_unfold)
  also have "\<dots> = zip (map (transfer_from \<circ> pr_request) preparations) nonces"
    unfolding pairs zip_map1 comp_def by (simp add: case_prod_unfold)
  finally have all: "map (\<lambda>e. (pe_source e, pe_nonce e)) entries = zip (map (transfer_from \<circ> pr_request) preparations) nonces" .
  have "map fst (map (\<lambda>e. (pe_source e, pe_nonce e)) entries) = map (transfer_from \<circ> pr_request) preparations"
    "map snd (map (\<lambda>e. (pe_source e, pe_nonce e)) entries) = nonces"
    unfolding all using len by simp_all
  then show ?thesis using nonces by (auto simp: comp_def)
qed

lemma prepared_nonces:
  assumes "prepare_entries answers preparations reads = Ok entries" "keeps_nonce (an_context answers)"
  shows "e \<in> set entries \<Longrightarrow> unat (pe_nonce e) + 1 < 2 ^ 64"
    "e \<in> set entries \<Longrightarrow> \<exists>n. n < length (batch_senders preparations) \<and> n < length reads \<and>
       fst (batch_senders preparations ! n) = pe_source e \<and> (\<forall>b. snd (reads ! n) = Some b \<longrightarrow> b \<le> pe_nonce e)"
    "e \<in> set entries \<Longrightarrow> e' \<in> set entries \<Longrightarrow> st_id (pe_signed e) \<noteq> st_id (pe_signed e') \<Longrightarrow> pe_source e = pe_source e' \<Longrightarrow>
       pe_nonce e \<noteq> pe_nonce e'"
proof -
  obtain nonces where
      nonces: "batch_nonces (map (transfer_from \<circ> pr_request) preparations) (batch_senders preparations) reads = Ok nonces"
    and src: "map pe_source entries = map (transfer_from \<circ> pr_request) preparations" and nn: "map pe_nonce entries = nonces"
    using prepare_entries_Ok [OF assms] by blast
  have len: "length entries = length preparations" using arg_cong [OF src, of length] by simp
  have at: "pe_source (entries ! k) = map (transfer_from \<circ> pr_request) preparations ! k" "pe_nonce (entries ! k) = nonces ! k"
    if "k < length entries" for k
    using that src nn by (metis nth_map)+
  note inc = batch_nonces_increase [OF nonces]
  show "unat (pe_nonce e) + 1 < 2 ^ 64" if e: "e \<in> set entries"
    using e inc(2) at(2) len by (auto simp: in_set_conv_nth)
  show "\<exists>n. n < length (batch_senders preparations) \<and> n < length reads \<and>
       fst (batch_senders preparations ! n) = pe_source e \<and> (\<forall>b. snd (reads ! n) = Some b \<longrightarrow> b \<le> pe_nonce e)"
    if e: "e \<in> set entries"
  proof -
    obtain k where k: "k < length entries" "e = entries ! k" using e by (auto simp: in_set_conv_nth)
    then show ?thesis using batch_nonces_Ok [OF nonces, of k] at [of k] len by auto
  qed
  have apart: "pe_nonce (entries ! j) \<noteq> pe_nonce (entries ! k)"
    if "j < k" "k < length entries" "pe_source (entries ! j) = pe_source (entries ! k)" for j k
    using that inc(3) [of j k] at [of j] at [of k] len by auto
  show "pe_nonce e \<noteq> pe_nonce e'"
    if e: "e \<in> set entries" "e' \<in> set entries" "st_id (pe_signed e) \<noteq> st_id (pe_signed e')" "pe_source e = pe_source e'"
  proof -
    obtain j k where jk: "j < length entries" "e = entries ! j" "k < length entries" "e' = entries ! k"
      using e(1,2) by (auto simp: in_set_conv_nth)
    then have "j \<noteq> k" using e(3) by auto
    then show ?thesis using apart [of j k] apart [of k j] jk e(4) by (cases "j < k") auto
  qed
qed

section \<open>Interleavings\<close>

text \<open>A task between its admission and the end of its preparation, or holding a prepared batch.\<close>

record coord_task =
  ct_preparations :: "preparation list"
  ct_reads :: "((source_error, u64) result \<times> u64 option) list"
  ct_registered :: bool

record coord_config =
  cc_core :: coord_state
  cc_tasks :: "u64 \<rightharpoonup> coord_task"
  cc_claims :: "(eth_id \<times> bool) list"
  cc_accepted :: "(eth_address \<times> u64) list"

definition coord_start :: coord_config where
  "coord_start = \<lparr>cc_core = coord_new, cc_tasks = Map.empty, cc_claims = [], cc_accepted = []\<rparr>"

text \<open>The sender and nonce of a record.\<close>

definition slot_of :: "coord_state \<Rightarrow> eth_id \<Rightarrow> (eth_address \<times> u64) list" where
  "slot_of st i = (case recs st i of Some r \<Rightarrow> [(cr_source r, cr_nonce r)] | None \<Rightarrow> [])"

definition accepted_slot :: "coord_state \<Rightarrow> eth_id \<Rightarrow> (transaction_error, eth_id) result \<Rightarrow> (eth_address \<times> u64) list" where
  "accepted_slot st i r = (case r of Ok _ \<Rightarrow> slot_of st i | Err _ \<Rightarrow> [])"

inductive coord_step ::
  "('w \<Rightarrow> transfer_request \<Rightarrow> u64 \<Rightarrow> (eth_error, build_context) result) \<Rightarrow> coord_config \<Rightarrow> coord_config \<Rightarrow> bool"
  for context_call where
  step_admit:
    "admission (batch_senders preparations) (cc_core g) = (Acquired operation, st) \<Longrightarrow>
     coord_step context_call g (g\<lparr>cc_core := st,
       cc_tasks := (cc_tasks g)(operation \<mapsto> \<lparr>ct_preparations = preparations, ct_reads = [], ct_registered = False\<rparr>)\<rparr>)"
| step_read:
    "cc_tasks g operation = Some t \<Longrightarrow> \<not> ct_registered t \<Longrightarrow>
     length (ct_reads t) < length (batch_senders (ct_preparations t)) \<Longrightarrow>
     read1 = (pending, coord_floor (cc_core g) (fst (batch_senders (ct_preparations t) ! length (ct_reads t)))) \<Longrightarrow>
     coord_step context_call g (g\<lparr>cc_tasks := (cc_tasks g)(operation \<mapsto> t\<lparr>ct_reads := ct_reads t @ [read1]\<rparr>)\<rparr>)"
| step_prepared:
    "cc_tasks g operation = Some t \<Longrightarrow> \<not> ct_registered t \<Longrightarrow>
     an_context answers = (\<lambda>index. context_call (worlds index)) \<Longrightarrow>
     prepare_finish operation answers (ct_preparations t) (ct_reads t) (cc_core g) = (Ok batch, st) \<Longrightarrow>
     coord_step context_call g (g\<lparr>cc_core := st, cc_tasks := (cc_tasks g)(operation \<mapsto> t\<lparr>ct_registered := True\<rparr>)\<rparr>)"
| step_not_prepared:
    "cc_tasks g operation = Some t \<Longrightarrow>
     prepare_finish operation answers (ct_preparations t) (ct_reads t) (cc_core g) = (Err e, st) \<Longrightarrow>
     coord_step context_call g (g\<lparr>cc_core := st, cc_tasks := (cc_tasks g)(operation := None)\<rparr>)"
| step_leave:
    "cc_tasks g operation = Some t \<Longrightarrow>
     coord_step context_call g (g\<lparr>cc_core := finish_operation operation (cc_core g), cc_tasks := (cc_tasks g)(operation := None)\<rparr>)"
| step_detach:
    "detach operation i (cc_core g) = (r, st) \<Longrightarrow> coord_step context_call g (g\<lparr>cc_core := st\<rparr>)"
| step_claim:
    "claim i expected (cc_core g) = (Ok (ClaimReady transaction recovery), st) \<Longrightarrow>
     coord_step context_call g (g\<lparr>cc_core := st, cc_claims := (i, recovery) # cc_claims g\<rparr>)"
| step_submit:
    "(i, recovery) \<in> set (cc_claims g) \<Longrightarrow> submit_claimed i recovery known answer (cc_core g) = (r, st) \<Longrightarrow>
     coord_step context_call g (g\<lparr>cc_core := st, cc_claims := removeAll (i, recovery) (cc_claims g),
       cc_accepted := accepted_slot (cc_core g) i r @ cc_accepted g\<rparr>)"
| step_cancel:
    "(i, recovery) \<in> set (cc_claims g) \<Longrightarrow>
     coord_step context_call g (g\<lparr>cc_core := submission_drop i (cc_core g), cc_claims := removeAll (i, recovery) (cc_claims g)\<rparr>)"

inductive coord_reachable ::
  "('w \<Rightarrow> transfer_request \<Rightarrow> u64 \<Rightarrow> (eth_error, build_context) result) \<Rightarrow> coord_config \<Rightarrow> bool"
  for context_call where
  reach_start: "coord_reachable context_call coord_start"
| reach_step: "coord_reachable context_call g \<Longrightarrow> coord_step context_call g g' \<Longrightarrow> coord_reachable context_call g'"

section \<open>The invariant\<close>

text \<open>
  Records are known to their sender and hold distinct nonces that can still be incremented and were
  not accepted; the floor of a sender is above every nonce accepted for it.
\<close>

definition records_ok :: "coord_state \<Rightarrow> (eth_address \<times> u64) list \<Rightarrow> bool" where
  "records_ok st accepted \<longleftrightarrow>
     keys_ok st \<and>
     (\<forall>i r. recs st i = Some r \<longrightarrow> i \<in> ids_of st (cr_source r) \<and> unat (cr_nonce r) + 1 < 2 ^ 64 \<and>
        (cr_source r, cr_nonce r) \<notin> set accepted) \<and>
     (\<forall>i j r q. recs st i = Some r \<and> recs st j = Some q \<and> i \<noteq> j \<and> cr_source r = cr_source q \<longrightarrow> cr_nonce r \<noteq> cr_nonce q)"

definition accepted_ok :: "coord_state \<Rightarrow> (eth_address \<times> u64) list \<Rightarrow> bool" where
  "accepted_ok st accepted \<longleftrightarrow> distinct accepted \<and> (\<forall>s n. (s, n) \<in> set accepted \<longrightarrow> (\<exists>b. coord_floor st s = Some b \<and> n < b))"

definition claims_ok :: "coord_state \<Rightarrow> (eth_id \<times> bool) list \<Rightarrow> bool" where
  "claims_ok st claims \<longleftrightarrow>
     distinct (map fst claims) \<and> (\<forall>i \<in> fst ` set claims. \<exists>r. recs st i = Some r \<and> cr_status r = RecordReconciling)"

text \<open>
  An admission is the only one of its senders, and until its batch is registered they have no record,
  so the floors it read are still the floors.
\<close>

definition task_ok :: "coord_state \<Rightarrow> u64 \<Rightarrow> coord_task \<Rightarrow> bool" where
  "task_ok st operation t \<longleftrightarrow>
     operation < cs_next_operation st \<and>
     (\<forall>s \<in> fst ` set (batch_senders (ct_preparations t)). active_of st s = Some operation) \<and>
     (\<not> ct_registered t \<longrightarrow>
        (\<forall>i r. recs st i = Some r \<longrightarrow> cr_source r \<notin> fst ` set (batch_senders (ct_preparations t))) \<and>
        (\<forall>k < length (ct_reads t). k < length (batch_senders (ct_preparations t)) \<longrightarrow>
           snd (ct_reads t ! k) = coord_floor st (fst (batch_senders (ct_preparations t) ! k))))"

definition coord_inv :: "coord_config \<Rightarrow> bool" where
  "coord_inv g \<longleftrightarrow>
     records_ok (cc_core g) (cc_accepted g) \<and> accepted_ok (cc_core g) (cc_accepted g) \<and>
     claims_ok (cc_core g) (cc_claims g) \<and> (\<forall>operation t. cc_tasks g operation = Some t \<longrightarrow> task_ok (cc_core g) operation t)"

lemma coord_inv_start: "coord_inv coord_start"
  by (simp add: coord_inv_def coord_start_def coord_new_def records_ok_def accepted_ok_def claims_ok_def keys_ok_def recs_def)

text \<open>Steps that keep records or remove some, and keep senders and floors.\<close>

definition shrinks :: "coord_state \<Rightarrow> coord_state \<Rightarrow> bool" where
  "shrinks st st' \<longleftrightarrow>
     keys_ok st' \<and> coord_floor st' = coord_floor st \<and> cs_next_operation st' = cs_next_operation st \<and>
     (\<forall>i r. recs st' i = Some r \<longrightarrow> (\<exists>q. recs st i = Some q \<and> cr_source q = cr_source r \<and> cr_nonce q = cr_nonce r) \<and>
        (i \<in> ids_of st (cr_source r) \<longrightarrow> i \<in> ids_of st' (cr_source r)))"

lemma records_okD:
  assumes "records_ok st accepted" "recs st i = Some r"
  shows "i \<in> ids_of st (cr_source r)" "unat (cr_nonce r) + 1 < 2 ^ 64" "(cr_source r, cr_nonce r) \<notin> set accepted"
    "recs st j = Some q \<Longrightarrow> i \<noteq> j \<Longrightarrow> cr_source r = cr_source q \<Longrightarrow> cr_nonce r \<noteq> cr_nonce q"
  using assms by (auto simp: records_ok_def)

lemma records_okI:
  assumes "keys_ok st"
    and "\<And>i r. recs st i = Some r \<Longrightarrow> i \<in> ids_of st (cr_source r) \<and> unat (cr_nonce r) + 1 < 2 ^ 64 \<and> (cr_source r, cr_nonce r) \<notin> set accepted"
    and "\<And>i j r q. recs st i = Some r \<Longrightarrow> recs st j = Some q \<Longrightarrow> i \<noteq> j \<Longrightarrow> cr_source r = cr_source q \<Longrightarrow> cr_nonce r \<noteq> cr_nonce q"
  shows "records_ok st accepted"
  using assms unfolding records_ok_def by blast

lemma shrinksD:
  assumes "shrinks st st'" "recs st' i = Some r"
  obtains q where "recs st i = Some q" "cr_source q = cr_source r" "cr_nonce q = cr_nonce r"
    "i \<in> ids_of st (cr_source r) \<Longrightarrow> i \<in> ids_of st' (cr_source r)"
  using assms by (auto simp: shrinks_def)

lemma shrinks_records:
  assumes "shrinks st st'" "records_ok st accepted"
  shows "records_ok st' accepted"
proof (rule records_okI)
  show "keys_ok st'" using assms(1) by (simp add: shrinks_def)
  show "i \<in> ids_of st' (cr_source r) \<and> unat (cr_nonce r) + 1 < 2 ^ 64 \<and> (cr_source r, cr_nonce r) \<notin> set accepted"
    if r: "recs st' i = Some r" for i r
    using assms(1) r by (rule shrinksD) (use records_okD(1-3) [OF assms(2)] in metis)
  show "cr_nonce r \<noteq> cr_nonce q"
    if rq: "recs st' i = Some r" "recs st' j = Some q" "i \<noteq> j" "cr_source r = cr_source q" for i j r q
  proof -
    obtain r' where "recs st i = Some r'" "cr_source r' = cr_source r" "cr_nonce r' = cr_nonce r" using assms(1) rq(1) by (rule shrinksD)
    moreover obtain q' where "recs st j = Some q'" "cr_source q' = cr_source q" "cr_nonce q' = cr_nonce q" using assms(1) rq(2) by (rule shrinksD)
    ultimately show ?thesis using records_okD(4) [OF assms(2)] rq(3,4) by metis
  qed
qed

lemma shrinks_accepted: "shrinks st st' \<Longrightarrow> accepted_ok st accepted \<Longrightarrow> accepted_ok st' accepted"
  by (simp add: shrinks_def accepted_ok_def)

lemma shrinks_task:
  assumes "shrinks st st'" "task_ok st operation t" "\<And>s. active_of st s = Some operation \<Longrightarrow> active_of st' s = Some operation"
  shows "task_ok st' operation t"
proof -
  have "cr_source r \<notin> fst ` set (batch_senders (ct_preparations t))" if open1: "\<not> ct_registered t" and r: "recs st' i = Some r" for i r
  proof -
    have "\<forall>i r. recs st i = Some r \<longrightarrow> cr_source r \<notin> fst ` set (batch_senders (ct_preparations t))"
      using assms(2) open1 by (simp add: task_ok_def)
    then show ?thesis using assms(1) r by (metis shrinksD)
  qed
  then show ?thesis using assms unfolding task_ok_def shrinks_def by auto
qed

text \<open>What a step that shrinks the records has to show for the whole invariant.\<close>

lemma coord_inv_shrinks:
  assumes "coord_inv g" "shrinks (cc_core g) st" "claims_ok st claims"
    and "\<And>operation t. tasks operation = Some t \<Longrightarrow> cc_tasks g operation = Some t \<and>
      (\<forall>s. active_of (cc_core g) s = Some operation \<longrightarrow> active_of st s = Some operation)"
  shows "coord_inv (g\<lparr>cc_core := st, cc_claims := claims, cc_tasks := tasks\<rparr>)"
proof -
  have "task_ok st operation t" if t: "tasks operation = Some t" for operation t
    using shrinks_task [OF assms(2)] assms(1) assms(4) [OF t] by (auto simp: coord_inv_def)
  then show ?thesis
    using assms(1,3) shrinks_records [OF assms(2)] shrinks_accepted [OF assms(2)] by (simp add: coord_inv_def)
qed

section \<open>Every step keeps the invariant\<close>

lemma shrinks_finish: "keys_ok st \<Longrightarrow> shrinks st (finish_operation operation st)"
  unfolding shrinks_def using finish_operation_view by (auto split: option.splits if_splits)

lemma shrinks_set_record:
  "keys_ok st \<Longrightarrow> recs st i = Some q \<Longrightarrow> cr_source r = cr_source q \<Longrightarrow> cr_nonce r = cr_nonce q \<Longrightarrow> shrinks st (set_record i r st)"
  unfolding shrinks_def by auto

lemma shrinks_remove: "keys_ok st \<Longrightarrow> shrinks st (snd (remove_record i st))"
proof -
  have "j \<in> ids_of (snd (remove_record i st)) s" if "j \<noteq> i" "j \<in> ids_of st s" for j s
    using remove_record_view(5) [of st s i] that by blast
  then show "keys_ok st \<Longrightarrow> shrinks st (snd (remove_record i st))"
    by (auto simp: shrinks_def remove_record_view split: if_splits)
qed

lemma shrinks_refl: "keys_ok st \<Longrightarrow> shrinks st st"
  by (simp add: shrinks_def)

lemma coord_inv_keys: "coord_inv g \<Longrightarrow> keys_ok (cc_core g)"
  by (simp add: coord_inv_def records_ok_def)

lemma claims_ok_finish:
  assumes "keys_ok st" "claims_ok st claims"
  shows "claims_ok (finish_operation operation st) claims"
  using assms finish_operation_view(1) [OF assms(1)] by (fastforce simp: claims_ok_def cancelled_by_def)

lemma inv_leave:
  assumes "coord_inv g"
  shows "coord_inv (g\<lparr>cc_core := finish_operation operation (cc_core g), cc_tasks := (cc_tasks g)(operation := None)\<rparr>)"
proof -
  note keys = coord_inv_keys [OF assms]
  have "coord_inv (g\<lparr>cc_core := finish_operation operation (cc_core g), cc_claims := cc_claims g,
      cc_tasks := (cc_tasks g)(operation := None)\<rparr>)"
    using assms finish_operation_view(2) [OF keys] claims_ok_finish [OF keys]
    by (intro coord_inv_shrinks shrinks_finish keys) (auto simp: coord_inv_def split: if_splits)
  then show ?thesis by simp
qed

lemma inv_admit:
  assumes "coord_inv g" "admission (batch_senders preparations) (cc_core g) = (Acquired operation, st)"
  shows "coord_inv (g\<lparr>cc_core := st,
    cc_tasks := (cc_tasks g)(operation \<mapsto> \<lparr>ct_preparations = preparations, ct_reads = [], ct_registered = False\<rparr>)\<rparr>)"
proof -
  note adm = admission_Acquired [OF assms(2)]
  note free = admission_free [OF adm(8)]
  have inv: "records_ok (cc_core g) (cc_accepted g)" "accepted_ok (cc_core g) (cc_accepted g)" "claims_ok (cc_core g) (cc_claims g)"
    using assms(1) by (auto simp: coord_inv_def)
  have "records_ok st (cc_accepted g)" using inv(1) unfolding records_ok_def adm(3-6) .
  moreover have "accepted_ok st (cc_accepted g)" using inv(2) unfolding accepted_ok_def adm(4) .
  moreover have "claims_ok st (cc_claims g)" using inv(3) unfolding claims_ok_def adm(3) .
  moreover have "task_ok st op1 t" if t: "cc_tasks g op1 = Some t" for op1 t
  proof -
    have old: "task_ok (cc_core g) op1 t" using assms(1) t by (simp add: coord_inv_def)
    have "active_of st s = Some op1" if "s \<in> fst ` set (batch_senders (ct_preparations t))" for s
      using old that free [of s] adm(7) [of s] by (force simp: task_ok_def)
    moreover have "op1 < cs_next_operation st"
      using old adm(1,2) by (simp add: task_ok_def word_less_nat_alt)
    ultimately show ?thesis using old adm(3,4) by (simp add: task_ok_def)
  qed
  moreover have "task_ok st operation \<lparr>ct_preparations = preparations, ct_reads = [], ct_registered = False\<rparr>"
  proof -
    have "cr_source r \<notin> fst ` set (batch_senders preparations)" if "recs (cc_core g) i = Some r" for i r
      using free records_okD(1) [OF inv(1) that] that by fastforce
    then show ?thesis using adm(2,3,7) by (simp add: task_ok_def word_less_nat_alt)
  qed
  ultimately show ?thesis by (simp add: coord_inv_def)
qed

lemma inv_read:
  assumes "coord_inv g" "cc_tasks g operation = Some t"
    and "length (ct_reads t) < length (batch_senders (ct_preparations t))"
    and "snd read1 = coord_floor (cc_core g) (fst (batch_senders (ct_preparations t) ! length (ct_reads t)))"
  shows "coord_inv (g\<lparr>cc_tasks := (cc_tasks g)(operation \<mapsto> t\<lparr>ct_reads := ct_reads t @ [read1]\<rparr>)\<rparr>)"
proof -
  have "task_ok (cc_core g) operation (t\<lparr>ct_reads := ct_reads t @ [read1]\<rparr>)"
    using assms by (auto simp: coord_inv_def task_ok_def nth_append less_Suc_eq)
  then show ?thesis using assms(1) by (simp add: coord_inv_def)
qed

lemma registered_records_ok:
  assumes "records_ok st accepted" "accepted_ok st accepted" "task_ok st operation t" "\<not> ct_registered t"
    and "keeps_nonce (an_context answers)" "prepare_entries answers (ct_preparations t) (ct_reads t) = Ok entries"
    and "register operation entries st = (Ok u, st')"
  shows "records_ok st' accepted"
    "recs st' i = Some r \<Longrightarrow> recs st i = Some r \<or> active_of st (cr_source r) = Some operation"
    "recs st i = Some r \<Longrightarrow> recs st' i = Some r"
proof -
  note reg = register_Ok [OF assms(7)]
  note view = register_entries_view [where operation = operation and entries = entries and st = st, folded reg(1)]
  note prep = prepared_nonces [OF assms(6,5)]
  have fresh: "\<exists>e. e \<in> set entries \<and> st_id (pe_signed e) = i \<and> cr_source r = pe_source e \<and> cr_nonce r = pe_nonce e \<and> i \<in> ids_of st' (pe_source e)"
    if "recs st' i = Some r" "recs st i \<noteq> Some r" for i r
    using that view(6,7) [of i] by force
  have source: "pe_source e \<in> fst ` set (batch_senders (ct_preparations t))" if e: "e \<in> set entries" for e
    using prep(2) [OF e] by (metis image_eqI nth_mem)
  have slot: "(pe_source e, pe_nonce e) \<notin> set accepted" if e: "e \<in> set entries" for e
  proof
    assume "(pe_source e, pe_nonce e) \<in> set accepted"
    then obtain b where b: "coord_floor st (pe_source e) = Some b" "pe_nonce e < b" using assms(2) by (auto simp: accepted_ok_def)
    obtain n where n: "n < length (batch_senders (ct_preparations t))" "n < length (ct_reads t)"
        "fst (batch_senders (ct_preparations t) ! n) = pe_source e" "\<forall>b. snd (ct_reads t ! n) = Some b \<longrightarrow> b \<le> pe_nonce e"
      using prep(2) [OF e] by blast
    then have "snd (ct_reads t ! n) = Some b" using assms(3,4) b(1) by (simp add: task_ok_def)
    then show False using n(4) b(2) by auto
  qed
  show keep: "recs st' i = Some r" if r: "recs st i = Some r" for i r
    using view(6) [of i] reg(2) r by force
  show "recs st i = Some r \<or> active_of st (cr_source r) = Some operation" if r: "recs st' i = Some r" for i r
    using fresh [OF r] reg(2) by metis
  show "records_ok st' accepted"
  proof (rule records_okI)
    show "keys_ok st'" using view(4) assms(1) by (simp add: records_ok_def)
    show "i \<in> ids_of st' (cr_source r) \<and> unat (cr_nonce r) + 1 < 2 ^ 64 \<and> (cr_source r, cr_nonce r) \<notin> set accepted"
      if r: "recs st' i = Some r" for i r
    proof (cases "recs st i = Some r")
      case True
      then show ?thesis using records_okD(1-3) [OF assms(1)] view(5) by blast
    next
      case False
      then show ?thesis using fresh [OF r] prep(1) slot by metis
    qed
    show "cr_nonce r \<noteq> cr_nonce q"
      if rq: "recs st' i = Some r" "recs st' j = Some q" "i \<noteq> j" "cr_source r = cr_source q" for i j r q
    proof -
      have old: "cr_source p \<notin> fst ` set (batch_senders (ct_preparations t))" if "recs st k = Some p" for k p
        using that assms(3,4) by (auto simp: task_ok_def)
      show ?thesis
      proof (cases "recs st i = Some r")
        case True
        then have "recs st j = Some q" using fresh [OF rq(2)] old source rq(4) by metis
        then show ?thesis using records_okD(4) [OF assms(1) True] rq(3,4) by blast
      next
        case False
        then obtain e where e: "e \<in> set entries" "st_id (pe_signed e) = i" "cr_source r = pe_source e" "cr_nonce r = pe_nonce e"
          using fresh [OF rq(1)] by blast
        then have "recs st j \<noteq> Some q" using old source rq(4) by metis
        then obtain e' where "e' \<in> set entries" "st_id (pe_signed e') = j" "cr_source q = pe_source e'" "cr_nonce q = pe_nonce e'"
          using fresh [OF rq(2)] by blast
        then show ?thesis using prep(3) e rq(3,4) by metis
      qed
    qed
  qed
qed

lemma inv_prepared:
  assumes "coord_inv g" "cc_tasks g operation = Some t" "\<not> ct_registered t" "keeps_nonce (an_context answers)"
    and "prepare_finish operation answers (ct_preparations t) (ct_reads t) (cc_core g) = (Ok batch, st)"
  shows "coord_inv (g\<lparr>cc_core := st, cc_tasks := (cc_tasks g)(operation \<mapsto> t\<lparr>ct_registered := True\<rparr>)\<rparr>)"
proof -
  obtain entries u where run: "prepare_entries answers (ct_preparations t) (ct_reads t) = Ok entries"
      "register operation entries (cc_core g) = (Ok u, st)"
    using assms(5) by (auto simp: prepare_finish_def split: sum.splits prod.splits)
  have inv: "records_ok (cc_core g) (cc_accepted g)" "accepted_ok (cc_core g) (cc_accepted g)" "claims_ok (cc_core g) (cc_claims g)"
      "\<And>op1 t. cc_tasks g op1 = Some t \<Longrightarrow> task_ok (cc_core g) op1 t"
    using assms(1) by (auto simp: coord_inv_def)
  note new = registered_records_ok [OF inv(1,2) inv(4) [OF assms(2)] assms(3,4) run]
  have st: "st = fold (register_entry operation) entries (cc_core g)" by (rule register_Ok(1) [OF run(2)])
  have same: "active_of st = active_of (cc_core g)" "coord_floor st = coord_floor (cc_core g)"
      "cs_next_operation st = cs_next_operation (cc_core g)"
    unfolding st by (rule register_entries_view)+
  have "accepted_ok st (cc_accepted g)" using inv(2) unfolding accepted_ok_def same .
  moreover have "claims_ok st (cc_claims g)" using inv(3) new(3) by (auto simp: claims_ok_def)
  moreover have "task_ok st op1 q" if q: "cc_tasks g op1 = Some q" "op1 \<noteq> operation" for op1 q
  proof -
    have old: "task_ok (cc_core g) op1 q" by (rule inv(4) [OF q(1)])
    have "cr_source r \<notin> fst ` set (batch_senders (ct_preparations q))" if r: "recs st i = Some r" "\<not> ct_registered q" for i r
    proof (cases "recs (cc_core g) i = Some r")
      case True
      then show ?thesis using old r(2) unfolding task_ok_def by blast
    next
      case False
      then have "active_of (cc_core g) (cr_source r) = Some operation" using new(2) [OF r(1)] by blast
      then show ?thesis using old q(2) unfolding task_ok_def by force
    qed
    then show ?thesis using old unfolding task_ok_def same by blast
  qed
  moreover have "task_ok st operation (t\<lparr>ct_registered := True\<rparr>)"
    using inv(4) [OF assms(2)] unfolding task_ok_def same by simp
  ultimately show ?thesis using new(1) by (simp add: coord_inv_def)
qed

lemma prepare_finish_Err:
  "prepare_finish operation answers preparations reads st = (Err e, st') \<Longrightarrow> st' = finish_operation operation st"
  by (auto simp: prepare_finish_def register_def split: sum.splits prod.splits)

lemma inv_core:
  assumes "coord_inv g" "shrinks (cc_core g) st" "claims_ok st claims" "active_of st = active_of (cc_core g)"
  shows "coord_inv (g\<lparr>cc_core := st, cc_claims := claims\<rparr>)"
proof -
  have "coord_inv (g\<lparr>cc_core := st, cc_claims := claims, cc_tasks := cc_tasks g\<rparr>)"
    using assms by (intro coord_inv_shrinks) auto
  then show ?thesis by simp
qed

lemma inv_detach:
  assumes "coord_inv g" "detach operation i (cc_core g) = (r, st)"
  shows "coord_inv (g\<lparr>cc_core := st\<rparr>)"
proof (cases "st = cc_core g")
  case False
  then obtain q where q: "recs (cc_core g) i = Some q" "cr_status q = RecordPrepared" "st = set_record i (q\<lparr>cr_operation := None\<rparr>) (cc_core g)"
    using assms(2) by (auto simp: detach_def recs_def split: option.splits if_splits)
  have "claims_ok st (cc_claims g)"
    using assms(1) q by (force simp: coord_inv_def claims_ok_def)
  then have "coord_inv (g\<lparr>cc_core := st, cc_claims := cc_claims g\<rparr>)"
    using q shrinks_set_record [OF coord_inv_keys [OF assms(1)] q(1)] by (intro inv_core assms(1)) auto
  then show ?thesis by simp
qed (use assms(1) in simp)

lemma inv_claim:
  assumes "coord_inv g" "claim i expected (cc_core g) = (Ok (ClaimReady transaction recovery), st)"
  shows "coord_inv (g\<lparr>cc_core := st, cc_claims := (i, recovery) # cc_claims g\<rparr>)"
proof -
  obtain q where q: "recs (cc_core g) i = Some q" "cr_status q \<noteq> RecordReconciling"
      "st = set_record i (q\<lparr>cr_status := RecordReconciling\<rparr>) (cc_core g)"
    using assms(2) by (auto simp: claim_def recs_def split: option.splits if_splits)
  have "i \<notin> fst ` set (cc_claims g)" using assms(1) q(1,2) by (force simp: coord_inv_def claims_ok_def)
  then have "claims_ok st ((i, recovery) # cc_claims g)"
    using assms(1) q by (force simp: coord_inv_def claims_ok_def)
  then show ?thesis
    using q shrinks_set_record [OF coord_inv_keys [OF assms(1)] q(1)] by (intro inv_core assms(1)) auto
qed

text \<open>A claim leaves the list; what happened to its record does not matter to the others.\<close>

lemma claims_ok_removed:
  assumes "claims_ok st claims" "(i, recovery) \<in> set claims" "\<And>j. j \<noteq> i \<Longrightarrow> recs st' j = recs st j"
  shows "claims_ok st' (removeAll (i, recovery) claims)"
proof -
  have "distinct (map fst (removeAll (i, recovery) claims))"
    using assms(1) by (simp add: claims_ok_def removeAll_filter_not_eq distinct_map_filter)
  moreover have "\<exists>r. recs st' j = Some r \<and> cr_status r = RecordReconciling" if j: "j \<in> fst ` set (removeAll (i, recovery) claims)" for j
  proof -
    obtain x where x: "x \<in> set claims" "x \<noteq> (i, recovery)" "fst x = j" using j unfolding set_removeAll by blast
    then obtain c where c: "(j, c) \<in> set claims" "(j, c) \<noteq> (i, recovery)" by (metis prod.collapse)
    have "j \<noteq> i"
    proof
      assume "j = i"
      then have "c = recovery" using eq_key_imp_eq_value [of claims i c recovery] c(1) assms(1,2) by (simp add: claims_ok_def)
      then show False using c(2) \<open>j = i\<close> by simp
    qed
    then show ?thesis using assms(1,3) c(1) by (force simp: claims_ok_def)
  qed
  ultimately show ?thesis by (simp add: claims_ok_def)
qed

lemma submission_drop_view:
  assumes "keys_ok st"
  shows "shrinks st (submission_drop i st)" "active_of (submission_drop i st) = active_of st"
    "j \<noteq> i \<Longrightarrow> recs (submission_drop i st) j = recs st j"
proof -
  show "shrinks st (submission_drop i st)"
    using assms shrinks_refl [OF assms] shrinks_set_record [OF assms]
    by (auto simp: submission_drop_def recs_def split: option.splits)
  show "active_of (submission_drop i st) = active_of st" "j \<noteq> i \<Longrightarrow> recs (submission_drop i st) j = recs st j"
    by (auto simp: submission_drop_def split: option.splits)
qed

lemma inv_cancel:
  assumes "coord_inv g" "(i, recovery) \<in> set (cc_claims g)"
  shows "coord_inv (g\<lparr>cc_core := submission_drop i (cc_core g), cc_claims := removeAll (i, recovery) (cc_claims g)\<rparr>)"
  using assms submission_drop_view [OF coord_inv_keys [OF assms(1)]]
  by (intro inv_core claims_ok_removed) (auto simp: coord_inv_def)

lemma inv_reject:
  assumes "coord_inv g" "(i, recovery) \<in> set (cc_claims g)"
  shows "coord_inv (g\<lparr>cc_core := submission_reject i (cc_core g), cc_claims := removeAll (i, recovery) (cc_claims g)\<rparr>)"
  using assms shrinks_remove [OF coord_inv_keys [OF assms(1)]]
  by (intro inv_core claims_ok_removed) (auto simp: coord_inv_def submission_reject_def remove_record_view)

lemma submission_accept_Ok:
  assumes "recs st i = Some r" "unat (cr_nonce r) + 1 < 2 ^ 64"
  obtains st' b where "submission_accept i st = (Ok i, st')" "recs st' = (recs st)(i := None)" "active_of st' = active_of st"
    "cs_next_operation st' = cs_next_operation st" "keys_ok st \<longrightarrow> keys_ok st'"
    "\<forall>t. t \<noteq> cr_source r \<longrightarrow> coord_floor st' t = coord_floor st t"
    "coord_floor st' (cr_source r) = Some b" "cr_nonce r < b" "\<forall>c. coord_floor st (cr_source r) = Some c \<longrightarrow> c \<le> b"
    "\<forall>s. ids_of st s - {i} \<subseteq> ids_of st' s"
proof -
  obtain st1 where rem: "remove_record i st = (Some r, st1)" using assms(1) remove_record_view(1) [of i st] by (metis prod.collapse)
  then have st1: "st1 = snd (remove_record i st)" by simp
  note view = remove_record_view [where i = i and st = st, folded st1]
  have add: "checked_add (cr_nonce r) 1 = Some (cr_nonce r + 1)" "unat (cr_nonce r + 1) = unat (cr_nonce r) + 1"
    using assms(2) by (simp_all add: checked_add_nat unat_word_ariths)
  have less: "cr_nonce r < cr_nonce r + 1" using add(2) by (simp add: word_less_nat_alt)
  define b where "b = (case coord_floor st (cr_source r) of None \<Rightarrow> cr_nonce r + 1 | Some c \<Rightarrow> max c (cr_nonce r + 1))"
  define st' where "st' = set_sender (cr_source r) ((sender_entry st1 (cr_source r))\<lparr>ss_floor := Some b\<rparr>) st1"
  have "submission_accept i st = (Ok i, st')"
    using rem add(1) view(4) by (simp add: submission_accept_def Let_def st'_def b_def)
  moreover have "cr_nonce r < b" using less by (auto simp: b_def less_max_iff_disj split: option.splits)
  moreover have "c \<le> b" if "coord_floor st (cr_source r) = Some c" for c using that by (simp add: b_def)
  moreover have "recs st' = (recs st)(i := None)" "active_of st' = active_of st" "cs_next_operation st' = cs_next_operation st"
      "keys_ok st \<Longrightarrow> keys_ok st'" "coord_floor st' (cr_source r) = Some b"
    using view by (simp_all add: st'_def fun_eq_iff)
  moreover have "coord_floor st' t = coord_floor st t" if "t \<noteq> cr_source r" for t using view(4) that by (simp add: st'_def)
  moreover have "ids_of st s - {i} \<subseteq> ids_of st' s" for s using view(5) [of s] by (auto simp: st'_def)
  ultimately show thesis using that by blast
qed

lemma inv_accept:
  assumes "coord_inv g" "(i, recovery) \<in> set (cc_claims g)"
  shows "\<exists>st. submission_accept i (cc_core g) = (Ok i, st) \<and>
    coord_inv (g\<lparr>cc_core := st, cc_claims := removeAll (i, recovery) (cc_claims g), cc_accepted := slot_of (cc_core g) i @ cc_accepted g\<rparr>)"
proof -
  let ?st = "cc_core g"
  have inv: "records_ok ?st (cc_accepted g)" "accepted_ok ?st (cc_accepted g)" "claims_ok ?st (cc_claims g)"
      "\<And>op1 t. cc_tasks g op1 = Some t \<Longrightarrow> task_ok ?st op1 t"
    using assms(1) by (auto simp: coord_inv_def)
  obtain r where r: "recs ?st i = Some r" using inv(3) assms(2) by (force simp: claims_ok_def)
  note ok = records_okD [OF inv(1) r]
  have slot: "slot_of ?st i = [(cr_source r, cr_nonce r)]" using r by (simp add: slot_of_def)
  obtain st b where acc: "submission_accept i ?st = (Ok i, st)" "recs st = (recs ?st)(i := None)" "active_of st = active_of ?st"
      "cs_next_operation st = cs_next_operation ?st" "keys_ok ?st \<longrightarrow> keys_ok st"
      "\<forall>t. t \<noteq> cr_source r \<longrightarrow> coord_floor st t = coord_floor ?st t"
      "coord_floor st (cr_source r) = Some b" "cr_nonce r < b" "\<forall>c. coord_floor ?st (cr_source r) = Some c \<longrightarrow> c \<le> b"
      and ids: "\<forall>s. ids_of ?st s - {i} \<subseteq> ids_of st s"
    using r ok(2) by (rule submission_accept_Ok)
  have "records_ok st (slot_of ?st i @ cc_accepted g)"
  proof (rule records_okI)
    show "j \<in> ids_of st (cr_source q) \<and> unat (cr_nonce q) + 1 < 2 ^ 64 \<and> (cr_source q, cr_nonce q) \<notin> set (slot_of ?st i @ cc_accepted g)"
      if q: "recs st j = Some q" for j q
    proof -
      have old: "recs ?st j = Some q" "j \<noteq> i" using q acc(2) by (auto split: if_splits)
      then show ?thesis using records_okD [OF inv(1) old(1)] ids ok(4) [OF old(1)] slot by auto
    qed
    show "cr_nonce q \<noteq> cr_nonce p" if "recs st j = Some q" "recs st k = Some p" "j \<noteq> k" "cr_source q = cr_source p" for j k q p
      using that records_okD(4) [OF inv(1)] acc(2) by (auto split: if_splits)
  qed (use acc(5) coord_inv_keys [OF assms(1)] in simp)
  moreover have "accepted_ok st (slot_of ?st i @ cc_accepted g)"
  proof -
    have "\<exists>d. coord_floor st s = Some d \<and> n < d" if sn: "(s, n) \<in> set (cc_accepted g)" for s n
    proof (cases "s = cr_source r")
      case True
      obtain c where "coord_floor ?st s = Some c" "n < c" using inv(2) sn by (auto simp: accepted_ok_def)
      then show ?thesis using True acc(7,9) by (meson order.strict_trans2)
    qed (use inv(2) sn acc(6) in \<open>auto simp: accepted_ok_def\<close>)
    then show ?thesis using inv(2) slot ok(3) acc(7,8) by (auto simp: accepted_ok_def)
  qed
  moreover have "claims_ok st (removeAll (i, recovery) (cc_claims g))"
    using acc(2) by (intro claims_ok_removed [OF inv(3) assms(2)]) simp
  moreover have "task_ok st op1 t" if t: "cc_tasks g op1 = Some t" for op1 t
  proof -
    have old: "task_ok ?st op1 t" by (rule inv(4) [OF t])
    show ?thesis
    proof (cases "ct_registered t")
      case True
      then show ?thesis using old acc(3,4) by (simp add: task_ok_def)
    next
      case False
      then have free: "\<forall>j q. recs ?st j = Some q \<longrightarrow> cr_source q \<notin> fst ` set (batch_senders (ct_preparations t))"
        using old by (simp add: task_ok_def)
      then have "cr_source r \<notin> fst ` set (batch_senders (ct_preparations t))" using r by blast
      then have "coord_floor st (fst (batch_senders (ct_preparations t) ! k)) = coord_floor ?st (fst (batch_senders (ct_preparations t) ! k))"
        if "k < length (batch_senders (ct_preparations t))" for k
        using that acc(6) by (metis image_eqI nth_mem)
      moreover have "\<forall>j q. recs st j = Some q \<longrightarrow> cr_source q \<notin> fst ` set (batch_senders (ct_preparations t))"
        using free acc(2) by (auto split: if_splits)
      ultimately show ?thesis using old acc(3,4) unfolding task_ok_def by simp
    qed
  qed
  ultimately show ?thesis using acc(1) by (simp add: coord_inv_def)
qed

lemma inv_submit:
  assumes "coord_inv g" "(i, recovery) \<in> set (cc_claims g)" "submit_claimed i recovery known answer (cc_core g) = (r, st)"
  shows "coord_inv (g\<lparr>cc_core := st, cc_claims := removeAll (i, recovery) (cc_claims g), cc_accepted := accepted_slot (cc_core g) i r @ cc_accepted g\<rparr>)"
proof -
  obtain st1 where acc: "submission_accept i (cc_core g) = (Ok i, st1)" and inv1: "coord_inv (g\<lparr>cc_core := st1,
      cc_claims := removeAll (i, recovery) (cc_claims g), cc_accepted := slot_of (cc_core g) i @ cc_accepted g\<rparr>)"
    using inv_accept [OF assms(1,2)] by blast
  have cases3: "(r = Ok i \<and> st = st1) \<or> (\<exists>e. r = Err e) \<and> (st = submission_drop i (cc_core g) \<or> st = submission_reject i (cc_core g))"
    using assms(3) acc
    by (auto simp: submit_claimed_def submit_broadcast_def eff_err_def split: if_splits sum.splits bool.splits)
  then consider "r = Ok i" "st = st1" | e where "r = Err e" "st = submission_drop i (cc_core g)" | e where "r = Err e" "st = submission_reject i (cc_core g)"
    by blast
  then show ?thesis
  proof cases
    case 1
    then show ?thesis using inv1 by (simp add: accepted_slot_def)
  next
    case 2
    then show ?thesis using inv_cancel [OF assms(1,2)] by (simp add: accepted_slot_def)
  next
    case 3
    then show ?thesis using inv_reject [OF assms(1,2)] by (simp add: accepted_slot_def)
  qed
qed

section \<open>The interface of the node\<close>

text \<open>What the coordinator relies on: a preflight keeps the nonce it was given.\<close>

locale transactions =
  fixes context_call :: "'w \<Rightarrow> transfer_request \<Rightarrow> u64 \<Rightarrow> (eth_error, build_context) result"
  assumes context_keeps_nonce: "context_call w request nonce = Ok c \<Longrightarrow> bc_nonce c = nonce"
begin

lemma step_keeps_inv: "coord_step context_call g g' \<Longrightarrow> coord_inv g \<Longrightarrow> coord_inv g'"
proof (induction rule: coord_step.induct)
  case (step_prepared g operation t answers worlds batch st)
  have "keeps_nonce (an_context answers)" using step_prepared.hyps(3) context_keeps_nonce by (simp add: keeps_nonce_def)
  then show ?case using step_prepared by (intro inv_prepared) auto
next
  case (step_not_prepared g operation t answers e st)
  then show ?case using inv_leave prepare_finish_Err by blast
qed (simp_all add: inv_admit inv_read inv_leave inv_detach inv_claim inv_submit inv_cancel)

lemma reachable_inv: "coord_reachable context_call g \<Longrightarrow> coord_inv g"
  by (induction rule: coord_reachable.induct) (auto intro: coord_inv_start step_keeps_inv)

lemma accepted_distinct: "coord_reachable context_call g \<Longrightarrow> distinct (cc_accepted g)"
  using reachable_inv by (simp add: coord_inv_def accepted_ok_def)

lemma pending_not_accepted:
  "coord_reachable context_call g \<Longrightarrow> recs (cc_core g) i = Some r \<Longrightarrow> (cr_source r, cr_nonce r) \<notin> set (cc_accepted g)"
  using reachable_inv records_okD(3) unfolding coord_inv_def by blast

lemma pending_distinct:
  "coord_reachable context_call g \<Longrightarrow> recs (cc_core g) i = Some r \<Longrightarrow> recs (cc_core g) j = Some q \<Longrightarrow> i \<noteq> j \<Longrightarrow>
     cr_source r = cr_source q \<Longrightarrow> cr_nonce r \<noteq> cr_nonce q"
  using reachable_inv records_okD(4) unfolding coord_inv_def by blast

lemma admission_unique:
  assumes "coord_reachable context_call g" "cc_tasks g op1 = Some t1" "cc_tasks g op2 = Some t2"
    "s \<in> fst ` set (batch_senders (ct_preparations t1))" "s \<in> fst ` set (batch_senders (ct_preparations t2))"
  shows "op1 = op2"
proof -
  have "task_ok (cc_core g) op1 t1" "task_ok (cc_core g) op2 t2"
    using reachable_inv [OF assms(1)] assms(2,3) by (auto simp: coord_inv_def)
  then have "active_of (cc_core g) s = Some op1" "active_of (cc_core g) s = Some op2"
    using assms(4,5) unfolding task_ok_def by blast+
  then show ?thesis by simp
qed

lemma claim_accepts:
  "coord_reachable context_call g \<Longrightarrow> (i, recovery) \<in> set (cc_claims g) \<Longrightarrow> \<exists>st. submission_accept i (cc_core g) = (Ok i, st)"
  using inv_accept [OF reachable_inv] by blast

end

text \<open>The JSON-RPC client provides the interface.\<close>

interpretation rpc_transactions: transactions "\<lambda>w request nonce. fst (build_context_of m request nonce w)" for m :: "'w eth_rpc"
proof
  fix w request nonce c
  assume "fst (build_context_of m request nonce w) = Ok c"
  then obtain w' where "build_context_of m request nonce w = (Ok c, w')" by (metis prod.collapse)
  then show "bc_nonce c = nonce" by (rule build_context_steps) (metis build_context.select_convs(2))
qed

section \<open>A run\<close>

abbreviation demo_call :: "unit \<Rightarrow> transfer_request \<Rightarrow> u64 \<Rightarrow> (eth_error, build_context) result" where
  "demo_call \<equiv> \<lambda>w request nonce. fst (build_context_of demo_rpc request nonce w)"

definition demo_preparation :: preparation where
  "demo_preparation = \<lparr>pr_request = NativeTransfer [] [] 3, pr_expected_chain_id = 1\<rparr>"

definition demo_answers :: preparation_answers where
  "demo_answers =
     \<lparr>an_context = (\<lambda>index. demo_call ()), an_balance = (\<lambda>_ _. Ok 255), an_sign = (\<lambda>_ _. Ok \<lparr>st_id = [1], st_envelope = [2]\<rparr>)\<rparr>"

definition demo_record :: "record_status \<Rightarrow> coord_record" where
  "demo_record status =
     \<lparr>cr_source = [], cr_nonce = 7, cr_transaction = \<lparr>st_id = [1], st_envelope = [2]\<rparr>, cr_operation = Some 0, cr_status = status\<rparr>"

definition demo_state :: "(eth_id \<times> coord_record) list \<Rightarrow> coord_state" where
  "demo_state records =
     \<lparr>cs_next_operation = 1, cs_senders = [([], \<lparr>ss_active = Some 0, ss_floor = None, ss_records = map fst records\<rparr>)],
      cs_records = records\<rparr>"

lemma demo_senders: "batch_senders [demo_preparation] = [([], 0)]"
  by (simp add: batch_senders_def demo_preparation_def)

lemma demo_admission: "admission [([], 0)] coord_new = (Acquired 0, demo_state [])"
  by (simp add: admission_def coord_new_def checked_add_def activate_def set_sender_def sender_entry_def sender_default_def demo_state_def)

lemma demo_prepared:
  "\<exists>batch. prepare_finish 0 demo_answers [demo_preparation] [(Ok 7, None)] (demo_state []) =
     (Ok batch, demo_state [([1], demo_record RecordPrepared)])"
  by (simp add: prepare_finish_def prepare_entries_def batch_nonces_def demo_senders [unfolded demo_preparation_def] nonce_start_def checked_add_def Let_def
    demo_answers_def demo_preparation_def demo_preflight ensure_aggregate_balances_def from_drafts_def add_draft_def
    draft_native_def wei_checked_mul_u64_def checked_mul_def add_requirement_def requirements_of_def
    register_def register_check_def register_entry_def set_sender_def set_record_def sender_entry_def demo_state_def demo_record_def
    insort_insert_key_def)

lemma demo_claim:
  "claim [1] None (demo_state [([1], demo_record RecordPrepared)]) =
     (Ok (ClaimReady \<lparr>st_id = [1], st_envelope = [2]\<rparr> False), demo_state [([1], demo_record RecordReconciling)])"
  by (simp add: claim_def demo_state_def demo_record_def set_record_def)

lemma demo_submit:
  "\<exists>st. submit_claimed [1] False known (Ok [1]) (demo_state [([1], demo_record RecordReconciling)]) = (Ok [1], st)"
  by (simp add: submit_claimed_def submit_broadcast_def eff_err_def submission_accept_def remove_record_def demo_state_def
    demo_record_def checked_add_def Let_def)

lemma demo_claimed:
  "\<exists>g. coord_reachable demo_call g \<and> cc_core g = demo_state [([1], demo_record RecordReconciling)] \<and>
     cc_claims g = [([1], False)] \<and> cc_accepted g = [] \<and>
     cc_tasks g = [0 \<mapsto> \<lparr>ct_preparations = [demo_preparation], ct_reads = [(Ok 7, None)], ct_registered = True\<rparr>]"
proof -
  let ?t = "\<lambda>reads registered. \<lparr>ct_preparations = [demo_preparation], ct_reads = reads, ct_registered = registered\<rparr>"
  let ?g = "\<lambda>st task claims. \<lparr>cc_core = st, cc_tasks = [0 \<mapsto> task], cc_claims = claims, cc_accepted = []\<rparr>"
  obtain batch where batch: "prepare_finish 0 demo_answers [demo_preparation] [(Ok 7, None)] (demo_state []) =
      (Ok batch, demo_state [([1], demo_record RecordPrepared)])" using demo_prepared by blast
  have "coord_step demo_call coord_start (?g (demo_state []) (?t [] False) [])"
    using step_admit [of "[demo_preparation]" coord_start 0 "demo_state []" demo_call] demo_admission
    by (simp add: demo_senders coord_start_def)
  then have "coord_reachable demo_call (?g (demo_state []) (?t [] False) [])" by (rule reach_step [OF reach_start])
  moreover have "coord_step demo_call (?g (demo_state []) (?t [] False) []) (?g (demo_state []) (?t [(Ok 7, None)] False) [])"
    using step_read [of "?g (demo_state []) (?t [] False) []" 0 "?t [] False" "(Ok 7, None)" "Ok 7" demo_call]
    by (simp add: demo_senders coord_floor_def demo_state_def)
  moreover have "coord_step demo_call (?g (demo_state []) (?t [(Ok 7, None)] False) [])
      (?g (demo_state [([1], demo_record RecordPrepared)]) (?t [(Ok 7, None)] True) [])"
    using step_prepared [of "?g (demo_state []) (?t [(Ok 7, None)] False) []" 0 "?t [(Ok 7, None)] False" demo_answers demo_call "\<lambda>_. ()"]
      batch by (simp add: demo_answers_def)
  moreover have "coord_step demo_call (?g (demo_state [([1], demo_record RecordPrepared)]) (?t [(Ok 7, None)] True) [])
      (?g (demo_state [([1], demo_record RecordReconciling)]) (?t [(Ok 7, None)] True) [([1], False)])"
    using step_claim [of "[1]" None "?g (demo_state [([1], demo_record RecordPrepared)]) (?t [(Ok 7, None)] True) []" _ False _ demo_call] demo_claim
    by simp
  ultimately have "coord_reachable demo_call (?g (demo_state [([1], demo_record RecordReconciling)]) (?t [(Ok 7, None)] True) [([1], False)])"
    by (blast intro: reach_step)
  then show ?thesis by (intro exI [where x = "?g (demo_state [([1], demo_record RecordReconciling)]) (?t [(Ok 7, None)] True) [([1], False)]"]) simp
qed

lemma demo_accepted: "\<exists>g. coord_reachable demo_call g \<and> cc_accepted g = [([], 7)]"
proof -
  obtain g where g: "coord_reachable demo_call g" "cc_core g = demo_state [([1], demo_record RecordReconciling)]"
      "cc_claims g = [([1], False)]" "cc_accepted g = []"
    using demo_claimed by blast
  obtain st where "submit_claimed [1] False (Ok True) (Ok [1]) (cc_core g) = (Ok [1], st)" using demo_submit g(2) by metis
  from step_submit [OF _ this] have "coord_step demo_call g (g\<lparr>cc_core := st, cc_claims := removeAll ([1], False) (cc_claims g),
      cc_accepted := accepted_slot (cc_core g) [1] (Ok [1]) @ cc_accepted g\<rparr>)" using g(3) by simp
  from reach_step [OF g(1) this] show ?thesis
    using g(2,4) by (intro exI) (auto simp: accepted_slot_def slot_of_def recs_def demo_state_def demo_record_def)
qed

section \<open>Properties\<close>

text \<open>
  C28. In every interleaving of preparations, submissions, recoveries and cancellations that share a
  coordinator, no nonce of a sender is accepted twice, and no transaction that is still waiting to be
  submitted has a nonce that was accepted.
\<close>

theorem nonce_accepted_once:
  assumes "coord_reachable (\<lambda>w request nonce. fst (build_context_of m request nonce w)) g"
  shows "distinct (cc_accepted g) \<and>
    (\<forall>i r. map_of (cs_records (cc_core g)) i = Some r \<longrightarrow> (cr_source r, cr_nonce r) \<notin> set (cc_accepted g))"
  using rpc_transactions.accepted_distinct [OF assms] rpc_transactions.pending_not_accepted [OF assms] by (simp add: recs_def)

theorem nonce_accepted_once_witness:
  "\<exists>g. coord_reachable demo_call g \<and> cc_accepted g = [([], 7)] \<and> distinct (cc_accepted g)"
proof -
  obtain g where "coord_reachable demo_call g" "cc_accepted g = [([], 7)]" using demo_accepted by blast
  with nonce_accepted_once [of demo_rpc g] show ?thesis by blast
qed

text \<open>
  C29. In every interleaving a sender belongs to at most one live admission, the transactions waiting to
  be submitted have distinct nonces per sender, and a submission that was claimed can always be
  accepted: its record has not disappeared and its nonce has a successor.
\<close>

theorem admission_exclusive:
  assumes "coord_reachable (\<lambda>w request nonce. fst (build_context_of m request nonce w)) g"
  shows "(\<forall>op1 op2 t1 t2 s. cc_tasks g op1 = Some t1 \<and> cc_tasks g op2 = Some t2 \<and>
      s \<in> fst ` set (batch_senders (ct_preparations t1)) \<and> s \<in> fst ` set (batch_senders (ct_preparations t2)) \<longrightarrow> op1 = op2) \<and>
    (\<forall>i j r q. map_of (cs_records (cc_core g)) i = Some r \<and> map_of (cs_records (cc_core g)) j = Some q \<and> i \<noteq> j \<and>
      cr_source r = cr_source q \<longrightarrow> cr_nonce r \<noteq> cr_nonce q) \<and>
    (\<forall>i recovery. (i, recovery) \<in> set (cc_claims g) \<longrightarrow> (\<exists>st. submission_accept i (cc_core g) = (Ok i, st)))"
  using rpc_transactions.admission_unique [OF assms] rpc_transactions.pending_distinct [OF assms]
    rpc_transactions.claim_accepts [OF assms]
  unfolding recs_def by blast

theorem admission_exclusive_witness:
  "\<exists>g. coord_reachable demo_call g \<and> cc_claims g = [([1], False)] \<and> cc_tasks g 0 \<noteq> None \<and>
     (\<exists>st. submission_accept [1] (cc_core g) = (Ok [1], st))"
proof -
  obtain g where g: "coord_reachable demo_call g" "cc_claims g = [([1], False)]" "cc_tasks g 0 \<noteq> None" using demo_claimed by fastforce
  with admission_exclusive [of demo_rpc g] show ?thesis by auto
qed

end
