(* ===== verification/Eth_Balances.thy ===== *)
theory Eth_Balances
  imports Eth_Coordinator
begin

text \<open>
  The balance check of a batch: it accepts exactly the batches whose summed requirements every balance
  covers, and otherwise names the first transaction of the batch that the balances no longer cover,
  although it stops asking for balances early.
\<close>

section \<open>What a batch needs\<close>

definition draft_need :: "eth_address \<times> required_asset \<Rightarrow> draft \<Rightarrow> nat option" where
  "draft_need key d =
     (let request = pr_request (df_preparation d);
          fee = unat (bc_max_fee_per_gas (df_context d)) * unat (bc_gas_limit (df_context d)) in
      if fst key \<noteq> transfer_from request then None
      else (case snd key of
              RequiredNative \<Rightarrow> Some (fee + unat (transfer_value request))
            | RequiredErc20 token \<Rightarrow>
                (case erc20_transfer request of
                   Some (t, amount) \<Rightarrow> if t = token then Some (unat amount) else None
                 | None \<Rightarrow> None)))"

definition contributions :: "draft list \<Rightarrow> eth_address \<times> required_asset \<Rightarrow> (nat \<times> nat) list" where
  "contributions drafts key =
     concat (map (\<lambda>j. case draft_need key (drafts ! j) of None \<Rightarrow> [] | Some v \<Rightarrow> [(j, v)]) [0..<length drafts])"

text \<open>What the first \<open>n\<close> transactions need of an asset of a sender.\<close>

definition needed :: "draft list \<Rightarrow> eth_address \<times> required_asset \<Rightarrow> nat \<Rightarrow> nat" where
  "needed drafts key n = sum_list (map snd (filter (\<lambda>c. fst c < n) (contributions drafts key)))"

lemma contributions_Nil [simp]: "contributions [] key = []"
  by (simp add: contributions_def)

lemma contributions_snoc:
  "contributions (ds @ [d]) key =
     contributions ds key @ (case draft_need key d of None \<Rightarrow> [] | Some v \<Rightarrow> [(length ds, v)])"
proof -
  have "concat (map (\<lambda>j. case draft_need key ((ds @ [d]) ! j) of None \<Rightarrow> [] | Some v \<Rightarrow> [(j, v)]) [0..<length ds]) =
      concat (map (\<lambda>j. case draft_need key (ds ! j) of None \<Rightarrow> [] | Some v \<Rightarrow> [(j, v)]) [0..<length ds])"
    by (intro arg_cong [where f = concat] map_cong) (auto simp: nth_append)
  then show ?thesis by (simp add: contributions_def)
qed

lemma contributions_below: "c \<in> set (contributions ds key) \<Longrightarrow> fst c < length ds"
  by (auto simp: contributions_def split: option.splits)

lemma contributions_sorted: "sorted_wrt (<) (map fst (contributions ds key))"
proof (induction ds rule: rev_induct)
  case (snoc d ds)
  then show ?case using contributions_below [of _ ds key]
    by (auto simp: contributions_snoc sorted_wrt_append split: option.splits)
qed simp

section \<open>The requirements track the batch\<close>

definition tracks :: "requirements \<Rightarrow> draft list \<Rightarrow> bool" where
  "tracks needs ds \<longleftrightarrow>
     distinct (map fst needs) \<and>
     (\<forall>key. case map_of needs key of
        None \<Rightarrow> contributions ds key = []
      | Some (t, cs) \<Rightarrow> map (\<lambda>(j, a). (j, unat a)) cs = contributions ds key \<and> cs \<noteq> [] \<and>
          unat t = sum_list (map snd (contributions ds key)))"

text \<open>Adding one amount, seen through the map.\<close>

definition rq_entry :: "requirements \<Rightarrow> eth_address \<times> required_asset \<Rightarrow> wei \<times> (nat \<times> wei) list" where
  "rq_entry needs key = (case map_of needs key of Some e \<Rightarrow> e | None \<Rightarrow> (0, []))"

lemma add_requirement_Ok:
  assumes "add_requirement key amount index needs = Ok needs'"
  shows "map_of needs' = (map_of needs)(key \<mapsto> (fst (rq_entry needs key) + amount, snd (rq_entry needs key) @ [(index, amount)]))"
    "unat (fst (rq_entry needs key) + amount) = unat (fst (rq_entry needs key)) + unat amount"
    "distinct (map fst needs) \<Longrightarrow> distinct (map fst needs')"
proof -
  obtain s where s: "checked_add (fst (rq_entry needs key)) amount = Some s"
      "needs' = AList.update key (s, snd (rq_entry needs key) @ [(index, amount)]) needs"
    using assms by (auto simp: add_requirement_def Let_def result_simps rq_entry_def)
  have "s = fst (rq_entry needs key) + amount" using s(1) by (simp add: checked_add_def split: if_splits)
  then show "map_of needs' = (map_of needs)(key \<mapsto> (fst (rq_entry needs key) + amount, snd (rq_entry needs key) @ [(index, amount)]))"
    "unat (fst (rq_entry needs key) + amount) = unat (fst (rq_entry needs key)) + unat amount"
    "distinct (map fst needs) \<Longrightarrow> distinct (map fst needs')"
    using s by (simp_all add: update_conv' checked_add_SomeD distinct_update)
qed

lemma tracksD:
  assumes "tracks needs ds"
  shows "distinct (map fst needs)" "map_of needs key = None \<Longrightarrow> contributions ds key = []"
    "map_of needs key = Some (t, cs) \<Longrightarrow> map (\<lambda>(j, a). (j, unat a)) cs = contributions ds key \<and> cs \<noteq> [] \<and>
      unat t = sum_list (map snd (contributions ds key))"
proof -
  have at: "case map_of needs key of None \<Rightarrow> contributions ds key = []
      | Some (t, cs) \<Rightarrow> map (\<lambda>(j, a). (j, unat a)) cs = contributions ds key \<and> cs \<noteq> [] \<and>
          unat t = sum_list (map snd (contributions ds key))"
    using assms unfolding tracks_def by blast
  show "distinct (map fst needs)" using assms unfolding tracks_def by blast
  show "contributions ds key = []" if "map_of needs key = None" using at that by simp
  show "map (\<lambda>(j, a). (j, unat a)) cs = contributions ds key \<and> cs \<noteq> [] \<and> unat t = sum_list (map snd (contributions ds key))"
    if "map_of needs key = Some (t, cs)" using at that by simp
qed

lemma tracks_entry:
  assumes "tracks needs ds"
  shows "map (\<lambda>(j, a). (j, unat a)) (snd (rq_entry needs key)) = contributions ds key"
    "unat (fst (rq_entry needs key)) = sum_list (map snd (contributions ds key))"
  using tracksD(2,3) [OF assms, of key] by (cases "map_of needs key"; force simp: rq_entry_def)+

lemma tracksI:
  assumes "distinct (map fst needs)"
    and "\<And>key. map_of needs key = None \<Longrightarrow> contributions ds key = []"
    and "\<And>key t cs. map_of needs key = Some (t, cs) \<Longrightarrow> map (\<lambda>(j, a). (j, unat a)) cs = contributions ds key \<and> cs \<noteq> [] \<and>
      unat t = sum_list (map snd (contributions ds key))"
  shows "tracks needs ds"
  using assms unfolding tracks_def by (force split: option.splits)

lemma draft_native_Ok:
  assumes "draft_native index d = Ok v"
  shows "draft_need (transfer_from (pr_request (df_preparation d)), RequiredNative) d = Some (unat v)"
  using assms
  by (cases "pr_request (df_preparation d)")
    (auto simp: draft_native_def draft_need_def Let_def result_simps wei_checked_mul_u64_def checked_mul_SomeD checked_add_SomeD unat_ucast_up)

lemma add_draft_tracks:
  assumes "tracks needs ds" "add_draft (length ds) d needs = Ok needs'"
  shows "tracks needs' (ds @ [d])"
proof -
  let ?r = "pr_request (df_preparation d)"
  let ?nk = "(transfer_from ?r, RequiredNative)"
  obtain v needs1 where
      v: "draft_native (length ds) d = Ok v" and add1: "add_requirement ?nk v (length ds) needs = Ok needs1"
    and rest: "(case erc20_transfer ?r of None \<Rightarrow> Ok needs1
      | Some (token, amount) \<Rightarrow> add_requirement (transfer_from ?r, RequiredErc20 token) amount (length ds) needs1) = Ok needs'"
    using assms(2) by (auto simp: add_draft_def Let_def result_simps)
  note native1 = draft_native_Ok [OF v] and first = add_requirement_Ok [OF add1] and entry = tracks_entry [OF assms(1)]
  note dist = tracksD(1) [OF assms(1)] and none = tracksD(2) [OF assms(1)] and some = tracksD(3) [OF assms(1)]
  show ?thesis
  proof (cases "erc20_transfer ?r")
    case None
    then have others: "draft_need key d = None" if "key \<noteq> ?nk" for key
      using that by (auto simp: draft_need_def Let_def prod_eq_iff split: required_asset.splits)
    have "needs' = needs1" using rest None by simp
    then show ?thesis
      using first(1,2) first(3) [OF dist] native1 entry [of ?nk] others none some
      by (intro tracksI) (auto simp: contributions_snoc split: if_splits)
  next
    case (Some ta)
    obtain token amount where ta: "ta = (token, amount)" by (cases ta)
    let ?tk = "(transfer_from ?r, RequiredErc20 token)"
    have add2: "add_requirement ?tk amount (length ds) needs1 = Ok needs'" using rest Some ta by simp
    note second = add_requirement_Ok [OF add2]
    have same: "rq_entry needs1 ?tk = rq_entry needs ?tk" using first(1) by (simp add: rq_entry_def)
    have others: "draft_need key d = None" if "key \<noteq> ?nk" "key \<noteq> ?tk" for key
      using that Some ta by (auto simp: draft_need_def Let_def prod_eq_iff split: required_asset.splits)
    have need2: "draft_need ?tk d = Some (unat amount)" using Some ta by (simp add: draft_need_def)
    show ?thesis
      using first(1,2) second(1,2) second(3) [OF first(3) [OF dist]] native1 need2 entry [of ?nk] entry [of ?tk] others none some same
      by (intro tracksI) (auto simp: contributions_snoc split: if_splits)
  qed
qed

lemma add_drafts_tracks:
  assumes "tracks needs ds" "add_drafts (length ds) rest needs = Ok needs'"
  shows "tracks needs' (ds @ rest)"
  using assms
proof (induction rest arbitrary: ds needs)
  case (Cons d rest)
  obtain needs1 where step: "add_draft (length ds) d needs = Ok needs1" "add_drafts (length ds + 1) rest needs1 = Ok needs'"
    using Cons.prems(2) by (auto simp: result_simps)
  have "add_drafts (length (ds @ [d])) rest needs1 = Ok needs'" using step(2) by simp
  from Cons.IH [OF add_draft_tracks [OF Cons.prems(1) step(1)] this] show ?case by simp
qed simp

section \<open>The first failing contribution\<close>

lemma failing_contribution_first:
  assumes "unat cum \<le> unat balance" "unat balance < unat cum + sum_list (map (unat \<circ> snd) cs)"
  shows "\<exists>n < length cs. failing_contribution balance cum cs = Some (fst (cs ! n)) \<and>
    unat cum + sum_list (map (unat \<circ> snd) (take n cs)) \<le> unat balance \<and>
    unat balance < unat cum + sum_list (map (unat \<circ> snd) (take (Suc n) cs))"
  using assms
proof (induction cs arbitrary: cum)
  case (Cons c cs)
  obtain j a where c: "c = (j, a)" by (cases c)
  show ?case
  proof (cases "unat balance < unat cum + unat a")
    case True
    have "failing_contribution balance cum (c # cs) = Some j"
      using True c by (auto simp: checked_add_SomeD word_less_nat_alt split: option.splits)
    then show ?thesis using True Cons.prems c by (intro exI [where x = 0]) simp
  next
    case False
    then have fits: "unat cum + unat a < 2 ^ 256" using unat_less [of balance] by simp
    then have add: "checked_add cum a = Some (cum + a)" "unat (cum + a) = unat cum + unat a"
      by (simp_all add: checked_add_nat unat_word_ariths)
    have "unat (cum + a) \<le> unat balance" "unat balance < unat (cum + a) + sum_list (map (unat \<circ> snd) cs)"
      using False Cons.prems(2) add(2) c by (simp_all add: comp_def)
    from Cons.IH [OF this] obtain n where n: "n < length cs" "failing_contribution balance (cum + a) cs = Some (fst (cs ! n))"
        "unat (cum + a) + sum_list (map (unat \<circ> snd) (take n cs)) \<le> unat balance"
        "unat balance < unat (cum + a) + sum_list (map (unat \<circ> snd) (take (Suc n) cs))"
      by blast
    then show ?thesis using add False c by (intro exI [where x = "Suc n"]) (simp add: word_less_nat_alt comp_def)
  qed
qed simp

lemma filter_before:
  fixes cs :: "(nat \<times> nat) list"
  assumes "sorted_wrt (<) (map fst cs)" "n < length cs"
  shows "filter (\<lambda>c. fst c < Suc (fst (cs ! n))) cs = take (Suc n) cs"
    "k \<le> fst (cs ! n) \<Longrightarrow> sum_list (map snd (filter (\<lambda>c. fst c < k) cs)) \<le> sum_list (map snd (take n cs))"
  using assms
proof (induction cs arbitrary: n)
  case (Cons c cs)
  {
    case 1
    show ?case
    proof (cases n)
      case 0
      then show ?thesis using 1 by (auto simp: filter_empty_conv)
    next
      case (Suc m)
      then have "fst c < fst (cs ! m)" using 1 by (auto simp: set_conv_nth)
      then show ?thesis using Cons.IH(1) [of m] 1 Suc by (auto simp: less_Suc_eq)
    qed
  next
    case 2
    show ?case
    proof (cases n)
      case 0
      then have "filter (\<lambda>c. fst c < k) (c # cs) = []" using 2 by (force simp: filter_empty_conv)
      then show ?thesis by simp
    next
      case (Suc m)
      then show ?thesis using Cons.IH(2) [of m] 2 by auto
    qed
  }
qed simp_all

section \<open>The loop over the requirements\<close>

text \<open>A requirement of the batch with its key.\<close>

definition rq_key :: "requirement \<Rightarrow> eth_address \<times> required_asset" where
  "rq_key r = (rq_source r, rq_asset r)"

definition requirement_of :: "draft list \<Rightarrow> requirement \<Rightarrow> bool" where
  "requirement_of ds r \<longleftrightarrow>
     map (\<lambda>(j, a). (j, unat a)) (rq_contributions r) = contributions ds (rq_key r) \<and> rq_contributions r \<noteq> [] \<and>
     unat (rq_amount r) = sum_list (map snd (contributions ds (rq_key r)))"

lemma from_drafts_Ok:
  assumes "from_drafts ds = Ok reqs"
  shows "sorted (map first_index reqs)" "r \<in> set reqs \<Longrightarrow> requirement_of ds r"
    "contributions ds key \<noteq> [] \<Longrightarrow> \<exists>r \<in> set reqs. rq_key r = key"
proof -
  obtain needs where v: "add_drafts 0 ds [] = Ok needs" "reqs = requirements_of needs"
    using assms by (auto simp: from_drafts_def result_simps)
  have "tracks [] []" by (simp add: tracks_def)
  then have tracks: "tracks needs ds" using add_drafts_tracks [of "[]" "[]" ds needs] v(1) by simp
  note dist = tracksD(1) [OF tracks]
  show "sorted (map first_index reqs)" using v(2) by (simp add: requirements_of_def)
  show "requirement_of ds r" if r: "r \<in> set reqs"
  proof -
    have "(rq_key r, (rq_amount r, rq_contributions r)) \<in> set needs" using r v(2) by (auto simp: requirements_of_def rq_key_def)
    then have "map_of needs (rq_key r) = Some (rq_amount r, rq_contributions r)" using dist by simp
    then show ?thesis using tracksD(3) [OF tracks] by (simp add: requirement_of_def)
  qed
  show "\<exists>r \<in> set reqs. rq_key r = key" if c: "contributions ds key \<noteq> []"
  proof -
    obtain t cs where "map_of needs key = Some (t, cs)"
      using tracksD(2) [OF tracks, of key] c by (cases "map_of needs key") auto
    then have "(key, (t, cs)) \<in> set needs" by (rule map_of_SomeD)
    then have "\<lparr>rq_source = fst key, rq_asset = snd key, rq_amount = t, rq_contributions = cs\<rparr> \<in> set reqs"
      using v(2) by (cases key) (force simp: requirements_of_def image_def)
    then show ?thesis by (force simp: rq_key_def)
  qed
qed

lemma needed_all: "needed ds key (length ds) = sum_list (map snd (contributions ds key))"
proof -
  have "filter (\<lambda>c. fst c < length ds) (contributions ds key) = contributions ds key"
    using contributions_below by (intro filter_True) blast
  then show ?thesis by (simp add: needed_def)
qed

lemma needed_mono: "m \<le> n \<Longrightarrow> needed ds key m \<le> needed ds key n"
proof -
  assume "m \<le> n"
  then have "sum_list (map snd (filter (\<lambda>c. fst c < m) cs)) \<le> sum_list (map snd (filter (\<lambda>c. fst c < n) cs))" for cs :: "(nat \<times> nat) list"
    by (induction cs) auto
  then show "needed ds key m \<le> needed ds key n" by (simp add: needed_def)
qed

lemma needed_bounded: "needed ds key n \<le> needed ds key (length ds)"
proof (cases "n \<le> length ds")
  case False
  have "filter (\<lambda>c. fst c < n) (contributions ds key) = filter (\<lambda>c. fst c < length ds) (contributions ds key)"
    using contributions_below [of _ ds key] False by (intro filter_cong) fastforce+
  then show ?thesis by (simp add: needed_def)
qed (rule needed_mono)

text \<open>The failure index of a requirement the balance does not cover.\<close>

lemma failure_index_first:
  assumes "requirement_of ds r" "balance < rq_amount r"
  shows "unat balance < needed ds (rq_key r) (Suc (failure_index r balance))"
    "k \<le> failure_index r balance \<Longrightarrow> needed ds (rq_key r) k \<le> unat balance"
    "first_index r \<le> failure_index r balance"
proof -
  let ?cs = "rq_contributions r" and ?c = "contributions ds (rq_key r)"
  have map: "map (\<lambda>(j, a). (j, unat a)) ?cs = ?c" and sum: "unat (rq_amount r) = sum_list (map snd ?c)"
    using assms(1) by (auto simp: requirement_of_def)
  have snds: "map (unat \<circ> snd) (take n ?cs) = map snd (take n ?c)" for n
    by (simp add: map [symmetric] take_map comp_def case_prod_unfold)
  have "unat (0 :: wei) \<le> unat balance" "unat balance < unat (0 :: wei) + sum_list (map (unat \<circ> snd) ?cs)"
    using assms(2) sum snds [of "length ?cs"] arg_cong [OF map, of length] by (simp_all add: word_less_nat_alt)
  from failing_contribution_first [OF this] obtain n where
      n: "n < length ?cs" "failing_contribution balance 0 ?cs = Some (fst (?cs ! n))"
        "sum_list (map snd (take n ?c)) \<le> unat balance" "unat balance < sum_list (map snd (take (Suc n) ?c))"
    unfolding snds by auto
  have len: "length ?c = length ?cs" using arg_cong [OF map, of length] by simp
  have at: "fst (?c ! n) = fst (?cs ! n)" using n(1) by (simp add: map [symmetric] case_prod_unfold)
  have index: "failure_index r balance = fst (?c ! n)" using n(2) at by (simp add: failure_index_def)
  note before = filter_before [OF contributions_sorted, of n ds "rq_key r"]
  show "unat balance < needed ds (rq_key r) (Suc (failure_index r balance))"
    using before(1) n(1,4) len by (simp add: needed_def index)
  show "needed ds (rq_key r) k \<le> unat balance" if "k \<le> failure_index r balance"
    using before(2) [of k] n(1,3) len that by (simp add: needed_def index)
  have "first_index r = fst (?c ! 0)"
    using n(1) len by (cases ?cs) (auto simp: first_index_def map [symmetric])
  moreover have "fst (?c ! 0) \<le> fst (?c ! n)"
    using contributions_sorted [of ds "rq_key r"] n(1) len by (cases "n = 0") (auto simp: sorted_wrt_iff_nth_less intro: less_imp_le)
  ultimately show "first_index r \<le> failure_index r balance" using index by simp
qed

definition fails :: "(eth_address \<Rightarrow> asset_kind \<Rightarrow> wei) \<Rightarrow> requirement \<Rightarrow> bool" where
  "fails bal r \<longleftrightarrow> bal (rq_source r) (asset_of (rq_asset r)) < rq_amount r"

definition fails_at :: "(eth_address \<Rightarrow> asset_kind \<Rightarrow> wei) \<Rightarrow> requirement \<Rightarrow> nat" where
  "fails_at bal r = failure_index r (bal (rq_source r) (asset_of (rq_asset r)))"

lemma check_balances_first:
  assumes "sorted (map first_index reqs)" "\<And>r. r \<in> set reqs \<Longrightarrow> fails bal r \<Longrightarrow> first_index r \<le> fails_at bal r"
  shows "\<exists>res. check_balances (\<lambda>s a. Ok (bal s a)) reqs ins = Ok res \<and>
    (res = None \<longleftrightarrow> ins = None \<and> (\<forall>r \<in> set reqs. \<not> fails bal r)) \<and>
    (\<forall>m. res = Some m \<longrightarrow> (ins = Some m \<or> (\<exists>r \<in> set reqs. fails bal r \<and> fails_at bal r = m)) \<and>
       (\<forall>x. ins = Some x \<longrightarrow> m \<le> x) \<and> (\<forall>r \<in> set reqs. fails bal r \<longrightarrow> m \<le> fails_at bal r))"
  using assms
proof (induction reqs arbitrary: ins)
  case (Cons r reqs)
  have rest: "sorted (map first_index reqs)" "\<And>q. q \<in> set reqs \<Longrightarrow> fails bal q \<Longrightarrow> first_index q \<le> fails_at bal q"
    using Cons.prems by auto
  note IH = Cons.IH [OF rest]
  show ?case
  proof (cases "\<exists>x. ins = Some x \<and> x \<le> first_index r")
    case True
    then obtain x where x: "ins = Some x" "x \<le> first_index r" by blast
    have "x \<le> fails_at bal q" if "q \<in> set (r # reqs)" "fails bal q" for q
      using that x(2) Cons.prems(1) Cons.prems(2) [OF that] by fastforce
    then show ?thesis using x by (intro exI [where x = "Some x"]) simp
  next
    case False
    then have go: "\<not> (case ins of None \<Rightarrow> False | Some index \<Rightarrow> index \<le> first_index r)" by (auto split: option.splits)
    show ?thesis
    proof (cases "fails bal r")
      case True
      then have "check_balances (\<lambda>s a. Ok (bal s a)) (r # reqs) ins =
          check_balances (\<lambda>s a. Ok (bal s a)) reqs (Some (case ins of None \<Rightarrow> fails_at bal r | Some x \<Rightarrow> min x (fails_at bal r)))"
        using go by (simp add: fails_def fails_at_def Let_def not_le [symmetric] cong: option.case_cong)
      then show ?thesis using IH [of "Some (case ins of None \<Rightarrow> fails_at bal r | Some x \<Rightarrow> min x (fails_at bal r))"] True
        by (auto split: option.splits)
    next
      case False
      then have "check_balances (\<lambda>s a. Ok (bal s a)) (r # reqs) ins = check_balances (\<lambda>s a. Ok (bal s a)) reqs ins"
        using go by (simp add: fails_def not_less)
      then show ?thesis using IH [of ins] False by auto
    qed
  qed
qed auto

section \<open>The check of a batch\<close>

definition demo_batch_drafts :: "draft list" where
  "demo_batch_drafts =
     [\<lparr>df_preparation = \<lparr>pr_request = NativeTransfer [] [] v, pr_expected_chain_id = 1\<rparr>,
       df_context = \<lparr>bc_chain_id = 1, bc_nonce = 0, bc_gas_limit = 1, bc_max_fee_per_gas = 1, bc_max_priority_fee_per_gas = 1\<rparr>\<rparr>.
      v \<leftarrow> [3, 4]]"

lemma demo_requirements: "\<exists>reqs. from_drafts demo_batch_drafts = Ok reqs"
  by (simp add: from_drafts_def demo_batch_drafts_def add_draft_def draft_native_def wei_checked_mul_u64_def checked_mul_def
    add_requirement_def checked_add_def Let_def)

section \<open>Properties\<close>

text \<open>
  C30. When the amounts of a batch do not overflow, the balance check accepts the batch if and only if
  every balance covers the sum of everything the batch takes from it, and otherwise it reports the
  first transaction up to which some balance is exceeded, although it does not ask for every balance.
\<close>

theorem aggregate_balances_exact:
  assumes "from_drafts drafts = Ok reqs"
  shows "ensure_aggregate_balances (\<lambda>s a. Ok (bal s a)) drafts =
    (if \<forall>key. needed drafts key (length drafts) \<le> unat (bal (fst key) (asset_of (snd key))) then Ok ()
     else Err (preparation_error_new
       (LEAST i. \<exists>key. unat (bal (fst key) (asset_of (snd key))) < needed drafts key (Suc i)) aggregate_balance_error))"
proof -
  note reqs = from_drafts_Ok [OF assms]
  let ?b = "\<lambda>key. bal (fst key) (asset_of (snd key))"
  have amount: "unat (rq_amount r) = needed drafts (rq_key r) (length drafts)" if "r \<in> set reqs" for r
    using reqs(2) [OF that] by (simp add: requirement_of_def needed_all)
  have key: "bal (rq_source r) (asset_of (rq_asset r)) = ?b (rq_key r)" for r by (simp add: rq_key_def)
  have over: "\<exists>r \<in> set reqs. rq_key r = k \<and> fails bal r" if "unat (?b k) < needed drafts k (length drafts)" for k
  proof -
    have "contributions drafts k \<noteq> []" using that by (auto simp: needed_all)
    then obtain r where r: "r \<in> set reqs" "rq_key r = k" using reqs(3) by blast
    then show ?thesis using that amount key by (auto simp: fails_def word_less_nat_alt)
  qed
  have first: "first_index r \<le> fails_at bal r" if "r \<in> set reqs" "fails bal r" for r
    using failure_index_first(3) [OF reqs(2) [OF that(1)]] that(2) by (simp add: fails_def fails_at_def)
  obtain res where res: "check_balances (\<lambda>s a. Ok (bal s a)) reqs None = Ok res" "res = None \<longleftrightarrow> (\<forall>r \<in> set reqs. \<not> fails bal r)"
      "\<And>m. res = Some m \<Longrightarrow> \<exists>r \<in> set reqs. fails bal r \<and> fails_at bal r = m"
      "\<And>m r. res = Some m \<Longrightarrow> r \<in> set reqs \<Longrightarrow> fails bal r \<Longrightarrow> m \<le> fails_at bal r"
    using check_balances_first [OF reqs(1) first, of None] by auto
  have run: "ensure_aggregate_balances (\<lambda>s a. Ok (bal s a)) drafts =
      (case res of Some i \<Rightarrow> Err (preparation_error_new i aggregate_balance_error) | None \<Rightarrow> Ok ())"
    using assms res(1) by (simp add: ensure_aggregate_balances_def)
  show ?thesis
  proof (cases res)
    case None
    then have "needed drafts k (length drafts) \<le> unat (?b k)" for k using over [of k] res(2) by (meson not_le)
    then show ?thesis using run None by simp
  next
    case (Some m)
    then obtain r where r: "r \<in> set reqs" "fails bal r" "fails_at bal r = m" using res(3) by blast
    then have short: "?b (rq_key r) < rq_amount r" using key by (simp add: fails_def)
    have at_m: "unat (?b (rq_key r)) < needed drafts (rq_key r) (Suc m)"
      using failure_index_first(1) [OF reqs(2) [OF r(1)] short] r(3) key by (simp add: fails_at_def)
    have "m \<le> i" if i: "unat (?b k) < needed drafts k (Suc i)" for i k
    proof -
      have "unat (?b k) < needed drafts k (length drafts)" using i needed_bounded [of drafts k "Suc i"] by simp
      then obtain q where q: "q \<in> set reqs" "rq_key q = k" "fails bal q" using over by blast
      have "m \<le> fails_at bal q" using res(4) [OF Some q(1,3)] .
      moreover have "fails_at bal q \<le> i"
        using failure_index_first(2) [OF reqs(2) [OF q(1)], of "?b k" "Suc i"] i q key by (force simp: fails_def fails_at_def)
      ultimately show ?thesis by simp
    qed
    then have "(LEAST i. \<exists>k. unat (?b k) < needed drafts k (Suc i)) = m" using at_m by (intro Least_equality) blast+
    moreover have "\<not> (\<forall>k. needed drafts k (length drafts) \<le> unat (?b k))"
      using at_m needed_bounded [of drafts "rq_key r" "Suc m"] by (meson not_le order.strict_trans2)
    ultimately show ?thesis using run Some by simp
  qed
qed

theorem aggregate_balances_exact_witness:
  "\<exists>reqs. from_drafts demo_batch_drafts = Ok reqs \<and>
    ensure_aggregate_balances (\<lambda>s a. Ok 8) demo_batch_drafts =
    (if \<forall>key. needed demo_batch_drafts key (length demo_batch_drafts) \<le> unat (8 :: wei) then Ok ()
     else Err (preparation_error_new (LEAST i. \<exists>key. unat (8 :: wei) < needed demo_batch_drafts key (Suc i)) aggregate_balance_error))"
proof -
  obtain reqs where "from_drafts demo_batch_drafts = Ok reqs" using demo_requirements by blast
  with aggregate_balances_exact [of demo_batch_drafts reqs "\<lambda>_ _. 8"] show ?thesis by blast
qed

end
