(* ===== verification/Wallet_Values.thy ===== *)
theory Wallet_Values
  imports Observation Transaction_Values
begin

text \<open>
  The values of \<open>sdk/wallets\<close>: its errors (\<open>error.rs\<close>), address texts (\<open>address.rs\<close>), batch errors
  (\<open>sender.rs\<close>), and the wallet capabilities with the conversion of index pages to display amounts
  (\<open>wallet.rs\<close>). A concrete wallet belongs to a chain crate: its capabilities are the fields of the record
  \<open>wallet\<close>, functions on the state of the outside world.
\<close>

section \<open>Errors\<close>

datatype wallet_error_kind =
  WUnsupported | WDuplicate | WNotFound | WConflict | WUnavailable | WSourceBusy | WGeneration | WInvalidSecret
| WInvalidAddress | WInvalidAmount | WInvalidBatch | WAddressMismatch | WBalance | WHistory | WTransaction

record wallet_error =
  we_kind :: wallet_error_kind
  we_message :: string
  we_ambiguous :: "string option"

definition wallet_error_new :: "wallet_error_kind \<Rightarrow> string \<Rightarrow> wallet_error" where
  "wallet_error_new kind message = \<lparr>we_kind = kind, we_message = message, we_ambiguous = None\<rparr>"

fun wallet_kind_of_transaction :: "transaction_error_kind \<Rightarrow> wallet_error_kind" where
  "wallet_kind_of_transaction TxInvalidAddress = WInvalidAddress"
| "wallet_kind_of_transaction TxInvalidAmount = WInvalidAmount"
| "wallet_kind_of_transaction TxUnavailable = WUnavailable"
| "wallet_kind_of_transaction TxUnknown = WUnavailable"
| "wallet_kind_of_transaction TxTimeout = WUnavailable"
| "wallet_kind_of_transaction TxInvalidSnapshot = WTransaction"
| "wallet_kind_of_transaction TxInvalidTransaction = WTransaction"
| "wallet_kind_of_transaction TxUnsupported = WTransaction"
| "wallet_kind_of_transaction TxInsufficientFunds = WTransaction"
| "wallet_kind_of_transaction TxFee = WTransaction"
| "wallet_kind_of_transaction TxSigning = WTransaction"
| "wallet_kind_of_transaction TxDivergent = WTransaction"
| "wallet_kind_of_transaction TxRejected = WTransaction"

definition wallet_error_of_transaction :: "transaction_error \<Rightarrow> wallet_error" where
  "wallet_error_of_transaction e =
     \<lparr>we_kind = wallet_kind_of_transaction (te_kind e), we_message = te_message e, we_ambiguous = te_ambiguous e\<rparr>"

definition wallet_error_of_index :: "index_error \<Rightarrow> wallet_error" where
  "wallet_error_of_index e =
     wallet_error_new
       (case ie_kind e of
          Conflict \<Rightarrow> WConflict
        | ScopeMismatch \<Rightarrow> WUnsupported
        | InvalidRequest \<Rightarrow> WUnsupported
        | _ \<Rightarrow> WUnavailable)
       (ie_message e)"

definition history_error :: "string \<Rightarrow> wallet_error" where
  "history_error message = wallet_error_new WHistory message"

text \<open>The error of a selection as the synchronizer sees it (\<open>selection.rs\<close>).\<close>

definition into_filter_error :: "wallet_error \<Rightarrow> index_error" where
  "into_filter_error e =
     index_error_new (if we_kind e = WUnavailable then StoreFailure else InvalidRequest) (we_message e) False"

section \<open>Address texts\<close>

datatype address_encoding = Base58 | Base58Check | Bech32 | Bech32m | HexEncoding

record address_text =
  at_encoding :: address_encoding
  at_text :: string

section \<open>Batch errors\<close>

record send_error =
  sd_accepted :: "string list"
  sd_failed_index :: "nat option"
  sd_ambiguous :: "string option"
  sd_source :: wallet_error

definition send_definite :: "wallet_error_kind \<Rightarrow> string \<Rightarrow> send_error" where
  "send_definite kind message =
     \<lparr>sd_accepted = [], sd_failed_index = None, sd_ambiguous = None, sd_source = wallet_error_new kind message\<rparr>"

text \<open>The ambiguous id is moved out of the source error.\<close>

definition send_new :: "string list \<Rightarrow> nat option \<Rightarrow> wallet_error \<Rightarrow> send_error" where
  "send_new accepted failed_index source =
     \<lparr>sd_accepted = accepted, sd_failed_index = failed_index, sd_ambiguous = we_ambiguous source,
      sd_source = source\<lparr>we_ambiguous := None\<rparr>\<rparr>"

definition send_collection :: "wallet_error_kind \<Rightarrow> string \<Rightarrow> send_error" where
  "send_collection kind message = send_definite kind message"

definition send_operation :: "wallet_error_kind \<Rightarrow> string \<Rightarrow> send_error" where
  "send_operation kind message = send_definite kind message"

definition send_item :: "nat \<Rightarrow> string list \<Rightarrow> wallet_error \<Rightarrow> send_error" where
  "send_item failed_index accepted source = send_new accepted (Some failed_index) source"

definition send_grouped :: "string list \<Rightarrow> wallet_error \<Rightarrow> send_error" where
  "send_grouped accepted source = send_new accepted None source"

definition send_error_display :: "send_error \<Rightarrow> string" where
  "send_error_display e =
     (case sd_failed_index e of
        Some failed_index \<Rightarrow>
          ''transaction '' @ to_digits failed_index @ '' failed after '' @ to_digits (length (sd_accepted e)) @
          '' accepted transaction(s): '' @ we_message (sd_source e)
      | None \<Rightarrow> we_message (sd_source e))"

section \<open>Wallet histories\<close>

record wallet_balance =
  wb_amount :: decimal
  wb_observed_at :: "block_ref option"

record history_request =
  hr_after :: "history_cursor option"
  hr_limit :: nat

record history_asset =
  ha_id :: asset_id
  ha_name :: "string option"
  ha_ticker :: "string option"
  ha_decimals :: nat

record history_movement =
  hm_id :: movement_id
  hm_kind :: movement_kind
  hm_asset :: history_asset
  hm_amount :: decimal
  hm_from :: "canonical_address option"
  hm_to :: "canonical_address option"

record history_fee =
  hf_asset :: history_asset
  hf_amount :: decimal
  hf_payer :: "canonical_address option"

datatype history_status =
  HistoryIncluded block_ref u64
| HistoryConfirmed block_ref u64
| HistoryFailed block_ref "string option"

record history_entry =
  he_scope :: index_scope
  he_transaction_id :: transaction_ref
  he_status :: history_status
  he_movements :: "history_movement list"
  he_fee :: "history_fee option"

record wallet_history =
  wh_checkpoint :: "block_ref option"
  wh_transactions :: "history_entry list"
  wh_next :: "history_cursor option"

definition asset_mismatch_error :: wallet_error where
  "asset_mismatch_error = history_error ''wallet asset metadata does not match the indexed asset identity''"
definition not_integer_error :: "decimal_error \<Rightarrow> wallet_error" where
  "not_integer_error e =
     wallet_error_new WHistory (''indexed amount is not a non-negative integer: '' @ de_message e)"
definition cursor_scope_error :: wallet_error where
  "cursor_scope_error = history_error ''indexed history cursor does not belong to the requested scope''"
definition entry_scope_error :: wallet_error where
  "entry_scope_error = history_error ''indexed transaction does not belong to the requested scope''"
definition entry_identity_error :: wallet_error where
  "entry_identity_error = history_error ''indexed transaction identity does not belong to its observation scope''"
definition asset_chain_error :: wallet_error where
  "asset_chain_error = history_error ''indexed asset does not belong to the transaction chain''"
definition payer_scope_error :: wallet_error where
  "payer_scope_error = history_error ''indexed fee payer does not belong to the transaction scope''"
definition movement_scope_error :: wallet_error where
  "movement_scope_error = history_error ''indexed movement address does not belong to the transaction scope''"

type_synonym asset_resolver = "asset_id \<Rightarrow> (wallet_error, history_asset) result"

definition asset_resolve :: "asset_id \<Rightarrow> asset_resolver \<Rightarrow> (wallet_error, history_asset) result" where
  "asset_resolve i asset =
     and_then (asset i) (\<lambda>metadata.
     and_then (fail_if (ha_id metadata \<noteq> i) asset_mismatch_error) (\<lambda>_. Ok metadata))"

definition display_amount :: "history_asset \<Rightarrow> decimal \<Rightarrow> (wallet_error, decimal) result" where
  "display_amount asset atomic =
     and_then (map_err not_integer_error (to_atomic atomic 0)) (\<lambda>units. Ok (from_atomic units (ha_decimals asset)))"

text \<open>
  The match on the movement reads the same fields as \<open>mv_id, mv_asset, mv_amount, mv_from, mv_to\<close>.
\<close>

definition movement_from_index ::
  "value_movement \<Rightarrow> index_scope \<Rightarrow> asset_resolver \<Rightarrow> (wallet_error, history_movement) result" where
  "movement_from_index movement scope asset =
     and_then (fail_if (ai_chain (mv_asset movement) \<noteq> sc_chain scope) asset_chain_error) (\<lambda>_.
     and_then (fail_if
       (list_ex (\<lambda>a. \<not> address_belongs_to a scope) (opt_list (mv_from movement) @ opt_list (mv_to movement)))
       movement_scope_error) (\<lambda>_.
     and_then (asset_resolve (mv_asset movement) asset) (\<lambda>metadata.
     and_then (display_amount metadata (mv_amount movement)) (\<lambda>amount.
     Ok \<lparr>hm_id = mv_id movement, hm_kind = mv_kind movement, hm_asset = metadata, hm_amount = amount,
         hm_from = mv_from movement, hm_to = mv_to movement\<rparr>))))"

fun status_from_index :: "transaction_status \<Rightarrow> history_status" where
  "status_from_index (StatusIncluded block confirmations) = HistoryIncluded block confirmations"
| "status_from_index (StatusConfirmed block confirmations) = HistoryConfirmed block confirmations"
| "status_from_index (StatusFailed block reason) = HistoryFailed block reason"

definition fee_from_index ::
  "index_scope \<Rightarrow> asset_resolver \<Rightarrow> network_fee \<Rightarrow> (wallet_error, history_fee) result" where
  "fee_from_index scope asset fee =
     and_then (fail_if (ai_chain (nf_asset fee) \<noteq> sc_chain scope) asset_chain_error) (\<lambda>_.
     and_then (fail_if (case nf_payer fee of None \<Rightarrow> False | Some payer \<Rightarrow> \<not> address_belongs_to payer scope)
       payer_scope_error) (\<lambda>_.
     and_then (asset_resolve (nf_asset fee) asset) (\<lambda>metadata.
     and_then (display_amount metadata (nf_amount fee)) (\<lambda>amount.
     Ok \<lparr>hf_asset = metadata, hf_amount = amount, hf_payer = nf_payer fee\<rparr>))))"

definition entry_from_index ::
  "index_scope \<Rightarrow> asset_resolver \<Rightarrow> observed_transaction \<Rightarrow> (wallet_error, history_entry) result" where
  "entry_from_index expected_scope asset transaction =
     and_then (fail_if (ot_scope transaction \<noteq> expected_scope) entry_scope_error) (\<lambda>_.
     and_then (fail_if (\<not> transaction_belongs_to (ot_id transaction) expected_scope) entry_identity_error) (\<lambda>_.
     and_then (collect (\<lambda>movement. movement_from_index movement (ot_scope transaction) asset) (ot_movements transaction)) (\<lambda>movements.
     and_then (transpose_map (fee_from_index (ot_scope transaction) asset) (ot_fee transaction)) (\<lambda>fee.
     Ok \<lparr>he_scope = ot_scope transaction, he_transaction_id = ot_id transaction,
         he_status = status_from_index (ot_status transaction), he_movements = movements, he_fee = fee\<rparr>))))"

definition history_from_index ::
  "transaction_page \<Rightarrow> index_scope \<Rightarrow> asset_resolver \<Rightarrow> (wallet_error, wallet_history) result" where
  "history_from_index page expected_scope asset =
     and_then (fail_if
       (case tp_next page of None \<Rightarrow> False
        | Some cursor \<Rightarrow> \<not> transaction_belongs_to (hp_transaction (hc_position cursor)) expected_scope)
       cursor_scope_error) (\<lambda>_.
     and_then (collect (entry_from_index expected_scope asset) (tp_transactions page)) (\<lambda>transactions.
     Ok \<lparr>wh_checkpoint = tp_checkpoint page, wh_transactions = transactions, wh_next = tp_next page\<rparr>))"

section \<open>Wallets\<close>

record 'w wallet =
  wa_address :: address
  wa_address_text :: "address \<Rightarrow> (wallet_error, address_text) result"
  wa_parse_address :: "address_text \<Rightarrow> (wallet_error, address) result"
  wa_balance :: "('w, wallet_error, wallet_balance) eff"
  wa_history :: "history_request \<Rightarrow> ('w, wallet_error, wallet_history) eff"
  wa_send :: "address_text \<Rightarrow> decimal \<Rightarrow> ('w, wallet_error, string) eff"

text \<open>\<open>TransactionBuilder\<close>, \<open>TransactionFactory\<close> and \<open>Broadcaster\<close>; a signed transaction is known by its id.\<close>

record ('w, 'b, 's) transaction_factory =
  tf_parse_address :: "address_text \<Rightarrow> (wallet_error, address) result"
  tf_transaction :: 'b
  tf_transfer :: "'b \<Rightarrow> address \<Rightarrow> decimal \<Rightarrow> (transaction_error, 'b) result"
  tf_prepare :: "'b \<Rightarrow> ('w, transaction_error, 's) eff"
  tf_id :: "'s \<Rightarrow> string"
  tf_broadcast :: "'s \<Rightarrow> ('w, transaction_error, string) eff"

definition amount_positive_error :: wallet_error where
  "amount_positive_error = wallet_error_new WInvalidAmount ''amount must be positive''"
definition different_id_error :: wallet_error where
  "different_id_error = wallet_error_new WTransaction ''broadcaster returned a different transaction ID''"

text \<open>\<open>amount <= Decimal::zero()\<close>.\<close>

definition not_positive :: "decimal \<Rightarrow> bool" where
  "not_positive amount \<longleftrightarrow> decimal_cmp amount decimal_zero \<noteq> Greater"

definition transaction_step :: "('w, transaction_error, 'a) eff \<Rightarrow> ('w, wallet_error, 'a) eff" where
  "transaction_step m = (\<lambda>w. case m w of (r, w') \<Rightarrow> (map_err wallet_error_of_transaction r, w'))"

definition send_with_transaction ::
  "('w, 'b, 's) transaction_factory \<Rightarrow> address_text \<Rightarrow> decimal \<Rightarrow> ('w, wallet_error, string) eff" where
  "send_with_transaction wallet destination amount =
     bind_eff (lift_result (fail_if (not_positive amount) amount_positive_error)) (\<lambda>_.
     bind_eff (lift_result (tf_parse_address wallet destination)) (\<lambda>destination.
     bind_eff (lift_result (map_err wallet_error_of_transaction (tf_transfer wallet (tf_transaction wallet) destination amount))) (\<lambda>transaction.
     bind_eff (transaction_step (tf_prepare wallet transaction)) (\<lambda>signed.
     bind_eff (transaction_step (tf_broadcast wallet signed)) (\<lambda>submitted.
     bind_eff (lift_result (fail_if (submitted \<noteq> tf_id wallet signed) different_id_error)) (\<lambda>_.
     ret submitted))))))"


section \<open>Shown histories\<close>

text \<open>An amount in display units: it is the exact quotient of a whole number of atomic units.\<close>

definition shown_amount :: "history_asset \<Rightarrow> decimal \<Rightarrow> decimal \<Rightarrow> bool" where
  "shown_amount asset atomic amount \<longleftrightarrow>
     dval atomic \<in> \<nat> \<and> canonical amount \<and> dval amount * 10 ^ ha_decimals asset = dval atomic"

definition resolved :: "asset_resolver \<Rightarrow> index_scope \<Rightarrow> asset_id \<Rightarrow> history_asset \<Rightarrow> bool" where
  "resolved asset scope i metadata \<longleftrightarrow> asset i = Ok metadata \<and> ha_id metadata = i \<and> ai_chain i = sc_chain scope"

definition shown_movement :: "asset_resolver \<Rightarrow> index_scope \<Rightarrow> value_movement \<Rightarrow> history_movement \<Rightarrow> bool" where
  "shown_movement asset scope m h \<longleftrightarrow>
     resolved asset scope (mv_asset m) (hm_asset h) \<and> shown_amount (hm_asset h) (mv_amount m) (hm_amount h) \<and>
     address_in scope (mv_from m) \<and> address_in scope (mv_to m) \<and>
     hm_id h = mv_id m \<and> hm_kind h = mv_kind m \<and> hm_from h = mv_from m \<and> hm_to h = mv_to m"

definition shown_fee :: "asset_resolver \<Rightarrow> index_scope \<Rightarrow> network_fee \<Rightarrow> history_fee \<Rightarrow> bool" where
  "shown_fee asset scope fee h \<longleftrightarrow>
     resolved asset scope (nf_asset fee) (hf_asset h) \<and> shown_amount (hf_asset h) (nf_amount fee) (hf_amount h) \<and>
     address_in scope (nf_payer fee) \<and> hf_payer h = nf_payer fee"

definition shown_entry :: "asset_resolver \<Rightarrow> index_scope \<Rightarrow> observed_transaction \<Rightarrow> history_entry \<Rightarrow> bool" where
  "shown_entry asset scope t h \<longleftrightarrow>
     ot_scope t = scope \<and> tr_scope (ot_id t) = scope \<and> he_scope h = scope \<and> he_transaction_id h = ot_id t \<and>
     he_status h = status_from_index (ot_status t) \<and>
     list_all2 (shown_movement asset scope) (ot_movements t) (he_movements h) \<and>
     rel_option (shown_fee asset scope) (ot_fee t) (he_fee h)"

lemma display_amount_Ok_iff: "display_amount asset atomic = Ok amount \<longleftrightarrow> shown_amount asset atomic amount"
proof
  assume "display_amount asset atomic = Ok amount"
  then obtain u where u: "to_atomic atomic 0 = Ok u" "amount = from_atomic u (ha_decimals asset)"
    by (auto simp: display_amount_def result_simps)
  then show "shown_amount asset atomic amount"
    by (simp add: shown_amount_def to_atomic_Ok_iff from_atomic_value canonical_from_atomic)
next
  assume shown: "shown_amount asset atomic amount"
  then obtain u where u: "dval atomic = of_nat u" by (auto simp: shown_amount_def elim: Nats_cases)
  then have "to_atomic atomic 0 = Ok u" by (simp add: to_atomic_Ok_iff)
  moreover have "from_atomic u (ha_decimals asset) = amount"
    using shown u by (intro from_atomic_inverse) (simp_all add: shown_amount_def to_atomic_Ok_iff)
  ultimately show "display_amount asset atomic = Ok amount" by (simp add: display_amount_def)
qed

lemma asset_resolve_Ok_iff: "asset_resolve i asset = Ok metadata \<longleftrightarrow> asset i = Ok metadata \<and> ha_id metadata = i"
  by (auto simp: asset_resolve_def result_simps)

lemma foreign_opt: "list_ex (\<lambda>a. \<not> address_belongs_to a scope) (opt_list x) \<longleftrightarrow> \<not> address_in scope x"
  by (cases x) (auto simp: opt_list_def address_in_def address_belongs_to_def)

lemma movement_from_index_Ok_iff: "movement_from_index m scope asset = Ok h \<longleftrightarrow> shown_movement asset scope m h"
  by (cases h) (auto simp: movement_from_index_def result_simps asset_resolve_Ok_iff display_amount_Ok_iff foreign_opt
      shown_movement_def resolved_def)

lemma fee_from_index_Ok_iff: "fee_from_index scope asset fee = Ok h \<longleftrightarrow> shown_fee asset scope fee h"
  by (cases h) (auto simp: fee_from_index_def result_simps asset_resolve_Ok_iff display_amount_Ok_iff shown_fee_def resolved_def
      address_in_def address_belongs_to_def split: option.splits)

lemma transpose_map_Ok_iff: "transpose_map g x = Ok y \<longleftrightarrow> rel_option (\<lambda>a b. g a = Ok b) x y"
  by (cases x; cases y) (auto simp: result_simps)

lemma entry_from_index_Ok_iff: "entry_from_index scope asset t = Ok h \<longleftrightarrow> shown_entry asset scope t h"
  by (cases h) (auto simp: entry_from_index_def result_simps transaction_belongs_to_def collect_Ok_iff movement_from_index_Ok_iff
      transpose_map_Ok_iff fee_from_index_Ok_iff shown_entry_def)

section \<open>Properties\<close>

text \<open>
  C14. A page of the index is shown to the wallet's owner if and only if everything on it belongs to the
  wallet's scope, its assets are known and its amounts are whole atomic units; then the shown page has the
  same transactions in the same order with the same checkpoint and cursor, and every amount is exactly the
  atomic amount divided by the asset's unit.
\<close>

theorem wallet_history_exact:
  "history_from_index page scope asset = Ok h \<longleftrightarrow>
     (case tp_next page of None \<Rightarrow> True | Some cursor \<Rightarrow> tr_scope (hp_transaction (hc_position cursor)) = scope) \<and>
     wh_checkpoint h = tp_checkpoint page \<and> wh_next h = tp_next page \<and>
     list_all2 (shown_entry asset scope) (tp_transactions page) (wh_transactions h)"
  by (cases h) (auto simp: history_from_index_def result_simps collect_Ok_iff entry_from_index_Ok_iff transaction_belongs_to_def
      split: option.splits)

end
