(* ===== verification/Wallets.thy ===== *)
theory Wallets
  imports Wallet_Values Admission "HOL-Library.AList"
begin

text \<open>
  The collection of wallets (\<open>sdk/wallets/src/wallets.rs, selection.rs\<close>): families of wallets with their
  provider, sender and registry, the wallets that are registered, and the addresses a synchronization must
  watch. The admission gates are shared objects: \<open>sh_gates\<close> holds the gate of every scope. An operation that
  waits in the middle is split there, because others may run meanwhile: \<open>generate\<close> and \<open>adopt\<close> wait for the
  gate, \<open>adopt\<close> also for its registry.
\<close>

section \<open>State\<close>

record ('i, 'f) wallet_info =
  wi_id :: 'i
  wi_family :: 'f
  wi_scope :: index_scope
  wi_address :: address_text

record 'i wallet_transfer =
  wt_wallet :: 'i
  wt_to :: address_text
  wt_amount :: decimal

record 'w send_transfer =
  tx_wallet :: "'w wallet"
  tx_to :: address_text
  tx_amount :: decimal

record registered_address =
  ra_id :: string
  ra_filter :: address_filter
  ra_material :: "u8 list"

text \<open>\<open>dyn Provider\<close>, \<open>dyn Sender\<close> and \<open>dyn Registry\<close>.\<close>

record 'w provider =
  pv_create :: "u8 list \<Rightarrow> ('w, wallet_error, 'w wallet) eff"
  pv_generate :: "('w, wallet_error, 'w wallet) eff"

type_synonym 'w sender = "'w send_transfer list \<Rightarrow> ('w, send_error, string list) eff"

record 'w registry =
  rg_register :: "registered_address \<Rightarrow> ('w, index_error, unit) eff"
  rg_registered :: "index_scope \<Rightarrow> ('w, index_error, registered_address list) eff"

record 'w wallet_family =
  fa_scope :: index_scope
  fa_provider :: "'w provider"
  fa_sender :: "'w sender"
  fa_registry :: "'w registry option"

record ('i, 'f, 'w) wallet_entry =
  en_info :: "('i, 'f) wallet_info"
  en_wallet :: "'w wallet"
  en_filter :: address_filter

type_synonym ('i, 'f, 'w) wallet_values = "('i \<times> ('i, 'f, 'w) wallet_entry) list"

record ('i, 'f, 'w) wallets =
  wl_checkpoint :: "index_scope \<Rightarrow> ('w, index_error, block_ref option) eff"
  wl_families :: "('f \<times> 'w wallet_family) list"
  wl_admissions :: "index_scope list"
  wl_values :: "('i, 'f, 'w) wallet_values"
  wl_poisoned :: bool

definition wallets_new :: "(index_scope \<Rightarrow> ('w, index_error, block_ref option) eff) \<Rightarrow> ('i, 'f, 'w) wallets" where
  "wallets_new checkpoint =
     \<lparr>wl_checkpoint = checkpoint, wl_families = [], wl_admissions = [], wl_values = [], wl_poisoned = False\<rparr>"

record ('i, 'f, 'w) shared =
  sh_wallets :: "('i, 'f, 'w) wallets"
  sh_gates :: "index_scope \<Rightarrow> scope_admission"
  sh_outside :: 'w

definition on_gate :: "index_scope \<Rightarrow> 'a admission_op \<Rightarrow> (('i, 'f, 'w) shared, wallet_error, 'a) eff" where
  "on_gate scope m s =
     (case m (sh_gates s scope) of
        (r, a) \<Rightarrow> (map_err wallet_error_of_index r, s\<lparr>sh_gates := (sh_gates s)(scope := a)\<rparr>))"

definition on_outside_wallet :: "('e \<Rightarrow> 'e1) \<Rightarrow> ('w, 'e, 'a) eff \<Rightarrow> (('i, 'f, 'w) shared, 'e1, 'a) eff" where
  "on_outside_wallet h m s = (case m (sh_outside s) of (r, w) \<Rightarrow> (map_err h r, s\<lparr>sh_outside := w\<rparr>))"

definition on_wallets :: "(('i, 'f, 'w) wallets, 'e, 'a) eff \<Rightarrow> (('i, 'f, 'w) shared, 'e, 'a) eff" where
  "on_wallets m s = (case m (sh_wallets s) of (r, w) \<Rightarrow> (r, s\<lparr>sh_wallets := w\<rparr>))"

section \<open>Families\<close>

definition no_admission_error :: wallet_error where
  "no_admission_error = wallet_error_new WUnsupported ''wallet family scope has no address admission''"
definition family_duplicate_error :: wallet_error where
  "family_duplicate_error = wallet_error_new WDuplicate ''a wallet family is already registered for this key''"
definition no_family_error :: wallet_error where
  "no_family_error = wallet_error_new WUnsupported ''no wallet family is registered for this key''"
definition wallet_lock_error :: wallet_error where
  "wallet_lock_error = wallet_error_new WUnavailable ''wallet registry lock is poisoned''"
definition publication_error :: wallet_error where
  "publication_error = wallet_error_new WUnavailable ''runtime wallet storage has no publication permit''"
definition wallet_missing_error :: wallet_error where
  "wallet_missing_error = wallet_error_new WNotFound ''wallet does not exist''"

definition wallets_admission :: "('i, 'f, 'w) wallets \<Rightarrow> index_scope \<Rightarrow> (wallet_error, index_scope) result" where
  "wallets_admission ws scope = (if scope \<in> set (wl_admissions ws) then Ok scope else Err no_admission_error)"

definition wallets_register ::
  "'f \<Rightarrow> index_scope \<Rightarrow> 'w provider \<Rightarrow> 'w sender \<Rightarrow> 'w registry option \<Rightarrow>
     (('i, 'f, 'w) shared, wallet_error, unit) eff" where
  "wallets_register family scope provider sender registry s =
     (let ws = sh_wallets s in
      if map_of (wl_families ws) family \<noteq> None then (Err family_duplicate_error, s)
      else
        let added = \<lparr>fa_scope = scope, fa_provider = provider, fa_sender = sender, fa_registry = registry\<rparr>;
            fresh = scope \<notin> set (wl_admissions ws) in
        (Ok (), s\<lparr>sh_wallets := ws\<lparr>wl_admissions := (if fresh then scope # wl_admissions ws else wl_admissions ws),
                                 wl_families := AList.update family added (wl_families ws)\<rparr>,
                  sh_gates := (if fresh then (sh_gates s)(scope := admission_new) else sh_gates s)\<rparr>))"

definition family_of :: "('i, 'f, 'w) wallets \<Rightarrow> 'f \<Rightarrow> (wallet_error, 'w wallet_family) result" where
  "family_of ws family = ok_or (map_of (wl_families ws) family) no_family_error"

section \<open>Lookups\<close>

definition entry_at :: "('i, 'f, 'w) wallets \<Rightarrow> 'i \<Rightarrow> (wallet_error, ('i, 'f, 'w) wallet_entry) result" where
  "entry_at ws i =
     and_then (fail_if (wl_poisoned ws) wallet_lock_error) (\<lambda>_. ok_or (map_of (wl_values ws) i) wallet_missing_error)"

definition wallet_get :: "('i, 'f, 'w) wallets \<Rightarrow> 'i \<Rightarrow> (wallet_error, ('i, 'f) wallet_info) result" where
  "wallet_get ws i = and_then (entry_at ws i) (\<lambda>entry. Ok (en_info entry))"

definition wallet_instance :: "('i, 'f, 'w) wallets \<Rightarrow> 'i \<Rightarrow> (wallet_error, 'w wallet) result" where
  "wallet_instance ws i = and_then (entry_at ws i) (\<lambda>entry. Ok (en_wallet entry))"

definition wallet_balance_of :: "('i, 'f, 'w) wallets \<Rightarrow> 'i \<Rightarrow> ('w, wallet_error, wallet_balance) eff" where
  "wallet_balance_of ws i = bind_eff (lift_result (wallet_instance ws i)) wa_balance"

definition wallet_history_of ::
  "('i, 'f, 'w) wallets \<Rightarrow> 'i \<Rightarrow> history_request \<Rightarrow> ('w, wallet_error, wallet_history) eff" where
  "wallet_history_of ws i request = bind_eff (lift_result (wallet_instance ws i)) (\<lambda>wallet. wa_history wallet request)"

definition wallet_send ::
  "('i, 'f, 'w) wallets \<Rightarrow> 'i \<Rightarrow> address_text \<Rightarrow> decimal \<Rightarrow> ('w, wallet_error, string) eff" where
  "wallet_send ws i destination amount =
     bind_eff (lift_result (wallet_instance ws i)) (\<lambda>wallet. wa_send wallet destination amount)"

section \<open>Storing a wallet\<close>

definition no_successor_error :: wallet_error where
  "no_successor_error = wallet_error_new WUnavailable ''checkpoint position has no successor for wallet publication''"
definition wallet_duplicate_error :: wallet_error where
  "wallet_duplicate_error = wallet_error_new WDuplicate ''a wallet is already registered for this key''"

text \<open>The first block of interest: the given birthday, or the block after the permit's checkpoint.\<close>

definition store_position ::
  "block_position option \<Rightarrow> publication_permit option \<Rightarrow> (wallet_error, block_position) result" where
  "store_position start_position permit =
     (case start_position of
        Some position \<Rightarrow> Ok position
      | None \<Rightarrow>
          (case permit of
             None \<Rightarrow> Err publication_error
           | Some p \<Rightarrow>
               (case pu_checkpoint p of
                  None \<Rightarrow> Ok 0
                | Some block \<Rightarrow> ok_or (position_successor (br_position block)) no_successor_error)))"

definition wallet_activate ::
  "'i \<Rightarrow> 'f \<Rightarrow> index_scope \<Rightarrow> 'w wallet \<Rightarrow> block_position \<Rightarrow> (wallet_error, ('i, 'f, 'w) wallet_entry) result" where
  "wallet_activate i family scope wallet start_position =
     and_then (wa_address_text wallet (wa_address wallet)) (\<lambda>address.
     Ok \<lparr>en_info = \<lparr>wi_id = i, wi_family = family, wi_scope = scope, wi_address = address\<rparr>, en_wallet = wallet,
         en_filter = \<lparr>af_address = CanonicalAddress scope (at_text address), af_start_position = start_position\<rparr>\<rparr>)"

text \<open>The critical section of \<open>store\<close>: insertion under the write lock.\<close>

definition insert_entry :: "'i \<Rightarrow> ('i, 'f, 'w) wallet_entry \<Rightarrow> (('i, 'f, 'w) wallets, wallet_error, unit) eff" where
  "insert_entry i entry ws =
     (if wl_poisoned ws then (Err wallet_lock_error, ws)
      else if map_of (wl_values ws) i \<noteq> None then (Err wallet_duplicate_error, ws)
      else (Ok (), ws\<lparr>wl_values := AList.update i entry (wl_values ws)\<rparr>))"

definition drop_publication ::
  "index_scope \<Rightarrow> publication_permit option \<Rightarrow> ('i, 'f, 'w) shared \<Rightarrow> ('i, 'f, 'w) shared" where
  "drop_publication scope permit s =
     (case permit of
        None \<Rightarrow> s
      | Some p \<Rightarrow> s\<lparr>sh_gates := (sh_gates s)(scope := publication_drop p (sh_gates s scope))\<rparr>)"

text \<open>\<open>store\<close> once the permit is held, or none is needed; an error drops the permit.\<close>

definition store_wallet ::
  "'i \<Rightarrow> 'f \<Rightarrow> 'w wallet_family \<Rightarrow> 'w wallet \<Rightarrow> block_position option \<Rightarrow> publication_permit option \<Rightarrow>
     (('i, 'f, 'w) shared, wallet_error, ('i, 'f) wallet_info \<times> address_filter \<times> publication_permit option) eff" where
  "store_wallet i family_key family wallet start_position permit s =
     (case bind_eff (lift_result
        (and_then (store_position start_position permit) (\<lambda>position.
         wallet_activate i family_key (fa_scope family) wallet position))) (\<lambda>entry.
        bind_eff (on_wallets (insert_entry i entry)) (\<lambda>_. ret (en_info entry, en_filter entry))) s of
        (Err e, s') \<Rightarrow> (Err e, drop_publication (fa_scope family) permit s')
      | (Ok (info, filter1), s') \<Rightarrow> (Ok (info, filter1, permit), s'))"

definition wallet_forget :: "'i \<Rightarrow> ('i, 'f, 'w) wallets \<Rightarrow> ('i, 'f, 'w) wallets" where
  "wallet_forget i ws = (if wl_poisoned ws then ws else ws\<lparr>wl_values := AList.delete i (wl_values ws)\<rparr>)"

text \<open>
  The start of \<open>store\<close> without a birthday: read the checkpoint, find the gate and try to reserve it. A
  parked task comes back with \<open>reserve_again\<close>.
\<close>

definition reserve ::
  "index_scope \<Rightarrow> nat \<Rightarrow> (('i, 'f, 'w) shared, wallet_error, publication_permit + nat) eff" where
  "reserve scope waiter s =
     bind_eff (on_outside_wallet wallet_error_of_index (wl_checkpoint (sh_wallets s) scope)) (\<lambda>persisted.
     bind_eff (lift_result (wallets_admission (sh_wallets s) scope)) (\<lambda>scope.
     on_gate scope (publication_round (Some persisted) waiter))) s"

definition reserve_again ::
  "index_scope \<Rightarrow> nat \<Rightarrow> (('i, 'f, 'w) shared, wallet_error, publication_permit + nat) eff" where
  "reserve_again scope waiter = on_gate scope (publication_round None waiter)"

section \<open>Generating and adopting\<close>

definition generate_open ::
  "'f \<Rightarrow> nat \<Rightarrow> (('i, 'f, 'w) shared, wallet_error, 'w wallet_family \<times> 'w wallet \<times> (publication_permit + nat)) eff" where
  "generate_open family waiter s =
     bind_eff (lift_result (family_of (sh_wallets s) family)) (\<lambda>configured.
     bind_eff (on_outside_wallet id (pv_generate (fa_provider configured))) (\<lambda>wallet.
     bind_eff (reserve (fa_scope configured) waiter) (\<lambda>reserved.
     ret (configured, wallet, reserved)))) s"

text \<open>\<open>publication.ok_or_else(publication_error)?.complete()?\<close>; completing consumes the permit.\<close>

definition complete_publication ::
  "index_scope \<Rightarrow> publication_permit option \<Rightarrow> (('i, 'f, 'w) shared, wallet_error, unit) eff" where
  "complete_publication scope permit =
     bind_eff (lift_result (ok_or permit publication_error)) (\<lambda>p. on_gate scope (publication_complete p))"

definition generate_close ::
  "'i \<Rightarrow> 'f \<Rightarrow> 'w wallet_family \<Rightarrow> 'w wallet \<Rightarrow> publication_permit \<Rightarrow>
     (('i, 'f, 'w) shared, wallet_error, ('i, 'f) wallet_info) eff" where
  "generate_close i family configured wallet permit =
     bind_eff (store_wallet i family configured wallet None (Some permit)) (\<lambda>(info, _, publication).
     bind_eff (complete_publication (fa_scope configured) publication) (\<lambda>_. ret info))"

definition adopt_open ::
  "'f \<Rightarrow> u8 list \<Rightarrow> nat \<Rightarrow>
     (('i, 'f, 'w) shared, wallet_error, 'w wallet_family \<times> 'w wallet \<times> (publication_permit + nat)) eff" where
  "adopt_open family secret waiter s =
     bind_eff (lift_result (family_of (sh_wallets s) family)) (\<lambda>configured.
     bind_eff (on_outside_wallet id (pv_create (fa_provider configured) secret)) (\<lambda>wallet.
     bind_eff (reserve (fa_scope configured) waiter) (\<lambda>reserved.
     ret (configured, wallet, reserved)))) s"

text \<open>
  After the insertion, \<open>adopt\<close> waits for the registry; \<open>adopt_close\<close> continues with its answer.
\<close>

definition adopt_insert ::
  "'i \<Rightarrow> 'f \<Rightarrow> 'w wallet_family \<Rightarrow> 'w wallet \<Rightarrow> publication_permit \<Rightarrow>
     (('i, 'f, 'w) shared, wallet_error, ('i, 'f) wallet_info \<times> address_filter \<times> publication_permit option) eff" where
  "adopt_insert i family configured wallet permit = store_wallet i family configured wallet None (Some permit)"

definition adopt_write ::
  "('i \<Rightarrow> string) \<Rightarrow> 'i \<Rightarrow> 'w wallet_family \<Rightarrow> address_filter \<Rightarrow> u8 list \<Rightarrow> ('w, index_error, unit) eff" where
  "adopt_write display i configured filter1 material =
     (case fa_registry configured of
        None \<Rightarrow> ret ()
      | Some registry \<Rightarrow> rg_register registry \<lparr>ra_id = display i, ra_filter = filter1, ra_material = material\<rparr>)"

definition adopt_close ::
  "'i \<Rightarrow> index_scope \<Rightarrow> ('i, 'f) wallet_info \<Rightarrow> publication_permit option \<Rightarrow> (index_error, unit) result \<Rightarrow>
     (('i, 'f, 'w) shared, wallet_error, ('i, 'f) wallet_info) eff" where
  "adopt_close i scope info publication answer s =
     (case answer of
        Err e \<Rightarrow> (Err (wallet_error_of_index e), drop_publication scope publication (s\<lparr>sh_wallets := wallet_forget i (sh_wallets s)\<rparr>))
      | Ok _ \<Rightarrow> bind_eff (complete_publication scope publication) (\<lambda>_. ret info) s)"

text \<open>The caller drops the future while the registry writes.\<close>

definition adopt_cancel ::
  "index_scope \<Rightarrow> publication_permit option \<Rightarrow> ('i, 'f, 'w) shared \<Rightarrow> ('i, 'f, 'w) shared" where
  "adopt_cancel scope publication s = drop_publication scope publication s"

section \<open>Restoring and importing\<close>

fun restore_entries ::
  "(string \<Rightarrow> 'i) \<Rightarrow> 'f \<Rightarrow> 'w wallet_family \<Rightarrow> registered_address list \<Rightarrow> nat \<Rightarrow>
     (('i, 'f, 'w) shared, wallet_error, nat) eff" where
  "restore_entries from_text family configured [] restored = ret restored"
| "restore_entries from_text family configured (entry # entries) restored =
     bind_eff (on_outside_wallet id (pv_create (fa_provider configured) (ra_material entry))) (\<lambda>wallet.
     bind_eff (store_wallet (from_text (ra_id entry)) family configured wallet (Some (af_start_position (ra_filter entry))) None) (\<lambda>_.
     restore_entries from_text family configured entries (restored + 1)))"

definition wallets_restore :: "(string \<Rightarrow> 'i) \<Rightarrow> 'f \<Rightarrow> (('i, 'f, 'w) shared, wallet_error, nat) eff" where
  "wallets_restore from_text family s =
     bind_eff (lift_result (family_of (sh_wallets s) family)) (\<lambda>configured.
     case fa_registry configured of
       None \<Rightarrow> ret 0
     | Some registry \<Rightarrow>
         bind_eff (on_outside_wallet wallet_error_of_index (rg_registered registry (fa_scope configured))) (\<lambda>entries.
         restore_entries from_text family configured entries 0)) s"

definition wallets_import ::
  "'i \<Rightarrow> 'f \<Rightarrow> u8 list \<Rightarrow> block_position \<Rightarrow> (('i, 'f, 'w) shared, wallet_error, ('i, 'f) wallet_info) eff" where
  "wallets_import i family secret start_position s =
     bind_eff (lift_result (family_of (sh_wallets s) family)) (\<lambda>configured.
     bind_eff (on_outside_wallet id (pv_create (fa_provider configured) secret)) (\<lambda>wallet.
     bind_eff (store_wallet i family configured wallet (Some start_position) None) (\<lambda>(info, _, _). ret info))) s"

section \<open>Batches\<close>

definition MAX_TRANSFERS :: nat where "MAX_TRANSFERS = 50"

definition batch_empty_error :: send_error where
  "batch_empty_error = send_collection WInvalidBatch ''at least one transfer is required''"
definition batch_size_error :: send_error where
  "batch_size_error = send_collection WInvalidBatch ''at most 50 transfers are allowed''"
definition mixed_family_error :: wallet_error where
  "mixed_family_error = wallet_error_new WUnsupported ''all transfers must use the same wallet family''"
definition family_missing_error :: send_error where
  "family_missing_error = send_operation WUnsupported ''transfer family is missing''"
definition family_unconfigured_error :: send_error where
  "family_unconfigured_error = send_operation WUnsupported ''wallet family is not configured''"

text \<open>The loop over the requests, with the family met so far.\<close>

fun check_transfers ::
  "('i, 'f, 'w) wallets \<Rightarrow> nat \<Rightarrow> 'f option \<Rightarrow> 'i wallet_transfer list \<Rightarrow>
     (send_error, 'f option \<times> 'w send_transfer list) result" where
  "check_transfers ws index family [] = Ok (family, [])"
| "check_transfers ws index family (request # requests) =
     and_then (fail_if (not_positive (wt_amount request)) (send_item index [] amount_positive_error)) (\<lambda>_.
     and_then (map_err (send_item index []) (entry_at ws (wt_wallet request))) (\<lambda>entry.
     and_then (fail_if (case family of None \<Rightarrow> False | Some expected \<Rightarrow> expected \<noteq> wi_family (en_info entry))
       (send_item index [] mixed_family_error)) (\<lambda>_.
     and_then (check_transfers ws (index + 1) (Some (wi_family (en_info entry))) requests) (\<lambda>(last_family, transfers).
     Ok (last_family, \<lparr>tx_wallet = en_wallet entry, tx_to = wt_to request, tx_amount = wt_amount request\<rparr> # transfers)))))"

definition transfers ::
  "('i, 'f, 'w) wallets \<Rightarrow> 'i wallet_transfer list \<Rightarrow> (send_error, 'w sender \<times> 'w send_transfer list) result" where
  "transfers ws requests =
     and_then (fail_if (requests = []) batch_empty_error) (\<lambda>_.
     and_then (fail_if (length requests > MAX_TRANSFERS) batch_size_error) (\<lambda>_.
     and_then (check_transfers ws 0 None requests) (\<lambda>(family, prepared).
     and_then (ok_or family family_missing_error) (\<lambda>family.
     and_then (ok_or (map_option fa_sender (map_of (wl_families ws) family)) family_unconfigured_error) (\<lambda>sender.
     Ok (sender, prepared))))))"

definition send_all :: "('i, 'f, 'w) wallets \<Rightarrow> 'i wallet_transfer list \<Rightarrow> ('w, send_error, string list) eff" where
  "send_all ws requests =
     bind_eff (lift_result (transfers ws requests)) (\<lambda>(sender, prepared). sender prepared)"

section \<open>Filters\<close>

text \<open>The earliest birthday of every address, in address order.\<close>

definition add_filter :: "address_filter \<Rightarrow> (canonical_address \<times> block_position) list \<Rightarrow> (canonical_address \<times> block_position) list" where
  "add_filter f found =
     AList.update (af_address f)
       (case map_of found (af_address f) of None \<Rightarrow> af_start_position f | Some p \<Rightarrow> min p (af_start_position f)) found"

definition wallets_filters :: "('i, 'f, 'w) wallets \<Rightarrow> (wallet_error, address_filter list) result" where
  "wallets_filters ws =
     and_then (fail_if (wl_poisoned ws) wallet_lock_error) (\<lambda>_.
     Ok (map (\<lambda>(address, position). \<lparr>af_address = address, af_start_position = position\<rparr>)
       (sort_key fst (fold (\<lambda>(_, entry). add_filter (en_filter entry)) (wl_values ws) []))))"

text \<open>\<open>FilterSource::filters\<close>, and what \<open>FilterSource::plan\<close> captures for a scope between opening and closing a plan.\<close>

definition source_filters :: "('i, 'f, 'w) wallets \<Rightarrow> (index_error, address_filter list) result" where
  "source_filters ws = map_err into_filter_error (wallets_filters ws)"

definition capture_filters :: "('i, 'f, 'w) wallets \<Rightarrow> index_scope \<Rightarrow> (index_error, address_filter list) result" where
  "capture_filters ws scope =
     and_then (source_filters ws) (\<lambda>filters. Ok (filter (\<lambda>f. address_belongs_to (af_address f) scope) filters))"

text \<open>\<open>FilterSource::plan\<close> when nothing interferes.\<close>

definition source_plan :: "('i, 'f, 'w) wallets \<Rightarrow> index_scope \<Rightarrow> block_ref option \<Rightarrow> sync_plan admission_op" where
  "source_plan ws scope checkpoint =
     bind_eff (lift_result (map_err into_filter_error (wallets_admission ws scope))) (\<lambda>_.
     plan checkpoint (lift_result (capture_filters ws scope)))"


section \<open>Accepted batches\<close>

lemma not_positive_iff: "not_positive amount \<longleftrightarrow> dval amount \<le> 0"
  by (auto simp: not_positive_def decimal_cmp_correct cmp_of_def decimal_zero_def dval_new)

text \<open>A request that the wallets of a family can pay, and the transfer made of it.\<close>

definition pays_as :: "('i, 'f, 'w) wallets \<Rightarrow> 'f \<Rightarrow> 'i wallet_transfer \<Rightarrow> 'w send_transfer \<Rightarrow> bool" where
  "pays_as ws family request t \<longleftrightarrow>
     0 < dval (wt_amount request) \<and> \<not> wl_poisoned ws \<and>
     (\<exists>entry. map_of (wl_values ws) (wt_wallet request) = Some entry \<and> wi_family (en_info entry) = family \<and>
        t = \<lparr>tx_wallet = en_wallet entry, tx_to = wt_to request, tx_amount = wt_amount request\<rparr>)"

lemma entry_at_Ok_iff: "entry_at ws i = Ok entry \<longleftrightarrow> \<not> wl_poisoned ws \<and> map_of (wl_values ws) i = Some entry"
  by (auto simp: entry_at_def result_simps)

lemma check_transfers_step:
  assumes "pays_as ws f request t" "family = None \<or> family = Some f"
  shows "check_transfers ws index family (request # requests) =
    and_then (check_transfers ws (index + 1) (Some f) requests) (\<lambda>(last_family, ts). Ok (last_family, t # ts))"
proof -
  obtain entry where entry: "entry_at ws (wt_wallet request) = Ok entry" "wi_family (en_info entry) = f"
      "t = \<lparr>tx_wallet = en_wallet entry, tx_to = wt_to request, tx_amount = wt_amount request\<rparr>"
    using assms(1) by (auto simp: pays_as_def entry_at_Ok_iff)
  have "\<not> not_positive (wt_amount request)" using assms(1) by (simp add: pays_as_def not_positive_iff)
  then show ?thesis using entry assms(2) by (cases family) simp_all
qed

lemma check_transfers_stop:
  assumes "\<nexists>f t. pays_as ws f request t \<and> (family = None \<or> family = Some f)"
  shows "\<exists>source. check_transfers ws index family (request # requests) = Err (send_item index [] source)"
proof (cases "not_positive (wt_amount request)")
  case False
  show ?thesis
  proof (cases "entry_at ws (wt_wallet request)")
    case (Inr entry)
    with False have "pays_as ws (wi_family (en_info entry)) request
        \<lparr>tx_wallet = en_wallet entry, tx_to = wt_to request, tx_amount = wt_amount request\<rparr>"
      by (simp add: pays_as_def entry_at_Ok_iff not_positive_iff)
    then obtain f where "family = Some f" "f \<noteq> wi_family (en_info entry)" using assms by fastforce
    then show ?thesis using Inr False by auto
  qed (use False in auto)
qed auto

declare check_transfers.simps(2) [simp del]

lemma check_transfers_Cons:
  "check_transfers ws index family (request # requests) = Ok (family', ts) \<longleftrightarrow>
     (\<exists>f t ts'. pays_as ws f request t \<and> (family = None \<or> family = Some f) \<and>
        check_transfers ws (index + 1) (Some f) requests = Ok (family', ts') \<and> ts = t # ts')"
proof (cases "\<exists>f t. pays_as ws f request t \<and> (family = None \<or> family = Some f)")
  case True
  then obtain f t where f: "pays_as ws f request t" "family = None \<or> family = Some f" by blast
  have only: "pays_as ws g request u \<longleftrightarrow> g = f \<and> u = t" for g u using f(1) by (auto simp: pays_as_def)
  show ?thesis unfolding check_transfers_step [OF f] only using f(2) by (auto simp: result_simps)
next
  case False
  with check_transfers_stop [OF False, of index requests] show ?thesis by fastforce
qed

lemma check_transfers_Ok_iff:
  "check_transfers ws index (Some f) requests = Ok (family', ts) \<longleftrightarrow>
     family' = Some f \<and> list_all2 (pays_as ws f) requests ts"
proof (induction requests arbitrary: index ts)
  case (Cons request requests)
  show ?case unfolding check_transfers_Cons by (auto simp: Cons.IH list_all2_Cons1)
qed auto

lemma check_transfers_first_Ok:
  "check_transfers ws index None (request # requests) = Ok (family', ts) \<longleftrightarrow>
     (\<exists>f. family' = Some f \<and> list_all2 (pays_as ws f) (request # requests) ts)"
  unfolding check_transfers_Cons by (auto simp: check_transfers_Ok_iff list_all2_Cons1)

lemma send_item_fields [simp]:
  "sd_failed_index (send_item k accepted source) = Some k" "sd_accepted (send_item k accepted source) = accepted"
  by (simp_all add: send_item_def send_new_def)

text \<open>An error names the first request that cannot be paid with the ones before it.\<close>

lemma check_transfers_Err:
  "check_transfers ws index family requests = Err e \<Longrightarrow>
   \<exists>k < length requests. sd_failed_index e = Some (index + k) \<and> sd_accepted e = [] \<and>
     (\<exists>f. (family = None \<or> family = Some f) \<and> (\<forall>j < k. \<exists>t. pays_as ws f (requests ! j) t)) \<and>
     (\<forall>f t. (family = None \<or> family = Some f) \<and> (\<forall>j < k. \<exists>t. pays_as ws f (requests ! j) t) \<longrightarrow>
        \<not> pays_as ws f (requests ! k) t)"
proof (induction requests arbitrary: index family)
  case (Cons request requests)
  show ?case
  proof (cases "\<exists>f t. pays_as ws f request t \<and> (family = None \<or> family = Some f)")
    case True
    then obtain f t where f: "pays_as ws f request t" "family = None \<or> family = Some f" by blast
    have only: "g = f" if "pays_as ws g request u" for g u using that f(1) by (auto simp: pays_as_def)
    have "check_transfers ws (index + 1) (Some f) requests = Err e"
      using Cons.prems check_transfers_step [OF f, of index requests] by (auto simp: result_simps)
    from Cons.IH [OF this] obtain k where k: "k < length requests" "sd_failed_index e = Some (index + 1 + k)" "sd_accepted e = []"
        "\<forall>j < k. \<exists>t. pays_as ws f (requests ! j) t"
        "\<forall>t. (\<forall>j < k. \<exists>t. pays_as ws f (requests ! j) t) \<longrightarrow> \<not> pays_as ws f (requests ! k) t"
      by auto
    have "\<forall>j < Suc k. \<exists>t. pays_as ws f ((request # requests) ! j) t"
      using k(4) f(1) by (auto simp: less_Suc_eq_0_disj)
    moreover have "g = f" if "\<forall>j < Suc k. \<exists>t. pays_as ws g ((request # requests) ! j) t" for g
      using that only by (metis nth_Cons_0 zero_less_Suc)
    moreover have "\<not> pays_as ws f ((request # requests) ! Suc k) t" for t using k(4,5) by simp
    moreover have "Suc k < length (request # requests)" "sd_failed_index e = Some (index + Suc k)" using k(1,2) by simp_all
    ultimately show ?thesis using k(3) f(2) by blast
  next
    case False
    from check_transfers_stop [OF this, of index requests] Cons.prems have "sd_failed_index e = Some index \<and> sd_accepted e = []"
      by auto
    then show ?thesis using False by (intro exI [of _ 0]) auto
  qed
qed simp

section \<open>Properties\<close>

text \<open>
  C13. A batch is accepted exactly when it has between one and fifty requests, all of positive amounts and
  from registered wallets of one configured family; the sender of that family then gets one transfer per
  request, in order. An error that names a request names the first one that cannot be paid together with
  those before it, and nothing was sent.
\<close>

theorem transfers_exact:
  "(transfers ws requests = Ok (sender, prepared) \<longleftrightarrow>
      requests \<noteq> [] \<and> length requests \<le> 50 \<and>
      (\<exists>family configured. map_of (wl_families ws) family = Some configured \<and> sender = fa_sender configured \<and>
         list_all2 (pays_as ws family) requests prepared)) \<and>
   (transfers ws requests = Err e \<and> sd_failed_index e = Some k \<longrightarrow>
      k < length requests \<and> sd_accepted e = [] \<and> send_all ws requests w = (Err e, w) \<and>
      (\<exists>family. \<forall>j < k. \<exists>t. pays_as ws family (requests ! j) t) \<and>
      (\<forall>family t. (\<forall>j < k. \<exists>t. pays_as ws family (requests ! j) t) \<longrightarrow> \<not> pays_as ws family (requests ! k) t))"
proof (cases requests)
  case Nil
  then show ?thesis by (auto simp: transfers_def batch_empty_error_def send_collection_def send_definite_def)
next
  case (Cons request rest)
  have ok: "transfers ws requests = Ok (sender, prepared) \<longleftrightarrow>
      length requests \<le> 50 \<and>
      (\<exists>family configured. map_of (wl_families ws) family = Some configured \<and> sender = fa_sender configured \<and>
         list_all2 (pays_as ws family) requests prepared)"
    unfolding Cons by (auto simp: transfers_def MAX_TRANSFERS_def result_simps check_transfers_first_Ok)
  have "\<exists>k' < length requests. sd_failed_index e = Some k' \<and> sd_accepted e = [] \<and>
      (\<exists>family. \<forall>j < k'. \<exists>t. pays_as ws family (requests ! j) t) \<and>
      (\<forall>family t. (\<forall>j < k'. \<exists>t. pays_as ws family (requests ! j) t) \<longrightarrow> \<not> pays_as ws family (requests ! k') t)"
    if "transfers ws requests = Err e" "sd_failed_index e = Some k"
  proof -
    have "check_transfers ws 0 None requests = Err e"
      using that by (auto simp: transfers_def result_simps batch_empty_error_def batch_size_error_def family_missing_error_def
          family_unconfigured_error_def send_collection_def send_operation_def send_definite_def)
    from check_transfers_Err [OF this] show ?thesis by simp
  qed
  moreover have "send_all ws requests w = (Err e, w)" if "transfers ws requests = Err e"
    using that by (simp add: send_all_def bind_eff_apply)
  ultimately have "transfers ws requests = Err e \<and> sd_failed_index e = Some k \<longrightarrow>
      k < length requests \<and> sd_accepted e = [] \<and> send_all ws requests w = (Err e, w) \<and>
      (\<exists>family. \<forall>j < k. \<exists>t. pays_as ws family (requests ! j) t) \<and>
      (\<forall>family t. (\<forall>j < k. \<exists>t. pays_as ws family (requests ! j) t) \<longrightarrow> \<not> pays_as ws family (requests ! k) t)"
    by (metis option.inject)
  with ok Cons show ?thesis by blast
qed

theorem transfers_exact_witness:
  "\<exists>e. transfers (wallets_new (\<lambda>_. ret None) :: (nat, unit, unit) wallets)
      [\<lparr>wt_wallet = 1, wt_to = \<lparr>at_encoding = Base58, at_text = []\<rparr>, wt_amount = decimal_new 1 0\<rparr>] = Err e \<and>
    send_all (wallets_new (\<lambda>_. ret None) :: (nat, unit, unit) wallets)
      [\<lparr>wt_wallet = 1, wt_to = \<lparr>at_encoding = Base58, at_text = []\<rparr>, wt_amount = decimal_new 1 0\<rparr>] () = (Err e, ())"
proof -
  let ?ws = "wallets_new (\<lambda>_. ret None) :: (nat, unit, unit) wallets"
  let ?r = "[\<lparr>wt_wallet = 1, wt_to = \<lparr>at_encoding = Base58, at_text = []\<rparr>, wt_amount = decimal_new 1 0\<rparr>] :: nat wallet_transfer list"
  let ?e = "send_item 0 [] wallet_missing_error"
  have "transfers ?ws ?r = Err ?e"
    by (simp add: transfers_def MAX_TRANSFERS_def check_transfers.simps not_positive_iff dval_new entry_at_def wallets_new_def)
  moreover have "sd_failed_index ?e = Some 0" by simp
  ultimately show ?thesis
    using conjunct2 [OF transfers_exact [of ?ws ?r undefined undefined ?e 0 "()"]] by (intro exI [of _ ?e]) blast
qed

end
