(* ===== verification/Wallet_Publication.thy ===== *)
theory Wallet_Publication
  imports Wallets
begin

text \<open>
  How the collection of wallets and the admission gates work together: every critical section of a
  wallet task, of a plan and of a commit is one step, in any order. A wallet counts as published once its
  task completed its permit, or when it was there at start-up. The invariant ties every plan to the wallets
  that were published at its revision.
\<close>

section \<open>Steps\<close>

record ('i, 'f, 'w) wallet_config =
  wc_wallets :: "('i, 'f, 'w) wallets"
  wc_gates :: "index_scope \<Rightarrow> gate"
  wc_pending :: "index_scope \<Rightarrow> 'i option"
  wc_published :: "('i \<times> address_filter) list"
  wc_captures :: "(index_scope \<times> block_ref option \<times> u64 \<times> address_filter list option) list"
  wc_plans :: "(index_scope \<times> sync_plan) list"

definition set_gate :: "index_scope \<Rightarrow> gate \<Rightarrow> ('i, 'f, 'w) wallet_config \<Rightarrow> ('i, 'f, 'w) wallet_config" where
  "set_gate scope g c = c\<lparr>wc_gates := (wc_gates c)(scope := g)\<rparr>"

definition set_pending :: "index_scope \<Rightarrow> 'i option \<Rightarrow> ('i, 'f, 'w) wallet_config \<Rightarrow> ('i, 'f, 'w) wallet_config" where
  "set_pending scope i c = c\<lparr>wc_pending := (wc_pending c)(scope := i)\<rparr>"

text \<open>What happens to a gate without touching the wallets or using a plan.\<close>

definition internal :: "gate_event \<Rightarrow> bool" where
  "internal e \<longleftrightarrow> e \<noteq> Published \<and> e \<noteq> Withdrawn \<and> (\<forall>p. e \<noteq> Began p)"

inductive wallet_step :: "('i, 'f, 'w) wallet_config \<Rightarrow> ('i, 'f, 'w) wallet_config \<Rightarrow> bool" where
  gate_moves: "gate_step (wc_gates c scope) e g \<Longrightarrow> internal e \<Longrightarrow> wallet_step c (set_gate scope g c)"
| inserts: "permit \<in> set (ga_publications (wc_gates c scope)) \<Longrightarrow> wc_pending c scope = None \<Longrightarrow>
    store_position None (Some permit) = Ok position \<Longrightarrow> wallet_activate i family scope wallet position = Ok entry \<Longrightarrow>
    insert_entry i entry (wc_wallets c) = (Ok (), ws) \<Longrightarrow>
    wallet_step c (set_pending scope (Some i) (c\<lparr>wc_wallets := ws\<rparr>))"
| publishes: "wc_pending c scope = Some i \<Longrightarrow> gate_step (wc_gates c scope) Published g \<Longrightarrow>
    map_of (wl_values (wc_wallets c)) i = Some entry \<Longrightarrow>
    wallet_step c (set_pending scope None (set_gate scope g (c\<lparr>wc_published := (i, en_filter entry) # wc_published c\<rparr>)))"
| forgets: "wc_pending c scope = Some i \<Longrightarrow>
    wallet_step c (set_pending scope None (c\<lparr>wc_wallets := wallet_forget i (wc_wallets c)\<rparr>))"
| withdraws: "gate_step (wc_gates c scope) Withdrawn g \<Longrightarrow> wallet_step c (set_pending scope None (set_gate scope g c))"
| opens: "plan_open persisted (ga_admission (wc_gates c scope)) = (Ok revision, a) \<Longrightarrow>
    wallet_step c (set_gate scope ((wc_gates c scope)\<lparr>ga_admission := a\<rparr>)
      (c\<lparr>wc_captures := (scope, persisted, revision, None) # wc_captures c\<rparr>))"
| captures: "(scope, persisted, revision, None) \<in> set (wc_captures c) \<Longrightarrow>
    capture_filters (wc_wallets c) scope = Ok filters \<Longrightarrow>
    wallet_step c (c\<lparr>wc_captures := (scope, persisted, revision, Some filters) # wc_captures c\<rparr>)"
| closes: "(scope, persisted, revision, Some filters) \<in> set (wc_captures c) \<Longrightarrow>
    plan_close persisted revision filters (ga_admission (wc_gates c scope)) = (Ok p, a) \<Longrightarrow>
    wallet_step c (c\<lparr>wc_plans := (scope, p) # wc_plans c\<rparr>)"
| begins: "(scope, p) \<in> set (wc_plans c) \<Longrightarrow>
    gate_step (wc_gates c scope) (Began (p\<lparr>pl_checkpoint := checkpoint\<rparr>)) g \<Longrightarrow> wallet_step c (set_gate scope g c)"

text \<open>The wallets imported or restored at start-up.\<close>

definition wallet_start :: "('i, 'f, 'w) wallets \<Rightarrow> ('i, 'f, 'w) wallet_config" where
  "wallet_start ws =
     \<lparr>wc_wallets = ws, wc_gates = (\<lambda>_. gate_new), wc_pending = (\<lambda>_. None),
      wc_published = map (\<lambda>(i, entry). (i, en_filter entry)) (wl_values ws), wc_captures = [], wc_plans = []\<rparr>"

inductive wallet_reachable :: "('i, 'f, 'w) wallet_config \<Rightarrow> bool" where
  reach_start: "distinct (map fst (wl_values ws)) \<Longrightarrow> wallet_reachable (wallet_start ws)"
| reach_step: "wallet_reachable c \<Longrightarrow> wallet_step c c' \<Longrightarrow> wallet_reachable c'"

section \<open>Filters cover the wallets\<close>








section \<open>The checkpoint of a publication\<close>






section \<open>The invariant\<close>








lemma config_fields [simp]:
  "wc_wallets (set_gate scope g c) = wc_wallets c" "wc_published (set_gate scope g c) = wc_published c"
  "wc_pending (set_gate scope g c) = wc_pending c" "wc_captures (set_gate scope g c) = wc_captures c"
  "wc_plans (set_gate scope g c) = wc_plans c" "wc_gates (set_gate scope g c) = (wc_gates c)(scope := g)"
  "wc_wallets (set_pending scope i c) = wc_wallets c" "wc_published (set_pending scope i c) = wc_published c"
  "wc_pending (set_pending scope i c) = (wc_pending c)(scope := i)" "wc_captures (set_pending scope i c) = wc_captures c"
  "wc_plans (set_pending scope i c) = wc_plans c" "wc_gates (set_pending scope i c) = wc_gates c"
  by (simp_all add: set_gate_def set_pending_def)


















section \<open>Example runs\<close>

definition demo_coin_scope :: index_scope where "demo_coin_scope = IndexScope (ChainId ''c'') ''n''"

definition demo_wallet :: "unit wallet" where
  "demo_wallet =
     \<lparr>wa_address = Address [1], wa_address_text = (\<lambda>_. Ok \<lparr>at_encoding = Base58, at_text = ''a''\<rparr>),
      wa_parse_address = (\<lambda>_. Ok (Address [1])), wa_balance = throw wallet_missing_error,
      wa_history = (\<lambda>_. throw wallet_missing_error), wa_send = (\<lambda>_ _. throw wallet_missing_error)\<rparr>"

definition demo_filter :: address_filter where
  "demo_filter = \<lparr>af_address = CanonicalAddress demo_coin_scope ''a'', af_start_position = 0\<rparr>"

definition demo_entry :: "(nat, unit, unit) wallet_entry" where
  "demo_entry =
     \<lparr>en_info = \<lparr>wi_id = 5, wi_family = (), wi_scope = demo_coin_scope, wi_address = \<lparr>at_encoding = Base58, at_text = ''a''\<rparr>\<rparr>,
      en_wallet = demo_wallet, en_filter = demo_filter\<rparr>"

definition demo_wallets :: "(nat \<times> (nat, unit, unit) wallet_entry) list \<Rightarrow> (nat, unit, unit) wallets" where
  "demo_wallets present = (wallets_new (\<lambda>_. ret None))\<lparr>wl_values := present\<rparr>"

definition demo_plan :: "address_filter list \<Rightarrow> sync_plan" where
  "demo_plan filters = \<lparr>pl_filters = filters, pl_checkpoint = None, pl_revision = 0, pl_attached = True\<rparr>"

lemma demo_capture:
  "capture_filters (demo_wallets []) demo_coin_scope = Ok []"
  "capture_filters (demo_wallets [(5, demo_entry)]) demo_coin_scope = Ok [demo_filter]"
  by (simp_all add: capture_filters_def source_filters_def wallets_filters_def demo_wallets_def wallets_new_def add_filter_def
      demo_entry_def demo_filter_def address_belongs_to_def)

text \<open>A plan that was opened, captured and closed while nothing else happened.\<close>

lemma planned_run:
  assumes "distinct (map fst present)" "capture_filters (demo_wallets present) demo_coin_scope = Ok filters"
  shows "\<exists>c. wallet_reachable c \<and> wc_wallets c = demo_wallets present \<and> wc_gates c demo_coin_scope = idle_gate \<and>
    wc_pending c demo_coin_scope = None \<and> (demo_coin_scope, demo_plan filters) \<in> set (wc_plans c) \<and>
    wc_published c = map (\<lambda>(i, entry). (i, en_filter entry)) present"
proof -
  let ?ws = "demo_wallets present"
  let ?c0 = "wallet_start ?ws"
  let ?c1 = "set_gate demo_coin_scope idle_gate (?c0\<lparr>wc_captures := [(demo_coin_scope, None, 0, None)]\<rparr>)"
  let ?c2 = "?c1\<lparr>wc_captures := [(demo_coin_scope, None, 0, Some filters), (demo_coin_scope, None, 0, None)]\<rparr>"
  let ?c3 = "?c2\<lparr>wc_plans := [(demo_coin_scope, demo_plan filters)]\<rparr>"
  have "wallet_reachable ?c0" using assms(1) by (intro reach_start) (simp add: demo_wallets_def)
  moreover have "wallet_step ?c0 ?c1"
    using opens [of None ?c0 demo_coin_scope 0 "ga_admission idle_gate"] idle_opens by (simp add: wallet_start_def idle_gate_new)
  moreover have "wallet_step ?c1 ?c2"
    using wallet_step.captures [of demo_coin_scope None 0 ?c1 filters] assms(2) by (simp add: wallet_start_def)
  moreover have "plan_close None 0 filters (ga_admission idle_gate) = (Ok (demo_plan filters), ga_admission idle_gate)"
    unfolding plan_close_effect by (simp add: demo_plan_def idle_gate_def idle_state_def)
  then have "wallet_step ?c2 ?c3"
    using closes [of demo_coin_scope None 0 filters ?c2 "demo_plan filters"] by (simp add: wallet_start_def)
  ultimately have "wallet_reachable ?c3" by (meson reach_step)
  then show ?thesis by (intro exI [of _ ?c3]) (simp add: wallet_start_def demo_wallets_def)
qed

lemma demo_begins:
  "admission_begin (demo_plan filters) (ga_admission idle_gate) =
     (Ok fresh_permit, \<lparr>sa_state = idle_state\<lparr>ad_commit := True\<rparr>, sa_poisoned = False\<rparr>)"
  by (simp add: admission_begin_effect idle_gate_def idle_state_def demo_plan_def fresh_permit_def)

text \<open>
  A wallet that is inserted by an adoption which is then abandoned, while its registry writes, stays in the
  collection; a plan from before can still commit the first block the wallet is interested in, without it.
\<close>

lemma cancelled_adoption_unwatched:
  "\<exists>c p a. wallet_reachable c \<and> map_of (wl_values (wc_wallets c)) 5 = Some demo_entry \<and>
     wc_pending c demo_coin_scope = None \<and> (demo_coin_scope, p) \<in> set (wc_plans c) \<and>
     admission_begin p (ga_admission (wc_gates c demo_coin_scope)) = (Ok fresh_permit, a) \<and>
     af_address (en_filter demo_entry) \<notin> set (active_addresses p (af_start_position (en_filter demo_entry)))"
proof -
  obtain c where c: "wallet_reachable c" "wc_wallets c = demo_wallets []" "wc_gates c demo_coin_scope = idle_gate"
      "wc_pending c demo_coin_scope = None" "(demo_coin_scope, demo_plan []) \<in> set (wc_plans c)"
    using planned_run [OF _ demo_capture(1)] by auto
  let ?a = "\<lparr>sa_state = idle_state\<lparr>ad_publication := True\<rparr>, sa_poisoned = False\<rparr>"
  let ?p = "\<lparr>pu_checkpoint = None, pu_finished = False\<rparr>"
  let ?g = "idle_gate\<lparr>ga_admission := ?a, ga_publications := [?p]\<rparr>"
  let ?c1 = "set_gate demo_coin_scope ?g c"
  let ?ws = "demo_wallets [(5, demo_entry)]"
  let ?c2 = "set_pending demo_coin_scope (Some 5) (?c1\<lparr>wc_wallets := ?ws\<rparr>)"
  let ?c3 = "set_pending demo_coin_scope None (set_gate demo_coin_scope idle_gate ?c2)"
  have "publication_round (Some None) 0 (ga_admission idle_gate) = (Ok (Inl ?p), ?a)"
    by (simp add: publication_round_def lock_def unlock_def bind_eff_apply Let_def idle_gate_def idle_state_def reload_state_def)
  from reserved [OF this] have "gate_step idle_gate (Reloaded None) ?g" by (simp add: idle_gate_def)
  then have "wallet_step c ?c1" using c(3) by (intro gate_moves) (auto simp: internal_def)
  moreover have "wallet_step ?c1 ?c2"
    using inserts [of ?p ?c1 demo_coin_scope 0 5 "()" demo_wallet demo_entry ?ws] c(2,4)
    by (simp add: store_position_def wallet_activate_def insert_entry_def demo_wallets_def wallets_new_def demo_wallet_def
        demo_entry_def demo_filter_def)
  moreover have "gate_step ?g Withdrawn idle_gate"
    using withdrawn [of ?g "[]" ?p "[]"] by (simp add: publication_drop_def notify_def idle_gate_def idle_state_def)
  then have "wallet_step ?c2 ?c3" by (intro withdraws) simp
  ultimately have "wallet_reachable ?c3" using c(1) by (meson reach_step)
  moreover have "map_of (wl_values ?ws) 5 = Some demo_entry" by (simp add: demo_wallets_def)
  ultimately show ?thesis using c(5) demo_begins [of "[]"]
    by (intro exI [of _ ?c3] exI [of _ "demo_plan []"]) (simp add: demo_plan_def active_addresses_def)
qed

section \<open>Properties\<close>



end
