(* ===== verification/Eth_Wallet.thy ===== *)
theory Eth_Wallet
  imports Eth_Coordination Wallets
begin

text \<open>
  Ethereum wallets (\<open>sdk/chains/ethereum/src/wallet, batch.rs\<close>): the configuration of a wallet, its address
  texts, single transfers with their durable snapshots, broadcasting a prepared envelope, the history of
  the wallet's asset, and the sender that submits a batch through the coordinator. Decoding the JSON of a
  snapshot belongs to the \<open>serde\<close> crate and is a parameter, as is the hash function; reading an address may
  panic, which is a value of its own.
\<close>

section \<open>Configuration\<close>

record eth_config =
  ec_scope :: index_scope
  ec_chain_id :: u64
  ec_asset :: asset_kind
  ec_decimals :: u32

definition eth_config_error :: wallet_error where
  "eth_config_error = wallet_error_new WUnsupported ''Ethereum wallet network, asset, and decimals must agree''"

definition eth_config_validate :: "eth_config \<Rightarrow> (wallet_error, unit) result" where
  "eth_config_validate c =
     fail_if (chain_name (sc_chain (ec_scope c)) \<noteq> ''ethereum'' \<or> blank_text (sc_network (ec_scope c)) \<or> ec_chain_id c = 0 \<or>
       ec_asset c = AssetNative \<and> unat (ec_decimals c) \<noteq> ETH_DECIMALS \<or>
       (case ec_asset c of AssetNative \<Rightarrow> False | AssetErc20 token \<Rightarrow> eth_address_is_zero token) \<or>
       ec_decimals c > 255) eth_config_error"

definition eth_amount_positive_error :: transaction_error where
  "eth_amount_positive_error = transaction_error_new TxInvalidAmount ''amount must be positive''"
definition eth_amount_error :: "decimal_error \<Rightarrow> transaction_error" where
  "eth_amount_error e = transaction_error_new TxInvalidAmount (de_message e)"

text \<open>The configuration as a transaction needs it (\<open>Builder::validate\<close>).\<close>

definition builder_validate :: "eth_config \<Rightarrow> (transaction_error, unit) result" where
  "builder_validate c =
     map_err (\<lambda>e. transaction_error_new TxInvalidSnapshot (we_message e)) (eth_config_validate c)"

definition eth_atomic :: "decimal \<Rightarrow> nat \<Rightarrow> (decimal_error, wei) result" where
  "eth_atomic amount decimals = and_then (to_atomic_be_bytes 32 amount decimals) (\<lambda>bytes. Ok (of_nat (be_value bytes)))"

definition transfer_request_of ::
  "eth_config \<Rightarrow> eth_address \<Rightarrow> eth_address \<Rightarrow> decimal \<Rightarrow> (transaction_error, transfer_request) result" where
  "transfer_request_of c from1 destination amount =
     and_then (builder_validate c) (\<lambda>_.
     and_then (fail_if (not_positive amount) eth_amount_positive_error) (\<lambda>_.
     and_then (map_err eth_amount_error (eth_atomic amount (unat (ec_decimals c)))) (\<lambda>v.
     Ok (case ec_asset c of
           AssetNative \<Rightarrow> NativeTransfer from1 destination v
         | AssetErc20 token \<Rightarrow> Erc20Transfer from1 token destination v))))"

section \<open>Addresses and balances\<close>

fun address_parse_display :: "address_parse_error \<Rightarrow> string" where
  "address_parse_display AddressMissingPrefix = ''Ethereum address is missing its 0x prefix''"
| "address_parse_display AddressInvalidLength = ''Ethereum address must contain exactly 20 bytes''"
| "address_parse_display AddressInvalidHexadecimal = ''Ethereum address contains invalid hexadecimal''"
| "address_parse_display AddressWrongChain = ''canonical address does not belong to Ethereum''"

definition eth_address_error :: "address_parse_error \<Rightarrow> wallet_error" where
  "eth_address_error e = wallet_error_new WInvalidAddress (address_parse_display e)"

definition hex_encoding_error :: wallet_error where
  "hex_encoding_error = wallet_error_new WInvalidAddress ''Ethereum addresses use hexadecimal encoding''"

definition eth_address_text :: "address \<Rightarrow> (wallet_error, address_text) result" where
  "eth_address_text a =
     and_then (map_err eth_address_error (eth_address_of_base a)) (\<lambda>e.
     Ok \<lparr>at_encoding = HexEncoding, at_text = eth_address_display e\<rparr>)"

definition eth_parse_address :: "address_text \<Rightarrow> (wallet_error, address) result call" where
  "eth_parse_address a =
     (if at_encoding a \<noteq> HexEncoding then Return (Err hex_encoding_error)
      else (case address_from_str (at_text a) of
              Panic \<Rightarrow> Panic
            | Return r \<Rightarrow> Return (and_then (map_err eth_address_error r) (\<lambda>e. Ok (Address e)))))"

definition eth_wallet_balance ::
  "'w eth_rpc \<Rightarrow> eth_config \<Rightarrow> eth_address \<Rightarrow> ('w, wallet_error, wallet_balance) eff" where
  "eth_wallet_balance m c address =
     bind_eff (eff_err (\<lambda>e. wallet_error_new WBalance (se_message e)) (eth_balance m address (ec_asset c) None)) (\<lambda>amount.
     ret \<lparr>wb_amount = from_atomic (unat amount) (unat (ec_decimals c)), wb_observed_at = None\<rparr>)"

section \<open>Transfers and their snapshots\<close>

record eth_builder =
  eb_config :: eth_config
  eb_from :: eth_address
  eb_transfer :: "(eth_address \<times> decimal) option"

definition builder_new :: "eth_config \<Rightarrow> eth_address \<Rightarrow> eth_builder" where
  "builder_new c from1 = \<lparr>eb_config = c, eb_from = from1, eb_transfer = None\<rparr>"

definition not_configured_error :: transaction_error where
  "not_configured_error = transaction_error_new TxInvalidTransaction ''transfer is not configured''"
definition one_transfer_error :: transaction_error where
  "one_transfer_error = transaction_error_new TxUnsupported ''Ethereum transaction builder supports exactly one transfer''"
definition destination_error :: transaction_error where
  "destination_error = transaction_error_new TxInvalidAddress ''Ethereum destination must contain exactly 20 bytes''"

definition builder_request :: "eth_builder \<Rightarrow> (transaction_error, transfer_request) result" where
  "builder_request b =
     and_then (builder_validate (eb_config b)) (\<lambda>_.
     and_then (ok_or (eb_transfer b) not_configured_error) (\<lambda>(destination, amount).
     transfer_request_of (eb_config b) (eb_from b) destination amount))"

definition builder_transfer :: "eth_builder \<Rightarrow> address \<Rightarrow> decimal \<Rightarrow> (transaction_error, eth_builder) result" where
  "builder_transfer b destination amount =
     and_then (fail_if (eb_transfer b \<noteq> None) one_transfer_error) (\<lambda>_.
     and_then (fail_if (length (as_bytes destination) \<noteq> 20) destination_error) (\<lambda>_.
     and_then (map_err eth_amount_error (eth_atomic amount (unat (ec_decimals (eb_config b))))) (\<lambda>_.
     Ok (b\<lparr>eb_transfer := Some (as_bytes destination, amount)\<rparr>))))"

record transaction_snapshot =
  ts_version :: nat
  ts_kind :: string
  ts_value :: json

definition SNAPSHOT_VERSION :: nat where "SNAPSHOT_VERSION = 1"
definition SNAPSHOT_KIND :: string where "SNAPSHOT_KIND = ''ethereum.transfer''"
definition ETH_TICKER :: string where "ETH_TICKER = ''ETH''"

datatype snapshot_asset = SnapshotNative string u32 | SnapshotErc20 string u32

record snapshot_data =
  sn_chain :: string
  sn_network :: string
  sn_source :: string
  sn_destination :: string
  sn_amount :: string
  sn_asset :: snapshot_asset

fun snapshot_asset_json :: "snapshot_asset \<Rightarrow> json" where
  "snapshot_asset_json (SnapshotNative ticker decimals) =
     JObject [(''kind'', JString ''native''), (''ticker'', JString ticker), (''decimals'', JNumber (to_digits (unat decimals)))]"
| "snapshot_asset_json (SnapshotErc20 token decimals) =
     JObject [(''kind'', JString ''erc20''), (''token'', JString token), (''decimals'', JNumber (to_digits (unat decimals)))]"

definition snapshot_json :: "snapshot_data \<Rightarrow> json" where
  "snapshot_json d =
     JObject [(''scope'', JObject [(''chain'', JString (sn_chain d)), (''network'', JString (sn_network d))]),
              (''source'', JString (sn_source d)), (''destination'', JString (sn_destination d)),
              (''amount'', JString (sn_amount d)), (''asset'', snapshot_asset_json (sn_asset d))]"

definition builder_snapshot :: "eth_builder \<Rightarrow> (transaction_error, transaction_snapshot) result" where
  "builder_snapshot b =
     and_then (builder_validate (eb_config b)) (\<lambda>_.
     and_then (ok_or (eb_transfer b) not_configured_error) (\<lambda>(destination, amount).
     let c = eb_config b;
         asset = (case ec_asset c of
                    AssetNative \<Rightarrow> SnapshotNative ETH_TICKER (ec_decimals c)
                  | AssetErc20 token \<Rightarrow> SnapshotErc20 (eth_address_display token) (ec_decimals c)) in
     Ok \<lparr>ts_version = SNAPSHOT_VERSION, ts_kind = SNAPSHOT_KIND,
         ts_value = snapshot_json
           \<lparr>sn_chain = chain_name (sc_chain (ec_scope c)), sn_network = sc_network (ec_scope c),
            sn_source = eth_address_display (eb_from b), sn_destination = eth_address_display destination,
            sn_amount = to_string amount, sn_asset = asset\<rparr>\<rparr>))"

fun asset_matches :: "snapshot_asset \<Rightarrow> asset_kind \<Rightarrow> u32 \<Rightarrow> bool" where
  "asset_matches (SnapshotNative ticker actual) AssetNative decimals \<longleftrightarrow> ticker = ETH_TICKER \<and> actual = decimals"
| "asset_matches (SnapshotErc20 token actual) (AssetErc20 configured) decimals \<longleftrightarrow>
     token = eth_address_display configured \<and> actual = decimals"
| "asset_matches _ _ decimals \<longleftrightarrow> False"

definition invalid_snapshot :: "string \<Rightarrow> transaction_error" where
  "invalid_snapshot message = transaction_error_new TxInvalidSnapshot message"

definition unsupported_snapshot_error :: transaction_error where
  "unsupported_snapshot_error = invalid_snapshot ''snapshot is not a supported Ethereum transfer''"
definition malformed_snapshot_error :: "string \<Rightarrow> transaction_error" where
  "malformed_snapshot_error e = invalid_snapshot (''invalid Ethereum snapshot: '' @ e)"
definition foreign_snapshot_error :: transaction_error where
  "foreign_snapshot_error = invalid_snapshot ''Ethereum snapshot does not belong to this wallet, network, or asset''"

definition snapshot_decode ::
  "(json \<Rightarrow> (string, snapshot_data) result) \<Rightarrow> eth_config \<Rightarrow> eth_address \<Rightarrow> transaction_snapshot \<Rightarrow>
     (transaction_error, eth_address \<times> decimal) result call" where
  "snapshot_decode from_value c wallet_address s =
     (if ts_version s \<noteq> SNAPSHOT_VERSION \<or> ts_kind s \<noteq> SNAPSHOT_KIND then Return (Err unsupported_snapshot_error)
      else (case from_value (ts_value s) of
        Err e \<Rightarrow> Return (Err (malformed_snapshot_error e))
      | Ok d \<Rightarrow>
          if sn_chain d \<noteq> chain_name (sc_chain (ec_scope c)) \<or> sn_network d \<noteq> sc_network (ec_scope c) \<or>
             sn_chain d \<noteq> ''ethereum'' \<or> ec_chain_id c = 0 \<or> sn_source d \<noteq> eth_address_display wallet_address \<or>
             \<not> asset_matches (sn_asset d) (ec_asset c) (ec_decimals c)
          then Return (Err foreign_snapshot_error)
          else (case address_from_str (sn_destination d) of
             Panic \<Rightarrow> Panic
           | Return r \<Rightarrow> Return (
               and_then (map_err (invalid_snapshot \<circ> address_parse_display) r) (\<lambda>destination.
               and_then (map_err (invalid_snapshot \<circ> de_message) (from_str (sn_amount d))) (\<lambda>amount.
               and_then (map_err (invalid_snapshot \<circ> de_message) (eth_atomic amount (unat (ec_decimals c)))) (\<lambda>_.
               Ok (destination, amount))))))))"

definition builder_restore ::
  "(json \<Rightarrow> (string, snapshot_data) result) \<Rightarrow> eth_config \<Rightarrow> eth_address \<Rightarrow> transaction_snapshot \<Rightarrow>
     (transaction_error, eth_builder) result call" where
  "builder_restore from_value c wallet_address s =
     (case snapshot_decode from_value c wallet_address s of
        Panic \<Rightarrow> Panic
      | Return r \<Rightarrow> Return (
          and_then r (\<lambda>t.
          let b = (builder_new c wallet_address)\<lparr>eb_transfer := Some t\<rparr> in
          and_then (builder_validate (eb_config b)) (\<lambda>_. Ok b))))"

section \<open>Preparing and broadcasting\<close>

fun preparation_kind :: "eth_error_kind \<Rightarrow> transaction_error_kind" where
  "preparation_kind EthInvalidAddress = TxInvalidAddress"
| "preparation_kind EthInvalidTransaction = TxInvalidTransaction"
| "preparation_kind EthInsufficientFunds = TxInsufficientFunds"
| "preparation_kind EthFeeUnavailable = TxFee"
| "preparation_kind EthRpcUnavailable = TxUnavailable"
| "preparation_kind EthDivergent = TxDivergent"
| "preparation_kind EthSigner = TxSigning"
| "preparation_kind EthRejected = TxRejected"
| "preparation_kind EthNotFound = TxInvalidTransaction"
| "preparation_kind EthOther = TxUnknown"

definition into_preparation :: "eth_error \<Rightarrow> transaction_error" where
  "into_preparation e = transaction_error_new (preparation_kind (ee_kind e)) (ee_message e)"

record prepared_transaction =
  pt_version :: nat
  pt_kind :: string
  pt_id :: string
  pt_envelope :: "u8 list"

definition PREPARED_VERSION :: nat where "PREPARED_VERSION = 1"
definition PREPARED_KIND :: string where "PREPARED_KIND = ''ethereum.signed''"

text \<open>\<open>prepare_one\<close> of the coordinator is a call that may meet other tasks; its answer is an argument.\<close>

definition builder_prepare ::
  "eth_builder \<Rightarrow> (preparation \<Rightarrow> ('s, eth_error, signed_transaction) eff) \<Rightarrow>
     ('s, transaction_error, prepared_transaction) eff" where
  "builder_prepare b prepare_one =
     bind_eff (lift_result (builder_request b)) (\<lambda>request.
     bind_eff (eff_err into_preparation
       (prepare_one \<lparr>pr_request = request, pr_expected_chain_id = ec_chain_id (eb_config b)\<rparr>)) (\<lambda>signed.
     ret \<lparr>pt_version = PREPARED_VERSION, pt_kind = PREPARED_KIND, pt_id = eth_id_display (st_id signed),
          pt_envelope = st_envelope signed\<rparr>))"

definition not_signed_envelope_error :: transaction_error where
  "not_signed_envelope_error =
     transaction_error_new TxInvalidTransaction ''prepared transaction is not an Ethereum signed envelope''"

fun id_error_display :: "id_error \<Rightarrow> string" where
  "id_error_display IdMissingPrefix = ''Ethereum transaction ID is missing its 0x prefix''"
| "id_error_display IdInvalidLength = ''Ethereum transaction ID must contain exactly 32 bytes''"
| "id_error_display IdInvalidHexadecimal = ''Ethereum transaction ID contains non-hex characters''"
| "id_error_display IdNonCanonical = ''Ethereum transaction ID must use canonical lowercase hexadecimal''"

fun signed_error_display :: "signed_error \<Rightarrow> string" where
  "signed_error_display EmptyEnvelope = ''signed Ethereum envelope must not be empty''"
| "signed_error_display HashMismatch = ''signed Ethereum envelope hash does not match its transaction ID''"

text \<open>What a prepared transaction must satisfy before it reaches the coordinator.\<close>

definition broadcast_check ::
  "(u8 list \<Rightarrow> u8 list) \<Rightarrow> prepared_transaction \<Rightarrow> (transaction_error, signed_transaction) result call" where
  "broadcast_check keccak256 prepared =
     (if pt_version prepared \<noteq> PREPARED_VERSION \<or> pt_kind prepared \<noteq> PREPARED_KIND
      then Return (Err not_signed_envelope_error)
      else (case eth_id_from_str (pt_id prepared) of
              Panic \<Rightarrow> Panic
            | Return r \<Rightarrow> Return (
                and_then (map_err (\<lambda>e. transaction_error_new TxInvalidTransaction (id_error_display e)) r) (\<lambda>i.
                map_err (\<lambda>e. transaction_error_new TxInvalidTransaction (signed_error_display e))
                  (from_envelope keccak256 i (pt_envelope prepared))))))"

definition wallet_broadcast ::
  "(u8 list \<Rightarrow> u8 list) \<Rightarrow> (signed_transaction \<Rightarrow> ('s, transaction_error, eth_id) eff) \<Rightarrow> prepared_transaction \<Rightarrow>
     ('s, transaction_error, string) eff call" where
  "wallet_broadcast keccak256 submit prepared =
     (case broadcast_check keccak256 prepared of
        Panic \<Rightarrow> Panic
      | Return r \<Rightarrow> Return (bind_eff (lift_result r) (\<lambda>signed.
          bind_eff (submit signed) (\<lambda>i. ret (eth_id_display i)))))"

section \<open>The history of a wallet\<close>

definition foreign_chain_asset_error :: wallet_error where
  "foreign_chain_asset_error = history_error ''Ethereum history contains a foreign-chain asset''"
definition invalid_asset_error :: wallet_error where
  "invalid_asset_error = history_error ''Ethereum history contains an invalid ERC-20 asset identity''"
definition zero_asset_error :: wallet_error where
  "zero_asset_error = history_error ''Ethereum history contains a zero ERC-20 asset identity''"
definition non_native_fee_error :: wallet_error where
  "non_native_fee_error = history_error ''Ethereum history contains a non-native network fee''"

definition eth_history_asset :: "eth_config \<Rightarrow> asset_id \<Rightarrow> (wallet_error, history_asset) result call" where
  "eth_history_asset c asset =
     (if chain_name (ai_chain asset) \<noteq> ''ethereum'' then Return (Err foreign_chain_asset_error)
      else if ai_asset asset = ''native'' then
        Return (Ok \<lparr>ha_id = asset, ha_name = Some ''Ethereum'', ha_ticker = Some ETH_TICKER, ha_decimals = ETH_DECIMALS\<rparr>)
      else (case address_from_str (ai_asset asset) of
              Panic \<Rightarrow> Panic
            | Return (Err _) \<Rightarrow> Return (Err invalid_asset_error)
            | Return (Ok token) \<Rightarrow> Return (
                and_then (fail_if (eth_address_is_zero token) zero_asset_error) (\<lambda>_.
                Ok \<lparr>ha_id = asset, ha_name = None, ha_ticker = None,
                    ha_decimals = (case ec_asset c of
                       AssetErc20 configured \<Rightarrow>
                         if eq_ignore_ascii_case (ai_asset asset) (eth_address_display configured) then unat (ec_decimals c) else 0
                     | AssetNative \<Rightarrow> 0)\<rparr>))))"

definition selects :: "eth_config \<Rightarrow> asset_id \<Rightarrow> bool" where
  "selects c asset \<longleftrightarrow>
     ai_chain asset = sc_chain (ec_scope c) \<and>
     (case ec_asset c of
        AssetNative \<Rightarrow> ai_asset asset = ''native''
      | AssetErc20 token \<Rightarrow> eq_ignore_ascii_case (ai_asset asset) (eth_address_display token))"

fun is_failed :: "history_status \<Rightarrow> bool" where
  "is_failed (HistoryFailed _ _) \<longleftrightarrow> True"
| "is_failed _ \<longleftrightarrow> False"

definition select_entry :: "eth_config \<Rightarrow> history_entry \<Rightarrow> history_entry" where
  "select_entry c t = t\<lparr>he_movements := filter (\<lambda>m. selects c (ha_id (hm_asset m))) (he_movements t)\<rparr>"

definition keeps_entry :: "canonical_address \<Rightarrow> history_entry \<Rightarrow> bool" where
  "keeps_entry wallet t \<longleftrightarrow>
     he_movements t \<noteq> [] \<or> is_failed (he_status t) \<and> Option.bind (he_fee t) hf_payer = Some wallet"

definition selected_history ::
  "eth_config \<Rightarrow> canonical_address \<Rightarrow> wallet_history \<Rightarrow> (wallet_error, wallet_history) result" where
  "selected_history c wallet h =
     and_then (fail_if
       (list_ex (\<lambda>t. case he_fee t of None \<Rightarrow> False
          | Some fee \<Rightarrow> ai_chain (ha_id (hf_asset fee)) \<noteq> sc_chain (ec_scope c) \<or> ai_asset (ha_id (hf_asset fee)) \<noteq> ''native'')
        (wh_transactions h)) non_native_fee_error) (\<lambda>_.
     Ok (h\<lparr>wh_transactions := filter (keeps_entry wallet) (map (select_entry c) (wh_transactions h))\<rparr>))"

text \<open>The query of the wallet's history, for asset identities whose texts can be read.\<close>

definition eth_wallet_history ::
  "(history_query \<Rightarrow> ('w, index_error, transaction_page) eff) \<Rightarrow> asset_resolver \<Rightarrow> eth_config \<Rightarrow> eth_address \<Rightarrow>
     history_request \<Rightarrow> ('w, wallet_error, wallet_history) eff" where
  "eth_wallet_history lookup resolver c address request =
     (let wallet = CanonicalAddress (ec_scope c) (eth_address_display address) in
      bind_eff (eff_err wallet_error_of_index
        (lookup \<lparr>hq_scope = ec_scope c, hq_address = wallet, hq_after = hr_after request, hq_limit = hr_limit request\<rparr>)) (\<lambda>page.
      lift_result (
        and_then (history_from_index page (ec_scope c) resolver) (\<lambda>h. selected_history c wallet h))))"

section \<open>Batches\<close>

definition batch_preparation :: "eth_config \<Rightarrow> 'w send_transfer \<Rightarrow> (wallet_error, preparation) result" where
  "batch_preparation c t =
     and_then (map_err eth_address_error (eth_address_of_base (wa_address (tx_wallet t)))) (\<lambda>from1.
     and_then (wa_parse_address (tx_wallet t) (tx_to t)) (\<lambda>destination.
     and_then (map_err eth_address_error (eth_address_of_base destination)) (\<lambda>destination.
     and_then (map_err wallet_error_of_transaction (transfer_request_of c from1 destination (tx_amount t))) (\<lambda>request.
     Ok \<lparr>pr_request = request, pr_expected_chain_id = ec_chain_id c\<rparr>))))"

fun batch_preparations :: "eth_config \<Rightarrow> nat \<Rightarrow> 'w send_transfer list \<Rightarrow> (send_error, preparation list) result" where
  "batch_preparations c index [] = Ok []"
| "batch_preparations c index (t # ts) =
     and_then (map_err (send_item index []) (batch_preparation c t)) (\<lambda>p.
     and_then (batch_preparations c (index + 1) ts) (\<lambda>ps. Ok (p # ps)))"

definition into_send :: "preparation_error \<Rightarrow> send_error" where
  "into_send e = send_item (px_index e) [] (wallet_error_of_transaction (into_preparation (px_source e)))"

text \<open>Every submitted entry moves the cursor.\<close>

lemma batch_next_entry: "batch_next b st = (Some entry, b', st') \<Longrightarrow> pb_cursor b < length (pb_entries b) \<and> b' = b \<and> st' = st \<and> entry = pb_entries b ! pb_cursor b"
  by (auto simp: batch_next_def split: if_splits)

lemma batch_submitted_cursor: "batch_submitted (Ok i) b st = (b1, st1) \<Longrightarrow> pb_entries b1 = pb_entries b \<and> pb_cursor b1 = Suc (pb_cursor b)"
  by (auto simp: batch_submitted_def Let_def take_operation_def split: if_splits)

text \<open>
  The loop over the prepared entries. A submission may meet other tasks, so it is any effect on the
  coordinator; leaving the loop drops the batch and with it the admission.
\<close>

function drain_batch ::
  "(prepared_entry \<Rightarrow> (coord_state, transaction_error, eth_id) eff) \<Rightarrow> prepared_batch \<Rightarrow> string list \<Rightarrow>
     (coord_state, send_error, string list) eff" where
  "drain_batch submit b accepted st =
     (case batch_next b st of
        (None, b', st') \<Rightarrow> (Ok accepted, snd (take_operation b' st'))
      | (Some entry, b', st') \<Rightarrow>
          (case submit entry st' of
             (Err e, st1) \<Rightarrow>
               (Err (send_item (length accepted) accepted (wallet_error_of_transaction e)), snd (take_operation b' st1))
           | (Ok i, st1) \<Rightarrow>
               (case batch_submitted (Ok i) b' st1 of
                  (b1, st2) \<Rightarrow> drain_batch submit b1 (accepted @ [eth_id_display i]) st2)))"
  by pat_completeness auto

termination
  by (relation "measure (\<lambda>(submit, b, accepted, st). length (pb_entries b) - pb_cursor b)")
     (auto dest!: batch_next_entry [OF sym] batch_submitted_cursor [OF sym])

declare drain_batch.simps [simp del]

definition eth_execute ::
  "eth_config \<Rightarrow> (preparation list \<Rightarrow> (coord_state, preparation_error, prepared_batch) eff) \<Rightarrow>
     (prepared_entry \<Rightarrow> (coord_state, transaction_error, eth_id) eff) \<Rightarrow> 'w send_transfer list \<Rightarrow>
     (coord_state, send_error, string list) eff" where
  "eth_execute c prepare_batch submit ts =
     bind_eff (lift_result (fail_if (ts = []) batch_empty_error)) (\<lambda>_.
     bind_eff (lift_result (fail_if (length ts > MAX_TRANSFERS) batch_size_error)) (\<lambda>_.
     bind_eff (lift_result (batch_preparations c 0 ts)) (\<lambda>preparations.
     bind_eff (eff_err into_send (prepare_batch preparations)) (\<lambda>b.
     drain_batch submit b []))))"


section \<open>What a batch leaves behind\<close>

text \<open>Nothing of an admission is left: no prepared record and no sender that waits for it.\<close>

definition drained :: "u64 \<Rightarrow> coord_state \<Rightarrow> bool" where
  "drained operation st \<longleftrightarrow>
     (\<forall>i r. recs st i = Some r \<longrightarrow> \<not> cancelled_by operation r) \<and> (\<forall>s. active_of st s \<noteq> Some operation)"

lemma finish_closed: "keys_ok st \<Longrightarrow> drained operation (finish_operation operation st)"
  by (auto simp: drained_def finish_operation_view(1,2) split: option.splits if_splits)

text \<open>
  The submissions of a list of entries, one after the other up to the first that fails: the ids that were
  returned, the failure, and the state they leave.
\<close>

fun submit_each ::
  "(prepared_entry \<Rightarrow> (coord_state, transaction_error, eth_id) eff) \<Rightarrow> prepared_entry list \<Rightarrow> coord_state \<Rightarrow>
     eth_id list \<times> transaction_error option \<times> coord_state" where
  "submit_each submit [] st = ([], None, st)"
| "submit_each submit (entry # entries) st =
     (case submit entry st of
        (Err e, st1) \<Rightarrow> ([], Some e, st1)
      | (Ok i, st1) \<Rightarrow> (case submit_each submit entries st1 of (ids, failure, st2) \<Rightarrow> (i # ids, failure, st2)))"

lemma submit_each_ids:
  assumes "\<And>entry st i st'. submit entry st = (Ok i, st') \<Longrightarrow> i = st_id (pe_signed entry)"
    and "submit_each submit entries st = (ids, failure, st')"
  shows "ids = map (\<lambda>entry. st_id (pe_signed entry)) (take (length ids) entries) \<and> length ids \<le> length entries \<and>
    (failure = None \<longleftrightarrow> length ids = length entries)"
  using assms(2)
proof (induction entries arbitrary: st ids)
  case (Cons entry entries)
  then show ?case using assms(1) [of entry st] by (auto split: prod.splits sum.splits)
qed simp

lemma submit_each_keys:
  assumes "\<And>entry st. keys_ok st \<Longrightarrow> keys_ok (snd (submit entry st))"
    and "keys_ok st" "submit_each submit entries st = (ids, failure, st')"
  shows "keys_ok st'"
  using assms(2,3)
proof (induction entries arbitrary: st ids)
  case (Cons entry entries)
  then show ?case using assms(1) [of st entry] by (auto split: prod.splits sum.splits)
qed simp

text \<open>The loop over a batch is these submissions, followed by the end of the admission.\<close>

lemma drain_batch_done:
  "pb_operation b = None \<Longrightarrow> pb_cursor b = length (pb_entries b) \<Longrightarrow> drain_batch submit b accepted st = (Ok accepted, st)"
  by (subst drain_batch.simps) (simp add: batch_next_def take_operation_def)

lemma drain_batch_submits:
  assumes "pb_operation b = Some operation" "pb_cursor b \<le> length (pb_entries b)"
    and "submit_each submit (drop (pb_cursor b) (pb_entries b)) st = (ids, failure, st')"
  shows "drain_batch submit b accepted st =
    ((case failure of
        None \<Rightarrow> Ok (accepted @ map eth_id_display ids)
      | Some e \<Rightarrow> Err (send_item (length accepted + length ids) (accepted @ map eth_id_display ids) (wallet_error_of_transaction e))),
     finish_operation operation st')"
  using assms
proof (induction "length (pb_entries b) - pb_cursor b" arbitrary: b accepted st ids rule: less_induct)
  case less
  show ?case
  proof (cases "pb_cursor b < length (pb_entries b)")
    case False
    then show ?thesis using less.prems by (subst drain_batch.simps) (simp add: batch_next_def take_operation_def)
  next
    case True
    let ?entry = "pb_entries b ! pb_cursor b"
    have upcoming: "batch_next b st = (Some ?entry, b, st)" using True by (simp add: batch_next_def)
    note each = less.prems(3) [unfolded Cons_nth_drop_Suc [OF True, symmetric]]
    obtain r st1 where run: "submit ?entry st = (r, st1)" by fastforce
    show ?thesis
    proof (cases r)
      case (Inl e)
      then show ?thesis using each upcoming run less.prems(1) by (subst drain_batch.simps) (auto simp: take_operation_def)
    next
      case (Inr i)
      obtain later where later: "submit_each submit (drop (Suc (pb_cursor b)) (pb_entries b)) st1 = (later, failure, st')" "ids = i # later"
        using each run Inr by (auto split: prod.splits)
      obtain b1 st2 where b1: "batch_submitted (Ok i) b st1 = (b1, st2)" by fastforce
      have next1: "drain_batch submit b accepted st = drain_batch submit b1 (accepted @ [eth_id_display i]) st2"
        using upcoming run Inr b1 by (subst drain_batch.simps) simp
      show ?thesis
      proof (cases "Suc (pb_cursor b) = length (pb_entries b)")
        case True
        then have "later = []" "failure = None" "st1 = st'" "pb_operation b1 = None" "pb_cursor b1 = length (pb_entries b1)"
            "st2 = finish_operation operation st1"
          using later(1) b1 less.prems(1) by (auto simp: batch_submitted_def take_operation_def Let_def)
        then show ?thesis using next1 later(2) drain_batch_done by simp
      next
        case False
        then have "b1 = b\<lparr>pb_cursor := Suc (pb_cursor b)\<rparr>" "st2 = st1" using b1 by (auto simp: batch_submitted_def Let_def)
        then have "drain_batch submit b1 (accepted @ [eth_id_display i]) st2 =
            ((case failure of
                None \<Rightarrow> Ok ((accepted @ [eth_id_display i]) @ map eth_id_display later)
              | Some e \<Rightarrow> Err (send_item (length (accepted @ [eth_id_display i]) + length later)
                  ((accepted @ [eth_id_display i]) @ map eth_id_display later) (wallet_error_of_transaction e))),
             finish_operation operation st')"
          using later(1) True less.prems(1) by (intro less.hyps) simp_all
        then show ?thesis using next1 later(2) by (simp split: option.splits)
      qed
    qed
  qed
qed

text \<open>A claimed submission returns the id it was made for and keeps the records apart.\<close>

lemma submission_accept_id: "submission_accept i st = (Ok j, st') \<Longrightarrow> j = i"
  by (auto simp: submission_accept_def Let_def split: prod.splits option.splits)

lemma submit_broadcast_id: "submit_broadcast i recovery answer st = (Ok j, st') \<Longrightarrow> j = i"
  by (auto simp: submit_broadcast_def eff_err_def result_simps dest: submission_accept_id split: sum.splits prod.splits if_splits)

lemma submit_claimed_id: "submit_claimed i recovery known answer st = (Ok j, st') \<Longrightarrow> j = i"
  by (auto simp: submit_claimed_def eff_err_def result_simps dest: submission_accept_id submit_broadcast_id
      split: sum.splits prod.splits if_splits bool.splits)

lemma keys_ok_drop: "keys_ok st \<Longrightarrow> keys_ok (submission_drop i st)"
  by (simp add: submission_drop_def split: option.splits)

lemma keys_ok_accept: "keys_ok st \<Longrightarrow> keys_ok (snd (submission_accept i st))"
  using remove_record_view(7) [of st i]
  by (cases "remove_record i st") (auto simp: submission_accept_def Let_def intro: keys_ok_drop split: option.splits)

lemma keys_ok_submit: "keys_ok st \<Longrightarrow> keys_ok (snd (submit_claimed i recovery known answer st))"
proof -
  assume keys: "keys_ok st"
  have accept: "keys_ok (snd (eff_err definite_submission_error (submission_accept i) st))"
    using keys_ok_accept [OF keys, of i] by (cases "submission_accept i st") (simp add: eff_err_def)
  have "keys_ok (snd (submit_broadcast i recovery answer st))"
    using keys accept remove_record_view(7) [OF keys]
    by (cases answer) (auto simp: submit_broadcast_def submission_reject_def keys_ok_drop)
  then show ?thesis using keys accept by (auto simp: submit_claimed_def keys_ok_drop split: sum.splits bool.splits)
qed

section \<open>Restored snapshots\<close>

lemma eth_display_inject: "eth_address_display a = eth_address_display b \<longleftrightarrow> a = b"
  using address_display_inject [of "Address a" "Address b"] by (simp add: eth_address_display_def address_display_def)

lemma address_of_display: "length a = 20 \<Longrightarrow> address_from_str (eth_address_display a) = Return (Ok a)"
  using parse_hex [of a 20] by (simp add: address_from_str_def eth_address_display_def strip_0x_simps del: append.simps)

lemma eth_atomic_scale:
  assumes "eth_atomic amount decimals = Ok v" "canonical amount"
  shows "scale amount \<le> decimals"
proof -
  obtain u where u: "to_atomic amount decimals = Ok u"
    using assms(1) by (auto simp: eth_atomic_def to_atomic_be_bytes_def result_simps)
  show ?thesis using from_atomic_inverse [OF assms(2) u] scale_new [of "int u" decimals] by (simp add: from_atomic_def)
qed

lemma builder_transfer_Ok:
  assumes "builder_transfer b destination amount = Ok b'"
  shows "length (as_bytes destination) = 20" "\<exists>v. eth_atomic amount (unat (ec_decimals (eb_config b))) = Ok v"
    "b' = b\<lparr>eb_transfer := Some (as_bytes destination, amount)\<rparr>"
  using assms by (auto simp: builder_transfer_def result_simps)

lemma asset_matches_configured:
  "asset_matches (case a of AssetNative \<Rightarrow> SnapshotNative ETH_TICKER n | AssetErc20 token \<Rightarrow> SnapshotErc20 (eth_address_display token) n)
     asset decimals \<longleftrightarrow> asset = a \<and> decimals = n"
  by (cases a; cases asset) (auto simp: eth_display_inject)

lemma builder_snapshot_Ok:
  assumes "builder_snapshot b = Ok s" "eb_transfer b = Some (destination, amount)"
  shows "builder_validate (eb_config b) = Ok ()" "ts_version s = SNAPSHOT_VERSION" "ts_kind s = SNAPSHOT_KIND"
    "\<exists>d. ts_value s = snapshot_json d \<and> sn_chain d = chain_name (sc_chain (ec_scope (eb_config b))) \<and>
       sn_network d = sc_network (ec_scope (eb_config b)) \<and> sn_source d = eth_address_display (eb_from b) \<and>
       sn_destination d = eth_address_display destination \<and> sn_amount d = to_string amount \<and>
       (\<forall>asset decimals. asset_matches (sn_asset d) asset decimals \<longleftrightarrow>
          asset = ec_asset (eb_config b) \<and> decimals = ec_decimals (eb_config b))"
proof -
  show "builder_validate (eb_config b) = Ok ()" "ts_version s = SNAPSHOT_VERSION" "ts_kind s = SNAPSHOT_KIND"
    using assms by (simp_all add: builder_snapshot_def result_simps Let_def) (auto)
  from assms obtain d where "s = \<lparr>ts_version = SNAPSHOT_VERSION, ts_kind = SNAPSHOT_KIND, ts_value = snapshot_json d\<rparr>"
      "d = \<lparr>sn_chain = chain_name (sc_chain (ec_scope (eb_config b))), sn_network = sc_network (ec_scope (eb_config b)),
        sn_source = eth_address_display (eb_from b), sn_destination = eth_address_display destination,
        sn_amount = to_string amount,
        sn_asset = (case ec_asset (eb_config b) of
           AssetNative \<Rightarrow> SnapshotNative ETH_TICKER (ec_decimals (eb_config b))
         | AssetErc20 token \<Rightarrow> SnapshotErc20 (eth_address_display token) (ec_decimals (eb_config b)))\<rparr>"
    by (auto simp: builder_snapshot_def result_simps Let_def)
  then show "\<exists>d. ts_value s = snapshot_json d \<and> sn_chain d = chain_name (sc_chain (ec_scope (eb_config b))) \<and>
       sn_network d = sc_network (ec_scope (eb_config b)) \<and> sn_source d = eth_address_display (eb_from b) \<and>
       sn_destination d = eth_address_display destination \<and> sn_amount d = to_string amount \<and>
       (\<forall>asset decimals. asset_matches (sn_asset d) asset decimals \<longleftrightarrow>
          asset = ec_asset (eb_config b) \<and> decimals = ec_decimals (eb_config b))"
    by (intro exI [of _ d]) (simp add: asset_matches_configured)
qed

lemma builder_validate_Ok:
  "builder_validate c = Ok () \<Longrightarrow> chain_name (sc_chain (ec_scope c)) = ''ethereum'' \<and> ec_chain_id c \<noteq> 0 \<and> ec_decimals c \<le> 255"
  by (auto simp: builder_validate_def eth_config_validate_def result_simps not_less)

section \<open>An example decoder\<close>

definition json_string :: "json \<Rightarrow> string \<Rightarrow> string" where
  "json_string j name = (case Option.bind (json_get j name) json_as_str of Some s \<Rightarrow> s | None \<Rightarrow> [])"

definition json_nat :: "json \<Rightarrow> string \<Rightarrow> nat" where
  "json_nat j name = (case json_get j name of Some (JNumber s) \<Rightarrow> parse_digits s | _ \<Rightarrow> 0)"

definition json_object :: "json \<Rightarrow> string \<Rightarrow> json" where
  "json_object j name = (case json_get j name of Some v \<Rightarrow> v | None \<Rightarrow> JNull)"

definition demo_from_value :: "json \<Rightarrow> (string, snapshot_data) result" where
  "demo_from_value j =
     (let asset = json_object j ''asset'' in
      Ok \<lparr>sn_chain = json_string (json_object j ''scope'') ''chain'', sn_network = json_string (json_object j ''scope'') ''network'',
          sn_source = json_string j ''source'', sn_destination = json_string j ''destination'', sn_amount = json_string j ''amount'',
          sn_asset = (if json_string asset ''kind'' = ''native''
            then SnapshotNative (json_string asset ''ticker'') (of_nat (json_nat asset ''decimals''))
            else SnapshotErc20 (json_string asset ''token'') (of_nat (json_nat asset ''decimals'')))\<rparr>)"

lemma demo_from_value_inverse: "demo_from_value (snapshot_json d) = Ok d"
  by (cases "sn_asset d"; cases d)
     (simp_all add: demo_from_value_def snapshot_json_def json_object_def json_string_def json_nat_def parse_to_digits Let_def)

definition demo_eth_config :: eth_config where
  "demo_eth_config = \<lparr>ec_scope = IndexScope (ChainId ''ethereum'') ''n'', ec_chain_id = 1, ec_asset = AssetNative, ec_decimals = 18\<rparr>"

lemma demo_valid: "builder_validate demo_eth_config = Ok ()"
proof -
  have "\<not> blank_text ''n''" by (subst blank_text.simps) (simp add: utf8_whitespace_def)
  then show ?thesis
    by (simp add: builder_validate_def eth_config_validate_def demo_eth_config_def ETH_DECIMALS_def result_simps)
qed

lemma demo_snapshot:
  "\<exists>b s. builder_transfer (builder_new demo_eth_config (replicate 20 1)) (Address (replicate 20 2)) (decimal_new 1 0) = Ok b \<and>
     builder_snapshot b = Ok s"
proof -
  have "length (to_bytes_be (10 ^ 18)) \<le> 32" using length_to_bytes_be [of "10 ^ 18" 31] by simp
  moreover have "to_atomic (decimal_new 1 0) 18 = Ok (10 ^ 18)" by (simp add: to_atomic_Ok_iff)
  ultimately have "\<exists>u. eth_atomic (decimal_new 1 0) 18 = Ok u"
    by (auto simp: eth_atomic_def to_atomic_be_bytes_def result_simps Let_def)
  then show ?thesis
    using demo_valid
    by (auto simp: builder_transfer_def builder_snapshot_def builder_new_def result_simps Let_def demo_eth_config_def)
qed

section \<open>An example batch\<close>

text \<open>Two registered transfers of one sender; the node takes the first and rejects the second.\<close>

definition demo_entries :: "prepared_entry list" where
  "demo_entries =
     [\<lparr>pe_source = [], pe_nonce = 7, pe_signed = \<lparr>st_id = [1], st_envelope = []\<rparr>\<rparr>,
      \<lparr>pe_source = [], pe_nonce = 8, pe_signed = \<lparr>st_id = [2], st_envelope = []\<rparr>\<rparr>]"

definition demo_registered :: coord_state where
  "demo_registered = snd (register 0 demo_entries (demo_state []))"

definition demo_rejection :: transaction_error where
  "demo_rejection = transaction_error_new TxRejected ''nonce too low''"

definition demo_submission :: "prepared_entry \<Rightarrow> (coord_state, transaction_error, eth_id) eff" where
  "demo_submission entry =
     (let i = st_id (pe_signed entry) in
      bind_eff (eff_err definite_submission_error (claim i (Some (pe_signed entry)))) (\<lambda>c.
      case c of
        ClaimReady transaction recovery \<Rightarrow> submit_claimed i recovery (Ok False) (if i = [1] then Ok [1] else Err demo_rejection)
      | ClaimWait \<Rightarrow> throw (definite_submission_error disappeared_error)))"

lemma demo_submission_id: "demo_submission entry st = (Ok i, st') \<Longrightarrow> i = st_id (pe_signed entry)"
  by (cases "fst (claim (st_id (pe_signed entry)) (Some (pe_signed entry)) st)")
     (auto simp: demo_submission_def Let_def bind_eff_def eff_err_def throw_def dest: submit_claimed_id split: prod.splits sum.splits coord_claim.splits)

lemma demo_submission_keys: "keys_ok st \<Longrightarrow> keys_ok (snd (demo_submission entry st))"
proof -
  assume keys: "keys_ok st"
  obtain r st1 where run: "claim (st_id (pe_signed entry)) (Some (pe_signed entry)) st = (r, st1)" by fastforce
  then have "keys_ok st1" using keys by (auto simp: claim_def split: option.splits if_splits)
  then show ?thesis using run keys_ok_submit
    by (cases r) (auto simp: demo_submission_def Let_def bind_eff_def eff_err_def throw_def split: coord_claim.splits)
qed

lemma demo_registered_props:
  "register 0 demo_entries (demo_state []) = (Ok (), demo_registered)" "active_of demo_registered [] = Some 0"
  "recs demo_registered [1] \<noteq> None \<and> recs demo_registered [2] \<noteq> None" "keys_ok demo_registered"
  by (simp_all add: demo_registered_def register_def register_check_def register_entry_def demo_entries_def demo_state_def set_sender_def set_record_def
      sender_entry_def active_of_def recs_def keys_ok_def Let_def)

lemma demo_submits: "\<exists>st. submit_each demo_submission demo_entries demo_registered = ([[1]], Some demo_rejection, st)"
  by (simp add: demo_registered_def register_def register_check_def register_entry_def demo_entries_def demo_state_def set_sender_def set_record_def
      sender_entry_def Let_def demo_submission_def bind_eff_def eff_err_def claim_def submit_claimed_def submit_broadcast_def submission_accept_def
      remove_record_def checked_add_def submission_reject_def demo_rejection_def transaction_error_new_def)

section \<open>Properties\<close>

text \<open>
  C32. The snapshot of a transfer restores exactly that transfer, when the JSON decoder reads back what was
  written: the wallet that made it gets the same builder again, and no wallet with another address, scope,
  asset or precision accepts it.
\<close>

theorem eth_snapshot_restores:
  assumes "\<forall>d. from_value (snapshot_json d) = Ok d"
    and "builder_transfer (builder_new c from1) destination amount = Ok b" "canonical amount" "builder_snapshot b = Ok s"
  shows "builder_restore from_value c from1 s = Return (Ok b) \<and>
    (builder_restore from_value c' from2 s = Return (Ok b') \<longrightarrow>
       from2 = from1 \<and> ec_scope c' = ec_scope c \<and> ec_asset c' = ec_asset c \<and> ec_decimals c' = ec_decimals c \<and>
       eb_transfer b' = eb_transfer b)"
proof -
  note b = builder_transfer_Ok [OF assms(2)]
  have fields1: "eb_config b = c" "eb_from b = from1" "eb_transfer b = Some (as_bytes destination, amount)"
    using b(3) by (simp_all add: builder_new_def)
  note s = builder_snapshot_Ok [OF assms(4) fields1(3), unfolded fields1]
  note valid = builder_validate_Ok [OF s(1)]
  obtain d where d: "ts_value s = snapshot_json d" "sn_chain d = chain_name (sc_chain (ec_scope c))"
      "sn_network d = sc_network (ec_scope c)" "sn_source d = eth_address_display from1"
      "sn_destination d = eth_address_display (as_bytes destination)" "sn_amount d = to_string amount"
      "\<And>asset decimals. asset_matches (sn_asset d) asset decimals \<longleftrightarrow> asset = ec_asset c \<and> decimals = ec_decimals c"
    using s(4) by blast
  obtain v where v: "eth_atomic amount (unat (ec_decimals c)) = Ok v" using b(2) by (auto simp: builder_new_def)
  have "int (scale amount) < 2 ^ 32" using eth_atomic_scale [OF v assms(3)] unat_less [of "ec_decimals c"] by simp
  from from_str_to_string [OF assms(3) this] have amount: "from_str (sn_amount d) = Ok amount" using d(6) by simp
  have value1: "from_value (ts_value s) = Ok d" using assms(1) d(1) by simp
  have "snapshot_decode from_value c from1 s = Return (Ok (as_bytes destination, amount))"
    using value1 s(2,3) d valid amount v address_of_display [OF b(1)] by (simp add: snapshot_decode_def)
  moreover have "(builder_new c from1)\<lparr>eb_transfer := Some (as_bytes destination, amount)\<rparr> = b" using b(3) by simp
  ultimately have "builder_restore from_value c from1 s = Return (Ok b)"
    using s(1) by (simp add: builder_restore_def Let_def builder_new_def)
  moreover have "from2 = from1 \<and> ec_scope c' = ec_scope c \<and> ec_asset c' = ec_asset c \<and> ec_decimals c' = ec_decimals c \<and>
      eb_transfer b' = eb_transfer b" if "builder_restore from_value c' from2 s = Return (Ok b')"
  proof -
    have "snapshot_decode from_value c' from2 s = Return (Ok (as_bytes destination, amount)) \<and>
        sn_chain d = chain_name (sc_chain (ec_scope c')) \<and> sn_network d = sc_network (ec_scope c') \<and>
        sn_source d = eth_address_display from2 \<and> asset_matches (sn_asset d) (ec_asset c') (ec_decimals c')"
      using that value1 s(2,3) amount address_of_display [OF b(1)] d(5)
      by (auto simp: builder_restore_def snapshot_decode_def result_simps split: if_splits call.splits)
    moreover have "eb_transfer b' = Some (as_bytes destination, amount)"
      using calculation that by (auto simp: builder_restore_def Let_def result_simps)
    moreover have "ec_scope c' = ec_scope c"
      using calculation(1) d(2,3) by (cases "ec_scope c"; cases "ec_scope c'"; cases "sc_chain (ec_scope c)"; cases "sc_chain (ec_scope c')") auto
    ultimately show ?thesis using d(4,7) fields1(3) by (simp add: eth_display_inject)
  qed
  ultimately show ?thesis by blast
qed

theorem eth_snapshot_restores_witness:
  "\<exists>b s. builder_transfer (builder_new demo_eth_config (replicate 20 1)) (Address (replicate 20 2)) (decimal_new 1 0) = Ok b \<and>
     builder_snapshot b = Ok s \<and> builder_restore demo_from_value demo_eth_config (replicate 20 1) s = Return (Ok b)"
proof -
  obtain b s where run: "builder_transfer (builder_new demo_eth_config (replicate 20 1)) (Address (replicate 20 2)) (decimal_new 1 0) = Ok b"
      "builder_snapshot b = Ok s" using demo_snapshot by blast
  from eth_snapshot_restores [OF _ run(1) canonical_new run(2), of demo_from_value] run demo_from_value_inverse show ?thesis by blast
qed

text \<open>
  C31. Sending a batch submits its transactions in order, each once, up to the first submission that fails.
  When none fails it returns the ids the submissions returned, which are those of all entries; otherwise it
  reports that failure with its index and exactly the ids returned before it. Either way the admission of the
  batch ends then: no sender stays reserved for it and no record of it is still waiting to be sent, so the
  unsent nonces are given up. The submissions are any effects on the coordinator that keep its records apart
  and return only the id of the envelope they were given, whatever other tasks do meanwhile.
\<close>

theorem eth_batch_outcome:
  assumes "\<And>entry st i st'. submit entry st = (Ok i, st') \<Longrightarrow> i = st_id (pe_signed entry)"
    and "\<And>entry st. keys_ok st \<Longrightarrow> keys_ok (snd (submit entry st))"
    and "keys_ok st" "submit_each submit entries st = (ids, failure, st')"
  shows "drain_batch submit \<lparr>pb_entries = entries, pb_cursor = 0, pb_operation = Some operation\<rparr> [] st =
      ((case failure of
          None \<Rightarrow> Ok (map eth_id_display ids)
        | Some e \<Rightarrow> Err (send_item (length ids) (map eth_id_display ids) (wallet_error_of_transaction e))),
       finish_operation operation st') \<and>
    ids = map (\<lambda>entry. st_id (pe_signed entry)) (take (length ids) entries) \<and>
    (failure = None \<longleftrightarrow> length ids = length entries) \<and> length ids \<le> length entries \<and>
    drained operation (finish_operation operation st')"
proof -
  have "drain_batch submit \<lparr>pb_entries = entries, pb_cursor = 0, pb_operation = Some operation\<rparr> [] st =
      ((case failure of
          None \<Rightarrow> Ok ([] @ map eth_id_display ids)
        | Some e \<Rightarrow> Err (send_item (length ([] :: string list) + length ids) ([] @ map eth_id_display ids) (wallet_error_of_transaction e))),
       finish_operation operation st')"
    using assms(4) by (intro drain_batch_submits) simp_all
  moreover have "ids = map (\<lambda>entry. st_id (pe_signed entry)) (take (length ids) entries) \<and> length ids \<le> length entries \<and>
      (failure = None \<longleftrightarrow> length ids = length entries)"
    using assms(1) by (rule submit_each_ids [OF _ assms(4)])
  moreover have "drained operation (finish_operation operation st')"
    using assms(2) by (intro finish_closed submit_each_keys [OF _ assms(3,4)])
  ultimately show ?thesis by (simp split: option.splits)
qed

theorem eth_batch_outcome_witness:
  "register 0 demo_entries (demo_state []) = (Ok (), demo_registered) \<and> active_of demo_registered [] = Some 0 \<and>
   recs demo_registered [1] \<noteq> None \<and> recs demo_registered [2] \<noteq> None \<and>
   (\<exists>st. drain_batch demo_submission \<lparr>pb_entries = demo_entries, pb_cursor = 0, pb_operation = Some 0\<rparr> [] demo_registered =
        (Err (send_item 1 [eth_id_display [1]] (wallet_error_of_transaction demo_rejection)), st) \<and> drained 0 st)"
proof -
  obtain st where each: "submit_each demo_submission demo_entries demo_registered = ([[1]], Some demo_rejection, st)" using demo_submits by blast
  show ?thesis
    using eth_batch_outcome [where operation = 0, OF demo_submission_id demo_submission_keys demo_registered_props(4) each] demo_registered_props(1-3) by auto
qed

end
