(* ===== verification/Bitcoin_Indexer.thy ===== *)
theory Bitcoin_Indexer
  imports Bitcoin_Build Observation "HOL-Library.AList"
begin

text \<open>
  What a Bitcoin block means for the index (\<open>sdk/chains/bitcoin/src/indexer/interpreter.rs, transaction.rs\<close>): the
  watched addresses, the movements, fee and payer of a transaction, the outputs it creates and spends, and
  the net output changes of a block. Address and script handling of the \<open>bitcoin\<close> crate are parameters, as in
  \<open>Bitcoin_Build\<close>; a block is the validated block that the source delivers.
\<close>

section \<open>Blocks\<close>

text \<open>An outpoint is the id of its transaction and an output index, ordered in this way.\<close>

type_synonym btc_outpoint = "u8 list \<times> u32"

record btc_previous_output =
  po_outpoint :: btc_outpoint
  po_value :: satoshi
  po_address :: "string option"

record btc_output_data =
  bd_value :: satoshi
  bd_script_pubkey :: script

text \<open>An input is its resolved previous output, or none for a coinbase input.\<close>

record btc_transaction =
  bt_id :: "u8 list"
  bt_inputs :: "btc_previous_output option list"
  bt_outputs :: "btc_output_data list"
  bt_coinbase :: bool

record btc_block =
  bb_reference :: block_ref
  bb_transactions :: "btc_transaction list"

record btc_utxo_key =
  uk_address :: string
  uk_outpoint :: btc_outpoint

record btc_indexed_output =
  bx_outpoint :: btc_outpoint
  bx_value :: satoshi
  bx_script_pubkey :: script
  bx_address :: string
  bx_created_height :: block_height
  bx_coinbase :: bool

text \<open>The address of an output script, next to the other operations of the \<open>bitcoin\<close> crate.\<close>

record 'n native_indexing =
  ni_native :: "'n native_bitcoin"
  ni_from_script :: "script \<Rightarrow> bitcoin_network \<Rightarrow> 'n option"

definition from_script_for_network :: "'n native_indexing \<Rightarrow> script \<Rightarrow> bitcoin_network \<Rightarrow> string option" where
  "from_script_for_network ni script network =
     map_option (nb_display (ni_native ni)) (ni_from_script ni script network)"

section \<open>Canonical values\<close>

definition BITCOIN_CHAIN_ID :: chain_id where "BITCOIN_CHAIN_ID = ChainId ''bitcoin''"
definition BITCOIN_ASSET :: asset_id where "BITCOIN_ASSET = AssetId BITCOIN_CHAIN_ID ''native''"

definition canonical_btc_address :: "index_scope \<Rightarrow> string \<Rightarrow> canonical_address" where
  "canonical_btc_address scope address = CanonicalAddress scope address"

definition canonical_btc_id :: "'n native_indexing \<Rightarrow> index_scope \<Rightarrow> u8 list \<Rightarrow> transaction_ref" where
  "canonical_btc_id ni scope i = TransactionRef scope (nb_display_txid (ni_native ni) i)"

definition canonical_outpoint :: "'n native_indexing \<Rightarrow> index_scope \<Rightarrow> btc_outpoint \<Rightarrow> output_id" where
  "canonical_outpoint ni scope p = OutputId (canonical_btc_id ni scope (fst p)) (snd p)"

definition canonical_utxo_key :: "'n native_indexing \<Rightarrow> index_scope \<Rightarrow> btc_utxo_key \<Rightarrow> output_key" where
  "canonical_utxo_key ni scope k =
     OutputKey (canonical_btc_address scope (uk_address k)) (canonical_outpoint ni scope (uk_outpoint k))"

definition canonical_indexed_output :: "'n native_indexing \<Rightarrow> index_scope \<Rightarrow> btc_indexed_output \<Rightarrow> indexed_output" where
  "canonical_indexed_output ni scope o1 =
     \<lparr>io_id = canonical_outpoint ni scope (bx_outpoint o1), io_address = canonical_btc_address scope (bx_address o1),
      io_asset = BITCOIN_ASSET, io_amount = from_u64 (bx_value o1), io_evidence = bx_script_pubkey o1,
      io_created_at = bx_created_height o1, io_coinbase = bx_coinbase o1\<rparr>"

definition invalid_block :: "string \<Rightarrow> index_error" where
  "invalid_block message = index_error_new InvalidBlock message False"

section \<open>Watched addresses\<close>

definition btc_foreign_address_error :: index_error where
  "btc_foreign_address_error = index_error_new InvalidRequest ''Bitcoin indexed address belongs to a different scope'' False"
definition btc_invalid_address_error :: index_error where
  "btc_invalid_address_error = index_error_new InvalidRequest ''Bitcoin indexed address is invalid or wrong-network'' False"
definition btc_script_error :: index_error where
  "btc_script_error = index_error_new InvalidRequest ''Bitcoin indexed address cannot produce a script'' False"
definition btc_address_kind_error :: index_error where
  "btc_address_kind_error = index_error_new InvalidRequest ''Bitcoin indexing supports P2WPKH and P2TR addresses only'' False"
definition btc_canonical_error :: index_error where
  "btc_canonical_error = index_error_new InvalidRequest ''Bitcoin indexed address is not canonical'' False"

definition segwit_script :: "'n native_indexing \<Rightarrow> script \<Rightarrow> bool" where
  "segwit_script ni script \<longleftrightarrow> nb_is_p2wpkh (ni_native ni) script \<or> nb_is_p2tr (ni_native ni) script"

definition validated_add ::
  "'n native_indexing \<Rightarrow> index_scope \<Rightarrow> bitcoin_network \<Rightarrow> canonical_address \<Rightarrow> string set \<Rightarrow>
     (index_error, string set) result" where
  "validated_add ni scope network address addresses =
     and_then (fail_if (\<not> address_belongs_to address scope) btc_foreign_address_error) (\<lambda>_.
     and_then (map_err (\<lambda>_. btc_invalid_address_error) (parse_for_network (ni_native ni) (ca_value address) network)) (\<lambda>encoded.
     and_then (map_err (\<lambda>_. btc_script_error) (script_pubkey_for_network (ni_native ni) encoded network)) (\<lambda>script.
     and_then (fail_if (\<not> segwit_script ni script) btc_address_kind_error) (\<lambda>_.
     and_then (fail_if (ca_value address \<noteq> encoded) btc_canonical_error) (\<lambda>_.
     Ok (insert encoded addresses))))))"

fun validated_addresses ::
  "'n native_indexing \<Rightarrow> index_scope \<Rightarrow> bitcoin_network \<Rightarrow> canonical_address list \<Rightarrow> string set \<Rightarrow>
     (index_error, string set) result" where
  "validated_addresses ni scope network [] addresses = Ok addresses"
| "validated_addresses ni scope network (a # as) addresses =
     and_then (validated_add ni scope network a addresses) (\<lambda>addresses.
     validated_addresses ni scope network as addresses)"

section \<open>Transactions\<close>

record btc_interpreted =
  bi_movements :: "value_movement list"
  bi_fee :: "network_fee option"
  bi_relevant :: bool
  bi_creates :: "btc_indexed_output list"
  bi_spends :: "btc_utxo_key list"
  bi_tracked_spends :: "btc_utxo_key list"

record transaction_facts =
  tf_movements :: "value_movement list"
  tf_relevant :: bool
  tf_input_total :: u64
  tf_output_total :: u64
  tf_payer :: "string option"
  tf_ambiguous_payer :: bool
  tf_creates :: "btc_indexed_output list"
  tf_spends :: "btc_utxo_key list"
  tf_tracked_spends :: "btc_utxo_key list"

text \<open>The borrowed part of the facts: what does not change while a transaction is read.\<close>

record 'n facts_context =
  fc_native :: "'n native_indexing"
  fc_scope :: index_scope
  fc_network :: bitcoin_network
  fc_addresses :: "string set"
  fc_transaction_id :: "u8 list"
  fc_block_height :: block_height
  fc_coinbase :: bool

definition movement_count_error :: index_error where
  "movement_count_error = invalid_block ''Bitcoin transaction movement count overflowed''"

text \<open>\<open>len\<close> of two vectors: the sum is checked against the width of \<open>usize\<close>.\<close>

definition facts_new :: "btc_transaction \<Rightarrow> (index_error, transaction_facts) result" where
  "facts_new t =
     and_then (fail_if (length (bt_inputs t) + length (bt_outputs t) \<ge> 2 ^ 64) movement_count_error) (\<lambda>_.
     Ok \<lparr>tf_movements = [], tf_relevant = False, tf_input_total = 0, tf_output_total = 0, tf_payer = None,
         tf_ambiguous_payer = False, tf_creates = [], tf_spends = [], tf_tracked_spends = []\<rparr>)"

definition record_payer :: "string option \<Rightarrow> transaction_facts \<Rightarrow> transaction_facts" where
  "record_payer address f =
     (case (tf_payer f, address) of
        (None, Some a) \<Rightarrow> if tf_ambiguous_payer f then f\<lparr>tf_ambiguous_payer := True\<rparr> else f\<lparr>tf_payer := Some a\<rparr>
      | (Some current, Some a) \<Rightarrow> if current = a then f else f\<lparr>tf_ambiguous_payer := True\<rparr>
      | _ \<Rightarrow> f\<lparr>tf_ambiguous_payer := True\<rparr>)"

definition prevout_script_error :: index_error where
  "prevout_script_error = invalid_block ''Bitcoin compact prevout address cannot produce a script''"

definition record_spend ::
  "'n facts_context \<Rightarrow> btc_previous_output \<Rightarrow> transaction_facts \<Rightarrow> (index_error, transaction_facts) result" where
  "record_spend c previous f =
     (case po_address previous of
        None \<Rightarrow> Ok f
      | Some address \<Rightarrow>
          let key = \<lparr>uk_address = address, uk_outpoint = po_outpoint previous\<rparr> in
          if address \<in> fc_addresses c then Ok (f\<lparr>tf_relevant := True, tf_spends := tf_spends f @ [key]\<rparr>)
          else
            and_then (map_err (\<lambda>_. prevout_script_error)
              (script_pubkey_for_network (ni_native (fc_native c)) address (fc_network c))) (\<lambda>script.
            Ok (if segwit_script (fc_native c) script then f\<lparr>tf_tracked_spends := tf_tracked_spends f @ [key]\<rparr> else f)))"

definition spent_twice_error :: index_error where
  "spent_twice_error = invalid_block ''Bitcoin block spends the same outpoint more than once''"
definition prevout_total_error :: index_error where
  "prevout_total_error = invalid_block ''Bitcoin transaction input value overflowed u64''"

definition movement_name :: "'n facts_context \<Rightarrow> string \<Rightarrow> nat \<Rightarrow> movement_id" where
  "movement_name c side index =
     MovementId (nb_display_txid (ni_native (fc_native c)) (fc_transaction_id c) @ side @ to_digits index)"

definition input_movement :: "'n facts_context \<Rightarrow> nat \<Rightarrow> btc_previous_output \<Rightarrow> value_movement" where
  "input_movement c index previous =
     Input (movement_name c '':vin:'' index) BITCOIN_ASSET (from_u64 (po_value previous))
       (map_option (canonical_btc_address (fc_scope c)) (po_address previous))"

definition previous_output ::
  "'n facts_context \<Rightarrow> btc_previous_output \<Rightarrow> nat \<Rightarrow> btc_outpoint set \<Rightarrow> transaction_facts \<Rightarrow>
     (index_error, transaction_facts \<times> btc_outpoint set) result" where
  "previous_output c previous index spent f =
     and_then (fail_if (po_outpoint previous \<in> spent) spent_twice_error) (\<lambda>_.
     and_then (ok_or (checked_add (tf_input_total f) (po_value previous)) prevout_total_error) (\<lambda>sum1.
     let f1 = f\<lparr>tf_input_total := sum1, tf_movements := tf_movements f @ [input_movement c index previous]\<rparr> in
     and_then (record_spend c previous (record_payer (po_address previous) f1)) (\<lambda>f2.
     Ok (f2, insert (po_outpoint previous) spent))))"

definition unresolved_input_error :: index_error where
  "unresolved_input_error = invalid_block ''non-coinbase Bitcoin transaction has an unresolved input''"
definition resolved_coinbase_error :: index_error where
  "resolved_coinbase_error = invalid_block ''Bitcoin coinbase transaction contains a resolved normal input''"

definition facts_input ::
  "'n facts_context \<Rightarrow> btc_previous_output option \<Rightarrow> nat \<Rightarrow> btc_outpoint set \<Rightarrow> transaction_facts \<Rightarrow>
     (index_error, transaction_facts \<times> btc_outpoint set) result" where
  "facts_input c input index spent f =
     (case (input, fc_coinbase c) of
        (None, True) \<Rightarrow> Ok (f, spent)
      | (None, False) \<Rightarrow> Err unresolved_input_error
      | (Some _, True) \<Rightarrow> Err resolved_coinbase_error
      | (Some previous, False) \<Rightarrow> previous_output c previous index spent f)"

definition output_total_error :: index_error where
  "output_total_error = invalid_block ''Bitcoin transaction output value overflowed u64''"
definition output_index_error :: index_error where
  "output_index_error = invalid_block ''Bitcoin output index exceeds u32''"

definition output_movement :: "'n facts_context \<Rightarrow> nat \<Rightarrow> btc_output_data \<Rightarrow> value_movement" where
  "output_movement c index output =
     Output (movement_name c '':vout:'' index) BITCOIN_ASSET (from_u64 (bd_value output))
       (map_option (canonical_btc_address (fc_scope c))
         (from_script_for_network (fc_native c) (bd_script_pubkey output) (fc_network c)))"

definition created_output :: "'n facts_context \<Rightarrow> nat \<Rightarrow> btc_output_data \<Rightarrow> string \<Rightarrow> btc_indexed_output" where
  "created_output c index output address =
     \<lparr>bx_outpoint = (fc_transaction_id c, of_nat index), bx_value = bd_value output,
      bx_script_pubkey = bd_script_pubkey output, bx_address = address, bx_created_height = fc_block_height c,
      bx_coinbase = fc_coinbase c\<rparr>"

definition facts_output ::
  "'n facts_context \<Rightarrow> btc_output_data \<Rightarrow> nat \<Rightarrow> transaction_facts \<Rightarrow> (index_error, transaction_facts) result" where
  "facts_output c output index f =
     and_then (ok_or (checked_add (tf_output_total f) (bd_value output)) output_total_error) (\<lambda>sum1.
     let f1 = f\<lparr>tf_output_total := sum1, tf_movements := tf_movements f @ [output_movement c index output]\<rparr> in
     case from_script_for_network (fc_native c) (bd_script_pubkey output) (fc_network c) of
       None \<Rightarrow> Ok f1
     | Some address \<Rightarrow>
         if address \<notin> fc_addresses c then Ok f1
         else
           and_then (fail_if (index \<ge> 2 ^ 32) output_index_error) (\<lambda>_.
           Ok (f1\<lparr>tf_relevant := True, tf_creates := tf_creates f1 @ [created_output c index output address]\<rparr>)))"

definition outputs_exceed_error :: index_error where
  "outputs_exceed_error = invalid_block ''Bitcoin transaction outputs exceed its resolved inputs''"

definition facts_finish :: "'n facts_context \<Rightarrow> transaction_facts \<Rightarrow> (index_error, btc_interpreted) result" where
  "facts_finish c f =
     and_then
       (if fc_coinbase c then Ok None
        else
          and_then (ok_or (checked_sub (tf_input_total f) (tf_output_total f)) outputs_exceed_error) (\<lambda>amount.
          Ok (Some \<lparr>nf_asset = BITCOIN_ASSET, nf_amount = from_u64 amount,
                    nf_payer = map_option (canonical_btc_address (fc_scope c))
                      (if tf_ambiguous_payer f then None else tf_payer f)\<rparr>))) (\<lambda>fee.
     Ok \<lparr>bi_movements = tf_movements f, bi_fee = fee, bi_relevant = tf_relevant f, bi_creates = tf_creates f,
         bi_spends = tf_spends f, bi_tracked_spends = tf_tracked_spends f\<rparr>)"

fun facts_inputs ::
  "'n facts_context \<Rightarrow> nat \<Rightarrow> btc_previous_output option list \<Rightarrow> btc_outpoint set \<Rightarrow> transaction_facts \<Rightarrow>
     (index_error, transaction_facts \<times> btc_outpoint set) result" where
  "facts_inputs c index [] spent f = Ok (f, spent)"
| "facts_inputs c index (input # inputs) spent f =
     and_then (facts_input c input index spent f) (\<lambda>(f, spent).
     facts_inputs c (index + 1) inputs spent f)"

fun facts_outputs ::
  "'n facts_context \<Rightarrow> nat \<Rightarrow> btc_output_data list \<Rightarrow> transaction_facts \<Rightarrow> (index_error, transaction_facts) result" where
  "facts_outputs c index [] f = Ok f"
| "facts_outputs c index (output # outputs) f =
     and_then (facts_output c output index f) (\<lambda>f.
     facts_outputs c (index + 1) outputs f)"

definition facts_context_of ::
  "'n native_indexing \<Rightarrow> index_scope \<Rightarrow> bitcoin_network \<Rightarrow> string set \<Rightarrow> block_height \<Rightarrow> btc_transaction \<Rightarrow> 'n facts_context" where
  "facts_context_of ni scope network addresses height t =
     \<lparr>fc_native = ni, fc_scope = scope, fc_network = network, fc_addresses = addresses, fc_transaction_id = bt_id t,
      fc_block_height = height, fc_coinbase = bt_coinbase t\<rparr>"

definition interpret_transaction ::
  "'n native_indexing \<Rightarrow> index_scope \<Rightarrow> bitcoin_network \<Rightarrow> string set \<Rightarrow> block_height \<Rightarrow> btc_transaction \<Rightarrow>
     btc_outpoint set \<Rightarrow> (index_error, btc_interpreted \<times> btc_outpoint set) result" where
  "interpret_transaction ni scope network addresses height t spent =
     (let c = facts_context_of ni scope network addresses height t in
      and_then (facts_new t) (\<lambda>f.
      and_then (facts_inputs c 0 (bt_inputs t) spent f) (\<lambda>(f, spent).
      and_then (facts_outputs c 0 (bt_outputs t) f) (\<lambda>f.
      and_then (facts_finish c f) (\<lambda>r.
      Ok (r, spent))))))"

section \<open>The outputs of a block\<close>

text \<open>Maps from outpoints as association lists; their values are read in the order of the keys.\<close>

record btc_outputs =
  ou_creates :: "(btc_outpoint \<times> btc_indexed_output) list"
  ou_spends :: "(btc_outpoint \<times> btc_utxo_key) list"
  ou_tracked_spends :: "(btc_outpoint \<times> btc_utxo_key) list"

definition outputs_empty :: btc_outputs where
  "outputs_empty = \<lparr>ou_creates = [], ou_spends = [], ou_tracked_spends = []\<rparr>"

definition into_values :: "('k :: linorder \<times> 'v) list \<Rightarrow> 'v list" where
  "into_values kvs = map snd (sort_key fst kvs)"

definition duplicate_create_error :: index_error where
  "duplicate_create_error = invalid_block ''Bitcoin block creates a duplicate indexed outpoint''"
definition duplicate_spend_error :: index_error where
  "duplicate_spend_error = invalid_block ''Bitcoin block spends an indexed outpoint more than once''"
definition duplicate_track_error :: index_error where
  "duplicate_track_error = invalid_block ''Bitcoin block contains the same tracked spend more than once''"

definition outputs_create :: "btc_indexed_output \<Rightarrow> btc_outputs \<Rightarrow> (index_error, btc_outputs) result" where
  "outputs_create o1 os =
     and_then (fail_if (map_of (ou_creates os) (bx_outpoint o1) \<noteq> None) duplicate_create_error) (\<lambda>_.
     Ok (os\<lparr>ou_creates := AList.update (bx_outpoint o1) o1 (ou_creates os)\<rparr>))"

definition outputs_spend :: "btc_utxo_key \<Rightarrow> btc_outputs \<Rightarrow> (index_error, btc_outputs) result" where
  "outputs_spend k os =
     (if map_of (ou_creates os) (uk_outpoint k) \<noteq> None then Ok (os\<lparr>ou_creates := AList.delete (uk_outpoint k) (ou_creates os)\<rparr>)
      else
        and_then (fail_if (map_of (ou_spends os) (uk_outpoint k) \<noteq> None) duplicate_spend_error) (\<lambda>_.
        Ok (os\<lparr>ou_spends := AList.update (uk_outpoint k) k (ou_spends os)\<rparr>)))"

definition outputs_track :: "btc_utxo_key \<Rightarrow> btc_outputs \<Rightarrow> (index_error, btc_outputs) result" where
  "outputs_track k os =
     (if map_of (ou_creates os) (uk_outpoint k) \<noteq> None then Ok (os\<lparr>ou_creates := AList.delete (uk_outpoint k) (ou_creates os)\<rparr>)
      else
        and_then (fail_if (map_of (ou_tracked_spends os) (uk_outpoint k) \<noteq> None) duplicate_track_error) (\<lambda>_.
        Ok (os\<lparr>ou_tracked_spends := AList.update (uk_outpoint k) k (ou_tracked_spends os)\<rparr>)))"

definition outputs_canonical :: "'n native_indexing \<Rightarrow> index_scope \<Rightarrow> btc_outputs \<Rightarrow> output_changes" where
  "outputs_canonical ni scope os =
     \<lparr>oc_created = map (canonical_indexed_output ni scope) (into_values (ou_creates os)),
      oc_spent = map (canonical_utxo_key ni scope) (into_values (ou_spends os)),
      oc_tracked_spends = map (canonical_utxo_key ni scope) (into_values (ou_tracked_spends os))\<rparr>"

fun each :: "('a \<Rightarrow> 's \<Rightarrow> ('e, 's) result) \<Rightarrow> 'a list \<Rightarrow> 's \<Rightarrow> ('e, 's) result" where
  "each step [] s = Ok s"
| "each step (x # xs) s = and_then (step x s) (\<lambda>s. each step xs s)"

definition collect_outputs :: "btc_interpreted \<Rightarrow> btc_outputs \<Rightarrow> (index_error, btc_outputs) result" where
  "collect_outputs r os =
     and_then (each outputs_create (bi_creates r) os) (\<lambda>os.
     and_then (each outputs_spend (bi_spends r) os) (\<lambda>os.
     each outputs_track (bi_tracked_spends r) os))"

definition draft_of :: "'n native_indexing \<Rightarrow> index_scope \<Rightarrow> btc_transaction \<Rightarrow> btc_interpreted \<Rightarrow> observation_draft" where
  "draft_of ni scope t r =
     \<lparr>od_scope = scope, od_id = canonical_btc_id ni scope (bt_id t), od_status = DraftIncluded,
      od_movements = bi_movements r, od_fee = bi_fee r\<rparr>"

section \<open>The interpreter\<close>

record btc_interpreter =
  in_scope :: index_scope
  in_network :: bitcoin_network

fun canonical_name :: "bitcoin_network \<Rightarrow> string" where
  "canonical_name BitcoinMainnet = ''mainnet''"
| "canonical_name BitcoinTestnet3 = ''testnet3''"
| "canonical_name BitcoinTestnet4 = ''testnet4''"
| "canonical_name BitcoinSignet = ''signet''"
| "canonical_name BitcoinRegtest = ''regtest''"

definition interpreter_chain_error :: index_error where
  "interpreter_chain_error = index_error_new ScopeMismatch ''Bitcoin interpreter scope must use the bitcoin chain ID'' False"
definition interpreter_network_error :: index_error where
  "interpreter_network_error =
     index_error_new ScopeMismatch ''Bitcoin interpreter scope network does not match configuration'' False"

definition interpreter_new :: "index_scope \<Rightarrow> bitcoin_network \<Rightarrow> (index_error, btc_interpreter) result" where
  "interpreter_new scope network =
     and_then (fail_if (sc_chain scope \<noteq> BITCOIN_CHAIN_ID) interpreter_chain_error) (\<lambda>_.
     and_then (fail_if (sc_network scope \<noteq> canonical_name network) interpreter_network_error) (\<lambda>_.
     Ok \<lparr>in_scope = scope, in_network = network\<rparr>))"

text \<open>The loop over the transactions, with the drafts, the outputs and the outpoints spent so far.\<close>

fun inspect_transactions ::
  "'n native_indexing \<Rightarrow> btc_interpreter \<Rightarrow> string set \<Rightarrow> block_height \<Rightarrow> btc_transaction list \<Rightarrow>
     observation_draft list \<Rightarrow> btc_outputs \<Rightarrow> btc_outpoint set \<Rightarrow> (index_error, observation_draft list \<times> btc_outputs) result" where
  "inspect_transactions ni i addresses height [] drafts os spent = Ok (drafts, os)"
| "inspect_transactions ni i addresses height (t # ts) drafts os spent =
     and_then (interpret_transaction ni (in_scope i) (in_network i) addresses height t spent) (\<lambda>(r, spent).
     and_then (collect_outputs r os) (\<lambda>os.
     inspect_transactions ni i addresses height ts
       (if bi_relevant r then drafts @ [draft_of ni (in_scope i) t r] else drafts) os spent))"

definition btc_inspect ::
  "'n native_indexing \<Rightarrow> btc_interpreter \<Rightarrow> btc_block \<Rightarrow> canonical_address list \<Rightarrow> (index_error, interpreted_block) result" where
  "btc_inspect ni i block addresses =
     and_then (validated_addresses ni (in_scope i) (in_network i) addresses {}) (\<lambda>addresses.
     and_then (inspect_transactions ni i addresses (br_height (bb_reference block)) (bb_transactions block) [] outputs_empty {})
       (\<lambda>(drafts, os).
     Ok \<lparr>ib_block = bb_reference block, ib_transactions = drafts, ib_outputs = outputs_canonical ni (in_scope i) os\<rparr>))"


section \<open>What a transaction means\<close>

text \<open>The outputs of watched addresses a transaction spends, and the other outputs of a supported kind.\<close>

definition watched_input :: "'n facts_context \<Rightarrow> btc_previous_output \<Rightarrow> bool" where
  "watched_input c p \<longleftrightarrow> (\<exists>a \<in> fc_addresses c. po_address p = Some a)"

definition spend_of :: "'n facts_context \<Rightarrow> btc_previous_output \<Rightarrow> btc_utxo_key list" where
  "spend_of c p =
     (case po_address p of None \<Rightarrow> []
      | Some a \<Rightarrow> if a \<in> fc_addresses c then [\<lparr>uk_address = a, uk_outpoint = po_outpoint p\<rparr>] else [])"

definition supported_address :: "'n facts_context \<Rightarrow> string \<Rightarrow> bool" where
  "supported_address c a \<longleftrightarrow>
     (case script_pubkey_for_network (ni_native (fc_native c)) a (fc_network c) of
        Err _ \<Rightarrow> False | Ok script \<Rightarrow> segwit_script (fc_native c) script)"

definition track_of :: "'n facts_context \<Rightarrow> btc_previous_output \<Rightarrow> btc_utxo_key list" where
  "track_of c p =
     (case po_address p of None \<Rightarrow> []
      | Some a \<Rightarrow> if a \<notin> fc_addresses c \<and> supported_address c a then [\<lparr>uk_address = a, uk_outpoint = po_outpoint p\<rparr>] else [])"

definition output_address :: "'n facts_context \<Rightarrow> btc_output_data \<Rightarrow> string option" where
  "output_address c output = from_script_for_network (fc_native c) (bd_script_pubkey output) (fc_network c)"

definition watched_output :: "'n facts_context \<Rightarrow> btc_output_data \<Rightarrow> bool" where
  "watched_output c output \<longleftrightarrow> (\<exists>a \<in> fc_addresses c. output_address c output = Some a)"

fun create_of :: "'n facts_context \<Rightarrow> nat \<times> btc_output_data \<Rightarrow> btc_indexed_output list" where
  "create_of c (i, output) =
     (case output_address c output of None \<Rightarrow> []
      | Some a \<Rightarrow> if a \<in> fc_addresses c then [created_output c i output a] else [])"

declare create_of.simps [simp del]

abbreviation spends_of :: "'n facts_context \<Rightarrow> btc_previous_output list \<Rightarrow> btc_utxo_key list" where
  "spends_of c ps \<equiv> concat (map (spend_of c) ps)"

abbreviation tracked_of :: "'n facts_context \<Rightarrow> btc_previous_output list \<Rightarrow> btc_utxo_key list" where
  "tracked_of c ps \<equiv> concat (map (track_of c) ps)"

abbreviation creates_of :: "'n facts_context \<Rightarrow> nat \<Rightarrow> btc_output_data list \<Rightarrow> btc_indexed_output list" where
  "creates_of c k outputs \<equiv> concat (map (create_of c) (enumerate k outputs))"

text \<open>The payer is the one owner of all inputs, when there is one.\<close>

definition common_owner :: "string option list \<Rightarrow> string option" where
  "common_owner owners = (case owners of [] \<Rightarrow> None | a # rest \<Rightarrow> if list_all (\<lambda>b. b = a) rest then a else None)"

fun payer_step :: "string option \<Rightarrow> string option \<times> bool \<Rightarrow> string option \<times> bool" where
  "payer_step (Some a) (None, ambiguous) = (if ambiguous then (None, True) else (Some a, False))"
| "payer_step (Some a) (Some current, ambiguous) = (Some current, ambiguous \<or> current \<noteq> a)"
| "payer_step None (current, ambiguous) = (current, True)"

abbreviation input_sum :: "btc_previous_output list \<Rightarrow> nat" where
  "input_sum ps \<equiv> sum_list (map (unat \<circ> po_value) ps)"

abbreviation output_sum :: "btc_output_data list \<Rightarrow> nat" where
  "output_sum outputs \<equiv> sum_list (map (unat \<circ> bd_value) outputs)"

definition resolved_inputs :: "btc_transaction \<Rightarrow> btc_previous_output list" where
  "resolved_inputs t = concat (map opt_list (bt_inputs t))"

definition spent_outpoints :: "btc_transaction \<Rightarrow> btc_outpoint list" where
  "spent_outpoints t = map po_outpoint (resolved_inputs t)"

text \<open>The interpretation of a transaction, with unbounded sums.\<close>

definition reading :: "'n facts_context \<Rightarrow> btc_transaction \<Rightarrow> btc_interpreted" where
  "reading c t =
     \<lparr>bi_movements = map (\<lambda>(i, p). input_movement c i p) (enumerate 0 (resolved_inputs t)) @
        map (\<lambda>(i, output). output_movement c i output) (enumerate 0 (bt_outputs t)),
      bi_fee = (if bt_coinbase t then None
        else Some \<lparr>nf_asset = BITCOIN_ASSET, nf_amount = decimal_new (int (input_sum (resolved_inputs t) - output_sum (bt_outputs t))) 0,
          nf_payer = map_option (canonical_btc_address (fc_scope c)) (common_owner (map po_address (resolved_inputs t)))\<rparr>),
      bi_relevant = ((\<exists>p \<in> set (resolved_inputs t). watched_input c p) \<or> (\<exists>output \<in> set (bt_outputs t). watched_output c output)),
      bi_creates = creates_of c 0 (bt_outputs t), bi_spends = spends_of c (resolved_inputs t),
      bi_tracked_spends = tracked_of c (resolved_inputs t)\<rparr>"

lemma record_payer_step:
  "record_payer a f = f\<lparr>tf_payer := fst (payer_step a (tf_payer f, tf_ambiguous_payer f)),
     tf_ambiguous_payer := snd (payer_step a (tf_payer f, tf_ambiguous_payer f))\<rparr>"
  by (cases "tf_payer f"; cases a; cases f) (auto simp: record_payer_def)

lemma payer_fold_some:
  "fold payer_step owners (Some a, ambiguous) = (Some a, ambiguous \<or> \<not> list_all (\<lambda>b. b = Some a) owners)"
proof (induction owners arbitrary: ambiguous)
  case (Cons b owners)
  then show ?case by (cases b) auto
qed simp

lemma payer_fold_ambiguous: "snd (fold payer_step owners (None, True))"
proof (induction owners)
  case (Cons b owners)
  then show ?case by (cases b) auto
qed simp

lemma common_owner_fold:
  "(if snd (fold payer_step owners (None, False)) then None else fst (fold payer_step owners (None, False))) = common_owner owners"
proof (cases owners)
  case (Cons b rest)
  then show ?thesis
    using payer_fold_ambiguous by (cases b) (auto simp: common_owner_def payer_fold_some)
qed (simp add: common_owner_def)

lemma record_spend_Ok:
  "record_spend c p f = Ok f' \<Longrightarrow>
     f' = f\<lparr>tf_relevant := (tf_relevant f \<or> watched_input c p), tf_spends := tf_spends f @ spend_of c p,
             tf_tracked_spends := tf_tracked_spends f @ track_of c p\<rparr>"
  by (cases f; cases "po_address p")
     (auto simp: record_spend_def Let_def result_simps watched_input_def spend_of_def track_of_def supported_address_def
       split: if_splits)

text \<open>What reading inputs adds to the facts.\<close>

definition inputs_read :: "'n facts_context \<Rightarrow> nat \<Rightarrow> btc_previous_output list \<Rightarrow> transaction_facts \<Rightarrow> transaction_facts \<Rightarrow> bool" where
  "inputs_read c k ps f f' \<longleftrightarrow>
     unat (tf_input_total f') = unat (tf_input_total f) + input_sum ps \<and>
     tf_movements f' = tf_movements f @ map (\<lambda>(i, p). input_movement c i p) (enumerate k ps) \<and>
     (tf_payer f', tf_ambiguous_payer f') = fold payer_step (map po_address ps) (tf_payer f, tf_ambiguous_payer f) \<and>
     (tf_relevant f' \<longleftrightarrow> tf_relevant f \<or> (\<exists>p \<in> set ps. watched_input c p)) \<and>
     tf_spends f' = tf_spends f @ spends_of c ps \<and> tf_tracked_spends f' = tf_tracked_spends f @ tracked_of c ps \<and>
     tf_output_total f' = tf_output_total f \<and> tf_creates f' = tf_creates f"

lemma inputs_read_Nil: "inputs_read c k [] f f"
  by (simp add: inputs_read_def)

lemma inputs_read_Cons:
  assumes "inputs_read c k [p] f f1" "inputs_read c (Suc k) ps f1 f2"
  shows "inputs_read c k (p # ps) f f2"
  using assms by (auto simp: inputs_read_def)

lemma previous_output_Ok:
  "previous_output c p k spent f = Ok (f', spent') \<Longrightarrow>
     inputs_read c k [p] f f' \<and> po_outpoint p \<notin> spent \<and> spent' = insert (po_outpoint p) spent"
  by (auto simp: previous_output_def Let_def result_simps inputs_read_def record_payer_step width_simps dest!: record_spend_Ok)

lemma facts_inputs_Ok:
  assumes "facts_inputs c k inputs spent f = Ok (f', spent')" "\<not> fc_coinbase c"
  shows "\<exists>ps. inputs = map Some ps \<and> inputs_read c k ps f f' \<and> distinct (map po_outpoint ps) \<and>
    set (map po_outpoint ps) \<inter> spent = {} \<and> spent' = spent \<union> set (map po_outpoint ps)"
  using assms
proof (induction inputs arbitrary: k spent f)
  case Nil
  then show ?case using inputs_read_Nil by (auto intro: exI [of _ "[]"])
next
  case (Cons x inputs)
  from Cons.prems obtain p f1 where p: "x = Some p" "previous_output c p k spent f = Ok (f1, insert (po_outpoint p) spent)"
      "facts_inputs c (k + 1) inputs (insert (po_outpoint p) spent) f1 = Ok (f', spent')"
    by (auto simp: facts_input_def result_simps dest: previous_output_Ok split: option.splits)
  from Cons.IH [OF p(3) Cons.prems(2)] obtain ps where "inputs = map Some ps" "inputs_read c (Suc k) ps f1 f'"
      "distinct (map po_outpoint ps)" "set (map po_outpoint ps) \<inter> insert (po_outpoint p) spent = {}"
      "spent' = insert (po_outpoint p) spent \<union> set (map po_outpoint ps)" by auto
  moreover from previous_output_Ok [OF p(2)] have "inputs_read c k [p] f f1" "po_outpoint p \<notin> spent" by auto
  ultimately show ?case using p(1) inputs_read_Cons
    by (intro exI [of _ "p # ps"]) (auto simp: image_iff)
qed

lemma facts_inputs_coinbase:
  "facts_inputs c k inputs spent f = Ok (f', spent') \<Longrightarrow> fc_coinbase c \<Longrightarrow>
     f' = f \<and> spent' = spent \<and> (\<forall>x \<in> set inputs. x = None)"
  by (induction inputs arbitrary: k spent f) (auto simp: facts_input_def result_simps split: option.splits)

definition outputs_read :: "'n facts_context \<Rightarrow> nat \<Rightarrow> btc_output_data list \<Rightarrow> transaction_facts \<Rightarrow> transaction_facts \<Rightarrow> bool" where
  "outputs_read c k outputs f f' \<longleftrightarrow>
     unat (tf_output_total f') = unat (tf_output_total f) + output_sum outputs \<and>
     tf_movements f' = tf_movements f @ map (\<lambda>(i, output). output_movement c i output) (enumerate k outputs) \<and>
     (tf_relevant f' \<longleftrightarrow> tf_relevant f \<or> (\<exists>output \<in> set outputs. watched_output c output)) \<and>
     tf_creates f' = tf_creates f @ creates_of c k outputs \<and>
     tf_input_total f' = tf_input_total f \<and> tf_payer f' = tf_payer f \<and> tf_ambiguous_payer f' = tf_ambiguous_payer f \<and>
     tf_spends f' = tf_spends f \<and> tf_tracked_spends f' = tf_tracked_spends f"

lemma facts_output_Ok:
  assumes "facts_output c out k f = Ok f'"
  shows "outputs_read c k [out] f f'"
proof -
  obtain sum1 where sum1: "checked_add (tf_output_total f) (bd_value out) = Some sum1"
    using assms by (cases "checked_add (tf_output_total f) (bd_value out)") (simp_all add: facts_output_def)
  note read = facts_output_def Let_def outputs_read_def create_of.simps watched_output_def output_address_def
  show ?thesis
  proof (cases "output_address c out")
    case None
    then show ?thesis using assms sum1 sum1 [unfolded checked_add_SomeD] by (auto simp: read)
  next
    case (Some a)
    show ?thesis
    proof (cases "a \<in> fc_addresses c")
      case True
      with Some show ?thesis
        using assms sum1 sum1 [unfolded checked_add_SomeD] by (cases "k \<ge> 2 ^ 32") (auto simp: read)
    next
      case False
      with Some show ?thesis using assms sum1 sum1 [unfolded checked_add_SomeD] by (auto simp: read)
    qed
  qed
qed

lemma facts_outputs_Ok: "facts_outputs c k outputs f = Ok f' \<Longrightarrow> outputs_read c k outputs f f'"
proof (induction outputs arbitrary: k f)
  case Nil
  then show ?case by (simp add: outputs_read_def)
next
  case (Cons out outputs)
  then obtain f1 where "facts_output c out k f = Ok f1" "facts_outputs c (k + 1) outputs f1 = Ok f'"
    by (auto simp: result_simps)
  with facts_output_Ok Cons.IH have "outputs_read c k [out] f f1" "outputs_read c (Suc k) outputs f1 f'" by fastforce+
  then show ?case by (auto simp: outputs_read_def)
qed

lemma facts_finish_Ok:
  assumes "facts_finish c f = Ok r"
  shows "bi_movements r = tf_movements f" "bi_relevant r = tf_relevant f" "bi_creates r = tf_creates f"
    "bi_spends r = tf_spends f" "bi_tracked_spends r = tf_tracked_spends f"
    "fc_coinbase c \<Longrightarrow> bi_fee r = None"
    "\<not> fc_coinbase c \<Longrightarrow> \<exists>amount. unat (tf_input_total f) = unat (tf_output_total f) + unat amount \<and>
       bi_fee r = Some \<lparr>nf_asset = BITCOIN_ASSET, nf_amount = from_u64 amount,
         nf_payer = map_option (canonical_btc_address (fc_scope c)) (if tf_ambiguous_payer f then None else tf_payer f)\<rparr>"
  using assms by (auto simp: facts_finish_def result_simps width_simps split: if_splits)

lemma interpret_transaction_Ok:
  assumes "interpret_transaction ni scope network addresses height t spent = Ok (r, spent')"
  shows "r = reading (facts_context_of ni scope network addresses height t) t \<and>
    (if bt_coinbase t then resolved_inputs t = [] else bt_inputs t = map Some (resolved_inputs t)) \<and>
    (bt_coinbase t \<or> output_sum (bt_outputs t) \<le> input_sum (resolved_inputs t) \<and> input_sum (resolved_inputs t) < 2 ^ 64) \<and>
    distinct (spent_outpoints t) \<and> set (spent_outpoints t) \<inter> spent = {} \<and> spent' = spent \<union> set (spent_outpoints t)"
proof -
  let ?c = "facts_context_of ni scope network addresses height t"
  from assms obtain f f1 f2 where f: "facts_new t = Ok f" "facts_inputs ?c 0 (bt_inputs t) spent f = Ok (f1, spent')"
      "facts_outputs ?c 0 (bt_outputs t) f1 = Ok f2" "facts_finish ?c f2 = Ok r"
    by (auto simp: interpret_transaction_def Let_def result_simps)
  have f0: "f = \<lparr>tf_movements = [], tf_relevant = False, tf_input_total = 0, tf_output_total = 0, tf_payer = None,
      tf_ambiguous_payer = False, tf_creates = [], tf_spends = [], tf_tracked_spends = []\<rparr>"
    using f(1) by (simp add: facts_new_def result_simps)
  note out = facts_outputs_Ok [OF f(3)]
  have c: "fc_coinbase ?c = bt_coinbase t" "fc_scope ?c = scope" by (simp_all add: facts_context_of_def)
  show ?thesis
  proof (cases "bt_coinbase t")
    case True
    with facts_inputs_coinbase [OF f(2)] c have same: "f1 = f" "spent' = spent" "\<forall>x \<in> set (bt_inputs t). x = None" by auto
    from same(3) have none: "resolved_inputs t = []" by (auto simp: resolved_inputs_def opt_list_def)
    have "r = reading ?c t"
      using facts_finish_Ok [OF f(4)] out True c unfolding same(1) f0
      by (intro btc_interpreted.equality) (simp_all add: outputs_read_def reading_def none)
    with True same(2) none show ?thesis by (simp add: spent_outpoints_def)
  next
    case False
    with facts_inputs_Ok [OF f(2)] c obtain ps where ps: "bt_inputs t = map Some ps" "inputs_read ?c 0 ps f f1"
        "distinct (map po_outpoint ps)" "set (map po_outpoint ps) \<inter> spent = {}" "spent' = spent \<union> set (map po_outpoint ps)" by auto
    have res: "resolved_inputs t = ps" by (simp add: resolved_inputs_def ps(1) comp_def opt_list_def)
    have sums: "unat (tf_input_total f2) = input_sum ps" "unat (tf_output_total f2) = output_sum (bt_outputs t)"
      using ps(2) out f0 by (auto simp: inputs_read_def outputs_read_def)
    obtain amount where amount: "unat (tf_input_total f2) = unat (tf_output_total f2) + unat amount"
        "bi_fee r = Some \<lparr>nf_asset = BITCOIN_ASSET, nf_amount = from_u64 amount,
           nf_payer = map_option (canonical_btc_address scope) (if tf_ambiguous_payer f2 then None else tf_payer f2)\<rparr>"
      using facts_finish_Ok(7) [OF f(4)] False c by auto
    have "fold payer_step (map po_address ps) (None, False) = (tf_payer f2, tf_ambiguous_payer f2)"
      using ps(2) out by (simp add: f0 inputs_read_def outputs_read_def)
    then have payer: "(if tf_ambiguous_payer f2 then None else tf_payer f2) = common_owner (map po_address ps)"
      using common_owner_fold [of "map po_address ps"] by (simp split: if_splits)
    have "unat amount = input_sum ps - output_sum (bt_outputs t)" using amount(1) sums by simp
    then have "bi_fee r = bi_fee (reading ?c t)"
      unfolding amount(2) payer using False c by (simp add: reading_def res from_u64_def)
    then have "r = reading ?c t"
      using facts_finish_Ok(1-5) [OF f(4)] ps(2) out
      by (intro btc_interpreted.equality) (simp_all add: f0 inputs_read_def outputs_read_def reading_def res)
    moreover have "input_sum ps < 2 ^ 64" using sums(1) unat_less [of "tf_input_total f2"] by simp
    ultimately show ?thesis using False ps sums amount(1) res by (simp add: spent_outpoints_def)
  qed
qed


section \<open>What a block means\<close>

text \<open>
  The unspent outputs as a map from outpoints. A transaction adds the outputs that pay a watched address
  and takes away the outputs it spends, as far as the index may hold them.
\<close>

type_synonym utxos = "btc_outpoint \<rightharpoonup> btc_indexed_output"

definition remove_outpoints :: "btc_outpoint list \<Rightarrow> utxos \<Rightarrow> utxos" where
  "remove_outpoints ps U = (\<lambda>p. if p \<in> set ps then None else U p)"

definition add_outputs_to :: "btc_indexed_output list \<Rightarrow> utxos \<Rightarrow> utxos" where
  "add_outputs_to os U = fold (\<lambda>o1 U. U(bx_outpoint o1 \<mapsto> o1)) os U"

definition utxo_step :: "'n facts_context \<Rightarrow> btc_transaction \<Rightarrow> utxos \<Rightarrow> utxos" where
  "utxo_step c t U =
     remove_outpoints (map uk_outpoint (spends_of c (resolved_inputs t) @ tracked_of c (resolved_inputs t)))
       (add_outputs_to (creates_of c 0 (bt_outputs t)) U)"

text \<open>The net changes of a block applied at once.\<close>

definition apply_outputs :: "btc_outputs \<Rightarrow> utxos \<Rightarrow> utxos" where
  "apply_outputs os U =
     remove_outpoints (map fst (ou_spends os) @ map fst (ou_tracked_spends os)) U ++ map_of (ou_creates os)"

text \<open>The invariant of the collected outputs: the created ones are new, spent ones were recorded.\<close>

definition outputs_inv :: "utxos \<Rightarrow> block_height \<Rightarrow> btc_outputs \<Rightarrow> bool" where
  "outputs_inv U height os \<longleftrightarrow>
     distinct (map fst (ou_creates os)) \<and> distinct (map fst (ou_spends os)) \<and> distinct (map fst (ou_tracked_spends os)) \<and>
     (\<forall>(p, o1) \<in> set (ou_creates os). bx_outpoint o1 = p \<and> U p = None \<and> bx_created_height o1 = height) \<and>
     (\<forall>(p, k) \<in> set (ou_spends os) \<union> set (ou_tracked_spends os). uk_outpoint k = p)"

lemma update_new: "map_of xs k = None \<Longrightarrow> AList.update k v xs = xs @ [(k, v)]"
  by (induction xs) (auto split: if_splits)

lemma each_append: "each step (xs @ ys) s = and_then (each step xs s) (\<lambda>s. each step ys s)"
proof (induction xs arbitrary: s)
  case (Cons x xs)
  then show ?case by (cases "step x s") simp_all
qed simp

lemma each_induct:
  assumes "each step xs s = Ok s'" "P [] s"
    "\<And>ys x zs s s'. xs = ys @ x # zs \<Longrightarrow> P ys s \<Longrightarrow> step x s = Ok s' \<Longrightarrow> P (ys @ [x]) s'"
  shows "P xs s'"
  using assms
proof (induction xs arbitrary: s' rule: rev_induct)
  case (snoc x xs)
  from snoc.prems(1) obtain s1 where s1: "each step xs s = Ok s1" "step x s1 = Ok s'"
    by (auto simp: each_append result_simps)
  have "P xs s1"
    by (rule snoc.IH [OF s1(1) snoc.prems(2)]) (use snoc.prems(3) in \<open>metis append.assoc append_Cons\<close>)
  with snoc.prems(3) s1(2) show ?case by blast
qed simp

lemma outputs_create_Ok:
  assumes "outputs_create o1 os = Ok os'" "outputs_inv U height os" "U (bx_outpoint o1) = None" "bx_created_height o1 = height"
  shows "outputs_inv U height os' \<and> apply_outputs os' U = (apply_outputs os U)(bx_outpoint o1 \<mapsto> o1)"
proof -
  from assms(1) have new: "map_of (ou_creates os) (bx_outpoint o1) = None"
      "os' = os\<lparr>ou_creates := AList.update (bx_outpoint o1) o1 (ou_creates os)\<rparr>"
    by (auto simp: outputs_create_def result_simps)
  then have "os' = os\<lparr>ou_creates := ou_creates os @ [(bx_outpoint o1, o1)]\<rparr>" by (simp add: update_new)
  with assms(2-4) new(1) have "outputs_inv U height os'"
    by (auto simp: outputs_inv_def map_of_eq_None_iff)
  moreover have "apply_outputs os' U = (apply_outputs os U)(bx_outpoint o1 \<mapsto> o1)"
    using new(2) by (simp add: apply_outputs_def update_conv')
  ultimately show ?thesis ..
qed

text \<open>A spend takes the output away, whether it was there before the block or created in it.\<close>

lemma creates_delete:
  assumes "outputs_inv U height os" "map_of (ou_creates os) p \<noteq> None" "os' = os\<lparr>ou_creates := AList.delete p (ou_creates os)\<rparr>"
  shows "outputs_inv U height os' \<and> apply_outputs os' U = (apply_outputs os U)(p := None)"
proof -
  have "U p = None" using assms(1,2) by (auto simp: outputs_inv_def dest!: map_of_SomeD)
  then have "apply_outputs os' U = (apply_outputs os U)(p := None)"
    using assms(3) by (auto simp: apply_outputs_def remove_outpoints_def delete_conv' map_add_def fun_eq_iff split: option.splits)
  moreover have "set (AList.delete p (ou_creates os)) \<subseteq> set (ou_creates os)" by (auto simp: AList.delete_eq)
  then have "outputs_inv U height os'"
    using assms(1,3) by (auto simp: outputs_inv_def distinct_delete)
  ultimately show ?thesis by simp
qed

lemma outputs_spend_Ok:
  assumes "outputs_spend k os = Ok os'" "outputs_inv U height os"
  shows "outputs_inv U height os' \<and> apply_outputs os' U = (apply_outputs os U)(uk_outpoint k := None)"
proof (cases "map_of (ou_creates os) (uk_outpoint k)")
  case None
  then have new: "map_of (ou_spends os) (uk_outpoint k) = None" "os' = os\<lparr>ou_spends := ou_spends os @ [(uk_outpoint k, k)]\<rparr>"
    using assms(1) by (auto simp: outputs_spend_def result_simps update_new)
  have "apply_outputs os' U = (apply_outputs os U)(uk_outpoint k := None)"
    using None new(2) by (auto simp: apply_outputs_def remove_outpoints_def map_add_def fun_eq_iff split: option.splits)
  moreover have "outputs_inv U height os'" using new assms(2) by (auto simp: outputs_inv_def map_of_eq_None_iff)
  ultimately show ?thesis by simp
next
  case (Some o1)
  then show ?thesis using creates_delete [OF assms(2), of "uk_outpoint k" os'] assms(1) by (simp add: outputs_spend_def)
qed

lemma outputs_track_Ok:
  assumes "outputs_track k os = Ok os'" "outputs_inv U height os"
  shows "outputs_inv U height os' \<and> apply_outputs os' U = (apply_outputs os U)(uk_outpoint k := None)"
proof (cases "map_of (ou_creates os) (uk_outpoint k)")
  case None
  then have new: "map_of (ou_tracked_spends os) (uk_outpoint k) = None"
      "os' = os\<lparr>ou_tracked_spends := ou_tracked_spends os @ [(uk_outpoint k, k)]\<rparr>"
    using assms(1) by (auto simp: outputs_track_def result_simps update_new)
  have "apply_outputs os' U = (apply_outputs os U)(uk_outpoint k := None)"
    using None new(2) by (auto simp: apply_outputs_def remove_outpoints_def map_add_def fun_eq_iff split: option.splits)
  moreover have "outputs_inv U height os'" using new assms(2) by (auto simp: outputs_inv_def map_of_eq_None_iff)
  ultimately show ?thesis by simp
next
  case (Some o1)
  then show ?thesis using creates_delete [OF assms(2), of "uk_outpoint k" os'] assms(1) by (simp add: outputs_track_def)
qed

lemma remove_outpoints_snoc: "remove_outpoints (ps @ [p]) U = (remove_outpoints ps U)(p := None)"
  by (auto simp: remove_outpoints_def)

lemma remove_outpoints_append: "remove_outpoints (ps @ qs) U = remove_outpoints qs (remove_outpoints ps U)"
  by (auto simp: remove_outpoints_def)

lemma each_create:
  assumes "each outputs_create news os = Ok os'" "outputs_inv U height os"
    "\<And>o1. o1 \<in> set news \<Longrightarrow> U (bx_outpoint o1) = None \<and> bx_created_height o1 = height"
  shows "outputs_inv U height os' \<and> apply_outputs os' U = add_outputs_to news (apply_outputs os U)"
  using assms(1)
  by (rule each_induct) (use assms(2,3) outputs_create_Ok in \<open>auto simp: add_outputs_to_def\<close>)

lemma each_spend:
  assumes "each outputs_spend ks os = Ok os'" "outputs_inv U height os"
  shows "outputs_inv U height os' \<and> apply_outputs os' U = remove_outpoints (map uk_outpoint ks) (apply_outputs os U)"
  using assms(1)
  by (rule each_induct) (use assms(2) outputs_spend_Ok in \<open>auto simp: remove_outpoints_snoc\<close>, simp add: remove_outpoints_def)

lemma each_track:
  assumes "each outputs_track ks os = Ok os'" "outputs_inv U height os"
  shows "outputs_inv U height os' \<and> apply_outputs os' U = remove_outpoints (map uk_outpoint ks) (apply_outputs os U)"
  using assms(1)
  by (rule each_induct) (use assms(2) outputs_track_Ok in \<open>auto simp: remove_outpoints_snoc\<close>, simp add: remove_outpoints_def)

lemma creates_of_facts:
  "o1 \<in> set (creates_of c k outputs) \<Longrightarrow>
     fst (bx_outpoint o1) = fc_transaction_id c \<and> bx_created_height o1 = fc_block_height c"
  by (auto simp: create_of.simps created_output_def split: option.splits if_splits)

lemma collect_outputs_Ok:
  assumes "collect_outputs (reading c t) os = Ok os'" "outputs_inv U (fc_block_height c) os"
    "\<And>i. U (fc_transaction_id c, i) = None"
  shows "outputs_inv U (fc_block_height c) os' \<and> apply_outputs os' U = utxo_step c t (apply_outputs os U)"
proof -
  from assms(1) obtain os1 os2 where steps: "each outputs_create (creates_of c 0 (bt_outputs t)) os = Ok os1"
      "each outputs_spend (spends_of c (resolved_inputs t)) os1 = Ok os2" "each outputs_track (tracked_of c (resolved_inputs t)) os2 = Ok os'"
    by (auto simp: collect_outputs_def reading_def result_simps)
  have "U (bx_outpoint o1) = None \<and> bx_created_height o1 = fc_block_height c" if "o1 \<in> set (creates_of c 0 (bt_outputs t))" for o1
    using creates_of_facts [OF that] assms(3) by (cases "bx_outpoint o1") auto
  note one = each_create [OF steps(1) assms(2) this]
  note two = each_spend [OF steps(2) conjunct1 [OF one]]
  from each_track [OF steps(3) conjunct1 [OF two]] two one
  show ?thesis by (simp add: utxo_step_def remove_outpoints_append)
qed

abbreviation block_context :: "'n native_indexing \<Rightarrow> btc_interpreter \<Rightarrow> string set \<Rightarrow> block_height \<Rightarrow> btc_transaction \<Rightarrow> 'n facts_context" where
  "block_context ni i addresses height t \<equiv> facts_context_of ni (in_scope i) (in_network i) addresses height t"

lemma inspect_transactions_Cons:
  assumes "inspect_transactions ni i addresses height (t # ts) drafts os spent = Ok (drafts', os')"
  obtains os1 where "collect_outputs (reading (block_context ni i addresses height t) t) os = Ok os1"
    "inspect_transactions ni i addresses height ts
       (if bi_relevant (reading (block_context ni i addresses height t) t)
        then drafts @ [draft_of ni (in_scope i) t (reading (block_context ni i addresses height t) t)] else drafts)
       os1 (spent \<union> set (spent_outpoints t)) = Ok (drafts', os')"
    "distinct (spent_outpoints t)" "set (spent_outpoints t) \<inter> spent = {}"
  using assms by (auto simp: result_simps dest!: interpret_transaction_Ok)

lemma inspect_transactions_outputs:
  assumes "inspect_transactions ni i addresses height ts drafts os spent = Ok (drafts', os')" "outputs_inv U height os"
    "\<And>t j. t \<in> set ts \<Longrightarrow> U (bt_id t, j) = None"
  shows "outputs_inv U height os' \<and>
    apply_outputs os' U = fold (\<lambda>t. utxo_step (block_context ni i addresses height t) t) ts (apply_outputs os U)"
  using assms
proof (induction ts arbitrary: drafts os spent)
  case (Cons t ts)
  let ?c = "block_context ni i addresses height t"
  from Cons.prems(1) obtain os1 where step: "collect_outputs (reading ?c t) os = Ok os1"
      "inspect_transactions ni i addresses height ts
         (if bi_relevant (reading ?c t) then drafts @ [draft_of ni (in_scope i) t (reading ?c t)] else drafts)
         os1 (spent \<union> set (spent_outpoints t)) = Ok (drafts', os')"
    by (rule inspect_transactions_Cons)
  have c: "fc_block_height ?c = height" "fc_transaction_id ?c = bt_id t" by (simp_all add: facts_context_of_def)
  have "outputs_inv U height os1 \<and> apply_outputs os1 U = utxo_step ?c t (apply_outputs os U)"
    using collect_outputs_Ok [OF step(1), of U] Cons.prems(2,3) c by simp
  with Cons.IH [OF step(2)] Cons.prems(3) show ?case by simp
qed simp

lemma inspect_transactions_drafts:
  assumes "inspect_transactions ni i addresses height ts drafts os spent = Ok (drafts', os')"
  shows "drafts' = drafts @ map (\<lambda>t. draft_of ni (in_scope i) t (reading (block_context ni i addresses height t) t))
    (filter (\<lambda>t. bi_relevant (reading (block_context ni i addresses height t) t)) ts)"
  using assms
proof (induction ts arbitrary: drafts os spent)
  case (Cons t ts)
  let ?c = "block_context ni i addresses height t"
  from Cons.prems obtain os1 where
      "inspect_transactions ni i addresses height ts
         (if bi_relevant (reading ?c t) then drafts @ [draft_of ni (in_scope i) t (reading ?c t)] else drafts)
         os1 (spent \<union> set (spent_outpoints t)) = Ok (drafts', os')"
    by (rule inspect_transactions_Cons)
  from Cons.IH [OF this] show ?case by simp
qed simp


section \<open>What the index accepts\<close>

text \<open>Spent outputs are recorded once, and never together with a created output.\<close>

definition keys_of :: "('k \<times> 'v) list \<Rightarrow> 'k set" where
  "keys_of kvs = fst ` set kvs"

lemma keys_of_simps [simp]:
  "keys_of (AList.update k v kvs) = insert k (keys_of kvs)" "keys_of (AList.delete k kvs) = keys_of kvs - {k}"
  "map_of kvs k = None \<longleftrightarrow> k \<notin> keys_of kvs"
  using dom_update [of k v kvs] by (auto simp: keys_of_def AList.delete_eq image_iff map_of_eq_None_iff)

definition outputs_apart :: "btc_outpoint set \<Rightarrow> btc_outputs \<Rightarrow> bool" where
  "outputs_apart spent os \<longleftrightarrow>
     keys_of (ou_spends os) \<union> keys_of (ou_tracked_spends os) \<subseteq> spent \<and>
     keys_of (ou_spends os) \<inter> keys_of (ou_tracked_spends os) = {} \<and>
     keys_of (ou_creates os) \<inter> (keys_of (ou_spends os) \<union> keys_of (ou_tracked_spends os)) = {}"

lemma apart_create:
  assumes "outputs_create o1 os = Ok os'" "outputs_apart spent os" "bx_outpoint o1 \<notin> spent"
  shows "outputs_apart spent os'"
proof -
  have "os' = os\<lparr>ou_creates := AList.update (bx_outpoint o1) o1 (ou_creates os)\<rparr>"
    using assms(1) by (simp add: outputs_create_def result_simps)
  then show ?thesis using assms(2,3) unfolding outputs_apart_def by simp blast
qed

lemma apart_spend:
  assumes "outputs_spend k os = Ok os'" "outputs_apart spent os" "uk_outpoint k \<notin> spent"
  shows "outputs_apart (insert (uk_outpoint k) spent) os'"
proof (cases "uk_outpoint k \<in> keys_of (ou_creates os)")
  case True
  then have "os' = os\<lparr>ou_creates := AList.delete (uk_outpoint k) (ou_creates os)\<rparr>"
    using assms(1) by (simp add: outputs_spend_def del: not_None_eq)
  then show ?thesis using assms(2) unfolding outputs_apart_def by simp blast
next
  case False
  then have "os' = os\<lparr>ou_spends := AList.update (uk_outpoint k) k (ou_spends os)\<rparr>"
    using assms(1) by (simp add: outputs_spend_def result_simps del: not_None_eq)
  then show ?thesis using assms(2,3) False unfolding outputs_apart_def by simp blast
qed

lemma apart_track:
  assumes "outputs_track k os = Ok os'" "outputs_apart spent os" "uk_outpoint k \<notin> spent"
  shows "outputs_apart (insert (uk_outpoint k) spent) os'"
proof (cases "uk_outpoint k \<in> keys_of (ou_creates os)")
  case True
  then have "os' = os\<lparr>ou_creates := AList.delete (uk_outpoint k) (ou_creates os)\<rparr>"
    using assms(1) by (simp add: outputs_track_def del: not_None_eq)
  then show ?thesis using assms(2) unfolding outputs_apart_def by simp blast
next
  case False
  then have "os' = os\<lparr>ou_tracked_spends := AList.update (uk_outpoint k) k (ou_tracked_spends os)\<rparr>"
    using assms(1) by (simp add: outputs_track_def result_simps del: not_None_eq)
  then show ?thesis using assms(2,3) False unfolding outputs_apart_def by simp blast
qed

lemma apart_each:
  assumes "each step ks os = Ok os'" "outputs_apart spent os" "distinct (map uk_outpoint ks)" "set (map uk_outpoint ks) \<inter> spent = {}"
    and "\<And>k os os' spent. step k os = Ok os' \<Longrightarrow> outputs_apart spent os \<Longrightarrow> uk_outpoint k \<notin> spent \<Longrightarrow>
      outputs_apart (insert (uk_outpoint k) spent) os'"
  shows "outputs_apart (spent \<union> set (map uk_outpoint ks)) os'"
  using assms(1)
proof (rule each_induct)
  show "outputs_apart (spent \<union> set (map uk_outpoint [])) os" using assms(2) by simp
next
  fix ys x zs s s'
  assume "ks = ys @ x # zs" "outputs_apart (spent \<union> set (map uk_outpoint ys)) s" "step x s = Ok s'"
  then show "outputs_apart (spent \<union> set (map uk_outpoint (ys @ [x]))) s'"
    using assms(3,4) assms(5) [of x s s' "spent \<union> set (map uk_outpoint ys)"] by auto
qed

lemma apart_spends:
  assumes "each outputs_spend ks os = Ok os'" "outputs_apart spent os" "distinct (map uk_outpoint ks)" "uk_outpoint ` set ks \<inter> spent = {}"
  shows "outputs_apart (spent \<union> uk_outpoint ` set ks) os'"
  using apart_each [OF assms(1-3)] assms(4) apart_spend by simp

lemma apart_tracks:
  assumes "each outputs_track ks os = Ok os'" "outputs_apart spent os" "distinct (map uk_outpoint ks)" "uk_outpoint ` set ks \<inter> spent = {}"
  shows "outputs_apart (spent \<union> uk_outpoint ` set ks) os'"
  using apart_each [OF assms(1-3)] assms(4) apart_track by simp

text \<open>An input is recorded at most once.\<close>

lemma spend_cases:
  obtains "spend_of c p = []" "track_of c p = []"
  | k where "spend_of c p = [k]" "track_of c p = []" "uk_outpoint k = po_outpoint p"
  | k where "spend_of c p = []" "track_of c p = [k]" "uk_outpoint k = po_outpoint p"
proof (cases "po_address p")
  case None
  then show ?thesis using that(1) by (simp add: spend_of_def track_of_def)
next
  case (Some a)
  let ?k = "\<lparr>uk_address = a, uk_outpoint = po_outpoint p\<rparr>"
  show ?thesis
    by (cases "a \<in> fc_addresses c"; cases "supported_address c a")
       (use Some that(1) that(2) [of ?k] that(3) [of ?k] in \<open>simp_all add: spend_of_def track_of_def\<close>)
qed

lemma recorded_subset:
  "uk_outpoint ` set (spends_of c ps) \<subseteq> po_outpoint ` set ps" "uk_outpoint ` set (tracked_of c ps) \<subseteq> po_outpoint ` set ps"
  by (auto simp: spend_of_def track_of_def split: option.splits if_splits)

lemma recorded_once:
  assumes "distinct (map po_outpoint ps)"
  shows "distinct (map uk_outpoint (spends_of c ps)) \<and> distinct (map uk_outpoint (tracked_of c ps)) \<and>
    uk_outpoint ` set (spends_of c ps) \<inter> uk_outpoint ` set (tracked_of c ps) = {}"
  using assms
proof (induction ps)
  case (Cons p ps)
  note sub = recorded_subset [of c ps]
  show ?case
    by (rule spend_cases [of c p]) (use Cons sub in \<open>auto simp del: set_concat\<close>)
qed simp

lemma collect_outputs_apart:
  assumes "collect_outputs (reading c t) os = Ok os'" "outputs_apart spent os" "distinct (spent_outpoints t)"
    "set (spent_outpoints t) \<inter> spent = {}" "fc_transaction_id c \<notin> fst ` spent"
  shows "outputs_apart (spent \<union> set (spent_outpoints t)) os'"
proof -
  let ?spends = "spends_of c (resolved_inputs t)" and ?tracked = "tracked_of c (resolved_inputs t)"
  from assms(1) obtain os1 os2 where steps: "each outputs_create (creates_of c 0 (bt_outputs t)) os = Ok os1"
      "each outputs_spend ?spends os1 = Ok os2" "each outputs_track ?tracked os2 = Ok os'"
    by (auto simp: collect_outputs_def reading_def result_simps)
  have new: "bx_outpoint o1 \<notin> spent" if "o1 \<in> set (creates_of c 0 (bt_outputs t))" for o1
    using creates_of_facts [OF that] assms(5) by (metis image_eqI)
  have "outputs_apart spent os1"
    using steps(1) by (rule each_induct) (use assms(2) new apart_create in \<open>auto simp del: set_concat\<close>)
  have once: "distinct (map uk_outpoint ?spends)" "distinct (map uk_outpoint ?tracked)"
      "uk_outpoint ` set ?spends \<inter> uk_outpoint ` set ?tracked = {}"
    using recorded_once [of "resolved_inputs t" c] assms(3) by (simp_all add: spent_outpoints_def)
  have sub: "uk_outpoint ` set ?spends \<subseteq> set (spent_outpoints t)" "uk_outpoint ` set ?tracked \<subseteq> set (spent_outpoints t)"
    using recorded_subset [of c "resolved_inputs t"] by (simp_all add: spent_outpoints_def)
  have "outputs_apart (spent \<union> uk_outpoint ` set ?spends) os2"
    using sub(1) assms(4) by (intro apart_spends [OF steps(2) \<open>outputs_apart spent os1\<close> once(1)]) blast
  then have "outputs_apart (spent \<union> uk_outpoint ` set ?spends \<union> uk_outpoint ` set ?tracked) os'"
    using sub(2) once(3) assms(4) by (intro apart_tracks [OF steps(3) _ once(2)]) blast+
  then show ?thesis using sub unfolding outputs_apart_def by blast
qed

text \<open>No transaction is spent from before it appears in the block.\<close>

definition spends_follow :: "btc_transaction list \<Rightarrow> bool" where
  "spends_follow ts \<longleftrightarrow> sorted_wrt (\<lambda>earlier t. bt_id t \<notin> fst ` set (spent_outpoints earlier)) ts"

lemma inspect_transactions_apart:
  assumes "inspect_transactions ni i addresses height ts drafts os spent = Ok (drafts', os')" "outputs_apart spent os"
    "spends_follow ts" "\<And>t. t \<in> set ts \<Longrightarrow> bt_id t \<notin> fst ` spent"
  shows "\<exists>spent'. outputs_apart spent' os'"
  using assms
proof (induction ts arbitrary: drafts os spent)
  case (Cons t ts)
  let ?c = "block_context ni i addresses height t"
  from Cons.prems(1) obtain os1 where step: "collect_outputs (reading ?c t) os = Ok os1"
      "inspect_transactions ni i addresses height ts
         (if bi_relevant (reading ?c t) then drafts @ [draft_of ni (in_scope i) t (reading ?c t)] else drafts)
         os1 (spent \<union> set (spent_outpoints t)) = Ok (drafts', os')"
      "distinct (spent_outpoints t)" "set (spent_outpoints t) \<inter> spent = {}"
    by (rule inspect_transactions_Cons)
  have "outputs_apart (spent \<union> set (spent_outpoints t)) os1"
    using collect_outputs_apart [OF step(1) Cons.prems(2) step(3,4)] Cons.prems(4) by (simp add: facts_context_of_def)
  from Cons.IH [OF step(2) this] Cons.prems(3,4) show ?case by (auto simp: spends_follow_def image_Un)
qed auto

lemma into_values_keys:
  assumes "\<forall>(p, v) \<in> set kvs. g v = p"
  shows "map g (into_values kvs) = map fst (sort_key fst kvs)"
  using assms by (auto simp: into_values_def)

lemma into_values_distinct:
  assumes "\<forall>(p, v) \<in> set kvs. g v = p" "distinct (map fst kvs)" "inj h"
  shows "distinct (map (h \<circ> g) (into_values kvs))"
proof -
  have "distinct (map g (into_values kvs))"
    using assms(2) by (simp add: into_values_keys [OF assms(1)] distinct_map)
  then show ?thesis using assms(3) by (simp add: distinct_map comp_inj_on inj_on_subset)
qed

lemma set_into_values: "set (into_values kvs) = snd ` set kvs"
  by (simp add: into_values_def)


lemma canonical_outpoint_inject:
  "inj (nb_display_txid (ni_native ni)) \<Longrightarrow> inj (canonical_outpoint ni scope)"
  by (auto simp: inj_def canonical_outpoint_def canonical_btc_id_def)

lemma canonical_changes_ok:
  assumes "outputs_inv U height os" "outputs_apart spent os" "inj (nb_display_txid (ni_native ni))" "sc_chain scope = BITCOIN_CHAIN_ID"
  shows "changes_ok scope height (outputs_canonical ni scope os)"
proof -
  let ?h = "canonical_outpoint ni scope"
  note inj = canonical_outpoint_inject [OF assms(3), of scope]
  have creates: "\<forall>(p, o1) \<in> set (ou_creates os). bx_outpoint o1 = p" and spends: "\<forall>(p, k) \<in> set (ou_spends os). uk_outpoint k = p"
    and tracked: "\<forall>(p, k) \<in> set (ou_tracked_spends os). uk_outpoint k = p"
    and dist: "distinct (map fst (ou_creates os))" "distinct (map fst (ou_spends os))" "distinct (map fst (ou_tracked_spends os))"
    using assms(1) by (auto simp: outputs_inv_def)
  have keys: "g ` set (into_values kvs) = keys_of kvs" if "\<forall>(p, v) \<in> set kvs. g v = p" for g kvs
    using that by (force simp: set_into_values keys_of_def)
  let ?o = "outputs_canonical ni scope os"
  have ids: "map io_id (oc_created ?o) = map (?h \<circ> bx_outpoint) (into_values (ou_creates os))"
    "map ok_output (oc_spent ?o) = map (?h \<circ> uk_outpoint) (into_values (ou_spends os))"
    "map ok_output (oc_tracked_spends ?o) = map (?h \<circ> uk_outpoint) (into_values (ou_tracked_spends os))"
    by (simp_all add: outputs_canonical_def canonical_indexed_output_def canonical_utxo_key_def comp_def)
  have images: "io_id ` set (oc_created ?o) = ?h ` keys_of (ou_creates os)" "ok_output ` set (oc_spent ?o) = ?h ` keys_of (ou_spends os)"
      "ok_output ` set (oc_tracked_spends ?o) = ?h ` keys_of (ou_tracked_spends os)"
    using arg_cong [OF ids(1), of set] arg_cong [OF ids(2), of set] arg_cong [OF ids(3), of set]
    by (simp_all only: set_map image_comp [symmetric] keys [OF creates] keys [OF spends] keys [OF tracked])
  have apart: "?h ` A \<inter> ?h ` B = {}" if "A \<inter> B = {}" for A B using that image_Int [OF inj, of A B] by simp
  have "distinct (map io_id (oc_created ?o))" "distinct (map ok_output (oc_spent ?o))" "distinct (map ok_output (oc_tracked_spends ?o))"
    unfolding ids by (rule into_values_distinct [OF creates dist(1) inj] into_values_distinct [OF spends dist(2) inj]
      into_values_distinct [OF tracked dist(3) inj])+
  moreover have "ok_output ` set (oc_spent ?o) \<inter> ok_output ` set (oc_tracked_spends ?o) = {}"
    unfolding images using assms(2) by (intro apart) (simp add: outputs_apart_def)
  moreover have "io_id ` set (oc_created ?o) \<inter> ok_output ` (set (oc_spent ?o) \<union> set (oc_tracked_spends ?o)) = {}"
    unfolding images image_Un using assms(2) apart by (simp add: Int_Un_distrib outputs_apart_def)
  moreover have "list_all (output_ok scope height) (oc_created ?o)"
    using assms(1,4)
    by (auto simp: outputs_canonical_def output_ok_def list_all_iff canonical_indexed_output_def canonical_btc_address_def
        canonical_outpoint_def canonical_btc_id_def set_into_values BITCOIN_ASSET_def outputs_inv_def)
  moreover have "list_all (spend_ok scope) (oc_spent ?o @ oc_tracked_spends ?o)"
    by (auto simp: outputs_canonical_def canonical_utxo_key_def spend_ok_def list_all_iff canonical_btc_address_def
        canonical_outpoint_def canonical_btc_id_def)
  moreover have "set (map io_key (oc_created ?o)) \<inter> set (oc_spent ?o @ oc_tracked_spends ?o) = {}"
  proof -
    have "ok_output ` set (map io_key (oc_created ?o)) \<inter> ok_output ` (set (oc_spent ?o @ oc_tracked_spends ?o)) = {}"
      using calculation by (simp add: image_image io_key_def)
    then show ?thesis by blast
  qed
  ultimately show ?thesis unfolding changes_ok_def by (auto simp: distinct_map)
qed


lemma movement_names:
  "inj (movement_name c side)" "movement_name c '':vin:'' j \<noteq> movement_name c '':vout:'' k" "movement_text (movement_name c '':vin:'' j) \<noteq> []"
  "movement_text (movement_name c '':vout:'' j) \<noteq> []"
  by (auto simp: movement_name_def inj_def dest: arg_cong [where f = parse_digits])

lemma reading_draft_ok:
  assumes "sc_chain (fc_scope c) = BITCOIN_CHAIN_ID"
  shows "draft_ok (fc_scope c) (draft_of ni (fc_scope c) t (reading c t))"
proof -
  let ?ins = "map (\<lambda>(i, p). input_movement c i p) (enumerate 0 (resolved_inputs t))"
  let ?outs = "map (\<lambda>(i, output). output_movement c i output) (enumerate 0 (bt_outputs t))"
  have ins: "map mv_id ?ins = map (movement_name c '':vin:'') [0..<length (resolved_inputs t)]"
  proof -
    have "map mv_id ?ins = map (movement_name c '':vin:'') (map fst (enumerate 0 (resolved_inputs t)))"
      by (simp add: input_movement_def comp_def case_prod_unfold del: map_fst_enumerate)
    then show ?thesis by simp
  qed
  have outs: "map mv_id ?outs = map (movement_name c '':vout:'') [0..<length (bt_outputs t)]"
  proof -
    have "map mv_id ?outs = map (movement_name c '':vout:'') (map fst (enumerate 0 (bt_outputs t)))"
      by (simp add: output_movement_def comp_def case_prod_unfold del: map_fst_enumerate)
    then show ?thesis by simp
  qed
  have "distinct (map mv_id (?ins @ ?outs))"
    unfolding map_append ins outs using movement_names(1) [of c] movement_names(2)
    by (auto simp: distinct_map intro: inj_on_subset)
  moreover have "list_all (movement_ok (fc_scope c)) (?ins @ ?outs)"
    using assms by (auto simp: list_all_iff movement_ok_def input_movement_def output_movement_def movement_names BITCOIN_ASSET_def
        address_in_def canonical_btc_address_def)
  moreover have "\<forall>f \<in> set_option (bi_fee (reading c t)). fee_ok (fc_scope c) f"
    using assms by (auto simp: reading_def fee_ok_def BITCOIN_ASSET_def address_in_def canonical_btc_address_def coefficient_new_nonneg)
  ultimately show ?thesis
    by (simp add: draft_ok_def draft_of_def canonical_btc_id_def movements_ok_def reading_def)
qed

lemma btc_inspect_Ok:
  assumes "btc_inspect ni i block addresses = Ok ib"
  obtains watched drafts os where "validated_addresses ni (in_scope i) (in_network i) addresses {} = Ok watched"
    "inspect_transactions ni i watched (br_height (bb_reference block)) (bb_transactions block) [] outputs_empty {} = Ok (drafts, os)"
    "ib = \<lparr>ib_block = bb_reference block, ib_transactions = drafts, ib_outputs = outputs_canonical ni (in_scope i) os\<rparr>"
  using assms by (auto simp: btc_inspect_def result_simps)

lemma outputs_inv_empty [simp]: "outputs_inv U height outputs_empty" "apply_outputs outputs_empty U = U" "outputs_apart {} outputs_empty"
  by (simp_all add: outputs_inv_def apply_outputs_def remove_outpoints_def outputs_empty_def outputs_apart_def keys_of_def)

lemma validated_addresses_Ok:
  assumes "validated_addresses ni scope network addresses watched = Ok watched'"
  shows "watched' = watched \<union> ca_value ` set addresses"
  using assms
proof (induction addresses arbitrary: watched)
  case (Cons a addresses)
  then obtain w where w: "validated_add ni scope network a watched = Ok w" "validated_addresses ni scope network addresses w = Ok watched'"
    by (auto simp: result_simps)
  from w(1) have "w = insert (ca_value a) watched" by (auto simp: validated_add_def result_simps)
  with Cons.IH [OF w(2)] show ?case by auto
qed simp

text \<open>The index accepts what the interpreter makes of a block whose outputs are spent after their transactions appear.\<close>

lemma inspected_block_accepted:
  assumes "interpreter_new scope network = Ok i" "btc_inspect ni i block addresses = Ok ib"
    and "distinct (map bt_id (bb_transactions block))" "inj (nb_display_txid (ni_native ni))" "spends_follow (bb_transactions block)"
    and "retention \<noteq> 0" "connects expected (bb_reference block)"
  shows "\<exists>a. block_addition_new scope expected retention ib = Ok a"
proof -
  let ?height = "br_height (bb_reference block)"
  have i: "in_scope i = scope" "sc_chain scope = BITCOIN_CHAIN_ID" using assms(1) by (auto simp: interpreter_new_def result_simps)
  from assms(2) obtain watched drafts os where
      run: "inspect_transactions ni i watched ?height (bb_transactions block) [] outputs_empty {} = Ok (drafts, os)"
      "ib = \<lparr>ib_block = bb_reference block, ib_transactions = drafts, ib_outputs = outputs_canonical ni (in_scope i) os\<rparr>"
    by (rule btc_inspect_Ok)
  have "outputs_inv Map.empty ?height os" using inspect_transactions_outputs [OF run(1), of Map.empty] by simp
  moreover obtain spent where "outputs_apart spent os" using inspect_transactions_apart [OF run(1) _ assms(5)] by auto
  ultimately have "changes_ok scope ?height (ib_outputs ib)" using canonical_changes_ok assms(4) i run(2) by simp
  moreover have "list_all (draft_ok scope) (ib_transactions ib)"
  proof -
    have "draft_ok scope (draft_of ni scope t (reading (block_context ni i watched ?height t) t))" for t
      using reading_draft_ok [of "block_context ni i watched ?height t" ni t] i by (simp add: facts_context_of_def)
    then show ?thesis using inspect_transactions_drafts [OF run(1)] run(2) i by (simp add: list_all_iff)
  qed
  moreover have "distinct (map od_id (ib_transactions ib))"
  proof -
    have "map od_id (ib_transactions ib) =
        map (canonical_btc_id ni scope) (map bt_id (filter (\<lambda>t. bi_relevant (reading (block_context ni i watched ?height t) t)) (bb_transactions block)))"
      using inspect_transactions_drafts [OF run(1)] run(2) i by (simp add: draft_of_def comp_def)
    moreover have "inj (canonical_btc_id ni scope)" using assms(4) by (auto simp: inj_def canonical_btc_id_def)
    ultimately show ?thesis
      using distinct_map_filter [OF assms(3)] by (simp only: distinct_map inj_on_subset [OF _ subset_UNIV])
  qed
  ultimately show ?thesis using assms(6,7) run(2) by (simp add: block_addition_new_Ok_iff)
qed

section \<open>An example block\<close>

definition demo_native_bitcoin :: "string native_bitcoin" where
  "demo_native_bitcoin =
     \<lparr>nb_parse = Inr, nb_require_network = (\<lambda>a _. Inr a), nb_display = (\<lambda>a. a), nb_script_pubkey = map of_char,
      nb_is_p2wpkh = (\<lambda>_. True), nb_is_p2tr = (\<lambda>_. False), nb_minimal_non_dust = (\<lambda>_. 0), nb_weight = (\<lambda>_ _. 0),
      nb_display_txid = map (\<lambda>b. char_of (unat b))\<rparr>"

definition demo_native_indexing :: "string native_indexing" where
  "demo_native_indexing =
     \<lparr>ni_native = demo_native_bitcoin, ni_from_script = (\<lambda>script _. Some (map (\<lambda>b. char_of (unat b)) script))\<rparr>"

definition demo_btc_scope :: index_scope where
  "demo_btc_scope = IndexScope BITCOIN_CHAIN_ID ''regtest''"

text \<open>A coinbase of 50 for address \<open>a\<close> and its spending within the block, with a fee of 5.\<close>

definition demo_btc_block :: btc_block where
  "demo_btc_block =
     \<lparr>bb_reference = \<lparr>br_position = 0, br_height = 0, br_hash = [], br_parent = None, br_timestamp = None\<rparr>,
      bb_transactions =
        [\<lparr>bt_id = [1], bt_inputs = [None], bt_outputs = [\<lparr>bd_value = 50, bd_script_pubkey = [97]\<rparr>], bt_coinbase = True\<rparr>,
         \<lparr>bt_id = [2], bt_inputs = [Some \<lparr>po_outpoint = ([1], 0), po_value = 50, po_address = Some ''a''\<rparr>],
          bt_outputs = [\<lparr>bd_value = 20, bd_script_pubkey = [97]\<rparr>, \<lparr>bd_value = 25, bd_script_pubkey = [98]\<rparr>], bt_coinbase = False\<rparr>]\<rparr>"

lemma demo_display_inj: "inj (nb_display_txid (ni_native demo_native_indexing))"
proof -
  have "inj (\<lambda>b :: u8. char_of (unat b) :: char)"
  proof (rule injI)
    fix a b :: u8
    assume "(char_of (unat a) :: char) = char_of (unat b)"
    then have "unat a mod 256 = unat b mod 256" by (simp add: char_of_eq_iff of_char_of take_bit_eq_mod)
    then show "a = b" using unat_less [of a] unat_less [of b] by (simp add: word_unat_eq_iff)
  qed
  then show ?thesis by (simp add: demo_native_indexing_def demo_native_bitcoin_def)
qed

lemma demo_interpreter: "interpreter_new demo_btc_scope BitcoinRegtest = Ok \<lparr>in_scope = demo_btc_scope, in_network = BitcoinRegtest\<rparr>"
  by (simp add: interpreter_new_def demo_btc_scope_def)

lemma demo_chars: "char_of (97 :: nat) = CHR ''a''" "char_of (98 :: nat) = CHR ''b''"
  by code_simp+

lemma demo_inspects:
  "\<exists>ib. btc_inspect demo_native_indexing \<lparr>in_scope = demo_btc_scope, in_network = BitcoinRegtest\<rparr> demo_btc_block
     [CanonicalAddress demo_btc_scope ''a''] = Ok ib"
  by (simp add: btc_inspect_def validated_add_def address_belongs_to_def demo_btc_scope_def demo_native_indexing_def
      demo_native_bitcoin_def demo_btc_block_def parse_for_network_def script_pubkey_for_network_def segwit_script_def
      interpret_transaction_def Let_def facts_context_of_def facts_new_def facts_input_def facts_output_def facts_finish_def
      previous_output_def record_payer_def record_spend_def from_script_for_network_def checked_add_def checked_sub_def
      created_output_def collect_outputs_def outputs_create_def outputs_spend_def outputs_empty_def demo_chars)


section \<open>Properties\<close>

text \<open>
  C15. Interpreting a transaction is exact. When it succeeds, the movements are those of all inputs and
  outputs in order; the fee is what the inputs exceed the outputs by, without any overflow; the payer is
  the one owner of all inputs, if there is one; the transaction is relevant exactly when a watched address
  owns an input or an output; the recorded outputs are those of watched addresses, and the recorded spends
  those of watched or supported addresses. No outpoint is spent twice.
\<close>

theorem transaction_reading_exact:
  assumes "interpret_transaction ni scope network addresses height t spent = Ok (r, spent')"
  shows "r = reading (facts_context_of ni scope network addresses height t) t \<and>
    (if bt_coinbase t then resolved_inputs t = [] else bt_inputs t = map Some (resolved_inputs t)) \<and>
    (bt_coinbase t \<or> output_sum (bt_outputs t) \<le> input_sum (resolved_inputs t) \<and> input_sum (resolved_inputs t) < 2 ^ 64) \<and>
    distinct (spent_outpoints t) \<and> set (spent_outpoints t) \<inter> spent = {} \<and> spent' = spent \<union> set (spent_outpoints t)"
  by (rule interpret_transaction_Ok [OF assms])

theorem transaction_reading_exact_witness:
  "\<exists>r spent'. interpret_transaction demo_native_indexing demo_btc_scope BitcoinRegtest {''a''} 0
      (bb_transactions demo_btc_block ! 1) {} = Ok (r, spent') \<and>
     bi_fee r = Some \<lparr>nf_asset = BITCOIN_ASSET, nf_amount = decimal_new 5 0,
       nf_payer = Some (CanonicalAddress demo_btc_scope ''a'')\<rparr>"
proof -
  obtain r spent' where run: "interpret_transaction demo_native_indexing demo_btc_scope BitcoinRegtest {''a''} 0
      (bb_transactions demo_btc_block ! 1) {} = Ok (r, spent')"
    by (simp add: interpret_transaction_def demo_btc_block_def demo_btc_scope_def demo_native_indexing_def demo_native_bitcoin_def
        Let_def facts_context_of_def facts_new_def facts_input_def facts_output_def facts_finish_def previous_output_def
        record_payer_def record_spend_def from_script_for_network_def checked_add_def checked_sub_def created_output_def demo_chars)
  from transaction_reading_exact [OF run] have "r = reading (facts_context_of demo_native_indexing demo_btc_scope BitcoinRegtest {''a''} 0
      (bb_transactions demo_btc_block ! 1)) (bb_transactions demo_btc_block ! 1)" by blast
  then have "bi_fee r = Some \<lparr>nf_asset = BITCOIN_ASSET, nf_amount = decimal_new 5 0,
      nf_payer = Some (CanonicalAddress demo_btc_scope ''a'')\<rparr>"
    by (simp add: reading_def demo_btc_block_def resolved_inputs_def opt_list_def common_owner_def canonical_btc_address_def facts_context_of_def)
  with run show ?thesis by blast
qed

text \<open>
  C16. The net output changes of a block are the effect of its transactions one after the other: whatever
  the unspent outputs were before the block, as long as none of them belongs to a transaction of it,
  removing the spends and adding the creations at once gives the same outputs as adding and removing those
  of each transaction in turn. An output created and spent in the block leaves no trace. The drafts are
  the relevant transactions in their order.
\<close>

theorem block_outputs_exact:
  assumes "btc_inspect ni i block addresses = Ok ib"
  shows "\<exists>os. ib_outputs ib = outputs_canonical ni (in_scope i) os \<and>
    (\<forall>U. (\<forall>t \<in> set (bb_transactions block). \<forall>j. U (bt_id t, j) = None) \<longrightarrow>
      apply_outputs os U = fold (\<lambda>t. utxo_step (block_context ni i (ca_value ` set addresses) (br_height (bb_reference block)) t) t)
        (bb_transactions block) U) \<and>
    ib_transactions ib = map (\<lambda>t. draft_of ni (in_scope i) t
        (reading (block_context ni i (ca_value ` set addresses) (br_height (bb_reference block)) t) t))
      (filter (\<lambda>t. bi_relevant (reading (block_context ni i (ca_value ` set addresses) (br_height (bb_reference block)) t) t))
        (bb_transactions block))"
proof -
  from assms obtain watched drafts os where run: "validated_addresses ni (in_scope i) (in_network i) addresses {} = Ok watched"
      "inspect_transactions ni i watched (br_height (bb_reference block)) (bb_transactions block) [] outputs_empty {} = Ok (drafts, os)"
      "ib = \<lparr>ib_block = bb_reference block, ib_transactions = drafts, ib_outputs = outputs_canonical ni (in_scope i) os\<rparr>"
    by (rule btc_inspect_Ok)
  from validated_addresses_Ok [OF run(1)] have watched: "watched = ca_value ` set addresses" by simp
  note run2 = run(2) [unfolded watched]
  show ?thesis
    using inspect_transactions_outputs [OF run2] inspect_transactions_drafts [OF run2] run(3) by (intro exI [of _ os]) auto
qed

theorem block_outputs_exact_witness:
  "\<exists>ib os. btc_inspect demo_native_indexing \<lparr>in_scope = demo_btc_scope, in_network = BitcoinRegtest\<rparr> demo_btc_block
       [CanonicalAddress demo_btc_scope ''a''] = Ok ib \<and>
     ib_outputs ib = outputs_canonical demo_native_indexing demo_btc_scope os"
proof -
  obtain ib where run: "btc_inspect demo_native_indexing \<lparr>in_scope = demo_btc_scope, in_network = BitcoinRegtest\<rparr> demo_btc_block
      [CanonicalAddress demo_btc_scope ''a''] = Ok ib" using demo_inspects by blast
  from block_outputs_exact [OF run] run show ?thesis by auto
qed

end
