(* ===== verification/Bitcoin_Blocks.thy ===== *)
theory Bitcoin_Blocks
  imports Bitcoin_Indexer Json
begin

text \<open>
  Reading the blocks of Bitcoin Core (\<open>sdk/chains/bitcoin/src/indexer/model.rs, model_value.rs\<close>): the block, its
  transactions, inputs, previous outputs and amounts, every claim of the JSON checked against the
  consensus bytes. JSON, hexadecimal and hash texts and the consensus codec of the \<open>bitcoin\<close> crate are
  parameters.
\<close>

section \<open>The native codec\<close>

record native_transaction =
  nt_inputs :: "btc_outpoint list"
  nt_outputs :: "(satoshi \<times> script) list"

record 'n native_codec =
  nc_indexing :: "'n native_indexing"
  nc_from_slice :: "u8 list \<Rightarrow> json option"
  nc_block_hash :: "string \<Rightarrow> u8 list option"
  nc_txid :: "string \<Rightarrow> u8 list option"
  nc_from_hex :: "string \<Rightarrow> u8 list option"
  nc_deserialize :: "u8 list \<Rightarrow> native_transaction option"
  nc_compute_txid :: "native_transaction \<Rightarrow> u8 list"
  nc_is_coinbase :: "native_transaction \<Rightarrow> bool"
  nc_is_null :: "btc_outpoint \<Rightarrow> bool"

section \<open>Fields\<close>

definition missing_field :: "string \<Rightarrow> string" where
  "missing_field subject = subject @ '' is missing or invalid''"

definition required_string :: "members \<Rightarrow> string \<Rightarrow> string \<Rightarrow> (string, string) result" where
  "required_string obj name subject =
     ok_or (Option.bind (Option.bind (map_of obj name) json_as_str) (\<lambda>s. if s = [] then None else Some s)) (missing_field subject)"

definition required_u64 :: "members \<Rightarrow> string \<Rightarrow> string \<Rightarrow> (string, u64) result" where
  "required_u64 obj name subject = ok_or (Option.bind (map_of obj name) json_as_u64) (missing_field subject)"

definition exceeds_u32 :: "string \<Rightarrow> string" where
  "exceeds_u32 subject = subject @ '' exceeds u32''"

definition required_u32 :: "members \<Rightarrow> string \<Rightarrow> string \<Rightarrow> (string, u32) result" where
  "required_u32 obj name subject =
     and_then (required_u64 obj name subject) (\<lambda>v.
     if unat v < 2 ^ 32 then Ok (ucast v) else Err (exceeds_u32 subject))"

definition required_bool :: "members \<Rightarrow> string \<Rightarrow> string \<Rightarrow> (string, bool) result" where
  "required_bool obj name subject = ok_or (Option.bind (map_of obj name) json_as_bool) (missing_field subject)"

definition SATOSHIS_PER_BITCOIN :: u64 where "SATOSHIS_PER_BITCOIN = 100000000"

definition not_number :: "string \<Rightarrow> string" where "not_number subject = subject @ '' must be a JSON number''"
definition not_fixed_point :: "string \<Rightarrow> string" where
  "not_fixed_point subject = subject @ '' must be a non-negative fixed-point decimal''"
definition not_exact :: "string \<Rightarrow> string" where "not_exact subject = subject @ '' is not an exact Bitcoin amount''"
definition exceeds_satoshis :: "string \<Rightarrow> string" where "exceeds_satoshis subject = subject @ '' exceeds u64 satoshis''"
definition fraction_invalid :: "string \<Rightarrow> string" where "fraction_invalid subject = subject @ '' is invalid''"

text \<open>The whole and fractional part of a number text, and whether there was a third part.\<close>

definition amount_parts :: "string \<Rightarrow> string \<times> string \<times> bool" where
  "amount_parts lexical =
     (case split_char CHR ''.'' lexical of
        [] \<Rightarrow> ([], [], False)
      | [whole] \<Rightarrow> (whole, [], False)
      | [whole, fraction] \<Rightarrow> (whole, fraction, False)
      | whole # fraction # _ # _ \<Rightarrow> (whole, fraction, True))"

definition from_block_json :: "json \<Rightarrow> string \<Rightarrow> (string, satoshi) result" where
  "from_block_json j subject =
     and_then (ok_or (json_as_number j) (not_number subject)) (\<lambda>lexical.
     and_then (fail_if (take 1 lexical = ''-'' \<or> list_ex (\<lambda>ch. ch \<in> {CHR ''e'', CHR ''E'', CHR ''+''}) lexical)
       (not_fixed_point subject)) (\<lambda>_.
     case amount_parts lexical of (whole, fraction, third) \<Rightarrow>
     and_then (fail_if (third \<or> whole = [] \<or> \<not> list_all is_digit whole \<or> \<not> list_all is_digit fraction \<or> length fraction > 8)
       (not_exact subject)) (\<lambda>_.
     and_then (ok_or (digits_u64 whole) (exceeds_satoshis subject)) (\<lambda>units.
     and_then
       (if fraction = [] then Ok 0
        else and_then (ok_or (digits_u64 fraction) (fraction_invalid subject)) (\<lambda>v.
             ok_or (checked_mul v (10 ^ (8 - length fraction))) (exceeds_satoshis subject))) (\<lambda>fractional.
     ok_or (Option.bind (checked_mul units SATOSHIS_PER_BITCOIN) (\<lambda>v. checked_add v fractional)) (exceeds_satoshis subject))))))"

section \<open>Previous outputs\<close>

definition compact_value_error :: string where "compact_value_error = ''Bitcoin compact prevout value is invalid''"
definition compact_missing_error :: string where "compact_missing_error = ''Bitcoin compact prevout address fact is missing''"
definition compact_address_error :: string where
  "compact_address_error = ''Bitcoin compact prevout address is invalid or wrong-network''"
definition compact_canonical_error :: string where "compact_canonical_error = ''Bitcoin compact prevout address is not canonical''"
definition compact_fact_error :: string where "compact_fact_error = ''Bitcoin compact prevout address fact is invalid''"

definition compact_address :: "'n native_codec \<Rightarrow> bitcoin_network \<Rightarrow> json \<Rightarrow> (string, string option) result" where
  "compact_address nc network j =
     (case j of
        JNull \<Rightarrow> Ok None
      | JString address \<Rightarrow>
          and_then (map_err (\<lambda>_. compact_address_error) (parse_for_network (ni_native (nc_indexing nc)) address network)) (\<lambda>encoded.
          and_then (fail_if (encoded \<noteq> address) compact_canonical_error) (\<lambda>_.
          Ok (Some encoded)))
      | _ \<Rightarrow> Err compact_fact_error)"

definition prevout_value_error :: string where "prevout_value_error = ''Bitcoin prevout value is missing''"
definition prevout_script_missing :: string where "prevout_script_missing = ''Bitcoin prevout scriptPubKey is missing''"
definition script_hex_missing :: string where "script_hex_missing = ''Bitcoin scriptPubKey hex is missing or invalid''"
definition script_hex_error :: string where "script_hex_error = ''Bitcoin scriptPubKey hex is invalid''"
definition created_after_error :: string where
  "created_after_error = ''Bitcoin input previous output was created after the spending block''"

definition prevout_value_subject :: string where "prevout_value_subject = ''Bitcoin prevout value''"
definition prevout_height_subject :: string where "prevout_height_subject = ''Bitcoin prevout creation height''"
definition prevout_coinbase_subject :: string where "prevout_coinbase_subject = ''Bitcoin prevout coinbase flag''"

definition script_bytes :: "'n native_codec \<Rightarrow> members \<Rightarrow> (string, script) result" where
  "script_bytes nc script =
     and_then (ok_or (Option.bind (map_of script ''hex'') json_as_str) script_hex_missing) (\<lambda>hex.
     ok_or (nc_from_hex nc hex) script_hex_error)"

definition parse_verbose ::
  "'n native_codec \<Rightarrow> members \<Rightarrow> btc_outpoint \<Rightarrow> block_height \<Rightarrow> bitcoin_network \<Rightarrow> (string, btc_previous_output) result" where
  "parse_verbose nc prevout p spending_height network =
     and_then (ok_or (map_of prevout ''value'') prevout_value_error) (\<lambda>v.
     and_then (from_block_json v prevout_value_subject) (\<lambda>amount.
     and_then (ok_or (Option.bind (map_of prevout ''scriptPubKey'') json_as_object) prevout_script_missing) (\<lambda>script.
     and_then (script_bytes nc script) (\<lambda>bytes.
     and_then (required_u64 prevout ''height'' prevout_height_subject) (\<lambda>created_height.
     and_then (fail_if (created_height > spending_height) created_after_error) (\<lambda>_.
     and_then (required_bool prevout ''generated'' prevout_coinbase_subject) (\<lambda>_.
     Ok \<lparr>po_outpoint = p, po_value = amount, po_address = from_script_for_network (nc_indexing nc) bytes network\<rparr>)))))))"

definition parse_prevout ::
  "'n native_codec \<Rightarrow> members \<Rightarrow> btc_outpoint \<Rightarrow> block_height \<Rightarrow> bitcoin_network \<Rightarrow> (string, btc_previous_output) result" where
  "parse_prevout nc prevout p spending_height network =
     (case map_of prevout ''value_satoshis'' of
        None \<Rightarrow> parse_verbose nc prevout p spending_height network
      | Some v \<Rightarrow>
          and_then (ok_or (json_as_u64 v) compact_value_error) (\<lambda>amount.
          and_then (ok_or (map_of prevout ''address'') compact_missing_error) (\<lambda>fact.
          and_then (compact_address nc network fact) (\<lambda>address.
          Ok \<lparr>po_outpoint = p, po_value = amount, po_address = address\<rparr>))))"

section \<open>Inputs and outputs\<close>

definition input_object_error :: string where "input_object_error = ''Bitcoin transaction input must be an object''"
definition null_input_error :: string where "null_input_error = ''Bitcoin null input is not a valid coinbase input''"
definition coinbase_input_error :: string where
  "coinbase_input_error = ''Bitcoin coinbase transaction contains a non-coinbase input''"
definition btc_id_error :: string where "btc_id_error = ''Bitcoin transaction ID is invalid''"
definition outpoint_mismatch :: "nat \<Rightarrow> string" where
  "outpoint_mismatch index = ''Bitcoin input '' @ to_digits index @ '' outpoint does not match its consensus bytes''"
definition prevout_conflict :: "nat \<Rightarrow> string" where
  "prevout_conflict index = ''Bitcoin input '' @ to_digits index @ '' prevout conflicts with an earlier same-block output''"
definition prevout_unresolved :: "nat \<Rightarrow> string" where
  "prevout_unresolved index = ''Bitcoin input '' @ to_digits index @ '' has no resolved previous output''"

definition input_id_subject :: string where "input_id_subject = ''Bitcoin input previous transaction ID''"
definition input_index_subject :: string where "input_index_subject = ''Bitcoin input output index''"

definition parse_input ::
  "'n native_codec \<Rightarrow> bitcoin_network \<Rightarrow> block_height \<Rightarrow> bool \<Rightarrow> (btc_outpoint \<rightharpoonup> btc_previous_output) \<Rightarrow> nat \<Rightarrow> json \<Rightarrow>
     btc_outpoint \<Rightarrow> (string, btc_previous_output option) result" where
  "parse_input nc network height coinbase local_outputs index input native =
     and_then (ok_or (json_as_object input) input_object_error) (\<lambda>obj.
     if nc_is_null nc native then
       and_then (fail_if (\<not> coinbase \<or> Option.bind (map_of obj ''coinbase'') json_as_str = None) null_input_error) (\<lambda>_.
       Ok None)
     else
       and_then (fail_if coinbase coinbase_input_error) (\<lambda>_.
       and_then (required_string obj ''txid'' input_id_subject) (\<lambda>text.
       and_then (ok_or (nc_txid nc text) btc_id_error) (\<lambda>previous_id.
       and_then (required_u32 obj ''vout'' input_index_subject) (\<lambda>output_index.
       and_then (fail_if (native \<noteq> (previous_id, output_index)) (outpoint_mismatch index)) (\<lambda>_.
       case Option.bind (map_of obj ''prevout'') json_as_object of
         Some prevout \<Rightarrow>
           and_then (parse_prevout nc prevout (previous_id, output_index) height network) (\<lambda>found.
           and_then (fail_if (case local_outputs (previous_id, output_index) of None \<Rightarrow> False | Some l \<Rightarrow> l \<noteq> found)
             (prevout_conflict index)) (\<lambda>_.
           Ok (Some found)))
       | None \<Rightarrow>
           and_then (ok_or (local_outputs (previous_id, output_index)) (prevout_unresolved index)) (\<lambda>found.
           Ok (Some found))))))))"

fun parse_inputs ::
  "'n native_codec \<Rightarrow> bitcoin_network \<Rightarrow> block_height \<Rightarrow> bool \<Rightarrow> (btc_outpoint \<rightharpoonup> btc_previous_output) \<Rightarrow> nat \<Rightarrow> (json \<times> btc_outpoint) list \<Rightarrow>
     (string, btc_previous_output option list) result" where
  "parse_inputs nc network height coinbase local_outputs index [] = Ok []"
| "parse_inputs nc network height coinbase local_outputs index ((input, native) # rest) =
     and_then (parse_input nc network height coinbase local_outputs index input native) (\<lambda>x.
     and_then (parse_inputs nc network height coinbase local_outputs (index + 1) rest) (\<lambda>xs.
     Ok (x # xs)))"

definition output_object_error :: string where "output_object_error = ''Bitcoin transaction output must be an object''"
definition output_position_error :: string where
  "output_position_error = ''Bitcoin transaction output index does not match its position''"
definition output_value_missing :: string where "output_value_missing = ''Bitcoin output value is missing''"
definition output_value_error :: string where "output_value_error = ''Bitcoin output value does not match its consensus bytes''"
definition output_script_missing :: string where "output_script_missing = ''Bitcoin output scriptPubKey is missing''"
definition output_script_error :: string where "output_script_error = ''Bitcoin output script does not match its consensus bytes''"

definition output_index_subject :: string where "output_index_subject = ''Bitcoin output index''"
definition output_value_subject :: string where "output_value_subject = ''Bitcoin output value''"

definition parse_output ::
  "'n native_codec \<Rightarrow> nat \<Rightarrow> json \<Rightarrow> satoshi \<times> script \<Rightarrow> (string, btc_output_data) result" where
  "parse_output nc position output native =
     and_then (ok_or (json_as_object output) output_object_error) (\<lambda>obj.
     and_then (required_u64 obj ''n'' output_index_subject) (\<lambda>output_index.
     and_then (fail_if (unat output_index \<noteq> position) output_position_error) (\<lambda>_.
     and_then (ok_or (map_of obj ''value'') output_value_missing) (\<lambda>v.
     and_then (from_block_json v output_value_subject) (\<lambda>amount.
     and_then (fail_if (fst native \<noteq> amount) output_value_error) (\<lambda>_.
     and_then (ok_or (Option.bind (map_of obj ''scriptPubKey'') json_as_object) output_script_missing) (\<lambda>script.
     and_then (script_bytes nc script) (\<lambda>bytes.
     and_then (fail_if (snd native \<noteq> bytes) output_script_error) (\<lambda>_.
     Ok \<lparr>bd_value = amount, bd_script_pubkey = bytes\<rparr>)))))))))"

fun parse_outputs :: "'n native_codec \<Rightarrow> nat \<Rightarrow> (json \<times> satoshi \<times> script) list \<Rightarrow> (string, btc_output_data list) result" where
  "parse_outputs nc position [] = Ok []"
| "parse_outputs nc position ((output, native) # rest) =
     and_then (parse_output nc position output native) (\<lambda>x.
     and_then (parse_outputs nc (position + 1) rest) (\<lambda>xs.
     Ok (x # xs)))"

section \<open>Transactions\<close>

definition btc_object_error :: string where "btc_object_error = ''Bitcoin transaction must be an object''"
definition btc_hex_error :: string where "btc_hex_error = ''Bitcoin transaction hex is invalid''"
definition btc_consensus_error :: string where "btc_consensus_error = ''Bitcoin transaction consensus bytes are invalid''"
definition btc_id_mismatch :: string where "btc_id_mismatch = ''Bitcoin transaction ID does not match its consensus bytes''"
definition inputs_array_error :: string where "inputs_array_error = ''Bitcoin transaction inputs must be an array''"
definition input_count_error :: string where
  "input_count_error = ''Bitcoin transaction input count does not match its consensus bytes''"
definition outputs_array_error :: string where "outputs_array_error = ''Bitcoin transaction outputs must be an array''"
definition output_count_error :: string where
  "output_count_error = ''Bitcoin transaction output count does not match its consensus bytes''"

definition btc_id_subject :: string where "btc_id_subject = ''Bitcoin transaction ID''"
definition btc_raw_subject :: string where "btc_raw_subject = ''Bitcoin raw transaction''"

definition parse_transaction ::
  "'n native_codec \<Rightarrow> bitcoin_network \<Rightarrow> block_height \<Rightarrow> (btc_outpoint \<rightharpoonup> btc_previous_output) \<Rightarrow> json \<Rightarrow> (string, btc_transaction) result" where
  "parse_transaction nc network height local_outputs j =
     and_then (ok_or (json_as_object j) btc_object_error) (\<lambda>obj.
     and_then (required_string obj ''txid'' btc_id_subject) (\<lambda>text.
     and_then (ok_or (nc_txid nc text) btc_id_error) (\<lambda>txid.
     and_then (required_string obj ''hex'' btc_raw_subject) (\<lambda>hex.
     and_then (ok_or (nc_from_hex nc hex) btc_hex_error) (\<lambda>raw.
     and_then (ok_or (nc_deserialize nc raw) btc_consensus_error) (\<lambda>native.
     and_then (fail_if (nc_compute_txid nc native \<noteq> txid) btc_id_mismatch) (\<lambda>_.
     and_then (ok_or (Option.bind (map_of obj ''vin'') json_as_array) inputs_array_error) (\<lambda>input_values.
     and_then (fail_if (length input_values \<noteq> length (nt_inputs native)) input_count_error) (\<lambda>_.
     and_then (parse_inputs nc network height (nc_is_coinbase nc native) local_outputs 0 (zip input_values (nt_inputs native))) (\<lambda>inputs.
     and_then (ok_or (Option.bind (map_of obj ''vout'') json_as_array) outputs_array_error) (\<lambda>output_values.
     and_then (fail_if (length output_values \<noteq> length (nt_outputs native)) output_count_error) (\<lambda>_.
     and_then (parse_outputs nc 0 (zip output_values (nt_outputs native))) (\<lambda>outputs.
     Ok \<lparr>bt_id = txid, bt_inputs = inputs, bt_outputs = outputs, bt_coinbase = nc_is_coinbase nc native\<rparr>)))))))))))))"

section \<open>Blocks\<close>

text \<open>The outputs of a transaction as previous outputs of later ones.\<close>

definition local_output :: "'n native_codec \<Rightarrow> bitcoin_network \<Rightarrow> u8 list \<Rightarrow> nat \<Rightarrow> btc_output_data \<Rightarrow> btc_previous_output" where
  "local_output nc network txid index output =
     \<lparr>po_outpoint = (txid, of_nat index), po_value = bd_value output,
      po_address = from_script_for_network (nc_indexing nc) (bd_script_pubkey output) network\<rparr>"

definition output_index_exceeds :: string where "output_index_exceeds = ''Bitcoin output index exceeds u32''"

fun add_local_outputs ::
  "'n native_codec \<Rightarrow> bitcoin_network \<Rightarrow> u8 list \<Rightarrow> nat \<Rightarrow> btc_output_data list \<Rightarrow> (btc_outpoint \<rightharpoonup> btc_previous_output) \<Rightarrow>
     (string, btc_outpoint \<rightharpoonup> btc_previous_output) result" where
  "add_local_outputs nc network txid index [] local_outputs = Ok local_outputs"
| "add_local_outputs nc network txid index (output # outputs) local_outputs =
     and_then (fail_if (index \<ge> 2 ^ 32) output_index_exceeds) (\<lambda>_.
     add_local_outputs nc network txid (index + 1) outputs
       (local_outputs((txid, of_nat index) \<mapsto> local_output nc network txid index output)))"

definition duplicate_ids_error :: string where "duplicate_ids_error = ''Bitcoin block contains duplicate transaction IDs''"

fun parse_transactions ::
  "'n native_codec \<Rightarrow> bitcoin_network \<Rightarrow> block_height \<Rightarrow> json list \<Rightarrow> u8 list set \<Rightarrow> (btc_outpoint \<rightharpoonup> btc_previous_output) \<Rightarrow>
     (string, btc_transaction list) result" where
  "parse_transactions nc network height [] ids local_outputs = Ok []"
| "parse_transactions nc network height (j # js) ids local_outputs =
     and_then (parse_transaction nc network height local_outputs j) (\<lambda>t.
     and_then (fail_if (bt_id t \<in> ids) duplicate_ids_error) (\<lambda>_.
     and_then (add_local_outputs nc network (bt_id t) 0 (bt_outputs t) local_outputs) (\<lambda>local_outputs.
     and_then (parse_transactions nc network height js (insert (bt_id t) ids) local_outputs) (\<lambda>ts.
     Ok (t # ts)))))"

definition block_json_error :: string where "block_json_error = ''Bitcoin block result is not valid JSON''"
definition block_object_error :: string where "block_object_error = ''Bitcoin block result must be an object''"
definition block_height_error :: string where
  "block_height_error = ''Bitcoin block height does not match the requested height''"
definition block_hash_invalid :: string where "block_hash_invalid = ''Bitcoin block hash is invalid''"
definition btc_block_hash_error :: string where "btc_block_hash_error = ''Bitcoin block hash does not match the requested hash''"
definition btc_genesis_parent_error :: string where
  "btc_genesis_parent_error = ''Bitcoin genesis block unexpectedly has a parent hash''"
definition block_array_error :: string where "block_array_error = ''Bitcoin block transactions must be an array''"
definition block_count_error :: string where
  "block_count_error = ''Bitcoin block transaction count does not match its transaction array''"

definition block_height_subject :: string where "block_height_subject = ''Bitcoin block height''"
definition block_hash_subject :: string where "block_hash_subject = ''Bitcoin block hash''"
definition block_parent_subject :: string where "block_parent_subject = ''Bitcoin previous block hash''"
definition block_time_subject :: string where "block_time_subject = ''Bitcoin block timestamp''"
definition block_count_subject :: string where "block_count_subject = ''Bitcoin block transaction count''"

definition hash_field :: "'n native_codec \<Rightarrow> members \<Rightarrow> string \<Rightarrow> string \<Rightarrow> (string, block_hash) result" where
  "hash_field nc obj name subject =
     and_then (required_string obj name subject) (\<lambda>text.
     ok_or (nc_block_hash nc text) block_hash_invalid)"

definition has_parent :: "members \<Rightarrow> bool" where
  "has_parent obj \<longleftrightarrow> (case map_of obj ''previousblockhash'' of None \<Rightarrow> False | Some v \<Rightarrow> v \<noteq> JNull)"

definition parse_block_data ::
  "'n native_codec \<Rightarrow> u8 list \<Rightarrow> block_height option \<Rightarrow> block_hash option \<Rightarrow> bitcoin_network \<Rightarrow> (string, btc_block) result" where
  "parse_block_data nc raw expected_height expected_hash network =
     and_then (ok_or (nc_from_slice nc raw) block_json_error) (\<lambda>j.
     and_then (ok_or (json_as_object j) block_object_error) (\<lambda>obj.
     and_then (required_u64 obj ''height'' block_height_subject) (\<lambda>height.
     and_then (fail_if (expected_height \<noteq> None \<and> expected_height \<noteq> Some height) block_height_error) (\<lambda>_.
     and_then (hash_field nc obj ''hash'' block_hash_subject) (\<lambda>hash.
     and_then (fail_if (expected_hash \<noteq> None \<and> expected_hash \<noteq> Some hash) btc_block_hash_error) (\<lambda>_.
     and_then (fail_if (height = 0 \<and> has_parent obj) btc_genesis_parent_error) (\<lambda>_.
     and_then
       (if height = 0 then Ok None
        else and_then (hash_field nc obj ''previousblockhash'' block_parent_subject) (\<lambda>parent.
             Ok (Some \<lparr>bp_position = height - 1, bp_hash = parent\<rparr>))) (\<lambda>parent.
     and_then (required_u64 obj ''time'' block_time_subject) (\<lambda>timestamp.
     and_then (ok_or (Option.bind (map_of obj ''tx'') json_as_array) block_array_error) (\<lambda>transaction_values.
     and_then (required_u64 obj ''nTx'' block_count_subject) (\<lambda>declared_count.
     and_then (fail_if (unat declared_count \<noteq> length transaction_values) block_count_error) (\<lambda>_.
     and_then (parse_transactions nc network height transaction_values {} Map.empty) (\<lambda>transactions.
     Ok \<lparr>bb_reference = \<lparr>br_position = height, br_height = height, br_hash = hash, br_parent = parent, br_timestamp = Some timestamp\<rparr>,
         bb_transactions = transactions\<rparr>)))))))))))))"

definition parse_block ::
  "'n native_codec \<Rightarrow> u8 list \<Rightarrow> block_height option \<Rightarrow> block_hash option \<Rightarrow> bitcoin_network \<Rightarrow> (chain_error, btc_block) result" where
  "parse_block nc raw expected_height expected_hash network =
     map_err invalid_transaction (parse_block_data nc raw expected_height expected_hash network)"


section \<open>What a parsed block is\<close>

text \<open>Amounts are exact.\<close>

lemma split_char_join: "split_char d s \<noteq> [] \<and> s = hd (split_char d s) @ concat (map ((#) d) (tl (split_char d s)))"
proof (induction s)
  case (Cons c s)
  then show ?case by (cases "split_char d s") auto
qed simp

lemma amount_parts_text:
  assumes "amount_parts lexical = (whole, fraction, False)"
  shows "lexical = whole \<and> fraction = [] \<or> lexical = whole @ CHR ''.'' # fraction"
proof -
  define ps where "ps = split_char CHR ''.'' lexical"
  have "ps \<noteq> []" "lexical = hd ps @ concat (map ((#) CHR ''.'') (tl ps))" using split_char_join unfolding ps_def by blast+
  moreover have "ps = [whole] \<and> fraction = [] \<or> ps = [whole, fraction]"
    using assms \<open>ps \<noteq> []\<close> by (auto simp: amount_parts_def ps_def [symmetric] split: list.splits)
  ultimately show ?thesis by auto
qed

lemma fraction_value:
  assumes "(if fraction = [] then Ok 0
      else and_then (ok_or (digits_u64 fraction) e) (\<lambda>v. ok_or (checked_mul v (10 ^ (8 - length fraction))) e')) = Ok (w :: u64)"
    "length fraction \<le> 8"
  shows "unat w = parse_digits fraction * 10 ^ (8 - length fraction)"
proof (cases "fraction = []")
  case True
  then show ?thesis using assms(1) by (simp add: parse_digits_def)
next
  case False
  have "8 - length fraction \<in> {0, 1, 2, 3, 4, 5, 6, 7, 8}" by auto
  then have "unat (10 ^ (8 - length fraction) :: u64) = 10 ^ (8 - length fraction)" by auto
  with False assms(1) show ?thesis by (auto simp: result_simps width_simps digits_u64_iff)
qed

lemma from_block_json_Ok:
  assumes "from_block_json j subject = Ok v"
  shows "\<exists>whole fraction. (j = JNumber whole \<and> fraction = [] \<or> j = JNumber (whole @ CHR ''.'' # fraction)) \<and>
    list_all is_digit whole \<and> list_all is_digit fraction \<and> length fraction \<le> 8 \<and>
    unat v = parse_digits whole * 10 ^ 8 + parse_digits fraction * 10 ^ (8 - length fraction)"
proof -
  from assms obtain lexical where lexical: "j = JNumber lexical" by (cases j) (auto simp: from_block_json_def)
  obtain whole fraction third where parts: "amount_parts lexical = (whole, fraction, third)" by (cases "amount_parts lexical") auto
  from assms obtain units fractional where
      ok: "\<not> (third \<or> whole = [] \<or> \<not> list_all is_digit whole \<or> \<not> list_all is_digit fraction \<or> length fraction > 8)"
      "digits_u64 whole = Some units"
      "(if fraction = [] then Ok 0
        else and_then (ok_or (digits_u64 fraction) (fraction_invalid subject)) (\<lambda>v.
          ok_or (checked_mul v (10 ^ (8 - length fraction))) (exceeds_satoshis subject))) = Ok fractional"
      "Option.bind (checked_mul units SATOSHIS_PER_BITCOIN) (\<lambda>v. checked_add v fractional) = Some v"
    unfolding from_block_json_def lexical json_as_number.simps ok_or_simps and_then_simps parts prod.case and_then_Ok_iff ok_or_iff fail_if_iff
    by blast
  have units: "unat units = parse_digits whole" using ok(2) by (simp add: digits_u64_iff)
  have part: "unat fractional = parse_digits fraction * 10 ^ (8 - length fraction)"
    by (rule fraction_value [OF ok(3)]) (use ok(1) in simp)
  obtain w where "checked_mul units SATOSHIS_PER_BITCOIN = Some w" "checked_add w fractional = Some v"
    using ok(4) by (cases "checked_mul units SATOSHIS_PER_BITCOIN") auto
  then have "unat v = unat units * 100000000 + unat fractional" by (simp add: width_simps SATOSHIS_PER_BITCOIN_def)
  then have "unat v = parse_digits whole * 10 ^ 8 + parse_digits fraction * 10 ^ (8 - length fraction)" using units part by simp
  moreover have "lexical = whole \<and> fraction = [] \<or> lexical = whole @ CHR ''.'' # fraction"
    using amount_parts_text parts ok(1) by simp
  ultimately show ?thesis using ok(1) lexical by (intro exI [of _ whole] exI [of _ fraction]) auto
qed

text \<open>The shape of the inputs: none of a coinbase is resolved, all of another transaction are.\<close>

definition inputs_shaped :: "btc_transaction \<Rightarrow> bool" where
  "inputs_shaped t \<longleftrightarrow>
     list_all (\<lambda>x. x = None \<longleftrightarrow> bt_coinbase t) (bt_inputs t)"

text \<open>What an input claims of an output of the block is what the output is.\<close>

definition locals_of :: "'n native_codec \<Rightarrow> bitcoin_network \<Rightarrow> btc_transaction list \<Rightarrow> btc_outpoint \<rightharpoonup> btc_previous_output" where
  "locals_of nc network ts =
     fold (\<lambda>t m. fold (\<lambda>(i, output) m. m((bt_id t, of_nat i) \<mapsto> local_output nc network (bt_id t) i output)) (enumerate 0 (bt_outputs t)) m)
       ts Map.empty"

lemma locals_of_snoc:
  "locals_of nc network (ts @ [t]) =
     fold (\<lambda>(i, output) m. m((bt_id t, of_nat i) \<mapsto> local_output nc network (bt_id t) i output)) (enumerate 0 (bt_outputs t))
       (locals_of nc network ts)"
  by (simp add: locals_of_def)

lemma add_local_outputs_Ok:
  "add_local_outputs nc network txid k outputs m = Ok m' \<Longrightarrow>
     m' = fold (\<lambda>(i, output) m. m((txid, of_nat i) \<mapsto> local_output nc network txid i output)) (enumerate k outputs) m"
  by (induction outputs arbitrary: k m) (auto simp: result_simps)

lemma parse_prevout_outpoint: "parse_prevout nc prevout p height network = Ok q \<Longrightarrow> po_outpoint q = p"
  by (auto simp: parse_prevout_def parse_verbose_def result_simps split: option.splits)

lemma parse_input_Ok:
  assumes "parse_input nc network height coinbase m k input native = Ok x"
  shows "if nc_is_null nc native then coinbase \<and> x = None
    else \<not> coinbase \<and> (\<exists>q. x = Some q \<and> (\<forall>l. m native = Some l \<longrightarrow> q = l) \<and> (m native = None \<longrightarrow> po_outpoint q = native))"
proof (cases "nc_is_null nc native")
  case True
  then show ?thesis using assms by (auto simp: parse_input_def result_simps)
next
  case False
  from assms obtain obj where obj: "\<not> coinbase" "(case Option.bind (map_of obj ''prevout'') json_as_object of
       Some prevout \<Rightarrow>
         and_then (parse_prevout nc prevout native height network) (\<lambda>found.
         and_then (fail_if (case m native of None \<Rightarrow> False | Some l \<Rightarrow> l \<noteq> found) (prevout_conflict k)) (\<lambda>_.
         Ok (Some found)))
     | None \<Rightarrow> and_then (ok_or (m native) (prevout_unresolved k)) (\<lambda>found. Ok (Some found))) = Ok x"
    by (cases "json_as_object input") (use False in \<open>auto simp: parse_input_def result_simps\<close>)
  show ?thesis
  proof (cases "Option.bind (map_of obj ''prevout'') json_as_object")
    case None
    then show ?thesis using obj False by (auto simp: result_simps)
  next
    case (Some prevout)
    then obtain q where "parse_prevout nc prevout native height network = Ok q" "x = Some q" "\<forall>l. m native = Some l \<longrightarrow> q = l"
      using obj(2) by (auto simp: result_simps split: option.splits)
    then show ?thesis using parse_prevout_outpoint [of nc prevout native height network q] obj(1) False by auto
  qed
qed

lemma parse_inputs_Ok:
  assumes "parse_inputs nc network height coinbase m k ins = Ok xs" "\<And>p l. m p = Some l \<Longrightarrow> po_outpoint l = p"
  shows "list_all (\<lambda>x. x = None \<longleftrightarrow> coinbase) xs \<and>
    map po_outpoint (concat (map opt_list xs)) = filter (\<lambda>p. \<not> nc_is_null nc p) (map snd ins) \<and>
    (\<forall>q \<in> set (concat (map opt_list xs)). \<forall>l. m (po_outpoint q) = Some l \<longrightarrow> q = l)"
  using assms(1)
proof (induction ins arbitrary: k xs)
  case (Cons entry ins)
  obtain input native where entry: "entry = (input, native)" by (cases entry)
  with Cons.prems obtain x ys where x: "parse_input nc network height coinbase m k input native = Ok x"
      "parse_inputs nc network height coinbase m (k + 1) ins = Ok ys" "xs = x # ys"
    by (auto simp: result_simps)
  note IH = Cons.IH [OF x(2)]
  note one = parse_input_Ok [OF x(1)]
  show ?case
  proof (cases "nc_is_null nc native")
    case True
    with one IH x(3) entry show ?thesis by (simp add: opt_list_def)
  next
    case False
    with one obtain q where q: "\<not> coinbase" "x = Some q" "\<forall>l. m native = Some l \<longrightarrow> q = l" "m native = None \<longrightarrow> po_outpoint q = native"
      by auto
    have eq: "po_outpoint q = native"
    proof (cases "m native")
      case (Some l)
      then show ?thesis using q(3) assms(2) [OF Some] by metis
    qed (use q(4) in simp)
    have res: "concat (map opt_list xs) = q # concat (map opt_list ys)" by (simp add: x(3) q(2) opt_list_def)
    have "q' = l" if "q' \<in> set (q # concat (map opt_list ys))" "m (po_outpoint q') = Some l" for q' l
      using that eq q(3) IH by (metis set_ConsD)
    moreover have "list_all (\<lambda>x. x = None \<longleftrightarrow> coinbase) xs" using IH q(1,2) x(3) by simp
    moreover have "map po_outpoint (q # concat (map opt_list ys)) = filter (\<lambda>p. \<not> nc_is_null nc p) (map snd (entry # ins))"
      using IH eq False entry by simp
    ultimately show ?thesis unfolding res by blast
  qed
qed simp

lemma locals_outpoint: "locals_of nc network ts p = Some l \<Longrightarrow> po_outpoint l = p"
proof -
  let ?P = "\<lambda>m :: btc_outpoint \<rightharpoonup> btc_previous_output. \<forall>p l. m p = Some l \<longrightarrow> po_outpoint l = p"
  have "?P (locals_of nc network ts)"
    unfolding locals_of_def
  proof (rule fold_invariant [where Q = "\<lambda>_. True" and P = ?P])
    fix t :: btc_transaction and m :: "btc_outpoint \<rightharpoonup> btc_previous_output"
    assume "?P m"
    then show "?P (fold (\<lambda>(i, output) m. m((bt_id t, of_nat i) \<mapsto> local_output nc network (bt_id t) i output)) (enumerate 0 (bt_outputs t)) m)"
      by (intro fold_invariant [where Q = "\<lambda>_. True" and P = ?P]) (auto simp: local_output_def split: if_splits)
  qed auto
  then show "locals_of nc network ts p = Some l \<Longrightarrow> po_outpoint l = p" by blast
qed

text \<open>The transactions of a parsed block, read one after the other.\<close>

inductive parsed :: "'n native_codec \<Rightarrow> bitcoin_network \<Rightarrow> btc_transaction list \<Rightarrow> bool" for nc network where
  parsed_Nil: "parsed nc network []"
| parsed_snoc: "parsed nc network ts \<Longrightarrow> inputs_shaped t \<Longrightarrow> bt_id t \<notin> bt_id ` set ts \<Longrightarrow>
    (\<forall>q \<in> set (resolved_inputs t). \<forall>l. locals_of nc network ts (po_outpoint q) = Some l \<longrightarrow> q = l) \<Longrightarrow> parsed nc network (ts @ [t])"

text \<open>The consensus transaction a JSON object carries.\<close>

definition native_of :: "'n native_codec \<Rightarrow> json \<Rightarrow> native_transaction option" where
  "native_of nc j =
     (case json_get j ''hex'' of Some (JString hex) \<Rightarrow> Option.bind (nc_from_hex nc hex) (nc_deserialize nc) | _ \<Rightarrow> None)"

lemma required_string_Ok: "required_string obj name subject = Ok s \<longleftrightarrow> map_of obj name = Some (JString s) \<and> s \<noteq> []"
  by (auto simp: required_string_def result_simps bind_eq_Some_conv json_as_str_iff)

abbreviation native_output :: "btc_output_data \<Rightarrow> satoshi \<times> script" where
  "native_output output \<equiv> (bd_value output, bd_script_pubkey output)"

lemma parse_outputs_native: "parse_outputs nc k outs = Ok xs \<Longrightarrow> map native_output xs = map snd outs"
  by (induction outs arbitrary: k xs) (auto simp: result_simps parse_output_def)

lemma parse_transaction_steps:
  assumes "parse_transaction nc network height m j = Ok t"
  obtains native input_values where "native_of nc j = Some native" "nc_compute_txid nc native = bt_id t"
    "json_get j ''vin'' = Some (JArray input_values)" "length input_values = length (nt_inputs native)"
    "parse_inputs nc network height (bt_coinbase t) m 0 (zip input_values (nt_inputs native)) = Ok (bt_inputs t)"
    "map native_output (bt_outputs t) = nt_outputs native" "bt_coinbase t = nc_is_coinbase nc native"
proof -
  from assms obtain obj where obj: "j = JObject obj"
    by (cases j) (simp_all add: parse_transaction_def)
  from assms show ?thesis
    unfolding parse_transaction_def obj json_as_object.simps ok_or_simps and_then_simps and_then_Ok_iff
  proof (elim exE conjE)
    fix shown txid hex raw native u1 input_values u2 inputs output_values u3 outputs
    assume steps: "required_string obj ''hex'' btc_raw_subject = Ok hex" "ok_or (nc_from_hex nc hex) btc_hex_error = Ok raw"
      "ok_or (nc_deserialize nc raw) btc_consensus_error = Ok native" "fail_if (nc_compute_txid nc native \<noteq> txid) btc_id_mismatch = Ok u1"
      "ok_or (Option.bind (map_of obj ''vin'') json_as_array) inputs_array_error = Ok input_values"
      "fail_if (length input_values \<noteq> length (nt_inputs native)) input_count_error = Ok u2"
      "parse_inputs nc network height (nc_is_coinbase nc native) m 0 (zip input_values (nt_inputs native)) = Ok inputs"
      "fail_if (length output_values \<noteq> length (nt_outputs native)) output_count_error = Ok u3"
      "parse_outputs nc 0 (zip output_values (nt_outputs native)) = Ok outputs"
      "Ok \<lparr>bt_id = txid, bt_inputs = inputs, bt_outputs = outputs, bt_coinbase = nc_is_coinbase nc native\<rparr> = (Ok t :: (string, btc_transaction) result)"
    have t: "t = \<lparr>bt_id = txid, bt_inputs = inputs, bt_outputs = outputs, bt_coinbase = nc_is_coinbase nc native\<rparr>" using steps(10) by simp
    show ?thesis
    proof (rule that)
      show "native_of nc j = Some native" using steps(1-3) by (simp add: native_of_def obj required_string_Ok result_simps)
      show "json_get j ''vin'' = Some (JArray input_values)"
        using steps(5) by (auto simp: obj result_simps bind_eq_Some_conv json_as_array_iff)
      show "map native_output (bt_outputs t) = nt_outputs native"
        using parse_outputs_native [OF steps(9)] steps(8) t by (simp add: result_simps)
    qed (use steps(4,6,7) t in \<open>simp_all add: result_simps\<close>)
  qed
qed

lemma parse_transaction_Ok:
  assumes "parse_transaction nc network height m j = Ok t" "\<And>p l. m p = Some l \<Longrightarrow> po_outpoint l = p"
  shows "inputs_shaped t \<and> (\<forall>q \<in> set (resolved_inputs t). \<forall>l. m (po_outpoint q) = Some l \<longrightarrow> q = l)"
    "\<exists>native. native_of nc j = Some native \<and> bt_id t = nc_compute_txid nc native \<and>
      spent_outpoints t = filter (\<lambda>p. \<not> nc_is_null nc p) (nt_inputs native) \<and> map native_output (bt_outputs t) = nt_outputs native"
proof -
  from assms(1) obtain native input_values where t: "native_of nc j = Some native" "nc_compute_txid nc native = bt_id t"
      "length input_values = length (nt_inputs native)"
      "parse_inputs nc network height (bt_coinbase t) m 0 (zip input_values (nt_inputs native)) = Ok (bt_inputs t)"
      "map native_output (bt_outputs t) = nt_outputs native"
    by (rule parse_transaction_steps)
  note read = parse_inputs_Ok [OF t(4) assms(2)]
  then show "inputs_shaped t \<and> (\<forall>q \<in> set (resolved_inputs t). \<forall>l. m (po_outpoint q) = Some l \<longrightarrow> q = l)"
    unfolding inputs_shaped_def resolved_inputs_def by blast
  show "\<exists>native. native_of nc j = Some native \<and> bt_id t = nc_compute_txid nc native \<and>
      spent_outpoints t = filter (\<lambda>p. \<not> nc_is_null nc p) (nt_inputs native) \<and> map native_output (bt_outputs t) = nt_outputs native"
    using t read by (auto simp: spent_outpoints_def resolved_inputs_def)
qed

lemma parse_transactions_Ok:
  assumes "parse_transactions nc network height js (bt_id ` set ts) (locals_of nc network ts) = Ok ts'" "parsed nc network ts"
  shows "parsed nc network (ts @ ts')"
  using assms
proof (induction js arbitrary: ts ts')
  case (Cons j js)
  from Cons.prems(1) obtain t m rest where step: "parse_transaction nc network height (locals_of nc network ts) j = Ok t"
      "bt_id t \<notin> bt_id ` set ts" "add_local_outputs nc network (bt_id t) 0 (bt_outputs t) (locals_of nc network ts) = Ok m"
      "parse_transactions nc network height js (insert (bt_id t) (bt_id ` set ts)) m = Ok rest" "ts' = t # rest"
    by (auto simp: result_simps)
  have "m = locals_of nc network (ts @ [t])" using add_local_outputs_Ok [OF step(3)] by (simp add: locals_of_snoc)
  then have "parse_transactions nc network height js (bt_id ` set (ts @ [t])) (locals_of nc network (ts @ [t])) = Ok rest"
    using step(4) by simp
  moreover have "inputs_shaped t \<and>
      (\<forall>q \<in> set (resolved_inputs t). \<forall>l. locals_of nc network ts (po_outpoint q) = Some l \<longrightarrow> q = l)"
    by (rule parse_transaction_Ok(1) [OF step(1)]) (rule locals_outpoint)
  then have "parsed nc network (ts @ [t])" using step(2) Cons.prems(2) by (intro parsed_snoc) auto
  ultimately show ?case using Cons.IH step(5) by fastforce
qed simp

lemma parsed_distinct: "parsed nc network ts \<Longrightarrow> distinct (map bt_id ts)"
  by (induction rule: parsed.induct) auto

lemma parsed_shaped: "parsed nc network ts \<Longrightarrow> list_all inputs_shaped ts"
  by (induction rule: parsed.induct) auto


text \<open>What the consensus bytes of the block's JSON say of the transactions.\<close>

definition reads_native :: "'n native_codec \<Rightarrow> json \<Rightarrow> btc_transaction \<Rightarrow> bool" where
  "reads_native nc j t \<longleftrightarrow>
     (\<exists>native. native_of nc j = Some native \<and> bt_id t = nc_compute_txid nc native \<and>
        spent_outpoints t = filter (\<lambda>p. \<not> nc_is_null nc p) (nt_inputs native) \<and> map native_output (bt_outputs t) = nt_outputs native)"

lemma parse_transactions_native:
  assumes "parse_transactions nc network height js ids m = Ok ts" "\<And>p l. m p = Some l \<Longrightarrow> po_outpoint l = p"
  shows "list_all2 (reads_native nc) js ts"
  using assms
proof (induction js arbitrary: ids m ts)
  case (Cons j js)
  from Cons.prems(1) obtain t m' rest where step: "parse_transaction nc network height m j = Ok t"
      "add_local_outputs nc network (bt_id t) 0 (bt_outputs t) m = Ok m'"
      "parse_transactions nc network height js (insert (bt_id t) ids) m' = Ok rest" "ts = t # rest"
    by (auto simp: result_simps)
  let ?P = "\<lambda>m :: btc_outpoint \<rightharpoonup> btc_previous_output. \<forall>p l. m p = Some l \<longrightarrow> po_outpoint l = p"
  have "?P m'"
    unfolding add_local_outputs_Ok [OF step(2)]
    by (rule fold_invariant [where Q = "\<lambda>_. True" and P = ?P]) (use Cons.prems(2) in \<open>auto simp: local_output_def split: if_splits\<close>)
  then have "list_all2 (reads_native nc) js rest" using Cons.IH [OF step(3)] by blast
  moreover have "reads_native nc j t" unfolding reads_native_def by (rule parse_transaction_Ok(2) [OF step(1) Cons.prems(2)])
  ultimately show ?case using step(4) by simp
qed simp

text \<open>The reference of a block: its height is its position, and only the genesis block has no parent.\<close>

definition reference_shaped :: "block_ref \<Rightarrow> bool" where
  "reference_shaped r \<longleftrightarrow>
     br_position r = br_height r \<and>
     (case br_parent r of None \<Rightarrow> br_height r = 0 | Some parent \<Rightarrow> br_height r \<noteq> 0 \<and> bp_position parent = br_height r - 1)"

lemma parse_block_data_Ok:
  assumes "parse_block_data nc raw expected_height expected_hash network = Ok b"
  shows "(\<forall>h. expected_height = Some h \<longrightarrow> br_height (bb_reference b) = h) \<and>
    (\<forall>hash. expected_hash = Some hash \<longrightarrow> br_hash (bb_reference b) = hash) \<and> reference_shaped (bb_reference b) \<and>
    (\<exists>j js. nc_from_slice nc raw = Some j \<and> json_get j ''tx'' = Some (JArray js) \<and>
      parse_transactions nc network (br_height (bb_reference b)) js {} Map.empty = Ok (bb_transactions b))"
proof -
  from assms obtain j obj where j: "nc_from_slice nc raw = Some j" "j = JObject obj"
    by (cases "nc_from_slice nc raw") (auto simp: parse_block_data_def result_simps json_as_object_iff)
  from assms [unfolded parse_block_data_def j json_as_object.simps ok_or_simps and_then_simps and_then_Ok_iff] show ?thesis
  proof (elim exE conjE)
    fix height u1 hash u2 u3 parent timestamp js count u4 ts
    assume steps: "fail_if (expected_height \<noteq> None \<and> expected_height \<noteq> Some height) block_height_error = Ok u1"
      "fail_if (expected_hash \<noteq> None \<and> expected_hash \<noteq> Some hash) btc_block_hash_error = Ok u2"
      "(if height = 0 then Ok None
        else and_then (hash_field nc obj ''previousblockhash'' block_parent_subject) (\<lambda>parent.
             Ok (Some \<lparr>bp_position = height - 1, bp_hash = parent\<rparr>))) = Ok parent"
      "ok_or (Option.bind (map_of obj ''tx'') json_as_array) block_array_error = Ok js"
      "parse_transactions nc network height js {} Map.empty = Ok ts"
      "Ok \<lparr>bb_reference = \<lparr>br_position = height, br_height = height, br_hash = hash, br_parent = parent, br_timestamp = Some timestamp\<rparr>,
         bb_transactions = ts\<rparr> = (Ok b :: (string, btc_block) result)"
    then have b: "b = \<lparr>bb_reference = \<lparr>br_position = height, br_height = height, br_hash = hash, br_parent = parent, br_timestamp = Some timestamp\<rparr>,
         bb_transactions = ts\<rparr>" by simp
    have "json_get j ''tx'' = Some (JArray js)" using steps(4) j(2) by (auto simp: result_simps bind_eq_Some_conv json_as_array_iff)
    moreover have "reference_shaped (bb_reference b)"
      using steps(3) b by (auto simp: reference_shaped_def result_simps split: if_splits)
    ultimately show ?thesis using steps(1,2,5) b j by (auto simp: result_simps)
  qed
qed

section \<open>Authentic previous outputs\<close>

text \<open>A previous output is authentic when it is the output at its index of a consensus transaction with its identifier.\<close>

definition authentic :: "'n native_codec \<Rightarrow> bitcoin_network \<Rightarrow> btc_previous_output \<Rightarrow> bool" where
  "authentic nc network q \<longleftrightarrow>
     (\<exists>raw ntx. nc_deserialize nc raw = Some ntx \<and> nc_compute_txid nc ntx = fst (po_outpoint q) \<and>
        unat (snd (po_outpoint q)) < length (nt_outputs ntx) \<and>
        (case nt_outputs ntx ! unat (snd (po_outpoint q)) of (amount, script) \<Rightarrow>
           po_value q = amount \<and> po_address q = from_script_for_network (nc_indexing nc) script network))"

abbreviation locals_authentic :: "'n native_codec \<Rightarrow> bitcoin_network \<Rightarrow> (btc_outpoint \<rightharpoonup> btc_previous_output) \<Rightarrow> bool" where
  "locals_authentic nc network m \<equiv> \<forall>p l. m p = Some l \<longrightarrow> authentic nc network l \<and> po_outpoint l = p"

lemma native_of_deserialize: "native_of nc j = Some ntx \<Longrightarrow> \<exists>raw. nc_deserialize nc raw = Some ntx"
  by (auto simp: native_of_def bind_eq_Some_conv split: option.splits json.splits)

lemma local_output_authentic:
  assumes "nc_deserialize nc raw = Some ntx" "k < length (nt_outputs ntx)" "nt_outputs ntx ! k = native_output output" "k < 2 ^ 32"
  shows "authentic nc network (local_output nc network (nc_compute_txid nc ntx) k output)"
proof -
  have "unat (of_nat k :: u32) = k" using assms(4) by (simp add: unat_of_nat)
  then show ?thesis using assms by (auto simp: authentic_def local_output_def intro!: exI [of _ raw] exI [of _ ntx])
qed

lemma add_local_outputs_authentic:
  assumes "add_local_outputs nc network txid k outputs m = Ok m'" "locals_authentic nc network m"
    and "nc_deserialize nc raw = Some ntx" "nc_compute_txid nc ntx = txid"
    and "\<forall>a < length outputs. k + a < length (nt_outputs ntx) \<and> nt_outputs ntx ! (k + a) = native_output (outputs ! a)"
  shows "locals_authentic nc network m'"
  using assms
proof (induction outputs arbitrary: k m)
  case (Cons x outputs)
  let ?m = "m((txid, of_nat k) \<mapsto> local_output nc network txid k x)"
  from Cons.prems(1) have step: "k < 2 ^ 32" "add_local_outputs nc network txid (k + 1) outputs ?m = Ok m'" by (simp_all add: result_simps)
  have here: "k + 0 < length (nt_outputs ntx) \<and> nt_outputs ntx ! (k + 0) = native_output ((x # outputs) ! 0)"
    using Cons.prems(5) by blast
  have "authentic nc network (local_output nc network txid k x)"
    using local_output_authentic [OF Cons.prems(3) _ _ step(1), of x network] here Cons.prems(4) by simp
  then have "locals_authentic nc network ?m" using Cons.prems(2) by (simp add: local_output_def)
  moreover have "\<forall>a < length outputs. k + 1 + a < length (nt_outputs ntx) \<and> nt_outputs ntx ! (k + 1 + a) = native_output (outputs ! a)"
    using Cons.prems(5) by fastforce
  ultimately show ?case using Cons.IH [OF step(2)] Cons.prems(3,4) by blast
qed simp

text \<open>What the source leaves in an input: nothing, or the value and address of an authentic output.\<close>

definition compact_prevout :: "u64 \<Rightarrow> string option \<Rightarrow> json" where
  "compact_prevout amount address =
     JObject [(''value_satoshis'', JNumber (to_digits (unat amount))),
              (''address'', case address of None \<Rightarrow> JNull | Some a \<Rightarrow> JString a)]"

definition prevout_authentic :: "'n native_codec \<Rightarrow> bitcoin_network \<Rightarrow> json \<Rightarrow> btc_outpoint \<Rightarrow> bool" where
  "prevout_authentic nc network input p \<longleftrightarrow>
     nc_is_null nc p \<or>
     (\<exists>obj. input = JObject obj \<and>
        (map_of obj ''prevout'' = None \<or>
         (\<exists>amount address. map_of obj ''prevout'' = Some (compact_prevout amount address) \<and>
            authentic nc network \<lparr>po_outpoint = p, po_value = amount, po_address = address\<rparr>)))"

definition inputs_authentic :: "'n native_codec \<Rightarrow> bitcoin_network \<Rightarrow> json \<Rightarrow> bool" where
  "inputs_authentic nc network j \<longleftrightarrow>
     (\<exists>ntx inputs. native_of nc j = Some ntx \<and> json_get j ''vin'' = Some (JArray inputs) \<and>
        list_all (\<lambda>(input, p). prevout_authentic nc network input p) (zip inputs (nt_inputs ntx)))"

lemma digits_to_digits: "digits_u64 (to_digits (unat (v :: u64))) = Some v"
  by (simp add: digits_u64_iff to_digits_all_digits)

lemma parse_compact:
  assumes "parse_prevout nc obj p height network = Ok q" "JObject obj = compact_prevout amount address"
  shows "q = \<lparr>po_outpoint = p, po_value = amount, po_address = address\<rparr>"
  using assms by (auto simp: compact_prevout_def parse_prevout_def json_as_u64_def digits_to_digits compact_address_def result_simps
      split: option.splits)

lemma parse_input_authentic:
  assumes "parse_input nc network height coinbase m k input p = Ok (Some q)" "prevout_authentic nc network input p"
    "locals_authentic nc network m"
  shows "authentic nc network q"
proof -
  from assms(1) obtain obj where obj: "input = JObject obj" by (cases input) (simp_all add: parse_input_def)
  have null: "\<not> nc_is_null nc p" using assms(1) obj by (auto simp: parse_input_def result_simps)
  show ?thesis
  proof (cases "map_of obj ''prevout''")
    case None
    then have "Option.bind (map_of obj ''prevout'') json_as_object = None" by (simp only: Option.bind.simps)
    then have "m p = Some q" using assms(1) obj null by (auto simp: parse_input_def result_simps)
    then show ?thesis using assms(3) by blast
  next
    case (Some j)
    then obtain amount address where j: "j = compact_prevout amount address"
        "authentic nc network \<lparr>po_outpoint = p, po_value = amount, po_address = address\<rparr>"
      using assms(2) null unfolding prevout_authentic_def obj json.inject by force
    obtain prevout where prevout: "j = JObject prevout" using j(1) by (simp add: compact_prevout_def)
    then have "parse_prevout nc prevout p height network = Ok q" using assms(1) obj null Some by (auto simp: parse_input_def result_simps)
    from parse_compact [OF this] show ?thesis using j prevout by simp
  qed
qed

lemma parse_inputs_authentic:
  assumes "parse_inputs nc network height coinbase m k ins = Ok xs"
    "list_all (\<lambda>(input, p). prevout_authentic nc network input p) ins" "locals_authentic nc network m"
  shows "\<forall>q \<in> set (concat (map opt_list xs)). authentic nc network q"
  using assms(1,2)
proof (induction ins arbitrary: k xs)
  case (Cons entry ins)
  obtain input p where entry: "entry = (input, p)" by (cases entry)
  with Cons.prems obtain x ys where x: "parse_input nc network height coinbase m k input p = Ok x"
      "parse_inputs nc network height coinbase m (k + 1) ins = Ok ys" "xs = x # ys"
    by (auto simp: result_simps)
  have "authentic nc network q" if "x = Some q" for q
    using parse_input_authentic [OF _ _ assms(3)] x(1) that Cons.prems(2) entry by auto
  moreover have "\<forall>q \<in> set (concat (map opt_list ys)). authentic nc network q" using Cons.IH [OF x(2)] Cons.prems(2) by simp
  ultimately show ?case using x(3) by (auto simp: opt_list_def split: option.splits)
qed simp

lemma parse_transactions_authentic:
  assumes "parse_transactions nc network height js ids m = Ok ts" "list_all (inputs_authentic nc network) js" "locals_authentic nc network m"
  shows "\<forall>t \<in> set ts. \<forall>q \<in> set (resolved_inputs t). authentic nc network q"
  using assms
proof (induction js arbitrary: ids m ts)
  case (Cons j js)
  from Cons.prems(1) obtain t m' rest where step: "parse_transaction nc network height m j = Ok t"
      "add_local_outputs nc network (bt_id t) 0 (bt_outputs t) m = Ok m'"
      "parse_transactions nc network height js (insert (bt_id t) ids) m' = Ok rest" "ts = t # rest"
    by (auto simp: result_simps)
  from step(1) obtain ntx inputs where t: "native_of nc j = Some ntx" "nc_compute_txid nc ntx = bt_id t"
      "json_get j ''vin'' = Some (JArray inputs)"
      "parse_inputs nc network height (bt_coinbase t) m 0 (zip inputs (nt_inputs ntx)) = Ok (bt_inputs t)"
      "map native_output (bt_outputs t) = nt_outputs ntx"
    by (rule parse_transaction_steps)
  have "list_all (\<lambda>(input, p). prevout_authentic nc network input p) (zip inputs (nt_inputs ntx))"
    using Cons.prems(2) t(1,3) by (simp add: inputs_authentic_def)
  then have "\<forall>q \<in> set (resolved_inputs t). authentic nc network q"
    using parse_inputs_authentic [OF t(4) _ Cons.prems(3)] by (simp add: resolved_inputs_def)
  moreover have "locals_authentic nc network m'"
  proof -
    obtain raw where "nc_deserialize nc raw = Some ntx" using native_of_deserialize [OF t(1)] by blast
    then show ?thesis
      using add_local_outputs_authentic [OF step(2) Cons.prems(3) _ t(2)] t(5) [symmetric] by simp
  qed
  then have "\<forall>t \<in> set rest. \<forall>q \<in> set (resolved_inputs t). authentic nc network q" using Cons.IH [OF step(3)] Cons.prems(2) by simp
  ultimately show ?case using step(4) by simp
qed simp

end
