(* ===== verification/Bitcoin_Source.thy ===== *)
theory Bitcoin_Source
  imports Bitcoin_Blocks
begin

text \<open>
  The block source over Bitcoin Core (\<open>sdk/chains/bitcoin/src/indexer/source, rpc/client.rs, rpc/blocks.rs, rpc/wire.rs\<close>): calls and
  their failures, block hashes and headers, the resolution of previous outputs outside the block, and the
  blocks delivered to the synchronizer. The transport, the JSON codec and the native codec are parameters;
  the order in which concurrent lookups finish is a parameter too.
\<close>

section \<open>Calls\<close>

definition btc_source_error :: "string \<Rightarrow> bool \<Rightarrow> source_error" where
  "btc_source_error message retryable = \<lparr>se_message = message, se_retryable = retryable\<rparr>"

abbreviation retry :: "string \<Rightarrow> source_error" where "retry message \<equiv> btc_source_error message True"

record btc_failure =
  bf_code :: int

record call_failure =
  cf_remote_code :: "int option"
  cf_error :: source_error

record source_config =
  scf_scope :: index_scope
  scf_network :: bitcoin_network
  scf_genesis_hash :: block_hash

record core_config =
  cc_network :: bitcoin_network
  cc_genesis_hash :: block_hash

text \<open>
  The transport answers with raw bytes, with a failure of the node, or with an error of its own. \<open>bs_schedule\<close>
  is the order in which the lookups of previous transactions complete.
\<close>

record ('n, 'w) btc_source =
  bs_codec :: "'n native_codec"
  bs_config :: source_config
  bs_request :: "string \<Rightarrow> json \<Rightarrow> ('w, source_error, (btc_failure, u8 list) result) eff"
  bs_text :: "u8 list \<Rightarrow> (string, string) result"
  bs_number :: "u8 list \<Rightarrow> (string, u64) result"
  bs_value :: "u8 list \<Rightarrow> (source_error, json) result"
  bs_to_vec :: "json \<Rightarrow> u8 list option"
  bs_display_hash :: "block_hash \<Rightarrow> string"
  bs_schedule :: "(u8 list \<times> u32 list) list \<Rightarrow> (u8 list \<times> u32 list) list"

definition is_server_error :: "btc_failure \<Rightarrow> bool" where
  "is_server_error f \<longleftrightarrow> -32099 \<le> bf_code f \<and> bf_code f \<le> -32000"

definition failure_remote :: "btc_failure \<Rightarrow> call_failure" where
  "failure_remote f =
     \<lparr>cf_remote_code = Some (bf_code f),
      cf_error = btc_source_error (''Bitcoin JSON-RPC request failed with code '' @
          (if bf_code f < 0 then CHR ''-'' # to_digits (nat (- bf_code f)) else to_digits (nat (bf_code f))))
        (bf_code f = -28 \<or> is_server_error f)\<rparr>"

definition failure_local :: "source_error \<Rightarrow> call_failure" where
  "failure_local e = \<lparr>cf_remote_code = None, cf_error = e\<rparr>"

definition request_detailed :: "('n, 'w) btc_source \<Rightarrow> string \<Rightarrow> json \<Rightarrow> ('w, call_failure, u8 list) eff" where
  "request_detailed bs method params =
     bind_eff (eff_err failure_local (bs_request bs method params)) (\<lambda>answer.
     lift_result (map_err failure_remote answer))"

definition btc_request_result :: "('n, 'w) btc_source \<Rightarrow> string \<Rightarrow> json \<Rightarrow> ('w, source_error, u8 list) eff" where
  "btc_request_result bs method params = eff_err cf_error (request_detailed bs method params)"

definition request_optional_result ::
  "('n, 'w) btc_source \<Rightarrow> string \<Rightarrow> json \<Rightarrow> int list \<Rightarrow> ('w, source_error, u8 list option) eff" where
  "request_optional_result bs method params missing_codes =
     (\<lambda>w. case request_detailed bs method params w of
            (Ok raw, w') \<Rightarrow> (Ok (Some raw), w')
          | (Err failure, w') \<Rightarrow>
              (case cf_remote_code failure of
                 Some code \<Rightarrow> if code \<in> set missing_codes then (Ok None, w') else (Err (cf_error failure), w')
               | None \<Rightarrow> (Err (cf_error failure), w')))"

section \<open>Configuration\<close>

definition genesis_length_error :: source_error where
  "genesis_length_error = btc_source_error ''configured Bitcoin genesis hash must be 32 bytes'' False"
definition source_chain_error :: source_error where
  "source_chain_error = btc_source_error ''Bitcoin index source scope must use the bitcoin chain ID'' False"
definition source_network_error :: source_error where
  "source_network_error = btc_source_error ''Bitcoin index source scope network does not match configuration'' False"
definition source_mismatch_error :: source_error where
  "source_mismatch_error = btc_source_error ''Bitcoin block adapter configuration does not match its RPC client'' False"

definition core_config_validate :: "core_config \<Rightarrow> (source_error, unit) result" where
  "core_config_validate c = fail_if (length (cc_genesis_hash c) \<noteq> 32) genesis_length_error"

definition source_config_validate :: "source_config \<Rightarrow> (source_error, unit) result" where
  "source_config_validate c =
     and_then (fail_if (sc_chain (scf_scope c) \<noteq> ChainId ''bitcoin'') source_chain_error) (\<lambda>_.
     and_then (fail_if (sc_network (scf_scope c) \<noteq> canonical_name (scf_network c)) source_network_error) (\<lambda>_.
     core_config_validate \<lparr>cc_network = scf_network c, cc_genesis_hash = scf_genesis_hash c\<rparr>))"

definition source_from_client ::
  "('n, 'w) btc_source \<Rightarrow> core_config \<Rightarrow> source_config \<Rightarrow> (source_error, ('n, 'w) btc_source) result" where
  "source_from_client client expected c =
     and_then (source_config_validate c) (\<lambda>_.
     and_then (fail_if (cc_network expected \<noteq> scf_network c \<or> cc_genesis_hash expected \<noteq> scf_genesis_hash c) source_mismatch_error) (\<lambda>_.
     Ok (client\<lparr>bs_config := c\<rparr>)))"

section \<open>Hashes and headers\<close>

definition rpc_hash_error :: source_error where
  "rpc_hash_error = retry ''Bitcoin RPC returned an invalid block hash''"
definition hash_length_error :: source_error where
  "hash_length_error = btc_source_error ''Bitcoin block hash must be 32 bytes'' False"

definition parse_btc_hash :: "('n, 'w) btc_source \<Rightarrow> string \<Rightarrow> (source_error, block_hash) result" where
  "parse_btc_hash bs text = ok_or (nc_block_hash (bs_codec bs) text) rpc_hash_error"

definition format_btc_hash :: "('n, 'w) btc_source \<Rightarrow> block_hash \<Rightarrow> (source_error, string) result" where
  "format_btc_hash bs hash = and_then (fail_if (length hash \<noteq> 32) hash_length_error) (\<lambda>_. Ok (bs_display_hash bs hash))"

definition block_count :: "('n, 'w) btc_source \<Rightarrow> ('w, source_error, block_height) eff" where
  "block_count bs =
     bind_eff (btc_request_result bs ''getblockcount'' (JArray [])) (\<lambda>raw.
     lift_result (map_err retry (bs_number bs raw)))"

definition optional_hash_at :: "('n, 'w) btc_source \<Rightarrow> block_height \<Rightarrow> ('w, source_error, block_hash option) eff" where
  "optional_hash_at bs height =
     bind_eff (request_optional_result bs ''getblockhash'' (JArray [JNumber (to_digits (unat height))]) [-8]) (\<lambda>raw.
     lift_result (case raw of
        None \<Rightarrow> Ok None
      | Some bytes \<Rightarrow>
          and_then (map_err retry (bs_text bs bytes)) (\<lambda>hash.
          and_then (parse_btc_hash bs hash) (\<lambda>h. Ok (Some h)))))"

definition height_changed_error :: source_error where
  "height_changed_error = retry ''Bitcoin canonical height changed while its hash was being read''"

definition hash_at :: "('n, 'w) btc_source \<Rightarrow> block_height \<Rightarrow> ('w, source_error, block_hash) eff" where
  "hash_at bs height =
     bind_eff (optional_hash_at bs height) (\<lambda>hash.
     lift_result (ok_or hash height_changed_error))"

definition raw_block :: "('n, 'w) btc_source \<Rightarrow> block_hash \<Rightarrow> ('w, source_error, u8 list option) eff" where
  "raw_block bs hash =
     bind_eff (lift_result (format_btc_hash bs hash)) (\<lambda>text.
     request_optional_result bs ''getblock'' (JArray [JString text, JNumber ''2'']) [-5])"

definition header_object_error :: source_error where
  "header_object_error = retry ''Bitcoin getblockheader result must be an object''"
definition header_height_error :: source_error where
  "header_height_error = retry ''Bitcoin block header does not match the requested height''"
definition header_hash_error :: source_error where
  "header_hash_error = retry ''Bitcoin header lookup returned a different block hash''"

definition header_height_subject :: string where "header_height_subject = ''Bitcoin block-header height''"
definition header_hash_subject :: string where "header_hash_subject = ''Bitcoin block-header hash''"
definition header_parent_subject :: string where "header_parent_subject = ''Bitcoin previous block hash''"
definition header_time_subject :: string where "header_time_subject = ''Bitcoin block-header timestamp''"

text \<open>A field of an answer: the error of a missing field may be retried.\<close>

definition source_string :: "members \<Rightarrow> string \<Rightarrow> string \<Rightarrow> (source_error, string) result" where
  "source_string obj name subject = map_err retry (required_string obj name subject)"
definition source_u64 :: "members \<Rightarrow> string \<Rightarrow> string \<Rightarrow> (source_error, u64) result" where
  "source_u64 obj name subject = map_err retry (required_u64 obj name subject)"
definition source_u32 :: "members \<Rightarrow> string \<Rightarrow> string \<Rightarrow> (source_error, u32) result" where
  "source_u32 obj name subject = map_err retry (required_u32 obj name subject)"

definition header_of :: "('n, 'w) btc_source \<Rightarrow> members \<Rightarrow> block_hash \<Rightarrow> block_height \<Rightarrow> (source_error, block_ref) result" where
  "header_of bs obj expected_hash expected_height =
     and_then (source_u64 obj ''height'' header_height_subject) (\<lambda>height.
     and_then (fail_if (expected_height \<noteq> height) header_height_error) (\<lambda>_.
     and_then (source_string obj ''hash'' header_hash_subject) (\<lambda>text.
     and_then (parse_btc_hash bs text) (\<lambda>hash.
     and_then
       (if height = 0 then Ok None
        else
          and_then (source_string obj ''previousblockhash'' header_parent_subject) (\<lambda>text.
          and_then (parse_btc_hash bs text) (\<lambda>parent.
          Ok (Some \<lparr>bp_position = height - 1, bp_hash = parent\<rparr>)))) (\<lambda>parent.
     and_then (source_u64 obj ''time'' header_time_subject) (\<lambda>timestamp.
     and_then (fail_if (hash \<noteq> expected_hash) header_hash_error) (\<lambda>_.
     Ok \<lparr>br_position = height, br_height = height, br_hash = hash, br_parent = parent, br_timestamp = Some timestamp\<rparr>)))))))"

definition block_header :: "('n, 'w) btc_source \<Rightarrow> block_hash \<Rightarrow> block_height \<Rightarrow> ('w, source_error, block_ref) eff" where
  "block_header bs expected_hash expected_height =
     bind_eff (lift_result (format_btc_hash bs expected_hash)) (\<lambda>text.
     bind_eff (btc_request_result bs ''getblockheader'' (JArray [JString text, JBool True])) (\<lambda>raw.
     lift_result (
       and_then (bs_value bs raw) (\<lambda>j.
       and_then (ok_or (json_as_object j) header_object_error) (\<lambda>obj.
       header_of bs obj expected_hash expected_height)))))"

section \<open>Previous outputs\<close>

definition MAX_EXTERNAL_PREVOUTS_PER_BLOCK :: nat where "MAX_EXTERNAL_PREVOUTS_PER_BLOCK = 25000"
definition MAX_COMPACT_ADDRESS_BYTES :: nat where "MAX_COMPACT_ADDRESS_BYTES = 128"
definition MAX_COMPACT_PREVOUT_JSON_BYTES :: nat where "MAX_COMPACT_PREVOUT_JSON_BYTES = 192"
definition MAX_COMPACT_PREVOUT_TOTAL_BYTES :: nat where
  "MAX_COMPACT_PREVOUT_TOTAL_BYTES = MAX_EXTERNAL_PREVOUTS_PER_BLOCK * MAX_COMPACT_PREVOUT_JSON_BYTES"

record resolved_output =
  ro_value_satoshis :: u64
  ro_address :: "string option"

definition compact_address_bound_error :: source_error where
  "compact_address_bound_error = btc_source_error ''Bitcoin canonical prevout address exceeds the compact data bound'' False"
definition compact_encode_error :: source_error where
  "compact_encode_error = retry ''Bitcoin compact prevout JSON could not be encoded''"
definition compact_json_bound_error :: source_error where
  "compact_json_bound_error = btc_source_error ''Bitcoin compact prevout JSON exceeds its per-input bound'' False"

definition ascii_alphanumeric :: "char \<Rightarrow> bool" where
  "ascii_alphanumeric ch \<longleftrightarrow>
     (let n = (of_char ch :: nat) in 48 \<le> n \<and> n \<le> 57 \<or> 65 \<le> n \<and> n \<le> 90 \<or> 97 \<le> n \<and> n \<le> 122)"

definition validate_compact_prevout :: "string \<Rightarrow> (source_error, unit) result" where
  "validate_compact_prevout encoded =
     fail_if (length encoded > MAX_COMPACT_ADDRESS_BYTES \<or> \<not> list_all ascii_alphanumeric encoded) compact_address_bound_error"

definition validate_optional_address :: "string option \<Rightarrow> (source_error, unit) result" where
  "validate_optional_address address = (case address of None \<Rightarrow> Ok () | Some a \<Rightarrow> validate_compact_prevout a)"

definition compact_json :: "('n, 'w) btc_source \<Rightarrow> resolved_output \<Rightarrow> (source_error, json) result" where
  "compact_json bs r =
     and_then (validate_optional_address (ro_address r)) (\<lambda>_.
     and_then (ok_or (bs_to_vec bs (compact_prevout (ro_value_satoshis r) (ro_address r))) compact_encode_error) (\<lambda>encoded.
     and_then (fail_if (length encoded > MAX_COMPACT_PREVOUT_JSON_BYTES) compact_json_bound_error) (\<lambda>_.
     Ok (compact_prevout (ro_value_satoshis r) (ro_address r)))))"

definition decode_consensus_transaction :: "'n native_codec \<Rightarrow> members \<Rightarrow> u8 list \<Rightarrow> (source_error, native_transaction) result" where
  "decode_consensus_transaction nc obj expected_id =
     and_then (source_string obj ''hex'' btc_raw_subject) (\<lambda>hex.
     and_then (ok_or (nc_from_hex nc hex) (retry btc_hex_error)) (\<lambda>raw.
     and_then (ok_or (nc_deserialize nc raw) (retry btc_consensus_error)) (\<lambda>native.
     and_then (fail_if (nc_compute_txid nc native \<noteq> expected_id) (retry btc_id_mismatch)) (\<lambda>_.
     Ok native))))"

definition input_id_error :: source_error where
  "input_id_error = retry ''Bitcoin input previous transaction ID is invalid''"

definition input_claim :: "'n native_codec \<Rightarrow> native_transaction \<Rightarrow> nat \<Rightarrow> json \<Rightarrow> btc_outpoint \<Rightarrow> (source_error, unit) result" where
  "input_claim nc native index input p =
     and_then (ok_or (json_as_object input) (retry input_object_error)) (\<lambda>obj.
     and_then (fail_if (nc_is_null nc p \<and> (\<not> nc_is_coinbase nc native \<or> Option.bind (map_of obj ''coinbase'') json_as_str = None))
       (retry null_input_error)) (\<lambda>_.
     if nc_is_null nc p then Ok ()
     else
       and_then (source_string obj ''txid'' input_id_subject) (\<lambda>text.
       and_then (ok_or (nc_txid nc text) input_id_error) (\<lambda>previous_id.
       and_then (source_u32 obj ''vout'' input_index_subject) (\<lambda>output_index.
       fail_if ((previous_id, output_index) \<noteq> p) (retry (outpoint_mismatch index)))))))"

fun input_claims :: "'n native_codec \<Rightarrow> native_transaction \<Rightarrow> nat \<Rightarrow> (json \<times> btc_outpoint) list \<Rightarrow> (source_error, unit) result" where
  "input_claims nc native index [] = Ok ()"
| "input_claims nc native index ((input, p) # rest) =
     and_then (input_claim nc native index input p) (\<lambda>_. input_claims nc native (index + 1) rest)"

definition validate_input_claims :: "'n native_codec \<Rightarrow> json \<Rightarrow> native_transaction \<Rightarrow> (source_error, unit) result" where
  "validate_input_claims nc j native =
     and_then (ok_or (Option.bind (json_get j ''vin'') json_as_array) (retry inputs_array_error)) (\<lambda>inputs.
     and_then (fail_if (length inputs \<noteq> length (nt_inputs native)) (retry input_count_error)) (\<lambda>_.
     input_claims nc native 0 (zip inputs (nt_inputs native))))"

text \<open>The previous outputs outside the block, by transaction; maps and sets are read in order.\<close>

record required_prevouts =
  rq_by_transaction :: "(u8 list \<times> u32 list) list"
  rq_count :: nat

definition prevouts_empty :: required_prevouts where
  "prevouts_empty = \<lparr>rq_by_transaction = [], rq_count = 0\<rparr>"

definition spends_ahead_error :: source_error where
  "spends_ahead_error = retry ''Bitcoin block transaction spends an output that was not created earlier in the block''"
definition external_twice_error :: source_error where
  "external_twice_error = btc_source_error ''Bitcoin block spends the same external outpoint more than once'' False"
definition external_bound_error :: source_error where
  "external_bound_error =
     btc_source_error (''Bitcoin block exceeds the '' @ to_digits MAX_EXTERNAL_PREVOUTS_PER_BLOCK @ '' external-prevout safety bound'') False"
definition external_overflow_error :: source_error where
  "external_overflow_error = btc_source_error ''Bitcoin external prevout count overflowed'' False"

definition indexes_of :: "required_prevouts \<Rightarrow> u8 list \<Rightarrow> u32 list" where
  "indexes_of rq i = (case map_of (rq_by_transaction rq) i of None \<Rightarrow> [] | Some js \<Rightarrow> js)"

definition record_prevout :: "u8 list \<Rightarrow> u32 \<Rightarrow> required_prevouts \<Rightarrow> (source_error, required_prevouts) result" where
  "record_prevout i output_index rq =
     and_then (fail_if (output_index \<in> set (indexes_of rq i)) external_twice_error) (\<lambda>_.
     and_then (fail_if (rq_count rq \<ge> MAX_EXTERNAL_PREVOUTS_PER_BLOCK) external_bound_error) (\<lambda>_.
     and_then (fail_if (rq_count rq + 1 \<ge> 2 ^ 64) external_overflow_error) (\<lambda>_.
     Ok \<lparr>rq_by_transaction = AList.update i (insort output_index (indexes_of rq i)) (rq_by_transaction rq),
         rq_count = rq_count rq + 1\<rparr>)))"

definition observe_input ::
  "'n native_codec \<Rightarrow> btc_outpoint set \<Rightarrow> u8 list set \<Rightarrow> btc_outpoint \<Rightarrow> required_prevouts \<Rightarrow> (source_error, required_prevouts) result" where
  "observe_input nc earlier ids p rq =
     (if nc_is_null nc p then Ok rq
      else if p \<in> earlier then Ok rq
      else and_then (fail_if (fst p \<in> ids) spends_ahead_error) (\<lambda>_. record_prevout (fst p) (snd p) rq))"

definition block_index_error :: source_error where
  "block_index_error = retry ''Bitcoin block output index exceeds u32''"

fun add_earlier :: "u8 list \<Rightarrow> nat \<Rightarrow> nat \<Rightarrow> btc_outpoint set \<Rightarrow> (source_error, btc_outpoint set) result" where
  "add_earlier i index 0 earlier = Ok earlier"
| "add_earlier i index (Suc n) earlier =
     and_then (fail_if (index \<ge> 2 ^ 32) block_index_error) (\<lambda>_.
     add_earlier i (index + 1) n (insert (i, of_nat index) earlier))"

fun observe_transactions ::
  "'n native_codec \<Rightarrow> u8 list set \<Rightarrow> (u8 list \<times> native_transaction) list \<Rightarrow> btc_outpoint set \<Rightarrow> required_prevouts \<Rightarrow>
     (source_error, required_prevouts) result" where
  "observe_transactions nc ids [] earlier rq = Ok rq"
| "observe_transactions nc ids ((i, native) # rest) earlier rq =
     and_then (each (observe_input nc earlier ids) (nt_inputs native) rq) (\<lambda>rq.
     and_then (add_earlier i 0 (length (nt_outputs native)) earlier) (\<lambda>earlier.
     observe_transactions nc ids rest earlier rq))"

definition into_required :: "required_prevouts \<Rightarrow> (u8 list \<times> u32 list) list" where
  "into_required rq = sort_key fst (rq_by_transaction rq)"

section \<open>Lookups\<close>

definition disappeared_transaction :: "('n, 'w) btc_source \<Rightarrow> u8 list \<Rightarrow> source_error" where
  "disappeared_transaction bs i =
     retry (''Bitcoin previous transaction '' @ nb_display_txid (ni_native (nc_indexing (bs_codec bs))) i @ '' disappeared during block ingestion'')"
definition raw_object_error :: source_error where
  "raw_object_error = retry ''Bitcoin getrawtransaction result must be an object''"
definition previous_id_error :: source_error where
  "previous_id_error = retry ''Bitcoin previous transaction ID is invalid''"
definition different_transaction_error :: source_error where
  "different_transaction_error = retry ''Bitcoin previous-transaction lookup returned a different transaction ID''"
definition no_output_error :: "('n, 'w) btc_source \<Rightarrow> u8 list \<Rightarrow> u32 \<Rightarrow> source_error" where
  "no_output_error bs i output_index =
     retry (''Bitcoin previous transaction '' @ nb_display_txid (ni_native (nc_indexing (bs_codec bs))) i @ '' has no output '' @
       to_digits (unat output_index))"

definition previous_id_subject :: string where "previous_id_subject = ''Bitcoin previous transaction ID''"
definition previous_hash_subject :: string where "previous_hash_subject = ''Bitcoin previous transaction block hash''"

fun resolved_outputs_of ::
  "('n, 'w) btc_source \<Rightarrow> u8 list \<Rightarrow> native_transaction \<Rightarrow> u32 list \<Rightarrow> (source_error, (u32 \<times> resolved_output) list) result" where
  "resolved_outputs_of bs i native [] = Ok []"
| "resolved_outputs_of bs i native (output_index # rest) =
     and_then
       (if unat output_index < length (nt_outputs native) then Ok (nt_outputs native ! unat output_index)
        else Err (no_output_error bs i output_index)) (\<lambda>(amount, script).
     let address = from_script_for_network (nc_indexing (bs_codec bs)) script (scf_network (bs_config bs)) in
     and_then (validate_optional_address address) (\<lambda>_.
     and_then (resolved_outputs_of bs i native rest) (\<lambda>outputs.
     Ok ((output_index, \<lparr>ro_value_satoshis = amount, ro_address = address\<rparr>) # outputs))))"

definition resolve_answer ::
  "('n, 'w) btc_source \<Rightarrow> u8 list \<Rightarrow> u32 list \<Rightarrow> u8 list \<Rightarrow> (source_error, (u32 \<times> resolved_output) list) result" where
  "resolve_answer bs i required_outputs raw =
     and_then (map_err (\<lambda>e. retry (se_message e)) (bs_value bs raw)) (\<lambda>j.
     and_then (ok_or (json_as_object j) raw_object_error) (\<lambda>obj.
     and_then (source_string obj ''txid'' previous_id_subject) (\<lambda>text.
     and_then (ok_or (nc_txid (bs_codec bs) text) previous_id_error) (\<lambda>returned_id.
     and_then (fail_if (returned_id \<noteq> i) different_transaction_error) (\<lambda>_.
     and_then (decode_consensus_transaction (bs_codec bs) obj i) (\<lambda>native.
     and_then (source_string obj ''blockhash'' previous_hash_subject) (\<lambda>text.
     and_then (parse_btc_hash bs text) (\<lambda>_.
     resolved_outputs_of bs i native required_outputs))))))))"

definition resolve_outputs ::
  "('n, 'w) btc_source \<Rightarrow> u8 list \<Rightarrow> u32 list \<Rightarrow> ('w, source_error, (u32 \<times> resolved_output) list) eff" where
  "resolve_outputs bs i required_outputs =
     bind_eff (request_optional_result bs ''getrawtransaction''
       (JArray [JString (nb_display_txid (ni_native (nc_indexing (bs_codec bs))) i), JBool True]) [-5]) (\<lambda>raw.
     lift_result (
       and_then (ok_or raw (disappeared_transaction bs i)) (\<lambda>raw.
       resolve_answer bs i required_outputs raw)))"

fun resolve_all ::
  "('n, 'w) btc_source \<Rightarrow> (u8 list \<times> u32 list) list \<Rightarrow> (u8 list \<rightharpoonup> (u32 \<times> resolved_output) list) \<Rightarrow>
     ('w, source_error, u8 list \<rightharpoonup> (u32 \<times> resolved_output) list) eff" where
  "resolve_all bs [] resolved = ret resolved"
| "resolve_all bs ((i, indexes) # rest) resolved =
     bind_eff (resolve_outputs bs i indexes) (\<lambda>data.
     resolve_all bs rest (resolved(i \<mapsto> data)))"

section \<open>Enriched blocks\<close>

definition not_resolved_error :: source_error where
  "not_resolved_error = retry ''Bitcoin external previous transaction was not resolved''"
definition output_not_resolved_error :: source_error where
  "output_not_resolved_error = retry ''Bitcoin external previous output was not resolved''"

definition enrich_input ::
  "('n, 'w) btc_source \<Rightarrow> (u8 list \<rightharpoonup> (u32 \<times> resolved_output) list) \<Rightarrow> btc_outpoint set \<Rightarrow> json \<Rightarrow> btc_outpoint \<Rightarrow>
     (source_error, json) result" where
  "enrich_input bs resolved earlier input p =
     (if nc_is_null (bs_codec bs) p then Ok input
      else
        and_then (ok_or (json_as_object input) (retry input_object_error)) (\<lambda>obj.
        let obj = AList.delete ''prevout'' obj in
        if p \<in> earlier then Ok (JObject obj)
        else
          and_then (ok_or (resolved (fst p)) not_resolved_error) (\<lambda>outputs.
          and_then (ok_or (map_of outputs (snd p)) output_not_resolved_error) (\<lambda>output.
          and_then (compact_json bs output) (\<lambda>prevout.
          Ok (JObject (AList.update ''prevout'' prevout obj)))))))"

text \<open>The inputs and their native counterparts in step; what is left over on either side stays.\<close>

fun enrich_inputs ::
  "('n, 'w) btc_source \<Rightarrow> (u8 list \<rightharpoonup> (u32 \<times> resolved_output) list) \<Rightarrow> btc_outpoint set \<Rightarrow> json list \<Rightarrow> btc_outpoint list \<Rightarrow>
     (source_error, json list) result" where
  "enrich_inputs bs resolved earlier (input # inputs) (p # ps) =
     and_then (enrich_input bs resolved earlier input p) (\<lambda>x.
     and_then (enrich_inputs bs resolved earlier inputs ps) (\<lambda>xs.
     Ok (x # xs)))"
| "enrich_inputs bs resolved earlier inputs ps = Ok inputs"

definition enrich_transaction ::
  "('n, 'w) btc_source \<Rightarrow> (u8 list \<rightharpoonup> (u32 \<times> resolved_output) list) \<Rightarrow> btc_outpoint set \<Rightarrow> json \<Rightarrow> native_transaction \<Rightarrow>
     (source_error, json) result" where
  "enrich_transaction bs resolved earlier j native =
     (case j of
        JObject obj \<Rightarrow>
          and_then (ok_or (Option.bind (map_of obj ''vin'') json_as_array) (retry inputs_array_error)) (\<lambda>inputs.
          and_then (enrich_inputs bs resolved earlier inputs (nt_inputs native)) (\<lambda>inputs.
          Ok (JObject (AList.update ''vin'' (JArray inputs) obj))))
      | _ \<Rightarrow> Err (retry inputs_array_error))"

fun enrich_transactions ::
  "('n, 'w) btc_source \<Rightarrow> (u8 list \<rightharpoonup> (u32 \<times> resolved_output) list) \<Rightarrow> (u8 list \<times> native_transaction) list \<Rightarrow> json list \<Rightarrow> btc_outpoint set \<Rightarrow>
     (source_error, json list) result" where
  "enrich_transactions bs resolved ((i, native) # txs) (j # js) earlier =
     and_then (enrich_transaction bs resolved earlier j native) (\<lambda>j.
     and_then (add_earlier i 0 (length (nt_outputs native)) earlier) (\<lambda>earlier.
     and_then (enrich_transactions bs resolved txs js earlier) (\<lambda>js.
     Ok (j # js))))"
| "enrich_transactions bs resolved txs js earlier = Ok js"

definition tx_object_error :: source_error where
  "tx_object_error = retry ''Bitcoin block transaction must be an object''"
definition tx_id_error :: source_error where
  "tx_id_error = retry ''Bitcoin block transaction ID is invalid''"
definition tx_id_subject :: string where "tx_id_subject = ''Bitcoin block transaction ID''"

fun source_transactions ::
  "'n native_codec \<Rightarrow> json list \<Rightarrow> u8 list set \<Rightarrow> (source_error, (u8 list \<times> native_transaction) list) result" where
  "source_transactions nc [] ids = Ok []"
| "source_transactions nc (j # js) ids =
     and_then (ok_or (json_as_object j) tx_object_error) (\<lambda>obj.
     and_then (source_string obj ''txid'' tx_id_subject) (\<lambda>text.
     and_then (ok_or (nc_txid nc text) tx_id_error) (\<lambda>i.
     and_then (decode_consensus_transaction nc obj i) (\<lambda>native.
     and_then (validate_input_claims nc j native) (\<lambda>_.
     and_then (fail_if (i \<in> ids) (retry duplicate_ids_error)) (\<lambda>_.
     and_then (source_transactions nc js (insert i ids)) (\<lambda>txs.
     Ok ((i, native) # txs))))))))"

definition budget_overflow_error :: source_error where
  "budget_overflow_error = btc_source_error ''Bitcoin compact prevout data budget overflowed'' False"
definition budget_error :: source_error where
  "budget_error = btc_source_error ''Bitcoin compact prevout data exceeds its aggregate bound'' False"
definition enrich_encode_error :: source_error where
  "enrich_encode_error = retry ''Bitcoin enriched block JSON could not be encoded''"

text \<open>The lookups a block needs, and the block with the answers.\<close>

definition required_of ::
  "'n native_codec \<Rightarrow> json \<Rightarrow> (source_error, json list \<times> (u8 list \<times> native_transaction) list \<times> required_prevouts) result" where
  "required_of nc j =
     and_then (ok_or (Option.bind (json_get j ''tx'') json_as_array) (retry block_array_error)) (\<lambda>js.
     and_then (source_transactions nc js {}) (\<lambda>txs.
     and_then (observe_transactions nc (fst ` set txs) txs {} prevouts_empty) (\<lambda>rq.
     and_then (fail_if (rq_count rq * MAX_COMPACT_PREVOUT_JSON_BYTES \<ge> 2 ^ 64) budget_overflow_error) (\<lambda>_.
     and_then (fail_if (rq_count rq * MAX_COMPACT_PREVOUT_JSON_BYTES > MAX_COMPACT_PREVOUT_TOTAL_BYTES) budget_error) (\<lambda>_.
     Ok (js, txs, rq))))))"

definition with_transactions :: "json \<Rightarrow> json list \<Rightarrow> json" where
  "with_transactions j js = (case j of JObject obj \<Rightarrow> JObject (AList.update ''tx'' (JArray js) obj) | _ \<Rightarrow> j)"

definition enrich_prevouts :: "('n, 'w) btc_source \<Rightarrow> u8 list \<Rightarrow> ('w, source_error, u8 list) eff" where
  "enrich_prevouts bs raw =
     bind_eff (lift_result (ok_or (nc_from_slice (bs_codec bs) raw) (retry block_json_error))) (\<lambda>j.
     bind_eff (lift_result (required_of (bs_codec bs) j)) (\<lambda>(js, txs, rq).
     bind_eff (resolve_all bs (bs_schedule bs (into_required rq)) Map.empty) (\<lambda>resolved.
     lift_result (
       and_then (enrich_transactions bs resolved txs js {}) (\<lambda>js.
       ok_or (bs_to_vec bs (with_transactions j js)) enrich_encode_error)))))"

section \<open>Delivered blocks\<close>

definition block_not_exposed_error :: source_error where
  "block_not_exposed_error = retry ''Bitcoin Core no longer exposes the requested block''"
definition block_changed_error :: source_error where
  "block_changed_error = retry ''Bitcoin canonical block changed while it was being fetched''"

definition fetch_block :: "('n, 'w) btc_source \<Rightarrow> block_height \<Rightarrow> ('w, source_error, btc_block) eff" where
  "fetch_block bs height =
     bind_eff (hash_at bs height) (\<lambda>first_hash.
     bind_eff (raw_block bs first_hash) (\<lambda>raw.
     bind_eff (lift_result (ok_or raw block_not_exposed_error)) (\<lambda>raw.
     bind_eff (enrich_prevouts bs raw) (\<lambda>raw.
     bind_eff (lift_result (map_err (\<lambda>e. retry (ce_message e))
       (parse_block (bs_codec bs) raw (Some height) (Some first_hash) (scf_network (bs_config bs))))) (\<lambda>block.
     bind_eff (hash_at bs height) (\<lambda>second_hash.
     bind_eff (lift_result (fail_if (first_hash \<noteq> second_hash) block_changed_error)) (\<lambda>_.
     ret block)))))))"

definition btc_tip :: "('n, 'w) btc_source \<Rightarrow> ('w, source_error, block_ref) eff" where
  "btc_tip bs =
     bind_eff (block_count bs) (\<lambda>height.
     bind_eff (hash_at bs height) (\<lambda>hash.
     block_header bs hash height))"

definition range_error :: source_error where
  "range_error = btc_source_error ''Bitcoin block range requires ordered positions and a positive limit'' False"

definition btc_blocks :: "('n, 'w) btc_source \<Rightarrow> block_position \<Rightarrow> block_position \<Rightarrow> nat \<Rightarrow> ('w, source_error, btc_block list) eff" where
  "btc_blocks bs start end1 limit =
     bind_eff (lift_result (fail_if (limit = 0 \<or> start > end1) range_error)) (\<lambda>_.
     fetch_range (fetch_block bs) limit start end1)"

definition btc_canonical_at :: "('n, 'w) btc_source \<Rightarrow> block_position \<Rightarrow> ('w, source_error, block_ref option) eff" where
  "btc_canonical_at bs position =
     bind_eff (block_count bs) (\<lambda>count.
     if position > count then ret None
     else
       bind_eff (optional_hash_at bs position) (\<lambda>hash.
       case hash of
         None \<Rightarrow> ret None
       | Some h \<Rightarrow> bind_eff (block_header bs h position) (\<lambda>header. ret (Some header))))"


section \<open>What the source checks\<close>

text \<open>The outpoints a consensus transaction spends.\<close>

abbreviation native_spends :: "'n native_codec \<Rightarrow> native_transaction \<Rightarrow> btc_outpoint list" where
  "native_spends nc native \<equiv> filter (\<lambda>p. \<not> nc_is_null nc p) (nt_inputs native)"

definition reads_entry :: "'n native_codec \<Rightarrow> json \<Rightarrow> u8 list \<times> native_transaction \<Rightarrow> bool" where
  "reads_entry nc j entry \<longleftrightarrow> native_of nc j = Some (snd entry) \<and> nc_compute_txid nc (snd entry) = fst entry"

lemma decode_consensus_Ok:
  "decode_consensus_transaction nc obj i = Ok native \<Longrightarrow> reads_entry nc (JObject obj) (i, native)"
  by (auto simp: decode_consensus_transaction_def source_string_def required_string_Ok result_simps reads_entry_def native_of_def)

lemma source_transactions_Ok:
  assumes "source_transactions nc js ids = Ok txs"
  shows "list_all2 (reads_entry nc) js txs \<and> distinct (map fst txs) \<and> fst ` set txs \<inter> ids = {}"
  using assms
proof (induction js arbitrary: ids txs)
  case (Cons j js)
  from Cons.prems obtain obj i native rest where step: "j = JObject obj" "decode_consensus_transaction nc obj i = Ok native" "i \<notin> ids"
      "source_transactions nc js (insert i ids) = Ok rest" "txs = (i, native) # rest"
    by (auto simp: result_simps json_as_object_iff)
  from Cons.IH [OF step(4)] decode_consensus_Ok [OF step(2)] step show ?case by auto
qed simp

lemma add_earlier_Ok: "add_earlier i k n earlier = Ok earlier' \<Longrightarrow> fst ` earlier' \<subseteq> insert i (fst ` earlier)"
proof (induction n arbitrary: k earlier)
  case (Suc n)
  then have "add_earlier i (k + 1) n (insert (i, of_nat k) earlier) = Ok earlier'" by (auto simp: result_simps)
  from Suc.IH [OF this] show ?case by auto
qed auto

lemma observe_inputs_Ok:
  assumes "each (observe_input nc earlier ids) ps rq = Ok rq'" "p \<in> set ps" "\<not> nc_is_null nc p"
  shows "p \<in> earlier \<or> fst p \<notin> ids"
  using assms by (induction ps arbitrary: rq) (auto simp: observe_input_def result_simps split: if_splits)

lemma observe_transactions_follow:
  assumes "observe_transactions nc ids txs earlier rq = Ok rq'" "distinct (map fst txs)" "fst ` set txs \<subseteq> ids"
    "fst ` earlier \<inter> fst ` set txs = {}"
  shows "sorted_wrt (\<lambda>x y. fst y \<notin> fst ` set (native_spends nc (snd x))) txs"
  using assms
proof (induction txs arbitrary: earlier rq)
  case (Cons entry txs)
  obtain i native where entry: "entry = (i, native)" by (cases entry)
  from Cons.prems(1) entry obtain rq1 earlier1 where step: "each (observe_input nc earlier ids) (nt_inputs native) rq = Ok rq1"
      "add_earlier i 0 (length (nt_outputs native)) earlier = Ok earlier1" "observe_transactions nc ids txs earlier1 rq1 = Ok rq'"
    by (auto simp: result_simps)
  have "i \<notin> fst ` set txs" using Cons.prems(2) entry by simp
  moreover have "fst ` earlier \<inter> fst ` set txs = {}" using Cons.prems(4) by simp
  ultimately have "fst ` earlier1 \<inter> fst ` set txs = {}"
    using add_earlier_Ok [OF step(2)] by blast
  then have "sorted_wrt (\<lambda>x y. fst y \<notin> fst ` set (native_spends nc (snd x))) txs"
    using Cons.IH [OF step(3)] Cons.prems(2,3) by simp
  moreover have "fst y \<notin> fst ` set (native_spends nc native)" if "y \<in> set txs" for y
  proof
    assume "fst y \<in> fst ` set (native_spends nc native)"
    then obtain p where p: "p \<in> set (nt_inputs native)" "\<not> nc_is_null nc p" "fst p = fst y" by auto
    from observe_inputs_Ok [OF step(1) p(1,2)] have "fst y \<in> fst ` earlier \<or> fst y \<notin> ids" using p(3) by (metis image_eqI)
    then show False using that Cons.prems(3,4) by auto
  qed
  ultimately show ?case using entry by simp
qed simp

section \<open>What enrichment keeps\<close>

lemma json_get_update: "json_get (JObject (AList.update name v obj)) other = (if other = name then Some v else map_of obj other)"
  by (simp add: update_conv')

lemma enrich_transaction_native:
  "enrich_transaction bs resolved earlier j native = Ok j' \<Longrightarrow> native_of nc j' = native_of nc j"
  by (cases j) (auto simp: enrich_transaction_def result_simps native_of_def update_conv')

lemma enrich_transactions_native:
  "enrich_transactions bs resolved txs js earlier = Ok js' \<Longrightarrow> list_all2 (\<lambda>j j'. native_of nc j' = native_of nc j) js js'"
proof (induction bs resolved txs js earlier arbitrary: js' rule: enrich_transactions.induct)
  case (1 bs resolved i native txs j js earlier)
  from "1.prems" obtain j1 earlier1 js1 where step: "enrich_transaction bs resolved earlier j native = Ok j1"
      "add_earlier i 0 (length (nt_outputs native)) earlier = Ok earlier1" "enrich_transactions bs resolved txs js earlier1 = Ok js1"
      "js' = j1 # js1"
    by (auto simp: result_simps)
  from "1.IH" [OF step(3)] enrich_transaction_native [OF step(1)] step(4) show ?case by simp
qed (auto simp: list_all2_same)

section \<open>Resolved outputs are authentic\<close>

definition outputs_authentic :: "('n, 'w) btc_source \<Rightarrow> u8 list \<Rightarrow> (u32 \<times> resolved_output) list \<Rightarrow> bool" where
  "outputs_authentic bs i outputs \<longleftrightarrow>
     (\<forall>(k, r) \<in> set outputs. authentic (bs_codec bs) (scf_network (bs_config bs))
        \<lparr>po_outpoint = (i, k), po_value = ro_value_satoshis r, po_address = ro_address r\<rparr>)"

lemma resolved_outputs_authentic:
  assumes "resolved_outputs_of bs (nc_compute_txid (bs_codec bs) ntx) ntx indexes = Ok outputs" "nc_deserialize (bs_codec bs) raw = Some ntx"
  shows "outputs_authentic bs (nc_compute_txid (bs_codec bs) ntx) outputs"
  using assms(1)
proof (induction indexes arbitrary: outputs)
  case (Cons k indexes)
  obtain amount script where at_k: "nt_outputs ntx ! unat k = (amount, script)" by fastforce
  from Cons.prems at_k obtain rest where step: "unat k < length (nt_outputs ntx)"
      "resolved_outputs_of bs (nc_compute_txid (bs_codec bs) ntx) ntx indexes = Ok rest"
      "outputs = (k, \<lparr>ro_value_satoshis = amount,
         ro_address = from_script_for_network (nc_indexing (bs_codec bs)) script (scf_network (bs_config bs))\<rparr>) # rest"
    by (auto simp: result_simps Let_def split: if_splits)
  have "authentic (bs_codec bs) (scf_network (bs_config bs)) \<lparr>po_outpoint = (nc_compute_txid (bs_codec bs) ntx, k), po_value = amount,
      po_address = from_script_for_network (nc_indexing (bs_codec bs)) script (scf_network (bs_config bs))\<rparr>"
    unfolding authentic_def by (intro exI [of _ raw] exI [of _ ntx]) (simp add: assms(2) at_k step(1))
  then show ?case using Cons.IH [OF step(2)] step(3) by (simp add: outputs_authentic_def)
qed (simp add: outputs_authentic_def)

lemma resolve_answer_authentic:
  assumes "resolve_answer bs i indexes raw = Ok outputs"
  shows "outputs_authentic bs i outputs"
proof -
  from assms obtain obj ntx where step: "decode_consensus_transaction (bs_codec bs) obj i = Ok ntx" "resolved_outputs_of bs i ntx indexes = Ok outputs"
    by (auto simp: resolve_answer_def result_simps)
  from decode_consensus_Ok [OF step(1)] have ntx: "native_of (bs_codec bs) (JObject obj) = Some ntx" "nc_compute_txid (bs_codec bs) ntx = i"
    by (simp_all add: reads_entry_def)
  obtain bytes where "nc_deserialize (bs_codec bs) bytes = Some ntx" using native_of_deserialize [OF ntx(1)] by blast
  with resolved_outputs_authentic [of bs ntx indexes outputs bytes] step(2) ntx(2) show ?thesis by simp
qed

abbreviation resolved_authentic :: "('n, 'w) btc_source \<Rightarrow> (u8 list \<rightharpoonup> (u32 \<times> resolved_output) list) \<Rightarrow> bool" where
  "resolved_authentic bs resolved \<equiv> \<forall>i outputs. resolved i = Some outputs \<longrightarrow> outputs_authentic bs i outputs"

lemma resolve_all_authentic:
  "resolve_all bs xs resolved w = (Ok resolved', w') \<Longrightarrow> resolved_authentic bs resolved \<Longrightarrow> resolved_authentic bs resolved'"
proof (induction bs xs resolved arbitrary: w rule: resolve_all.induct)
  case (2 bs i indexes rest resolved)
  from "2.prems"(1) obtain outputs w1 where step: "resolve_outputs bs i indexes w = (Ok outputs, w1)"
      "resolve_all bs rest (resolved(i \<mapsto> outputs)) w1 = (Ok resolved', w')"
    by (auto simp: result_simps)
  from step(1) obtain raw where "resolve_answer bs i indexes raw = Ok outputs" by (auto simp: resolve_outputs_def result_simps)
  then have "outputs_authentic bs i outputs" by (rule resolve_answer_authentic)
  then have "resolved_authentic bs (resolved(i \<mapsto> outputs))" using "2.prems"(2) by auto
  then show ?case by (rule "2.IH" [OF step(2)])
qed (simp add: result_simps)

lemma enrich_input_authentic:
  assumes "enrich_input bs resolved earlier input p = Ok input'" "resolved_authentic bs resolved"
  shows "prevout_authentic (bs_codec bs) (scf_network (bs_config bs)) input' p"
proof (cases "nc_is_null (bs_codec bs) p")
  case False
  with assms(1) obtain obj where obj: "input = JObject obj" by (auto simp: enrich_input_def result_simps json_as_object_iff)
  show ?thesis
  proof (cases "p \<in> earlier")
    case True
    then have "input' = JObject (AList.delete ''prevout'' obj)" using assms(1) False obj by (simp add: enrich_input_def Let_def)
    then show ?thesis by (simp add: prevout_authentic_def)
  next
    case local: False
    from assms(1) False obj local obtain outputs r where step: "resolved (fst p) = Some outputs" "map_of outputs (snd p) = Some r"
        "input' = JObject (AList.update ''prevout'' (compact_prevout (ro_value_satoshis r) (ro_address r)) (AList.delete ''prevout'' obj))"
      by (auto simp: enrich_input_def Let_def compact_json_def result_simps)
    have "outputs_authentic bs (fst p) outputs" using assms(2) step(1) by blast
    then have "authentic (bs_codec bs) (scf_network (bs_config bs)) \<lparr>po_outpoint = p, po_value = ro_value_satoshis r, po_address = ro_address r\<rparr>"
      using map_of_SomeD [OF step(2)] by (auto simp: outputs_authentic_def)
    then show ?thesis using step(3) by (auto simp: prevout_authentic_def update_conv')
  qed
qed (simp add: prevout_authentic_def)

lemma enrich_inputs_authentic:
  "enrich_inputs bs resolved earlier inputs ps = Ok inputs' \<Longrightarrow> resolved_authentic bs resolved \<Longrightarrow>
     list_all (\<lambda>(input, p). prevout_authentic (bs_codec bs) (scf_network (bs_config bs)) input p) (zip inputs' ps)"
proof (induction bs resolved earlier inputs ps arbitrary: inputs' rule: enrich_inputs.induct)
  case (1 bs resolved earlier input inputs p ps)
  from "1.prems"(1) obtain x xs where step: "enrich_input bs resolved earlier input p = Ok x"
      "enrich_inputs bs resolved earlier inputs ps = Ok xs" "inputs' = x # xs"
    by (auto simp: result_simps)
  from "1.IH" [OF step(2) "1.prems"(2)] enrich_input_authentic [OF step(1) "1.prems"(2)] step(3) show ?case by simp
qed auto

lemma enrich_transaction_authentic:
  assumes "enrich_transaction bs resolved earlier j ntx = Ok j'" "resolved_authentic bs resolved" "native_of (bs_codec bs) j = Some ntx"
  shows "inputs_authentic (bs_codec bs) (scf_network (bs_config bs)) j'"
proof -
  from assms(1) obtain obj inputs inputs' where step: "enrich_inputs bs resolved earlier inputs (nt_inputs ntx) = Ok inputs'"
      "j' = JObject (AList.update ''vin'' (JArray inputs') obj)"
    by (cases j) (auto simp: enrich_transaction_def result_simps)
  have "native_of (bs_codec bs) j' = Some ntx" using enrich_transaction_native [OF assms(1), of "bs_codec bs"] assms(3) by simp
  moreover have "json_get j' ''vin'' = Some (JArray inputs')" using step(2) by (simp add: update_conv')
  ultimately show ?thesis unfolding inputs_authentic_def using enrich_inputs_authentic [OF step(1) assms(2)] by blast
qed

lemma enrich_transactions_authentic:
  "enrich_transactions bs resolved txs js earlier = Ok js' \<Longrightarrow> resolved_authentic bs resolved \<Longrightarrow> list_all2 (reads_entry (bs_codec bs)) js txs \<Longrightarrow>
     list_all (inputs_authentic (bs_codec bs) (scf_network (bs_config bs))) js'"
proof (induction bs resolved txs js earlier arbitrary: js' rule: enrich_transactions.induct)
  case (1 bs resolved i ntx txs j js earlier)
  from "1.prems"(1) obtain j1 earlier1 js1 where step: "enrich_transaction bs resolved earlier j ntx = Ok j1"
      "enrich_transactions bs resolved txs js earlier1 = Ok js1" "js' = j1 # js1"
    by (auto simp: result_simps)
  have "native_of (bs_codec bs) j = Some ntx" using "1.prems"(3) by (simp add: reads_entry_def)
  then show ?case
    using enrich_transaction_authentic [OF step(1) "1.prems"(2)] "1.IH" [OF step(2) "1.prems"(2)] "1.prems"(3) step(3) by simp
qed auto

text \<open>The codec writes what it reads back.\<close>

definition codec_law :: "('n, 'w) btc_source \<Rightarrow> bool" where
  "codec_law bs \<longleftrightarrow> (\<forall>j raw. bs_to_vec bs j = Some raw \<longrightarrow> nc_from_slice (bs_codec bs) raw = Some j)"

lemma enrich_prevouts_Ok:
  assumes "enrich_prevouts bs raw w = (Ok raw', w')" "codec_law bs"
  obtains js txs js' j' rq where "source_transactions (bs_codec bs) js {} = Ok txs"
    "observe_transactions (bs_codec bs) (fst ` set txs) txs {} prevouts_empty = Ok rq"
    "list_all2 (\<lambda>j j'. native_of (bs_codec bs) j' = native_of (bs_codec bs) j) js js'"
    "nc_from_slice (bs_codec bs) raw' = Some j'" "json_get j' ''tx'' = Some (JArray js')"
    "list_all (inputs_authentic (bs_codec bs) (scf_network (bs_config bs))) js'"
proof -
  from assms(1) obtain j js txs rq resolved js' w1 w2 where step: "required_of (bs_codec bs) j = Ok (js, txs, rq)"
      "enrich_transactions bs resolved txs js {} = Ok js'" "bs_to_vec bs (with_transactions j js') = Some raw'"
      "resolve_all bs (bs_schedule bs (into_required rq)) Map.empty w1 = (Ok resolved, w2)"
    by (auto simp: enrich_prevouts_def result_simps)
  from step(1) have req: "Option.bind (json_get j ''tx'') json_as_array = Some js" "source_transactions (bs_codec bs) js {} = Ok txs"
      "observe_transactions (bs_codec bs) (fst ` set txs) txs {} prevouts_empty = Ok rq"
    by (auto simp: required_of_def result_simps)
  then obtain obj where "j = JObject obj" by (cases j) auto
  then have "json_get (with_transactions j js') ''tx'' = Some (JArray js')" by (simp add: with_transactions_def update_conv')
  moreover have "nc_from_slice (bs_codec bs) raw' = Some (with_transactions j js')" using assms(2) step(3) by (simp add: codec_law_def)
  moreover have "resolved_authentic bs resolved" by (rule resolve_all_authentic [OF step(4)]) simp
  then have "list_all (inputs_authentic (bs_codec bs) (scf_network (bs_config bs))) js'"
    by (rule enrich_transactions_authentic [OF step(2)]) (use source_transactions_Ok [OF req(2)] in blast)
  ultimately show ?thesis using that req enrich_transactions_native [OF step(2)] by blast
qed

section \<open>What a delivered block is\<close>

lemma natives_follow:
  assumes "sorted_wrt (\<lambda>x y. fst y \<notin> fst ` set (native_spends nc (snd x))) txs"
    "list_all2 (reads_entry nc) js txs" "list_all2 (\<lambda>j j'. native_of nc j' = native_of nc j) js js'" "list_all2 (reads_native nc) js' ts"
  shows "spends_follow ts"
proof -
  have len: "length js = length txs" "length js' = length txs" "length ts = length txs"
    using assms(2-4) [THEN list_all2_lengthD] by simp_all
  have same: "bt_id (ts ! k) = fst (txs ! k) \<and> spent_outpoints (ts ! k) = native_spends nc (snd (txs ! k))" if "k < length txs" for k
    using list_all2_nthD [OF assms(2), of k] list_all2_nthD [OF assms(3), of k] list_all2_nthD [OF assms(4), of k] that len
    by (auto simp: reads_entry_def reads_native_def)
  show ?thesis
    unfolding spends_follow_def sorted_wrt_iff_nth_less
  proof (intro allI impI)
    fix a b
    assume "a < b" "b < length ts"
    then show "bt_id (ts ! b) \<notin> fst ` set (spent_outpoints (ts ! a))"
      using assms(1) same [of a] same [of b] len unfolding sorted_wrt_iff_nth_less by simp
  qed
qed

text \<open>A transaction as a consensus transaction has it: identifier, spent outputs and created outputs.\<close>

definition consensus_reading :: "'n native_codec \<Rightarrow> btc_transaction \<Rightarrow> bool" where
  "consensus_reading nc t \<longleftrightarrow>
     (\<exists>raw ntx. nc_deserialize nc raw = Some ntx \<and> bt_id t = nc_compute_txid nc ntx \<and> spent_outpoints t = native_spends nc ntx \<and>
        map native_output (bt_outputs t) = nt_outputs ntx)"

lemma reads_native_consensus: "list_all2 (reads_native nc) js ts \<Longrightarrow> \<forall>t \<in> set ts. consensus_reading nc t"
proof (induction rule: list_all2_induct)
  case (Cons j js t ts)
  then obtain ntx where ntx: "native_of nc j = Some ntx" "bt_id t = nc_compute_txid nc ntx" "spent_outpoints t = native_spends nc ntx"
      "map native_output (bt_outputs t) = nt_outputs ntx"
    by (auto simp: reads_native_def)
  with native_of_deserialize [OF ntx(1)] have "consensus_reading nc t" by (auto simp: consensus_reading_def)
  with Cons show ?case by simp
qed simp

lemma fetch_block_Ok:
  assumes "fetch_block bs height w = (Ok block, w')" "codec_law bs"
  shows "spends_follow (bb_transactions block) \<and>
    (\<forall>t \<in> set (bb_transactions block). consensus_reading (bs_codec bs) t \<and>
       (\<forall>q \<in> set (resolved_inputs t). authentic (bs_codec bs) (scf_network (bs_config bs)) q)) \<and> parsed (bs_codec bs) (scf_network (bs_config bs)) (bb_transactions block) \<and>
    br_height (bb_reference block) = height \<and> reference_shaped (bb_reference block) \<and>
    (\<exists>w0 w1. hash_at bs height w = (Ok (br_hash (bb_reference block)), w0) \<and> hash_at bs height w1 = (Ok (br_hash (bb_reference block)), w'))"
proof -
  from assms(1) obtain hash w0 raw w2 raw' w3 where step: "hash_at bs height w = (Ok hash, w0)" "enrich_prevouts bs raw w2 = (Ok raw', w3)"
      "parse_block (bs_codec bs) raw' (Some height) (Some hash) (scf_network (bs_config bs)) = Ok block" "hash_at bs height w3 = (Ok hash, w')"
    by (auto simp: fetch_block_def result_simps)
  from enrich_prevouts_Ok [OF step(2) assms(2)] obtain js txs js' j' rq where
      e: "source_transactions (bs_codec bs) js {} = Ok txs" "observe_transactions (bs_codec bs) (fst ` set txs) txs {} prevouts_empty = Ok rq"
      "list_all2 (\<lambda>j j'. native_of (bs_codec bs) j' = native_of (bs_codec bs) j) js js'"
      "nc_from_slice (bs_codec bs) raw' = Some j'" "json_get j' ''tx'' = Some (JArray js')"
      "list_all (inputs_authentic (bs_codec bs) (scf_network (bs_config bs))) js'" by metis
  have "parse_block_data (bs_codec bs) raw' (Some height) (Some hash) (scf_network (bs_config bs)) = Ok block"
    using step(3) by (simp add: parse_block_def result_simps)
  from parse_block_data_Ok [OF this] e(4,5) have b: "br_height (bb_reference block) = height" "br_hash (bb_reference block) = hash"
      "reference_shaped (bb_reference block)"
      "parse_transactions (bs_codec bs) (scf_network (bs_config bs)) height js' {} Map.empty = Ok (bb_transactions block)"
    by auto
  note txs = source_transactions_Ok [OF e(1)]
  have "sorted_wrt (\<lambda>x y. fst y \<notin> fst ` set (native_spends (bs_codec bs) (snd x))) txs"
    using observe_transactions_follow [OF e(2)] txs by simp
  moreover have read: "list_all2 (reads_native (bs_codec bs)) js' (bb_transactions block)" using parse_transactions_native [OF b(4)] by simp
  ultimately have "spends_follow (bb_transactions block)" using natives_follow txs e(3) by blast
  moreover have "\<forall>t \<in> set (bb_transactions block). consensus_reading (bs_codec bs) t" by (rule reads_native_consensus [OF read])
  moreover have "\<forall>t \<in> set (bb_transactions block). \<forall>q \<in> set (resolved_inputs t). authentic (bs_codec bs) (scf_network (bs_config bs)) q"
    by (rule parse_transactions_authentic [OF b(4) e(6)]) simp
  moreover have "parsed (bs_codec bs) (scf_network (bs_config bs)) ([] @ bb_transactions block)"
    by (rule parse_transactions_Ok) (use b(4) in \<open>simp_all add: locals_of_def parsed_Nil\<close>)
  ultimately show ?thesis using b step(1,4) by auto
qed

lemma fetch_block_position: "fetch_block bs position w = (Ok block, w') \<Longrightarrow> codec_law bs \<Longrightarrow> br_position (bb_reference block) = position"
  using fetch_block_Ok by (fastforce simp: reference_shaped_def)

section \<open>An example source\<close>

definition demo_output_json :: "string \<Rightarrow> string \<Rightarrow> string \<Rightarrow> json" where
  "demo_output_json n amount script =
     JObject [(''n'', JNumber n), (''value'', JNumber amount), (''scriptPubKey'', JObject [(''hex'', JString script)])]"

definition demo_coinbase_json :: json where
  "demo_coinbase_json =
     JObject [(''txid'', JString ''1''), (''hex'', JString ''1''), (''vin'', JArray [JObject [(''coinbase'', JString '''')]]),
       (''vout'', JArray [demo_output_json ''0'' ''0.0000005'' ''a''])]"

definition demo_spending_json :: json where
  "demo_spending_json =
     JObject [(''txid'', JString ''2''), (''hex'', JString ''2''), (''vin'', JArray [JObject [(''txid'', JString ''1''), (''vout'', JNumber ''0'')]]),
       (''vout'', JArray [demo_output_json ''0'' ''0.0000002'' ''a'', demo_output_json ''1'' ''0.00000025'' ''b''])]"

definition demo_block_json :: json where
  "demo_block_json =
     JObject [(''height'', JNumber ''0''), (''hash'', JString ''h''), (''time'', JNumber ''1''), (''nTx'', JNumber ''2''),
       (''tx'', JArray [demo_coinbase_json, demo_spending_json])]"

definition demo_coinbase_native :: native_transaction where
  "demo_coinbase_native = \<lparr>nt_inputs = [([0], 0)], nt_outputs = [(50, [97])]\<rparr>"

definition demo_spending_native :: native_transaction where
  "demo_spending_native = \<lparr>nt_inputs = [([1], 0)], nt_outputs = [(20, [97]), (25, [98])]\<rparr>"

definition demo_codec :: "string native_codec" where
  "demo_codec =
     \<lparr>nc_indexing = demo_native_indexing, nc_from_slice = (\<lambda>raw. if raw = [0] then Some demo_block_json else None),
      nc_block_hash = (\<lambda>_. Some (replicate 32 0)), nc_txid = (\<lambda>s. Some (if s = ''1'' then [1] else [2])),
      nc_from_hex = (\<lambda>s. Some (if s = ''1'' then [1] else if s = ''2'' then [2] else if s = ''a'' then [97] else [98])),
      nc_deserialize = (\<lambda>raw. Some (if raw = [1] then demo_coinbase_native else demo_spending_native)),
      nc_compute_txid = (\<lambda>n. if nt_inputs n = [([0], 0)] then [1] else [2]), nc_is_coinbase = (\<lambda>n. nt_inputs n = [([0], 0)]),
      nc_is_null = (\<lambda>p. fst p = [0])\<rparr>"

definition demo_source :: "(string, unit) btc_source" where
  "demo_source =
     \<lparr>bs_codec = demo_codec,
      bs_config = \<lparr>scf_scope = demo_btc_scope, scf_network = BitcoinRegtest, scf_genesis_hash = replicate 32 0\<rparr>,
      bs_request = (\<lambda>method params. ret (Ok [0])), bs_text = (\<lambda>_. Ok ''h''), bs_number = (\<lambda>_. Ok 0), bs_value = (\<lambda>_. Ok JNull),
      bs_to_vec = (\<lambda>j. if j = demo_block_json then Some [0] else None), bs_display_hash = (\<lambda>_. ''h''), bs_schedule = (\<lambda>xs. xs)\<rparr>"

lemma demo_source_sel:
  "bs_codec demo_source = demo_codec" "bs_to_vec demo_source j = (if j = demo_block_json then Some [0] else None)"
  "bs_schedule demo_source xs = xs" "scf_network (bs_config demo_source) = BitcoinRegtest"
  "nc_from_slice demo_codec [0] = Some demo_block_json"
  by (simp_all add: demo_source_def demo_codec_def)

lemma demo_codec_law: "codec_law demo_source"
  by (simp add: codec_law_def demo_source_def demo_codec_def)

lemma demo_hash_at: "hash_at demo_source 0 w = (Ok (replicate 32 0), w)"
  by (simp add: hash_at_def optional_hash_at_def request_optional_result_def request_detailed_def demo_source_def demo_codec_def
      bind_eff_def eff_err_def lift_result_def ret_def parse_btc_hash_def)

lemma demo_raw_block: "raw_block demo_source (replicate 32 0) w = (Ok (Some [0]), w)"
  by (simp add: raw_block_def format_btc_hash_def request_optional_result_def request_detailed_def demo_source_def demo_codec_def
      bind_eff_def eff_err_def lift_result_def ret_def)

lemmas demo_json_defs = demo_block_json_def demo_coinbase_json_def demo_spending_json_def demo_output_json_def

lemma demo_codec_sel:
  "nc_indexing demo_codec = demo_native_indexing" "nc_txid demo_codec s = Some (if s = ''1'' then [1] else [2])"
  "nc_from_hex demo_codec s = Some (if s = ''1'' then [1] else if s = ''2'' then [2] else if s = ''a'' then [97] else [98])"
  "nc_deserialize demo_codec raw = Some (if raw = [1] then demo_coinbase_native else demo_spending_native)"
  "nc_compute_txid demo_codec n = (if nt_inputs n = [([0], 0)] then [1] else [2])"
  "nc_is_coinbase demo_codec n \<longleftrightarrow> nt_inputs n = [([0], 0)]" "nc_is_null demo_codec p \<longleftrightarrow> fst p = [0]"
  "nc_block_hash demo_codec s = Some (replicate 32 0)"
  by (simp_all add: demo_codec_def)

lemma demo_native_sel:
  "nt_inputs demo_coinbase_native = [([0], 0)]" "nt_outputs demo_coinbase_native = [(50, [97])]"
  "nt_inputs demo_spending_native = [([1], 0)]" "nt_outputs demo_spending_native = [(20, [97]), (25, [98])]"
  by (simp_all add: demo_coinbase_native_def demo_spending_native_def)

lemma demo_numbers:
  "digits_u64 ''0'' = Some 0" "digits_u64 ''1'' = Some 1" "digits_u64 ''2'' = Some 2"
  by (simp_all add: digits_u64_def parse_digits_def is_digit_def)

lemma demo_amounts:
  "from_block_json (JNumber ''0.0000005'') s = Ok 50" "from_block_json (JNumber ''0.0000002'') s = Ok 20"
  "from_block_json (JNumber ''0.00000025'') s = Ok 25"
  by (simp_all add: from_block_json_def amount_parts_def digits_u64_def parse_digits_def is_digit_def checked_mul_def
      checked_add_def SATOSHIS_PER_BITCOIN_def)

lemma demo_transactions:
  "source_transactions demo_codec [demo_coinbase_json, demo_spending_json] {} = Ok [([1], demo_coinbase_native), ([2], demo_spending_native)]"
  by (simp add: demo_json_defs demo_codec_sel demo_native_sel source_string_def source_u32_def required_string_def required_u32_def required_u64_def
      decode_consensus_transaction_def validate_input_claims_def input_claim_def json_as_u64_def demo_numbers)

lemma demo_required: "required_of demo_codec demo_block_json =
    Ok ([demo_coinbase_json, demo_spending_json], [([1], demo_coinbase_native), ([2], demo_spending_native)], prevouts_empty)"
  by (simp add: required_of_def demo_block_json_def demo_transactions observe_input_def demo_codec_sel demo_native_sel prevouts_empty_def MAX_COMPACT_PREVOUT_TOTAL_BYTES_def
      del: source_transactions.simps)

lemma demo_enriched:
  "enrich_transactions demo_source m [([1], demo_coinbase_native), ([2], demo_spending_native)] [demo_coinbase_json, demo_spending_json] {} =
     Ok [demo_coinbase_json, demo_spending_json]"
  by (simp add: demo_source_sel demo_json_defs demo_codec_sel demo_native_sel enrich_transaction_def enrich_input_def)

lemma demo_same_block: "with_transactions demo_block_json [demo_coinbase_json, demo_spending_json] = demo_block_json"
  by (simp add: with_transactions_def demo_block_json_def)

lemma demo_enrich: "enrich_prevouts demo_source [0] w = (Ok [0], w)"
  using demo_required demo_enriched demo_same_block
  by (simp add: enrich_prevouts_def bind_eff_def demo_source_sel into_required_def prevouts_empty_def lift_result_def ret_def)

lemma demo_parsed: "\<exists>block. parse_block demo_codec [0] (Some 0) (Some (replicate 32 0)) BitcoinRegtest = Ok block \<and>
    bb_transactions block = bb_transactions demo_btc_block"
  by (simp add: parse_block_def parse_block_data_def demo_source_sel demo_json_defs demo_codec_sel demo_native_sel required_u64_def required_string_def
      required_u32_def json_as_u64_def demo_numbers hash_field_def has_parent_def parse_transaction_def parse_input_def parse_output_def
      demo_amounts script_bytes_def local_output_def demo_btc_block_def demo_native_indexing_def demo_native_bitcoin_def from_script_for_network_def demo_chars)

lemma demo_fetched: "\<exists>block. fetch_block demo_source 0 () = (Ok block, ()) \<and> bb_transactions block = bb_transactions demo_btc_block"
proof -
  obtain block where "parse_block demo_codec [0] (Some 0) (Some (replicate 32 0)) BitcoinRegtest = Ok block"
      "bb_transactions block = bb_transactions demo_btc_block" using demo_parsed by blast
  then show ?thesis
    by (simp add: fetch_block_def demo_hash_at demo_raw_block demo_enrich demo_source_sel bind_eff_def lift_result_def ret_def)
qed

lemma demo_fetch_inspects:
  assumes "bb_transactions block = bb_transactions demo_btc_block" "br_height (bb_reference block) = 0"
  shows "\<exists>ib. btc_inspect demo_native_indexing \<lparr>in_scope = demo_btc_scope, in_network = BitcoinRegtest\<rparr> block
    [CanonicalAddress demo_btc_scope ''a''] = Ok ib"
proof -
  have height: "br_height (bb_reference demo_btc_block) = 0" by (simp add: demo_btc_block_def)
  obtain ib where "btc_inspect demo_native_indexing \<lparr>in_scope = demo_btc_scope, in_network = BitcoinRegtest\<rparr> demo_btc_block
      [CanonicalAddress demo_btc_scope ''a''] = Ok ib" using demo_inspects by blast
  then show ?thesis by (rule btc_inspect_Ok) (simp add: btc_inspect_def assms height del: validated_addresses.simps)
qed

section \<open>Properties\<close>

text \<open>
  C17. Every fact of a delivered block is one of consensus bytes. When a block is delivered, every
  transaction of it has the identifier, the spent outputs and the created outputs of a decoded consensus
  transaction; every previous output of an input is the output at its index of a decoded consensus
  transaction with its identifier, whether it was created in the block or fetched; identifiers are
  distinct and no output is spent before its transaction; the block has the requested height, and the
  node named its hash for that height before and after it was read.
\<close>

theorem fetched_block_faithful:
  assumes "fetch_block bs height w = (Ok block, w')" "codec_law bs"
  shows "(\<forall>t \<in> set (bb_transactions block). consensus_reading (bs_codec bs) t \<and>
      (\<forall>q \<in> set (resolved_inputs t). authentic (bs_codec bs) (scf_network (bs_config bs)) q)) \<and>
    distinct (map bt_id (bb_transactions block)) \<and> spends_follow (bb_transactions block) \<and>
    br_height (bb_reference block) = height \<and> reference_shaped (bb_reference block) \<and>
    (\<exists>w0 w1. hash_at bs height w = (Ok (br_hash (bb_reference block)), w0) \<and> hash_at bs height w1 = (Ok (br_hash (bb_reference block)), w'))"
  using fetch_block_Ok [OF assms] parsed_distinct by blast

theorem fetched_block_faithful_witness:
  "\<exists>block. fetch_block demo_source 0 () = (Ok block, ()) \<and> spends_follow (bb_transactions block) \<and>
     authentic demo_codec BitcoinRegtest \<lparr>po_outpoint = ([1], 0), po_value = 50, po_address = Some ''a''\<rparr>"
proof -
  obtain block where run: "fetch_block demo_source 0 () = (Ok block, ())" "bb_transactions block = bb_transactions demo_btc_block"
    using demo_fetched by blast
  from fetched_block_faithful [OF run(1) demo_codec_law] run show ?thesis
    by (auto simp: demo_btc_block_def resolved_inputs_def opt_list_def demo_source_sel)
qed

text \<open>
  C18. From the node to the index: a block the source delivers and the interpreter reads passes every
  validation of a block addition that connects to its checkpoint. The checks of the source establish what
  the interpreter relies on.
\<close>

theorem fetched_block_accepted:
  assumes "fetch_block bs height w = (Ok block, w')" "codec_law bs" "inj (nb_display_txid (ni_native (nc_indexing (bs_codec bs))))"
    and "interpreter_new scope network = Ok i" "btc_inspect (nc_indexing (bs_codec bs)) i block addresses = Ok ib"
    and "retention \<noteq> 0" "connects expected (bb_reference block)"
  shows "\<exists>a. block_addition_new scope expected retention ib = Ok a"
proof (rule inspected_block_accepted [OF assms(4,5) _ assms(3) _ assms(6,7)])
  show "distinct (map bt_id (bb_transactions block))" "spends_follow (bb_transactions block)"
    using fetch_block_Ok [OF assms(1,2)] parsed_distinct by blast+
qed

theorem fetched_block_accepted_witness:
  "\<exists>block ib a. fetch_block demo_source 0 () = (Ok block, ()) \<and>
     btc_inspect demo_native_indexing \<lparr>in_scope = demo_btc_scope, in_network = BitcoinRegtest\<rparr> block
       [CanonicalAddress demo_btc_scope ''a''] = Ok ib \<and> block_addition_new demo_btc_scope None 1 ib = Ok a"
proof -
  obtain block where run: "fetch_block demo_source 0 () = (Ok block, ())" "bb_transactions block = bb_transactions demo_btc_block"
    using demo_fetched by blast
  have "br_height (bb_reference block) = 0" using fetch_block_Ok [OF run(1) demo_codec_law] by blast
  then obtain ib where ib: "btc_inspect demo_native_indexing \<lparr>in_scope = demo_btc_scope, in_network = BitcoinRegtest\<rparr> block
      [CanonicalAddress demo_btc_scope ''a''] = Ok ib" using demo_fetch_inspects [OF run(2)] by blast
  have "\<exists>a. block_addition_new demo_btc_scope None 1 ib = Ok a"
    by (rule fetched_block_accepted [OF run(1) demo_codec_law _ demo_interpreter])
      (use ib demo_display_inj in \<open>simp_all add: demo_source_sel demo_codec_sel connects_def\<close>)
  then show ?thesis using run(1) ib by blast
qed

text \<open>
  C19. A range of blocks is delivered whole and in order: the blocks at the positions from the start on,
  without a gap, as many as the limit and the end of the range allow. No position wraps around.
\<close>

theorem source_blocks_in_order:
  assumes "btc_blocks bs start end1 limit w = (Ok delivered, w')" "codec_law bs"
  shows "length delivered = min limit (unat end1 + 1 - unat start) \<and> delivered \<noteq> [] \<and>
    (\<forall>k < length delivered. unat (br_position (bb_reference (delivered ! k))) = unat start + k)"
proof -
  from assms(1) have range: "limit \<noteq> 0" "start \<le> end1" "fetch_range (fetch_block bs) limit start end1 w = (Ok delivered, w')"
    by (auto simp: btc_blocks_def result_simps)
  have run: "length delivered = min limit (unat end1 + 1 - unat start) \<and>
      (\<forall>k < length delivered. unat (br_position (bb_reference (delivered ! k))) = unat start + k)"
    by (rule fetch_range_Ok [OF range(3)]) (rule fetch_block_position [OF _ assms(2)])
  have "unat start \<le> unat end1" using range(2) by (simp add: word_le_nat_alt)
  then have "delivered \<noteq> []" using run range(1) by (cases delivered) auto
  with run show ?thesis by blast
qed

theorem source_blocks_in_order_witness:
  "\<exists>delivered. btc_blocks demo_source 0 0 3 () = (Ok delivered, ()) \<and> length delivered = 1"
proof -
  obtain block where "fetch_block demo_source 0 () = (Ok block, ())" using demo_fetched by blast
  then have run: "btc_blocks demo_source 0 0 3 () = (Ok [block], ())"
    by (simp add: btc_blocks_def numeral_3_eq_3 bind_eff_def lift_result_def ret_def checked_add_def)
  have "length [block] = min 3 (unat (0 :: u64) + 1 - unat (0 :: u64))" using source_blocks_in_order [OF run demo_codec_law] by blast
  with run show ?thesis by (intro exI [of _ "[block]"]) simp
qed

end
