(* ===== verification/Bitcoin_Node.thy ===== *)
theory Bitcoin_Node
  imports Bitcoin_Source Transaction_Values
begin

text \<open>
  The methods of the Bitcoin Core client that wallets use (\<open>sdk/chains/bitcoin/src/rpc/node.rs, fees.rs, transactions.rs, wire.rs\<close>):
  readiness of the node, fee estimates, preflight and submission of a signed transaction, and the texts of
  fee rates. The transport and the readings of its bytes are parameters.
\<close>

section \<open>The client\<close>

text \<open>
  \<open>rc_request_once\<close> sends without retrying. The readings of bytes report the error of the JSON-RPC crate; a
  number text is taken over by \<open>rc_number\<close>.
\<close>

record ('n, 'w) btc_client =
  rc_source :: "('n, 'w) btc_source"
  rc_config :: core_config
  rc_request_once :: "string \<Rightarrow> json \<Rightarrow> ('w, source_error, (btc_failure, u8 list) result) eff"
  rc_text :: "u8 list \<Rightarrow> (source_error, string) result"
  rc_values :: "u8 list \<Rightarrow> (source_error, json list) result"
  rc_number :: "string \<Rightarrow> json option"
  rc_lower_hex :: "u8 list \<Rightarrow> string"

record btc_signed_transaction =
  st_id :: "u8 list"
  st_consensus_bytes :: "u8 list"

record node_status =
  ns_version :: u64
  ns_network :: bitcoin_network
  ns_height :: block_height
  ns_best_block_hash :: block_hash

record preflight_result =
  pf_allowed :: bool
  pf_reject_reason :: "string option"
  pf_virtual_size :: "u64 option"
  pf_base_fee :: "satoshi option"

definition not_object :: "string \<Rightarrow> string" where
  "not_object subject = subject @ '' must be an object''"

definition parse_object :: "('n, 'w) btc_client \<Rightarrow> u8 list \<Rightarrow> string \<Rightarrow> (source_error, members) result" where
  "parse_object c raw subject =
     and_then (bs_value (rc_source c) raw) (\<lambda>j.
     ok_or (json_as_object j) (retry (not_object subject)))"

definition source_bool :: "members \<Rightarrow> string \<Rightarrow> string \<Rightarrow> (source_error, bool) result" where
  "source_bool obj name subject = map_err retry (required_bool obj name subject)"

definition request_once_detailed :: "('n, 'w) btc_client \<Rightarrow> string \<Rightarrow> json \<Rightarrow> ('w, call_failure, u8 list) eff" where
  "request_once_detailed c method params =
     bind_eff (eff_err failure_local (rc_request_once c method params)) (\<lambda>answer.
     lift_result (map_err failure_remote answer))"

abbreviation call_object :: "('n, 'w) btc_client \<Rightarrow> string \<Rightarrow> json \<Rightarrow> string \<Rightarrow> ('w, source_error, members) eff" where
  "call_object c method params subject \<equiv>
     bind_eff (btc_request_result (rc_source c) method params) (\<lambda>raw. lift_result (parse_object c raw subject))"

section \<open>Readiness\<close>

definition CORE_31_VERSION_MINIMUM :: u64 where "CORE_31_VERSION_MINIMUM = 310000"
definition CORE_32_VERSION_MINIMUM :: u64 where "CORE_32_VERSION_MINIMUM = 320000"

fun from_core_chain_name :: "string \<Rightarrow> bitcoin_network option" where
  "from_core_chain_name name =
     (if name = ''main'' then Some BitcoinMainnet
      else if name = ''test'' then Some BitcoinTestnet3
      else if name = ''testnet4'' then Some BitcoinTestnet4
      else if name = ''signet'' then Some BitcoinSignet
      else if name = ''regtest'' then Some BitcoinRegtest
      else None)"

fun core_chain_name :: "bitcoin_network \<Rightarrow> string" where
  "core_chain_name BitcoinMainnet = ''main''"
| "core_chain_name BitcoinTestnet3 = ''test''"
| "core_chain_name BitcoinTestnet4 = ''testnet4''"
| "core_chain_name BitcoinSignet = ''signet''"
| "core_chain_name BitcoinRegtest = ''regtest''"

definition network_info_subject :: string where "network_info_subject = ''Bitcoin getnetworkinfo result''"
definition chain_info_subject :: string where "chain_info_subject = ''Bitcoin getblockchaininfo result''"
definition index_info_subject :: string where "index_info_subject = ''Bitcoin getindexinfo result''"
definition core_version_subject :: string where "core_version_subject = ''Bitcoin Core version''"
definition core_chain_subject :: string where "core_chain_subject = ''Bitcoin Core chain''"
definition pruning_subject :: string where "pruning_subject = ''Bitcoin pruning status''"
definition download_subject :: string where "download_subject = ''Bitcoin initial-block-download status''"
definition blocks_subject :: string where "blocks_subject = ''Bitcoin block height''"
definition headers_subject :: string where "headers_subject = ''Bitcoin header height''"
definition best_hash_subject :: string where "best_hash_subject = ''Bitcoin best block hash''"
definition index_status_subject :: string where "index_status_subject = ''Bitcoin transaction-index status''"

definition core_version_error :: source_error where
  "core_version_error = btc_source_error ''Bitcoin RPC must be a Bitcoin Core 31.x node'' False"
definition chain_name_error :: source_error where
  "chain_name_error = btc_source_error ''Bitcoin Core returned an unsupported chain name'' False"
definition core_network_error :: source_error where
  "core_network_error = btc_source_error ''Bitcoin RPC network does not match configuration'' False"
definition pruned_error :: source_error where
  "pruned_error = btc_source_error ''Bitcoin index source requires an unpruned node'' False"
definition downloading_error :: source_error where
  "downloading_error = retry ''Bitcoin Core is still in initial block download''"
definition headers_error :: source_error where
  "headers_error = retry ''Bitcoin Core block and header heights are not synchronized''"
definition index_missing_error :: source_error where
  "index_missing_error = btc_source_error ''Bitcoin Core transaction index is not enabled'' False"
definition index_syncing_error :: source_error where
  "index_syncing_error = retry ''Bitcoin Core transaction index is not synchronized''"
definition index_height_error :: source_error where
  "index_height_error = retry ''Bitcoin transaction-index height is not an unsigned integer''"
definition index_behind_error :: source_error where
  "index_behind_error = retry ''Bitcoin Core transaction index has not reached the canonical tip''"
definition core_genesis_error :: source_error where
  "core_genesis_error = btc_source_error ''Bitcoin RPC genesis hash does not match configuration'' False"

definition version_of :: "members \<Rightarrow> (source_error, u64) result" where
  "version_of network_info =
     and_then (source_u64 network_info ''version'' core_version_subject) (\<lambda>version.
     and_then (fail_if (\<not> (CORE_31_VERSION_MINIMUM \<le> version \<and> version < CORE_32_VERSION_MINIMUM)) core_version_error) (\<lambda>_.
     Ok version))"

definition node_chain_of :: "('n, 'w) btc_client \<Rightarrow> members \<Rightarrow> (source_error, bitcoin_network \<times> u64 \<times> block_hash) result" where
  "node_chain_of c chain_info =
     and_then (source_string chain_info ''chain'' core_chain_subject) (\<lambda>chain.
     and_then (ok_or (from_core_chain_name chain) chain_name_error) (\<lambda>network.
     and_then (fail_if (network \<noteq> cc_network (rc_config c)) core_network_error) (\<lambda>_.
     and_then (source_bool chain_info ''pruned'' pruning_subject) (\<lambda>pruned.
     and_then (fail_if pruned pruned_error) (\<lambda>_.
     and_then (source_bool chain_info ''initialblockdownload'' download_subject) (\<lambda>downloading.
     and_then (fail_if downloading downloading_error) (\<lambda>_.
     and_then (source_u64 chain_info ''blocks'' blocks_subject) (\<lambda>block_height.
     and_then (source_u64 chain_info ''headers'' headers_subject) (\<lambda>header_height.
     and_then (fail_if (block_height \<noteq> header_height) headers_error) (\<lambda>_.
     and_then (source_string chain_info ''bestblockhash'' best_hash_subject) (\<lambda>best.
     and_then (parse_btc_hash (rc_source c) best) (\<lambda>best_block_hash.
     Ok (network, block_height, best_block_hash)))))))))))))"

definition index_checked :: "members \<Rightarrow> u64 \<Rightarrow> (source_error, unit) result" where
  "index_checked index_info block_height =
     and_then (ok_or (Option.bind (map_of index_info ''txindex'') json_as_object) index_missing_error) (\<lambda>txindex.
     and_then (source_bool txindex ''synced'' index_status_subject) (\<lambda>synced.
     and_then (fail_if (\<not> synced) index_syncing_error) (\<lambda>_.
     case map_of txindex ''best_block_height'' of
       None \<Rightarrow> Ok ()
     | Some j \<Rightarrow>
         and_then (ok_or (json_as_u64 j) index_height_error) (\<lambda>index_height.
         fail_if (index_height \<noteq> block_height) index_behind_error))))"

definition genesis_checked :: "('n, 'w) btc_client \<Rightarrow> u8 list \<Rightarrow> (source_error, unit) result" where
  "genesis_checked c raw =
     and_then (rc_text c raw) (\<lambda>text.
     and_then (parse_btc_hash (rc_source c) text) (\<lambda>genesis.
     fail_if (genesis \<noteq> cc_genesis_hash (rc_config c)) core_genesis_error))"

definition readiness :: "('n, 'w) btc_client \<Rightarrow> ('w, source_error, node_status) eff" where
  "readiness c =
     bind_eff (call_object c ''getnetworkinfo'' (JArray []) network_info_subject) (\<lambda>network_info.
     bind_eff (lift_result (version_of network_info)) (\<lambda>version.
     bind_eff (call_object c ''getblockchaininfo'' (JArray []) chain_info_subject) (\<lambda>chain_info.
     bind_eff (lift_result (node_chain_of c chain_info)) (\<lambda>(network, block_height, best_block_hash).
     bind_eff (call_object c ''getindexinfo'' (JArray [JString ''txindex'']) index_info_subject) (\<lambda>index_info.
     bind_eff (lift_result (index_checked index_info block_height)) (\<lambda>_.
     bind_eff (btc_request_result (rc_source c) ''getblockhash'' (JArray [JNumber ''0''])) (\<lambda>raw.
     bind_eff (lift_result (genesis_checked c raw)) (\<lambda>_.
     ret \<lparr>ns_version = version, ns_network = network, ns_height = block_height, ns_best_block_hash = best_block_hash\<rparr>))))))))"

definition btc_connect :: "('n, 'w) btc_client \<Rightarrow> ('w, source_error, ('n, 'w) btc_client) eff" where
  "btc_connect c =
     bind_eff (lift_result (core_config_validate (rc_config c))) (\<lambda>_.
     bind_eff (readiness c) (\<lambda>_. ret c))"

definition canonical_hash :: "('n, 'w) btc_client \<Rightarrow> block_height \<Rightarrow> ('w, source_error, block_hash option) eff" where
  "canonical_hash c height =
     bind_eff (request_optional_result (rc_source c) ''getblockhash'' (JArray [JNumber (to_digits (unat height))]) [-8]) (\<lambda>raw.
     lift_result (case raw of
        None \<Rightarrow> Ok None
      | Some bytes \<Rightarrow>
          and_then (rc_text c bytes) (\<lambda>encoded.
          and_then (parse_btc_hash (rc_source c) encoded) (\<lambda>h. Ok (Some h)))))"

section \<open>Fee rates\<close>

text \<open>The steps of \<open>Satoshi::from_rpc_json\<close> are those of \<open>Satoshi::from_block_json\<close>, each error retryable.\<close>

definition from_rpc_json :: "json \<Rightarrow> string \<Rightarrow> (source_error, satoshi) result" where
  "from_rpc_json j subject = map_err retry (from_block_json j subject)"

definition BITCOIN_CORE_MAX_FEE_RATE :: u64 where "BITCOIN_CORE_MAX_FEE_RATE = SATOSHIS_PER_BITCOIN"

definition max_rate_zero_error :: source_error where
  "max_rate_zero_error = btc_source_error ''Bitcoin maximum fee rate must be greater than zero'' False"
definition max_rate_bound_error :: source_error where
  "max_rate_bound_error = btc_source_error (''Bitcoin maximum fee rate exceeds Bitcoin Core'' @ [CHR 0x27] @ ''s 1 BTC/kvB limit'') False"
definition max_rate_encode_error :: source_error where
  "max_rate_encode_error = btc_source_error ''Bitcoin maximum fee rate could not be encoded'' False"

definition trim_zeros :: "string \<Rightarrow> string" where
  "trim_zeros s = rev (dropWhile (\<lambda>ch. ch = CHR ''0'') (rev s))"

definition pad8 :: "string \<Rightarrow> string" where
  "pad8 s = replicate (8 - length s) CHR ''0'' @ s"

definition rate_text :: "u64 \<Rightarrow> string" where
  "rate_text satoshis =
     (let whole = satoshis div SATOSHIS_PER_BITCOIN; remainder = satoshis mod SATOSHIS_PER_BITCOIN in
      if remainder = 0 then to_digits (unat whole)
      else trim_zeros (to_digits (unat whole) @ ''.'' @ pad8 (to_digits (unat remainder))))"

definition core_maximum_json :: "('n, 'w) btc_client \<Rightarrow> u64 \<Rightarrow> (source_error, json) result" where
  "core_maximum_json c satoshis =
     and_then (fail_if (satoshis = 0) max_rate_zero_error) (\<lambda>_.
     and_then (fail_if (satoshis > BITCOIN_CORE_MAX_FEE_RATE) max_rate_bound_error) (\<lambda>_.
     ok_or (rc_number c (rate_text satoshis)) max_rate_encode_error))"

definition target_zero_error :: source_error where
  "target_zero_error = btc_source_error ''Bitcoin fee-estimation target must be greater than zero'' False"
definition no_estimate_error :: source_error where
  "no_estimate_error = retry ''Bitcoin Core cannot currently estimate a fee rate''"
definition btc_zero_estimate_error :: source_error where
  "btc_zero_estimate_error = retry ''Bitcoin Core estimated a zero fee rate''"
definition estimate_subject :: string where "estimate_subject = ''Bitcoin estimatesmartfee result''"
definition estimate_rate_subject :: string where "estimate_rate_subject = ''Bitcoin estimated BTC/kvB fee rate''"

definition estimated_rate :: "members \<Rightarrow> (source_error, u64) result" where
  "estimated_rate answer =
     and_then (ok_or (map_of answer ''feerate'') no_estimate_error) (\<lambda>fee_rate.
     and_then (from_rpc_json fee_rate estimate_rate_subject) (\<lambda>satoshis.
     and_then (fail_if (satoshis = 0) btc_zero_estimate_error) (\<lambda>_.
     Ok satoshis)))"

definition estimate_fee_rate :: "('n, 'w) btc_client \<Rightarrow> 16 word \<Rightarrow> ('w, source_error, u64) eff" where
  "estimate_fee_rate c target_blocks =
     bind_eff (lift_result (fail_if (target_blocks = 0) target_zero_error)) (\<lambda>_.
     bind_eff (call_object c ''estimatesmartfee'' (JArray [JNumber (to_digits (unat target_blocks)), JString ''conservative'']) estimate_subject)
       (\<lambda>answer. lift_result (estimated_rate answer)))"

section \<open>Preflight and submission\<close>

definition preflight_count_error :: source_error where
  "preflight_count_error = retry ''Bitcoin testmempoolaccept returned an unexpected result count''"
definition preflight_object_error :: source_error where
  "preflight_object_error = retry ''Bitcoin testmempoolaccept result must be an object''"
definition preflight_id_error :: source_error where
  "preflight_id_error = retry ''Bitcoin preflight returned an invalid txid''"
definition preflight_mismatch_error :: source_error where
  "preflight_mismatch_error = retry ''Bitcoin preflight returned a different transaction ID''"
definition preflight_id_subject :: string where "preflight_id_subject = ''Bitcoin preflight transaction ID''"
definition preflight_allowed_subject :: string where "preflight_allowed_subject = ''Bitcoin preflight allowance''"
definition preflight_fee_subject :: string where "preflight_fee_subject = ''Bitcoin preflight base fee''"

definition preflight_answer :: "('n, 'w) btc_client \<Rightarrow> btc_signed_transaction \<Rightarrow> json list \<Rightarrow> (source_error, preflight_result) result" where
  "preflight_answer c t js =
     and_then (fail_if (length js \<noteq> 1) preflight_count_error) (\<lambda>_.
     and_then (ok_or (json_as_object (hd js)) preflight_object_error) (\<lambda>answer.
     and_then (source_string answer ''txid'' preflight_id_subject) (\<lambda>text.
     and_then (ok_or (nc_txid (bs_codec (rc_source c)) text) preflight_id_error) (\<lambda>returned_id.
     and_then (fail_if (returned_id \<noteq> st_id t) preflight_mismatch_error) (\<lambda>_.
     and_then (source_bool answer ''allowed'' preflight_allowed_subject) (\<lambda>allowed.
     and_then
       (transpose_map (\<lambda>fee. from_rpc_json fee preflight_fee_subject)
         (Option.bind (Option.bind (map_of answer ''fees'') json_as_object) (\<lambda>fees. map_of fees ''base''))) (\<lambda>base_fee.
     Ok \<lparr>pf_allowed = allowed, pf_reject_reason = Option.bind (map_of answer ''reject-reason'') json_as_str,
         pf_virtual_size = Option.bind (map_of answer ''vsize'') json_as_u64, pf_base_fee = base_fee\<rparr>)))))))"

definition btc_preflight :: "('n, 'w) btc_client \<Rightarrow> btc_signed_transaction \<Rightarrow> u64 \<Rightarrow> ('w, source_error, preflight_result) eff" where
  "btc_preflight c t max_fee_rate =
     bind_eff (lift_result (core_maximum_json c max_fee_rate)) (\<lambda>rate.
     bind_eff (btc_request_result (rc_source c) ''testmempoolaccept''
       (JArray [JArray [JString (rc_lower_hex c (st_consensus_bytes t))], rate])) (\<lambda>raw.
     lift_result (
       and_then (rc_values c raw) (\<lambda>js.
       preflight_answer c t js))))"

definition btc_ambiguous_submission :: "('n, 'w) btc_client \<Rightarrow> u8 list \<Rightarrow> string \<Rightarrow> transaction_error" where
  "btc_ambiguous_submission c i message =
     with_ambiguous_transaction_id (transaction_error_new TxUnavailable message)
       (nb_display_txid (ni_native (nc_indexing (bs_codec (rc_source c)))) i)"

definition submitted_id_error :: string where
  "submitted_id_error = ''Bitcoin Core returned an invalid transaction ID''"
definition submitted_mismatch_error :: string where
  "submitted_mismatch_error = ''Bitcoin Core returned a different transaction ID after broadcast''"

definition submitted_answer :: "('n, 'w) btc_client \<Rightarrow> u8 list \<Rightarrow> u8 list \<Rightarrow> (transaction_error, u8 list) result" where
  "submitted_answer c expected_id raw =
     and_then (map_err (\<lambda>e. btc_ambiguous_submission c expected_id (se_message e)) (rc_text c raw)) (\<lambda>text.
     and_then (ok_or (nc_txid (bs_codec (rc_source c)) text) (btc_ambiguous_submission c expected_id submitted_id_error)) (\<lambda>returned.
     and_then (fail_if (returned \<noteq> expected_id) (btc_ambiguous_submission c expected_id submitted_mismatch_error)) (\<lambda>_.
     Ok returned)))"

definition submission_failure :: "('n, 'w) btc_client \<Rightarrow> u8 list \<Rightarrow> call_failure \<Rightarrow> transaction_error" where
  "submission_failure c expected_id failure =
     (if cf_remote_code failure \<noteq> None then transaction_error_new TxRejected (se_message (cf_error failure))
      else btc_ambiguous_submission c expected_id (se_message (cf_error failure)))"

definition btc_broadcast :: "('n, 'w) btc_client \<Rightarrow> btc_signed_transaction \<Rightarrow> u64 \<Rightarrow> ('w, transaction_error, u8 list) eff" where
  "btc_broadcast c t max_fee_rate =
     bind_eff (lift_result (map_err (\<lambda>e. transaction_error_new TxFee (se_message e)) (core_maximum_json c max_fee_rate))) (\<lambda>rate.
     bind_eff (eff_err (submission_failure c (st_id t)) (request_once_detailed c ''sendrawtransaction''
       (JArray [JString (rc_lower_hex c (st_consensus_bytes t)), rate]))) (\<lambda>raw.
     lift_result (submitted_answer c (st_id t) raw)))"

section \<open>What readiness establishes\<close>

lemma chain_names: "from_core_chain_name (core_chain_name network) = Some network"
  by (cases network) simp_all

lemma readiness_Ok:
  assumes "readiness c w = (Ok s, w')"
  shows "310000 \<le> unat (ns_version s) \<and> unat (ns_version s) < 320000 \<and> ns_network s = cc_network (rc_config c) \<and>
    (\<exists>w1 raw text. btc_request_result (rc_source c) ''getblockhash'' (JArray [JNumber ''0'']) w1 = (Ok raw, w') \<and>
       rc_text c raw = Ok text \<and> parse_btc_hash (rc_source c) text = Ok (cc_genesis_hash (rc_config c)))"
proof -
  from assms obtain network_info chain_info version network height best w1 raw where step: "version_of network_info = Ok version"
      "node_chain_of c chain_info = Ok (network, height, best)" "genesis_checked c raw = Ok ()"
      "btc_request_result (rc_source c) ''getblockhash'' (JArray [JNumber ''0'']) w1 = (Ok raw, w')"
      "s = \<lparr>ns_version = version, ns_network = network, ns_height = height, ns_best_block_hash = best\<rparr>"
    by (auto simp: readiness_def result_simps)
  have "310000 \<le> unat version \<and> unat version < 320000"
    using step(1) by (auto simp: version_of_def result_simps CORE_31_VERSION_MINIMUM_def CORE_32_VERSION_MINIMUM_def word_le_nat_alt word_less_nat_alt)
  moreover have "network = cc_network (rc_config c)" using step(2) by (auto simp: node_chain_of_def result_simps)
  moreover have "\<exists>text. rc_text c raw = Ok text \<and> parse_btc_hash (rc_source c) text = Ok (cc_genesis_hash (rc_config c))"
    using step(3) by (auto simp: genesis_checked_def result_simps)
  ultimately show ?thesis using step(4,5) by auto
qed

section \<open>Fee rates and their texts\<close>

lemma digits_no_dot: "list_all is_digit s \<Longrightarrow> CHR ''.'' \<notin> set s"
  by (auto simp: list_all_iff is_digit_def)

lemma digits_fixed_point:
  assumes "list_all is_digit s"
  shows "\<not> list_ex (\<lambda>ch. ch \<in> {CHR ''e'', CHR ''E'', CHR ''+''}) s" "take 1 (s @ r) = ''-'' \<longrightarrow> s = []"
proof -
  show "\<not> list_ex (\<lambda>ch. ch \<in> {CHR ''e'', CHR ''E'', CHR ''+''}) s"
    using assms by (auto simp: list_all_iff list_ex_iff is_digit_def)
  show "take 1 (s @ r) = ''-'' \<longrightarrow> s = []" using assms by (cases s) (auto simp: is_digit_def)
qed

lemma parse_digits_zeros_after: "parse_digits (s @ replicate k CHR ''0'') = parse_digits s * 10 ^ k"
proof -
  have "foldl (\<lambda>a c. a * 10 + (of_char c - 48)) n (replicate k CHR ''0'') = n * 10 ^ k" for n :: nat
    by (induction k arbitrary: n) simp_all
  then show ?thesis by (simp add: parse_digits_def)
qed

lemma trim_zeros_split: "\<exists>k. s = trim_zeros s @ replicate k CHR ''0''"
proof -
  have "rev s = takeWhile (\<lambda>ch. ch = CHR ''0'') (rev s) @ dropWhile (\<lambda>ch. ch = CHR ''0'') (rev s)" by simp
  then have "s = trim_zeros s @ rev (takeWhile (\<lambda>ch. ch = CHR ''0'') (rev s))"
    unfolding trim_zeros_def by (metis rev_append rev_rev_ident)
  moreover have "rev (takeWhile (\<lambda>ch. ch = CHR ''0'') (rev s)) = replicate (length (takeWhile (\<lambda>ch. ch = CHR ''0'') (rev s))) CHR ''0''"
    by (rule replicate_eqI) (auto dest: set_takeWhileD)
  ultimately show ?thesis by metis
qed

lemma trim_zeros_dot: "trim_zeros (a @ ''.'' @ f) = a @ ''.'' @ trim_zeros f"
  by (simp add: trim_zeros_def dropWhile_append)

text \<open>An exact amount is read as it is written.\<close>

lemma word_below:
  fixes v :: u64
  assumes "n \<le> unat v"
  obtains u :: u64 where "unat u = n"
proof
  show "unat (of_nat n :: u64) = n" using assms unat_less [of v] by (simp add: unat_of_nat)
qed

lemma from_block_json_whole:
  assumes "list_all is_digit whole" "whole \<noteq> []" "unat v = parse_digits whole * 10 ^ 8"
  shows "from_block_json (JNumber whole) subject = Ok v"
proof -
  have "parse_digits whole \<le> unat v" using assms(3) by simp
  then obtain units :: u64 where units: "unat units = parse_digits whole" by (rule word_below)
  have "digits_u64 whole = Some units" using assms(1,2) units by (simp add: digits_u64_iff)
  moreover have "checked_mul units SATOSHIS_PER_BITCOIN = Some v" using units assms(3) by (simp add: checked_mul_SomeD SATOSHIS_PER_BITCOIN_def)
  moreover have "checked_add v 0 = Some v" by (simp add: checked_add_SomeD)
  ultimately show ?thesis
    using assms(1,2) digits_fixed_point(1) [OF assms(1)] digits_fixed_point(2) [OF assms(1), of "[]"]
    by (simp add: from_block_json_def amount_parts_def split_char_none digits_no_dot)
qed

lemma digits_word:
  fixes v :: u64
  assumes "parse_digits s \<le> unat v" "list_all is_digit s" "s \<noteq> []"
  obtains u :: u64 where "digits_u64 s = Some u" "unat u = parse_digits s"
proof -
  obtain u :: u64 where "unat u = parse_digits s" using assms(1) by (rule word_below)
  with assms(2,3) show ?thesis using that by (simp add: digits_u64_iff)
qed

lemma unat_power8: "k \<le> 8 \<Longrightarrow> unat (10 ^ k :: u64) = 10 ^ k"
proof -
  assume "k \<le> 8"
  then have "k \<in> {0, 1, 2, 3, 4, 5, 6, 7, 8}" by auto
  then show ?thesis by auto
qed

lemma from_block_json_fraction:
  fixes v :: u64
  assumes "list_all is_digit whole" "whole \<noteq> []" "list_all is_digit fraction" "fraction \<noteq> []" "length fraction \<le> 8"
    and v: "unat v = parse_digits whole * 10 ^ 8 + parse_digits fraction * 10 ^ (8 - length fraction)"
  shows "from_block_json (JNumber (whole @ CHR ''.'' # fraction)) subject = Ok v"
proof -
  have le: "parse_digits whole \<le> unat v" "parse_digits fraction \<le> unat v" using v by (simp_all add: trans_le_add2)
  obtain units where units: "digits_u64 whole = Some units" "unat units = parse_digits whole" using digits_word [OF le(1) assms(1,2)] .
  obtain part where part: "digits_u64 fraction = Some part" "unat part = parse_digits fraction" using digits_word [OF le(2) assms(3,4)] .
  have "parse_digits whole * 10 ^ 8 \<le> unat v" using v by simp
  then obtain base :: u64 where "unat base = parse_digits whole * 10 ^ 8" by (rule word_below)
  then have base: "checked_mul units SATOSHIS_PER_BITCOIN = Some base"
    using units(2) by (simp add: checked_mul_SomeD SATOSHIS_PER_BITCOIN_def)
  have "parse_digits fraction * 10 ^ (8 - length fraction) \<le> unat v" using v by simp
  then obtain scaled :: u64 where "unat scaled = parse_digits fraction * 10 ^ (8 - length fraction)" by (rule word_below)
  then have scaled: "checked_mul part (10 ^ (8 - length fraction)) = Some scaled"
    using part(2) unat_power8 [of "8 - length fraction"] by (simp add: checked_mul_SomeD)
  have "checked_add base scaled = Some v"
    using base scaled units(2) part(2) v unat_power8 [of "8 - length fraction"]
    by (simp add: checked_add_SomeD checked_mul_SomeD SATOSHIS_PER_BITCOIN_def)
  then show ?thesis
    using assms(1-5) units(1) part(1) base scaled digits_fixed_point(1) [OF assms(1)] digits_fixed_point(1) [OF assms(3)]
      digits_fixed_point(2) [OF assms(1), of "CHR ''.'' # fraction"]
    by (simp add: from_block_json_def amount_parts_def split_char_append split_char_none digits_no_dot)
qed

text \<open>The text of a fee rate denotes the rate.\<close>

lemma trim_zeros_digits:
  assumes "list_all is_digit s" "length s = 8" "parse_digits s \<noteq> 0"
  shows "list_all is_digit (trim_zeros s)" "trim_zeros s \<noteq> []" "length (trim_zeros s) \<le> 8"
    "parse_digits (trim_zeros s) * 10 ^ (8 - length (trim_zeros s)) = parse_digits s"
proof -
  obtain k where k: "s = trim_zeros s @ replicate k CHR ''0''" using trim_zeros_split by blast
  then have len: "length s = length (trim_zeros s) + k" by (metis length_append length_replicate)
  show "list_all is_digit (trim_zeros s)" using assms(1) k by (metis list_all_append)
  show "length (trim_zeros s) \<le> 8" using len assms(2) by simp
  show parts: "parse_digits (trim_zeros s) * 10 ^ (8 - length (trim_zeros s)) = parse_digits s"
  proof -
    have "8 - length (trim_zeros s) = k" using len assms(2) by linarith
    then show ?thesis using parse_digits_zeros_after [of "trim_zeros s" k] k by simp
  qed
  show "trim_zeros s \<noteq> []" using parts assms(3) by (auto simp: parse_digits_def)
qed

lemma pad8_digits:
  assumes "n < 10 ^ 8"
  shows "list_all is_digit (pad8 (to_digits n))" "length (pad8 (to_digits n)) = 8" "parse_digits (pad8 (to_digits n)) = n"
proof -
  have "0 < n \<longrightarrow> 10 ^ (length (to_digits n) - 1) < (10 ^ 8 :: nat)" using to_digits_bounds [of n] assms by (meson le_less_trans)
  then have "n = 0 \<or> length (to_digits n) - 1 < 8" by (metis gr0I one_less_numeral_iff power_less_imp_less_exp semiring_norm(76))
  then have "length (to_digits n) \<le> 8" using to_digits_small [of n] by auto
  then show "length (pad8 (to_digits n)) = 8" by (simp add: pad8_def)
  have "is_digit CHR ''0''" by (simp add: is_digit_def)
  then show "list_all is_digit (pad8 (to_digits n))" by (simp add: pad8_def to_digits_all_digits list_all_iff [of _ "replicate _ _"])
  show "parse_digits (pad8 (to_digits n)) = n" by (simp add: pad8_def)
qed

lemma rate_text_read: "from_block_json (JNumber (rate_text satoshis)) subject = Ok satoshis"
proof -
  let ?whole = "unat satoshis div 10 ^ 8" and ?rest = "unat satoshis mod 10 ^ 8"
  have parts: "unat (satoshis div SATOSHIS_PER_BITCOIN) = ?whole" "unat (satoshis mod SATOSHIS_PER_BITCOIN) = ?rest"
    by (simp_all add: SATOSHIS_PER_BITCOIN_def unat_div_distrib unat_mod_distrib)
  have split: "unat satoshis = ?whole * 10 ^ 8 + ?rest" by simp
  show ?thesis
  proof (cases "satoshis mod SATOSHIS_PER_BITCOIN = 0")
    case True
    then have "?rest = 0" using parts(2) by simp
    then show ?thesis
      using True parts(1) split from_block_json_whole [of "to_digits ?whole" satoshis subject] by (simp add: rate_text_def to_digits_all_digits)
  next
    case False
    then have nz: "?rest \<noteq> 0" using parts(2) by (metis unat_0 word_unat_eq_iff)
    let ?f = "trim_zeros (pad8 (to_digits ?rest))"
    have "?rest < 10 ^ 8" by simp
    note pad = pad8_digits [OF this]
    have "parse_digits (pad8 (to_digits ?rest)) \<noteq> 0" using pad(3) nz by simp
    note trim = trim_zeros_digits [OF pad(1,2) this]
    have "unat satoshis = parse_digits (to_digits ?whole) * 10 ^ 8 + parse_digits ?f * 10 ^ (8 - length ?f)"
      using split pad(3) trim(4) by simp
    from from_block_json_fraction [OF to_digits_all_digits to_digits_nonempty trim(1-3) this] show ?thesis
      using False parts by (simp add: rate_text_def trim_zeros_dot [simplified])
  qed
qed

text \<open>The law of the number reader: it takes over the text.\<close>

definition number_law :: "('n, 'w) btc_client \<Rightarrow> bool" where
  "number_law c \<longleftrightarrow> (\<forall>s j. rc_number c s = Some j \<longrightarrow> j = JNumber s)"

definition demo_client :: "(string, unit) btc_client" where
  "demo_client =
     \<lparr>rc_source = demo_source, rc_config = \<lparr>cc_network = BitcoinRegtest, cc_genesis_hash = replicate 32 0\<rparr>,
      rc_request_once = (\<lambda>method params. ret (Ok [0])), rc_text = (\<lambda>_. Ok ''1''), rc_values = (\<lambda>_. Ok []),
      rc_number = (\<lambda>s. Some (JNumber s)), rc_lower_hex = (\<lambda>_. [])\<rparr>"

section \<open>Properties\<close>

text \<open>
  C23. Submitting a signed transaction never leaves its fate open without saying so. It succeeds only when the node
  named exactly its identifier. An error without an identifier means that nothing was sent because the fee
  bound is invalid, or that the node rejected the transaction; every other error carries the identifier.
\<close>

theorem btc_broadcast_outcome:
  "case btc_broadcast c t max_fee_rate w of
     (Ok i, w') \<Rightarrow> i = st_id t \<and>
       (\<exists>rate raw text. core_maximum_json c max_fee_rate = Ok rate \<and>
          rc_request_once c ''sendrawtransaction'' (JArray [JString (rc_lower_hex c (st_consensus_bytes t)), rate]) w = (Ok (Ok raw), w') \<and>
          rc_text c raw = Ok text \<and> nc_txid (bs_codec (rc_source c)) text = Some i)
   | (Err e, w') \<Rightarrow>
       (if te_ambiguous e = None
        then te_kind e = TxFee \<and> core_maximum_json c max_fee_rate \<notin> range Inr \<and> w' = w \<or>
          te_kind e = TxRejected \<and>
          (\<exists>rate f. core_maximum_json c max_fee_rate = Ok rate \<and>
             rc_request_once c ''sendrawtransaction'' (JArray [JString (rc_lower_hex c (st_consensus_bytes t)), rate]) w = (Ok (Err f), w'))
        else te_kind e = TxUnavailable \<and>
          te_ambiguous e = Some (nb_display_txid (ni_native (nc_indexing (bs_codec (rc_source c)))) (st_id t)))"
proof (cases "core_maximum_json c max_fee_rate")
  case (Inl se)
  then show ?thesis by (auto simp: btc_broadcast_def bind_eff_def lift_result_def transaction_error_new_def)
next
  case (Inr rate)
  obtain answer w1 where sent:
      "rc_request_once c ''sendrawtransaction'' (JArray [JString (rc_lower_hex c (st_consensus_bytes t)), rate]) w = (answer, w1)"
    by fastforce
  show ?thesis
  proof (cases answer)
    case (Inl e)
    then show ?thesis using Inr sent
      by (simp add: btc_broadcast_def bind_eff_def lift_result_def request_once_detailed_def eff_err_def submission_failure_def failure_local_def
          btc_ambiguous_submission_def with_ambiguous_transaction_id_def transaction_error_new_def)
  next
    case reply: (Inr reply)
    show ?thesis
    proof (cases reply)
      case (Inl f)
      then show ?thesis using Inr sent reply
        by (simp add: btc_broadcast_def bind_eff_def lift_result_def request_once_detailed_def eff_err_def submission_failure_def failure_remote_def
            transaction_error_new_def)
    next
      case raw: (Inr raw)
      then have run: "btc_broadcast c t max_fee_rate w = (submitted_answer c (st_id t) raw, w1)" using Inr sent reply
        by (simp add: btc_broadcast_def bind_eff_def lift_result_def request_once_detailed_def eff_err_def)
      show ?thesis using Inr sent reply raw unfolding run submitted_answer_def
        by (cases "rc_text c raw"; cases "nc_txid (bs_codec (rc_source c)) (projr (rc_text c raw))")
          (auto simp: fail_if_def btc_ambiguous_submission_def with_ambiguous_transaction_id_def transaction_error_new_def)
    qed
  qed
qed

text \<open>
  C24. The fee bound sent to the node is the bound that was asked for: a rate that is accepted is positive and
  at most one bitcoin per kilobyte, and the number sent reads back as that rate, exact to the satoshi.
\<close>

theorem max_fee_rate_exact:
  assumes "number_law c" "core_maximum_json c satoshis = Ok j"
  shows "0 < satoshis \<and> satoshis \<le> 100000000 \<and> from_rpc_json j subject = Ok satoshis"
proof -
  have "j = JNumber (rate_text satoshis)" using assms by (auto simp: number_law_def core_maximum_json_def result_simps)
  then have "from_rpc_json j subject = Ok satoshis" using rate_text_read by (simp add: from_rpc_json_def)
  moreover have "satoshis \<noteq> 0" "satoshis \<le> 100000000"
    using assms(2) by (auto simp: core_maximum_json_def result_simps BITCOIN_CORE_MAX_FEE_RATE_def SATOSHIS_PER_BITCOIN_def)
  ultimately show ?thesis by (simp add: word_gt_0)
qed

theorem max_fee_rate_exact_witness:
  "number_law demo_client \<and> (\<exists>j. core_maximum_json demo_client 25000 = Ok j \<and> from_rpc_json j ''rate'' = Ok 25000)"
proof -
  have law: "number_law demo_client" by (simp add: number_law_def demo_client_def)
  have run: "core_maximum_json demo_client 25000 = Ok (JNumber (rate_text 25000))"
    by (simp add: core_maximum_json_def demo_client_def BITCOIN_CORE_MAX_FEE_RATE_def SATOSHIS_PER_BITCOIN_def)
  from max_fee_rate_exact [OF law run, of "''rate''"] law run show ?thesis by blast
qed

end
