(* ===== verification/Eth_Indexer.thy ===== *)
theory Eth_Indexer
  imports Eth_Values Observation Json
begin

text \<open>
  Reading Ethereum blocks and receipts and what they mean to the watched addresses
  (\<open>sdk/chains/ethereum/src/indexer/model.rs, interpreter.rs\<close>). The block shape, hashes, addresses, numbers and
  hexadecimal texts of the \<open>alloy\<close> crates are parameters.
\<close>

section \<open>The native codec\<close>

datatype rpc_transactions = TransactionsFull "json list" | TransactionsHashes | TransactionsUncle

record rpc_block =
  rb_number :: u64
  rb_hash :: "u8 list"
  rb_parent_hash :: "u8 list"
  rb_timestamp :: u64
  rb_transactions :: rpc_transactions

text \<open>
  \<open>al_block\<close> and \<open>al_json\<close> read bytes, \<open>al_b256\<close>, \<open>al_address\<close> and \<open>al_u256\<close> texts (\<open>al_u256\<close> the digits of base 16), and
  \<open>al_encode\<close> is \<open>hex::encode_prefixed\<close>.
\<close>

record alloy =
  al_block :: "u8 list \<Rightarrow> rpc_block option"
  al_json :: "u8 list \<Rightarrow> json option"
  al_b256 :: "string \<Rightarrow> u8 list option"
  al_address :: "string \<Rightarrow> u8 list option"
  al_u256 :: "string \<Rightarrow> wei option"
  al_encode :: "u8 list \<Rightarrow> string"

section \<open>Parsed values\<close>

record parsed_transaction =
  pt_hash :: "u8 list"
  pt_from :: eth_address
  pt_to :: "eth_address option"
  pt_value :: wei
  pt_index :: u64

record parsed_block =
  pb_reference :: block_ref
  pb_transactions :: "parsed_transaction list"

record parsed_log =
  pl_address :: eth_address
  pl_topics :: "u8 list list"
  pl_data :: "u8 list"
  pl_log_index :: u64

record parsed_receipt =
  pr_transaction_hash :: "u8 list"
  pr_transaction_index :: u64
  pr_succeeded :: bool
  pr_gas_used :: u64
  pr_effective_gas_price :: wei
  pr_contract_address :: "eth_address option"
  pr_logs :: "parsed_log list"

section \<open>Fields\<close>

definition eth_missing :: "string \<Rightarrow> string" where "eth_missing label = ''Ethereum '' @ label @ '' is missing''"
definition not_hash :: "string \<Rightarrow> string" where "not_hash label = ''Ethereum '' @ label @ '' is not a 32-byte hash''"
definition not_address :: "string \<Rightarrow> string" where "not_address label = ''Ethereum '' @ label @ '' is not a 20-byte address''"
definition not_address_or_null :: "string \<Rightarrow> string" where
  "not_address_or_null label = ''Ethereum '' @ label @ '' must be an address or null''"
definition not_quantity :: "string \<Rightarrow> string" where "not_quantity label = ''Ethereum '' @ label @ '' is not a hex quantity''"
definition not_canonical_quantity :: "string \<Rightarrow> string" where
  "not_canonical_quantity label = ''Ethereum '' @ label @ '' is not a canonical hex quantity''"
definition eth_exceeds_256 :: "string \<Rightarrow> string" where "eth_exceeds_256 label = ''Ethereum '' @ label @ '' exceeds 256 bits''"
definition eth_exceeds_u64 :: "string \<Rightarrow> string" where "eth_exceeds_u64 label = ''Ethereum '' @ label @ '' exceeds u64''"

definition eth_text :: "members \<Rightarrow> string \<Rightarrow> string \<Rightarrow> (string, string) result" where
  "eth_text obj key label = ok_or (Option.bind (map_of obj key) json_as_str) (eth_missing label)"

definition required_hash :: "alloy \<Rightarrow> members \<Rightarrow> string \<Rightarrow> string \<Rightarrow> (string, u8 list) result" where
  "required_hash al obj key label =
     and_then (eth_text obj key label) (\<lambda>text.
     ok_or (al_b256 al text) (not_hash label))"

definition required_address :: "alloy \<Rightarrow> members \<Rightarrow> string \<Rightarrow> string \<Rightarrow> (string, eth_address) result" where
  "required_address al obj key label =
     and_then (eth_text obj key label) (\<lambda>text.
     ok_or (al_address al text) (not_address label))"

definition optional_address :: "alloy \<Rightarrow> members \<Rightarrow> string \<Rightarrow> string \<Rightarrow> (string, eth_address option) result" where
  "optional_address al obj key label =
     (case map_of obj key of
        None \<Rightarrow> Ok None
      | Some JNull \<Rightarrow> Ok None
      | Some (JString text) \<Rightarrow> and_then (ok_or (al_address al text) (not_address label)) (\<lambda>a. Ok (Some a))
      | Some _ \<Rightarrow> Err (not_address_or_null label))"

definition eth_parse_quantity :: "alloy \<Rightarrow> string \<Rightarrow> string \<Rightarrow> (string, wei) result" where
  "eth_parse_quantity al text label =
     and_then (ok_or (strip_0x text) (not_quantity label)) (\<lambda>digits.
     and_then (fail_if (digits = [] \<or> length digits > 1 \<and> hd digits = CHR ''0'') (not_canonical_quantity label)) (\<lambda>_.
     ok_or (al_u256 al digits) (eth_exceeds_256 label)))"

definition required_quantity :: "alloy \<Rightarrow> members \<Rightarrow> string \<Rightarrow> string \<Rightarrow> (string, wei) result" where
  "required_quantity al obj key label =
     and_then (eth_text obj key label) (\<lambda>text.
     eth_parse_quantity al text label)"

definition wei_to_u64 :: "wei \<Rightarrow> u64 option" where
  "wei_to_u64 w = (if unat w < 2 ^ 64 then Some (ucast w) else None)"

definition required_quantity_u64 :: "alloy \<Rightarrow> members \<Rightarrow> string \<Rightarrow> string \<Rightarrow> (string, u64) result" where
  "required_quantity_u64 al obj key label =
     and_then (required_quantity al obj key label) (\<lambda>w.
     ok_or (wei_to_u64 w) (eth_exceeds_u64 label))"

section \<open>Blocks\<close>

definition eth_shape_error :: string where "eth_shape_error = ''Ethereum block result does not match the RPC block shape''"
definition eth_number_error :: string where "eth_number_error = ''Ethereum block number does not match the requested height''"
definition hashes_only_error :: string where "hashes_only_error = ''Ethereum full-block request returned transaction hashes only''"
definition eth_duplicate_error :: string where "eth_duplicate_error = ''Ethereum block contains duplicate transaction hashes''"
definition eth_object_error :: string where "eth_object_error = ''Ethereum transaction must be an object''"
definition eth_position_error :: string where "eth_position_error = ''Ethereum transaction position exceeds u64''"
definition eth_order_error :: string where "eth_order_error = ''Ethereum transaction index does not match block order''"
definition eth_tx_hash_error :: string where "eth_tx_hash_error = ''Ethereum transaction block hash does not match its block''"
definition eth_tx_number_error :: string where "eth_tx_number_error = ''Ethereum transaction block number does not match its block''"

definition tx_hash_label :: string where "tx_hash_label = ''transaction hash''"
definition tx_from_label :: string where "tx_from_label = ''transaction sender''"
definition tx_to_label :: string where "tx_to_label = ''transaction recipient''"
definition tx_value_label :: string where "tx_value_label = ''transaction value''"
definition tx_index_label :: string where "tx_index_label = ''transaction index''"
definition tx_block_label :: string where "tx_block_label = ''transaction block hash''"
definition tx_number_label :: string where "tx_number_label = ''transaction block number''"

definition parse_eth_transaction ::
  "alloy \<Rightarrow> json \<Rightarrow> nat \<Rightarrow> block_height \<Rightarrow> u8 list \<Rightarrow> (string, parsed_transaction) result" where
  "parse_eth_transaction al j position height block_hash =
     and_then (ok_or (json_as_object j) eth_object_error) (\<lambda>obj.
     and_then (required_hash al obj ''hash'' tx_hash_label) (\<lambda>hash.
     and_then (required_address al obj ''from'' tx_from_label) (\<lambda>from1.
     and_then (optional_address al obj ''to'' tx_to_label) (\<lambda>to.
     and_then (required_quantity al obj ''value'' tx_value_label) (\<lambda>v.
     and_then (required_quantity_u64 al obj ''transactionIndex'' tx_index_label) (\<lambda>index.
     and_then (fail_if (position \<ge> 2 ^ 64) eth_position_error) (\<lambda>_.
     and_then (fail_if (unat index \<noteq> position) eth_order_error) (\<lambda>_.
     and_then (required_hash al obj ''blockHash'' tx_block_label) (\<lambda>in_block.
     and_then (fail_if (in_block \<noteq> block_hash) eth_tx_hash_error) (\<lambda>_.
     and_then (required_quantity_u64 al obj ''blockNumber'' tx_number_label) (\<lambda>number.
     and_then (fail_if (number \<noteq> height) eth_tx_number_error) (\<lambda>_.
     Ok \<lparr>pt_hash = hash, pt_from = from1, pt_to = to, pt_value = v, pt_index = index\<rparr>))))))))))))"

fun parse_eth_transactions ::
  "alloy \<Rightarrow> bool \<Rightarrow> block_height \<Rightarrow> u8 list \<Rightarrow> nat \<Rightarrow> json list \<Rightarrow> u8 list set \<Rightarrow> (string, parsed_transaction list) result" where
  "parse_eth_transactions al require_full height block_hash position [] hashes = Ok []"
| "parse_eth_transactions al require_full height block_hash position (j # js) hashes =
     (if \<not> require_full \<and> json_as_object j = None then parse_eth_transactions al require_full height block_hash (position + 1) js hashes
      else
        and_then (parse_eth_transaction al j position height block_hash) (\<lambda>t.
        and_then (fail_if (pt_hash t \<in> hashes) eth_duplicate_error) (\<lambda>_.
        and_then (parse_eth_transactions al require_full height block_hash (position + 1) js (insert (pt_hash t) hashes)) (\<lambda>ts.
        Ok (t # ts)))))"

definition reference_of :: "rpc_block \<Rightarrow> block_ref" where
  "reference_of b =
     \<lparr>br_position = rb_number b, br_height = rb_number b, br_hash = rb_hash b,
      br_parent = (if rb_number b \<noteq> 0 then Some \<lparr>bp_position = rb_number b - 1, bp_hash = rb_parent_hash b\<rparr> else None),
      br_timestamp = Some (rb_timestamp b)\<rparr>"

definition transaction_values :: "rpc_transactions \<Rightarrow> bool \<Rightarrow> (string, json list) result" where
  "transaction_values ts require_full =
     (case ts of
        TransactionsFull js \<Rightarrow> Ok js
      | _ \<Rightarrow> if require_full then Err hashes_only_error else Ok [])"

definition parse_eth_block :: "alloy \<Rightarrow> u8 list \<Rightarrow> block_height option \<Rightarrow> bool \<Rightarrow> (string, parsed_block) result" where
  "parse_eth_block al raw expected_height require_full =
     and_then (ok_or (al_block al raw) eth_shape_error) (\<lambda>b.
     and_then (fail_if (expected_height \<noteq> None \<and> expected_height \<noteq> Some (rb_number b)) eth_number_error) (\<lambda>_.
     and_then (transaction_values (rb_transactions b) require_full) (\<lambda>js.
     and_then (parse_eth_transactions al require_full (rb_number b) (rb_hash b) 0 js {}) (\<lambda>ts.
     Ok \<lparr>pb_reference = reference_of b, pb_transactions = ts\<rparr>))))"

section \<open>Receipts\<close>

definition log_object_error :: string where "log_object_error = ''Ethereum receipt log must be an object''"
definition log_identity_error :: string where "log_identity_error = ''Ethereum log identity does not match its receipt and block''"
definition removed_log_error :: string where "removed_log_error = ''canonical Ethereum receipt contains a removed log''"
definition topics_array_error :: string where "topics_array_error = ''Ethereum log topics must be an array''"
definition topic_text_error :: string where "topic_text_error = ''Ethereum log topic must be a hash''"
definition topic_hash_error :: string where "topic_hash_error = ''Ethereum log topic is not a 32-byte hash''"
definition log_data_error :: string where "log_data_error = ''Ethereum log data must be a hex byte string''"
definition log_prefix_error :: string where "log_prefix_error = ''Ethereum log data is not hex encoded''"
definition log_odd_error :: string where "log_odd_error = ''Ethereum log data has an odd number of hex digits''"
definition log_hex_error :: string where "log_hex_error = ''Ethereum log data is not valid hex''"

definition log_block_label :: string where "log_block_label = ''log block hash''"
definition log_number_label :: string where "log_number_label = ''log block number''"
definition log_tx_label :: string where "log_tx_label = ''log transaction hash''"
definition log_tx_index_label :: string where "log_tx_index_label = ''log transaction index''"
definition log_address_label :: string where "log_address_label = ''log address''"
definition log_index_label :: string where "log_index_label = ''log index''"

text \<open>Each comparison is made before the next field is read.\<close>

definition log_identity ::
  "alloy \<Rightarrow> members \<Rightarrow> block_height \<Rightarrow> u8 list \<Rightarrow> u8 list \<Rightarrow> u64 \<Rightarrow> (string, unit) result" where
  "log_identity al obj height block_hash transaction_hash transaction_index =
     and_then (required_hash al obj ''blockHash'' log_block_label) (\<lambda>h.
     and_then (fail_if (h \<noteq> block_hash) log_identity_error) (\<lambda>_.
     and_then (required_quantity_u64 al obj ''blockNumber'' log_number_label) (\<lambda>n.
     and_then (fail_if (n \<noteq> height) log_identity_error) (\<lambda>_.
     and_then (required_hash al obj ''transactionHash'' log_tx_label) (\<lambda>h.
     and_then (fail_if (h \<noteq> transaction_hash) log_identity_error) (\<lambda>_.
     and_then (required_quantity_u64 al obj ''transactionIndex'' log_tx_index_label) (\<lambda>n.
     fail_if (n \<noteq> transaction_index) log_identity_error)))))))"

definition log_topic :: "alloy \<Rightarrow> json \<Rightarrow> (string, u8 list) result" where
  "log_topic al j =
     and_then (ok_or (json_as_str j) topic_text_error) (\<lambda>text.
     ok_or (al_b256 al text) topic_hash_error)"

text \<open>The bytes of log data; a pair that is not UTF-8 is not a pair of digits either.\<close>

fun hex_pairs :: "string \<Rightarrow> (string, u8 list) result" where
  "hex_pairs (a # b # rest) =
     and_then (ok_or (from_str_radix16 [a, b]) log_hex_error) (\<lambda>x.
     and_then (hex_pairs rest) (\<lambda>xs.
     Ok (x # xs)))"
| "hex_pairs _ = Ok []"

definition parse_log :: "alloy \<Rightarrow> json \<Rightarrow> block_height \<Rightarrow> u8 list \<Rightarrow> u8 list \<Rightarrow> u64 \<Rightarrow> (string, parsed_log) result" where
  "parse_log al j height block_hash transaction_hash transaction_index =
     and_then (ok_or (json_as_object j) log_object_error) (\<lambda>obj.
     and_then (log_identity al obj height block_hash transaction_hash transaction_index) (\<lambda>_.
     and_then (fail_if (Option.bind (map_of obj ''removed'') json_as_bool \<noteq> Some False) removed_log_error) (\<lambda>_.
     and_then (required_address al obj ''address'' log_address_label) (\<lambda>address.
     and_then (ok_or (Option.bind (map_of obj ''topics'') json_as_array) topics_array_error) (\<lambda>js.
     and_then (collect (log_topic al) js) (\<lambda>topics.
     and_then (ok_or (Option.bind (map_of obj ''data'') json_as_str) log_data_error) (\<lambda>data.
     and_then (ok_or (strip_0x data) log_prefix_error) (\<lambda>digits.
     and_then (fail_if (length digits mod 2 \<noteq> 0) log_odd_error) (\<lambda>_.
     and_then (hex_pairs digits) (\<lambda>bytes.
     and_then (required_quantity_u64 al obj ''logIndex'' log_index_label) (\<lambda>log_index.
     Ok \<lparr>pl_address = address, pl_topics = topics, pl_data = bytes, pl_log_index = log_index\<rparr>)))))))))))"

definition receipt_count_error :: string where "receipt_count_error = ''Ethereum receipt count does not match transaction count''"
definition eth_hash_length_error :: string where "eth_hash_length_error = ''Ethereum block hash is not 32 bytes''"
definition receipt_json_error :: string where "receipt_json_error = ''Ethereum receipt result is not valid JSON''"
definition receipt_object_error :: string where "receipt_object_error = ''Ethereum receipt must be an object''"
definition receipt_hash_error :: string where "receipt_hash_error = ''Ethereum receipt transaction hash does not match block order''"
definition receipt_position_error :: string where "receipt_position_error = ''Ethereum receipt position exceeds u64''"
definition receipt_index_error :: string where "receipt_index_error = ''Ethereum receipt transaction index does not match block order''"
definition receipt_block_error :: string where "receipt_block_error = ''Ethereum receipt block hash does not match its block''"
definition receipt_number_error :: string where "receipt_number_error = ''Ethereum receipt block number does not match its block''"
definition receipt_sender_error :: string where "receipt_sender_error = ''Ethereum receipt sender does not match its transaction''"
definition receipt_recipient_error :: string where "receipt_recipient_error = ''Ethereum receipt recipient does not match its transaction''"
definition receipt_status_error :: string where "receipt_status_error = ''Ethereum receipt status must be zero or one''"
definition unexpected_contract_error :: string where
  "unexpected_contract_error = ''non-creation receipt unexpectedly contains a contract address''"
definition missing_contract_error :: string where
  "missing_contract_error = ''successful value-bearing contract creation has no contract address''"
definition logs_array_error :: string where "logs_array_error = ''Ethereum receipt logs must be an array''"
definition duplicate_log_error :: string where "duplicate_log_error = ''Ethereum block contains duplicate log indexes''"
definition log_order_error :: string where "log_order_error = ''Ethereum logs are not ordered by log index''"

definition receipt_tx_label :: string where "receipt_tx_label = ''receipt transaction''"
definition receipt_index_label :: string where "receipt_index_label = ''receipt transaction index''"
definition receipt_block_label :: string where "receipt_block_label = ''receipt block hash''"
definition receipt_number_label :: string where "receipt_number_label = ''receipt block number''"
definition receipt_from_label :: string where "receipt_from_label = ''receipt sender''"
definition receipt_to_label :: string where "receipt_to_label = ''receipt recipient''"
definition receipt_status_label :: string where "receipt_status_label = ''receipt status''"
definition receipt_gas_label :: string where "receipt_gas_label = ''receipt gas used''"
definition receipt_price_label :: string where "receipt_price_label = ''receipt effective gas price''"
definition receipt_contract_label :: string where "receipt_contract_label = ''receipt contract address''"

text \<open>The log indexes of the block met so far, and the last of them.\<close>

type_synonym log_state = "u64 set \<times> u64 option"

fun parse_logs ::
  "alloy \<Rightarrow> block_height \<Rightarrow> u8 list \<Rightarrow> u8 list \<Rightarrow> u64 \<Rightarrow> json list \<Rightarrow> log_state \<Rightarrow> (string, parsed_log list \<times> log_state) result" where
  "parse_logs al height block_hash transaction_hash transaction_index [] st = Ok ([], st)"
| "parse_logs al height block_hash transaction_hash transaction_index (j # js) (seen, previous) =
     and_then (parse_log al j height block_hash transaction_hash transaction_index) (\<lambda>l.
     and_then (fail_if (pl_log_index l \<in> seen) duplicate_log_error) (\<lambda>_.
     and_then (fail_if (case previous of None \<Rightarrow> False | Some p \<Rightarrow> pl_log_index l \<le> p) log_order_error) (\<lambda>_.
     and_then (parse_logs al height block_hash transaction_hash transaction_index js (insert (pl_log_index l) seen, Some (pl_log_index l)))
       (\<lambda>(ls, st).
     Ok (l # ls, st)))))"

definition receipt_status :: "wei \<Rightarrow> (string, bool) result" where
  "receipt_status status =
     (if status = 0 then Ok False else if status = 1 then Ok True else Err receipt_status_error)"

text \<open>What a receipt repeats of its transaction and block.\<close>

definition receipt_identity ::
  "alloy \<Rightarrow> members \<Rightarrow> parsed_transaction \<Rightarrow> nat \<Rightarrow> block_height \<Rightarrow> u8 list \<Rightarrow> (string, u8 list \<times> u64) result" where
  "receipt_identity al obj t position height block_hash =
     and_then (required_hash al obj ''transactionHash'' receipt_tx_label) (\<lambda>transaction_hash.
     and_then (fail_if (transaction_hash \<noteq> pt_hash t) receipt_hash_error) (\<lambda>_.
     and_then (required_quantity_u64 al obj ''transactionIndex'' receipt_index_label) (\<lambda>transaction_index.
     and_then (fail_if (transaction_index = pt_index t \<and> position \<ge> 2 ^ 64) receipt_position_error) (\<lambda>_.
     and_then (fail_if (transaction_index \<noteq> pt_index t \<or> unat transaction_index \<noteq> position) receipt_index_error) (\<lambda>_.
     and_then (required_hash al obj ''blockHash'' receipt_block_label) (\<lambda>h.
     and_then (fail_if (h \<noteq> block_hash) receipt_block_error) (\<lambda>_.
     and_then (required_quantity_u64 al obj ''blockNumber'' receipt_number_label) (\<lambda>n.
     and_then (fail_if (n \<noteq> height) receipt_number_error) (\<lambda>_.
     and_then (required_address al obj ''from'' receipt_from_label) (\<lambda>a.
     and_then (fail_if (a \<noteq> pt_from t) receipt_sender_error) (\<lambda>_.
     and_then (optional_address al obj ''to'' receipt_to_label) (\<lambda>a.
     and_then (fail_if (a \<noteq> pt_to t) receipt_recipient_error) (\<lambda>_.
     Ok (transaction_hash, transaction_index))))))))))))))"

definition parse_receipt ::
  "alloy \<Rightarrow> u8 list \<Rightarrow> parsed_transaction \<Rightarrow> nat \<Rightarrow> block_height \<Rightarrow> u8 list \<Rightarrow> log_state \<Rightarrow> (string, parsed_receipt \<times> log_state) result" where
  "parse_receipt al raw t position height block_hash st =
     and_then (ok_or (al_json al raw) receipt_json_error) (\<lambda>j.
     and_then (ok_or (json_as_object j) receipt_object_error) (\<lambda>obj.
     and_then (receipt_identity al obj t position height block_hash) (\<lambda>(transaction_hash, transaction_index).
     and_then (required_quantity al obj ''status'' receipt_status_label) (\<lambda>status.
     and_then (receipt_status status) (\<lambda>succeeded.
     and_then (required_quantity_u64 al obj ''gasUsed'' receipt_gas_label) (\<lambda>gas_used.
     and_then (required_quantity al obj ''effectiveGasPrice'' receipt_price_label) (\<lambda>price.
     and_then (optional_address al obj ''contractAddress'' receipt_contract_label) (\<lambda>contract_address.
     and_then (fail_if (pt_to t \<noteq> None \<and> contract_address \<noteq> None) unexpected_contract_error) (\<lambda>_.
     and_then (fail_if (succeeded \<and> pt_to t = None \<and> pt_value t \<noteq> 0 \<and> contract_address = None) missing_contract_error) (\<lambda>_.
     and_then (ok_or (Option.bind (map_of obj ''logs'') json_as_array) logs_array_error) (\<lambda>js.
     and_then (parse_logs al height block_hash transaction_hash transaction_index js st) (\<lambda>(logs, st).
     Ok (\<lparr>pr_transaction_hash = transaction_hash, pr_transaction_index = transaction_index, pr_succeeded = succeeded, pr_gas_used = gas_used,
          pr_effective_gas_price = price, pr_contract_address = contract_address, pr_logs = logs\<rparr>, st)))))))))))))"

fun parse_receipts ::
  "alloy \<Rightarrow> block_height \<Rightarrow> u8 list \<Rightarrow> nat \<Rightarrow> (u8 list \<times> parsed_transaction) list \<Rightarrow> log_state \<Rightarrow> (string, parsed_receipt list) result" where
  "parse_receipts al height block_hash position [] st = Ok []"
| "parse_receipts al height block_hash position ((raw, t) # rest) st =
     and_then (parse_receipt al raw t position height block_hash st) (\<lambda>(r, st).
     and_then (parse_receipts al height block_hash (position + 1) rest st) (\<lambda>rs.
     Ok (r # rs)))"

definition parse_all :: "alloy \<Rightarrow> u8 list list \<Rightarrow> parsed_block \<Rightarrow> (string, parsed_receipt list) result" where
  "parse_all al raw_receipts block =
     and_then (fail_if (length raw_receipts \<noteq> length (pb_transactions block)) receipt_count_error) (\<lambda>_.
     and_then (fail_if (length (br_hash (pb_reference block)) \<noteq> 32) eth_hash_length_error) (\<lambda>_.
     parse_receipts al (br_height (pb_reference block)) (br_hash (pb_reference block)) 0 (zip raw_receipts (pb_transactions block)) ({}, None)))"

section \<open>The interpreter\<close>

definition TRANSFER_TOPIC :: "u8 list" where
  "TRANSFER_TOPIC =
     [0xdd, 0xf2, 0x52, 0xad, 0x1b, 0xe2, 0xc8, 0x9b, 0x69, 0xc2, 0xb0, 0x68, 0xfc, 0x37, 0x8d, 0xaa,
      0x95, 0x2b, 0xa7, 0xf1, 0x63, 0xc4, 0xa1, 0x16, 0x28, 0xf5, 0x5a, 0x4d, 0xf5, 0x23, 0xb3, 0xef]"

definition ZERO_ADDRESS :: eth_address where "ZERO_ADDRESS = replicate 20 0"

definition ETHEREUM_CHAIN_ID :: chain_id where "ETHEREUM_CHAIN_ID = ChainId ETHEREUM_CHAIN"

definition ETHEREUM_NATIVE_ASSET :: asset_id where
  "ETHEREUM_NATIVE_ASSET = AssetId ETHEREUM_CHAIN_ID ''native''"

definition atomic_decimal :: "wei \<Rightarrow> decimal" where
  "atomic_decimal v = from_atomic (unat v) 0"

definition canonical_eth_address :: "alloy \<Rightarrow> index_scope \<Rightarrow> eth_address \<Rightarrow> canonical_address" where
  "canonical_eth_address al scope a = CanonicalAddress scope (al_encode al a)"

definition canonical_eth_hash :: "alloy \<Rightarrow> index_scope \<Rightarrow> u8 list \<Rightarrow> transaction_ref" where
  "canonical_eth_hash al scope h = TransactionRef scope (al_encode al h)"

definition log_movement_id :: "string \<Rightarrow> u64 \<Rightarrow> movement_id" where
  "log_movement_id transaction_id log_index = MovementId (transaction_id @ '':'' @ to_digits (unat log_index))"

definition value_movement_id :: "string \<Rightarrow> movement_id" where
  "value_movement_id transaction_id = MovementId (transaction_id @ '':value'')"

definition log_movement :: "alloy \<Rightarrow> index_scope \<Rightarrow> string \<Rightarrow> parsed_log \<Rightarrow> value_movement option" where
  "log_movement al scope transaction_id l =
     (case pl_topics l of
        [signature, from_topic, to_topic] \<Rightarrow>
          if signature \<noteq> TRANSFER_TOPIC \<or> length (pl_data l) \<noteq> 32 \<or> take 12 from_topic \<noteq> replicate 12 0 \<or> take 12 to_topic \<noteq> replicate 12 0
          then None
          else
            (let from1 = drop 12 from_topic; to = drop 12 to_topic;
                 amount = atomic_decimal (of_nat (be_value (pl_data l)));
                 i = log_movement_id transaction_id (pl_log_index l);
                 asset = AssetId ETHEREUM_CHAIN_ID (al_encode al (pl_address l)) in
             if from1 = ZERO_ADDRESS then
               (if to \<noteq> ZERO_ADDRESS then Some (Mint i asset amount (canonical_eth_address al scope to)) else None)
             else if to = ZERO_ADDRESS then Some (Burn i asset amount (canonical_eth_address al scope from1))
             else Some (Transfer i asset amount (canonical_eth_address al scope from1) (canonical_eth_address al scope to)))
      | _ \<Rightarrow> None)"

definition no_recipient_error :: index_error where
  "no_recipient_error = index_error_new InvalidBlock ''successful value-bearing Ethereum transaction has no recipient'' False"

definition successful ::
  "alloy \<Rightarrow> index_scope \<Rightarrow> parsed_transaction \<Rightarrow> parsed_receipt \<Rightarrow> (index_error, value_movement list) result" where
  "successful al scope t r =
     (let transaction_id = al_encode al (pt_hash t) in
      and_then
        (if pt_value t = 0 then Ok []
         else
           and_then (ok_or (case pt_to t of None \<Rightarrow> pr_contract_address r | Some a \<Rightarrow> Some a) no_recipient_error) (\<lambda>to.
           Ok [Transfer (value_movement_id transaction_id) ETHEREUM_NATIVE_ASSET (atomic_decimal (pt_value t))
                 (canonical_eth_address al scope (pt_from t)) (canonical_eth_address al scope to)])) (\<lambda>movements.
      Ok (movements @ List.map_filter (log_movement al scope transaction_id) (pr_logs r))))"

record eth_interpreter =
  eti_scope :: index_scope

definition eth_chain_error :: index_error where
  "eth_chain_error = index_error_new ScopeMismatch ''Ethereum interpreter scope must use the ethereum chain ID'' False"
definition eth_slug_error :: index_error where
  "eth_slug_error = index_error_new ScopeMismatch ''Ethereum interpreter network slug must not be empty'' False"

definition eth_interpreter_new :: "index_scope \<Rightarrow> (index_error, eth_interpreter) result" where
  "eth_interpreter_new scope =
     and_then (fail_if (sc_chain scope \<noteq> ETHEREUM_CHAIN_ID) eth_chain_error) (\<lambda>_.
     and_then (fail_if (blank_text (sc_network scope)) eth_slug_error) (\<lambda>_.
     Ok \<lparr>eti_scope = scope\<rparr>))"

definition foreign_chain_error :: index_error where
  "foreign_chain_error = index_error_new InvalidBlock ''Ethereum movement contains a foreign-chain address'' False"
definition malformed_address_error :: index_error where
  "malformed_address_error = index_error_new InvalidBlock ''Ethereum movement contains a malformed canonical address'' False"
definition eth_filter_error :: index_error where
  "eth_filter_error = index_error_new ScopeMismatch ''Ethereum address filter belongs to a different scope'' False"

definition parse_canonical_address :: "alloy \<Rightarrow> canonical_address \<Rightarrow> (index_error, eth_address) result" where
  "parse_canonical_address al a =
     and_then (fail_if (sc_chain (ca_scope a) \<noteq> ETHEREUM_CHAIN_ID) foreign_chain_error) (\<lambda>_.
     ok_or (al_address al (ca_value a)) malformed_address_error)"

fun touch_endpoints :: "alloy \<Rightarrow> canonical_address list \<Rightarrow> eth_address set \<Rightarrow> (index_error, eth_address set) result" where
  "touch_endpoints al [] touched = Ok touched"
| "touch_endpoints al (a # rest) touched =
     and_then (parse_canonical_address al a) (\<lambda>bytes.
     touch_endpoints al rest (insert bytes touched))"

fun any_watched :: "alloy \<Rightarrow> index_scope \<Rightarrow> eth_address set \<Rightarrow> canonical_address list \<Rightarrow> (index_error, bool) result" where
  "any_watched al scope touched [] = Ok False"
| "any_watched al scope touched (a # rest) =
     and_then (fail_if (\<not> address_belongs_to a scope) eth_filter_error) (\<lambda>_.
     and_then (parse_canonical_address al a) (\<lambda>bytes.
     if bytes \<in> touched then Ok True else any_watched al scope touched rest))"

definition own_addresses :: "parsed_transaction \<Rightarrow> parsed_receipt \<Rightarrow> eth_address set" where
  "own_addresses t r = insert (pt_from t) (set_option (pt_to t) \<union> set_option (pr_contract_address r))"

definition matches_address ::
  "alloy \<Rightarrow> eth_interpreter \<Rightarrow> parsed_transaction \<Rightarrow> parsed_receipt \<Rightarrow> value_movement list \<Rightarrow> canonical_address list \<Rightarrow>
     (index_error, bool) result" where
  "matches_address al i t r movements addresses =
     and_then (touch_endpoints al (concat (map (\<lambda>m. opt_list (mv_from m) @ opt_list (mv_to m)) movements)) (own_addresses t r)) (\<lambda>touched.
     any_watched al (eti_scope i) touched addresses)"

definition receipt_fee_error :: index_error where
  "receipt_fee_error = index_error_new InvalidBlock ''Ethereum receipt fee exceeds 256-bit atomic units'' False"

definition failed_reason :: string where "failed_reason = ''ethereum receipt status is zero''"

definition eth_draft ::
  "alloy \<Rightarrow> index_scope \<Rightarrow> parsed_transaction \<Rightarrow> parsed_receipt \<Rightarrow> wei \<Rightarrow> value_movement list \<Rightarrow> observation_draft" where
  "eth_draft al scope t r fee movements =
     \<lparr>od_scope = scope, od_id = canonical_eth_hash al scope (pt_hash t),
      od_status = (if pr_succeeded r then DraftIncluded else DraftFailed (Some failed_reason)),
      od_movements = movements,
      od_fee = Some \<lparr>nf_asset = ETHEREUM_NATIVE_ASSET, nf_amount = atomic_decimal fee, nf_payer = Some (canonical_eth_address al scope (pt_from t))\<rparr>\<rparr>"

fun eth_drafts ::
  "alloy \<Rightarrow> eth_interpreter \<Rightarrow> canonical_address list \<Rightarrow> (parsed_transaction \<times> parsed_receipt) list \<Rightarrow> (index_error, observation_draft list) result" where
  "eth_drafts al i addresses [] = Ok []"
| "eth_drafts al i addresses ((t, r) # rest) =
     and_then (ok_or (checked_mul (pr_effective_gas_price r) (ucast (pr_gas_used r))) receipt_fee_error) (\<lambda>fee.
     and_then (if pr_succeeded r then successful al (eti_scope i) t r else Ok []) (\<lambda>movements.
     and_then (matches_address al i t r movements addresses) (\<lambda>matched.
     and_then (eth_drafts al i addresses rest) (\<lambda>drafts.
     Ok (if matched then eth_draft al (eti_scope i) t r fee movements # drafts else drafts)))))"

record eth_block =
  etb_reference :: block_ref
  etb_raw_block :: "u8 list"
  etb_raw_receipts :: "u8 list list"

definition into_invalid_block :: "string \<Rightarrow> index_error" where
  "into_invalid_block message = index_error_new InvalidBlock message False"

definition retained_reference_error :: index_error where
  "retained_reference_error = index_error_new InvalidBlock ''retained Ethereum block reference does not match its raw payload'' False"

definition no_changes :: output_changes where
  "no_changes = \<lparr>oc_created = [], oc_spent = [], oc_tracked_spends = []\<rparr>"

definition eth_inspect :: "alloy \<Rightarrow> eth_interpreter \<Rightarrow> eth_block \<Rightarrow> canonical_address list \<Rightarrow> (index_error, interpreted_block) result" where
  "eth_inspect al i block addresses =
     and_then (map_err into_invalid_block (parse_eth_block al (etb_raw_block block) (Some (br_height (etb_reference block))) True)) (\<lambda>parsed.
     and_then (fail_if (pb_reference parsed \<noteq> etb_reference block) retained_reference_error) (\<lambda>_.
     and_then (map_err into_invalid_block (parse_all al (etb_raw_receipts block) parsed)) (\<lambda>receipts.
     and_then (eth_drafts al i addresses (zip (pb_transactions parsed) receipts)) (\<lambda>drafts.
     Ok \<lparr>ib_block = etb_reference block, ib_transactions = drafts, ib_outputs = no_changes\<rparr>))))"

section \<open>What parsing establishes\<close>

text \<open>What the program relies on of the \<open>alloy\<close> crates.\<close>

definition alloy_laws :: "alloy \<Rightarrow> bool" where
  "alloy_laws al \<longleftrightarrow>
     (\<forall>a. length a = 20 \<longrightarrow> al_address al (al_encode al a) = Some a) \<and> inj_on (al_encode al) {h. length h = 32} \<and>
     (\<forall>s h. al_b256 al s = Some h \<longrightarrow> length h = 32) \<and> (\<forall>s a. al_address al s = Some a \<longrightarrow> length a = 20)"

lemma alloy_lawsD:
  assumes "alloy_laws al"
  shows "length a = 20 \<Longrightarrow> al_address al (al_encode al a) = Some a" "inj_on (al_encode al) {h. length h = 32}"
    "al_b256 al s = Some h \<Longrightarrow> length h = 32" "al_address al s = Some a \<Longrightarrow> length a = 20"
  using assms by (simp_all add: alloy_laws_def)

lemma field_shapes:
  assumes "alloy_laws al"
  shows "required_hash al obj key label = Ok h \<Longrightarrow> length h = 32" "required_address al obj key label = Ok a \<Longrightarrow> length a = 20"
    "optional_address al obj key label = Ok (Some a) \<Longrightarrow> length a = 20"
  using alloy_lawsD(3,4) [OF assms]
  by (auto simp: required_hash_def required_address_def optional_address_def result_simps split: option.splits json.splits)

definition transaction_shaped :: "parsed_transaction \<Rightarrow> bool" where
  "transaction_shaped t \<longleftrightarrow> length (pt_hash t) = 32 \<and> length (pt_from t) = 20 \<and> (\<forall>a \<in> set_option (pt_to t). length a = 20)"

lemma parse_eth_transaction_Ok:
  assumes "parse_eth_transaction al j position height block_hash = Ok t" "alloy_laws al"
  shows "transaction_shaped t \<and> unat (pt_index t) = position"
proof -
  from assms(1) obtain obj where "required_hash al obj ''hash'' tx_hash_label = Ok (pt_hash t)"
      "required_address al obj ''from'' tx_from_label = Ok (pt_from t)" "optional_address al obj ''to'' tx_to_label = Ok (pt_to t)"
      "unat (pt_index t) = position"
    by (auto simp: parse_eth_transaction_def result_simps)
  then show ?thesis using field_shapes [OF assms(2)] by (cases "pt_to t") (auto simp: transaction_shaped_def)
qed

lemma parse_eth_transactions_Ok:
  assumes "parse_eth_transactions al True height block_hash position js hashes = Ok ts" "alloy_laws al"
  shows "list_all transaction_shaped ts \<and> distinct (map pt_hash ts) \<and> pt_hash ` set ts \<inter> hashes = {} \<and> length ts = length js \<and>
    (\<forall>k < length ts. unat (pt_index (ts ! k)) = position + k)"
  using assms(1)
proof (induction js arbitrary: position hashes ts)
  case (Cons j js)
  then obtain t rest where step: "parse_eth_transaction al j position height block_hash = Ok t" "pt_hash t \<notin> hashes"
      "parse_eth_transactions al True height block_hash (position + 1) js (insert (pt_hash t) hashes) = Ok rest" "ts = t # rest"
    by (auto simp: result_simps)
  from Cons.IH [OF step(3)] parse_eth_transaction_Ok [OF step(1) assms(2)] step(2,4) show ?case
    by (auto simp: nth_Cons split: nat.splits)
qed simp

lemma parse_eth_block_Ok:
  assumes "parse_eth_block al raw expected True = Ok p" "alloy_laws al"
  shows "list_all transaction_shaped (pb_transactions p) \<and> distinct (map pt_hash (pb_transactions p)) \<and>
    (\<forall>h. expected = Some h \<longrightarrow> br_height (pb_reference p) = h \<and> br_position (pb_reference p) = h)"
proof -
  from assms(1) obtain b js where b: "parse_eth_transactions al True (rb_number b) (rb_hash b) 0 js {} = Ok (pb_transactions p)"
      "pb_reference p = reference_of b" "expected \<noteq> None \<longrightarrow> expected = Some (rb_number b)"
    by (auto simp: parse_eth_block_def result_simps)
  then show ?thesis using parse_eth_transactions_Ok [OF b(1) assms(2)] by (auto simp: reference_of_def)
qed

text \<open>A log carries topics of 32 bytes; the log indexes of a block grow.\<close>

definition logs_shaped :: "parsed_log list \<Rightarrow> bool" where
  "logs_shaped ls \<longleftrightarrow> list_all (\<lambda>l. list_all (\<lambda>topic. length topic = 32) (pl_topics l) \<and> length (pl_address l) = 20) ls"

definition after :: "u64 option \<Rightarrow> u64 list \<Rightarrow> bool" where
  "after previous ns \<longleftrightarrow> sorted_wrt (<) (opt_list previous @ ns)"

lemma parse_log_shape:
  assumes "parse_log al j height block_hash th ti = Ok l" "alloy_laws al"
  shows "list_all (\<lambda>topic. length topic = 32) (pl_topics l) \<and> length (pl_address l) = 20"
proof -
  from assms(1) obtain obj js where "collect (log_topic al) js = Ok (pl_topics l)" "required_address al obj ''address'' log_address_label = Ok (pl_address l)"
    by (auto simp: parse_log_def result_simps)
  moreover have "length h = 32" if "log_topic al j = Ok h" for j h
    using that alloy_lawsD(3) [OF assms(2)] by (auto simp: log_topic_def result_simps)
  ultimately show ?thesis using field_shapes(2) [OF assms(2)]
    by (auto simp: collect_Ok_iff list_all_length list_all2_conv_all_nth)
qed

lemma parse_logs_Ok:
  assumes "parse_logs al height block_hash th ti js st = Ok (ls, st')" "alloy_laws al"
  shows "logs_shaped ls \<and> after (snd st) (map pl_log_index ls) \<and>
    snd st' = (if ls = [] then snd st else Some (pl_log_index (last ls)))"
  using assms(1)
proof (induction js arbitrary: st ls)
  case (Cons j js)
  obtain seen previous where st: "st = (seen, previous)" by (cases st)
  from Cons.prems st obtain l rest where step: "parse_log al j height block_hash th ti = Ok l"
      "\<not> (case previous of None \<Rightarrow> False | Some p \<Rightarrow> pl_log_index l \<le> p)"
      "parse_logs al height block_hash th ti js (insert (pl_log_index l) seen, Some (pl_log_index l)) = Ok (rest, st')" "ls = l # rest"
    by (auto simp: result_simps)
  note IH = Cons.IH [OF step(3)]
  have "after previous (map pl_log_index ls)"
    using IH step(2,4) by (cases previous) (auto simp: after_def opt_list_def not_le intro: less_trans)
  then show ?case using IH parse_log_shape [OF step(1) assms(2)] step(4) st by (simp add: logs_shaped_def)
qed (auto simp: logs_shaped_def after_def opt_list_def split: option.splits)

text \<open>What a receipt says of its transaction.\<close>

definition receipt_matches :: "parsed_transaction \<Rightarrow> parsed_receipt \<Rightarrow> bool" where
  "receipt_matches t r \<longleftrightarrow>
     pr_transaction_hash r = pt_hash t \<and> pr_transaction_index r = pt_index t \<and> logs_shaped (pr_logs r) \<and>
     sorted_wrt (<) (map pl_log_index (pr_logs r)) \<and> (pt_to t \<noteq> None \<longrightarrow> pr_contract_address r = None) \<and>
     (pr_succeeded r \<and> pt_value t \<noteq> 0 \<longrightarrow> pt_to t \<noteq> None \<or> pr_contract_address r \<noteq> None) \<and>
     (\<forall>a \<in> set_option (pr_contract_address r). length a = 20)"

lemma after_Cons: "after previous (n # ns) \<longleftrightarrow> (\<forall>p \<in> set_option previous. p < n) \<and> after (Some n) ns"
  by (cases previous) (auto simp: after_def opt_list_def intro: less_trans)

lemma after_append:
  "after previous ns \<Longrightarrow> after (if ns = [] then previous else Some (last ns)) ms \<Longrightarrow> after previous (ns @ ms)"
proof (induction ns arbitrary: previous)
  case (Cons n ns)
  then show ?case by (cases "ns = []") (auto simp: after_Cons)
qed simp

lemma after_sorted: "after previous ns \<Longrightarrow> sorted_wrt (<) ns"
  by (simp add: after_def sorted_wrt_append)

lemma parse_receipt_Ok:
  assumes "parse_receipt al raw t position height block_hash st = Ok (r, st')" "alloy_laws al"
  shows "receipt_matches t r \<and> after (snd st) (map pl_log_index (pr_logs r)) \<and>
    snd st' = (if pr_logs r = [] then snd st else Some (pl_log_index (last (pr_logs r))))"
proof -
  from assms(1) obtain obj js where step: "receipt_identity al obj t position height block_hash = Ok (pr_transaction_hash r, pr_transaction_index r)"
      "optional_address al obj ''contractAddress'' receipt_contract_label = Ok (pr_contract_address r)"
      "\<not> (pt_to t \<noteq> None \<and> pr_contract_address r \<noteq> None)"
      "\<not> (pr_succeeded r \<and> pt_to t = None \<and> pt_value t \<noteq> 0 \<and> pr_contract_address r = None)"
      "parse_logs al height block_hash (pr_transaction_hash r) (pr_transaction_index r) js st = Ok (pr_logs r, st')"
    by (auto simp: parse_receipt_def result_simps)
  note logs = parse_logs_Ok [OF step(5) assms(2)]
  have "pr_transaction_hash r = pt_hash t \<and> pr_transaction_index r = pt_index t"
    using step(1) by (auto simp: receipt_identity_def result_simps)
  moreover have "\<forall>a \<in> set_option (pr_contract_address r). length a = 20"
    using step(2) field_shapes(3) [OF assms(2)] by (cases "pr_contract_address r") auto
  ultimately show ?thesis using step(3,4) logs after_sorted by (auto simp: receipt_matches_def)
qed

lemma parse_receipts_Ok:
  assumes "parse_receipts al height block_hash position (zip raws ts) st = Ok rs" "alloy_laws al" "length raws = length ts"
  shows "list_all2 receipt_matches ts rs \<and> after (snd st) (concat (map (\<lambda>r. map pl_log_index (pr_logs r)) rs))"
  using assms(1,3)
proof (induction ts arbitrary: raws position st rs)
  case Nil
  then show ?case by (auto simp: after_def opt_list_def split: option.splits)
next
  case (Cons t ts)
  then obtain raw raws' where raws: "raws = raw # raws'" by (cases raws) auto
  with Cons.prems(1) obtain r st1 rest where step: "parse_receipt al raw t position height block_hash st = Ok (r, st1)"
      "parse_receipts al height block_hash (position + 1) (zip raws' ts) st1 = Ok rest" "rs = r # rest"
    by (auto simp: result_simps)
  note IH = Cons.IH [OF step(2)]
  note one = parse_receipt_Ok [OF step(1) assms(2)]
  have rest: "list_all2 receipt_matches ts rest \<and> after (snd st1) (concat (map (\<lambda>r. map pl_log_index (pr_logs r)) rest))"
    using IH Cons.prems(2) raws by simp
  have "after (snd st) (map pl_log_index (pr_logs r) @ concat (map (\<lambda>r. map pl_log_index (pr_logs r)) rest))"
    by (rule after_append) (use one rest in \<open>auto simp: last_map split: if_splits\<close>)
  then show ?case using one rest step(3) by simp
qed

lemma parse_all_Ok:
  assumes "parse_all al raws p = Ok rs" "alloy_laws al"
  shows "list_all2 receipt_matches (pb_transactions p) rs \<and> sorted_wrt (<) (concat (map (\<lambda>r. map pl_log_index (pr_logs r)) rs))"
proof -
  from assms(1) have "parse_receipts al (br_height (pb_reference p)) (br_hash (pb_reference p)) 0 (zip raws (pb_transactions p)) ({}, None) = Ok rs"
      "length raws = length (pb_transactions p)"
    by (auto simp: parse_all_def result_simps)
  from parse_receipts_Ok [OF this(1) assms(2) this(2)] show ?thesis using after_sorted by blast
qed

section \<open>What a transaction means\<close>

text \<open>The movements of a transaction: its own value and the token transfers of its logs, if it succeeded.\<close>

definition eth_recipient :: "parsed_transaction \<Rightarrow> parsed_receipt \<Rightarrow> eth_address option" where
  "eth_recipient t r = (case pt_to t of None \<Rightarrow> pr_contract_address r | Some a \<Rightarrow> Some a)"

definition value_part :: "alloy \<Rightarrow> index_scope \<Rightarrow> parsed_transaction \<Rightarrow> parsed_receipt \<Rightarrow> value_movement list" where
  "value_part al scope t r =
     (if pt_value t = 0 then []
      else map (\<lambda>to. Transfer (value_movement_id (al_encode al (pt_hash t))) ETHEREUM_NATIVE_ASSET (atomic_decimal (pt_value t))
             (canonical_eth_address al scope (pt_from t)) (canonical_eth_address al scope to)) (opt_list (eth_recipient t r)))"

definition log_part :: "alloy \<Rightarrow> index_scope \<Rightarrow> parsed_transaction \<Rightarrow> parsed_receipt \<Rightarrow> value_movement list" where
  "log_part al scope t r = List.map_filter (log_movement al scope (al_encode al (pt_hash t))) (pr_logs r)"

definition eth_movements :: "alloy \<Rightarrow> index_scope \<Rightarrow> parsed_transaction \<Rightarrow> parsed_receipt \<Rightarrow> value_movement list" where
  "eth_movements al scope t r = (if pr_succeeded r then value_part al scope t r @ log_part al scope t r else [])"

text \<open>The parties of a token transfer: the addresses of its topics other than the zero address.\<close>

definition log_parties :: "parsed_log \<Rightarrow> eth_address set" where
  "log_parties l =
     (case pl_topics l of
        [signature, from_topic, to_topic] \<Rightarrow>
          if signature = TRANSFER_TOPIC \<and> length (pl_data l) = 32 \<and> take 12 from_topic = replicate 12 0 \<and> take 12 to_topic = replicate 12 0
          then {drop 12 from_topic, drop 12 to_topic} - {ZERO_ADDRESS} else {}
      | _ \<Rightarrow> {})"

definition eth_touched :: "parsed_transaction \<Rightarrow> parsed_receipt \<Rightarrow> eth_address set" where
  "eth_touched t r =
     {pt_from t} \<union> set_option (pt_to t) \<union> set_option (pr_contract_address r) \<union> (if pr_succeeded r then \<Union> (log_parties ` set (pr_logs r)) else {})"

definition watched_addresses :: "alloy \<Rightarrow> canonical_address list \<Rightarrow> eth_address set" where
  "watched_addresses al addresses = {b. \<exists>a \<in> set addresses. al_address al (ca_value a) = Some b}"

lemma successful_movements:
  assumes "receipt_matches t r" "pr_succeeded r"
  shows "successful al scope t r = Ok (eth_movements al scope t r)"
proof (cases "pt_value t = 0")
  case True
  then show ?thesis using assms by (simp add: successful_def eth_movements_def value_part_def log_part_def Let_def)
next
  case False
  then obtain a where "eth_recipient t r = Some a" using assms by (auto simp: receipt_matches_def eth_recipient_def split: option.splits)
  then show ?thesis using False assms
    by (auto simp: successful_def eth_movements_def value_part_def log_part_def Let_def eth_recipient_def opt_list_def split: option.splits)
qed

text \<open>Both ends of a movement, as addresses.\<close>

abbreviation endpoints :: "value_movement list \<Rightarrow> canonical_address list" where
  "endpoints ms \<equiv> concat (map (\<lambda>m. opt_list (mv_from m) @ opt_list (mv_to m)) ms)"

lemma touch_endpoints_canonical:
  assumes "alloy_laws al" "sc_chain scope = ETHEREUM_CHAIN_ID" "\<forall>a \<in> set as. length a = 20"
  shows "touch_endpoints al (map (canonical_eth_address al scope) as) touched = Ok (touched \<union> set as)"
  using assms(3)
proof (induction as arbitrary: touched)
  case (Cons a as)
  then have "parse_canonical_address al (canonical_eth_address al scope a) = Ok a"
    using alloy_lawsD(1) [OF assms(1)] assms(2) by (simp add: parse_canonical_address_def canonical_eth_address_def)
  then show ?case using Cons by auto
qed simp

lemma log_movement_endpoints:
  assumes "list_all (\<lambda>topic. length topic = 32) (pl_topics l)"
  shows "\<exists>as. set as = log_parties l \<and> (\<forall>a \<in> set as. length a = 20) \<and>
    endpoints (opt_list (log_movement al scope i l)) = map (canonical_eth_address al scope) as"
proof (cases "\<exists>from_topic to_topic. pl_topics l = [TRANSFER_TOPIC, from_topic, to_topic] \<and> length (pl_data l) = 32 \<and>
    take 12 from_topic = replicate 12 0 \<and> take 12 to_topic = replicate 12 0")
  case True
  then obtain f t where topics: "pl_topics l = [TRANSFER_TOPIC, f, t]" "length (pl_data l) = 32" "take 12 f = replicate 12 0"
      "take 12 t = replicate 12 0" by blast
  have len: "length (drop 12 f) = 20" "length (drop 12 t) = 20" using assms topics(1) by simp_all
  let ?as = "filter (\<lambda>a. a \<noteq> ZERO_ADDRESS) [drop 12 f, drop 12 t]"
  have "endpoints (opt_list (log_movement al scope i l)) = map (canonical_eth_address al scope) ?as"
    using topics by (simp add: log_movement_def Let_def opt_list_def)
  moreover have "set ?as = log_parties l" using topics by (auto simp: log_parties_def)
  moreover have "\<forall>a \<in> set ?as. length a = 20" using len by auto
  ultimately show ?thesis by blast
next
  case False
  then have "log_movement al scope i l = None" "log_parties l = {}"
    by (auto simp: log_movement_def log_parties_def split: list.splits)
  then show ?thesis by (intro exI [of _ "[]"]) (simp add: opt_list_def)
qed

lemma logs_endpoints:
  assumes "logs_shaped ls"
  shows "\<exists>as. set as = \<Union> (log_parties ` set ls) \<and> (\<forall>a \<in> set as. length a = 20) \<and>
    endpoints (List.map_filter (log_movement al scope i) ls) = map (canonical_eth_address al scope) as"
  using assms
proof (induction ls)
  case Nil
  show ?case by (intro exI [of _ "[]"]) simp
next
  case (Cons l ls)
  then obtain as where as: "set as = \<Union> (log_parties ` set ls)" "\<forall>a \<in> set as. length a = 20"
      "endpoints (List.map_filter (log_movement al scope i) ls) = map (canonical_eth_address al scope) as"
    by (auto simp: logs_shaped_def)
  have "list_all (\<lambda>topic. length topic = 32) (pl_topics l)" using Cons.prems by (simp add: logs_shaped_def)
  from log_movement_endpoints [OF this, of al scope i] obtain bs where bs: "set bs = log_parties l" "\<forall>a \<in> set bs. length a = 20"
      "endpoints (opt_list (log_movement al scope i l)) = map (canonical_eth_address al scope) bs" by blast
  have "endpoints (List.map_filter (log_movement al scope i) (l # ls)) = map (canonical_eth_address al scope) (bs @ as)"
    using as(3) bs(3) by (cases "log_movement al scope i l") (auto simp: opt_list_def)
  then show ?case using as(1,2) bs(1,2) by (intro exI [of _ "bs @ as"]) auto
qed

lemma movements_endpoints:
  assumes "transaction_shaped t" "receipt_matches t r"
  shows "\<exists>as. own_addresses t r \<union> set as = eth_touched t r \<and> (\<forall>a \<in> set as. length a = 20) \<and>
    endpoints (eth_movements al scope t r) = map (canonical_eth_address al scope) as"
proof (cases "pr_succeeded r")
  case True
  obtain bs where bs: "set bs = \<Union> (log_parties ` set (pr_logs r))" "\<forall>a \<in> set bs. length a = 20"
      "endpoints (log_part al scope t r) = map (canonical_eth_address al scope) bs"
    using logs_endpoints [of "pr_logs r"] assms(2) unfolding receipt_matches_def log_part_def by metis
  obtain as where as: "endpoints (value_part al scope t r) = map (canonical_eth_address al scope) as" "set as \<subseteq> own_addresses t r"
  proof (cases "pt_value t = 0")
    case True
    then show thesis using that [of "[]"] by (simp add: value_part_def)
  next
    case False
    have "endpoints (value_part al scope t r) =
        map (canonical_eth_address al scope) (concat (map (\<lambda>to. [pt_from t, to]) (opt_list (eth_recipient t r))))"
      using False by (cases "eth_recipient t r") (simp_all add: value_part_def opt_list_def)
    moreover have "set (concat (map (\<lambda>to. [pt_from t, to]) (opt_list (eth_recipient t r)))) \<subseteq> own_addresses t r"
      by (auto simp: eth_recipient_def own_addresses_def split: option.splits)
    ultimately show thesis by (rule that)
  qed
  have "\<forall>a \<in> own_addresses t r. length a = 20" using assms by (auto simp: own_addresses_def transaction_shaped_def receipt_matches_def)
  then have "\<forall>a \<in> set (as @ bs). length a = 20" using as(2) bs(2) by auto
  moreover have "own_addresses t r \<union> set (as @ bs) = eth_touched t r" using True as(2) bs(1) by (auto simp: eth_touched_def own_addresses_def)
  moreover have "endpoints (eth_movements al scope t r) = map (canonical_eth_address al scope) (as @ bs)"
    using True as(1) bs(3) by (simp add: eth_movements_def)
  ultimately show ?thesis by blast
next
  case False
  then show ?thesis by (intro exI [of _ "[]"]) (simp add: eth_movements_def eth_touched_def own_addresses_def)
qed

lemma matches_address_touched:
  assumes "alloy_laws al" "sc_chain (eti_scope i) = ETHEREUM_CHAIN_ID" "transaction_shaped t" "receipt_matches t r"
  shows "matches_address al i t r (eth_movements al (eti_scope i) t r) addresses = any_watched al (eti_scope i) (eth_touched t r) addresses"
proof -
  from movements_endpoints [OF assms(3,4)] obtain as where "own_addresses t r \<union> set as = eth_touched t r" "\<forall>a \<in> set as. length a = 20"
      "endpoints (eth_movements al (eti_scope i) t r) = map (canonical_eth_address al (eti_scope i)) as" by blast
  then show ?thesis using touch_endpoints_canonical [OF assms(1,2), of as] by (simp add: matches_address_def)
qed

lemma any_watched_Ok: "any_watched al scope touched addresses = Ok b \<Longrightarrow> b \<longleftrightarrow> watched_addresses al addresses \<inter> touched \<noteq> {}"
proof (induction addresses)
  case (Cons a addresses)
  then obtain bytes where bytes: "al_address al (ca_value a) = Some bytes"
      "(if bytes \<in> touched then Ok True else any_watched al scope touched addresses) = Ok b"
    by (auto simp: result_simps parse_canonical_address_def)
  have "watched_addresses al (a # addresses) = insert bytes (watched_addresses al addresses)" using bytes(1) by (auto simp: watched_addresses_def)
  then show ?case using bytes(2) Cons.IH by (auto split: if_splits)
qed (simp add: watched_addresses_def)

definition filters_valid :: "alloy \<Rightarrow> index_scope \<Rightarrow> canonical_address list \<Rightarrow> bool" where
  "filters_valid al scope addresses \<longleftrightarrow> list_all (\<lambda>a. address_belongs_to a scope \<and> al_address al (ca_value a) \<noteq> None) addresses"

lemma any_watched_total:
  "filters_valid al scope addresses \<Longrightarrow> sc_chain scope = ETHEREUM_CHAIN_ID \<Longrightarrow> \<exists>b. any_watched al scope touched addresses = Ok b"
  by (induction addresses) (auto simp: filters_valid_def parse_canonical_address_def address_belongs_to_def)

text \<open>The drafts of a block: exactly the transactions that touch a watched address, in order.\<close>

definition eth_fee :: "parsed_receipt \<Rightarrow> wei" where
  "eth_fee r = pr_effective_gas_price r * ucast (pr_gas_used r)"

definition fee_fits :: "parsed_receipt \<Rightarrow> bool" where
  "fee_fits r \<longleftrightarrow> unat (pr_effective_gas_price r) * unat (pr_gas_used r) < 2 ^ 256"

lemma fee_checked:
  "checked_mul (pr_effective_gas_price r) (ucast (pr_gas_used r)) = (if fee_fits r then Some (eth_fee r) else None)"
  "fee_fits r \<Longrightarrow> unat (eth_fee r) = unat (pr_effective_gas_price r) * unat (pr_gas_used r)"
proof -
  have gas: "unat (ucast (pr_gas_used r) :: wei) = unat (pr_gas_used r)" by (simp add: unat_ucast_up)
  then show *: "fee_fits r \<Longrightarrow> unat (eth_fee r) = unat (pr_effective_gas_price r) * unat (pr_gas_used r)"
    by (simp add: fee_fits_def eth_fee_def unat_mult_lem [THEN iffD1])
  show "checked_mul (pr_effective_gas_price r) (ucast (pr_gas_used r)) = (if fee_fits r then Some (eth_fee r) else None)"
    using gas by (simp add: checked_mul_def fee_fits_def eth_fee_def)
qed

definition read_draft :: "alloy \<Rightarrow> index_scope \<Rightarrow> parsed_transaction \<times> parsed_receipt \<Rightarrow> observation_draft" where
  "read_draft al scope x = (case x of (t, r) \<Rightarrow> eth_draft al scope t r (eth_fee r) (eth_movements al scope t r))"

definition touches_watched :: "alloy \<Rightarrow> canonical_address list \<Rightarrow> parsed_transaction \<times> parsed_receipt \<Rightarrow> bool" where
  "touches_watched al addresses x \<longleftrightarrow> (case x of (t, r) \<Rightarrow> watched_addresses al addresses \<inter> eth_touched t r \<noteq> {})"

abbreviation matched_entry :: "parsed_transaction \<times> parsed_receipt \<Rightarrow> bool" where
  "matched_entry x \<equiv> transaction_shaped (fst x) \<and> receipt_matches (fst x) (snd x)"

lemma eth_drafts_Cons:
  assumes "alloy_laws al" "sc_chain (eti_scope i) = ETHEREUM_CHAIN_ID" "matched_entry (t, r)"
  shows "eth_drafts al i addresses ((t, r) # rest) =
    and_then (fail_if (\<not> fee_fits r) receipt_fee_error) (\<lambda>_.
    and_then (any_watched al (eti_scope i) (eth_touched t r) addresses) (\<lambda>matched.
    and_then (eth_drafts al i addresses rest) (\<lambda>drafts.
    Ok (if matched then read_draft al (eti_scope i) (t, r) # drafts else drafts))))"
proof -
  have "(if pr_succeeded r then successful al (eti_scope i) t r else Ok []) = Ok (eth_movements al (eti_scope i) t r)"
    using successful_movements assms(3) by (simp add: eth_movements_def)
  then show ?thesis using matches_address_touched [OF assms(1,2), of t r] assms(3)
    unfolding read_draft_def prod.case by (simp add: fee_checked fail_if_def)
qed

lemma eth_drafts_Ok:
  assumes "alloy_laws al" "sc_chain (eti_scope i) = ETHEREUM_CHAIN_ID" "list_all matched_entry xs" "eth_drafts al i addresses xs = Ok ds"
  shows "ds = map (read_draft al (eti_scope i)) (filter (touches_watched al addresses) xs) \<and> list_all (\<lambda>x. fee_fits (snd x)) xs"
  using assms(3,4)
proof (induction xs arbitrary: ds)
  case (Cons x xs)
  obtain t r where x: "x = (t, r)" by (cases x)
  have ok: "matched_entry (t, r)" using Cons.prems(1) x by simp
  from Cons.prems(2) [unfolded x eth_drafts_Cons [OF assms(1,2) ok]] obtain matched rest where step: "fee_fits r"
      "any_watched al (eti_scope i) (eth_touched t r) addresses = Ok matched" "eth_drafts al i addresses xs = Ok rest"
      "ds = (if matched then read_draft al (eti_scope i) (t, r) # rest else rest)"
    by (auto simp: result_simps)
  have "matched \<longleftrightarrow> touches_watched al addresses x" using any_watched_Ok [OF step(2)] x by (simp add: touches_watched_def)
  then show ?case using Cons.IH [OF _ step(3)] Cons.prems(1) step(1,4) x by simp
qed simp

lemma eth_drafts_total:
  assumes "alloy_laws al" "sc_chain (eti_scope i) = ETHEREUM_CHAIN_ID" "list_all matched_entry xs" "filters_valid al (eti_scope i) addresses"
    "list_all (\<lambda>x. fee_fits (snd x)) xs"
  shows "\<exists>ds. eth_drafts al i addresses xs = Ok ds"
  using assms(3,5)
proof (induction xs)
  case (Cons x xs)
  obtain t r where x: "x = (t, r)" by (cases x)
  have ok: "matched_entry (t, r)" using Cons.prems(1) x by simp
  obtain matched where "any_watched al (eti_scope i) (eth_touched t r) addresses = Ok matched" using any_watched_total [OF assms(4,2)] by blast
  moreover obtain ds where "eth_drafts al i addresses xs = Ok ds" using Cons by auto
  ultimately show ?case using Cons.prems(2) unfolding x eth_drafts_Cons [OF assms(1,2) ok] by simp
qed simp

section \<open>What the index accepts\<close>

lemma atomic_nonneg [simp]: "0 \<le> coefficient (atomic_decimal v)"
  by (simp add: atomic_decimal_def from_atomic_def coefficient_new_nonneg)

lemma log_movement_ok:
  assumes "log_movement al scope i l = Some m" "sc_chain scope = ETHEREUM_CHAIN_ID"
  shows "movement_ok scope m \<and> mv_id m = log_movement_id i (pl_log_index l)"
  using assms
  by (auto simp: log_movement_def Let_def movement_ok_def log_movement_id_def address_in_def canonical_eth_address_def split: list.splits if_splits)

lemma log_part_ids:
  assumes "sc_chain scope = ETHEREUM_CHAIN_ID"
  shows "map mv_id (List.map_filter (log_movement al scope i) ls) =
    map (log_movement_id i) (map pl_log_index (filter (\<lambda>l. log_movement al scope i l \<noteq> None) ls))"
  using log_movement_ok [OF _ assms] by (induction ls) (auto split: option.splits)

lemma movement_ids: "inj (log_movement_id i)" "value_movement_id i \<noteq> log_movement_id i n"
proof -
  show "inj (log_movement_id i)"
    by (auto simp: inj_def log_movement_id_def word_unat_eq_iff dest: arg_cong [where f = parse_digits])
  have "list_all is_digit (to_digits (unat n))" by (rule to_digits_all_digits)
  then have "''value'' \<noteq> to_digits (unat n)" by (auto simp: is_digit_def dest: sym)
  then show "value_movement_id i \<noteq> log_movement_id i n" by (simp add: log_movement_id_def value_movement_id_def)
qed

lemma eth_movements_ok:
  assumes "sc_chain scope = ETHEREUM_CHAIN_ID" "receipt_matches t r"
  shows "movements_ok scope (eth_movements al scope t r)"
proof (cases "pr_succeeded r")
  case True
  let ?i = "al_encode al (pt_hash t)"
  have "list_all (movement_ok scope) (value_part al scope t r)"
    using assms(1) by (auto simp: list_all_iff value_part_def movement_ok_def value_movement_id_def ETHEREUM_NATIVE_ASSET_def address_in_def
        canonical_eth_address_def)
  moreover have "list_all (movement_ok scope) (log_part al scope t r)"
    using log_movement_ok [OF _ assms(1)] by (auto simp: list_all_iff log_part_def List.map_filter_def)
  moreover have "distinct (map mv_id (value_part al scope t r))" "set (map mv_id (value_part al scope t r)) \<subseteq> {value_movement_id ?i}"
    by (auto simp: value_part_def opt_list_def split: option.splits)
  moreover have "distinct (map mv_id (log_part al scope t r))"
  proof -
    have "distinct (map pl_log_index (pr_logs r))" using assms(2) strict_sorted_iff by (auto simp: receipt_matches_def)
    then have "distinct (map pl_log_index (filter (\<lambda>l. log_movement al scope ?i l \<noteq> None) (pr_logs r)))" by (rule distinct_map_filter)
    then show ?thesis
      unfolding log_part_def log_part_ids [OF assms(1)] using inj_on_subset [OF movement_ids(1) subset_UNIV]
      by (simp only: distinct_map [of "log_movement_id ?i"] simp_thms)
  qed
  moreover have "value_movement_id ?i \<notin> set (map mv_id (log_part al scope t r))"
    unfolding log_part_def log_part_ids [OF assms(1)] using movement_ids(2) [of ?i] by auto
  ultimately show ?thesis using True by (auto simp: eth_movements_def movements_ok_def)
qed (simp add: eth_movements_def movements_ok_def)

lemma read_draft_ok:
  assumes "sc_chain scope = ETHEREUM_CHAIN_ID" "matched_entry x"
  shows "draft_ok scope (read_draft al scope x)"
proof -
  obtain t r where x: "x = (t, r)" by (cases x)
  then have "movements_ok scope (eth_movements al scope t r)" using eth_movements_ok assms by simp
  then show ?thesis
    using assms(1) x by (auto simp: read_draft_def draft_ok_def eth_draft_def canonical_eth_hash_def fee_ok_def ETHEREUM_NATIVE_ASSET_def
        address_in_def canonical_eth_address_def eth_movements_def)
qed

lemma parsed_entries:
  assumes "list_all transaction_shaped ts" "list_all2 receipt_matches ts rs"
  shows "list_all matched_entry (zip ts rs)" "map fst (zip ts rs) = ts"
proof -
  show "list_all matched_entry (zip ts rs)" using assms(2,1) by (induction rule: list_all2_induct) auto
  show "map fst (zip ts rs) = ts" using assms(2) by (simp add: list_all2_lengthD)
qed

lemma inspected_block:
  assumes "alloy_laws al" "eth_interpreter_new scope = Ok i" "eth_inspect al i block addresses = Ok ib"
  obtains p rs where "parse_eth_block al (etb_raw_block block) (Some (br_height (etb_reference block))) True = Ok p"
    "parse_all al (etb_raw_receipts block) p = Ok rs" "list_all matched_entry (zip (pb_transactions p) rs)"
    "ib = \<lparr>ib_block = etb_reference block,
       ib_transactions = map (read_draft al scope) (filter (touches_watched al addresses) (zip (pb_transactions p) rs)), ib_outputs = no_changes\<rparr>"
    "list_all fee_fits rs"
proof -
  have i: "eti_scope i = scope" "sc_chain scope = ETHEREUM_CHAIN_ID" using assms(2) by (auto simp: eth_interpreter_new_def result_simps)
  from assms(3) obtain p rs ds where run: "parse_eth_block al (etb_raw_block block) (Some (br_height (etb_reference block))) True = Ok p"
      "parse_all al (etb_raw_receipts block) p = Ok rs" "eth_drafts al i addresses (zip (pb_transactions p) rs) = Ok ds"
      "ib = \<lparr>ib_block = etb_reference block, ib_transactions = ds, ib_outputs = no_changes\<rparr>"
    by (auto simp: eth_inspect_def result_simps)
  have match: "list_all2 receipt_matches (pb_transactions p) rs" using parse_all_Ok [OF run(2) assms(1)] by simp
  then have entries: "list_all matched_entry (zip (pb_transactions p) rs)" using parsed_entries(1) parse_eth_block_Ok [OF run(1) assms(1)] by blast
  note drafts = eth_drafts_Ok [OF assms(1) _ entries run(3), unfolded i(1), OF i(2)]
  have "list_all fee_fits (map snd (zip (pb_transactions p) rs))" using drafts by (simp add: list_all_iff)
  then have "list_all fee_fits rs" using match by (simp add: list_all2_lengthD)
  then show ?thesis using that run(1,2,4) entries drafts by simp
qed

lemma eth_block_accepted:
  assumes "alloy_laws al" "eth_interpreter_new scope = Ok i" "eth_inspect al i block addresses = Ok ib"
    and "retention \<noteq> 0" "connects expected (etb_reference block)"
  shows "\<exists>a. block_addition_new scope expected retention ib = Ok a"
proof -
  have chain: "sc_chain scope = ETHEREUM_CHAIN_ID" using assms(2) by (auto simp: eth_interpreter_new_def result_simps)
  from assms(1-3) obtain p rs where run: "parse_eth_block al (etb_raw_block block) (Some (br_height (etb_reference block))) True = Ok p"
      "parse_all al (etb_raw_receipts block) p = Ok rs" "list_all matched_entry (zip (pb_transactions p) rs)"
      "ib = \<lparr>ib_block = etb_reference block,
         ib_transactions = map (read_draft al scope) (filter (touches_watched al addresses) (zip (pb_transactions p) rs)), ib_outputs = no_changes\<rparr>"
    by (rule inspected_block)
  have block: "list_all transaction_shaped (pb_transactions p)" "distinct (map pt_hash (pb_transactions p))"
    using parse_eth_block_Ok [OF run(1) assms(1)] by blast+
  have fsts: "map fst (zip (pb_transactions p) rs) = pb_transactions p"
    using parsed_entries(2) block(1) parse_all_Ok [OF run(2) assms(1)] by blast
  have "distinct (map (pt_hash \<circ> fst) (zip (pb_transactions p) rs))" using block(2) fsts by (simp add: map_map [symmetric] del: map_map)
  then have "distinct (map (pt_hash \<circ> fst) (filter (touches_watched al addresses) (zip (pb_transactions p) rs)))" by (rule distinct_map_filter)
  moreover have "inj_on (canonical_eth_hash al scope) {h. length h = 32}"
    using alloy_lawsD(2) [OF assms(1)] by (auto simp: inj_on_def canonical_eth_hash_def)
  moreover have "(pt_hash \<circ> fst) ` set (filter (touches_watched al addresses) (zip (pb_transactions p) rs)) \<subseteq> {h. length h = 32}"
    using run(3) by (auto simp: list_all_iff transaction_shaped_def)
  ultimately have hashes: "distinct (map (canonical_eth_hash al scope) (map (pt_hash \<circ> fst)
      (filter (touches_watched al addresses) (zip (pb_transactions p) rs))))"
    by (simp only: distinct_map set_map) (meson inj_on_subset)
  have "map od_id (ib_transactions ib) = map (canonical_eth_hash al scope) (map (pt_hash \<circ> fst)
      (filter (touches_watched al addresses) (zip (pb_transactions p) rs)))"
    using run(4) by (simp add: read_draft_def eth_draft_def case_prod_unfold)
  then have "distinct (map od_id (ib_transactions ib))" using hashes by (simp only:)
  moreover have "list_all (draft_ok scope) (ib_transactions ib)"
    using run(3,4) read_draft_ok [OF chain] by (auto simp: list_all_iff)
  moreover have "changes_ok scope (br_height (ib_block ib)) (ib_outputs ib)" using run(4) by (simp add: changes_ok_def no_changes_def)
  ultimately show ?thesis using assms(4,5) run(4) by (simp add: block_addition_new_Ok_iff)
qed

section \<open>An example block\<close>

definition demo_encode :: "u8 list \<Rightarrow> string" where "demo_encode bs = map (\<lambda>b. char_of (unat b)) bs"
definition demo_decode :: "string \<Rightarrow> u8 list" where "demo_decode s = map (\<lambda>ch. of_nat (of_char ch)) s"

definition demo_hash1 :: "u8 list" where "demo_hash1 = replicate 32 1"
definition demo_hash2 :: "u8 list" where "demo_hash2 = replicate 32 2"
definition demo_address1 :: eth_address where "demo_address1 = replicate 20 1"
definition demo_address2 :: eth_address where "demo_address2 = replicate 20 2"

definition demo_tx_json :: json where
  "demo_tx_json =
     JObject [(''hash'', JString (demo_encode demo_hash1)), (''from'', JString (demo_encode demo_address1)),
       (''to'', JString (demo_encode demo_address2)), (''value'', JString ''0x5''), (''transactionIndex'', JString ''0x0''),
       (''blockHash'', JString (demo_encode demo_hash2)), (''blockNumber'', JString ''0x1'')]"

definition demo_receipt_json :: json where
  "demo_receipt_json =
     JObject [(''transactionHash'', JString (demo_encode demo_hash1)), (''transactionIndex'', JString ''0x0''),
       (''blockHash'', JString (demo_encode demo_hash2)), (''blockNumber'', JString ''0x1''), (''from'', JString (demo_encode demo_address1)),
       (''to'', JString (demo_encode demo_address2)), (''status'', JString ''0x1''), (''gasUsed'', JString ''0x1''),
       (''effectiveGasPrice'', JString ''0x5''), (''logs'', JArray [])]"

definition demo_rpc_block :: rpc_block where
  "demo_rpc_block =
     \<lparr>rb_number = 1, rb_hash = demo_hash2, rb_parent_hash = demo_hash1, rb_timestamp = 0, rb_transactions = TransactionsFull [demo_tx_json]\<rparr>"

definition demo_alloy :: alloy where
  "demo_alloy =
     \<lparr>al_block = (\<lambda>raw. if raw = [0] then Some demo_rpc_block else None), al_json = (\<lambda>raw. if raw = [1] then Some demo_receipt_json else None),
      al_b256 = (\<lambda>s. if length s = 32 then Some (demo_decode s) else None), al_address = (\<lambda>s. if length s = 20 then Some (demo_decode s) else None),
      al_u256 = (\<lambda>s. Some (if s = ''0'' then 0 else if s = ''1'' then 1 else 5)), al_encode = demo_encode\<rparr>"

lemma demo_encode_props [simp]: "demo_decode (demo_encode bs) = bs" "length (demo_encode bs) = length bs" "length (demo_decode s) = length s"
proof -
  have "of_nat (of_char (char_of (unat b) :: char)) = b" for b :: u8
    using unat_less [of b] by (simp add: of_char_of take_bit_eq_mod)
  then show "demo_decode (demo_encode bs) = bs" by (simp add: demo_decode_def demo_encode_def comp_def)
qed (simp_all add: demo_encode_def demo_decode_def)

lemma demo_alloy_laws: "alloy_laws demo_alloy"
proof -
  have "inj demo_encode" by (rule inj_on_inverseI [of _ demo_decode]) simp
  then show ?thesis by (auto simp: alloy_laws_def demo_alloy_def intro: inj_on_subset split: if_splits)
qed

lemma demo_alloy_sel:
  "al_block demo_alloy [0] = Some demo_rpc_block" "al_json demo_alloy [1] = Some demo_receipt_json" "al_encode demo_alloy = demo_encode"
  "al_b256 demo_alloy s = (if length s = 32 then Some (demo_decode s) else None)"
  "al_address demo_alloy s = (if length s = 20 then Some (demo_decode s) else None)"
  "al_u256 demo_alloy s = Some (if s = ''0'' then 0 else if s = ''1'' then 1 else 5)"
  by (simp_all add: demo_alloy_def)

lemma demo_lengths [simp]: "length demo_hash1 = 32" "length demo_hash2 = 32" "length demo_address1 = 20" "length demo_address2 = 20"
  by (simp_all add: demo_hash1_def demo_hash2_def demo_address1_def demo_address2_def)

definition demo_parsed_transaction :: parsed_transaction where
  "demo_parsed_transaction = \<lparr>pt_hash = demo_hash1, pt_from = demo_address1, pt_to = Some demo_address2, pt_value = 5, pt_index = 0\<rparr>"

definition demo_parsed_receipt :: parsed_receipt where
  "demo_parsed_receipt =
     \<lparr>pr_transaction_hash = demo_hash1, pr_transaction_index = 0, pr_succeeded = True, pr_gas_used = 1, pr_effective_gas_price = 5,
      pr_contract_address = None, pr_logs = []\<rparr>"

definition demo_eth_block :: eth_block where
  "demo_eth_block = \<lparr>etb_reference = reference_of demo_rpc_block, etb_raw_block = [0], etb_raw_receipts = [[1]]\<rparr>"

lemmas demo_field_defs = eth_text_def required_hash_def required_address_def optional_address_def eth_parse_quantity_def required_quantity_def
  wei_to_u64_def required_quantity_u64_def strip_0x_def

lemma demo_parses:
  "parse_eth_block demo_alloy [0] (Some 1) True = Ok \<lparr>pb_reference = reference_of demo_rpc_block, pb_transactions = [demo_parsed_transaction]\<rparr>"
  by (simp add: parse_eth_block_def demo_alloy_sel demo_rpc_block_def transaction_values_def parse_eth_transaction_def demo_tx_json_def
      demo_field_defs demo_parsed_transaction_def)

lemma demo_parses_receipts:
  "parse_all demo_alloy [[1]] \<lparr>pb_reference = reference_of demo_rpc_block, pb_transactions = [demo_parsed_transaction]\<rparr> = Ok [demo_parsed_receipt]"
  by (simp add: parse_all_def reference_of_def demo_rpc_block_def parse_receipt_def demo_alloy_sel demo_receipt_json_def receipt_identity_def
      demo_field_defs receipt_status_def demo_parsed_transaction_def demo_parsed_receipt_def)

definition demo_eth_scope :: index_scope where "demo_eth_scope = IndexScope ETHEREUM_CHAIN_ID ''n''"

lemma demo_eth_interpreter: "eth_interpreter_new demo_eth_scope = Ok \<lparr>eti_scope = demo_eth_scope\<rparr>"
proof -
  have "\<not> blank_text ''n''" by (subst blank_text.simps) (simp add: utf8_whitespace_def)
  then show ?thesis by (simp add: eth_interpreter_new_def demo_eth_scope_def)
qed

lemma demo_fee: "fee_fits demo_parsed_receipt"
  by (simp add: fee_fits_def demo_parsed_receipt_def)

lemma demo_eth_filters: "filters_valid demo_alloy demo_eth_scope [CanonicalAddress demo_eth_scope (demo_encode demo_address2)]"
  by (simp add: filters_valid_def demo_alloy_sel address_belongs_to_def)

lemma demo_eth_inspects:
  "\<exists>ib. eth_inspect demo_alloy \<lparr>eti_scope = demo_eth_scope\<rparr> demo_eth_block [CanonicalAddress demo_eth_scope (demo_encode demo_address2)] = Ok ib"
proof -
  have ref: "br_height (reference_of demo_rpc_block) = 1" by (simp add: reference_of_def demo_rpc_block_def)
  have "matched_entry (demo_parsed_transaction, demo_parsed_receipt)"
    by (simp add: transaction_shaped_def receipt_matches_def demo_parsed_transaction_def demo_parsed_receipt_def logs_shaped_def)
  then have "\<exists>ds. eth_drafts demo_alloy \<lparr>eti_scope = demo_eth_scope\<rparr> [CanonicalAddress demo_eth_scope (demo_encode demo_address2)]
      (zip [demo_parsed_transaction] [demo_parsed_receipt]) = Ok ds"
    by (intro eth_drafts_total) (simp_all add: demo_alloy_laws demo_eth_filters demo_fee, simp add: demo_eth_scope_def)
  then show ?thesis using demo_parses demo_parses_receipts ref by (auto simp: eth_inspect_def demo_eth_block_def)
qed

section \<open>Properties\<close>

text \<open>
  C20. Interpreting an Ethereum block is exact. Its drafts are those of exactly the transactions that touch a
  watched address - as sender, recipient, created contract or party of a token transfer - in their order;
  every draft carries the movements of its transaction and the fee, gas times price without overflow. The
  log indexes grow through the whole block.
\<close>

theorem eth_interpretation_exact:
  assumes "alloy_laws al" "eth_interpreter_new scope = Ok i" "eth_inspect al i block addresses = Ok ib"
  shows "\<exists>p rs. parse_eth_block al (etb_raw_block block) (Some (br_height (etb_reference block))) True = Ok p \<and>
    parse_all al (etb_raw_receipts block) p = Ok rs \<and>
    ib_transactions ib = map (read_draft al scope) (filter (touches_watched al addresses) (zip (pb_transactions p) rs)) \<and>
    (\<forall>r \<in> set rs. unat (eth_fee r) = unat (pr_effective_gas_price r) * unat (pr_gas_used r)) \<and>
    sorted_wrt (<) (concat (map (\<lambda>r. map pl_log_index (pr_logs r)) rs))"
proof -
  from assms obtain p rs where run: "parse_eth_block al (etb_raw_block block) (Some (br_height (etb_reference block))) True = Ok p"
      "parse_all al (etb_raw_receipts block) p = Ok rs" "list_all matched_entry (zip (pb_transactions p) rs)"
      "ib = \<lparr>ib_block = etb_reference block,
         ib_transactions = map (read_draft al scope) (filter (touches_watched al addresses) (zip (pb_transactions p) rs)), ib_outputs = no_changes\<rparr>"
      "list_all fee_fits rs"
    by (rule inspected_block)
  have "\<forall>r \<in> set rs. unat (eth_fee r) = unat (pr_effective_gas_price r) * unat (pr_gas_used r)"
    using run(5) fee_checked(2) by (auto simp: list_all_iff)
  then show ?thesis using run(1,2,4) parse_all_Ok [OF run(2) assms(1)] by auto
qed

theorem eth_interpretation_exact_witness:
  "\<exists>ib d. eth_inspect demo_alloy \<lparr>eti_scope = demo_eth_scope\<rparr> demo_eth_block [CanonicalAddress demo_eth_scope (demo_encode demo_address2)] = Ok ib \<and>
     ib_transactions ib = [d] \<and> od_status d = DraftIncluded \<and> length (od_movements d) = 1"
proof -
  let ?addresses = "[CanonicalAddress demo_eth_scope (demo_encode demo_address2)]"
  obtain ib where run: "eth_inspect demo_alloy \<lparr>eti_scope = demo_eth_scope\<rparr> demo_eth_block ?addresses = Ok ib" using demo_eth_inspects by blast
  have ref: "br_height (etb_reference demo_eth_block) = 1" by (simp add: demo_eth_block_def reference_of_def demo_rpc_block_def)
  have raw: "etb_raw_block demo_eth_block = [0]" "etb_raw_receipts demo_eth_block = [[1]]" by (simp_all add: demo_eth_block_def)
  have "touches_watched demo_alloy ?addresses (demo_parsed_transaction, demo_parsed_receipt)"
    by (simp add: touches_watched_def watched_addresses_def eth_touched_def own_addresses_def demo_alloy_sel demo_parsed_transaction_def)
  moreover from eth_interpretation_exact [OF demo_alloy_laws demo_eth_interpreter run] have "ib_transactions ib =
      map (read_draft demo_alloy demo_eth_scope) (filter (touches_watched demo_alloy ?addresses) [(demo_parsed_transaction, demo_parsed_receipt)])"
    unfolding ref raw demo_parses by (auto simp: demo_parses_receipts)
  ultimately have "ib_transactions ib = [read_draft demo_alloy demo_eth_scope (demo_parsed_transaction, demo_parsed_receipt)]" by simp
  then show ?thesis using run
    by (simp add: read_draft_def eth_draft_def eth_movements_def value_part_def log_part_def eth_recipient_def opt_list_def
        demo_parsed_transaction_def demo_parsed_receipt_def)
qed

end
