(* ===== verification/Eth_Source.thy ===== *)
theory Eth_Source
  imports Eth_Indexer Eth_Rpc
begin

text \<open>
  The Ethereum block source (\<open>sdk/chains/ethereum/src/indexer/source/mod.rs\<close>): the check of the chain at
  connection, complete blocks with their receipts, and the choice between block receipts and a batch of
  transaction receipts. The transport and the readings of its bytes are parameters. The receipt mode, an
  atomic of the client, is a field of the state: the calls of one source follow each other, as those of a
  synchronizer do, whose running flag admits one pass at a time.
\<close>

section \<open>Calls\<close>

record eth_source_config =
  sg_scope :: index_scope
  sg_expected_chain_id :: u64
  sg_expected_genesis_hash :: block_hash

text \<open>The receipt mode is shared by all calls; the state of the outside world is next to it.\<close>

record 'w eth_source_state =
  ss_receipt_mode :: u8
  ss_world :: 'w

record 'w eth_source =
  es_alloy :: alloy
  es_config :: eth_source_config
  es_call :: "string \<Rightarrow> json \<Rightarrow> ('w, call_error, u8 list) eff"
  es_batch :: "(string \<times> json) list \<Rightarrow> ('w, source_error, (rpc_failure, u8 list) result list) eff"
  es_value :: "u8 list \<Rightarrow> (source_error, json) result"
  es_text :: "u8 list \<Rightarrow> (source_error, string) result"
  es_raw_values :: "u8 list \<Rightarrow> (source_error, u8 list list) result"

definition outer :: "('w, 'e, 'a) eff \<Rightarrow> ('w eth_source_state, 'e, 'a) eff" where
  "outer f s = (case f (ss_world s) of (r, w) \<Rightarrow> (r, s\<lparr>ss_world := w\<rparr>))"

record eth_call_failure =
  ecf_remote_code :: "int option"
  ecf_error :: source_error

definition failure_is_server_error :: "rpc_failure \<Rightarrow> bool" where
  "failure_is_server_error f \<longleftrightarrow> -32099 \<le> rf_code f \<and> rf_code f \<le> -32000"

definition eth_failure_remote :: "rpc_failure \<Rightarrow> eth_call_failure" where
  "eth_failure_remote f =
     \<lparr>ecf_remote_code = Some (rf_code f),
      ecf_error = eth_source_error (''Ethereum JSON-RPC request failed with code '' @ int_text (rf_code f)) (failure_is_server_error f)\<rparr>"

definition eth_failure_local :: "source_error \<Rightarrow> eth_call_failure" where
  "eth_failure_local e = \<lparr>ecf_remote_code = None, ecf_error = e\<rparr>"

fun eth_call_failure_of :: "call_error \<Rightarrow> eth_call_failure" where
  "eth_call_failure_of (CallLocal e) = eth_failure_local e"
| "eth_call_failure_of (CallRemote f) = eth_failure_remote f"

definition eth_request_detailed :: "'w eth_source \<Rightarrow> string \<Rightarrow> json \<Rightarrow> ('w eth_source_state, eth_call_failure, u8 list) eff" where
  "eth_request_detailed es method params = eff_err eth_call_failure_of (outer (es_call es method params))"

definition eth_request_result :: "'w eth_source \<Rightarrow> string \<Rightarrow> json \<Rightarrow> ('w eth_source_state, source_error, u8 list) eff" where
  "eth_request_result es method params = eff_err ecf_error (eth_request_detailed es method params)"

section \<open>Connection\<close>

definition eth_scope_error :: source_error where
  "eth_scope_error = eth_source_error ''Ethereum index source scope must use the ethereum chain ID'' False"
definition eth_network_error :: source_error where
  "eth_network_error = eth_source_error ''Ethereum index source network slug must not be empty'' False"
definition eth_genesis_length_error :: source_error where
  "eth_genesis_length_error = eth_source_error ''configured Ethereum genesis hash must be 32 bytes'' False"
definition eth_chain_id_width_error :: source_error where
  "eth_chain_id_width_error = eth_source_error ''Ethereum chain ID exceeds u64'' False"
definition eth_chain_id_error :: source_error where
  "eth_chain_id_error = eth_source_error ''Ethereum RPC chain ID does not match configuration'' False"
definition eth_no_genesis_error :: source_error where
  "eth_no_genesis_error = eth_source_error ''Ethereum RPC does not expose the genesis block'' False"
definition eth_genesis_error :: source_error where
  "eth_genesis_error = eth_source_error ''Ethereum RPC genesis hash does not match configuration'' False"
definition chain_id_label :: string where "chain_id_label = ''chain ID''"

definition eth_source_config_validate :: "eth_source_config \<Rightarrow> (source_error, unit) result" where
  "eth_source_config_validate c =
     and_then (fail_if (chain_name (sc_chain (sg_scope c)) \<noteq> ''ethereum'') eth_scope_error) (\<lambda>_.
     and_then (fail_if (blank_text (sc_network (sg_scope c))) eth_network_error) (\<lambda>_.
     fail_if (length (sg_expected_genesis_hash c) \<noteq> 32) eth_genesis_length_error))"

definition chain_id_checked :: "'w eth_source \<Rightarrow> u8 list \<Rightarrow> (source_error, unit) result" where
  "chain_id_checked es raw =
     and_then (es_text es raw) (\<lambda>text.
     and_then (map_err (\<lambda>m. eth_source_error m False) (eth_parse_quantity (es_alloy es) text chain_id_label)) (\<lambda>quantity.
     and_then (ok_or (wei_to_u64 quantity) eth_chain_id_width_error) (\<lambda>chain_id.
     fail_if (chain_id \<noteq> sg_expected_chain_id (es_config es)) eth_chain_id_error)))"

definition eth_genesis_checked :: "'w eth_source \<Rightarrow> u8 list \<Rightarrow> (source_error, unit) result" where
  "eth_genesis_checked es raw =
     and_then (es_value es raw) (\<lambda>j.
     and_then (fail_if (j = JNull) eth_no_genesis_error) (\<lambda>_.
     and_then (map_err (\<lambda>m. eth_source_error m False) (parse_eth_block (es_alloy es) raw (Some 0) False)) (\<lambda>genesis.
     fail_if (br_hash (pb_reference genesis) \<noteq> sg_expected_genesis_hash (es_config es)) eth_genesis_error)))"

definition verify_chains :: "'w eth_source \<Rightarrow> ('w eth_source_state, source_error, unit) eff" where
  "verify_chains es =
     bind_eff (eth_request_result es ''eth_chainId'' (JArray [])) (\<lambda>raw.
     bind_eff (lift_result (chain_id_checked es raw)) (\<lambda>_.
     bind_eff (eth_request_result es ''eth_getBlockByNumber'' (JArray [JString ''0x0'', JBool False])) (\<lambda>raw.
     lift_result (eth_genesis_checked es raw))))"

definition RECEIPTS_UNKNOWN :: u8 where "RECEIPTS_UNKNOWN = 0"
definition RECEIPTS_BY_BLOCK :: u8 where "RECEIPTS_BY_BLOCK = 1"
definition RECEIPTS_BY_TRANSACTION :: u8 where "RECEIPTS_BY_TRANSACTION = 2"

text \<open>A new source with its state.\<close>

definition source_from_rpc ::
  "'w eth_source \<Rightarrow> 'w \<Rightarrow> (source_error, 'w eth_source) result \<times> 'w eth_source_state" where
  "source_from_rpc es w =
     bind_eff (lift_result (eth_source_config_validate (es_config es))) (\<lambda>_.
     bind_eff (verify_chains es) (\<lambda>_. ret es)) \<lparr>ss_receipt_mode = RECEIPTS_UNKNOWN, ss_world = w\<rparr>"

section \<open>Blocks and receipts\<close>

definition eth_not_exposed_error :: source_error where
  "eth_not_exposed_error = eth_source_error ''Ethereum RPC does not currently expose the requested block'' True"
definition receipt_unavailable_error :: source_error where
  "receipt_unavailable_error = eth_source_error ''Ethereum transaction receipt is temporarily unavailable'' True"

definition eth_fetch_block ::
  "'w eth_source \<Rightarrow> string \<Rightarrow> block_height option \<Rightarrow> bool \<Rightarrow> ('w eth_source_state, source_error, u8 list \<times> parsed_block) eff" where
  "eth_fetch_block es tag expected_height full =
     bind_eff (eth_request_result es ''eth_getBlockByNumber'' (JArray [JString tag, JBool full])) (\<lambda>raw.
     lift_result (
       and_then (es_value es raw) (\<lambda>j.
       and_then (fail_if (j = JNull) eth_not_exposed_error) (\<lambda>_.
       and_then (map_err (\<lambda>m. eth_source_error m True) (parse_eth_block (es_alloy es) raw expected_height full)) (\<lambda>parsed.
       Ok (raw, parsed))))))"

definition fetch_block_receipts :: "'w eth_source \<Rightarrow> parsed_block \<Rightarrow> ('w eth_source_state, eth_call_failure, u8 list list) eff" where
  "fetch_block_receipts es block =
     bind_eff (eth_request_detailed es ''eth_getBlockReceipts'' (JArray [JString (al_encode (es_alloy es) (br_hash (pb_reference block)))])) (\<lambda>raw.
     lift_result (map_err eth_failure_local (es_raw_values es raw)))"

definition receipt_answer :: "'w eth_source \<Rightarrow> (rpc_failure, u8 list) result \<Rightarrow> (source_error, u8 list) result" where
  "receipt_answer es answer =
     and_then (map_err (\<lambda>f. ecf_error (eth_failure_remote f)) answer) (\<lambda>raw.
     and_then (es_value es raw) (\<lambda>j.
     and_then (fail_if (j = JNull) receipt_unavailable_error) (\<lambda>_.
     Ok raw)))"

definition receipt_requests :: "'w eth_source \<Rightarrow> parsed_block \<Rightarrow> (string \<times> json) list" where
  "receipt_requests es block =
     map (\<lambda>t. (''eth_getTransactionReceipt'', JArray [JString (al_encode (es_alloy es) (pt_hash t))])) (pb_transactions block)"

definition fetch_transaction_receipts :: "'w eth_source \<Rightarrow> parsed_block \<Rightarrow> ('w eth_source_state, source_error, u8 list list) eff" where
  "fetch_transaction_receipts es block =
     bind_eff (outer (es_batch es (receipt_requests es block))) (\<lambda>answers.
     lift_result (collect (receipt_answer es) answers))"

definition METHOD_NOT_FOUND :: int where "METHOD_NOT_FOUND = -32601"

definition fetch_receipts :: "'w eth_source \<Rightarrow> parsed_block \<Rightarrow> ('w eth_source_state, source_error, u8 list list) eff" where
  "fetch_receipts es block =
     (if pb_transactions block = [] then ret []
      else (\<lambda>s.
        if ss_receipt_mode s \<noteq> RECEIPTS_BY_TRANSACTION then
          (case fetch_block_receipts es block s of
             (Ok receipts, s') \<Rightarrow> (Ok receipts, s'\<lparr>ss_receipt_mode := RECEIPTS_BY_BLOCK\<rparr>)
           | (Err failure, s') \<Rightarrow>
               if ecf_remote_code failure = Some METHOD_NOT_FOUND
               then fetch_transaction_receipts es block (s'\<lparr>ss_receipt_mode := RECEIPTS_BY_TRANSACTION\<rparr>)
               else (Err (ecf_error failure), s'))
        else fetch_transaction_receipts es block s))"

definition height_tag :: "block_height \<Rightarrow> string" where
  "height_tag height = ''0x'' @ hex_text (unat height)"

definition fetch_complete_block :: "'w eth_source \<Rightarrow> block_height \<Rightarrow> ('w eth_source_state, source_error, eth_block) eff" where
  "fetch_complete_block es height =
     bind_eff (eth_fetch_block es (height_tag height) (Some height) True) (\<lambda>(raw_block, parsed).
     bind_eff (fetch_receipts es parsed) (\<lambda>raw_receipts.
     bind_eff (lift_result (map_err (\<lambda>m. eth_source_error m True) (parse_all (es_alloy es) raw_receipts parsed))) (\<lambda>_.
     ret \<lparr>etb_reference = pb_reference parsed, etb_raw_block = raw_block, etb_raw_receipts = raw_receipts\<rparr>)))"

section \<open>Source operations\<close>

definition eth_tip :: "'w eth_source \<Rightarrow> ('w eth_source_state, source_error, block_ref) eff" where
  "eth_tip es = bind_eff (eth_fetch_block es ''latest'' None False) (\<lambda>(_, block). ret (pb_reference block))"

definition eth_range_error :: source_error where
  "eth_range_error = eth_source_error ''Ethereum block range requires ordered positions and a positive limit'' False"

definition eth_blocks ::
  "'w eth_source \<Rightarrow> block_position \<Rightarrow> block_position \<Rightarrow> nat \<Rightarrow> ('w eth_source_state, source_error, eth_block list) eff" where
  "eth_blocks es start end1 limit =
     bind_eff (lift_result (fail_if (limit = 0 \<or> start > end1) eth_range_error)) (\<lambda>_.
     fetch_range (fetch_complete_block es) limit start end1)"

definition eth_canonical_at :: "'w eth_source \<Rightarrow> block_position \<Rightarrow> ('w eth_source_state, source_error, block_ref option) eff" where
  "eth_canonical_at es position =
     bind_eff (eth_request_result es ''eth_getBlockByNumber'' (JArray [JString (height_tag position), JBool False])) (\<lambda>raw.
     lift_result (
       and_then (es_value es raw) (\<lambda>j.
       if j = JNull then Ok None
       else
         and_then (map_err (\<lambda>m. eth_source_error m True) (parse_eth_block (es_alloy es) raw (Some position) False)) (\<lambda>block.
         Ok (Some (pb_reference block))))))"

lemma fetch_range_cong:
  assumes "\<And>p s. P s \<Longrightarrow> fetch' p s = fetch p s \<and> P (snd (fetch p s))" "P s"
  shows "fetch_range fetch' n position end1 s = fetch_range fetch n position end1 s \<and> P (snd (fetch_range fetch n position end1 s))"
  using assms(2)
proof (induction n arbitrary: position s)
  case (Suc n)
  obtain r s1 where run: "fetch position s = (r, s1)" by fastforce
  have one: "fetch' position s = (r, s1)" "P s1" using assms(1) [OF Suc.prems, of position] run by simp_all
  show ?case
  proof (cases "position > end1")
    case False
    show ?thesis
    proof (cases r)
      case (Inr block)
      show ?thesis
      proof (cases "checked_add position 1")
        case (Some following)
        obtain q s2 where rest: "fetch_range fetch n following end1 s1 = (q, s2)" by fastforce
        from Suc.IH [OF one(2), of following] rest have "fetch_range fetch' n following end1 s1 = (q, s2)" "P s2" by simp_all
        then show ?thesis using False Inr Some run one rest by (cases q) simp_all
      qed (use False Inr run one in simp)
    qed (use False run one in simp)
  qed (use Suc.prems in simp)
qed simp

section \<open>What a delivered block is\<close>

lemma fetch_complete_block_Ok:
  assumes "fetch_complete_block es height s = (Ok block, s')"
  obtains p rs where "parse_eth_block (es_alloy es) (etb_raw_block block) (Some height) True = Ok p" "pb_reference p = etb_reference block"
    "parse_all (es_alloy es) (etb_raw_receipts block) p = Ok rs"
  using assms by (auto simp: fetch_complete_block_def eth_fetch_block_def result_simps)

lemma delivered_position:
  assumes "fetch_complete_block es height s = (Ok block, s')"
  shows "br_position (etb_reference block) = height \<and> br_height (etb_reference block) = height"
proof -
  from assms obtain p where p: "parse_eth_block (es_alloy es) (etb_raw_block block) (Some height) True = Ok p" "pb_reference p = etb_reference block"
    by (rule fetch_complete_block_Ok)
  from p(1) obtain b where "pb_reference p = reference_of b" "rb_number b = height" by (auto simp: parse_eth_block_def result_simps)
  then show ?thesis using p(2) by (auto simp: reference_of_def)
qed

text \<open>Once the batch was chosen, block receipts are not asked for again.\<close>

lemma mode_simps [simp]:
  "ss_receipt_mode (snd (outer f s)) = ss_receipt_mode s"
  "ss_receipt_mode (snd (eth_request_detailed es method params s)) = ss_receipt_mode s"
  "ss_receipt_mode (snd (eth_request_result es method params s)) = ss_receipt_mode s"
  by (simp_all add: outer_def eth_request_detailed_def eth_request_result_def eff_err_def split: prod.splits sum.splits)

lemma bind_mode:
  assumes "\<And>s. ss_receipt_mode (snd (m s)) = ss_receipt_mode s" "\<And>x s. ss_receipt_mode (snd (f x s)) = ss_receipt_mode s"
  shows "ss_receipt_mode (snd (bind_eff m f s)) = ss_receipt_mode s"
  using assms(1) [of s] assms(2) by (cases "m s"; cases "fst (m s)") (auto simp: bind_eff_def)

lemma fetch_modes [simp]:
  "ss_receipt_mode (snd (eth_fetch_block es tag expected full s)) = ss_receipt_mode s"
  "ss_receipt_mode (snd (fetch_transaction_receipts es block s)) = ss_receipt_mode s"
  unfolding eth_fetch_block_def fetch_transaction_receipts_def by (rule bind_mode; simp)+

text \<open>A source whose node answers requests for block receipts in another way.\<close>

abbreviation other_receipts :: "(json \<Rightarrow> ('w, call_error, u8 list) eff) \<Rightarrow> 'w eth_source \<Rightarrow> 'w eth_source" where
  "other_receipts f es \<equiv> es\<lparr>es_call := (\<lambda>method params. if method = ''eth_getBlockReceipts'' then f params else es_call es method params)\<rparr>"

lemma batch_fetch:
  assumes "ss_receipt_mode s = RECEIPTS_BY_TRANSACTION"
  shows "fetch_complete_block (other_receipts f es) height s = fetch_complete_block es height s"
    "ss_receipt_mode (snd (fetch_complete_block es height s)) = RECEIPTS_BY_TRANSACTION"
proof -
  have block: "eth_fetch_block (other_receipts f es) tag expected full = eth_fetch_block es tag expected full" for tag expected full
    by (simp add: eth_fetch_block_def eth_request_result_def eth_request_detailed_def)
  have "receipt_answer (other_receipts f es) = receipt_answer es" by (simp add: receipt_answer_def fun_eq_iff)
  then have batch: "fetch_transaction_receipts (other_receipts f es) = fetch_transaction_receipts es"
    by (intro ext) (simp add: fetch_transaction_receipts_def receipt_requests_def)
  have receipts: "fetch_receipts (other_receipts f es) p s1 = fetch_receipts es p s1"
      "ss_receipt_mode (snd (fetch_receipts es p s1)) = RECEIPTS_BY_TRANSACTION" if "ss_receipt_mode s1 = RECEIPTS_BY_TRANSACTION" for p s1
    using that by (simp_all add: fetch_receipts_def batch)
  obtain r s1 where run: "eth_fetch_block es (height_tag height) (Some height) True s = (r, s1)" by fastforce
  have mode: "ss_receipt_mode s1 = RECEIPTS_BY_TRANSACTION"
    using fetch_modes(1) [of es "height_tag height" "Some height" True s] run assms by simp
  have "fetch_complete_block (other_receipts f es) height s = fetch_complete_block es height s \<and>
    ss_receipt_mode (snd (fetch_complete_block es height s)) = RECEIPTS_BY_TRANSACTION"
  proof (cases r)
    case (Inr x)
    obtain raw p where x: "x = (raw, p)" by fastforce
    obtain q s2 where q: "fetch_receipts es p s1 = (q, s2)" by fastforce
    have other: "fetch_receipts (other_receipts f es) p s1 = (q, s2)" and mode2: "ss_receipt_mode s2 = RECEIPTS_BY_TRANSACTION"
      using receipts [OF mode, of p] q by simp_all
    show ?thesis
    proof (cases q)
      case (Inr raws)
      then show ?thesis using run \<open>r = Inr x\<close> x q other mode2
        by (cases "parse_all (es_alloy es) raws p") (simp_all add: fetch_complete_block_def block bind_eff_def)
    qed (use run Inr x q other mode2 in \<open>simp add: fetch_complete_block_def block bind_eff_def\<close>)
  qed (use run mode in \<open>simp add: fetch_complete_block_def block bind_eff_def\<close>)
  then show "fetch_complete_block (other_receipts f es) height s = fetch_complete_block es height s"
    "ss_receipt_mode (snd (fetch_complete_block es height s)) = RECEIPTS_BY_TRANSACTION" by simp_all
qed

lemma batch_blocks:
  assumes "ss_receipt_mode s = RECEIPTS_BY_TRANSACTION"
  shows "eth_blocks (other_receipts f es) start end1 limit s = eth_blocks es start end1 limit s"
    "ss_receipt_mode (snd (eth_blocks es start end1 limit s)) = RECEIPTS_BY_TRANSACTION"
proof -
  have "fetch_range (fetch_complete_block (other_receipts f es)) limit start end1 s = fetch_range (fetch_complete_block es) limit start end1 s \<and>
      ss_receipt_mode (snd (fetch_range (fetch_complete_block es) limit start end1 s)) = RECEIPTS_BY_TRANSACTION"
    by (rule fetch_range_cong [where P = "\<lambda>s. ss_receipt_mode s = RECEIPTS_BY_TRANSACTION", OF _ assms]) (use batch_fetch in blast)
  then show "eth_blocks (other_receipts f es) start end1 limit s = eth_blocks es start end1 limit s"
    "ss_receipt_mode (snd (eth_blocks es start end1 limit s)) = RECEIPTS_BY_TRANSACTION"
    using assms by (simp_all add: eth_blocks_def bind_eff_def fail_if_def)
qed

text \<open>What a client may do with a source, one call after the other: any blocks, tips and canonical references.\<close>

inductive source_run :: "'w eth_source \<Rightarrow> 'w eth_source_state \<Rightarrow> 'w eth_source_state \<Rightarrow> bool" for es where
  source_idle: "source_run es s s"
| source_block: "source_run es s s1 \<Longrightarrow> fetch_complete_block es height s1 = (r, s2) \<Longrightarrow> source_run es s s2"
| source_tip: "source_run es s s1 \<Longrightarrow> eth_tip es s1 = (r, s2) \<Longrightarrow> source_run es s s2"
| source_canonical: "source_run es s s1 \<Longrightarrow> eth_canonical_at es position s1 = (r, s2) \<Longrightarrow> source_run es s s2"

lemma read_modes [simp]:
  "ss_receipt_mode (snd (eth_tip es s)) = ss_receipt_mode s"
  "ss_receipt_mode (snd (eth_canonical_at es position s)) = ss_receipt_mode s"
  unfolding eth_tip_def eth_canonical_at_def by (rule bind_mode; simp add: case_prod_unfold)+

lemma source_run_mode:
  "source_run es s s' \<Longrightarrow> ss_receipt_mode s = RECEIPTS_BY_TRANSACTION \<Longrightarrow> ss_receipt_mode s' = RECEIPTS_BY_TRANSACTION"
proof (induction rule: source_run.induct)
  case (source_block s s1 height r s2)
  then show ?case using batch_fetch(2) [of s1 es height] by simp
next
  case (source_tip s s1 r s2)
  then show ?case using read_modes(1) [of es s1] by simp
next
  case (source_canonical s s1 position r s2)
  then show ?case using read_modes(2) [of es position s1] by simp
qed simp

section \<open>An example source\<close>

definition demo_eth_source :: "unit eth_source" where
  "demo_eth_source =
     \<lparr>es_alloy = demo_alloy,
      es_config = \<lparr>sg_scope = demo_eth_scope, sg_expected_chain_id = 1, sg_expected_genesis_hash = demo_hash1\<rparr>,
      es_call = (\<lambda>method params. ret (if method = ''eth_getBlockByNumber'' then [0] else [2])), es_batch = (\<lambda>_. ret [Ok [1]]),
      es_value = (\<lambda>_. Ok (JBool True)), es_text = (\<lambda>_. Ok []), es_raw_values = (\<lambda>_. Ok [[1]])\<rparr>"

definition demo_source_state :: "u8 \<Rightarrow> unit eth_source_state" where
  "demo_source_state mode = \<lparr>ss_receipt_mode = mode, ss_world = ()\<rparr>"

lemmas demo_source_defs = demo_eth_source_def demo_source_state_def fetch_receipts_def fetch_block_receipts_def fetch_transaction_receipts_def
  receipt_answer_def eth_request_result_def eth_request_detailed_def eff_err_def outer_def ret_def bind_eff_def

lemma demo_fetches_block:
  "eth_fetch_block demo_eth_source tag (Some 1) True (demo_source_state mode) =
     (Ok ([0], \<lparr>pb_reference = reference_of demo_rpc_block, pb_transactions = [demo_parsed_transaction]\<rparr>), demo_source_state mode)"
  by (simp add: eth_fetch_block_def demo_source_defs demo_parses)

lemma demo_fetches:
  "fetch_complete_block demo_eth_source 1 (demo_source_state 0) = (Ok demo_eth_block, demo_source_state RECEIPTS_BY_BLOCK)"
  "fetch_complete_block demo_eth_source 1 (demo_source_state RECEIPTS_BY_TRANSACTION) = (Ok demo_eth_block, demo_source_state RECEIPTS_BY_TRANSACTION)"
proof -
  have alloy: "es_alloy demo_eth_source = demo_alloy" by (simp add: demo_eth_source_def)
  have "fetch_receipts demo_eth_source \<lparr>pb_reference = ref, pb_transactions = [demo_parsed_transaction]\<rparr> (demo_source_state mode) =
      (Ok [[1]], demo_source_state (if mode = RECEIPTS_BY_TRANSACTION then mode else RECEIPTS_BY_BLOCK))" for ref mode
    by (simp add: demo_source_defs)
  then show "fetch_complete_block demo_eth_source 1 (demo_source_state 0) = (Ok demo_eth_block, demo_source_state RECEIPTS_BY_BLOCK)"
    "fetch_complete_block demo_eth_source 1 (demo_source_state RECEIPTS_BY_TRANSACTION) = (Ok demo_eth_block, demo_source_state RECEIPTS_BY_TRANSACTION)"
    by (simp_all add: fetch_complete_block_def bind_eff_def ret_def demo_fetches_block demo_parses_receipts demo_eth_block_def alloy RECEIPTS_BY_TRANSACTION_def)
qed

text \<open>A node that does not know block receipts.\<close>

definition demo_unknown_method :: rpc_failure where
  "demo_unknown_method = \<lparr>rf_code = -32601, rf_message = [], rf_data = None\<rparr>"

definition demo_old_node :: "unit eth_source" where
  "demo_old_node = other_receipts (\<lambda>_. throw (CallRemote demo_unknown_method)) demo_eth_source"

definition demo_parsed_block :: parsed_block where
  "demo_parsed_block = \<lparr>pb_reference = reference_of demo_rpc_block, pb_transactions = [demo_parsed_transaction]\<rparr>"

section \<open>Properties\<close>

text \<open>
  C21. Every Ethereum block the source delivers is indexed: read again by the interpreter it yields drafts for
  any valid filters, and the result passes every validation of a block addition that connects to its
  checkpoint. Only a fee beyond 256 bits can stop it.
\<close>

theorem eth_block_indexed:
  assumes "fetch_complete_block es height s = (Ok block, s')" "alloy_laws (es_alloy es)"
    and "eth_interpreter_new scope = Ok i" "filters_valid (es_alloy es) scope addresses"
    and "\<And>p rs. parse_eth_block (es_alloy es) (etb_raw_block block) (Some height) True = Ok p \<Longrightarrow>
      parse_all (es_alloy es) (etb_raw_receipts block) p = Ok rs \<Longrightarrow> list_all fee_fits rs"
    and "retention \<noteq> 0" "connects expected (etb_reference block)"
  shows "\<exists>ib a. eth_inspect (es_alloy es) i block addresses = Ok ib \<and> block_addition_new scope expected retention ib = Ok a"
proof -
  have i: "eti_scope i = scope" "sc_chain scope = ETHEREUM_CHAIN_ID" using assms(3) by (auto simp: eth_interpreter_new_def result_simps)
  from assms(1) obtain p rs where run: "parse_eth_block (es_alloy es) (etb_raw_block block) (Some height) True = Ok p"
      "pb_reference p = etb_reference block" "parse_all (es_alloy es) (etb_raw_receipts block) p = Ok rs"
    by (rule fetch_complete_block_Ok)
  have match: "list_all2 receipt_matches (pb_transactions p) rs" using parse_all_Ok [OF run(3) assms(2)] by simp
  then have entries: "list_all matched_entry (zip (pb_transactions p) rs)" using parsed_entries(1) parse_eth_block_Ok [OF run(1) assms(2)] by blast
  have fees: "list_all (\<lambda>x. fee_fits (snd x)) (zip (pb_transactions p) rs)"
    using assms(5) [OF run(1,3)] by (auto simp: list_all_iff dest: set_zip_rightD)
  have "sc_chain (eti_scope i) = ETHEREUM_CHAIN_ID" "filters_valid (es_alloy es) (eti_scope i) addresses" using i assms(4) by simp_all
  from eth_drafts_total [OF assms(2) this(1) entries this(2) fees] obtain ds where
    "eth_drafts (es_alloy es) i addresses (zip (pb_transactions p) rs) = Ok ds" by blast
  then have "eth_inspect (es_alloy es) i block addresses = Ok \<lparr>ib_block = etb_reference block, ib_transactions = ds, ib_outputs = no_changes\<rparr>"
    using run delivered_position [OF assms(1)] by (simp add: eth_inspect_def)
  then show ?thesis using eth_block_accepted [OF assms(2,3) _ assms(6,7)] by blast
qed

theorem eth_block_indexed_witness:
  "\<exists>ib a. eth_inspect demo_alloy \<lparr>eti_scope = demo_eth_scope\<rparr> demo_eth_block [CanonicalAddress demo_eth_scope (demo_encode demo_address2)] = Ok ib \<and>
     block_addition_new demo_eth_scope None 1 ib = Ok a"
proof -
  have alloy: "es_alloy demo_eth_source = demo_alloy" by (simp add: demo_eth_source_def)
  have raw: "etb_raw_block demo_eth_block = [0]" "etb_raw_receipts demo_eth_block = [[1]]" by (simp_all add: demo_eth_block_def)
  show ?thesis
    by (rule eth_block_indexed [OF demo_fetches(1), unfolded alloy raw, OF demo_alloy_laws demo_eth_interpreter demo_eth_filters])
      (auto simp: demo_parses demo_parses_receipts demo_fee connects_def)
qed

text \<open>
  C22. The fallback to transaction receipts is permanent. When a node reports that it does not know block
  receipts, the same call goes on with a batch of transaction receipts, and the choice is kept by every later
  call of the source, one after the other: reading any range of blocks then does not depend on what the node
  would answer to a request for block receipts.
\<close>

theorem receipt_fallback_permanent:
  assumes "pb_transactions block \<noteq> []" "ss_receipt_mode s \<noteq> RECEIPTS_BY_TRANSACTION"
    and "fetch_block_receipts es block s = (Err failure, s1)" "ecf_remote_code failure = Some METHOD_NOT_FOUND"
    and "fetch_receipts es block s = (r, s2)" "source_run es s2 s3"
  shows "fetch_transaction_receipts es block (s1\<lparr>ss_receipt_mode := RECEIPTS_BY_TRANSACTION\<rparr>) = (r, s2) \<and>
    ss_receipt_mode s3 = RECEIPTS_BY_TRANSACTION \<and>
    eth_blocks (other_receipts f es) start end1 limit s3 = eth_blocks es start end1 limit s3 \<and>
    ss_receipt_mode (snd (eth_blocks es start end1 limit s3)) = RECEIPTS_BY_TRANSACTION"
proof -
  have batch: "fetch_transaction_receipts es block (s1\<lparr>ss_receipt_mode := RECEIPTS_BY_TRANSACTION\<rparr>) = (r, s2)"
    using assms(1-5) by (simp add: fetch_receipts_def)
  then have "ss_receipt_mode s2 = RECEIPTS_BY_TRANSACTION"
    using fetch_modes(2) [of es block "s1\<lparr>ss_receipt_mode := RECEIPTS_BY_TRANSACTION\<rparr>"] by simp
  then have "ss_receipt_mode s3 = RECEIPTS_BY_TRANSACTION" by (rule source_run_mode [OF assms(6)])
  then show ?thesis using batch batch_blocks by blast
qed

theorem receipt_fallback_permanent_witness:
  "fetch_receipts demo_old_node demo_parsed_block (demo_source_state RECEIPTS_UNKNOWN) = (Ok [[1]], demo_source_state RECEIPTS_BY_TRANSACTION) \<and>
   eth_blocks (other_receipts (\<lambda>_. ret [9]) demo_old_node) 1 1 1 (demo_source_state RECEIPTS_BY_TRANSACTION) =
     (Ok [demo_eth_block], demo_source_state RECEIPTS_BY_TRANSACTION)"
proof -
  have "eth_blocks demo_eth_source 1 1 1 (demo_source_state RECEIPTS_BY_TRANSACTION) = (Ok [demo_eth_block], demo_source_state RECEIPTS_BY_TRANSACTION)"
    by (simp add: eth_blocks_def bind_eff_def ret_def demo_fetches(2) checked_add_def)
  then have blocks1: "eth_blocks demo_old_node 1 1 1 (demo_source_state RECEIPTS_BY_TRANSACTION) =
      (Ok [demo_eth_block], demo_source_state RECEIPTS_BY_TRANSACTION)"
    using batch_blocks(1) [of "demo_source_state RECEIPTS_BY_TRANSACTION" "\<lambda>_. throw (CallRemote demo_unknown_method)" demo_eth_source 1 1 1]
    unfolding demo_old_node_def by (simp add: demo_source_state_def)
  have refused: "fetch_block_receipts demo_old_node demo_parsed_block (demo_source_state RECEIPTS_UNKNOWN) =
      (Err (eth_failure_remote demo_unknown_method), demo_source_state RECEIPTS_UNKNOWN)"
    by (simp add: demo_old_node_def demo_source_defs)
  have receipts1: "fetch_receipts demo_old_node demo_parsed_block (demo_source_state RECEIPTS_UNKNOWN) =
      (Ok [[1]], demo_source_state RECEIPTS_BY_TRANSACTION)"
    using refused by (simp add: fetch_receipts_def demo_parsed_block_def eth_failure_remote_def demo_unknown_method_def METHOD_NOT_FOUND_def
        RECEIPTS_UNKNOWN_def RECEIPTS_BY_TRANSACTION_def demo_old_node_def demo_source_defs)
  from receipt_fallback_permanent [OF _ _ refused _ receipts1 source_idle, of "\<lambda>_. ret [9]" 1 1 1] receipts1 blocks1
  show ?thesis
    by (simp add: demo_parsed_block_def eth_failure_remote_def demo_unknown_method_def METHOD_NOT_FOUND_def RECEIPTS_UNKNOWN_def
        RECEIPTS_BY_TRANSACTION_def demo_source_state_def)
qed

end
