(* ===== verification/Spec2Isabelle.thy ===== *)
theory Spec2Isabelle
  imports Sync_Runtime Bitcoin_Build Eth_Coordination Eth_Balances Wallet_Publication Eth_Wallet Bitcoin_Node Eth_Source
begin

text \<open>
  Payment-SDK: a verification of its indexing core, its wallet collection, its Bitcoin and
  Ethereum block sources and interpreters, its Bitcoin transaction builder, and its Ethereum transaction
  coordination.

  \<^bold>\<open>The program.\<close> Payment-SDK is a Rust workspace. Chain crates (Bitcoin, Ethereum, Solana) turn native
  blocks into neutral facts; \<open>sdk/indexing\<close> validates those facts, admits blocks in order, and keeps
  a canonical index that survives reorganisations; \<open>sdk/indexing/redb\<close> stores the index in the
  key-value store of \<open>packages/storage\<close>; \<open>sdk/wallets\<close> builds, submits and observes payments.
  Amounts are the exact decimals of \<open>sdk/chains/base\<close>.

  \<^bold>\<open>Theories, from the bottom up.\<close>
  \<^item> \<open>Prelude\<close>: results, computations over a state that may fail, machine words, big-endian bytes.
  \<^item> \<open>Decimal\<close> (\<open>sdk/chains/base/src/decimal.rs\<close>): construction, comparison, arithmetic, conversion to
    atomic units, text and parts. The comparison that avoids aligning scales equals the order of the
    represented rationals; conversion and text are exact.
  \<^item> \<open>Chain_Values\<close> (\<open>address.rs, asset.rs, block.rs, chain.rs, network.rs\<close>, \<open>sdk/indexing/src/value.rs,
    error.rs\<close>): the identifiers and references that everything else carries.
  \<^item> \<open>Observation\<close> (\<open>sdk/indexing/src/observation.rs, output.rs, block.rs\<close>): movements, drafts, output
    changes and \<open>BlockAddition::new\<close>; a declarative reading of what it accepts.
  \<^item> \<open>Storage_Codec\<close> (\<open>packages/storage/src\<close>, \<open>packages/storage/redb/src/codec.rs\<close>): storage requests and
    errors, physical keys, record frames. \<open>bincode\<close> is a parameter; \<open>bincode_fixed_be\<close> states its
    documented fixed-width big-endian layout.
  \<^item> \<open>Tables\<close>, \<open>Storage_Backend\<close> (\<open>packages/storage/redb/src/backend.rs\<close> and \<open>backend/\<close>): redb's tables as
    sorted lists; the database owner with its reads, scans, commits, reopening and command loop. A
    parameter decides, call by call, whether a native redb call fails and with which error.
  \<^item> \<open>Storage_Laws\<close>: the interface \<open>store\<close> (a map of versioned values with reads, ordered prefix scans and
    atomic conditional commits), what clients may conclude from it, and the proof that the adapter
    provides it under every failure behaviour.
  \<^item> \<open>Index_Keys\<close>, \<open>Index_Records\<close> (\<open>sdk/indexing/redb/src/keys.rs, record.rs, movement_record.rs,
    amount_record.rs\<close>): byte keys and stored records.
  \<^item> \<open>Index_Repository\<close> (\<open>sdk/indexing/redb/src/lib.rs, repository/\<close>): adding a block, removing the tip,
    reading blocks and the two listings, as computations over a store's operations.
  \<^item> \<open>Index_Rollback\<close>, \<open>Index_Guarantees\<close>: the interface \<open>index_store\<close>, proved facts about additions and
    removals over any store with the laws, and their reading for the redb adapter.
  \<^item> \<open>Index_Chain\<close>: the index as an abstract chain of retained blocks; adding a block and removing the
    tip refine appending and dropping.
  \<^item> \<open>Admission\<close> (\<open>sdk/indexing/src/admission.rs\<close>): the gate between plans, commits and published addresses,
    with a step relation over its interleavings and the invariant of its permits.
  \<^item> \<open>Synchronizer\<close>, \<open>Sync_Laws\<close> (\<open>sdk/indexing/src/synchronizer.rs\<close>): a synchronization pass, and what it
    leaves behind on the redb index: it returns, keeps the chain linked, reports the blocks it applied and
    rolls back to the newest retained block the source confirms, whatever the source answers and whether or
    not it fails.
  \<^item> \<open>Index_Service\<close>, \<open>Sync_Runtime\<close> (\<open>sdk/indexing/src/indexer.rs, service.rs, composer.rs, sdk/indexing/runtime\<close>): the
    queries, the service, the composer that routes scopes to indexers, and the loop that keeps them in step.
  \<^item> \<open>Bitcoin_Build\<close> (\<open>sdk/chains/bitcoin/src/transaction\<close>): fee rates, coin selection, draining and grouped
    funding up to the unsigned transaction.
  \<^item> \<open>Bitcoin_Indexer\<close> (\<open>sdk/chains/bitcoin/src/indexer/interpreter.rs, transaction.rs\<close>): what a block means to the
    watched addresses; exact movements, fees and payers, and the net output changes as the effect of the
    transactions one after the other.
  \<^item> \<open>Json\<close>, \<open>Bitcoin_Blocks\<close> (\<open>indexer/model.rs, model_value.rs\<close>): the blocks of Bitcoin Core, every claim of their
    JSON checked against the consensus bytes.
  \<^item> \<open>Bitcoin_Source\<close> (\<open>indexer/source, rpc/client.rs, error.rs, blocks.rs, config.rs\<close>): calls, headers, the resolution
    of previous outputs and the delivered blocks: every fact of a delivered block is one of consensus
    bytes, and the index accepts what the interpreter makes of it.
  \<^item> \<open>Bitcoin_Node\<close> (\<open>rpc/node.rs, fees.rs, transactions.rs, wire.rs\<close>): readiness, fee estimates, preflight and
    submission.
  \<^item> \<open>Transaction_Values\<close>, \<open>Eth_Values\<close>, \<open>Eth_Rpc\<close> (\<open>sdk/chains/base/src/transaction.rs\<close>,
    \<open>sdk/chains/ethereum/src\<close> and \<open>rpc/\<close>): amounts, addresses and ids with their texts, the RPC methods, the
    preflight that bounds gas and fees, and the submission of a signed envelope.
  \<^item> \<open>Eth_Coordinator\<close>, \<open>Eth_Coordination\<close>, \<open>Eth_Balances\<close> (\<open>sdk/chains/ethereum/src/transaction/
    coordinator*.rs\<close>): nonces, claims and submissions under one mutex; the interleavings of its tasks as a
    step relation with its invariant; the balance check of a batch against its specification.
  \<^item> \<open>Wallet_Values\<close>, \<open>Wallets\<close>, \<open>Wallet_Publication\<close> (\<open>sdk/wallets/src\<close>): errors and batch errors, histories in
    display amounts, the collection of wallets with its families and batches; and its interplay with the
    admission gates: no commit goes past a published wallet without watching it.
  \<^item> \<open>Eth_Wallet\<close> (\<open>sdk/chains/ethereum/src/wallet\<close>, \<open>batch.rs\<close>): the configuration of an Ethereum wallet, its
    transfers and their snapshots, its history, and the sender that works off a batch.
  \<^item> \<open>Eth_Indexer\<close> (\<open>sdk/chains/ethereum/src/indexer/model.rs, interpreter.rs\<close>): blocks, receipts and logs checked
    against each other, and what they mean to the watched addresses; interpretation is exact.
  \<^item> \<open>Eth_Source\<close> (\<open>indexer/source/mod.rs\<close>): the check of the chain, complete blocks and their receipts: every
    delivered block can be indexed, and the fallback to transaction receipts is permanent.

  \<^bold>\<open>State and errors.\<close> A stateful operation is a function from a state to a result and the next state;
  a result is an error or a value, and every error message of the source is a named constant. Lists
  and strings have any length, so every length the source checks is checked here too; heights,
  versions and counters keep their 64 bits.

  \<^bold>\<open>Concurrency.\<close> Every critical section is one function on the shared state; the step relations of
  \<open>Admission\<close>, \<open>Eth_Coordination\<close> and \<open>Wallet_Publication\<close> interleave them in any order, with the answers of the outside world
  chosen freely. The calls of one block source follow each other, as those of a synchronizer do: overlapping
  calls that race for the receipt mode of an Ethereum source are not modelled.

  \<^bold>\<open>Termination.\<close> Loops over data are structural recursions or carry a termination proof
  (\<open>settle_change\<close>, which drops a change output per round). The two loops of a reorganisation,
  \<open>find_ancestor\<close> and \<open>revert_to\<close>, may in principle run on: they are partial functions, and the
  properties about them state that they return. No definition takes fuel.

  \<^bold>\<open>Not modelled.\<close> The channels between the store's handle and its owner thread, the validation of the
  database path, the PostgreSQL repository (SQL text), cryptography and signing, HTTP and JSON-RPC
  transport, the Bitcoin wallet, the Solana crate, the API server and the lint tool. The \<open>rust-bitcoin\<close> and \<open>alloy\<close> crates are parameters of the definitions that call them.
\<close>

end
